(* ===== verification/Prelude.thy ===== *)
theory Prelude
  imports Main "HOL-Library.Char_ord" "HOL-Library.List_Lexorder"
begin

text \<open>
  Shared vocabulary of the development: the byte-string functions of Go's \<open>strings\<close> package
  that the repository calls, decimal rendering, the representation of Go errors and of the
  result of a fallible call, and the state of a file on disk.

  A Go string is a sequence of bytes and so is a HOL \<open>string\<close> (a \<open>char\<close> is a byte).  Case
  mapping and white space are those of the ASCII range, the range of every header, address and
  identifier the program compares; bytes from 0x80 up are left as they are.
\<close>

named_theorems go_string \<open>evaluation and algebra of the string operations\<close>
named_theorems result_iff \<open>inversion of successful fallible calls\<close>

section \<open>Errors and results\<close>

text \<open>
  \<open>Err\<close> is a leaf error with its text, the two sentinels are the values the code tests with
  \<open>errors.Is\<close>, and \<open>Wrap pre e post\<close> is \<open>fmt.Errorf\<close> with a \<open>%w\<close> verb.
\<close>

datatype goerror =
    Err string
  | ErrMemoryNotFound
  | ErrMaxTurns
  | Wrap string goerror string

fun err_text :: "goerror \<Rightarrow> string" where
  "err_text (Err s) = s"
| "err_text ErrMemoryNotFound = ''memory not found''"
| "err_text ErrMaxTurns = ''agent hit max turns''"
| "err_text (Wrap pre e post) = pre @ err_text e @ post"

fun err_is :: "goerror \<Rightarrow> goerror \<Rightarrow> bool" where
  "err_is (Wrap pre e post) t = (Wrap pre e post = t \<or> err_is e t)"
| "err_is e t = (e = t)"

type_synonym 'a result = "goerror + 'a"

abbreviation "ok \<equiv> (Inr () :: unit result)"

fun is_ok :: "'a result \<Rightarrow> bool" where
  "is_ok (Inl e) = False"
| "is_ok (Inr x) = True"

lemma is_ok_iff [result_iff]: "is_ok r \<longleftrightarrow> (\<exists>x. r = Inr x)"
  by (cases r) auto

text \<open>
  A file: absent, present but unreadable (an I/O or decoding error), or holding a decoded value.
\<close>

datatype 'a fsfile = Absent | Unreadable goerror | Stored 'a

section \<open>Calls with effects\<close>

text \<open>
  A call that changes a world \<open>'s\<close> and may fail.  \<open>io_bind\<close> stops at the first error, \<open>io_wrap\<close> adds the
  context of \<open>fmt.Errorf\<close> to an error, \<open>io_try\<close> hands the result, error or not, to what follows, and
  \<open>io_finally\<close> runs a deferred call.
\<close>

type_synonym ('s, 'a) io = "'s \<Rightarrow> 'a result \<times> 's"

definition io_return :: "'a \<Rightarrow> ('s, 'a) io" where
  "io_return x = (\<lambda>s. (Inr x, s))"

definition io_fail :: "goerror \<Rightarrow> ('s, 'a) io" where
  "io_fail e = (\<lambda>s. (Inl e, s))"

definition io_bind :: "('s, 'a) io \<Rightarrow> ('a \<Rightarrow> ('s, 'b) io) \<Rightarrow> ('s, 'b) io" where
  "io_bind m f = (\<lambda>s. case m s of (Inl e, s') \<Rightarrow> (Inl e, s') | (Inr x, s') \<Rightarrow> f x s')"

definition io_try :: "('s, 'a) io \<Rightarrow> ('a result \<Rightarrow> ('s, 'b) io) \<Rightarrow> ('s, 'b) io" where
  "io_try m f = (\<lambda>s. case m s of (r, s') \<Rightarrow> f r s')"

definition io_wrap :: "string \<Rightarrow> ('s, 'a) io \<Rightarrow> ('s, 'a) io" where
  "io_wrap pre m = (\<lambda>s. case m s of (Inl e, s') \<Rightarrow> (Inl (Wrap pre e []), s') | (Inr x, s') \<Rightarrow> (Inr x, s'))"

definition io_finally :: "('s, 'a) io \<Rightarrow> ('s \<Rightarrow> 's) \<Rightarrow> ('s, 'a) io" where
  "io_finally m f = (\<lambda>s. case m s of (r, s') \<Rightarrow> (r, f s'))"

fun io_each :: "('a \<Rightarrow> ('s, unit) io) \<Rightarrow> 'a list \<Rightarrow> ('s, unit) io" where
  "io_each f [] = io_return ()"
| "io_each f (x # xs) = io_bind (f x) (\<lambda>_. io_each f xs)"

lemma io_simps [simp]:
  "io_return x s = (Inr x, s)"
  "io_fail e s = (Inl e, s)"
  "m s = (Inr x, s') \<Longrightarrow> io_bind m f s = f x s'"
  "m s = (Inl e, s') \<Longrightarrow> io_bind m f s = (Inl e, s')"
  "m s = (r, s') \<Longrightarrow> io_try m g s = g r s'"
  "m s = (Inr x, s') \<Longrightarrow> io_wrap pre m s = (Inr x, s')"
  "m s = (Inl e, s') \<Longrightarrow> io_wrap pre m s = (Inl (Wrap pre e []), s')"
  by (simp_all add: io_return_def io_fail_def io_bind_def io_try_def io_wrap_def)

lemma io_bind_Inr [result_iff]:
  "io_bind m f s = (Inr y, s'') \<longleftrightarrow> (\<exists>x s'. m s = (Inr x, s') \<and> f x s' = (Inr y, s''))"
  by (auto simp: io_bind_def split: prod.splits sum.splits)

lemma io_wrap_Inr [result_iff]: "io_wrap pre m s = (Inr y, s') \<longleftrightarrow> m s = (Inr y, s')"
  by (auto simp: io_wrap_def split: prod.splits sum.splits)

lemma io_finally_Inr [result_iff]:
  "io_finally m f s = (Inr y, s'') \<longleftrightarrow> (\<exists>s'. m s = (Inr y, s') \<and> s'' = f s')"
  by (auto simp: io_finally_def split: prod.splits)

text \<open>Wrapping the error of a pure result.\<close>

definition wrap_err :: "string \<Rightarrow> 'a result \<Rightarrow> 'a result" where
  "wrap_err pre r = (case r of Inl e \<Rightarrow> Inl (Wrap pre e []) | Inr x \<Rightarrow> Inr x)"

definition and_then :: "'a result \<Rightarrow> ('a \<Rightarrow> 'b result) \<Rightarrow> 'b result" where
  "and_then r f = (case r of Inl e \<Rightarrow> Inl e | Inr x \<Rightarrow> f x)"

lemma result_simps [simp]:
  "wrap_err pre (Inl e) = Inl (Wrap pre e [])" "wrap_err pre (Inr x) = Inr x"
  "and_then (Inl e) f = Inl e" "and_then (Inr x) f = f x"
  by (simp_all add: wrap_err_def and_then_def)

lemma wrap_err_Inr [result_iff]: "wrap_err pre r = Inr x \<longleftrightarrow> r = Inr x"
  by (cases r) auto

lemma and_then_Inr [result_iff]: "and_then r f = Inr y \<longleftrightarrow> (\<exists>x. r = Inr x \<and> f x = Inr y)"
  by (cases r) auto

section \<open>Characters\<close>

abbreviation nl :: char where "nl \<equiv> CHR 0x0A"
abbreviation dquote :: char where "dquote \<equiv> CHR 0x22"
abbreviation squote :: char where "squote \<equiv> CHR 0x27"
abbreviation backslash :: char where "backslash \<equiv> CHR 0x5C"
abbreviation em_dash :: string where "em_dash \<equiv> [CHR 0xE2, CHR 0x80, CHR 0x94]"

definition is_space :: "char \<Rightarrow> bool" where
  "is_space c \<longleftrightarrow> c \<in> set [CHR '' '', CHR 0x09, CHR 0x0A, CHR 0x0B, CHR 0x0C, CHR 0x0D]"

text \<open>The class \<open>\s\<close> of Go regular expressions, which does not hold the vertical tab.\<close>

definition re_space :: "char \<Rightarrow> bool" where
  "re_space c \<longleftrightarrow> c \<in> set [CHR '' '', CHR 0x09, CHR 0x0A, CHR 0x0C, CHR 0x0D]"

definition is_upper :: "char \<Rightarrow> bool" where
  "is_upper c \<longleftrightarrow> (of_char c :: nat) \<in> {65..90}"

definition is_digit :: "char \<Rightarrow> bool" where
  "is_digit c \<longleftrightarrow> (of_char c :: nat) \<in> {48..57}"

definition is_lower :: "char \<Rightarrow> bool" where
  "is_lower c \<longleftrightarrow> (of_char c :: nat) \<in> {97..122}"

definition lower_char :: "char \<Rightarrow> char" where
  "lower_char c = (if is_upper c then char_of (of_char c + (32 :: nat)) else c)"

lemma of_char_lower_char:
  "(of_char (lower_char c) :: nat) = (if is_upper c then of_char c + 32 else of_char c)"
  by (auto simp: lower_char_def is_upper_def)

lemma lower_char_not_upper [simp]: "\<not> is_upper (lower_char c)"
  by (simp add: is_upper_def of_char_lower_char)

lemma lower_char_id [simp]: "\<not> is_upper c \<Longrightarrow> lower_char c = c"
  by (simp add: lower_char_def)

lemma lower_char_idem [simp]: "lower_char (lower_char c) = lower_char c"
  by simp

lemma lower_char_fixed: "\<not> is_upper d \<Longrightarrow> \<not> is_lower d \<Longrightarrow> lower_char c = d \<longleftrightarrow> c = d"
  by (cases "is_upper c") (auto simp: is_upper_def is_lower_def of_char_lower_char)

text \<open>Code equations on the bits of a byte.\<close>

lemma is_upper_code [code]:
  "is_upper (Char b0 b1 b2 b3 b4 b5 b6 b7) \<longleftrightarrow>
     b6 \<and> \<not> b5 \<and> \<not> b7 \<and> (b0 \<or> b1 \<or> b2 \<or> b3 \<or> b4) \<and> \<not> (b4 \<and> b3 \<and> (b2 \<or> b1 \<and> b0))"
  by (cases b0; cases b1; cases b2; cases b3; cases b4; cases b5; cases b6; cases b7)
    (simp_all add: is_upper_def)

lemma is_lower_code [code]:
  "is_lower (Char b0 b1 b2 b3 b4 b5 b6 b7) \<longleftrightarrow>
     b6 \<and> b5 \<and> \<not> b7 \<and> (b0 \<or> b1 \<or> b2 \<or> b3 \<or> b4) \<and> \<not> (b4 \<and> b3 \<and> (b2 \<or> b1 \<and> b0))"
  by (cases b0; cases b1; cases b2; cases b3; cases b4; cases b5; cases b6; cases b7)
    (simp_all add: is_lower_def)

lemma is_digit_code [code]:
  "is_digit (Char b0 b1 b2 b3 b4 b5 b6 b7) \<longleftrightarrow> b4 \<and> b5 \<and> \<not> b6 \<and> \<not> b7 \<and> \<not> (b3 \<and> (b2 \<or> b1))"
  by (cases b0; cases b1; cases b2; cases b3; cases b4; cases b5; cases b6; cases b7)
    (simp_all add: is_digit_def)

lemma lower_char_code [code]:
  "lower_char (Char b0 b1 b2 b3 b4 b5 b6 b7) =
     (if is_upper (Char b0 b1 b2 b3 b4 b5 b6 b7) then Char b0 b1 b2 b3 b4 True b6 b7
      else Char b0 b1 b2 b3 b4 b5 b6 b7)"
proof (cases "is_upper (Char b0 b1 b2 b3 b4 b5 b6 b7)")
  case True
  then have "b6" "\<not> b5" "\<not> b7" by (simp_all add: is_upper_code)
  then have "(of_char (Char b0 b1 b2 b3 b4 True b6 b7) :: nat) = of_char (Char b0 b1 b2 b3 b4 b5 b6 b7) + 32"
    by simp
  then have "char_of (of_char (Char b0 b1 b2 b3 b4 b5 b6 b7) + (32 :: nat)) = Char b0 b1 b2 b3 b4 True b6 b7"
    by (metis char_of_char)
  with True show ?thesis by (simp add: lower_char_def)
qed simp
text \<open>Case and white space of the printable ASCII characters, so that literals are decided by simplification.\<close>

lemma lower_char_literals [simp]:
  "lower_char (CHR ''a'') = CHR ''a''" "lower_char (CHR ''b'') = CHR ''b''"
  "lower_char (CHR ''c'') = CHR ''c''" "lower_char (CHR ''d'') = CHR ''d''"
  "lower_char (CHR ''e'') = CHR ''e''" "lower_char (CHR ''f'') = CHR ''f''"
  "lower_char (CHR ''g'') = CHR ''g''" "lower_char (CHR ''h'') = CHR ''h''"
  "lower_char (CHR ''i'') = CHR ''i''" "lower_char (CHR ''j'') = CHR ''j''"
  "lower_char (CHR ''k'') = CHR ''k''" "lower_char (CHR ''l'') = CHR ''l''"
  "lower_char (CHR ''m'') = CHR ''m''" "lower_char (CHR ''n'') = CHR ''n''"
  "lower_char (CHR ''o'') = CHR ''o''" "lower_char (CHR ''p'') = CHR ''p''"
  "lower_char (CHR ''q'') = CHR ''q''" "lower_char (CHR ''r'') = CHR ''r''"
  "lower_char (CHR ''s'') = CHR ''s''" "lower_char (CHR ''t'') = CHR ''t''"
  "lower_char (CHR ''u'') = CHR ''u''" "lower_char (CHR ''v'') = CHR ''v''"
  "lower_char (CHR ''w'') = CHR ''w''" "lower_char (CHR ''x'') = CHR ''x''"
  "lower_char (CHR ''y'') = CHR ''y''" "lower_char (CHR ''z'') = CHR ''z''"
  "lower_char (CHR ''0'') = CHR ''0''" "lower_char (CHR ''1'') = CHR ''1''"
  "lower_char (CHR ''2'') = CHR ''2''" "lower_char (CHR ''3'') = CHR ''3''"
  "lower_char (CHR ''4'') = CHR ''4''" "lower_char (CHR ''5'') = CHR ''5''"
  "lower_char (CHR ''6'') = CHR ''6''" "lower_char (CHR ''7'') = CHR ''7''"
  "lower_char (CHR ''8'') = CHR ''8''" "lower_char (CHR ''9'') = CHR ''9''"
  "lower_char (CHR ''_'') = CHR ''_''" "lower_char (CHR ''-'') = CHR ''-''"
  "lower_char (CHR ''.'') = CHR ''.''" "lower_char (CHR '':'') = CHR '':''"
  "lower_char (CHR ''/'') = CHR ''/''" "lower_char (CHR ''@'') = CHR ''@''"
  "lower_char (CHR ''<'') = CHR ''<''" "lower_char (CHR ''>'') = CHR ''>''"
  "lower_char (CHR ''['') = CHR ''[''" "lower_char (CHR '']'') = CHR '']''"
  "lower_char (CHR ''&'') = CHR ''&''" "lower_char (CHR '';'') = CHR '';''"
  "lower_char (CHR '' '') = CHR '' ''" "lower_char (CHR ''!'') = CHR ''!''"
  "lower_char (CHR ''?'') = CHR ''?''" "lower_char (CHR ''*'') = CHR ''*''"
  "lower_char (CHR ''+'') = CHR ''+''" "lower_char (CHR ''='') = CHR ''=''"
  "lower_char (CHR '','') = CHR '',''" "lower_char (CHR ''('') = CHR ''(''"
  "lower_char (CHR '')'') = CHR '')''" "lower_char (CHR ''{'') = CHR ''{''"
  "lower_char (CHR ''}'') = CHR ''}''" "lower_char (CHR ''|'') = CHR ''|''"
  "lower_char (CHR ''#'') = CHR ''#''" "lower_char (CHR ''$'') = CHR ''$''"
  "lower_char (CHR ''%'') = CHR ''%''" "lower_char (CHR ''~'') = CHR ''~''"
  "lower_char (CHR ''^'') = CHR ''^''" "lower_char (CHR ''A'') = CHR ''a''"
  "lower_char (CHR ''B'') = CHR ''b''" "lower_char (CHR ''C'') = CHR ''c''"
  "lower_char (CHR ''D'') = CHR ''d''" "lower_char (CHR ''E'') = CHR ''e''"
  "lower_char (CHR ''F'') = CHR ''f''" "lower_char (CHR ''G'') = CHR ''g''"
  "lower_char (CHR ''H'') = CHR ''h''" "lower_char (CHR ''I'') = CHR ''i''"
  "lower_char (CHR ''J'') = CHR ''j''" "lower_char (CHR ''K'') = CHR ''k''"
  "lower_char (CHR ''L'') = CHR ''l''" "lower_char (CHR ''M'') = CHR ''m''"
  "lower_char (CHR ''N'') = CHR ''n''" "lower_char (CHR ''O'') = CHR ''o''"
  "lower_char (CHR ''P'') = CHR ''p''" "lower_char (CHR ''Q'') = CHR ''q''"
  "lower_char (CHR ''R'') = CHR ''r''" "lower_char (CHR ''S'') = CHR ''s''"
  "lower_char (CHR ''T'') = CHR ''t''" "lower_char (CHR ''U'') = CHR ''u''"
  "lower_char (CHR ''V'') = CHR ''v''" "lower_char (CHR ''W'') = CHR ''w''"
  "lower_char (CHR ''X'') = CHR ''x''" "lower_char (CHR ''Y'') = CHR ''y''"
  "lower_char (CHR ''Z'') = CHR ''z''"
  by code_simp+

lemma is_space_literals [simp]:
  "\<not> is_space (CHR ''a'')" "\<not> is_space (CHR ''b'')" "\<not> is_space (CHR ''c'')"
  "\<not> is_space (CHR ''d'')" "\<not> is_space (CHR ''e'')" "\<not> is_space (CHR ''f'')"
  "\<not> is_space (CHR ''g'')" "\<not> is_space (CHR ''h'')" "\<not> is_space (CHR ''i'')"
  "\<not> is_space (CHR ''j'')" "\<not> is_space (CHR ''k'')" "\<not> is_space (CHR ''l'')"
  "\<not> is_space (CHR ''m'')" "\<not> is_space (CHR ''n'')" "\<not> is_space (CHR ''o'')"
  "\<not> is_space (CHR ''p'')" "\<not> is_space (CHR ''q'')" "\<not> is_space (CHR ''r'')"
  "\<not> is_space (CHR ''s'')" "\<not> is_space (CHR ''t'')" "\<not> is_space (CHR ''u'')"
  "\<not> is_space (CHR ''v'')" "\<not> is_space (CHR ''w'')" "\<not> is_space (CHR ''x'')"
  "\<not> is_space (CHR ''y'')" "\<not> is_space (CHR ''z'')" "\<not> is_space (CHR ''A'')"
  "\<not> is_space (CHR ''B'')" "\<not> is_space (CHR ''C'')" "\<not> is_space (CHR ''D'')"
  "\<not> is_space (CHR ''E'')" "\<not> is_space (CHR ''F'')" "\<not> is_space (CHR ''G'')"
  "\<not> is_space (CHR ''H'')" "\<not> is_space (CHR ''I'')" "\<not> is_space (CHR ''J'')"
  "\<not> is_space (CHR ''K'')" "\<not> is_space (CHR ''L'')" "\<not> is_space (CHR ''M'')"
  "\<not> is_space (CHR ''N'')" "\<not> is_space (CHR ''O'')" "\<not> is_space (CHR ''P'')"
  "\<not> is_space (CHR ''Q'')" "\<not> is_space (CHR ''R'')" "\<not> is_space (CHR ''S'')"
  "\<not> is_space (CHR ''T'')" "\<not> is_space (CHR ''U'')" "\<not> is_space (CHR ''V'')"
  "\<not> is_space (CHR ''W'')" "\<not> is_space (CHR ''X'')" "\<not> is_space (CHR ''Y'')"
  "\<not> is_space (CHR ''Z'')" "\<not> is_space (CHR ''0'')" "\<not> is_space (CHR ''1'')"
  "\<not> is_space (CHR ''2'')" "\<not> is_space (CHR ''3'')" "\<not> is_space (CHR ''4'')"
  "\<not> is_space (CHR ''5'')" "\<not> is_space (CHR ''6'')" "\<not> is_space (CHR ''7'')"
  "\<not> is_space (CHR ''8'')" "\<not> is_space (CHR ''9'')" "\<not> is_space (CHR ''_'')"
  "\<not> is_space (CHR ''-'')" "\<not> is_space (CHR ''.'')" "\<not> is_space (CHR '':'')"
  "\<not> is_space (CHR ''/'')" "\<not> is_space (CHR ''@'')" "\<not> is_space (CHR ''<'')"
  "\<not> is_space (CHR ''>'')" "\<not> is_space (CHR ''['')" "\<not> is_space (CHR '']'')"
  "\<not> is_space (CHR ''&'')" "\<not> is_space (CHR '';'')" "\<not> is_space (CHR ''!'')"
  "\<not> is_space (CHR ''?'')" "\<not> is_space (CHR ''*'')" "\<not> is_space (CHR ''+'')"
  "\<not> is_space (CHR ''='')" "\<not> is_space (CHR '','')" "\<not> is_space (CHR ''('')"
  "\<not> is_space (CHR '')'')" "\<not> is_space (CHR ''{'')" "\<not> is_space (CHR ''}'')"
  "\<not> is_space (CHR ''|'')" "\<not> is_space (CHR ''#'')" "\<not> is_space (CHR ''$'')"
  "\<not> is_space (CHR ''%'')" "\<not> is_space (CHR ''~'')" "\<not> is_space (CHR ''^'')"
  "is_space (CHR '' '')"
  by code_simp+

section \<open>Strings\<close>

text \<open>\<open>strings.ToLower\<close>, \<open>strings.EqualFold\<close> and the trimming functions.\<close>

definition to_lower :: "string \<Rightarrow> string" where
  "to_lower = map lower_char"

definition equal_fold :: "string \<Rightarrow> string \<Rightarrow> bool" where
  "equal_fold a b \<longleftrightarrow> to_lower a = to_lower b"

definition trim_left :: "(char \<Rightarrow> bool) \<Rightarrow> string \<Rightarrow> string" where
  "trim_left = dropWhile"

definition trim_right :: "(char \<Rightarrow> bool) \<Rightarrow> string \<Rightarrow> string" where
  "trim_right P s = rev (dropWhile P (rev s))"

definition trim_by :: "(char \<Rightarrow> bool) \<Rightarrow> string \<Rightarrow> string" where
  "trim_by P s = trim_right P (trim_left P s)"

abbreviation trim_space :: "string \<Rightarrow> string" where
  "trim_space \<equiv> trim_by is_space"

definition has_prefix :: "string \<Rightarrow> string \<Rightarrow> bool" where
  "has_prefix p s \<longleftrightarrow> take (length p) s = p"

definition has_suffix :: "string \<Rightarrow> string \<Rightarrow> bool" where
  "has_suffix p s \<longleftrightarrow> has_prefix (rev p) (rev s)"

definition trim_prefix :: "string \<Rightarrow> string \<Rightarrow> string" where
  "trim_prefix p s = (if has_prefix p s then drop (length p) s else s)"

definition trim_suffix :: "string \<Rightarrow> string \<Rightarrow> string" where
  "trim_suffix p s = (if has_suffix p s then take (length s - length p) s else s)"

text \<open>\<open>strings.Index\<close> and \<open>strings.Contains\<close>, for a substring and for a byte.\<close>

fun index_sub :: "string \<Rightarrow> string \<Rightarrow> nat option" where
  "index_sub p [] = (if p = [] then Some 0 else None)"
| "index_sub p (c # cs) =
     (if has_prefix p (c # cs) then Some 0 else map_option Suc (index_sub p cs))"

definition contains_sub :: "string \<Rightarrow> string \<Rightarrow> bool" where
  "contains_sub p s \<longleftrightarrow> index_sub p s \<noteq> None"

fun index_char :: "char \<Rightarrow> string \<Rightarrow> nat option" where
  "index_char d [] = None"
| "index_char d (c # cs) = (if c = d then Some 0 else map_option Suc (index_char d cs))"

text \<open>\<open>strings.Split\<close> on a one-byte separator, \<open>strings.Fields\<close> and \<open>strings.Join\<close>.\<close>

fun split_by :: "(char \<Rightarrow> bool) \<Rightarrow> string \<Rightarrow> string list" where
  "split_by P [] = [[]]"
| "split_by P (c # cs) =
     (if P c then [] # split_by P cs
      else (case split_by P cs of [] \<Rightarrow> [[c]] | w # ws \<Rightarrow> (c # w) # ws))"

definition split_char :: "char \<Rightarrow> string \<Rightarrow> string list" where
  "split_char d = split_by (\<lambda>c. c = d)"

definition go_fields :: "string \<Rightarrow> string list" where
  "go_fields s = filter (\<lambda>w. w \<noteq> []) (split_by is_space s)"

fun join :: "string \<Rightarrow> string list \<Rightarrow> string" where
  "join sep [] = []"
| "join sep [w] = w"
| "join sep (w # v # ws) = w @ sep @ join sep (v # ws)"

text \<open>\<open>strings.ReplaceAll\<close>; the program never replaces the empty string.\<close>

function replace_all :: "string \<Rightarrow> string \<Rightarrow> string \<Rightarrow> string" where
  "replace_all old new s =
     (if old = [] then s
      else case s of
        [] \<Rightarrow> []
      | c # cs \<Rightarrow>
          if has_prefix old (c # cs) then new @ replace_all old new (drop (length old) (c # cs))
          else c # replace_all old new cs)"
  by pat_completeness auto
termination
  by (relation "measure (\<lambda>(old, new, s). length s)") auto

declare replace_all.simps [simp del]

text \<open>The decimal rendering of \<open>%d\<close>.\<close>

fun show_nat :: "nat \<Rightarrow> string" where
  "show_nat n = (if n < 10 then [char_of (48 + n)]
                 else show_nat (n div 10) @ [char_of (48 + n mod 10)])"

declare show_nat.simps [simp del]

definition show_int :: "int \<Rightarrow> string" where
  "show_int i = (if i < 0 then ''-'' @ show_nat (nat (- i)) else show_nat (nat i))"

text \<open>
  The quoting of \<open>%q\<close>: the two quote characters, the named control escapes, \<open>\x..\<close> for the other
  control bytes, and everything else as it is.
\<close>

definition hex_digit :: "nat \<Rightarrow> char" where
  "hex_digit n = (if n < 10 then char_of (48 + n) else char_of (87 + n))"

definition quote_char :: "char \<Rightarrow> string" where
  "quote_char c =
     (let n = of_char c :: nat in
      if c = dquote then [backslash, dquote]
      else if c = backslash then [backslash, backslash]
      else if n = 7 then [backslash, CHR ''a'']
      else if n = 8 then [backslash, CHR ''b'']
      else if n = 9 then [backslash, CHR ''t'']
      else if n = 10 then [backslash, CHR ''n'']
      else if n = 11 then [backslash, CHR ''v'']
      else if n = 12 then [backslash, CHR ''f'']
      else if n = 13 then [backslash, CHR ''r'']
      else if n < 32 \<or> n = 127 then [backslash, CHR ''x'', hex_digit (n div 16), hex_digit (n mod 16)]
      else [c])"

definition go_quote :: "string \<Rightarrow> string" where
  "go_quote s = [dquote] @ concat (map quote_char s) @ [dquote]"

text \<open>\<open>bytes.Split\<close> on a longer separator; \<open>fuel\<close> bounds the number of pieces by the length.\<close>

fun split_sub_fuel :: "nat \<Rightarrow> string \<Rightarrow> string \<Rightarrow> string list" where
  "split_sub_fuel 0 sep s = [s]"
| "split_sub_fuel (Suc n) sep s =
     (case index_sub sep s of
        None \<Rightarrow> [s]
      | Some i \<Rightarrow> take i s # split_sub_fuel n sep (drop (i + length sep) s))"

definition split_sub :: "string \<Rightarrow> string \<Rightarrow> string list" where
  "split_sub sep s = split_sub_fuel (length s) sep s"

section \<open>Lemmas on strings\<close>

lemma to_lower_simps [simp, go_string]:
  "to_lower [] = []"
  "to_lower (c # cs) = lower_char c # to_lower cs"
  "to_lower (a @ b) = to_lower a @ to_lower b"
  by (simp_all add: to_lower_def)

lemma to_lower_idem [simp, go_string]: "to_lower (to_lower s) = to_lower s"
  by (simp add: to_lower_def)

lemma length_to_lower [simp, go_string]: "length (to_lower s) = length s"
  by (simp add: to_lower_def)

lemma equal_fold_refl [simp, go_string]: "equal_fold s s"
  by (simp add: equal_fold_def)

lemma equal_fold_sym: "equal_fold a b \<longleftrightarrow> equal_fold b a"
  by (auto simp: equal_fold_def)

lemma equal_fold_trans: "equal_fold a b \<Longrightarrow> equal_fold b c \<Longrightarrow> equal_fold a c"
  by (simp add: equal_fold_def)

lemma equal_fold_lower [simp, go_string]:
  "equal_fold (to_lower a) b = equal_fold a b"
  "equal_fold a (to_lower b) = equal_fold a b"
  by (simp_all add: equal_fold_def)

lemma has_prefix_iff: "has_prefix p s \<longleftrightarrow> (\<exists>t. s = p @ t)"
  by (auto simp: has_prefix_def) (metis append_take_drop_id)

lemma has_prefix_append [simp, go_string]: "has_prefix p (p @ t)"
  by (simp add: has_prefix_def)

lemma has_prefix_Nil [simp, go_string]: "has_prefix [] s"
  by (simp add: has_prefix_def)

lemma has_prefix_Cons [simp, go_string]:
  "has_prefix (a # p) [] = False"
  "has_prefix (a # p) (b # s) = (a = b \<and> has_prefix p s)"
  by (auto simp: has_prefix_def)

lemma has_prefix_length: "has_prefix p s \<Longrightarrow> length p \<le> length s"
  by (auto simp: has_prefix_iff)

lemma has_suffix_iff: "has_suffix p s \<longleftrightarrow> (\<exists>t. s = t @ p)"
  by (simp add: has_suffix_def has_prefix_iff) (metis rev_append rev_rev_ident)

lemma has_suffix_append [simp, go_string]: "has_suffix p (t @ p)"
  by (auto simp: has_suffix_iff)

lemma trim_prefix_append [simp, go_string]: "trim_prefix p (p @ t) = t"
  by (simp add: trim_prefix_def)

lemma trim_suffix_append [simp, go_string]: "trim_suffix p (t @ p) = t"
  by (simp add: trim_suffix_def)

lemma contains_sub_iff: "contains_sub p s \<longleftrightarrow> (\<exists>a b. s = a @ p @ b)"
proof (induction s)
  case Nil
  then show ?case by (auto simp: contains_sub_def)
next
  case (Cons c cs)
  have "contains_sub p (c # cs) \<longleftrightarrow> has_prefix p (c # cs) \<or> contains_sub p cs"
    by (simp add: contains_sub_def)
  also have "\<dots> \<longleftrightarrow> (\<exists>b. c # cs = p @ b) \<or> (\<exists>a b. cs = a @ p @ b)"
    by (simp add: has_prefix_iff Cons.IH)
  also have "\<dots> \<longleftrightarrow> (\<exists>a b. c # cs = a @ p @ b)"
    by (metis append_Cons append_Nil list.exhaust list.inject)
  finally show ?case .
qed

lemma contains_char_iff: "contains_sub [d] s \<longleftrightarrow> d \<in> set s"
  by (auto simp: contains_sub_iff) (metis split_list)

lemma index_char_None_iff: "index_char d s = None \<longleftrightarrow> d \<notin> set s"
  by (induction s) auto

lemma index_char_Some:
  "index_char d s = Some i \<Longrightarrow> i < length s \<and> s ! i = d \<and> d \<notin> set (take i s)"
  by (induction s arbitrary: i) (auto split: if_splits)

lemma split_by_not_Nil [simp]: "split_by P s \<noteq> []"
  by (cases s) (auto split: list.splits)

lemma split_by_id: "(\<And>c. c \<in> set s \<Longrightarrow> \<not> P c) \<Longrightarrow> split_by P s = [s]"
  by (induction s) auto

lemma split_by_no_sep: "w \<in> set (split_by P s) \<Longrightarrow> c \<in> set w \<Longrightarrow> \<not> P c"
proof (induction s arbitrary: w)
  case Nil
  then show ?case by simp
next
  case (Cons a s)
  obtain v vs where v: "split_by P s = v # vs"
    by (meson list.exhaust split_by_not_Nil)
  show ?case
  proof (cases "P a")
    case True
    with Cons show ?thesis by auto
  next
    case False
    with Cons.prems v have "w = a # v \<or> w \<in> set (split_by P s)" by auto
    then show ?thesis
    proof
      assume w: "w = a # v"
      with Cons.prems(2) consider "c = a" | "c \<in> set v" by auto
      then show ?thesis using False Cons.IH [of v] v by cases auto
    qed (use Cons.IH Cons.prems(2) in blast)
  qed
qed

lemma split_char_no_sep: "w \<in> set (split_char d s) \<Longrightarrow> d \<notin> set w"
  using split_by_no_sep [of w "\<lambda>c. c = d" s d] by (auto simp: split_char_def)

lemma split_by_append:
  "(\<And>c. c \<in> set a \<Longrightarrow> \<not> P c) \<Longrightarrow> P d \<Longrightarrow> split_by P (a @ d # b) = a # split_by P b"
  by (induction a) auto

lemma split_char_not_Nil [simp]: "split_char d s \<noteq> []"
  by (simp add: split_char_def)

lemma split_char_id: "d \<notin> set s \<Longrightarrow> split_char d s = [s]"
  unfolding split_char_def by (rule split_by_id) auto

lemma join_split_char: "join [d] (split_char d s) = s"
proof (induction s)
  case Nil
  then show ?case by (simp add: split_char_def)
next
  case (Cons c s)
  obtain w ws where w: "split_char d s = w # ws"
    by (meson list.exhaust split_char_not_Nil)
  with Cons.IH have j: "join [d] (w # ws) = s" by simp
  show ?case
  proof (cases "c = d")
    case True
    with w j show ?thesis by (simp add: split_char_def)
  next
    case False
    with w j show ?thesis by (cases ws) (simp_all add: split_char_def)
  qed
qed

lemma length_split_char: "length (split_char d s) = Suc (count_list s d)"
proof (induction s)
  case Nil
  then show ?case by (simp add: split_char_def)
next
  case (Cons c s)
  then show ?case
    by (cases "split_char d s") (auto simp: split_char_def)
qed

lemma split_char_join:
  "ws \<noteq> [] \<Longrightarrow> (\<And>w. w \<in> set ws \<Longrightarrow> d \<notin> set w) \<Longrightarrow> split_char d (join [d] ws) = ws"
proof (induction "[d]" ws rule: join.induct)
  case (3 w v ws)
  have "split_char d (w @ d # join [d] (v # ws)) = w # split_char d (join [d] (v # ws))"
    unfolding split_char_def by (rule split_by_append) (use "3.prems" in auto)
  with 3 show ?case by simp
qed (simp_all add: split_char_id)

lemma trim_right_Nil [simp]: "trim_right P [] = []"
  by (simp add: trim_right_def)

lemma trim_right_Cons:
  "trim_right P (c # s) = (if (\<forall>x\<in>set s. P x) \<and> P c then [] else c # trim_right P s)"
  by (simp add: trim_right_def dropWhile_append)

lemma trim_right_eq_Nil: "trim_right P s = [] \<longleftrightarrow> (\<forall>c\<in>set s. P c)"
  by (simp add: trim_right_def)

lemma trim_right_id: "s \<noteq> [] \<Longrightarrow> \<not> P (last s) \<Longrightarrow> trim_right P s = s"
  by (cases s rule: rev_cases) (simp_all add: trim_right_def)

lemma set_trim_right: "set (trim_right P s) \<subseteq> set s"
  by (auto simp: trim_right_def dest: set_dropWhileD)

lemma trim_by_eq_Nil: "trim_by P s = [] \<longleftrightarrow> (\<forall>c\<in>set s. P c)"
proof -
  have "(\<forall>c\<in>set (dropWhile P s). P c) \<longleftrightarrow> (\<forall>c\<in>set s. P c)"
    by (induction s) auto
  then show ?thesis unfolding trim_by_def trim_left_def trim_right_eq_Nil .
qed

lemma trim_by_Nil [simp, go_string]: "trim_by P [] = []"
  by (simp add: trim_by_eq_Nil)

lemma trim_by_id:
  assumes "s \<noteq> []" "\<not> P (hd s)" "\<not> P (last s)"
  shows "trim_by P s = s"
proof -
  from assms(1,2) have "trim_left P s = s" by (cases s) (simp_all add: trim_left_def)
  with assms(1,3) show ?thesis by (simp add: trim_by_def trim_right_id)
qed

lemma hd_trim_by: "trim_by P s \<noteq> [] \<Longrightarrow> \<not> P (hd (trim_by P s))"
proof -
  assume ne: "trim_by P s \<noteq> []"
  let ?t = "dropWhile P s"
  have t: "?t \<noteq> []" using ne unfolding trim_by_def trim_left_def by (metis trim_right_Nil)
  then obtain c u where cu: "?t = c # u" by (cases ?t) auto
  then have "\<not> P c" by (metis hd_dropWhile list.sel(1) t)
  with cu show ?thesis by (simp add: trim_by_def trim_left_def trim_right_Cons)
qed

lemma last_trim_by: "trim_by P s \<noteq> [] \<Longrightarrow> \<not> P (last (trim_by P s))"
  unfolding trim_by_def trim_right_def
  by (metis Nil_is_rev_conv hd_dropWhile last_rev)

lemma trim_by_idem [simp, go_string]: "trim_by P (trim_by P s) = trim_by P s"
proof (cases "trim_by P s = []")
  case True
  then show ?thesis by simp
next
  case False
  show ?thesis by (rule trim_by_id [OF False hd_trim_by [OF False] last_trim_by [OF False]])
qed

lemma set_trim_by: "set (trim_by P s) \<subseteq> set s"
  using set_trim_right [of P "dropWhile P s"]
  by (auto simp: trim_by_def trim_left_def dest: set_dropWhileD)

text \<open>Trimming and lower-casing commute: case mapping does not touch white space.\<close>

lemma is_space_of_char: "is_space d \<longleftrightarrow> of_char d \<in> {32, 9, 10, 11, 12, 13 :: nat}"
proof
  assume "is_space d"
  then show "of_char d \<in> {32, 9, 10, 11, 12, 13 :: nat}" by (auto simp: is_space_def)
next
  assume "of_char d \<in> {32, 9, 10, 11, 12, 13 :: nat}"
  then have "d \<in> char_of ` {32, 9, 10, 11, 12, 13 :: nat}" by (metis char_of_char image_eqI)
  then show "is_space d" by (auto simp: is_space_def char_of_def bit_simps)
qed

lemma is_space_lower_char [simp]: "is_space (lower_char c) = is_space c"
  by (auto simp: is_space_of_char of_char_lower_char is_upper_def)

lemma to_lower_trim_space: "to_lower (trim_space s) = trim_space (to_lower s)"
proof -
  have d: "dropWhile is_space (map lower_char t) = map lower_char (dropWhile is_space t)" for t
    by (simp add: dropWhile_map comp_def)
  show ?thesis
    by (simp add: trim_by_def trim_left_def trim_right_def to_lower_def d rev_map)
qed

lemma trim_by_none: "(\<And>c. c \<in> set s \<Longrightarrow> \<not> P c) \<Longrightarrow> trim_by P s = s"
  by (cases "s = []") (simp_all add: trim_by_id)

section \<open>Lists\<close>

lemma map_update_same: "f y = f (xs ! i) \<Longrightarrow> map f (xs[i := y]) = map f xs"
  by (cases "i < length xs") (simp_all add: map_update list_update_same_conv list_update_beyond)

lemma nth_update_pred:
  assumes "k < length (xs[i := y])" "\<not> Q ((xs[i := y]) ! k)" "Q y"
  shows "k \<noteq> i \<and> k < length xs \<and> \<not> Q (xs ! k)"
  using assms by (cases "k = i") (auto simp: nth_list_update)

end
