(* ===== verification/Encoding.thy ===== *)
theory Encoding
  imports Prelude
begin

text \<open>
  The byte encodings of Go's standard library that the program relies on: standard base64
  (\<open>encoding/base64\<close>, used for the Outlook \<open>Thread-Index\<close> header and for attachments), hexadecimal
  (\<open>encoding/hex\<close> and \<open>%x\<close>) and the percent encoding of URL path segments (\<open>net/url\<close>, used for the
  names of memory files), each with its round trip.
\<close>

section \<open>Hexadecimal\<close>

definition hex_encode :: "string \<Rightarrow> string" where
  "hex_encode bs = concat (map (\<lambda>c. [hex_digit (of_char c div 16), hex_digit (of_char c mod 16)]) bs)"

definition hex_value :: "char \<Rightarrow> nat option" where
  "hex_value c =
     (let n = of_char c :: nat in
      if 48 \<le> n \<and> n \<le> 57 then Some (n - 48)
      else if 97 \<le> n \<and> n \<le> 102 then Some (n - 87)
      else if 65 \<le> n \<and> n \<le> 70 then Some (n - 55)
      else None)"

fun hex_decode :: "string \<Rightarrow> string option" where
  "hex_decode [] = Some []"
| "hex_decode [c] = None"
| "hex_decode (a # b # cs) =
     (case (hex_value a, hex_value b, hex_decode cs) of
        (Some x, Some y, Some bs) \<Rightarrow> Some (char_of (16 * x + y) # bs)
      | _ \<Rightarrow> None)"

lemma hex_value_digit: "n < 16 \<Longrightarrow> hex_value (hex_digit n) = Some n"
  by (auto simp: hex_value_def hex_digit_def Let_def)

lemma of_char_div16: "(of_char c :: nat) div 16 < 16"
  using nat_of_char_less_256 [of c] by presburger

lemma hex_decode_encode [go_string]: "hex_decode (hex_encode bs) = Some bs"
  by (induction bs) (auto simp: hex_encode_def hex_value_digit of_char_div16)

lemma length_hex_encode [simp]: "length (hex_encode bs) = 2 * length bs"
  by (induction bs) (auto simp: hex_encode_def)

section \<open>Base64\<close>

definition b64_alphabet :: string where
  "b64_alphabet = ''ABCDEFGHIJKLMNOPQRSTUVWXYZabcdefghijklmnopqrstuvwxyz0123456789+/''"

definition b64_char :: "nat \<Rightarrow> char" where
  "b64_char n = b64_alphabet ! n"

definition b64_value :: "char \<Rightarrow> nat option" where
  "b64_value c = index_char c b64_alphabet"

fun b64_encode :: "string \<Rightarrow> string" where
  "b64_encode [] = []"
| "b64_encode [a] =
     (let x = of_char a in
      [b64_char (x div 4), b64_char ((x mod 4) * 16), CHR ''='', CHR ''=''])"
| "b64_encode [a, b] =
     (let x = of_char a; y = of_char b in
      [b64_char (x div 4), b64_char ((x mod 4) * 16 + y div 16),
       b64_char ((y mod 16) * 4), CHR ''=''])"
| "b64_encode (a # b # c # cs) =
     (let x = of_char a; y = of_char b; z = of_char c in
      [b64_char (x div 4), b64_char ((x mod 4) * 16 + y div 16),
       b64_char ((y mod 16) * 4 + z div 64), b64_char (z mod 64)] @ b64_encode cs)"

text \<open>
  The decoder skips carriage returns and line feeds, wants full groups of four with the padding in
  the last group only, and ignores the spare bits of a padded group.
\<close>

fun b64_groups :: "string \<Rightarrow> string option" where
  "b64_groups [] = Some []"
| "b64_groups (a # b # c # d # rest) =
     (case (b64_value a, b64_value b) of
        (Some s1, Some s2) \<Rightarrow>
          if d = CHR ''='' then
            (if rest \<noteq> [] then None
             else if c = CHR ''='' then Some [char_of (s1 * 4 + s2 div 16)]
             else case b64_value c of
                    Some s3 \<Rightarrow> Some [char_of (s1 * 4 + s2 div 16), char_of ((s2 mod 16) * 16 + s3 div 4)]
                  | None \<Rightarrow> None)
          else (case (b64_value c, b64_value d, b64_groups rest) of
                  (Some s3, Some s4, Some bs) \<Rightarrow>
                    Some (char_of (s1 * 4 + s2 div 16) # char_of ((s2 mod 16) * 16 + s3 div 4)
                          # char_of ((s3 mod 4) * 64 + s4) # bs)
                | _ \<Rightarrow> None)
      | _ \<Rightarrow> None)"
| "b64_groups _ = None"

definition b64_decode :: "string \<Rightarrow> string option" where
  "b64_decode s = b64_groups (filter (\<lambda>c. c \<noteq> nl \<and> c \<noteq> CHR 0x0D) s)"

lemma b64_table:
  "\<forall>n\<in>set [0..<64]. b64_value (b64_char n) = Some n \<and> b64_char n \<noteq> CHR ''='' \<and>
     b64_char n \<noteq> nl \<and> b64_char n \<noteq> CHR 0x0D"
  by code_simp

lemma b64_char_props [simp]:
  assumes "n < 64"
  shows "b64_value (b64_char n) = Some n" "b64_char n \<noteq> CHR ''=''"
    "b64_char n \<noteq> nl" "b64_char n \<noteq> CHR 0x0D"
  using assms b64_table by auto

lemma byte_div_small [simp]:
  "(of_char c :: nat) div 16 div 16 = 0"
  "(of_char c :: nat) div 16 mod 16 = of_char c div 16"
  "(of_char c :: nat) div 64 div 4 = 0"
  "(of_char c :: nat) div 64 mod 4 = of_char c div 64"
proof -
  have b: "(of_char c :: nat) < 256" by simp
  then have "(of_char c :: nat) div 16 < 16" by (simp add: less_mult_imp_div_less)
  moreover from b have "(of_char c :: nat) div 64 < 4" by (simp add: less_mult_imp_div_less)
  ultimately show "(of_char c :: nat) div 16 div 16 = 0"
    "(of_char c :: nat) div 16 mod 16 = of_char c div 16"
    "(of_char c :: nat) div 64 div 4 = 0"
    "(of_char c :: nat) div 64 mod 4 = of_char c div 64"
    by simp_all
qed

lemma sextet_bounds [simp]:
  "(of_char c :: nat) div 4 < 64"
  "(of_char c mod 4) * 16 < (64 :: nat)"
  "(of_char c mod 4) * 16 + of_char d div 16 < (64 :: nat)"
  "(of_char c mod 16) * 4 < (64 :: nat)"
  "(of_char c mod 16) * 4 + of_char d div 64 < (64 :: nat)"
  "of_char c mod 64 < (64 :: nat)"
proof -
  have c: "(of_char c :: nat) div 4 < 64" by (simp add: less_mult_imp_div_less)
  have d: "(of_char d :: nat) div 16 < 16" "(of_char d :: nat) div 64 < 4"
    by (simp_all add: less_mult_imp_div_less)
  have m: "(of_char c :: nat) mod 4 < 4" "(of_char c :: nat) mod 16 < 16" by simp_all
  show "(of_char c :: nat) div 4 < 64" by (rule c)
  show "(of_char c mod 4) * 16 < (64 :: nat)" using m(1) by linarith
  show "(of_char c mod 4) * 16 + of_char d div 16 < (64 :: nat)" using m(1) d(1) by linarith
  show "(of_char c mod 16) * 4 < (64 :: nat)" using m(2) by linarith
  show "(of_char c mod 16) * 4 + of_char d div 64 < (64 :: nat)" using m(2) d(2) by linarith
  show "of_char c mod 64 < (64 :: nat)" by simp
qed

lemma b64_groups_encode: "b64_groups (b64_encode bs) = Some bs"
  by (induction bs rule: b64_encode.induct) (simp_all add: Let_def)

lemma b64_char_no_newline: "n < 64 \<Longrightarrow> nl \<noteq> b64_char n \<and> CHR 0x0D \<noteq> b64_char n"
  using b64_char_props(3,4) [of n] by metis

lemma b64_encode_no_newline: "nl \<notin> set (b64_encode bs) \<and> CHR 0x0D \<notin> set (b64_encode bs)"
  by (induction bs rule: b64_encode.induct) (simp_all add: Let_def b64_char_no_newline)

lemma b64_decode_encode [go_string]: "b64_decode (b64_encode bs) = Some bs"
proof -
  have "filter (\<lambda>c. c \<noteq> nl \<and> c \<noteq> CHR 0x0D) (b64_encode bs) = b64_encode bs"
    by (rule filter_True) (use b64_encode_no_newline [of bs] in auto)
  then show ?thesis by (simp add: b64_decode_def b64_groups_encode)
qed

section \<open>Path segments\<close>

text \<open>
  \<open>url.PathEscape\<close> keeps letters, digits and \<open>-_.~$&+:=@\<close>, and escapes every other byte.
\<close>

definition path_plain :: "char \<Rightarrow> bool" where
  "path_plain c \<longleftrightarrow> is_lower c \<or> is_upper c \<or> is_digit c \<or> c \<in> set ''-_.~$&+:=@''"

definition upper_hex_digit :: "nat \<Rightarrow> char" where
  "upper_hex_digit n = (if n < 10 then char_of (48 + n) else char_of (55 + n))"

definition escape_char :: "char \<Rightarrow> string" where
  "escape_char c =
     (if path_plain c then [c]
      else [CHR ''%'', upper_hex_digit (of_char c div 16), upper_hex_digit (of_char c mod 16)])"

definition PathEscape :: "string \<Rightarrow> string" where
  "PathEscape s = concat (map escape_char s)"

fun PathUnescape :: "string \<Rightarrow> string option" where
  "PathUnescape [] = Some []"
| "PathUnescape (c # cs) =
     (if c = CHR ''%'' then
        (case cs of
           a # b # rest \<Rightarrow>
             (case (hex_value a, hex_value b) of
                (Some x, Some y) \<Rightarrow> map_option ((#) (char_of (16 * x + y))) (PathUnescape rest)
              | _ \<Rightarrow> None)
         | _ \<Rightarrow> None)
      else map_option ((#) c) (PathUnescape cs))"

lemma hex_value_upper: "n < 16 \<Longrightarrow> hex_value (upper_hex_digit n) = Some n"
  by (auto simp: hex_value_def upper_hex_digit_def Let_def)

lemma path_plain_not_special: "path_plain c \<Longrightarrow> c \<noteq> CHR ''%'' \<and> c \<noteq> CHR ''/''"
  by (auto simp: path_plain_def is_lower_def is_upper_def is_digit_def)

lemma PathUnescape_escape_char:
  "PathUnescape (escape_char c @ s) = map_option ((#) c) (PathUnescape s)"
  using path_plain_not_special [of c]
  by (auto simp: escape_char_def hex_value_upper of_char_div16)

lemma PathUnescape_PathEscape [go_string]: "PathUnescape (PathEscape s) = Some s"
  by (induction s) (auto simp: PathEscape_def PathUnescape_escape_char)

lemma inj_PathEscape: "PathEscape a = PathEscape b \<longleftrightarrow> a = b"
  by (metis PathUnescape_PathEscape option.inject)

lemma upper_hex_digit_not_slash: "n < 16 \<Longrightarrow> upper_hex_digit n \<noteq> CHR ''/''"
  by (auto simp: upper_hex_digit_def dest!: arg_cong [where f = "of_char :: char \<Rightarrow> nat"])

lemma escape_char_no_slash: "CHR ''/'' \<notin> set (escape_char c)"
proof (cases "path_plain c")
  case True
  then show ?thesis using path_plain_not_special by (auto simp: escape_char_def)
next
  case False
  then show ?thesis
    using upper_hex_digit_not_slash [of "of_char c div 16"] upper_hex_digit_not_slash [of "of_char c mod 16"]
      of_char_div16 [of c] by (simp add: escape_char_def eq_commute)
qed

lemma PathEscape_no_slash: "CHR ''/'' \<notin> set (PathEscape s)"
  by (simp add: PathEscape_def escape_char_no_slash)

section \<open>Further facts on base64\<close>

lemma b64_char_not_space: "n < 64 \<Longrightarrow> \<not> is_space (b64_char n)"
proof -
  have "\<forall>n\<in>set [0..<64]. \<not> is_space (b64_char n)" by code_simp
  then show "n < 64 \<Longrightarrow> \<not> is_space (b64_char n)" by simp
qed

lemma b64_encode_not_space: "\<forall>c\<in>set (b64_encode bs). \<not> is_space c"
proof -
  have e: "\<not> is_space (CHR ''='')" by code_simp
  show ?thesis
    by (induction bs rule: b64_encode.induct) (simp_all add: Let_def b64_char_not_space e)
qed

lemma b64_encode_eq_Nil: "b64_encode bs = [] \<longleftrightarrow> bs = []"
  by (cases bs rule: b64_encode.cases) (simp_all add: Let_def)

end
