(* ===== verification/Json.thy ===== *)
theory Json
  imports Encoding "HOL-Library.AList"
begin

text \<open>
  The part of \<open>encoding/json\<close> the program uses: a value, the parser, the compact printer of
  \<open>json.Marshal\<close>, and the decoding of an object into the fields of a struct.  Numbers keep their
  text.  Strings are byte strings; the replacement of invalid UTF-8 is not modelled.  A
  \<open>json.RawMessage\<close> that holds valid JSON is represented by its value.
\<close>

section \<open>Values\<close>

datatype json =
    JNull
  | JBool bool
  | JNum string
  | JStr string
  | JArr "json list"
  | JObj "(string \<times> json) list"

section \<open>Parsing\<close>

definition ws_char :: "char \<Rightarrow> bool" where
  "ws_char c \<longleftrightarrow> c = CHR '' '' \<or> c = CHR 0x09 \<or> c = CHR 0x0A \<or> c = CHR 0x0D"

definition skip_ws :: "string \<Rightarrow> string" where
  "skip_ws = dropWhile ws_char"

definition utf8 :: "nat \<Rightarrow> string" where
  "utf8 n =
     (if n < 0x80 then [char_of n]
      else if n < 0x800 then [char_of (0xC0 + n div 64), char_of (0x80 + n mod 64)]
      else if n < 0x10000 then
        [char_of (0xE0 + n div 4096), char_of (0x80 + n div 64 mod 64), char_of (0x80 + n mod 64)]
      else [char_of (0xF0 + n div 262144), char_of (0x80 + n div 4096 mod 64),
            char_of (0x80 + n div 64 mod 64), char_of (0x80 + n mod 64)])"

definition hex4 :: "char \<Rightarrow> char \<Rightarrow> char \<Rightarrow> char \<Rightarrow> nat option" where
  "hex4 a b c d =
     (case (hex_value a, hex_value b, hex_value c, hex_value d) of
        (Some w, Some x, Some y, Some z) \<Rightarrow> Some (((w * 16 + x) * 16 + y) * 16 + z)
      | _ \<Rightarrow> None)"

definition unescape1 :: "char \<Rightarrow> char option" where
  "unescape1 c =
     (if c = dquote \<or> c = backslash \<or> c = CHR ''/'' then Some c
      else if c = CHR ''b'' then Some (CHR 0x08)
      else if c = CHR ''f'' then Some (CHR 0x0C)
      else if c = CHR ''n'' then Some (CHR 0x0A)
      else if c = CHR ''r'' then Some (CHR 0x0D)
      else if c = CHR ''t'' then Some (CHR 0x09)
      else None)"

text \<open>
  The body of a string literal: the bytes it stands for and the text after the closing quote.  A
  pair of surrogate escapes is one character, a lone surrogate is U+FFFD.
\<close>

fun parse_str :: "string \<Rightarrow> (string \<times> string) option" where
  "parse_str [] = None"
| "parse_str (c # cs) =
     (if c = dquote then Some ([], cs)
      else if c = backslash then
        (case cs of
           [] \<Rightarrow> None
         | e # es \<Rightarrow>
             if e = CHR ''u'' then
               (case es of
                  h1 # h2 # h3 # h4 # rest \<Rightarrow>
                    (case hex4 h1 h2 h3 h4 of
                       None \<Rightarrow> None
                     | Some u \<Rightarrow>
                         if u < 0xD800 \<or> 0xDFFF < u then
                           map_option (apfst ((@) (utf8 u))) (parse_str rest)
                         else
                           (case rest of
                              b # v # l1 # l2 # l3 # l4 # rest' \<Rightarrow>
                                (case hex4 l1 l2 l3 l4 of
                                   Some w \<Rightarrow>
                                     if b = backslash \<and> v = CHR ''u'' \<and> u < 0xDC00 \<and> 0xDC00 \<le> w \<and> w \<le> 0xDFFF
                                     then map_option (apfst ((@) (utf8 (0x10000 + (u - 0xD800) * 1024 + (w - 0xDC00)))))
                                            (parse_str rest')
                                     else map_option (apfst ((@) (utf8 0xFFFD))) (parse_str rest)
                                 | None \<Rightarrow> map_option (apfst ((@) (utf8 0xFFFD))) (parse_str rest))
                            | _ \<Rightarrow> map_option (apfst ((@) (utf8 0xFFFD))) (parse_str rest)))
                | _ \<Rightarrow> None)
             else
               (case unescape1 e of
                  None \<Rightarrow> None
                | Some x \<Rightarrow> map_option (apfst ((#) x)) (parse_str es)))
      else if (of_char c :: nat) < 32 then None
      else map_option (apfst ((#) c)) (parse_str cs))"

text \<open>A number literal and what follows it.\<close>

definition span_digits :: "string \<Rightarrow> (string \<times> string) option" where
  "span_digits s =
     (let ds = takeWhile is_digit s in if ds = [] then None else Some (ds, dropWhile is_digit s))"

definition parse_int_part :: "string \<Rightarrow> (string \<times> string) option" where
  "parse_int_part s =
     (case s of
        c # cs \<Rightarrow> if c = CHR ''0'' then Some ([c], cs) else span_digits s
      | [] \<Rightarrow> None)"

definition parse_fraction :: "string \<Rightarrow> (string \<times> string) option" where
  "parse_fraction s =
     (case s of
        c # cs \<Rightarrow> if c = CHR ''.'' then map_option (apfst ((#) c)) (span_digits cs) else Some ([], s)
      | [] \<Rightarrow> Some ([], []))"

definition parse_exponent :: "string \<Rightarrow> (string \<times> string) option" where
  "parse_exponent s =
     (case s of
        c # cs \<Rightarrow>
          if c = CHR ''e'' \<or> c = CHR ''E'' then
            (case cs of
               g # gs \<Rightarrow>
                 if g = CHR ''+'' \<or> g = CHR ''-'' then map_option (apfst (\<lambda>d. c # g # d)) (span_digits gs)
                 else map_option (apfst ((#) c)) (span_digits cs)
             | [] \<Rightarrow> None)
          else Some ([], s)
      | [] \<Rightarrow> Some ([], []))"

definition parse_num :: "string \<Rightarrow> (string \<times> string) option" where
  "parse_num s =
     (let (sg, s0) = (if has_prefix ''-'' s then (''-'', drop 1 s) else ([], s))
      in Option.bind (parse_int_part s0) (\<lambda>(i, s1).
         Option.bind (parse_fraction s1) (\<lambda>(f, s2).
         Option.bind (parse_exponent s2) (\<lambda>(e, s3). Some (sg @ i @ f @ e, s3)))))"

text \<open>
  Every call consumes a byte or descends into an element, so the length of the text is fuel enough.
\<close>

fun parse_val :: "nat \<Rightarrow> string \<Rightarrow> (json \<times> string) option"
and parse_elems :: "nat \<Rightarrow> string \<Rightarrow> (json list \<times> string) option"
and parse_members :: "nat \<Rightarrow> string \<Rightarrow> ((string \<times> json) list \<times> string) option" where
  "parse_val 0 s = None"
| "parse_val (Suc n) s =
     (case skip_ws s of
        [] \<Rightarrow> None
      | c # cs \<Rightarrow>
          if c = dquote then map_option (apfst JStr) (parse_str cs)
          else if c = CHR ''['' then
            (case skip_ws cs of
               d # ds \<Rightarrow> if d = CHR '']'' then Some (JArr [], ds)
                          else map_option (apfst JArr) (parse_elems n (d # ds))
             | [] \<Rightarrow> None)
          else if c = CHR ''{'' then
            (case skip_ws cs of
               d # ds \<Rightarrow> if d = CHR ''}'' then Some (JObj [], ds)
                          else map_option (apfst JObj) (parse_members n (d # ds))
             | [] \<Rightarrow> None)
          else if has_prefix ''null'' (c # cs) then Some (JNull, drop 3 cs)
          else if has_prefix ''true'' (c # cs) then Some (JBool True, drop 3 cs)
          else if has_prefix ''false'' (c # cs) then Some (JBool False, drop 4 cs)
          else map_option (apfst JNum) (parse_num (c # cs)))"
| "parse_elems 0 s = None"
| "parse_elems (Suc n) s =
     (case parse_val n s of
        None \<Rightarrow> None
      | Some (v, t) \<Rightarrow>
          (case skip_ws t of
             [] \<Rightarrow> None
           | c # cs \<Rightarrow>
               if c = CHR '','' then map_option (apfst ((#) v)) (parse_elems n cs)
               else if c = CHR '']'' then Some ([v], cs)
               else None))"
| "parse_members 0 s = None"
| "parse_members (Suc n) s =
     (case skip_ws s of
        [] \<Rightarrow> None
      | q # qs \<Rightarrow>
          if q \<noteq> dquote then None
          else (case parse_str qs of
            None \<Rightarrow> None
          | Some (k, t) \<Rightarrow>
              (case skip_ws t of
                 [] \<Rightarrow> None
               | c # cs \<Rightarrow>
                   if c \<noteq> CHR '':'' then None
                   else (case parse_val n cs of
                     None \<Rightarrow> None
                   | Some (v, u) \<Rightarrow>
                       (case skip_ws u of
                          [] \<Rightarrow> None
                        | d # ds \<Rightarrow>
                            if d = CHR '','' then map_option (apfst ((#) (k, v))) (parse_members n ds)
                            else if d = CHR ''}'' then Some ([(k, v)], ds)
                            else None)))))"

definition json_parse :: "string \<Rightarrow> json option" where
  "json_parse s =
     (case parse_val (2 * length s + 2) s of
        Some (v, t) \<Rightarrow> if skip_ws t = [] then Some v else None
      | None \<Rightarrow> None)"

definition json_valid :: "string \<Rightarrow> bool" where
  "json_valid s \<longleftrightarrow> json_parse s \<noteq> None"

section \<open>Printing\<close>

text \<open>
  \<open>json.Marshal\<close> escapes the quotes and control bytes, and \<open><\<close>, \<open>>\<close>, \<open>&\<close>, U+2028 and U+2029.
\<close>

definition u00 :: "nat \<Rightarrow> string" where
  "u00 n = [backslash, CHR ''u'', CHR ''0'', CHR ''0'', hex_digit (n div 16), hex_digit (n mod 16)]"

definition escape_byte :: "char \<Rightarrow> string" where
  "escape_byte c =
     (if c = dquote \<or> c = backslash then [backslash, c]
      else if c = CHR 0x08 then [backslash, CHR ''b'']
      else if c = CHR 0x0C then [backslash, CHR ''f'']
      else if c = CHR 0x0A then [backslash, CHR ''n'']
      else if c = CHR 0x0D then [backslash, CHR ''r'']
      else if c = CHR 0x09 then [backslash, CHR ''t'']
      else if (of_char c :: nat) < 32 \<or> c = CHR ''<'' \<or> c = CHR ''>'' \<or> c = CHR ''&'' then u00 (of_char c)
      else [c])"

fun escape_str :: "string \<Rightarrow> string" where
  "escape_str [] = []"
| "escape_str (c # cs) =
     (if has_prefix [CHR 0xE2, CHR 0x80, CHR 0xA8] (c # cs) then [backslash] @ ''u2028'' @ escape_str (drop 2 cs)
      else if has_prefix [CHR 0xE2, CHR 0x80, CHR 0xA9] (c # cs) then [backslash] @ ''u2029'' @ escape_str (drop 2 cs)
      else escape_byte c @ escape_str cs)"

definition show_str :: "string \<Rightarrow> string" where
  "show_str s = dquote # escape_str s @ [dquote]"

fun json_show :: "json \<Rightarrow> string" where
  "json_show JNull = ''null''"
| "json_show (JBool b) = (if b then ''true'' else ''false'')"
| "json_show (JNum s) = s"
| "json_show (JStr s) = show_str s"
| "json_show (JArr vs) = ''['' @ join '','' (map json_show vs) @ '']''"
| "json_show (JObj ms) = ''{'' @ join '','' (map (\<lambda>(k, v). show_str k @ '':'' @ json_show v) ms) @ ''}''"

section \<open>Struct fields\<close>

text \<open>
  Decoding an object into a struct assigns the fields in the order of the keys; a key matches a
  field name up to case, so the last matching key wins, and \<open>null\<close> leaves a string field as it was.
  The result is \<open>None\<close> when a value has the wrong type (\<open>Unmarshal\<close> then reports an error).
  \<open>field_raw\<close> is a \<open>json.RawMessage\<close> field, absent when no key matches.
\<close>

definition keys_of :: "string \<Rightarrow> (string \<times> json) list \<Rightarrow> json list" where
  "keys_of name ms = map snd (filter (\<lambda>(k, v). equal_fold k name) ms)"

definition field_raw :: "string \<Rightarrow> (string \<times> json) list \<Rightarrow> json option" where
  "field_raw name ms = (case rev (keys_of name ms) of [] \<Rightarrow> None | v # vs \<Rightarrow> Some v)"

fun fold_str :: "string \<Rightarrow> json list \<Rightarrow> string option" where
  "fold_str acc [] = Some acc"
| "fold_str acc (JStr s # vs) = fold_str s vs"
| "fold_str acc (JNull # vs) = fold_str acc vs"
| "fold_str acc (v # vs) = None"

definition field_str :: "string \<Rightarrow> (string \<times> json) list \<Rightarrow> string option" where
  "field_str name ms = fold_str '''' (keys_of name ms)"

fun fold_arr :: "json list \<Rightarrow> json list \<Rightarrow> json list option" where
  "fold_arr acc [] = Some acc"
| "fold_arr acc (JArr xs # vs) = fold_arr xs vs"
| "fold_arr acc (JNull # vs) = fold_arr [] vs"
| "fold_arr acc (v # vs) = None"

definition field_arr :: "string \<Rightarrow> (string \<times> json) list \<Rightarrow> json list option" where
  "field_arr name ms = fold_arr [] (keys_of name ms)"

text \<open>
  What \<open>Unmarshal\<close> accepts for a struct: an object, or \<open>null\<close>, which leaves every field zero.
\<close>

fun members :: "json \<Rightarrow> (string \<times> json) list option" where
  "members (JObj ms) = Some ms"
| "members JNull = Some []"
| "members v = None"

text \<open>
  The decoding into \<open>map[string]json.RawMessage\<close>: keys are exact, and of equal keys the last wins; a
  map is printed with its keys in order.
\<close>

definition dedup_members :: "(string \<times> json) list \<Rightarrow> (string \<times> json) list" where
  "dedup_members ms = foldl (\<lambda>acc (k, v). AList.update k v acc) [] ms"

end
