(* ===== verification/Messages.thy ===== *)
theory Messages
  imports Json
begin

text \<open>
  The conversation as the LLM providers exchange it: the content blocks of
  \<open>anthropic.MessageParam\<close> that the program builds or inspects, and the two forms of a message, one
  built in this run and one loaded from a memory file.  A loaded message is wrapped by
  \<open>param.Override\<close>: its public role and content are empty and its JSON is only read back through
  \<open>Overrides()\<close> or by marshalling, which is why every inspection of a history has two paths.
\<close>

datatype mrole = User | Assistant | OtherRole string

fun role_name :: "mrole \<Rightarrow> string" where
  "role_name User = ''user''"
| "role_name Assistant = ''assistant''"
| "role_name (OtherRole s) = s"

definition role_of_name :: "string \<Rightarrow> mrole" where
  "role_of_name s = (if s = ''user'' then User else if s = ''assistant'' then Assistant else OtherRole s)"

text \<open>
  The \<open>Input\<close> of a tool use is an \<open>any\<close>; the providers store a \<open>json.RawMessage\<close> (\<open>InRaw\<close>, bytes that
  need not be valid JSON).
\<close>

datatype tool_input = InNil | InRaw string | InBytes string | InValue json

datatype image_source = ImgBase64 string string | ImgURL string
datatype doc_source = DocBase64 string | DocText string | DocURL string
datatype result_item = RText string | RImage image_source

datatype block =
    BText string
  | BToolUse string string tool_input
  | BToolResult string "result_item list" bool
  | BImage image_source
  | BDocument doc_source string
  | BThinking string string
  | BRedactedThinking string
  | BServerToolUse string string tool_input
  | BOverride string

datatype message = Fresh mrole "block list" | Wrapped json

fun msg_blocks :: "message \<Rightarrow> block list" where
  "msg_blocks (Fresh r bs) = bs"
| "msg_blocks (Wrapped j) = []"

fun is_tool_result :: "block \<Rightarrow> bool" where
  "is_tool_result (BToolResult i c e) = True"
| "is_tool_result b = False"

fun tool_use_id :: "block \<Rightarrow> string option" where
  "tool_use_id (BToolUse i n inp) = Some i"
| "tool_use_id b = None"

fun tool_result_id :: "block \<Rightarrow> string option" where
  "tool_result_id (BToolResult i c e) = Some i"
| "tool_result_id b = None"

definition tool_use_ids :: "message \<Rightarrow> string list" where
  "tool_use_ids m = List.map_filter tool_use_id (msg_blocks m)"

definition tool_result_ids :: "message \<Rightarrow> string list" where
  "tool_result_ids m = List.map_filter tool_result_id (msg_blocks m)"

section \<open>Marshalling a tool input\<close>

text \<open>
  \<open>json.Marshal\<close> of a raw message checks it, drops the white space between tokens and escapes the
  same characters as in any string.
\<close>

fun compact :: "bool \<Rightarrow> string \<Rightarrow> string" where
  "compact q [] = []"
| "compact q (c # cs) =
     (if c = CHR ''<'' \<or> c = CHR ''>'' \<or> c = CHR ''&'' then u00 (of_char c) @ compact q cs
      else if has_prefix [CHR 0xE2, CHR 0x80, CHR 0xA8] (c # cs) then [backslash] @ ''u2028'' @ compact q (drop 2 cs)
      else if has_prefix [CHR 0xE2, CHR 0x80, CHR 0xA9] (c # cs) then [backslash] @ ''u2029'' @ compact q (drop 2 cs)
      else if q then
        (if c = backslash then c # take 1 cs @ compact True (drop 1 cs)
         else c # compact (c \<noteq> dquote) cs)
      else if ws_char c then compact False cs
      else c # compact (c = dquote) cs)"

fun marshal_input :: "tool_input \<Rightarrow> string option" where
  "marshal_input InNil = Some ''null''"
| "marshal_input (InRaw r) =
     (if r = [] then Some ''null'' else if json_valid r then Some (compact False r) else None)"
| "marshal_input (InBytes b) = Some (show_str (b64_encode b))"
| "marshal_input (InValue v) = Some (json_show v)"

end
