(* ===== verification/Gotime.thy ===== *)
theory Gotime
  imports Prelude
begin

text \<open>
  The part of Go's \<open>time\<close> package that the program uses: instants with the zone they are shown in,
  the layouts the program formats with, and locations.  A location gives the abbreviation and the
  offset (in seconds east of UTC) in force at an instant; the time-zone database behind
  \<open>time.LoadLocation\<close> is data outside the repository and is an argument.
\<close>

section \<open>Instants\<close>

text \<open>\<open>tmNanos\<close> counts nanoseconds from the Unix epoch.\<close>

record gotime =
  tmNanos :: int
  tmZone :: string
  tmOffset :: int

type_synonym location = "int \<Rightarrow> string \<times> int"
type_synonym tzdb = "string \<Rightarrow> location option"

definition utc :: "int \<Rightarrow> gotime" where
  "utc n = \<lparr>tmNanos = n, tmZone = ''UTC'', tmOffset = 0\<rparr>"

definition tm_before :: "gotime \<Rightarrow> gotime \<Rightarrow> bool" where
  "tm_before a b \<longleftrightarrow> tmNanos a < tmNanos b"

definition tm_after :: "gotime \<Rightarrow> gotime \<Rightarrow> bool" where
  "tm_after a b \<longleftrightarrow> tmNanos a > tmNanos b"

definition tm_in :: "location \<Rightarrow> gotime \<Rightarrow> gotime" where
  "tm_in loc t = t\<lparr>tmZone := fst (loc (tmNanos t)), tmOffset := snd (loc (tmNanos t))\<rparr>"

definition minutes :: "int \<Rightarrow> int" where
  "minutes m = m * 60 * 10 ^ 9"

definition tm_add :: "int \<Rightarrow> gotime \<Rightarrow> gotime" where
  "tm_add d t = t\<lparr>tmNanos := tmNanos t + d\<rparr>"

definition fixed_zone :: "string \<Rightarrow> int \<Rightarrow> location" where
  "fixed_zone name off = (\<lambda>_. (name, off))"

lemma tm_in_nanos [simp]: "tmNanos (tm_in loc t) = tmNanos t"
  by (simp add: tm_in_def)

lemma tm_add_nanos [simp]: "tmNanos (tm_add d t) = tmNanos t + d"
  by (simp add: tm_add_def)

section \<open>The calendar\<close>

text \<open>
  Year, month and day of a day count from the epoch, in the proleptic Gregorian calendar: days are
  counted from 1 March of year 0, in eras of 400 years.
\<close>

definition civil :: "int \<Rightarrow> int \<times> nat \<times> nat" where
  "civil days =
     (let z = days + 719468;
          era = z div 146097;
          doe = z mod 146097;
          yoe = (doe - doe div 1460 + doe div 36524 - doe div 146096) div 365;
          doy = doe - (365 * yoe + yoe div 4 - yoe div 100);
          mp = (5 * doy + 2) div 153;
          d = doy - (153 * mp + 2) div 5 + 1;
          m = (if mp < 10 then mp + 3 else mp - 9);
          y = yoe + era * 400 + (if m \<le> 2 then 1 else 0)
      in (y, nat m, nat d))"

definition local_seconds :: "gotime \<Rightarrow> int" where
  "local_seconds t = tmNanos t div 10 ^ 9 + tmOffset t"

definition weekday :: "gotime \<Rightarrow> nat" where
  "weekday t = nat ((local_seconds t div 86400 + 4) mod 7)"

definition month_names :: "string list" where
  "month_names = [''Jan'', ''Feb'', ''Mar'', ''Apr'', ''May'', ''Jun'',
                  ''Jul'', ''Aug'', ''Sep'', ''Oct'', ''Nov'', ''Dec'']"

definition day_names :: "string list" where
  "day_names = [''Sun'', ''Mon'', ''Tue'', ''Wed'', ''Thu'', ''Fri'', ''Sat'']"

definition pad2 :: "nat \<Rightarrow> string" where
  "pad2 n = (if n < 10 then ''0'' @ show_nat n else show_nat n)"

definition pad4 :: "int \<Rightarrow> string" where
  "pad4 y = (if y < 0 then ''-'' else []) @
     (let s = show_nat (nat \<bar>y\<bar>) in replicate (4 - length s) (CHR ''0'') @ s)"

definition clock :: "gotime \<Rightarrow> nat \<times> nat \<times> nat" where
  "clock t =
     (let s = local_seconds t mod 86400 in (nat (s div 3600), nat (s mod 3600 div 60), nat (s mod 60)))"

text \<open>\<open>+0530\<close>, and \<open>+05:30\<close> with a separator.\<close>

definition show_offset :: "string \<Rightarrow> int \<Rightarrow> string" where
  "show_offset sep off =
     (let m = \<bar>off\<bar> div 60
      in (if off div 60 < 0 \<and> m > 0 then ''-'' else ''+'') @ pad2 (nat (m div 60)) @ sep @ pad2 (nat (m mod 60)))"

text \<open>The layouts \<open>Mon, Jan 2, 2006 at 3:04 PM\<close> and \<open>Mon, 02 Jan 2006 15:04 -0700\<close>.\<close>

definition fmt_reply_date :: "gotime \<Rightarrow> string" where
  "fmt_reply_date t =
     (case civil (local_seconds t div 86400) of (y, m, d) \<Rightarrow>
      case clock t of (hh, mm, ss) \<Rightarrow>
        day_names ! weekday t @ '', '' @ month_names ! (m - 1) @ '' '' @ show_nat d @ '', '' @ pad4 y @
        '' at '' @ show_nat (if hh mod 12 = 0 then 12 else hh mod 12) @ '':'' @ pad2 mm @
        (if hh < 12 then '' AM'' else '' PM''))"

definition fmt_replay_date :: "gotime \<Rightarrow> string" where
  "fmt_replay_date t =
     (case civil (local_seconds t div 86400) of (y, m, d) \<Rightarrow>
      case clock t of (hh, mm, ss) \<Rightarrow>
        day_names ! weekday t @ '', '' @ pad2 d @ '' '' @ month_names ! (m - 1) @ '' '' @ pad4 y @
        '' '' @ pad2 hh @ '':'' @ pad2 mm @ '' '' @ show_offset [] (tmOffset t))"

text \<open>The JSON form of a time: RFC 3339, with the fraction only when there is one.\<close>

definition nano_fraction :: "int \<Rightarrow> string" where
  "nano_fraction n =
     (if n = 0 then []
      else (let s = show_nat (nat n)
            in ''.'' @ trim_right (\<lambda>c. c = CHR ''0'') (replicate (9 - length s) (CHR ''0'') @ s)))"

definition fmt_rfc3339 :: "gotime \<Rightarrow> string" where
  "fmt_rfc3339 t =
     (case civil (local_seconds t div 86400) of (y, m, d) \<Rightarrow>
      case clock t of (hh, mm, ss) \<Rightarrow>
        pad4 y @ ''-'' @ pad2 m @ ''-'' @ pad2 d @ ''T'' @ pad2 hh @ '':'' @ pad2 mm @ '':'' @ pad2 ss @
        nano_fraction (tmNanos t mod 10 ^ 9) @
        (if tmOffset t = 0 then ''Z'' else show_offset '':'' (tmOffset t)))"

lemma civil_examples:
  "civil 0 = (1970, 1, 1)" "civil 19782 = (2024, 2, 29)" "civil (-1) = (1969, 12, 31)"
  by code_simp+

lemma civil_2026: "civil 20522 = (2026, 3, 10)"
  by code_simp

section \<open>Fixed offsets\<close>

text \<open>
  \<open>time.Parse\<close> with the layout \<open>-0700\<close>: a sign, two digits of hours up to 24 and two of minutes up
  to 60.
\<close>

definition digit_value :: "char \<Rightarrow> nat" where
  "digit_value c = of_char c - 48"

fun parse_offset :: "string \<Rightarrow> int option" where
  "parse_offset [s, a, b, c, d] =
     (if (s = CHR ''+'' \<or> s = CHR ''-'') \<and> list_all is_digit [a, b, c, d]
         \<and> digit_value a * 10 + digit_value b \<le> 24 \<and> digit_value c * 10 + digit_value d \<le> 60
      then (let secs = int ((digit_value a * 10 + digit_value b) * 3600 + (digit_value c * 10 + digit_value d) * 60)
            in Some (if s = CHR ''-'' then - secs else secs))
      else None)"
| "parse_offset _ = None"

text \<open>The rendering of \<open>%+03d%02d\<close>, the hours with their sign.\<close>

definition show_signed_hours :: "int \<Rightarrow> string" where
  "show_signed_hours h = (if h < 0 then ''-'' else ''+'') @ pad2 (nat \<bar>h\<bar>)"

lemma is_digit_char_of: "n < 10 \<Longrightarrow> is_digit (char_of (48 + n :: nat))"
  by (simp add: is_digit_def)

lemma digit_value_char_of [simp]: "n < 10 \<Longrightarrow> digit_value (char_of (48 + n :: nat)) = n"
  by (simp add: digit_value_def)

lemma show_nat_small: "n < 10 \<Longrightarrow> show_nat n = [char_of (48 + n)]"
  by (simp add: show_nat.simps)

lemma show_nat_two: "10 \<le> n \<Longrightarrow> n < 100 \<Longrightarrow> show_nat n = [char_of (48 + n div 10), char_of (48 + n mod 10)]"
  by (subst show_nat.simps) (simp add: show_nat_small)

lemma pad2_digits: "n < 100 \<Longrightarrow> pad2 n = [char_of (48 + n div 10), char_of (48 + n mod 10)]"
  by (simp add: pad2_def show_nat_small show_nat_two char_of_def bit_simps)

end
