(* ===== verification/Config.thy ===== *)
theory Config
  imports Prelude
begin

text \<open>
  The deployment configuration: the decoded \<open>agents.yaml\<close> (\<open>internal/config/config.go\<close>) and the
  package variables that \<open>Apply\<close> computes from it and from the environment
  (\<open>internal/config/env_vars.go\<close>).  YAML decoding is not modelled: the definitions start from the
  decoded structures.  \<open>os.Getenv\<close> is the argument \<open>env\<close>, the empty string for an unset variable.
\<close>

section \<open>The decoded files\<close>

text \<open>A \<open>*int\<close> or \<open>*bool\<close> field is an option; a missing list is the empty list.\<close>

record agent_def =
  adName :: string
  adEmail :: string
  adRole :: string
  adDescription :: string
  adTools :: "string list"
  adDisabledTools :: "string list"
  adLLMProvider :: string
  adLLMModel :: string
  adLLMOpenRouterBackup :: "string list"
  adSystemPrompt :: string
  adWhitelist :: "string list"
  adBlacklist :: "string list"
  adMaxHistoryChars :: "int option"
  adMaxTokens :: "int option"
  adMaxTurns :: "int option"
  adMaxToolResultChars :: "int option"
  adToolResultSpillChars :: "int option"
  adMaxEmailRetries :: "int option"
  adMaxMessageBodyChars :: "int option"
  adAgentTimeout :: "int option"
  adWaitingWatchdogMinutes :: "int option"
  adEmailServer :: string
  adSmtpServer :: string
  adEmailInsecureTLS :: "bool option"

record external_agent =
  exName :: string
  exEmail :: string
  exRole :: string
  exDescription :: string

record prompt_peer =
  ppName :: string
  ppEmail :: string
  ppRole :: string
  ppDescription :: string
  ppScope :: string

record common_config =
  ccEmailServer :: string
  ccSmtpServer :: string
  ccEmailInsecureTLS :: bool
  ccMaxHistoryChars :: int
  ccMaxTokens :: int
  ccMaxTurns :: int
  ccMaxToolResultChars :: "int option"
  ccToolResultSpillChars :: "int option"
  ccMaxEmailRetries :: int
  ccMaxMessageBodyChars :: int
  ccAgentTimeout :: int
  ccWaitingWatchdogMinutes :: int
  ccSystemPrompt :: string
  ccCoordinatorSystemPrompt :: string
  ccDisabledTools :: "string list"
  ccDockerNetworks :: "string list"

record mcp_server =
  msKey :: string
  msURL :: string
  msAuth :: string
  msHeader :: string
  msScheme :: string
  msTokenEnv :: string
  msClientIDEnv :: string
  msClientSecretEnv :: string
  msMetadataURL :: string
  msDescription :: string

record agents_config =
  acCommon :: common_config
  acAgents :: "agent_def list"
  acExternal :: "external_agent list"

section \<open>Roster queries\<close>

definition FindAgent :: "agents_config \<Rightarrow> string \<Rightarrow> agent_def option" where
  "FindAgent c email = find (\<lambda>a. to_lower (adEmail a) = to_lower email) (acAgents c)"

definition peer_of_agent :: "agent_def \<Rightarrow> prompt_peer" where
  "peer_of_agent a = \<lparr>ppName = adName a, ppEmail = adEmail a, ppRole = adRole a,
     ppDescription = adDescription a, ppScope = ''''\<rparr>"

definition peer_of_external :: "external_agent \<Rightarrow> prompt_peer" where
  "peer_of_external e = \<lparr>ppName = exName e, ppEmail = exEmail e, ppRole = exRole e,
     ppDescription = exDescription e, ppScope = ''external''\<rparr>"

definition Peers :: "agents_config \<Rightarrow> string \<Rightarrow> prompt_peer list" where
  "Peers c self =
     map peer_of_agent (filter (\<lambda>a. to_lower (adEmail a) \<noteq> to_lower self) (acAgents c)) @
     map peer_of_external (filter (\<lambda>e. to_lower (exEmail e) \<noteq> to_lower self) (acExternal c))"

section \<open>Merging\<close>

fun pickStr :: "string list \<Rightarrow> string" where
  "pickStr [] = ''''"
| "pickStr (s # ss) = (if trim_space s \<noteq> [] then s else pickStr ss)"

definition pickInt :: "int option \<Rightarrow> int \<Rightarrow> int \<Rightarrow> int" where
  "pickInt override com dflt =
     (case override of
        Some v \<Rightarrow> if v > 0 then v else if com > 0 then com else dflt
      | None \<Rightarrow> if com > 0 then com else dflt)"

definition agentStr :: "agent_def option \<Rightarrow> (agent_def \<Rightarrow> string) \<Rightarrow> string" where
  "agentStr a get = (case a of None \<Rightarrow> '''' | Some d \<Rightarrow> get d)"

definition intPtr :: "agent_def option \<Rightarrow> (agent_def \<Rightarrow> int option) \<Rightarrow> int option" where
  "intPtr a get = (case a of None \<Rightarrow> None | Some d \<Rightarrow> get d)"

definition trimAll :: "string list \<Rightarrow> string list" where
  "trimAll ss = filter (\<lambda>s. s \<noteq> []) (map trim_space ss)"

definition splitCSV :: "string \<Rightarrow> string list" where
  "splitCSV s = (if trim_space s = [] then [] else trimAll (split_char (CHR '','') s))"

definition GetEnvWithoutQuotesSafe :: "(string \<Rightarrow> string) \<Rightarrow> string \<Rightarrow> string \<Rightarrow> string" where
  "GetEnvWithoutQuotesSafe env key fallback =
     (let val = trim_space (trim_by (\<lambda>c. c = dquote) (env key))
      in if val = [] then fallback else val)"

definition emailStem :: "string \<Rightarrow> string" where
  "emailStem email =
     (let e = trim_space email in
      case index_char (CHR ''@'') e of
        Some at \<Rightarrow> if at > 0 then to_lower (take at e) else to_lower e
      | None \<Rightarrow> to_lower e)"

definition upper_char :: "char \<Rightarrow> char" where
  "upper_char c = (if is_lower c then char_of (of_char c - (32 :: nat)) else c)"

definition resolveEmailPassword :: "(string \<Rightarrow> string) \<Rightarrow> string \<Rightarrow> string" where
  "resolveEmailPassword env email =
     (let stem = map upper_char (emailStem email); v = env (stem @ ''_EMAIL_PASSWORD'')
      in if stem \<noteq> [] \<and> v \<noteq> [] then v else env ''EMAIL_PASSWORD'')"

text \<open>\<open>net.SplitHostPort\<close> and \<open>strconv.Atoi\<close>, as far as \<open>Apply\<close> looks at them: \<open>None\<close> is an error.\<close>

definition last_index_char :: "char \<Rightarrow> string \<Rightarrow> nat option" where
  "last_index_char d s = map_option (\<lambda>i. length s - 1 - i) (index_char d (rev s))"

definition SplitHostPort :: "string \<Rightarrow> (string \<times> string) option" where
  "SplitHostPort hp =
     (case last_index_char (CHR '':'') hp of
        None \<Rightarrow> None
      | Some i \<Rightarrow>
          if has_prefix ''['' hp then
            (case index_char (CHR '']'') hp of
               None \<Rightarrow> None
             | Some e \<Rightarrow>
                 if e + 1 \<noteq> i then None
                 else if CHR ''['' \<in> set (drop 1 hp) \<or> CHR '']'' \<in> set (drop (e + 1) hp) then None
                 else Some (take (e - 1) (drop 1 hp), drop (i + 1) hp))
          else if CHR '':'' \<in> set (take i hp) then None
          else if CHR ''['' \<in> set hp \<or> CHR '']'' \<in> set hp then None
          else Some (take i hp, drop (i + 1) hp))"

definition digits_value :: "string \<Rightarrow> int" where
  "digits_value s = foldl (\<lambda>v c. 10 * v + (of_char c - 48)) 0 s"

definition Atoi :: "string \<Rightarrow> int option" where
  "Atoi s =
     (let neg = has_prefix ''-'' s;
          ds = (if neg \<or> has_prefix ''+'' s then drop 1 s else s);
          v = (if neg then - digits_value ds else digits_value ds)
      in if ds = [] \<or> \<not> list_all is_digit ds then None
         else if - (2 ^ 63) \<le> v \<and> v < 2 ^ 63 then Some v else None)"

section \<open>The package variables\<close>

record config =
  InContainer :: bool
  AgentName :: string
  AgentEmail :: string
  AgentEmails :: "string list"
  EmailPassword :: string
  EmailServer :: string
  EmailInsecureTLS :: bool
  SmtpServer :: string
  SmtpHelo :: string
  SmtpPort :: int
  AllowedRcpt :: "string list"
  Whitelist :: "string list"
  Blacklist :: "string list"
  LlmModel :: string
  LlmProvider :: string
  LlmOpenRouterBackup :: "string list"
  LLMKeyMissing :: bool
  SysPrompt :: string
  AgentTimeout :: int
  WaitingWatchdogMinutes :: int
  MaxTurns :: int
  MaxTokens :: int
  MaxHistoryChars :: int
  MaxToolResultChars :: int
  ToolResultSpillChars :: int
  MaxEmailRetries :: int
  MaxMessageBodyChars :: int
  InboxFolder :: string
  SentFolder :: string
  WebSiteUrl :: string
  WordPressUser :: string
  WordPressPassword :: string
  XeroClientId :: string
  XeroClientSecret :: string
  HelpjuiceAPIKey :: string
  HelpjuiceAccount :: string
  TikaUrl :: string
  VimeoApiKey :: string
  NukiApiToken :: string
  SupabaseUrl :: string
  SupabaseApiKey :: string
  WeatherApiKey :: string

text \<open>The values the variables start with, before \<open>Apply\<close>.\<close>

definition startup_config :: config where
  "startup_config = \<lparr>InContainer = False, AgentName = ''Talos'', AgentEmail = '''',
     AgentEmails = [], EmailPassword = '''', EmailServer = '''',
     EmailInsecureTLS = False, SmtpServer = '''', SmtpHelo = '''',
     SmtpPort = 0, AllowedRcpt = [], Whitelist = [],
     Blacklist = [], LlmModel = '''', LlmProvider = '''',
     LlmOpenRouterBackup = [], LLMKeyMissing = False, SysPrompt = '''',
     AgentTimeout = 0, WaitingWatchdogMinutes = 0, MaxTurns = 0,
     MaxTokens = 0, MaxHistoryChars = 0, MaxToolResultChars = 0,
     ToolResultSpillChars = 0, MaxEmailRetries = 0, MaxMessageBodyChars = 0,
     InboxFolder = '''', SentFolder = '''', WebSiteUrl = '''',
     WordPressUser = '''', WordPressPassword = '''', XeroClientId = '''',
     XeroClientSecret = '''', HelpjuiceAPIKey = '''', HelpjuiceAccount = '''',
     TikaUrl = '''', VimeoApiKey = '''', NukiApiToken = '''',
     SupabaseUrl = '''', SupabaseApiKey = '''', WeatherApiKey = ''''\<rparr>"

text \<open>
  \<open>AgentEmails\<close> is a set of lowercased addresses (a \<open>map[string]bool\<close> with only true entries); the
  list holds its keys.  \<open>resolve_smtp\<close> is the host and port part of \<open>Apply\<close>; an empty setting leaves
  \<open>SmtpServer\<close> at its previous value, which at startup is empty.
\<close>

definition resolve_smtp :: "string \<Rightarrow> string \<times> int" where
  "resolve_smtp hp =
     (if hp = [] then ('''', 587)
      else case SplitHostPort hp of
        Some (host, portStr) \<Rightarrow>
          (host, case Atoi portStr of Some p \<Rightarrow> if p > 0 then p else 587 | None \<Rightarrow> 587)
      | None \<Rightarrow> (hp, 587))"

definition roster_emails :: "agents_config \<Rightarrow> string list" where
  "roster_emails c =
     remdups (map to_lower (filter (\<lambda>e. e \<noteq> []) (map adEmail (acAgents c) @ map exEmail (acExternal c))))"

definition pick_ptr :: "int option \<Rightarrow> int option \<Rightarrow> int \<Rightarrow> int" where
  "pick_ptr agent com dflt =
     (case agent of Some v \<Rightarrow> v | None \<Rightarrow> case com of Some v \<Rightarrow> v | None \<Rightarrow> dflt)"

definition empty_common :: common_config where
  "empty_common = \<lparr>ccEmailServer = '''', ccSmtpServer = '''', ccEmailInsecureTLS = False,
     ccMaxHistoryChars = 0, ccMaxTokens = 0, ccMaxTurns = 0, ccMaxToolResultChars = None,
     ccToolResultSpillChars = None, ccMaxEmailRetries = 0, ccMaxMessageBodyChars = 0,
     ccAgentTimeout = 0, ccWaitingWatchdogMinutes = 0, ccSystemPrompt = '''',
     ccCoordinatorSystemPrompt = '''', ccDisabledTools = [], ccDockerNetworks = []\<rparr>"

definition apply_provider :: "(string \<Rightarrow> string) \<Rightarrow> agent_def option \<Rightarrow> string \<times> string" where
  "apply_provider env agent =
     (let fromEnv = (\<lambda>key v. if trim_space (env key) \<noteq> [] then trim_space (env key) else v)
      in (fromEnv ''LLM_PROVIDER'' (trim_space (agentStr agent adLLMProvider)),
          fromEnv ''LLM_MODEL'' (trim_space (agentStr agent adLLMModel))))"

definition Apply :: "(string \<Rightarrow> string) \<Rightarrow> agents_config option \<Rightarrow> config" where
  "Apply env cfg =
     (let inContainer = (env ''RUNNING_IN_CONTAINER'' = ''true'');
          envEmail = trim_space (env ''AGENT_EMAIL'');
          com = (case cfg of Some c \<Rightarrow> acCommon c | None \<Rightarrow> empty_common);
          agent = (case cfg of Some c \<Rightarrow> FindAgent c envEmail | None \<Rightarrow> None);
          email = (case agent of Some a \<Rightarrow> adEmail a | None \<Rightarrow> envEmail);
          imap = pickStr [ccEmailServer com, agentStr agent adEmailServer];
          smtpPort = resolve_smtp (pickStr [ccSmtpServer com, agentStr agent adSmtpServer]);
          smtp = fst smtpPort;
          provider = fst (apply_provider env agent)
      in \<lparr>InContainer = inContainer,
          AgentName = (case agent of Some a \<Rightarrow> adName a | None \<Rightarrow> ''Talos''),
          AgentEmail = email,
          AgentEmails = (case cfg of Some c \<Rightarrow> roster_emails c | None \<Rightarrow> []),
          EmailPassword = resolveEmailPassword env email,
          EmailServer = (if inContainer \<and> has_prefix ''localhost:'' imap
                         then ''host.docker.internal:993'' else imap),
          EmailInsecureTLS =
            (case agent of
               Some a \<Rightarrow> (case adEmailInsecureTLS a of Some b \<Rightarrow> b | None \<Rightarrow> ccEmailInsecureTLS com)
             | None \<Rightarrow> ccEmailInsecureTLS com),
          SmtpServer = (if inContainer \<and> smtp = ''localhost'' then ''host.docker.internal'' else smtp),
          SmtpHelo = GetEnvWithoutQuotesSafe env ''SMTP_HELO'' ''localhost.localdomain'',
          SmtpPort = snd smtpPort,
          AllowedRcpt = (if env ''ALLOWED_RCPT'' \<noteq> [] then splitCSV (env ''ALLOWED_RCPT'') else []),
          Whitelist = (case agent of Some a \<Rightarrow> trimAll (adWhitelist a) | None \<Rightarrow> []),
          Blacklist = (case agent of Some a \<Rightarrow> trimAll (adBlacklist a) | None \<Rightarrow> []),
          LlmModel = snd (apply_provider env agent),
          LlmProvider = provider,
          LlmOpenRouterBackup =
            (case agent of Some a \<Rightarrow> trimAll (adLLMOpenRouterBackup a) | None \<Rightarrow> []),
          LLMKeyMissing =
            (if equal_fold provider ''openrouter'' then trim_space (env ''OPENROUTER_API_KEY'') = []
             else trim_space (env ''ANTHROPIC_API_KEY'') = []),
          SysPrompt = pickStr [agentStr agent adSystemPrompt, ccSystemPrompt com],
          AgentTimeout = pickInt (intPtr agent adAgentTimeout) (ccAgentTimeout com) 300,
          WaitingWatchdogMinutes =
            pickInt (intPtr agent adWaitingWatchdogMinutes) (ccWaitingWatchdogMinutes com) 0,
          MaxTurns = pickInt (intPtr agent adMaxTurns) (ccMaxTurns com) 20,
          MaxTokens = pickInt (intPtr agent adMaxTokens) (ccMaxTokens com) 8092,
          MaxHistoryChars = pickInt (intPtr agent adMaxHistoryChars) (ccMaxHistoryChars com) 50000,
          MaxToolResultChars =
            pick_ptr (intPtr agent adMaxToolResultChars) (ccMaxToolResultChars com) 80000,
          ToolResultSpillChars =
            pick_ptr (intPtr agent adToolResultSpillChars) (ccToolResultSpillChars com) 16000,
          MaxEmailRetries = pickInt (intPtr agent adMaxEmailRetries) (ccMaxEmailRetries com) 3,
          MaxMessageBodyChars =
            pickInt (intPtr agent adMaxMessageBodyChars) (ccMaxMessageBodyChars com) 16000,
          InboxFolder = GetEnvWithoutQuotesSafe env ''INBOX_FOLDER'' ''INBOX'',
          SentFolder = GetEnvWithoutQuotesSafe env ''SENT_FOLDER'' ''Sent'',
          WebSiteUrl = env ''WEBSITE_URL'',
          WordPressUser = env ''WORDPRESS_USER'',
          WordPressPassword = env ''WORDPRESS_PASSWORD'',
          XeroClientId = env ''XERO_CLIENT_ID'',
          XeroClientSecret = env ''XERO_CLIENT_SECRET'',
          HelpjuiceAPIKey = env ''HELPJUICE_API_KEY'',
          HelpjuiceAccount = env ''HELPJUICE_ACCOUNT'',
          TikaUrl = GetEnvWithoutQuotesSafe env ''TIKA_URL'' ''http://localhost:9998'',
          VimeoApiKey = env ''VIMEO_API_KEY'',
          NukiApiToken = env ''NUKI_API_TOKEN'',
          SupabaseUrl = env ''SUPABASE_URL'',
          SupabaseApiKey = env ''SUPABASE_API_KEY'',
          WeatherApiKey = env ''WEATHERAPI_KEY''\<rparr>)"

section \<open>Lemmas\<close>

lemma FindAgent_Some:
  "FindAgent c email = Some a \<Longrightarrow> a \<in> set (acAgents c) \<and> to_lower (adEmail a) = to_lower email"
  by (auto simp: FindAgent_def find_Some_iff)

lemma FindAgent_None_iff:
  "FindAgent c email = None \<longleftrightarrow> (\<forall>a\<in>set (acAgents c). to_lower (adEmail a) \<noteq> to_lower email)"
  by (auto simp: FindAgent_def find_None_iff)

lemma pickInt_pos: "0 < dflt \<Longrightarrow> 0 < pickInt ov com dflt"
  by (auto simp: pickInt_def split: option.splits)

lemma pickInt_override: "0 < v \<Longrightarrow> pickInt (Some v) com dflt = v"
  by (simp add: pickInt_def)

lemma pickInt_inherit: "(\<And>v. ov = Some v \<Longrightarrow> v \<le> 0) \<Longrightarrow> pickInt ov com dflt = pickInt None com dflt"
  by (cases ov) (auto simp: pickInt_def)

lemma pickStr_first: "trim_space s \<noteq> [] \<Longrightarrow> pickStr (s # ss) = s"
  by simp

lemma trimAll_trimmed: "w \<in> set (trimAll ss) \<Longrightarrow> w \<noteq> [] \<and> trim_space w = w"
  by (auto simp: trimAll_def)

lemma trimAll_mem: "w \<in> set (trimAll ss) \<Longrightarrow> w \<in> trim_space ` set ss"
  by (auto simp: trimAll_def)

lemma splitCSV_trimmed: "w \<in> set (splitCSV s) \<Longrightarrow> w \<noteq> [] \<and> trim_space w = w \<and> CHR '','' \<notin> set w"
proof -
  assume w: "w \<in> set (splitCSV s)"
  then have t: "w \<noteq> [] \<and> trim_space w = w"
    unfolding splitCSV_def by (metis empty_iff empty_set trimAll_trimmed)
  from w have "w \<in> set (trimAll (split_char (CHR '','') s))"
    by (auto simp: splitCSV_def split: if_splits)
  then have "w \<in> trim_space ` set (split_char (CHR '','') s)"
    by (rule trimAll_mem)
  then obtain p where p: "p \<in> set (split_char (CHR '','') s)" "w = trim_space p"
    by blast
  from p(1) have "CHR '','' \<notin> set p"
    by (rule split_char_no_sep)
  with set_trim_by [of is_space p] p(2) have "CHR '','' \<notin> set w" by blast
  with t show ?thesis by blast
qed

lemma resolve_smtp_port: "0 < snd (resolve_smtp hp)"
  by (simp add: resolve_smtp_def split: option.split prod.split)

lemma roster_emails_iff:
  "x \<in> set (roster_emails c) \<longleftrightarrow>
     (\<exists>a\<in>set (acAgents c). adEmail a \<noteq> [] \<and> x = to_lower (adEmail a)) \<or>
     (\<exists>e\<in>set (acExternal c). exEmail e \<noteq> [] \<and> x = to_lower (exEmail e))"
  by (auto simp: roster_emails_def)

lemma Apply_limits_pos:
  "0 < MaxTurns (Apply env cfg)" "0 < AgentTimeout (Apply env cfg)" "0 < MaxTokens (Apply env cfg)"
  "0 < MaxHistoryChars (Apply env cfg)" "0 < MaxEmailRetries (Apply env cfg)"
  "0 < MaxMessageBodyChars (Apply env cfg)" "0 < SmtpPort (Apply env cfg)"
  unfolding Apply_def Let_def config.select_convs
  by (rule pickInt_pos resolve_smtp_port, simp?)+

lemma Apply_roster: "AgentEmails (Apply env (Some c)) = roster_emails c"
  unfolding Apply_def Let_def config.select_convs option.case by (rule refl)

section \<open>Loading\<close>

text \<open>
  \<open>yaml\<close> is the YAML decoder.  \<open>LoadMCPServers\<close> treats a directory in place of the file as no file.
\<close>

definition Load :: "(string \<Rightarrow> agents_config result) \<Rightarrow> string \<Rightarrow> string fsfile \<Rightarrow> agents_config option result" where
  "Load yaml path f =
     (case f of
        Absent \<Rightarrow> Inr None
      | Unreadable e \<Rightarrow> Inl (Wrap (''reading '' @ path @ '': '') e [])
      | Stored bytes \<Rightarrow>
          (case yaml bytes of
             Inl e \<Rightarrow> Inl (Wrap (''parsing '' @ path @ '': '') e [])
           | Inr c \<Rightarrow> Inr (Some c)))"

definition LoadMCPServers ::
  "(string \<Rightarrow> mcp_server list result) \<Rightarrow> string \<Rightarrow> bool \<Rightarrow> string fsfile \<Rightarrow> mcp_server list result" where
  "LoadMCPServers yaml path isDir f =
     (if isDir then Inr []
      else case f of
        Absent \<Rightarrow> Inr []
      | Unreadable e \<Rightarrow> Inl (Wrap (''reading '' @ path @ '': '') e [])
      | Stored bytes \<Rightarrow>
          (case yaml bytes of
             Inl e \<Rightarrow> Inl (Wrap (''parsing '' @ path @ '': '') e [])
           | Inr servers \<Rightarrow> Inr servers))"

section \<open>Properties\<close>

text \<open>Peers of an agent: the list never holds the agent itself, whatever the case of its address,
  and it holds every other entry of the roster, the external partners tagged as such.\<close>

theorem Peers_are_the_others:
  "to_lower self \<notin> (\<lambda>p. to_lower (ppEmail p)) ` set (Peers c self) \<and>
   set (Peers c self) =
     peer_of_agent ` {a \<in> set (acAgents c). to_lower (adEmail a) \<noteq> to_lower self} \<union>
     peer_of_external ` {e \<in> set (acExternal c). to_lower (exEmail e) \<noteq> to_lower self}"
  by (auto simp: Peers_def peer_of_agent_def peer_of_external_def)

text \<open>Limits after \<open>Apply\<close>: the turn, token, history, retry and body limits, the timeout and the
  port are positive for every configuration, so an override of zero or less cannot switch one off
  and falls through to the common setting or the default.\<close>

theorem Apply_limits_are_positive:
  "0 < MaxTurns (Apply env cfg) \<and> 0 < MaxTokens (Apply env cfg) \<and> 0 < MaxHistoryChars (Apply env cfg) \<and>
   0 < MaxEmailRetries (Apply env cfg) \<and> 0 < MaxMessageBodyChars (Apply env cfg) \<and>
   0 < AgentTimeout (Apply env cfg) \<and> 0 < SmtpPort (Apply env cfg)"
  by (intro conjI Apply_limits_pos)

text \<open>The mail server of a deployment: outside a container, a non-blank IMAP server of the common
  settings is used for every agent, whatever server the agent's own entry names.\<close>

theorem Apply_common_server_wins:
  assumes "trim_space (ccEmailServer (acCommon c)) \<noteq> []" "env ''RUNNING_IN_CONTAINER'' \<noteq> ''true''"
  shows "EmailServer (Apply env (Some c)) = ccEmailServer (acCommon c)"
  using assms unfolding Apply_def Let_def config.select_convs option.case by simp

theorem Apply_common_server_wins_witness:
  "EmailServer (Apply (\<lambda>k. []) (Some \<lparr>acCommon = empty_common\<lparr>ccEmailServer := ''mail:993''\<rparr>,
     acAgents = [], acExternal = []\<rparr>)) = ''mail:993''"
proof -
  have "trim_space ''mail:993'' \<noteq> []" by code_simp
  then show ?thesis
    using Apply_common_server_wins [of "\<lparr>acCommon = empty_common\<lparr>ccEmailServer := ''mail:993''\<rparr>,
      acAgents = [], acExternal = []\<rparr>" "\<lambda>k. []"] by simp
qed

end
