(* ===== verification/Email.thy ===== *)
theory Email
  imports Messages Gotime Config
begin

text \<open>
  The email component (\<open>internal/services/emailing.go\<close>): the decoded email, the pure functions on
  headers, subjects, bodies and attachments, and the conversion of an email into a user message.
  The IMAP and SMTP sides are in \<open>Mail_Transport\<close>.  Address parsing (\<open>mail.ParseAddress\<close> of
  \<open>go-message\<close> and of \<open>net/mail\<close>), the HTML parser, the ZIP and XML readers and Tika are arguments:
  \<open>pa s\<close> is the bare address of \<open>s\<close>, or \<open>None\<close> when it does not parse.
\<close>

section \<open>Data\<close>

record attachment =
  attName :: string
  attData :: string

record email =
  eTo :: "string list"
  eFrom :: string
  eCc :: "string list"
  eDate :: gotime
  eInReplyTo :: string
  eReferences :: "string list"
  eMessageId :: string
  eSenders :: "string list"
  eSubject :: string
  eContent :: string
  eAttachments :: "attachment list"
  eAutoSubmitted :: string
  eThreadIndexConvID :: string
  eThreadTopic :: string

definition zero_time :: gotime where
  "zero_time = utc (- 62135596800 * 10 ^ 9)"

definition empty_email :: email where
  "empty_email = \<lparr>eTo = [], eFrom = [], eCc = [], eDate = zero_time, eInReplyTo = [], eReferences = [],
     eMessageId = [], eSenders = [], eSubject = [], eContent = [], eAttachments = [],
     eAutoSubmitted = [], eThreadIndexConvID = [], eThreadTopic = []\<rparr>"

definition GetThreadRoot :: "email \<Rightarrow> string" where
  "GetThreadRoot e = (case eReferences e of [] \<Rightarrow> eMessageId e | r # rs \<Rightarrow> r)"

section \<open>Header fields\<close>

definition EnsureAngleBrackets :: "string \<Rightarrow> string" where
  "EnsureAngleBrackets i =
     (if i = [] then i
      else let i1 = replace_all ''&lt;'' ''<'' i;
               i2 = replace_all ''&gt;'' ''>'' i1;
               i3 = replace_all ''&amp;'' ''&'' i2;
               i4 = (if has_prefix ''<'' i3 then i3 else ''<'' @ i3)
           in if has_suffix ''>'' i4 then i4 else i4 @ ''>'')"

definition parseReferences :: "string \<Rightarrow> string list" where
  "parseReferences refs =
     (if refs = [] then []
      else map EnsureAngleBrackets
             (filter (\<lambda>r. r \<noteq> []) (map (trim_by (\<lambda>c. c \<in> set [CHR '' '', CHR 0x09, CHR 0x0A, CHR 0x0D])) (go_fields refs))))"

definition parseSenders :: "string \<Rightarrow> string list" where
  "parseSenders senders =
     (if senders = [] then []
      else filter (\<lambda>s. s \<noteq> []) (map trim_space (split_char (CHR '','') senders)))"

text \<open>The hex form of the 22-byte conversation prefix of a \<open>Thread-Index\<close> header.\<close>

definition decodeThreadIndexConvID :: "string \<Rightarrow> string" where
  "decodeThreadIndexConvID h =
     (let h' = trim_space h
      in if h' = [] then []
         else case b64_decode h' of
                None \<Rightarrow> []
              | Some raw \<Rightarrow> if length raw < 22 then [] else hex_encode (take 22 raw))"

definition mail_domain :: "(string \<Rightarrow> string option) \<Rightarrow> string \<Rightarrow> string" where
  "mail_domain pa s0 =
     (let s = trim_space s0
      in if s = [] then []
         else let s' = (case pa s of Some addr \<Rightarrow> addr | None \<Rightarrow> s)
              in case last_index_char (CHR ''@'') s' of
                   None \<Rightarrow> []
                 | Some at \<Rightarrow> if at = length s' - 1 then [] else to_lower (drop (at + 1) s'))"

definition sameDomain :: "(string \<Rightarrow> string option) \<Rightarrow> string \<Rightarrow> string \<Rightarrow> bool" where
  "sameDomain pa a b \<longleftrightarrow> mail_domain pa a \<noteq> [] \<and> mail_domain pa a = mail_domain pa b"

definition AddToSenders :: "(string \<Rightarrow> string option) \<Rightarrow> string list \<Rightarrow> string \<Rightarrow> string list" where
  "AddToSenders pa senders from_hdr =
     (case pa from_hdr of
        None \<Rightarrow> senders
      | Some mailbox \<Rightarrow>
          if list_ex (\<lambda>e. equal_fold e mailbox) senders then senders else senders @ [mailbox])"

definition resolveMailFolder :: "config \<Rightarrow> string \<Rightarrow> string result" where
  "resolveMailFolder cfg folder =
     (let f = to_lower (trim_space folder)
      in if f = [] \<or> f = ''inbox'' then Inr (InboxFolder cfg)
         else if f = ''sent'' then Inr (SentFolder cfg)
         else Inl (Err (''unknown folder '' @ go_quote folder @ '' (expected '' @ go_quote ''inbox'' @
                        '' or '' @ go_quote ''sent'' @ '')'')))"

section \<open>Subjects\<close>

text \<open>
  The reply and forward prefixes of \<open>replyPrefixRe\<close>, the non-Latin ones as UTF-8 bytes: the words
  for reply and forward in Chinese, Japanese and Korean.
\<close>

definition reply_words :: "string list" where
  "reply_words =
     [''re'', ''aw'', ''fwd'', ''fw'', ''wg'', ''tr'', ''sv'', ''vs'', ''rif'', ''r'', ''rv'', ''ant'', ''vl'', ''odp'', ''pd'',
      [CHR 0xE5, CHR 0x9B, CHR 0x9E, CHR 0xE5, CHR 0xA4, CHR 0x8D],
      [CHR 0xE7, CHR 0xAD, CHR 0x94, CHR 0xE5, CHR 0xA4, CHR 0x8D],
      [CHR 0xE8, CHR 0xBD, CHR 0xAC, CHR 0xE5, CHR 0x8F, CHR 0x91],
      [CHR 0xE5, CHR 0x9B, CHR 0x9E, CHR 0xE8, CHR 0xA6, CHR 0x86],
      [CHR 0xE8, CHR 0xBD, CHR 0x89, CHR 0xE5, CHR 0xAF, CHR 0x84],
      [CHR 0xE8, CHR 0xBF, CHR 0x94, CHR 0xE4, CHR 0xBF, CHR 0xA1],
      [CHR 0xE8, CHR 0xBB, CHR 0xA2, CHR 0xE9, CHR 0x80, CHR 0x81],
      [CHR 0xED, CHR 0x9A, CHR 0x8C, CHR 0xEC, CHR 0x8B, CHR 0xA0],
      [CHR 0xEB, CHR 0x8B, CHR 0xB5, CHR 0xEC, CHR 0x9E, CHR 0xA5],
      [CHR 0xEC, CHR 0xA0, CHR 0x84, CHR 0xEB, CHR 0x8B, CHR 0xAC]]"

definition strip_prefix_fold :: "string \<Rightarrow> string \<Rightarrow> string option" where
  "strip_prefix_fold p s =
     (if has_prefix (to_lower p) (to_lower s) then Some (drop (length p) s) else None)"

text \<open>A numbered variant \<open>[12]\<close>, and the ASCII or full-width colon.\<close>

definition skip_number :: "string \<Rightarrow> string" where
  "skip_number s =
     (case s of
        c # cs \<Rightarrow>
          if c = CHR ''['' \<and> takeWhile is_digit cs \<noteq> [] \<and> has_prefix '']'' (dropWhile is_digit cs)
          then drop 1 (dropWhile is_digit cs) else s
      | [] \<Rightarrow> s)"

definition skip_colon :: "string \<Rightarrow> string option" where
  "skip_colon s =
     (if has_prefix '':'' s then Some (drop 1 s)
      else if has_prefix [CHR 0xEF, CHR 0xBC, CHR 0x9A] s then Some (drop 3 s)
      else None)"

fun first_some :: "('a \<Rightarrow> 'b option) \<Rightarrow> 'a list \<Rightarrow> 'b option" where
  "first_some f [] = None"
| "first_some f (x # xs) = (case f x of Some y \<Rightarrow> Some y | None \<Rightarrow> first_some f xs)"

definition match_prefix :: "string \<Rightarrow> string option" where
  "match_prefix s0 =
     (let s = dropWhile re_space s0
      in map_option (dropWhile re_space)
           (case first_some (\<lambda>p. strip_prefix_fold p s) [''[ext]'', ''[external]'', ''[extern]''] of
              Some r \<Rightarrow> Some r
            | None \<Rightarrow>
                first_some (\<lambda>w. Option.bind (strip_prefix_fold w s)
                              (\<lambda>r. skip_colon (dropWhile re_space (skip_number r)))) reply_words))"

lemma first_some_Some: "first_some f xs = Some y \<Longrightarrow> \<exists>x\<in>set xs. f x = Some y"
  by (induction xs) (auto split: option.splits)

lemma first_some_None_iff: "first_some f xs = None \<longleftrightarrow> (\<forall>x\<in>set xs. f x = None)"
  by (induction xs) (auto split: option.splits)

lemma length_strip_prefix_fold: "strip_prefix_fold p s = Some r \<Longrightarrow> length r + length p = length s"
  using has_prefix_length [of "to_lower p" "to_lower s"]
  by (auto simp: strip_prefix_fold_def split: if_splits)

lemma length_skip_number: "length (skip_number s) \<le> length s"
proof (cases s)
  case (Cons c cs)
  have "length (dropWhile is_digit cs) \<le> length cs" by (rule length_dropWhile_le)
  with Cons show ?thesis by (auto simp: skip_number_def)
qed (simp add: skip_number_def)

lemma length_skip_colon: "skip_colon s = Some r \<Longrightarrow> length r < length s"
  by (cases s) (auto simp: skip_colon_def split: if_splits)

lemma match_prefix_shorter:
  assumes "match_prefix s = Some r"
  shows "length r < length s"
proof -
  let ?t = "dropWhile re_space s"
  have t: "length ?t \<le> length s" by (rule length_dropWhile_le)
  from assms obtain q where q: "r = dropWhile re_space q"
    "first_some (\<lambda>p. strip_prefix_fold p ?t) [''[ext]'', ''[external]'', ''[extern]''] = Some q \<or>
     first_some (\<lambda>w. Option.bind (strip_prefix_fold w ?t)
                   (\<lambda>r. skip_colon (dropWhile re_space (skip_number r)))) reply_words = Some q"
    by (fastforce simp: match_prefix_def Let_def split: option.splits)
  have "length q < length ?t"
    using q(2)
  proof
    assume "first_some (\<lambda>p. strip_prefix_fold p ?t) [''[ext]'', ''[external]'', ''[extern]''] = Some q"
    from first_some_Some [OF this] show ?thesis
      using length_strip_prefix_fold by fastforce
  next
    assume "first_some (\<lambda>w. Option.bind (strip_prefix_fold w ?t)
                   (\<lambda>r. skip_colon (dropWhile re_space (skip_number r)))) reply_words = Some q"
    from first_some_Some [OF this] obtain w u where
      "strip_prefix_fold w ?t = Some u" "skip_colon (dropWhile re_space (skip_number u)) = Some q"
      by (auto simp: bind_eq_Some_conv)
    then have "length u \<le> length ?t" "length q < length (dropWhile re_space (skip_number u))"
      using length_strip_prefix_fold length_skip_colon by fastforce+
    moreover have "length (dropWhile re_space (skip_number u)) \<le> length u"
      using length_dropWhile_le [of re_space "skip_number u"] length_skip_number [of u] by linarith
    ultimately show ?thesis by linarith
  qed
  moreover have "length r \<le> length q" using q(1) by (simp add: length_dropWhile_le)
  ultimately show ?thesis using t by linarith
qed

text \<open>The loop of \<open>NormalizeSubject\<close>: a pass that strips nothing leaves the subject unchanged.\<close>

function strip_prefixes :: "string \<Rightarrow> string" where
  "strip_prefixes s = (case match_prefix s of None \<Rightarrow> s | Some r \<Rightarrow> strip_prefixes r)"
  by pat_completeness auto
termination
  by (relation "measure length") (auto intro: match_prefix_shorter)

declare strip_prefixes.simps [simp del]

definition NormalizeSubject :: "string \<Rightarrow> string" where
  "NormalizeSubject s = to_lower (join '' '' (go_fields (strip_prefixes (trim_space s))))"

definition HasSubject :: "string \<Rightarrow> bool" where
  "HasSubject s \<longleftrightarrow> NormalizeSubject s \<noteq> []"

definition ReplySubject :: "string \<Rightarrow> string" where
  "ReplySubject parent0 =
     (let parent = trim_space parent0
      in if \<not> HasSubject parent then []
         else if has_prefix ''re:'' (to_lower parent) then parent
         else ''Re: '' @ parent)"

definition DefaultSubject :: "config \<Rightarrow> string" where
  "DefaultSubject cfg =
     (let name = trim_space (AgentName cfg)
      in if name \<noteq> [] then ''Message from '' @ name else ''(no subject)'')"

section \<open>Text bodies\<close>

text \<open>The parsed HTML document: element nodes carry their tag, text nodes their text.\<close>

datatype html_node =
    ElementNode string "html_node list"
  | TextNode string
  | OtherNode "html_node list"

definition opens_line :: "string \<Rightarrow> bool" where
  "opens_line tag \<longleftrightarrow>
     tag \<in> set [''br'', ''p'', ''div'', ''h1'', ''h2'', ''h3'', ''h4'', ''h5'', ''h6'', ''tr'', ''li'', ''blockquote'']"

definition closes_line :: "string \<Rightarrow> bool" where
  "closes_line tag \<longleftrightarrow>
     tag \<in> set [''p'', ''div'', ''h1'', ''h2'', ''h3'', ''h4'', ''h5'', ''h6'', ''tr'']"

definition hidden_element :: "string \<Rightarrow> bool" where
  "hidden_element tag \<longleftrightarrow> tag \<in> set [''script'', ''style'', ''head'']"

fun extractHTMLText :: "html_node \<Rightarrow> string" where
  "extractHTMLText (ElementNode tag cs) =
     (if hidden_element tag then []
      else (if opens_line tag then [nl] else []) @ concat (map extractHTMLText cs) @
           (if closes_line tag then [nl] else []))"
| "extractHTMLText (TextNode t) = t"
| "extractHTMLText (OtherNode cs) = concat (map extractHTMLText cs)"

definition htmlToText :: "(string \<Rightarrow> html_node option) \<Rightarrow> string \<Rightarrow> string" where
  "htmlToText htmlParse s =
     (case htmlParse s of None \<Rightarrow> s | Some doc \<Rightarrow> trim_space (extractHTMLText doc))"

text \<open>The end of the header block: the first blank line, of either line ending.\<close>

definition crlf2 :: string where "crlf2 = [CHR 0x0D, nl, CHR 0x0D, nl]"

definition body_start :: "string \<Rightarrow> nat option" where
  "body_start s =
     (case index_sub crlf2 s of
        Some i \<Rightarrow> Some (i + 4)
      | None \<Rightarrow> map_option (\<lambda>i. i + 2) (index_sub [nl, nl] s))"

definition skip_part :: "string \<Rightarrow> bool" where
  "skip_part part \<longleftrightarrow> trim_space part = [] \<or> has_prefix ''--'' (trim_space part)"

text \<open>The body of the first part whose header mentions a content type.\<close>

fun find_part :: "string \<Rightarrow> string list \<Rightarrow> string option" where
  "find_part ctype [] = None"
| "find_part ctype (part # parts) =
     (if skip_part part then find_part ctype parts
      else case body_start part of
             None \<Rightarrow> find_part ctype parts
           | Some i \<Rightarrow>
               if contains_sub ctype (to_lower (take i part)) then Some (drop i part)
               else find_part ctype parts)"

definition extractTextFromMultipart :: "(string \<Rightarrow> html_node option) \<Rightarrow> string \<Rightarrow> string \<Rightarrow> string" where
  "extractTextFromMultipart htmlParse body boundary =
     (let parts = split_sub (''--'' @ boundary) body
      in case find_part ''text/plain'' parts of
           Some b \<Rightarrow> trim_space b
         | None \<Rightarrow>
             (case find_part ''text/html'' parts of
                Some b \<Rightarrow> htmlToText htmlParse (trim_space b)
              | None \<Rightarrow> []))"

definition boundary_of :: "string \<Rightarrow> string" where
  "boundary_of bStr =
     trim_space
       (if has_prefix [dquote] bStr then
          (case index_char dquote (drop 1 bStr) of
             Some e \<Rightarrow> take e (drop 1 bStr)
           | None \<Rightarrow> bStr)
        else takeWhile (\<lambda>c. c \<notin> set [CHR '' '', CHR 0x09, nl, CHR 0x0D, CHR '';'']) bStr)"

definition extractRawBodyText :: "(string \<Rightarrow> html_node option) \<Rightarrow> string \<Rightarrow> string" where
  "extractRawBodyText htmlParse raw =
     (case body_start raw of
        None \<Rightarrow> []
      | Some n \<Rightarrow>
          let body = drop n raw; hdr = take n raw
          in case index_sub ''boundary='' (to_lower hdr) of
               None \<Rightarrow> trim_space body
             | Some i \<Rightarrow>
                 let b = boundary_of (drop (i + 9) hdr)
                 in if b \<noteq> [] then extractTextFromMultipart htmlParse body b else trim_space body)"

section \<open>Replies and forwards\<close>

text \<open>
  The matcher of \<open>replyMarkerRegex\<close> at one position.  The character classes of neighbouring items are
  disjoint, so the greedy choices are the only ones.
\<close>

definition many1 :: "(char \<Rightarrow> bool) \<Rightarrow> string \<Rightarrow> string option" where
  "many1 P s = (if takeWhile P s = [] then None else Some (dropWhile P s))"

definition letter :: "char \<Rightarrow> bool" where
  "letter c \<longleftrightarrow> is_lower c \<or> is_upper c"

definition four_digits :: "string \<Rightarrow> string option" where
  "four_digits s =
     (if length s \<ge> 4 \<and> list_all is_digit (take 4 s) then Some (drop 4 s) else None)"

definition am_pm :: "string \<Rightarrow> string option" where
  "am_pm s = (case strip_prefix_fold ''am'' s of Some r \<Rightarrow> Some r | None \<Rightarrow> strip_prefix_fold ''pm'' s)"

fun chain :: "(string \<Rightarrow> string option) list \<Rightarrow> string \<Rightarrow> string option" where
  "chain [] s = Some s"
| "chain (f # fs) s = (case f s of None \<Rightarrow> None | Some r \<Rightarrow> chain fs r)"

definition reply_marker_at :: "string \<Rightarrow> bool" where
  "reply_marker_at s \<longleftrightarrow>
     (case chain [strip_prefix_fold ''on'', many1 re_space, many1 letter, strip_prefix_fold '','',
                  many1 re_space, many1 letter, many1 re_space, many1 is_digit, strip_prefix_fold '','',
                  many1 re_space, four_digits, many1 re_space, strip_prefix_fold ''at'', many1 re_space,
                  many1 is_digit, strip_prefix_fold '':'', many1 is_digit, many1 re_space, am_pm,
                  many1 re_space] s of
        None \<Rightarrow> False
      | Some r \<Rightarrow> contains_sub ''wrote:'' (to_lower (takeWhile (\<lambda>c. c \<noteq> nl) r)))"

fun find_reply_marker :: "string \<Rightarrow> nat option" where
  "find_reply_marker [] = None"
| "find_reply_marker (c # cs) =
     (if reply_marker_at (c # cs) then Some 0 else map_option Suc (find_reply_marker cs))"

definition original_content :: "string \<Rightarrow> string" where
  "original_content c =
     (case find_reply_marker c of Some i \<Rightarrow> trim_space (take i c) | None \<Rightarrow> c)"

definition from_or_unknown :: "email \<Rightarrow> string" where
  "from_or_unknown e = (if eFrom e = [] then ''Unknown'' else eFrom e)"

definition ReplyBody :: "email \<Rightarrow> string \<Rightarrow> string" where
  "ReplyBody e msg =
     msg @ [nl, nl] @ ''On '' @ fmt_reply_date (eDate e) @ '' '' @ from_or_unknown e @ '' wrote:'' @ [nl, nl] @
     original_content (eContent e)"

definition ForwardBody :: "email \<Rightarrow> string \<Rightarrow> string" where
  "ForwardBody e msg =
     msg @ [nl, nl] @ ''---------- Forwarded message ---------'' @ [nl] @
     ''From: '' @ from_or_unknown e @ [nl] @
     ''Date: '' @ fmt_reply_date (eDate e) @ [nl] @
     (if eSubject e \<noteq> [] then ''Subject: '' @ eSubject e @ [nl] else []) @
     (if eTo e \<noteq> [] then ''To: '' @ join '', '' (eTo e) @ [nl] else []) @
     (if eCc e \<noteq> [] then ''Cc: '' @ join '', '' (eCc e) @ [nl] else []) @
     [nl, nl] @ eContent e"

section \<open>Attachments and the user message\<close>

definition imageMediaType :: "string \<Rightarrow> string option" where
  "imageMediaType ext =
     (if ext = ''.jpg'' \<or> ext = ''.jpeg'' then Some ''image/jpeg''
      else if ext = ''.png'' then Some ''image/png''
      else if ext = ''.gif'' then Some ''image/gif''
      else if ext = ''.webp'' then Some ''image/webp''
      else None)"

definition isTextExtension :: "string \<Rightarrow> bool" where
  "isTextExtension ext \<longleftrightarrow>
     ext \<in> set [''.txt'', ''.csv'', ''.md'', ''.json'', ''.xml'', ''.html'', ''.htm'', ''.log'', ''.yml'', ''.yaml'',
                ''.toml'', ''.ini'', ''.cfg'', ''.conf'', ''.go'', ''.py'', ''.js'', ''.ts'', ''.java'', ''.c'', ''.cpp'',
                ''.h'', ''.css'', ''.sql'', ''.sh'', ''.bat'', ''.ps1'', ''.rb'', ''.rs'', ''.swift'']"

text \<open>\<open>filepath.Ext\<close>: from the last dot of the last path element on.\<close>

definition file_ext :: "string \<Rightarrow> string" where
  "file_ext path =
     (case last_index_char (CHR ''.'') path of
        None \<Rightarrow> []
      | Some i \<Rightarrow> if CHR ''/'' \<in> set (drop i path) then [] else drop i path)"

text \<open>
  The entries of an Office file that are read.  \<open>unzip\<close> lists the entries of a ZIP archive with
  their contents (\<open>None\<close> for an entry that cannot be read), \<open>charData\<close> the text tokens of an XML
  text up to the first error.
\<close>

definition wanted_entry :: "string \<Rightarrow> string \<Rightarrow> bool" where
  "wanted_entry ext name \<longleftrightarrow>
     (if ext = ''.docx'' then
        has_prefix ''word/'' name \<and> has_suffix ''.xml'' name \<and>
        \<not> contains_sub ''theme'' name \<and> \<not> contains_sub ''setting'' name \<and> \<not> contains_sub ''style'' name \<and>
        \<not> contains_sub ''fontTable'' name \<and> \<not> contains_sub ''webSettings'' name \<and>
        \<not> contains_sub ''numbering'' name
      else if ext = ''.xlsx'' then
        name = ''xl/sharedStrings.xml'' \<or> (has_prefix ''xl/worksheets/sheet'' name \<and> has_suffix ''.xml'' name)
      else ext = ''.pptx'' \<and> has_prefix ''ppt/slides/slide'' name \<and> has_suffix ''.xml'' name)"

definition extractOfficeText ::
  "(string \<Rightarrow> (string \<times> string option) list option) \<Rightarrow> (string \<Rightarrow> string list) \<Rightarrow> string \<Rightarrow> string \<Rightarrow> string option" where
  "extractOfficeText unzip charData bytes ext =
     (if ext \<noteq> ''.docx'' \<and> ext \<noteq> ''.xlsx'' \<and> ext \<noteq> ''.pptx'' then None
      else case unzip bytes of
        None \<Rightarrow> None
      | Some entries \<Rightarrow>
          let texts = List.map_filter (\<lambda>(name, content). if wanted_entry ext name then content else None) entries;
              toks = filter (\<lambda>t. t \<noteq> []) (map trim_space (concat (map charData texts)));
              out = trim_space (concat (map (\<lambda>t. t @ [nl]) toks))
          in if texts = [] \<or> out = [] then None else Some out)"

definition tikaExtractText :: "(string \<Rightarrow> string \<Rightarrow> string result) \<Rightarrow> string \<Rightarrow> string \<Rightarrow> string option" where
  "tikaExtractText tika name bytes =
     (if bytes = [] then None
      else case tika bytes name of
             Inl e \<Rightarrow> None
           | Inr text \<Rightarrow> if trim_space text = [] then None else Some (trim_space text))"

record converters =
  cvUnzip :: "string \<Rightarrow> (string \<times> string option) list option"
  cvCharData :: "string \<Rightarrow> string list"
  cvTika :: "string \<Rightarrow> string \<Rightarrow> string result"

definition mega :: "nat \<Rightarrow> nat" where
  "mega n = n * 1024 * 1024"

definition attachmentToContentBlock :: "converters \<Rightarrow> attachment \<Rightarrow> block option" where
  "attachmentToContentBlock cv att =
     (let ext = to_lower (file_ext (attName att)); bytes = attData att
      in case imageMediaType ext of
           Some mt \<Rightarrow>
             if length bytes > mega 20 then None else Some (BImage (ImgBase64 mt (b64_encode bytes)))
         | None \<Rightarrow>
             if ext = ''.pdf'' then
               if length bytes > mega 32 then None
               else Some (BDocument (DocBase64 (b64_encode bytes)) (attName att))
             else if isTextExtension ext then
               if length bytes > mega 5 then None else Some (BDocument (DocText bytes) (attName att))
             else
               (case extractOfficeText (cvUnzip cv) (cvCharData cv) bytes ext of
                  Some text \<Rightarrow>
                    if length text > mega 5 then None else Some (BDocument (DocText text) (attName att))
                | None \<Rightarrow>
                    (case tikaExtractText (cvTika cv) (attName att) bytes of
                       Some text \<Rightarrow>
                         if length text > mega 5 then None else Some (BDocument (DocText text) (attName att))
                     | None \<Rightarrow> None)))"

text \<open>
  The summary object: the fields in the order of the struct, the empty ones left out, and no sender
  chain.
\<close>

definition str_member :: "string \<Rightarrow> string \<Rightarrow> (string \<times> json) list" where
  "str_member k s = (if s = [] then [] else [(k, JStr s)])"

definition list_member :: "string \<Rightarrow> json list \<Rightarrow> (string \<times> json) list" where
  "list_member k vs = (if vs = [] then [] else [(k, JArr vs)])"

definition email_summary :: "email \<Rightarrow> json" where
  "email_summary e = JObj
     (list_member ''to'' (map JStr (eTo e)) @ str_member ''from'' (eFrom e) @
      list_member ''cc'' (map JStr (eCc e)) @ [(''date'', JStr (fmt_rfc3339 (eDate e)))] @
      str_member ''inReplyTo'' (eInReplyTo e) @ list_member ''references'' (map JStr (eReferences e)) @
      str_member ''message-id'' (eMessageId e) @ str_member ''subject'' (eSubject e) @
      str_member ''content'' (eContent e) @
      list_member ''attachments''
        (map (\<lambda>a. JObj [(''name'', JStr (attName a)), (''size_bytes'', JNum (show_nat (length (attData a))))])
             (eAttachments e)))"

definition UserMessage :: "converters \<Rightarrow> email \<Rightarrow> message" where
  "UserMessage cv e =
     Fresh User (BText (json_show (email_summary e)) #
                 List.map_filter (attachmentToContentBlock cv) (eAttachments e))"

section \<open>Lemmas on subjects and identifiers\<close>

lemma is_space_re_space: "re_space c \<Longrightarrow> is_space c"
  by (auto simp: re_space_def is_space_def)

lemma dropWhile_re_space_trimmed:
  assumes "trim_space s = s" "s \<noteq> []"
  shows "dropWhile re_space s = s"
proof -
  have "\<not> is_space (hd s)" using assms hd_trim_by [of is_space s] by simp
  then show ?thesis using assms(2) is_space_re_space by (cases s) auto
qed

lemma match_prefix_Re:
  assumes "trim_space s = s" "s \<noteq> []"
  shows "match_prefix (''Re: '' @ s) = Some s"
proof -
  have l: "lower_char (CHR ''R'') = CHR ''r''" "lower_char (CHR ''e'') = CHR ''e''"
    "\<not> re_space (CHR ''R'')" "\<not> re_space (CHR '':'')" "re_space (CHR '' '')" 
    "lower_char (CHR ''['') = CHR ''[''" "lower_char (CHR ''r'') = CHR ''r''" "lower_char (CHR ''e'') = CHR ''e''"
    by code_simp+
  have r: "reply_words = ''re'' # tl reply_words" by (simp add: reply_words_def)
  show ?thesis
    unfolding match_prefix_def Let_def
    apply (subst r)
    by (simp add: strip_prefix_fold_def l skip_number_def skip_colon_def dropWhile_re_space_trimmed [OF assms])
qed

lemma HasSubject_Re:
  assumes "trim_space s = s" "HasSubject s"
  shows "HasSubject (''Re: '' @ s)"
proof -
  have ne: "s \<noteq> []"
  proof
    assume "s = []"
    moreover have "\<not> HasSubject []" by code_simp
    ultimately show False using assms(2) by simp
  qed
  have "trim_space (''Re: '' @ s) = ''Re: '' @ s"
  proof (rule trim_by_id)
    show "\<not> is_space (last (''Re: '' @ s))" using ne assms(1) last_trim_by [of is_space s] by simp
    show "\<not> is_space (hd (''Re: '' @ s))" by simp
  qed simp
  moreover have "strip_prefixes (''Re: '' @ s) = strip_prefixes s"
    by (subst strip_prefixes.simps) (simp only: match_prefix_Re [OF assms(1) ne] option.case)
  ultimately show ?thesis using assms by (simp add: HasSubject_def NormalizeSubject_def)
qed

lemma HasSubject_Nil: "\<not> HasSubject []"
  by code_simp

lemma trim_space_Re:
  assumes "trim_space s = s" "s \<noteq> []"
  shows "trim_space (''Re: '' @ s) = ''Re: '' @ s"
proof (rule trim_by_id)
  show "\<not> is_space (last (''Re: '' @ s))" using assms last_trim_by [of is_space s] by simp
  show "\<not> is_space (hd (''Re: '' @ s))" by simp
qed simp

lemma ReplySubject_cases:
  obtains "ReplySubject p = []"
  | "ReplySubject p = trim_space p" "HasSubject (trim_space p)" "has_prefix ''re:'' (to_lower (trim_space p))"
  | "ReplySubject p = ''Re: '' @ trim_space p" "HasSubject (trim_space p)"
  by (cases "HasSubject (trim_space p)"; cases "has_prefix ''re:'' (to_lower (trim_space p))")
    (simp_all add: ReplySubject_def Let_def)

lemma lower_Re: "to_lower (''Re: '' @ s) = ''re: '' @ to_lower s"
proof -
  have "to_lower ''Re: '' = ''re: ''" by code_simp
  then show ?thesis by (simp only: to_lower_simps(3))
qed

lemma ReplySubject_ok:
  assumes "ReplySubject p \<noteq> []"
  shows "HasSubject (ReplySubject p) \<and> has_prefix ''re:'' (to_lower (ReplySubject p)) \<and>
         trim_space (ReplySubject p) = ReplySubject p"
proof (cases rule: ReplySubject_cases [of p])
  case 3
  have "trim_space p \<noteq> []" using 3(2) HasSubject_Nil by auto
  then show ?thesis
    using 3 HasSubject_Re [of "trim_space p"] trim_space_Re [of "trim_space p"] by (simp only: lower_Re) simp
qed (use assms in simp_all)

lemma ReplySubject_idem: "ReplySubject (ReplySubject p) = ReplySubject p"
proof (cases "ReplySubject p = []")
  case True
  then show ?thesis using HasSubject_Nil by (simp add: ReplySubject_def)
next
  case False
  from ReplySubject_ok [OF this] show ?thesis by (simp add: ReplySubject_def [of "ReplySubject p"])
qed

lemma DefaultSubject_not_Nil: "DefaultSubject cfg \<noteq> []"
  by (simp add: DefaultSubject_def Let_def)
lemma EnsureAngleBrackets_form:
  assumes "i \<noteq> []"
  shows "has_prefix ''<'' (EnsureAngleBrackets i) \<and> has_suffix ''>'' (EnsureAngleBrackets i)"
proof -
  have "has_prefix ''<'' t \<Longrightarrow> has_prefix ''<'' (t @ ''>'')" for t
    by (auto simp: has_prefix_iff)
  then show ?thesis using assms by (simp add: EnsureAngleBrackets_def Let_def)
qed

lemma GetThreadRoot_References [simp]: "eReferences e = r # rs \<Longrightarrow> GetThreadRoot e = r"
  by (simp add: GetThreadRoot_def)

lemma GetThreadRoot_starter [simp]: "eReferences e = [] \<Longrightarrow> GetThreadRoot e = eMessageId e"
  by (simp add: GetThreadRoot_def)

lemma join_not_Nil: "w \<in> set ws \<Longrightarrow> w \<noteq> [] \<Longrightarrow> join sep ws \<noteq> []"
  by (induction sep ws rule: join.induct) auto

lemma match_prefix_other:
  assumes "lower_char c = CHR ''m''"
  shows "match_prefix (c # s) = None"
proof -
  have sp: "\<not> re_space c"
  proof
    assume "re_space c"
    then have "is_space (lower_char c)" using is_space_re_space by simp
    with assms show False by simp
  qed
  have none: "strip_prefix_fold w (c # s) = None" if "w \<noteq> []" "hd (to_lower w) \<noteq> CHR ''m''" for w
    using that assms by (cases w) (simp_all add: strip_prefix_fold_def)
  have ws: "list_all (\<lambda>w. w \<noteq> [] \<and> hd (to_lower w) \<noteq> CHR ''m'') reply_words"
    "list_all (\<lambda>w. w \<noteq> [] \<and> hd (to_lower w) \<noteq> CHR ''m'') [''[ext]'', ''[external]'', ''[extern]'']"
    by code_simp+
  have "first_some (\<lambda>w. Option.bind (strip_prefix_fold w (c # s))
          (\<lambda>r. skip_colon (dropWhile re_space (skip_number r)))) reply_words = None"
    "first_some (\<lambda>w. strip_prefix_fold w (c # s)) [''[ext]'', ''[external]'', ''[extern]''] = None"
    using ws none unfolding first_some_None_iff by (auto simp: list_all_iff)
  with sp show ?thesis by (simp add: match_prefix_def)
qed

lemma DefaultSubject_HasSubject: "HasSubject (DefaultSubject cfg)"
proof (cases "trim_space (AgentName cfg) = []")
  case True
  then have "DefaultSubject cfg = ''(no subject)''" by (simp add: DefaultSubject_def)
  moreover have "HasSubject ''(no subject)''" by code_simp
  ultimately show ?thesis by simp
next
  case False
  let ?n = "trim_space (AgentName cfg)"
  have d: "DefaultSubject cfg = ''Message from '' @ ?n" using False by (simp add: DefaultSubject_def)
  have "trim_space (''Message from '' @ ?n) = ''Message from '' @ ?n"
  proof (rule trim_by_id)
    show "\<not> is_space (last (''Message from '' @ ?n))" using False last_trim_by [of is_space "AgentName cfg"] by simp
    show "\<not> is_space (hd (''Message from '' @ ?n))" by simp
  qed simp
  moreover have "strip_prefixes (''Message from '' @ ?n) = ''Message from '' @ ?n"
    by (subst strip_prefixes.simps) (simp add: match_prefix_other)
  moreover have "''Message'' \<in> set (go_fields (''Message from '' @ ?n))"
    by (simp_all add: go_fields_def split: list.splits)
  then have "join '' '' (go_fields (''Message from '' @ ?n)) \<noteq> []"
    by (rule join_not_Nil) simp
  ultimately show ?thesis by (simp add: HasSubject_def NormalizeSubject_def d to_lower_def)
qed

end
