(* ===== verification/Mail_Transport.thy ===== *)
theory Mail_Transport
  imports Email
begin

text \<open>
  The IMAP and SMTP side of \<open>internal/services/emailing.go\<close>: decoding a fetched message, fetching by
  Message-Id through the message cache, searching, marking as seen, sending and bouncing.  The
  servers and the protocol and MIME libraries are not part of the repository: they are the
  operations of a record over a world \<open>'s\<close> of their own.
\<close>

section \<open>The libraries\<close>

record mail_address =
  maString :: string
  maAddress :: string

text \<open>
  A MIME part as the reader yields it, its body possibly unreadable; \<open>PartError\<close> is an error of
  \<open>NextPart\<close>, which ends the reading.
\<close>

datatype mail_part =
    InlinePart string "string result"
  | AttachmentPart string "string result"
  | OtherPart
  | PartError goerror

record mail_reader =
  mrSubject :: string
  mrDate :: gotime
  mrGet :: "string \<Rightarrow> string"
  mrAddressList :: "string \<Rightarrow> mail_address list result"
  mrParts :: "mail_part list"

datatype imap_body = NoBody | BodyError goerror | Body string

record criteria =
  crHeader :: "(string \<times> string) list"
  crSince :: "gotime option"
  crBefore :: "gotime option"
  crWithFlags :: "string list"
  crWithoutFlags :: "string list"

definition new_criteria :: criteria where
  "new_criteria = \<lparr>crHeader = [], crSince = None, crBefore = None, crWithFlags = [], crWithoutFlags = []\<rparr>"

definition seen_flag :: string where
  "seen_flag = [backslash] @ ''Seen''"

definition flagged_flag :: string where
  "flagged_flag = [backslash] @ ''Flagged''"

text \<open>The message handed to the SMTP library, and how it is dialled.\<close>

record mime =
  mmHeaders :: "(string \<times> string list) list"
  mmText :: string
  mmHtml :: string
  mmAttachments :: "attachment list"

record smtp_dialer =
  sdHost :: string
  sdPort :: int
  sdUser :: string
  sdPassword :: string
  sdHelo :: string

record 's mail_ops =
  moCancelled :: "'s \<Rightarrow> goerror option"
  moConnect :: "string \<Rightarrow> ('s, unit) io"
  moHandshake :: "string \<Rightarrow> bool \<Rightarrow> ('s, unit) io"
  moNewClient :: "('s, unit) io"
  moLogin :: "string \<Rightarrow> string \<Rightarrow> ('s, unit) io"
  moLogout :: "'s \<Rightarrow> 's"
  moSelect :: "string \<Rightarrow> bool \<Rightarrow> ('s, unit) io"
  moSearch :: "criteria \<Rightarrow> ('s, nat list) io"
  moFetch :: "bool \<Rightarrow> nat list \<Rightarrow> 's \<Rightarrow> (imap_body list \<times> goerror option) \<times> 's"
  moStoreSeen :: "nat list \<Rightarrow> ('s, unit) io"
  moAppend :: "string \<Rightarrow> mime \<Rightarrow> ('s, unit) io"
  moSmtp :: "smtp_dialer \<Rightarrow> mime \<Rightarrow> ('s, unit) io"
  moReadMail :: "string \<Rightarrow> mail_reader result"
  moHtmlParse :: "string \<Rightarrow> html_node option"
  moParseAddress :: "string \<Rightarrow> string option"
  moMarkdown :: "string \<Rightarrow> string"
  moUuid :: "'s \<Rightarrow> string"

section \<open>Decoding a message\<close>

text \<open>
  The reading of the parts: the first non-empty plain text, the first non-empty HTML text, every
  readable attachment, and the number of parts seen.
\<close>

record part_acc =
  paPlain :: string
  paHtml :: string
  paAttachments :: "attachment list"
  paCount :: nat

fun read_parts :: "mail_part list \<Rightarrow> part_acc \<Rightarrow> part_acc" where
  "read_parts [] acc = acc"
| "read_parts (PartError e # ps) acc = acc"
| "read_parts (OtherPart # ps) acc = read_parts ps (acc\<lparr>paCount := paCount acc + 1\<rparr>)"
| "read_parts (InlinePart ct body # ps) acc =
     (let acc1 = acc\<lparr>paCount := paCount acc + 1\<rparr>
      in read_parts ps
           (if ct = ''text/plain'' \<and> paPlain acc = [] then
              (case body of Inr b \<Rightarrow> acc1\<lparr>paPlain := b\<rparr> | Inl e \<Rightarrow> acc1)
            else if ct = ''text/html'' \<and> paHtml acc = [] then
              (case body of Inr b \<Rightarrow> acc1\<lparr>paHtml := b\<rparr> | Inl e \<Rightarrow> acc1)
            else acc1))"
| "read_parts (AttachmentPart name body # ps) acc =
     (let acc1 = acc\<lparr>paCount := paCount acc + 1\<rparr>
      in read_parts ps
           (case body of
              Inr b \<Rightarrow> acc1\<lparr>paAttachments := paAttachments acc @ [\<lparr>attName = name, attData = b\<rparr>]\<rparr>
            | Inl e \<Rightarrow> acc1))"

definition address_strings :: "mail_address list result \<Rightarrow> string list" where
  "address_strings r = (case r of Inr as \<Rightarrow> map maString as | Inl e \<Rightarrow> [])"

definition decode_mail :: "'s mail_ops \<Rightarrow> config \<Rightarrow> string \<Rightarrow> mail_reader \<Rightarrow> email" where
  "decode_mail mo cfg raw mr =
     (let froms = mrAddressList mr ''From'';
          sender = (case froms of Inr (a # as) \<Rightarrow> Some a | _ \<Rightarrow> None);
          fromAddress = (case sender of Some a \<Rightarrow> maAddress a | None \<Rightarrow> []);
          rawSenders = parseSenders (mrGet mr ''X-Senders'');
          parts = read_parts (mrParts mr) \<lparr>paPlain = [], paHtml = [], paAttachments = [], paCount = 0\<rparr>;
          content = (if paPlain parts \<noteq> [] then paPlain parts
                     else if paHtml parts \<noteq> [] then htmlToText (moHtmlParse mo) (paHtml parts)
                     else [])
      in \<lparr>eTo = address_strings (mrAddressList mr ''To''),
          eFrom = (case sender of Some a \<Rightarrow> maString a | None \<Rightarrow> []),
          eCc = address_strings (mrAddressList mr ''Cc''),
          eDate = mrDate mr,
          eInReplyTo = mrGet mr ''In-Reply-To'',
          eReferences = parseReferences (mrGet mr ''References''),
          eMessageId = mrGet mr ''Message-Id'',
          eSenders = (if sameDomain (moParseAddress mo) fromAddress (AgentEmail cfg) then rawSenders else []),
          eSubject = mrSubject mr,
          eContent = (if content = [] then extractRawBodyText (moHtmlParse mo) raw else content),
          eAttachments = paAttachments parts,
          eAutoSubmitted = trim_space (mrGet mr ''Auto-Submitted''),
          eThreadIndexConvID = decodeThreadIndexConvID (mrGet mr ''Thread-Index''),
          eThreadTopic = trim_space (mrGet mr ''Thread-Topic'')\<rparr>)"

definition parseIMAPMessage :: "'s mail_ops \<Rightarrow> config \<Rightarrow> imap_body \<Rightarrow> email result" where
  "parseIMAPMessage mo cfg body =
     (case body of
        NoBody \<Rightarrow> Inl (Err ''no message body'')
      | BodyError e \<Rightarrow> Inl (Wrap ''reading raw message body: '' e [])
      | Body raw \<Rightarrow>
          (case moReadMail mo raw of
             Inl e \<Rightarrow> Inl (Wrap ''creating mail reader: '' e [])
           | Inr mr \<Rightarrow> Inr (decode_mail mo cfg raw mr)))"

definition parse_all :: "'s mail_ops \<Rightarrow> config \<Rightarrow> imap_body list \<Rightarrow> email list" where
  "parse_all mo cfg bodies =
     List.map_filter (\<lambda>b. case parseIMAPMessage mo cfg b of Inr e \<Rightarrow> Some e | Inl x \<Rightarrow> None) bodies"

text \<open>\<open>sort.Slice\<close> by date; equal dates keep their order.\<close>

definition sort_by_date :: "email list \<Rightarrow> email list" where
  "sort_by_date = sort_key (\<lambda>e. tmNanos (eDate e))"

section \<open>Connections\<close>

definition tls_host :: "string \<Rightarrow> string" where
  "tls_host server =
     (case SplitHostPort server of Some (h, p) \<Rightarrow> if h = [] then server else h | None \<Rightarrow> server)"

definition dialServer :: "'s mail_ops \<Rightarrow> config \<Rightarrow> ('s, unit) io" where
  "dialServer mo cfg =
     io_bind (io_wrap ''connecting to IMAP server: '' (moConnect mo (EmailServer cfg))) (\<lambda>_.
     io_bind (io_wrap ''TLS handshake: '' (moHandshake mo (tls_host (EmailServer cfg)) (EmailInsecureTLS cfg))) (\<lambda>_.
     io_bind (io_wrap ''creating IMAP client: '' (moNewClient mo)) (\<lambda>_.
     io_try (io_wrap ''login: '' (moLogin mo (AgentEmail cfg) (EmailPassword cfg)))
       (\<lambda>r s. case r of Inl e \<Rightarrow> (Inl e, moLogout mo s) | Inr u \<Rightarrow> (Inr (), s)))))"

text \<open>A session: dial, run, log out on every path.\<close>

definition session :: "'s mail_ops \<Rightarrow> config \<Rightarrow> ('s, 'a) io \<Rightarrow> ('s, 'a) io" where
  "session mo cfg m = io_bind (dialServer mo cfg) (\<lambda>_. io_finally m (moLogout mo))"

definition fetchAndParse :: "'s mail_ops \<Rightarrow> config \<Rightarrow> criteria \<Rightarrow> ('s, email list) io" where
  "fetchAndParse mo cfg crit =
     io_bind (io_wrap ''searching messages: '' (moSearch mo crit)) (\<lambda>ids.
       if ids = [] then io_return []
       else (\<lambda>s. case moFetch mo True ids s of
               ((bodies, Some e), s') \<Rightarrow> (Inl (Wrap ''fetching messages: '' e []), s')
             | ((bodies, None), s') \<Rightarrow> (Inr (sort_by_date (parse_all mo cfg bodies)), s')))"

definition GetNewEmails :: "'s mail_ops \<Rightarrow> config \<Rightarrow> ('s, email list) io" where
  "GetNewEmails mo cfg =
     session mo cfg
       (\<lambda>s. case moCancelled mo s of
              Some e \<Rightarrow> (Inl e, s)
            | None \<Rightarrow>
                io_bind (io_wrap ''selecting INBOX: '' (moSelect mo (InboxFolder cfg) False)) (\<lambda>_.
                  fetchAndParse mo cfg (new_criteria\<lparr>crWithoutFlags := [seen_flag]\<rparr>)) s)"

text \<open>A search or a store that fails for one Message-Id is logged and the loop goes on.\<close>

definition mark_one :: "'s mail_ops \<Rightarrow> string \<Rightarrow> ('s, unit) io" where
  "mark_one mo msgId =
     io_try (moSearch mo (new_criteria\<lparr>crHeader := [(''Message-Id'', msgId)]\<rparr>))
       (\<lambda>r. case r of
              Inl e \<Rightarrow> io_return ()
            | Inr ids \<Rightarrow>
                if ids = [] then io_return ()
                else io_try (moStoreSeen mo ids) (\<lambda>_. io_return ()))"

definition MarkSeen :: "'s mail_ops \<Rightarrow> config \<Rightarrow> string list \<Rightarrow> ('s, unit) io" where
  "MarkSeen mo cfg ids =
     (if ids = [] then io_return ()
      else session mo cfg
        (io_bind (io_wrap ''selecting INBOX: '' (moSelect mo (InboxFolder cfg) False)) (\<lambda>_.
           io_each (mark_one mo) ids)))"

record mail_search =
  qFrom :: string
  qTo :: string
  qSubject :: string
  qDateFrom :: "gotime option"
  qDateTo :: "gotime option"
  qUnread :: bool
  qStarred :: bool
  qHasAttachments :: bool
  qFolder :: string

definition search_criteria :: "mail_search \<Rightarrow> criteria" where
  "search_criteria q =
     \<lparr>crHeader = (if qFrom q \<noteq> [] then [(''From'', qFrom q)] else []) @
                 (if qTo q \<noteq> [] then [(''To'', qTo q)] else []) @
                 (if qSubject q \<noteq> [] then [(''Subject'', qSubject q)] else []),
      crSince = qDateFrom q, crBefore = qDateTo q,
      crWithFlags = (if qStarred q then [flagged_flag] else []),
      crWithoutFlags = (if qUnread q then [seen_flag] else [])\<rparr>"

definition MailBoxSearch :: "'s mail_ops \<Rightarrow> config \<Rightarrow> mail_search \<Rightarrow> ('s, email list) io" where
  "MailBoxSearch mo cfg q =
     (case resolveMailFolder cfg (qFolder q) of
        Inl e \<Rightarrow> io_fail e
      | Inr folder \<Rightarrow>
          session mo cfg
            (io_bind (io_wrap (''selecting '' @ folder @ '': '') (moSelect mo folder True)) (\<lambda>_.
             io_bind (fetchAndParse mo cfg (search_criteria q)) (\<lambda>results.
             io_return (if qHasAttachments q then filter (\<lambda>e. eAttachments e \<noteq> []) results
                        else results)))))"

section \<open>Fetching by Message-Id\<close>

type_synonym cache = "string \<Rightarrow> email option"

text \<open>
  The live part of \<open>msgCache\<close> is a map from Message-Ids; expiry happens between calls.  Cached
  messages come first in the order asked for, and only a fetch sorts the result.
\<close>

fun search_each :: "'s mail_ops \<Rightarrow> string list \<Rightarrow> 's \<Rightarrow> nat list \<times> 's" where
  "search_each mo [] s = ([], s)"
| "search_each mo (i # is) s =
     (case moSearch mo (new_criteria\<lparr>crHeader := [(''Message-Id'', i)]\<rparr>) s of
        (Inr (n # ns), s') \<Rightarrow> (case search_each mo is s' of (rest, s'') \<Rightarrow> (n # rest, s''))
      | (_, s') \<Rightarrow> search_each mo is s')"

definition cached_emails :: "cache \<Rightarrow> string list \<Rightarrow> email list" where
  "cached_emails c ids = List.map_filter c ids"

definition uncached_ids :: "cache \<Rightarrow> string list \<Rightarrow> string list" where
  "uncached_ids c ids = filter (\<lambda>i. c i = None) ids"

definition cache_all :: "email list \<Rightarrow> cache \<Rightarrow> cache" where
  "cache_all es c = foldl (\<lambda>c e. c(eMessageId e \<mapsto> e)) c es"

definition GetEmails :: "'s mail_ops \<Rightarrow> config \<Rightarrow> string list \<Rightarrow> ('s \<times> cache, email list) io" where
  "GetEmails mo cfg ids = (\<lambda>(s, c).
     let hits = cached_emails c ids; misses = uncached_ids c ids
     in if misses = [] then (Inr hits, s, c)
        else case dialServer mo cfg s of
          (Inl e, s1) \<Rightarrow> (Inl e, s1, c)
        | (Inr _, s1) \<Rightarrow>
            (case io_wrap ''selecting INBOX: '' (moSelect mo (InboxFolder cfg) True) s1 of
               (Inl e, s2) \<Rightarrow> (Inl e, moLogout mo s2, c)
             | (Inr _, s2) \<Rightarrow>
                 (case search_each mo misses s2 of
                    (nums, s3) \<Rightarrow>
                      if nums = [] then (Inr hits, moLogout mo s3, c)
                      else (case moFetch mo False nums s3 of
                        ((bodies, err), s4) \<Rightarrow>
                          let new = parse_all mo cfg bodies; c' = cache_all new c
                          in (case err of
                                Some e \<Rightarrow> (Inl (Wrap ''fetching messages: '' e []), moLogout mo s4, c')
                              | None \<Rightarrow> (Inr (sort_by_date (hits @ new)), moLogout mo s4, c'))))))"

definition GetSentEmail :: "'s mail_ops \<Rightarrow> config \<Rightarrow> string \<Rightarrow> ('s, email option) io" where
  "GetSentEmail mo cfg messageId0 =
     (let messageId = trim_space messageId0
      in if messageId = [] then io_return None
         else session mo cfg
           (io_bind (io_wrap ''selecting Sent folder: '' (moSelect mo (SentFolder cfg) True)) (\<lambda>_.
            io_bind (io_wrap ''searching Sent: ''
                       (moSearch mo (new_criteria\<lparr>crHeader := [(''Message-Id'', messageId)]\<rparr>))) (\<lambda>ids.
              case ids of
                [] \<Rightarrow> io_return None
              | n # ns \<Rightarrow>
                  (\<lambda>s. case moFetch mo False [n] s of
                         ((bodies, Some e), s') \<Rightarrow> (Inl (Wrap ''fetching from Sent: '' e []), s')
                       | ((bodies, None), s') \<Rightarrow>
                           (Inr (case rev (parse_all mo cfg bodies) of [] \<Rightarrow> None | e # es \<Rightarrow> Some e), s'))))))"

text \<open>
  The clients of the fetch take it as an argument, as the code does (\<open>GetEmails\<close> is a package
  variable): \<open>fetch ids\<close> is the result of one call.
\<close>

type_synonym fetch = "string list \<Rightarrow> email list result"

definition first_email :: "fetch \<Rightarrow> string \<Rightarrow> email result" where
  "first_email get messageId =
     (case get [messageId] of
        Inl e \<Rightarrow> Inl (Wrap ''error getting email: '' e [])
      | Inr [] \<Rightarrow> Inl (Err (''no email found with Message-Id: '' @ messageId))
      | Inr (e # es) \<Rightarrow> Inr e)"

definition GetThreadRootId :: "fetch \<Rightarrow> string \<Rightarrow> string result" where
  "GetThreadRootId get messageId = and_then (first_email get messageId) (\<lambda>e. Inr (GetThreadRoot e))"

section \<open>Sending\<close>

text \<open>
  The headers of an outbound message.  The conversation prefix of a Thread-Index is echoed only when
  it decodes to 22 bytes.
\<close>

definition agent_domain :: "config \<Rightarrow> string" where
  "agent_domain cfg =
     (case index_char (CHR ''@'') (AgentEmail cfg) of
        Some i \<Rightarrow> drop (i + 1) (AgentEmail cfg)
      | None \<Rightarrow> AgentEmail cfg)"

definition with_parent :: "email \<Rightarrow> string list" where
  "with_parent msg =
     (if eInReplyTo msg \<noteq> [] \<and> eInReplyTo msg \<notin> set (eReferences msg)
      then eReferences msg @ [eInReplyTo msg] else eReferences msg)"

definition thread_index_header :: "string \<Rightarrow> string option" where
  "thread_index_header conv =
     (if conv = [] then None
      else case hex_decode conv of
             Some raw \<Rightarrow> if length raw = 22 then Some (b64_encode raw) else None
           | None \<Rightarrow> None)"

definition build_mime :: "(string \<Rightarrow> string) \<Rightarrow> string \<Rightarrow> config \<Rightarrow> email \<Rightarrow> mime" where
  "build_mime md uuid cfg msg =
     \<lparr>mmHeaders =
        [(''From'', [if eFrom msg = [] then AgentEmail cfg else eFrom msg]), (''To'', eTo msg)] @
        (if eSenders msg \<noteq> [] then [(''X-Senders'', eSenders msg)] else []) @
        (if eCc msg \<noteq> [] then [(''Cc'', eCc msg)] else []) @
        [(''Subject'', [eSubject msg]), (''Message-ID'', [''<'' @ uuid @ ''@'' @ agent_domain cfg @ ''>''])] @
        (if eInReplyTo msg \<noteq> [] then [(''In-Reply-To'', [eInReplyTo msg])] else []) @
        (if with_parent msg \<noteq> [] then [(''References'', [join '' '' (with_parent msg)])] else []) @
        (if eAutoSubmitted msg \<noteq> [] then [(''Auto-Submitted'', [eAutoSubmitted msg])] else []) @
        (case thread_index_header (eThreadIndexConvID msg) of
           Some h \<Rightarrow> [(''Thread-Index'', [h])] | None \<Rightarrow> []) @
        (if eThreadTopic msg \<noteq> [] then [(''Thread-Topic'', [eThreadTopic msg])] else []),
      mmText = eContent msg,
      mmHtml = md (eContent msg),
      mmAttachments = eAttachments msg\<rparr>"

definition smtp_settings :: "config \<Rightarrow> smtp_dialer" where
  "smtp_settings cfg =
     \<lparr>sdHost = SmtpServer cfg, sdPort = SmtpPort cfg,
      sdUser = (if EmailPassword cfg = [] then [] else AgentEmail cfg),
      sdPassword = EmailPassword cfg, sdHelo = SmtpHelo cfg\<rparr>"

definition appendToSent :: "'s mail_ops \<Rightarrow> config \<Rightarrow> mime \<Rightarrow> ('s, unit) io" where
  "appendToSent mo cfg m =
     io_bind (io_wrap ''connecting to IMAP server: '' (dialServer mo cfg)) (\<lambda>_.
       io_finally (moAppend mo (SentFolder cfg) m) (moLogout mo))"

definition SendEmail :: "'s mail_ops \<Rightarrow> config \<Rightarrow> email \<Rightarrow> ('s, unit) io" where
  "SendEmail mo cfg msg = (\<lambda>s.
     let m = build_mime (moMarkdown mo) (moUuid mo s) cfg msg
     in io_bind (io_wrap ''sending email: '' (moSmtp mo (smtp_settings cfg) m)) (\<lambda>_.
          io_try (appendToSent mo cfg m) (\<lambda>_. io_return ())) s)"

definition bounce_email :: "config \<Rightarrow> gotime \<Rightarrow> email \<Rightarrow> string \<Rightarrow> email" where
  "bounce_email cfg now rcvd msg =
     empty_email\<lparr>eTo := [eFrom rcvd],
       eSubject := (if ReplySubject (eSubject rcvd) = [] then DefaultSubject cfg
                    else ReplySubject (eSubject rcvd)),
       eContent := msg, eInReplyTo := eMessageId rcvd, eReferences := eReferences rcvd,
       eDate := now, eAutoSubmitted := ''auto-replied''\<rparr>"

definition SendBounce :: "'s mail_ops \<Rightarrow> config \<Rightarrow> gotime \<Rightarrow> email \<Rightarrow> string \<Rightarrow> ('s, unit) io" where
  "SendBounce mo cfg now rcvd msg =
     io_bind (SendEmail mo cfg (bounce_email cfg now rcvd msg)) (\<lambda>_.
       if eMessageId rcvd \<noteq> [] then io_try (MarkSeen mo cfg [eMessageId rcvd]) (\<lambda>_. io_return ())
       else io_return ())"

section \<open>The conversation prefix\<close>

lemma decodeThreadIndexConvID_encode:
  assumes "length raw = 22"
  shows "decodeThreadIndexConvID (b64_encode raw) = hex_encode raw"
proof -
  have "trim_space (b64_encode raw) = b64_encode raw"
    by (rule trim_by_none) (use b64_encode_not_space in blast)
  moreover have "b64_encode raw \<noteq> []" using assms by (auto simp: b64_encode_eq_Nil)
  ultimately show ?thesis
    using assms by (simp add: decodeThreadIndexConvID_def b64_decode_encode)
qed

lemma decodeThreadIndexConvID_Some:
  "decodeThreadIndexConvID h \<noteq> [] \<Longrightarrow> \<exists>raw. length raw = 22 \<and> decodeThreadIndexConvID h = hex_encode raw"
  by (auto simp: decodeThreadIndexConvID_def Let_def split: option.splits if_splits
           intro!: exI [where x = "take 22 _"])

lemma thread_index_roundtrip:
  assumes "decodeThreadIndexConvID h \<noteq> []"
  shows "\<exists>h'. thread_index_header (decodeThreadIndexConvID h) = Some h' \<and>
              decodeThreadIndexConvID h' = decodeThreadIndexConvID h"
proof -
  from decodeThreadIndexConvID_Some [OF assms] obtain raw where
    raw: "length raw = 22" "decodeThreadIndexConvID h = hex_encode raw" by blast
  then have "thread_index_header (hex_encode raw) = Some (b64_encode raw)"
    using assms by (simp add: thread_index_header_def hex_decode_encode)
  with raw decodeThreadIndexConvID_encode show ?thesis by metis
qed

end
