(* ===== verification/Acl.thy ===== *)
theory Acl
  imports Mail_Transport
begin

text \<open>
  The access control of inbound mail (\<open>internal/agents/acl.go\<close>).  The whitelist and the blacklist
  are those of the configuration; the thread of the email is fetched only in blacklist mode.
\<close>

section \<open>Definitions\<close>

definition extractDomain :: "string \<Rightarrow> string" where
  "extractDomain addr = (case split_char (CHR ''@'') addr of [a, b] \<Rightarrow> b | _ \<Rightarrow> [])"

definition matches_entry :: "string \<Rightarrow> string \<Rightarrow> bool" where
  "matches_entry sender w \<longleftrightarrow>
     (if CHR ''@'' \<in> set w then equal_fold w sender
      else extractDomain sender \<noteq> [] \<and> equal_fold w (extractDomain sender))"

definition matchesList :: "string \<Rightarrow> string list \<Rightarrow> bool" where
  "matchesList sender ws = list_ex (matches_entry sender) ws"

definition immediate_senders :: "(string \<Rightarrow> string option) \<Rightarrow> email \<Rightarrow> string list" where
  "immediate_senders pa e = AddToSenders pa (eSenders e) (eFrom e)"

text \<open>The Message-Ids of the thread, each once, without the email itself.\<close>

definition thread_ids :: "email \<Rightarrow> string list" where
  "thread_ids e =
     rev (remdups (rev (filter (\<lambda>i. i \<noteq> [] \<and> i \<noteq> eMessageId e) (GetThreadRoot e # eReferences e))))"

definition add_message_senders :: "(string \<Rightarrow> string option) \<Rightarrow> string list \<Rightarrow> email \<Rightarrow> string list" where
  "add_message_senders pa ids m = foldl (AddToSenders pa) (AddToSenders pa ids (eFrom m)) (eSenders m)"

definition collectThreadIdentities :: "(string \<Rightarrow> string option) \<Rightarrow> fetch \<Rightarrow> email \<Rightarrow> string list" where
  "collectThreadIdentities pa get e =
     (let ids = immediate_senders pa e
      in if thread_ids e = [] then ids
         else case get (thread_ids e) of
                Inl x \<Rightarrow> ids
              | Inr msgs \<Rightarrow> foldl (add_message_senders pa) ids msgs)"

definition AccessControl :: "config \<Rightarrow> (string \<Rightarrow> string option) \<Rightarrow> fetch \<Rightarrow> email \<Rightarrow> unit result" where
  "AccessControl cfg pa get e =
     (let immediate = immediate_senders pa e
      in if immediate = [] then Inl (Err ''no sender found'')
         else if Whitelist cfg \<noteq> [] then
           (case find (\<lambda>s. \<not> matchesList s (Whitelist cfg)) immediate of
              Some s \<Rightarrow> Inl (Err (''sender '' @ s @ '' not in whitelist''))
            | None \<Rightarrow> ok)
         else if Blacklist cfg \<noteq> [] then
           (case find (\<lambda>s. matchesList s (Blacklist cfg)) (collectThreadIdentities pa get e) of
              Some s \<Rightarrow> Inl (Err (''sender '' @ s @ '' in blacklist''))
            | None \<Rightarrow> ok)
         else ok)"

section \<open>Lemmas\<close>

lemma find_None_list_all: "find P xs = None \<longleftrightarrow> list_all (\<lambda>x. \<not> P x) xs"
  by (auto simp: find_None_iff list_all_iff)

lemma AddToSenders_sub: "set senders \<subseteq> set (AddToSenders pa senders h)"
  by (auto simp: AddToSenders_def split: option.split)

lemma AddToSenders_has:
  "pa h = Some a \<Longrightarrow> \<exists>s\<in>set (AddToSenders pa senders h). equal_fold s a"
  by (auto simp: AddToSenders_def list_ex_iff)

lemma foldl_AddToSenders_sub: "set ids \<subseteq> set (foldl (AddToSenders pa) ids hs)"
  by (induction hs arbitrary: ids) (use AddToSenders_sub in fastforce)+

lemma add_message_senders_sub: "set ids \<subseteq> set (add_message_senders pa ids m)"
  using AddToSenders_sub foldl_AddToSenders_sub unfolding add_message_senders_def by fastforce

lemma foldl_messages_sub: "set ids \<subseteq> set (foldl (add_message_senders pa) ids msgs)"
  by (induction msgs arbitrary: ids) (use add_message_senders_sub in fastforce)+

lemma foldl_AddToSenders_has:
  "h \<in> set hs \<Longrightarrow> pa h = Some a \<Longrightarrow> \<exists>s\<in>set (foldl (AddToSenders pa) ids hs). equal_fold s a"
proof (induction hs arbitrary: ids)
  case (Cons x hs)
  show ?case
  proof (cases "h = x")
    case True
    with AddToSenders_has [of pa x a ids] Cons.prems(2) foldl_AddToSenders_sub [of "AddToSenders pa ids x" pa hs]
    show ?thesis by auto
  next
    case False
    with Cons show ?thesis by auto
  qed
qed simp

text \<open>Every sender seen in a message of the thread is collected, up to case.\<close>

lemma add_message_senders_has:
  assumes "h = eFrom m \<or> h \<in> set (eSenders m)" "pa h = Some a"
  shows "\<exists>s\<in>set (add_message_senders pa ids m). equal_fold s a"
  unfolding add_message_senders_def
proof (cases "h = eFrom m")
  case True
  have "\<exists>s\<in>set (AddToSenders pa ids (eFrom m)). equal_fold s a"
    using assms(2) unfolding True by (rule AddToSenders_has)
  then show "\<exists>s\<in>set (foldl (AddToSenders pa) (AddToSenders pa ids (eFrom m)) (eSenders m)). equal_fold s a"
    using foldl_AddToSenders_sub by blast
next
  case False
  with assms(1) have "h \<in> set (eSenders m)" by simp
  then show "\<exists>s\<in>set (foldl (AddToSenders pa) (AddToSenders pa ids (eFrom m)) (eSenders m)). equal_fold s a"
    using assms(2) by (rule foldl_AddToSenders_has)
qed

lemma foldl_messages_has:
  assumes "m \<in> set msgs" "h = eFrom m \<or> h \<in> set (eSenders m)" "pa h = Some a"
  shows "\<exists>s\<in>set (foldl (add_message_senders pa) ids msgs). equal_fold s a"
  using assms(1)
proof (induction msgs arbitrary: ids)
  case (Cons x msgs)
  show ?case
  proof (cases "m = x")
    case True
    have "\<exists>s\<in>set (add_message_senders pa ids m). equal_fold s a"
      using assms(2,3) by (rule add_message_senders_has)
    with True foldl_messages_sub [of "add_message_senders pa ids x" pa msgs]
    show ?thesis by auto
  next
    case False
    with Cons show ?thesis by auto
  qed
qed simp

text \<open>Matching does not depend on the case of the sender.\<close>

lemma split_char_lower:
  assumes "\<And>c. lower_char c = d \<longleftrightarrow> c = d"
  shows "split_char d (to_lower s) = map to_lower (split_char d s)"
proof (induction s)
  case Nil
  then show ?case by (simp add: split_char_def)
next
  case (Cons c s)
  then show ?case
    using assms [of c] by (cases "split_char d s") (auto simp: split_char_def)
qed

lemma lower_char_at: "lower_char c = CHR ''@'' \<longleftrightarrow> c = CHR ''@''"
proof
  assume l: "lower_char c = CHR ''@''"
  then have "(of_char (lower_char c) :: nat) = 64" by simp
  then have "\<not> is_upper c" by (auto simp: of_char_lower_char is_upper_def split: if_splits)
  with l show "c = CHR ''@''" by simp
qed simp

lemma extractDomain_lower: "extractDomain (to_lower s) = to_lower (extractDomain s)"
  by (simp add: extractDomain_def split_char_lower [OF lower_char_at] split: list.split)

lemma equal_fold_domain: "equal_fold s a \<Longrightarrow> equal_fold (extractDomain s) (extractDomain a)"
  by (metis equal_fold_def extractDomain_lower)

lemma equal_fold_matches:
  assumes "equal_fold s a"
  shows "matchesList s ws \<longleftrightarrow> matchesList a ws"
proof -
  have d: "to_lower (extractDomain s) = to_lower (extractDomain a)"
    using equal_fold_domain [OF assms] by (simp add: equal_fold_def)
  then have "extractDomain s = [] \<longleftrightarrow> extractDomain a = []"
    by (metis length_0_conv length_to_lower)
  then show ?thesis
    using assms d unfolding matchesList_def matches_entry_def equal_fold_def by simp
qed

section \<open>Properties\<close>

text \<open>The identities a message carries: its \<open>X-Senders\<close> and the address of its \<open>From\<close> header.\<close>

definition identities :: "(string \<Rightarrow> string option) \<Rightarrow> email \<Rightarrow> string set" where
  "identities pa e = set (eSenders e) \<union> set_option (pa (eFrom e))"

lemma immediate_senders_cases:
  "set (immediate_senders pa e) \<subseteq> identities pa e"
  "i \<in> identities pa e \<Longrightarrow> \<exists>s\<in>set (immediate_senders pa e). equal_fold s i"
  unfolding immediate_senders_def identities_def AddToSenders_def
  by (auto split: option.splits simp: list_ex_iff intro: equal_fold_refl)

lemma immediate_senders_Nil: "immediate_senders pa e = [] \<longleftrightarrow> identities pa e = {}"
  using immediate_senders_cases [where pa = pa and e = e] by fastforce

lemma immediate_senders_all:
  "(\<forall>s\<in>set (immediate_senders pa e). matchesList s ws) \<longleftrightarrow> (\<forall>s\<in>identities pa e. matchesList s ws)"
  using immediate_senders_cases [where pa = pa and e = e] equal_fold_matches by blast

lemma find_case_ok: "is_ok (case find P xs of Some s \<Rightarrow> Inl (f s) | None \<Rightarrow> ok) \<longleftrightarrow> (\<forall>x\<in>set xs. \<not> P x)"
  by (auto simp: find_None_iff split: option.split) (metis find_None_iff option.distinct(1))

lemma collect_sub: "set (immediate_senders pa e) \<subseteq> set (collectThreadIdentities pa get e)"
  using foldl_messages_sub
  by (fastforce simp: collectThreadIdentities_def Let_def split: sum.split)

lemma foldl_AddToSenders_from:
  "s \<in> set (foldl (AddToSenders pa) ids hs) \<Longrightarrow> s \<in> set ids \<or> (\<exists>h\<in>set hs. pa h = Some s)"
proof (induction hs arbitrary: ids)
  case (Cons h hs)
  then have "s \<in> set (AddToSenders pa ids h) \<or> (\<exists>h\<in>set hs. pa h = Some s)" by simp
  then show ?case by (auto simp: AddToSenders_def split: option.splits if_splits)
qed simp

lemma thread_ids_set:
  "set (thread_ids e) = {i. i \<noteq> [] \<and> i \<noteq> eMessageId e \<and> (i = GetThreadRoot e \<or> i \<in> set (eReferences e))}"
  by (auto simp: thread_ids_def)

text \<open>C15. A whitelist is strict: an email is accepted exactly when it has a sender and its \<open>From\<close> address and
  every \<open>X-Senders\<close> entry match the list, in any letter case; neither the blacklist nor the messages of the
  thread play a part.\<close>

theorem whitelist_accepts_exactly_listed:
  assumes "Whitelist cfg \<noteq> []"
  shows "is_ok (AccessControl cfg pa get e) \<longleftrightarrow>
           identities pa e \<noteq> {} \<and> (\<forall>s\<in>identities pa e. matchesList s (Whitelist cfg))"
proof (cases "immediate_senders pa e = []")
  case True
  then show ?thesis by (simp add: AccessControl_def immediate_senders_Nil)
next
  case False
  with assms have "is_ok (AccessControl cfg pa get e) \<longleftrightarrow>
      (\<forall>s\<in>set (immediate_senders pa e). matchesList s (Whitelist cfg))"
    by (simp add: AccessControl_def find_case_ok)
  with False show ?thesis by (simp add: immediate_senders_all immediate_senders_Nil)
qed

text \<open>C16. In blacklist mode an accepted email has no blacklisted identity in its own headers, and none in the
  \<open>From\<close> or \<open>X-Senders\<close> headers of any message of its thread that the mail server returns.\<close>

theorem blacklist_catches_thread_identities:
  assumes "Whitelist cfg = []" "Blacklist cfg \<noteq> []" "is_ok (AccessControl cfg pa get e)"
  shows "(\<forall>s\<in>identities pa e. \<not> matchesList s (Blacklist cfg)) \<and>
         (\<forall>msgs m h a. thread_ids e \<noteq> [] \<longrightarrow> get (thread_ids e) = Inr msgs \<longrightarrow> m \<in> set msgs \<longrightarrow>
            h = eFrom m \<or> h \<in> set (eSenders m) \<longrightarrow> pa h = Some a \<longrightarrow> \<not> matchesList a (Blacklist cfg))"
proof -
  from assms have clean: "\<forall>s\<in>set (collectThreadIdentities pa get e). \<not> matchesList s (Blacklist cfg)"
    by (auto simp: AccessControl_def Let_def find_case_ok split: if_splits)
  have own: "\<not> matchesList s (Blacklist cfg)" if "s \<in> identities pa e" for s
    using immediate_senders_cases(2) [OF that] clean collect_sub equal_fold_matches by blast
  have "\<not> matchesList a (Blacklist cfg)"
    if t: "thread_ids e \<noteq> []" "get (thread_ids e) = Inr msgs" and m: "m \<in> set msgs"
      and h: "h = eFrom m \<or> h \<in> set (eSenders m)" and a: "pa h = Some a" for msgs m h a
  proof -
    have "\<exists>s\<in>set (foldl (add_message_senders pa) (immediate_senders pa e) msgs). equal_fold s a"
      using m h a by (rule foldl_messages_has)
    with t have "\<exists>s\<in>set (collectThreadIdentities pa get e). equal_fold s a"
      by (simp add: collectThreadIdentities_def)
    with clean equal_fold_matches show ?thesis by blast
  qed
  with own show ?thesis by blast
qed

text \<open>The thread walk is lenient and adds no identity of its own: when the fetch fails, the verdict is the
  one on the email's own senders; and a refused email is refused for an identity that some header carries.\<close>

theorem blacklist_lookup_failure_is_lenient:
  assumes "Whitelist cfg = []" "get (thread_ids e) = Inl x"
  shows "is_ok (AccessControl cfg pa get e) \<longleftrightarrow>
           identities pa e \<noteq> {} \<and> (\<forall>s\<in>identities pa e. \<not> matchesList s (Blacklist cfg))"
proof (cases "immediate_senders pa e = [] \<or> Blacklist cfg = []")
  case True
  with assms show ?thesis
    by (auto simp: AccessControl_def immediate_senders_Nil matchesList_def)
next
  case False
  with assms have "is_ok (AccessControl cfg pa get e) \<longleftrightarrow>
      (\<forall>s\<in>set (immediate_senders pa e). \<not> matchesList s (Blacklist cfg))"
    by (simp add: AccessControl_def collectThreadIdentities_def Let_def find_case_ok)
  moreover have "(\<forall>s\<in>set (immediate_senders pa e). \<not> matchesList s (Blacklist cfg)) \<longleftrightarrow>
      (\<forall>s\<in>identities pa e. \<not> matchesList s (Blacklist cfg))"
    using immediate_senders_cases [where pa = pa and e = e] equal_fold_matches by blast
  ultimately show ?thesis using False by (simp add: immediate_senders_Nil)
qed

text \<open>A parser of header addresses for the instances below: a plain address is its own mailbox.\<close>

definition plain_address :: "string \<Rightarrow> string option" where
  "plain_address h = (if CHR ''@'' \<in> set h \<and> CHR ''<'' \<notin> set h then Some h else None)"

lemma whitelist_accepts_exactly_listed_witness:
  "is_ok (AccessControl (startup_config\<lparr>Whitelist := [''Acme.com'']\<rparr>) plain_address (\<lambda>ids. Inr [])
     (empty_email\<lparr>eFrom := ''bob@acme.COM'', eSenders := [''amy@acme.com'']\<rparr>))"
proof -
  let ?cfg = "startup_config\<lparr>Whitelist := [''Acme.com'']\<rparr>"
  let ?e = "empty_email\<lparr>eFrom := ''bob@acme.COM'', eSenders := [''amy@acme.com'']\<rparr>"
  have w: "Whitelist ?cfg \<noteq> []" by simp
  have "identities plain_address ?e = {''bob@acme.COM'', ''amy@acme.com''}"
    by (simp add: identities_def plain_address_def empty_email_def)
  moreover have "matchesList ''amy@acme.com'' [''Acme.com'']" "matchesList ''bob@acme.COM'' [''Acme.com'']"
    by code_simp+
  ultimately show ?thesis
    using whitelist_accepts_exactly_listed [OF w, where pa = plain_address and get = "\<lambda>ids. Inr []" and e = ?e]
    by simp
qed

lemma blacklist_catches_thread_identities_witness:
  "is_ok (AccessControl (startup_config\<lparr>Blacklist := [''evil.org'']\<rparr>) plain_address
      (\<lambda>ids. Inr [empty_email\<lparr>eFrom := ''amy@acme.com''\<rparr>])
      (empty_email\<lparr>eFrom := ''bob@acme.com'', eReferences := [''<r@x>'']\<rparr>)) \<and>
   \<not> matchesList ''amy@acme.com'' [''evil.org''] \<and>
   \<not> is_ok (AccessControl (startup_config\<lparr>Blacklist := [''evil.org'']\<rparr>) plain_address
      (\<lambda>ids. Inr [empty_email\<lparr>eFrom := ''eve@Evil.org''\<rparr>])
      (empty_email\<lparr>eFrom := ''bob@acme.com'', eReferences := [''<r@x>'']\<rparr>))"
proof -
  let ?cfg = "startup_config\<lparr>Blacklist := [''evil.org'']\<rparr>"
  let ?e = "empty_email\<lparr>eFrom := ''bob@acme.com'', eReferences := [''<r@x>'']\<rparr>"
  have l: "Whitelist ?cfg = []" "Blacklist ?cfg \<noteq> []" by (simp_all add: startup_config_def)
  have good: "is_ok (AccessControl ?cfg plain_address (\<lambda>ids. Inr [empty_email\<lparr>eFrom := ''amy@acme.com''\<rparr>]) ?e)"
    by code_simp
  have bad: "\<not> is_ok (AccessControl ?cfg plain_address (\<lambda>ids. Inr [empty_email\<lparr>eFrom := ''eve@Evil.org''\<rparr>]) ?e)"
    by code_simp
  have "thread_ids ?e \<noteq> []" by code_simp
  moreover have "plain_address ''amy@acme.com'' = Some ''amy@acme.com''" by code_simp
  ultimately have "\<not> matchesList ''amy@acme.com'' (Blacklist ?cfg)"
    using blacklist_catches_thread_identities [OF l good] by simp
  with good bad show ?thesis by simp
qed

lemma blacklist_lookup_failure_is_lenient_witness:
  "is_ok (AccessControl (startup_config\<lparr>Blacklist := [''evil.org'']\<rparr>) plain_address (\<lambda>ids. Inl (Err ''down''))
      (empty_email\<lparr>eFrom := ''bob@acme.com'', eReferences := [''<r@x>'']\<rparr>))"
proof -
  let ?cfg = "startup_config\<lparr>Blacklist := [''evil.org'']\<rparr>"
  let ?e = "empty_email\<lparr>eFrom := ''bob@acme.com'', eReferences := [''<r@x>'']\<rparr>"
  let ?get = "\<lambda>ids :: string list. (Inl (Err ''down'') :: email list result)"
  have l: "Whitelist ?cfg = []" "?get (thread_ids ?e) = Inl (Err ''down'')" by (simp_all add: startup_config_def)
  have "identities plain_address ?e = {''bob@acme.com''}"
    by (simp add: identities_def plain_address_def empty_email_def)
  moreover have "\<not> matchesList ''bob@acme.com'' [''evil.org'']" by code_simp
  ultimately show ?thesis
    using blacklist_lookup_failure_is_lenient [OF l, where pa = plain_address] by simp
qed

end
