(* ===== verification/Sending.thy ===== *)
theory Sending
  imports Mail_Transport Acl
begin

text \<open>
  The tools that send mail (\<open>internal/tools/send_helper.go\<close>, \<open>report_strict.go\<close>, \<open>hooks.go\<close> and
  \<open>internal/services/send_tracker.go\<close>): composing a message from the model's parameters and the
  trusted inbound email, the recipient gate of coworker messages, the repair of a report's recipient and
  the locked recipient of strict reports.

  The input of a tool is its decoded parameters, or the decoding error; re-encoding the parameters and
  decoding them again is the identity; the
  position that a base64 error names is left out.  Everything the code reads from its context is in \<open>send_env\<close>: the
  configuration, the inbound email of the turn, the message fetch, the two address parsers (\<open>net/mail\<close>
  and go-message), the file system and the clock.  Delivery is \<open>deliver\<close> over a world \<open>'s\<close>; next to it
  stands the delivery counter of the turn, absent outside a turn.
\<close>

section \<open>Data\<close>

record attachment_param =
  apName :: string
  apPath :: string
  apContent :: string
  apEncoding :: string

record send_mail_msg =
  smTo :: string
  smCc :: string
  smInReplyTo :: string
  smForward :: string
  smSubject :: string
  smMessage :: string
  smAttachments :: "attachment_param list"

record send_env =
  seCfg :: config
  seSource :: "email option"
  seGet :: fetch
  seNetMail :: "string \<Rightarrow> string option"
  seHeader :: "string \<Rightarrow> string option"
  seReadFile :: "string \<Rightarrow> string result"
  seNow :: gotime

type_synonym tracker = "nat option"
type_synonym ('s, 'a) sending = "('s \<times> tracker, 'a) io"

definition WithSendTracker :: "tracker \<Rightarrow> tracker" where
  "WithSendTracker t = Some 0"

definition MarkDelivered :: "tracker \<Rightarrow> tracker" where
  "MarkDelivered t = map_option Suc t"

definition DeliveryCount :: "tracker \<Rightarrow> nat" where
  "DeliveryCount t = (case t of Some n \<Rightarrow> n | None \<Rightarrow> 0)"

definition HasSendTracker :: "tracker \<Rightarrow> bool" where
  "HasSendTracker t \<longleftrightarrow> t \<noteq> None"

section \<open>Addresses\<close>

text \<open>
  \<open>Split\<close> with the expression \<open>\s*,\s*\<close>: the blanks around a comma go with it, those at the two ends of
  the text stay.
\<close>

definition comma_split :: "string \<Rightarrow> string list" where
  "comma_split s =
     (case split_char (CHR '','') s of
        [] \<Rightarrow> []
      | [w] \<Rightarrow> [w]
      | w # v # ws \<Rightarrow>
          trim_right re_space w #
          (map (trim_by re_space) (butlast (v # ws)) @ [trim_left re_space (last (v # ws))]))"

definition bareAddressFromEmail :: "(string \<Rightarrow> string option) \<Rightarrow> string \<Rightarrow> string" where
  "bareAddressFromEmail netmail s0 =
     (let s = trim_space s0
      in if s = [] then []
         else case netmail s of Some addr \<Rightarrow> to_lower addr | None \<Rightarrow> [])"

definition sameThread :: "email \<Rightarrow> email \<Rightarrow> bool" where
  "sameThread a b =
     (let rootA = EnsureAngleBrackets (GetThreadRoot a); rootB = EnsureAngleBrackets (GetThreadRoot b)
      in if rootA = [] \<or> rootB = [] then False else equal_fold rootA rootB)"

definition human_addr :: "send_env \<Rightarrow> string \<Rightarrow> string option" where
  "human_addr env from_hdr =
     (let addr = bareAddressFromEmail (seNetMail env) from_hdr
      in if addr \<noteq> [] \<and> addr \<notin> set (AgentEmails (seCfg env)) then Some addr else None)"

definition collectHumansInThread :: "send_env \<Rightarrow> email \<Rightarrow> string list" where
  "collectHumansInThread env seed =
     (if AgentEmails (seCfg env) = [] then []
      else let own = (case human_addr env (eFrom seed) of Some a \<Rightarrow> [a] | None \<Rightarrow> []);
               ids = filter (\<lambda>i. i \<noteq> []) (map EnsureAngleBrackets (eReferences seed))
           in if ids = [] then own
              else case seGet env ids of
                     Inl e \<Rightarrow> own
                   | Inr emails \<Rightarrow> own @ List.map_filter (\<lambda>m. human_addr env (eFrom m)) emails)"

definition whitelistedAddress :: "config \<Rightarrow> string \<Rightarrow> bool" where
  "whitelistedAddress cfg addr \<longleftrightarrow>
     addr \<noteq> [] \<and>
     list_ex (\<lambda>w. CHR ''@'' \<in> set (trim_space w) \<and> equal_fold (trim_space w) addr) (Whitelist cfg)"

text \<open>The address a recipient stands for: its mailbox, or the text itself when it does not parse.\<close>

definition recipient_addr :: "(string \<Rightarrow> string option) \<Rightarrow> string \<Rightarrow> string" where
  "recipient_addr netmail r =
     (let addr = bareAddressFromEmail netmail r in if addr = [] then to_lower (trim_space r) else addr)"

definition allRecipientsAllowed :: "send_env \<Rightarrow> string list \<Rightarrow> string list \<Rightarrow> bool" where
  "allRecipientsAllowed env rcpts humans \<longleftrightarrow>
     rcpts \<noteq> [] \<and>
     list_all (\<lambda>r. let addr = recipient_addr (seNetMail env) r
                   in addr \<noteq> [] \<and> (addr \<in> set humans \<or> whitelistedAddress (seCfg env) addr)) rcpts"

definition knownPeerEmails :: "config \<Rightarrow> string list" where
  "knownPeerEmails cfg =
     sort (filter (\<lambda>e. e \<noteq> to_lower (trim_space (AgentEmail cfg))) (AgentEmails cfg))"

definition norm_id :: "string \<Rightarrow> string" where
  "norm_id s = trim_suffix ''>'' (trim_prefix ''<'' (trim_space (to_lower s)))"

definition toMatchesMessageIds :: "string list \<Rightarrow> string list \<Rightarrow> bool" where
  "toMatchesMessageIds rcpts ids \<longleftrightarrow>
     rcpts \<noteq> [] \<and> ids \<noteq> [] \<and>
     list_all (\<lambda>r. norm_id r \<in> set (filter (\<lambda>n. n \<noteq> []) (map norm_id ids))) rcpts"

text \<open>The walk over the references, newest first.\<close>

fun human_in_refs :: "send_env \<Rightarrow> string list \<Rightarrow> string option" where
  "human_in_refs env [] = None"
| "human_in_refs env (ref # refs) =
     (let i = EnsureAngleBrackets ref
      in if i = [] then human_in_refs env refs
         else case seGet env [i] of
                Inr (m # ms) \<Rightarrow>
                  (case human_addr env (eFrom m) of
                     Some a \<Rightarrow> Some a
                   | None \<Rightarrow> human_in_refs env refs)
              | _ \<Rightarrow> human_in_refs env refs)"

definition findHumanInThread :: "send_env \<Rightarrow> email \<Rightarrow> string option" where
  "findHumanInThread env e =
     (if AgentEmails (seCfg env) = [] then None
      else case human_addr env (eFrom e) of
             Some a \<Rightarrow> Some a
           | None \<Rightarrow> human_in_refs env (rev (eReferences e)))"

section \<open>Attachments\<close>

text \<open>\<open>filepath.Base\<close> of a path that is not empty.\<close>

definition path_base :: "string \<Rightarrow> string" where
  "path_base p =
     (let q = trim_right (\<lambda>c. c = CHR ''/'') p
      in if q = [] then ''/'' else rev (takeWhile (\<lambda>c. c \<noteq> CHR ''/'') (rev q)))"

definition toAttachment :: "(string \<Rightarrow> string result) \<Rightarrow> attachment_param \<Rightarrow> attachment result" where
  "toAttachment readFile ap =
     (let p = trim_space (apPath ap)
      in if p \<noteq> [] then
           (case readFile p of
              Inl e \<Rightarrow> Inl (Wrap (''read attachment from path '' @ go_quote p @ '': '') e
                ('' (the file must already exist on disk '' @ em_dash @ '' download it with download_file or '' @
                 ''materialise an inbound attachment with save_attachment first)''))
            | Inr data \<Rightarrow>
                if data = [] then Inl (Err (''attachment file '' @ go_quote p @ '' is empty (0 bytes)''))
                else Inr \<lparr>attName = (if trim_space (apName ap) = [] then path_base p else trim_space (apName ap)),
                          attData = data\<rparr>)
         else if trim_space (apContent ap) = [] then
           Inl (Err (''attachment '' @ go_quote (apName ap) @ '' has neither `path` nor `content` '' @ em_dash @
             '' for a file you downloaded or saved to disk, pass its local `path`. To include a file from an '' @
             ''inbound email, use `X-Forwarded` with that email's Message-Id; the system will re-fetch and '' @
             ''re-attach the original bytes. The `content` field is only for small files you authored inline '' @
             ''in this turn (short reports, exports, text)''))
         else and_then
           (if apEncoding ap = ''base64'' then
              (case b64_decode (apContent ap) of
                 Some d \<Rightarrow> Inr d
               | None \<Rightarrow> Inl (Wrap ''base64 decode: '' (Err ''illegal base64 data'') []))
            else if apEncoding ap = ''text'' \<or> apEncoding ap = [] then Inr (apContent ap)
            else Inl (Err (''unsupported encoding: '' @ apEncoding ap)))
           (\<lambda>data. if data = [] then
                      Inl (Err (''attachment '' @ go_quote (apName ap) @ '' decoded to 0 bytes '' @ em_dash @
                                '' see `X-Forwarded` for forwarding inbound files''))
                    else Inr \<lparr>attName = apName ap, attData = data\<rparr>))"

fun toAttachments :: "(string \<Rightarrow> string result) \<Rightarrow> attachment_param list \<Rightarrow> attachment list result" where
  "toAttachments readFile [] = Inr []"
| "toAttachments readFile (ap # aps) =
     and_then (toAttachment readFile ap) (\<lambda>a. and_then (toAttachments readFile aps) (\<lambda>as. Inr (a # as)))"

section \<open>Composing a message\<close>

record draft =
  drSubject :: string
  drContent :: string
  drReferences :: "string list"
  drInReplyTo :: string
  drAttachments :: "attachment list"

definition empty_draft :: "string \<Rightarrow> draft" where
  "empty_draft inReplyTo =
     \<lparr>drSubject = [], drContent = [], drReferences = [], drInReplyTo = inReplyTo, drAttachments = []\<rparr>"

definition has_source_id :: "send_env \<Rightarrow> bool" where
  "has_source_id env = (case seSource env of Some e \<Rightarrow> eMessageId e \<noteq> [] | None \<Rightarrow> False)"

definition source_thread :: "send_env \<Rightarrow> email \<Rightarrow> bool" where
  "source_thread env reply = (case seSource env of Some e \<Rightarrow> sameThread e reply | None \<Rightarrow> False)"

text \<open>A reply is threaded off the inbound email when the two share a thread, whatever the model chose.\<close>

definition reply_draft :: "send_env \<Rightarrow> string \<Rightarrow> string \<Rightarrow> email \<Rightarrow> draft" where
  "reply_draft env inReplyTo message reply =
     (empty_draft inReplyTo)
       \<lparr>drSubject := ReplySubject (eSubject reply),
        drContent := ReplyBody reply message,
        drInReplyTo :=
          (if has_source_id env \<and> source_thread env reply
           then EnsureAngleBrackets (eMessageId (the (seSource env))) else inReplyTo),
        drReferences :=
          (if has_source_id env \<and> source_thread env reply
           then eReferences (the (seSource env)) @ [EnsureAngleBrackets (eMessageId (the (seSource env)))]
           else eReferences reply @ [eMessageId reply])\<rparr>"

definition forward_subject :: "string \<Rightarrow> string" where
  "forward_subject subj =
     (if \<not> HasSubject subj then []
      else if has_prefix ''fwd:'' (to_lower subj) then trim_space subj
      else ''Fwd: '' @ trim_space subj)"

definition forward_draft :: "string \<Rightarrow> email \<Rightarrow> draft" where
  "forward_draft message fwd =
     (empty_draft [])
       \<lparr>drSubject := forward_subject (eSubject fwd),
        drContent := ForwardBody fwd message,
        drReferences := eReferences fwd @ [eMessageId fwd],
        drAttachments := eAttachments fwd\<rparr>"

definition forwarded_email :: "send_env \<Rightarrow> string \<Rightarrow> email result" where
  "forwarded_email env fwd =
     (case seGet env [fwd] of
        Inl e \<Rightarrow> Inl (Wrap ''error getting forward email: '' e [])
      | Inr [] \<Rightarrow> Inl (Err ''no forward email found'')
      | Inr (m # ms) \<Rightarrow> Inr m)"

definition replied_email :: "send_env \<Rightarrow> string \<Rightarrow> email result" where
  "replied_email env inReplyTo =
     (case seGet env [inReplyTo] of
        Inl e \<Rightarrow> Inl (Wrap ''error getting reply email: '' e [])
      | Inr [] \<Rightarrow> Inl (Err ''no reply email found'')
      | Inr (m # ms) \<Rightarrow> Inr m)"

definition make_draft :: "send_env \<Rightarrow> send_mail_msg \<Rightarrow> draft result" where
  "make_draft env p =
     (let inReplyTo = EnsureAngleBrackets (smInReplyTo p); fwd = EnsureAngleBrackets (smForward p)
      in if inReplyTo \<noteq> [] then
           and_then (replied_email env inReplyTo) (\<lambda>reply.
             let d = reply_draft env inReplyTo (smMessage p) reply
             in if drInReplyTo d \<noteq> [] \<and> fwd \<noteq> [] then
                  and_then (forwarded_email env fwd) (\<lambda>m. Inr (d\<lparr>drAttachments := eAttachments m\<rparr>))
                else Inr d)
         else if fwd \<noteq> [] then
           and_then (forwarded_email env fwd) (\<lambda>m. Inr (forward_draft (smMessage p) m))
         else if has_source_id env then
           Inr ((empty_draft [])\<lparr>drReferences := eReferences (the (seSource env)) @ [eMessageId (the (seSource env))],
                                 drContent := smMessage p\<rparr>)
         else Inr (empty_draft []))"

definition recovered_subject :: "send_env \<Rightarrow> string" where
  "recovered_subject env =
     (let s = (case seSource env of
                 None \<Rightarrow> []
               | Some src \<Rightarrow>
                   if ReplySubject (eSubject src) \<noteq> [] then ReplySubject (eSubject src)
                   else ReplySubject (eThreadTopic src))
      in if s = [] then DefaultSubject (seCfg env) else s)"

definition outbound_subject :: "send_env \<Rightarrow> string \<Rightarrow> string \<Rightarrow> string" where
  "outbound_subject env drafted given =
     (let s = (if drafted = [] then given else drafted)
      in if HasSubject s then s else recovered_subject env)"

definition self_addr :: "config \<Rightarrow> string" where
  "self_addr cfg = trim_space (to_lower (AgentEmail cfg))"

text \<open>The recipients of a header, without blank entries and without the agent itself.\<close>

definition recipients :: "config \<Rightarrow> string \<Rightarrow> string list" where
  "recipients cfg header =
     (if header = [] then []
      else filter (\<lambda>s. trim_space (to_lower s) \<noteq> [] \<and> trim_space (to_lower s) \<noteq> self_addr cfg)
             (comma_split header))"

definition outbound_senders :: "send_env \<Rightarrow> string list" where
  "outbound_senders env =
     (case seSource env of
        None \<Rightarrow> []
      | Some e \<Rightarrow> AddToSenders (seHeader env) (eSenders e) (to_lower (eFrom e)))"

definition from_header :: "config \<Rightarrow> string" where
  "from_header cfg =
     (if AgentName cfg \<noteq> []
      then [dquote] @ AgentName cfg @ [dquote] @ '' <'' @ AgentEmail cfg @ ''>'' else AgentEmail cfg)"

definition empty_body :: goerror where
  "empty_body = Err (''message body is empty '' @ em_dash @ '' cannot send an email without content'')"

definition oversized_body :: "nat \<Rightarrow> int \<Rightarrow> goerror" where
  "oversized_body n cap =
     Err (''message body is '' @ show_nat n @ '' chars, exceeds the inline cap of '' @ show_int cap @
          ''. Move the bulk of this content into an attachment (use the `attachments` field with a '' @
          ''descriptive filename) and keep the `message` body to a short summary or cover note'')"

definition outbound_email :: "send_env \<Rightarrow> send_mail_msg \<Rightarrow> email result" where
  "outbound_email env p =
     (let cfg = seCfg env
      in if trim_space (smMessage p) = [] then Inl empty_body
         else if MaxMessageBodyChars cfg > 0 \<and> int (length (smMessage p)) > MaxMessageBodyChars cfg then
           Inl (oversized_body (length (smMessage p)) (MaxMessageBodyChars cfg))
         else if smTo p = [] then Inl (Err ''no To address specified'')
         else if recipients cfg (smTo p) = [] then Inl (Err ''no valid recipients specified'')
         else and_then (make_draft env p) (\<lambda>d.
              and_then (toAttachments (seReadFile env) (smAttachments p)) (\<lambda>atts.
                Inr (empty_email
                  \<lparr>eTo := recipients cfg (smTo p), eFrom := from_header cfg, eCc := recipients cfg (smCc p),
                   eDate := seNow env, eReferences := drReferences d, eInReplyTo := drInReplyTo d,
                   eSenders := outbound_senders env,
                   eSubject := outbound_subject env (drSubject d) (smSubject p),
                   eContent := (if drContent d = [] then smMessage p else drContent d),
                   eAttachments := drAttachments d @ atts,
                   eThreadIndexConvID := (case seSource env of Some e \<Rightarrow> eThreadIndexConvID e | None \<Rightarrow> []),
                   eThreadTopic := (case seSource env of Some e \<Rightarrow> eThreadTopic e | None \<Rightarrow> [])\<rparr>))))"

definition sendEmail ::
  "send_env \<Rightarrow> (email \<Rightarrow> ('s, unit) io) \<Rightarrow> send_mail_msg result \<Rightarrow> ('s, string) sending" where
  "sendEmail env deliver input = (\<lambda>(s, t).
     case and_then (wrap_err ''invalid input: '' input) (outbound_email env) of
       Inl e \<Rightarrow> (Inl e, (s, t))
     | Inr msg \<Rightarrow>
         (case deliver msg s of
            (Inl e, s') \<Rightarrow> (Inl e, (s', t))
          | (Inr _, s') \<Rightarrow> (Inr ''Success'', (s', MarkDelivered t))))"

section \<open>Messages to coworkers\<close>

definition unknown_coworker :: "config \<Rightarrow> string \<Rightarrow> goerror" where
  "unknown_coworker cfg rcpt =
     Err (''unknown coworker '' @ go_quote rcpt @ '' '' @ em_dash @ '' known coworkers: '' @
          join '', '' (knownPeerEmails cfg) @
          ''. To reach a peer on another domain, add it under `external:` in agents.yaml. '' @
          ''Otherwise check spelling (local part) and retry'')"

definition cc_allowed :: "send_env \<Rightarrow> string \<Rightarrow> string \<Rightarrow> bool" where
  "cc_allowed env agentDomain cc \<longleftrightarrow>
     (case split_char (CHR ''@'') cc of
        [a, ccDom] \<Rightarrow>
          to_lower ccDom = agentDomain \<or>
          (let addr = bareAddressFromEmail (seNetMail env) cc
           in (if addr = [] then to_lower cc else addr) \<in> set (AgentEmails (seCfg env)))
      | _ \<Rightarrow> False)"

definition filter_cc :: "send_env \<Rightarrow> string \<Rightarrow> string \<Rightarrow> string" where
  "filter_cc env agentDomain cc =
     (if cc = [] then []
      else join '', '' (filter (\<lambda>c. c \<noteq> [] \<and> cc_allowed env agentDomain c) (map trim_space (comma_split cc))))"

definition internal_params :: "send_env \<Rightarrow> send_mail_msg \<Rightarrow> send_mail_msg result" where
  "internal_params env p =
     (let cfg = seCfg env
      in if trim_space (smMessage p) = [] then Inl empty_body
         else case split_char (CHR ''@'') (AgentEmail cfg) of
           [local, agentDom] \<Rightarrow>
             (case split_char (CHR ''@'') (smTo p) of
                [toLocal, toDom] \<Rightarrow>
                  if recipient_addr (seNetMail env) (smTo p) \<in> set (AgentEmails cfg) then
                    Inr (p\<lparr>smCc := filter_cc env (to_lower agentDom) (smCc p)\<rparr>)
                  else if AgentEmails cfg \<noteq> [] then Inl (unknown_coworker cfg (smTo p))
                  else if to_lower agentDom \<noteq> to_lower toDom then
                    Inl (Err (''this tool can only send internal messages to the same email domain as the agent ('' @
                              to_lower agentDom @ '')''))
                  else Inr (p\<lparr>smCc := filter_cc env (to_lower agentDom) (smCc p)\<rparr>)
              | _ \<Rightarrow> Inl (Err (''invalid email format: '' @ smTo p)))
         | _ \<Rightarrow> Inl (Err (''invalid agent email format: '' @ AgentEmail cfg)))"

definition sendEmailInternal ::
  "send_env \<Rightarrow> (email \<Rightarrow> ('s, unit) io) \<Rightarrow> send_mail_msg result \<Rightarrow> ('s, string) sending" where
  "sendEmailInternal env deliver input =
     (case and_then (wrap_err ''invalid input: '' input) (internal_params env) of
        Inl e \<Rightarrow> io_fail e
      | Inr p \<Rightarrow> sendEmail env deliver (Inr p))"

section \<open>Reports\<close>

text \<open>The repair of a report's recipient: the parameters to send with and the note on any change.\<close>

definition conflation_note :: "string \<Rightarrow> string \<Rightarrow> string" where
  "conflation_note rcpts human =
     ''To ('' @ rcpts @ '') was a thread Message-Id, not an address; it was replaced with '' @ go_quote human @
     '', the most recent human in this thread. The email did NOT go to the address you specified.''"

definition replaced_note :: "string \<Rightarrow> string \<Rightarrow> string" where
  "replaced_note rcpts human =
     ''To ('' @ rcpts @ '') was replaced with '' @ go_quote human @ '': that address has not sent into this '' @
     ''thread and is not listed by address in this agent's whitelist, so it was treated as a typo. The '' @
     ''email did NOT go to the address you specified. If it was in fact correct, tell the user it could '' @
     ''not be delivered and that an operator needs to add it to the agent's whitelist '' @ em_dash @
     '' do not claim the message was sent there.''"

definition heal_note :: "string \<Rightarrow> string list \<Rightarrow> bool \<Rightarrow> string \<Rightarrow> string" where
  "heal_note given rcpts conflation human =
     (if given = [] then
        ''To was empty and was set to '' @ go_quote human @ '', the most recent human in this thread.''
      else if conflation then conflation_note (join '', '' rcpts) human
      else replaced_note (join '', '' rcpts) human)"

definition unresolved_recipient :: "string list \<Rightarrow> goerror" where
  "unresolved_recipient rcpts =
     Err (''report_tool: To ['' @ join '' '' rcpts @ ''] matches a thread Message-Id (likely confused with '' @
          ''In-Reply-To); no human sender resolvable from References. Re-issue with the user's email '' @
          ''address in To'')"

definition heal_seed :: "send_env \<Rightarrow> email \<Rightarrow> email" where
  "heal_seed env reply = (if source_thread env reply then the (seSource env) else reply)"

definition heal_params :: "send_env \<Rightarrow> send_mail_msg \<Rightarrow> (send_mail_msg \<times> string) result" where
  "heal_params env p =
     (let inReplyTo = EnsureAngleBrackets (smInReplyTo p)
      in if smInReplyTo p = [] then Inr (p, [])
         else case seGet env [inReplyTo] of
           Inr (reply # rest) \<Rightarrow>
             (let seed = heal_seed env reply; rcpts = comma_split (smTo p);
                  conflation = toMatchesMessageIds rcpts (eMessageId seed # inReplyTo # eReferences seed)
              in if allRecipientsAllowed env rcpts (collectHumansInThread env seed) then Inr (p, [])
                 else case findHumanInThread env seed of
                   None \<Rightarrow> if conflation then Inl (unresolved_recipient rcpts) else Inr (p, [])
                 | Some human \<Rightarrow> Inr (p\<lparr>smTo := human\<rparr>, heal_note (smTo p) rcpts conflation human))
         | _ \<Rightarrow> Inr (p, []))"

definition healReportRecipient ::
  "send_env \<Rightarrow> send_mail_msg result \<Rightarrow> (send_mail_msg result \<times> string) result" where
  "healReportRecipient env input =
     (case input of
        Inl e \<Rightarrow> Inr (input, [])
      | Inr p \<Rightarrow> and_then (heal_params env p) (\<lambda>(p', note). Inr (Inr p', note)))"

definition sendReportEmail ::
  "send_env \<Rightarrow> (email \<Rightarrow> ('s, unit) io) \<Rightarrow> send_mail_msg result \<Rightarrow> ('s, string) sending" where
  "sendReportEmail env deliver input =
     (case healReportRecipient env input of
        Inl e \<Rightarrow> io_fail e
      | Inr (healed, note) \<Rightarrow>
          io_bind (sendEmail env deliver healed) (\<lambda>res.
            io_return (if note \<noteq> [] then res @ [nl, nl] @ ''NOTE: '' @ note else res)))"

text \<open>Strict reports: one recipient, chosen by the system.\<close>

definition resolveOriginalRequester :: "send_env \<Rightarrow> string result" where
  "resolveOriginalRequester env =
     (case seSource env of
        None \<Rightarrow> Inl (Err (''report_strict_tool: no triggering email on context '' @ em_dash @
                          '' cannot determine original requester''))
      | Some src \<Rightarrow>
          (let rootId = EnsureAngleBrackets (GetThreadRoot src);
               srcId = EnsureAngleBrackets (eMessageId src);
               root_human =
                 (if rootId \<noteq> [] \<and> rootId \<noteq> srcId then
                    (case seGet env [rootId] of
                       Inr (m # ms) \<Rightarrow> human_addr env (eFrom m)
                     | _ \<Rightarrow> None)
                  else None)
           in case root_human of
                Some a \<Rightarrow> Inr a
              | None \<Rightarrow>
                  (case human_addr env (eFrom src) of
                     Some a \<Rightarrow> Inr a
                   | None \<Rightarrow> Inl (Err (''report_strict_tool: cannot resolve a human requester from '' @
                                       ''thread root or triggering email'')))))"

definition lockReportRecipient :: "send_env \<Rightarrow> send_mail_msg result \<Rightarrow> send_mail_msg result" where
  "lockReportRecipient env input =
     and_then (wrap_err ''invalid input: '' input) (\<lambda>p.
       and_then (resolveOriginalRequester env) (\<lambda>requester.
         Inr (p\<lparr>smTo := requester, smCc := []\<rparr>)))"

record sent_report =
  srTo :: string
  srCc :: string
  srInReplyTo :: string
  srSubject :: string
  srMessage :: string

text \<open>The hooks run on the world, in the order they were registered.\<close>

definition fireReportSent :: "(sent_report \<Rightarrow> 's \<Rightarrow> 's) list \<Rightarrow> sent_report \<Rightarrow> 's \<Rightarrow> 's" where
  "fireReportSent hooks report s = foldl (\<lambda>s h. h report s) s hooks"

definition fireTaskComplete :: "('s \<Rightarrow> 's) list \<Rightarrow> 's \<Rightarrow> 's" where
  "fireTaskComplete hooks s = foldl (\<lambda>s h. h s) s hooks"

definition report_of :: "send_mail_msg \<Rightarrow> sent_report" where
  "report_of p = \<lparr>srTo = smTo p, srCc = smCc p, srInReplyTo = smInReplyTo p, srSubject = smSubject p,
                  srMessage = smMessage p\<rparr>"

definition sendReportStrictEmail ::
  "send_env \<Rightarrow> (sent_report \<Rightarrow> 's \<Rightarrow> 's) list \<Rightarrow> (email \<Rightarrow> ('s, unit) io) \<Rightarrow> send_mail_msg result \<Rightarrow>
   ('s, string) sending" where
  "sendReportStrictEmail env hooks deliver input =
     (case lockReportRecipient env input of
        Inl e \<Rightarrow> io_fail e
      | Inr p \<Rightarrow>
          io_bind (sendEmail env deliver (Inr p)) (\<lambda>res (s, t).
            (Inr res, (fireReportSent hooks (report_of p) s, t))))"

section \<open>Lemmas on address lists\<close>

text \<open>A text with no comma and no blank at its ends stands for itself in an address list.\<close>

definition clean_entry :: "string \<Rightarrow> bool" where
  "clean_entry w \<longleftrightarrow> w \<noteq> [] \<and> CHR '','' \<notin> set w \<and> trim_space w = w"

lemma clean_entry_ends:
  assumes "clean_entry w"
  shows "\<not> re_space (hd w)" "\<not> re_space (last w)"
  using assms hd_trim_by [of is_space w] last_trim_by [of is_space w] is_space_re_space
  by (auto simp: clean_entry_def)

lemma trim_clean:
  assumes "clean_entry w"
  shows "trim_right re_space w = w" "trim_left re_space w = w" "trim_left re_space (CHR '' '' # w) = w"
    "trim_by re_space (CHR '' '' # w) = w"
proof -
  have ne: "w \<noteq> []" using assms by (simp add: clean_entry_def)
  note e = clean_entry_ends [OF assms]
  show r: "trim_right re_space w = w" using ne e by (simp add: trim_right_id)
  show l: "trim_left re_space w = w" using ne e by (cases w) (simp_all add: trim_left_def)
  have sp: "re_space (CHR '' '')" by (simp add: re_space_def)
  then show l': "trim_left re_space (CHR '' '' # w) = w" using l by (simp add: trim_left_def)
  show "trim_by re_space (CHR '' '' # w) = w" by (simp add: trim_by_def l' r)
qed

fun space_tail :: "string list \<Rightarrow> string list" where
  "space_tail [] = []"
| "space_tail (w # ws) = w # map (\<lambda>v. CHR '' '' # v) ws"

lemma join_comma_space: "join '', '' ws = join '','' (space_tail ws)"
proof (induction "'', ''" ws rule: join.induct)
  case (3 w v ws)
  then show ?case by (cases ws) simp_all
qed simp_all

text \<open>Joining clean entries and splitting the header again gives the entries back.\<close>

lemma comma_split_join:
  assumes "ws \<noteq> []" "list_all clean_entry ws"
  shows "comma_split (join '', '' ws) = ws"
proof -
  have nc: "CHR '','' \<notin> set w" if "w \<in> set (space_tail ws)" for w
    using that assms(2) by (cases ws) (auto simp: list_all_iff clean_entry_def)
  have ne: "space_tail ws \<noteq> []" using assms(1) by (cases ws) simp_all
  have s: "split_char (CHR '','') (join '', '' ws) = space_tail ws"
    unfolding join_comma_space by (rule split_char_join [OF ne nc])
  obtain w vs where ws: "ws = w # vs" using assms(1) by (cases ws) auto
  show ?thesis
  proof (cases vs rule: rev_cases)
    case Nil
    then show ?thesis using s ws by (simp add: comma_split_def)
  next
    case (snoc us u)
    then have "split_char (CHR '','') (join '', '' ws) = w # map (\<lambda>v. CHR '' '' # v) us @ [CHR '' '' # u]"
      using s ws by simp
    moreover have "map (\<lambda>v. trim_by re_space (CHR '' '' # v)) us = us"
      using assms(2) ws snoc by (intro map_idI) (auto simp: list_all_iff trim_clean)
    ultimately show ?thesis
      using assms(2) ws snoc by (cases us) (simp_all add: comma_split_def trim_clean comp_def butlast_append)
  qed
qed

lemma set_trim_left: "set (trim_left P s) \<subseteq> set s"
  by (auto simp: trim_left_def dest: set_dropWhileD)

lemma comma_split_no_comma:
  assumes "r \<in> set (comma_split s)"
  shows "CHR '','' \<notin> set r"
proof -
  have piece: "CHR '','' \<notin> set w" if "w \<in> set (split_char (CHR '','') s)" for w
    using that by (rule split_char_no_sep)
  show ?thesis
  proof (cases "split_char (CHR '','') s")
    case Nil
    then show ?thesis using assms by (simp add: comma_split_def)
  next
    case (Cons w ws)
    show ?thesis
    proof (cases ws rule: rev_cases)
      case Nil
      then show ?thesis using assms Cons piece by (simp add: comma_split_def)
    next
      case (snoc us u)
      then have "comma_split s = trim_right re_space w # map (trim_by re_space) us @ [trim_left re_space u]"
        using Cons by (cases us) (simp_all add: comma_split_def butlast_append)
      with assms consider "r = trim_right re_space w" | v where "v \<in> set us" "r = trim_by re_space v"
        | "r = trim_left re_space u" by auto
      then show ?thesis
      proof cases
        case 1
        then show ?thesis using piece [of w] Cons set_trim_right [of re_space w] by auto
      next
        case 2
        then show ?thesis using piece [of v] Cons snoc set_trim_by [of re_space v] by auto
      next
        case 3
        then show ?thesis using piece [of u] Cons snoc set_trim_left [of re_space u] by auto
      qed
    qed
  qed
qed

section \<open>What is handed to delivery\<close>

text \<open>A delivery that also keeps a log of the messages it is given.\<close>

definition recording :: "(email \<Rightarrow> ('s, unit) io) \<Rightarrow> email \<Rightarrow> ('s \<times> email list, unit) io" where
  "recording deliver m = (\<lambda>(s, sent). case deliver m s of (r, s') \<Rightarrow> (r, (s', sent @ [m])))"

text \<open>Hooks that leave the log alone.\<close>

definition beside_log :: "(sent_report \<Rightarrow> 's \<Rightarrow> 's) \<Rightarrow> sent_report \<Rightarrow> 's \<times> email list \<Rightarrow> 's \<times> email list" where
  "beside_log h report = (\<lambda>(s, sent). (h report s, sent))"

lemma fire_beside_log: "snd (fireReportSent (map beside_log hooks) report w) = snd w"
proof -
  have "snd (foldl (\<lambda>s h. h report s) w (map beside_log hooks)) = snd w"
    by (induction hooks arbitrary: w) (auto simp: beside_log_def split: prod.split)
  then show ?thesis by (simp add: fireReportSent_def)
qed

lemma sendEmail_sent:
  assumes "sendEmail env (recording deliver) input ((s, []), t) = (r, ((s', sent), t'))" "m \<in> set sent"
  shows "\<exists>p. input = Inr p \<and> outbound_email env p = Inr m \<and> sent = [m]"
  using assms
  by (auto simp: sendEmail_def recording_def wrap_err_def and_then_def split: sum.splits prod.splits)

lemma sendEmailInternal_sent:
  assumes "sendEmailInternal env (recording deliver) input ((s, []), t) = (r, ((s', sent), t'))" "m \<in> set sent"
  shows "\<exists>p q. input = Inr p \<and> internal_params env p = Inr q \<and> outbound_email env q = Inr m \<and> sent = [m]"
proof (cases "and_then (wrap_err ''invalid input: '' input) (internal_params env)")
  case (Inl e)
  then show ?thesis using assms by (simp add: sendEmailInternal_def)
next
  case (Inr q)
  then obtain p where "input = Inr p" "internal_params env p = Inr q"
    by (auto simp: result_iff)
  then show ?thesis
    using assms Inr sendEmail_sent [of env deliver "Inr q" s t r s' sent t' m]
    by (simp add: sendEmailInternal_def)
qed

lemma io_bind_return_state:
  "snd (io_bind f (\<lambda>x. io_return (g x)) s) = snd (f s)"
  by (simp add: io_bind_def io_return_def split: prod.split sum.split)

lemma sendReportEmail_sent:
  assumes "sendReportEmail env (recording deliver) (Inr p) ((s, []), t) = (r, ((s', sent), t'))" "m \<in> set sent"
  shows "\<exists>q note. heal_params env p = Inr (q, note) \<and> outbound_email env q = Inr m \<and> sent = [m]"
proof (cases "heal_params env p")
  case (Inl e)
  then show ?thesis using assms by (simp add: sendReportEmail_def healReportRecipient_def)
next
  case (Inr x)
  obtain q nt where x: "x = (q, nt)" by (cases x)
  let ?send = "sendEmail env (recording deliver) (Inr q) ((s, []), t)"
  have "snd (io_bind (sendEmail env (recording deliver) (Inr q))
      (\<lambda>res. io_return (if nt \<noteq> [] then res @ [nl, nl] @ ''NOTE: '' @ nt else res)) ((s, []), t)) = ((s', sent), t')"
    using assms(1) Inr x by (simp add: sendReportEmail_def healReportRecipient_def)
  then have "snd ?send = ((s', sent), t')" by (simp only: io_bind_return_state)
  then have "?send = (fst ?send, ((s', sent), t'))" by (metis prod.collapse)
  from sendEmail_sent [OF this assms(2)] show ?thesis using Inr x by auto
qed

lemma sendReportStrictEmail_sent:
  assumes "sendReportStrictEmail env (map beside_log hooks) (recording deliver) input ((s, []), t) =
             (r, ((s', sent), t'))" "m \<in> set sent"
  shows "\<exists>q. lockReportRecipient env input = Inr q \<and> outbound_email env q = Inr m \<and> sent = [m]"
proof (cases "lockReportRecipient env input")
  case (Inl e)
  then show ?thesis using assms by (simp add: sendReportStrictEmail_def)
next
  case (Inr q)
  obtain r1 s1 sent1 t1 where
    send: "sendEmail env (recording deliver) (Inr q) ((s, []), t) = (r1, ((s1, sent1), t1))"
    by (metis prod.collapse)
  have "sent1 = sent"
    using assms(1) Inr send fire_beside_log [of hooks "report_of q" "(s1, sent1)"]
    by (cases r1) (auto simp: sendReportStrictEmail_def)
  then show ?thesis using sendEmail_sent [OF send] assms(2) Inr by auto
qed

lemma outbound_fields:
  assumes "outbound_email env p = Inr m"
  shows "eTo m = recipients (seCfg env) (smTo p)" "eTo m \<noteq> []" "eCc m = recipients (seCfg env) (smCc p)"
    "eSenders m = outbound_senders env" "HasSubject (eSubject m)" "trim_space (smMessage p) \<noteq> []"
    "MaxMessageBodyChars (seCfg env) > 0 \<Longrightarrow> int (length (smMessage p)) \<le> MaxMessageBodyChars (seCfg env)"
    "\<exists>d. make_draft env p = Inr d \<and> eReferences m = drReferences d \<and> eInReplyTo m = drInReplyTo d"
proof -
  have subj: "HasSubject (outbound_subject env a b)" for a b
    using ReplySubject_ok DefaultSubject_HasSubject
    by (auto simp: outbound_subject_def recovered_subject_def Let_def split: option.split)
  have body: "trim_space (smMessage p) \<noteq> []"
    and cap: "\<not> (MaxMessageBodyChars (seCfg env) > 0 \<and> int (length (smMessage p)) > MaxMessageBodyChars (seCfg env))"
    and to: "recipients (seCfg env) (smTo p) \<noteq> []"
    using assms by (auto simp only: outbound_email_def Let_def split: if_splits)
  obtain d atts where d: "make_draft env p = Inr d" "toAttachments (seReadFile env) (smAttachments p) = Inr atts"
    using assms by (auto simp only: outbound_email_def Let_def and_then_Inr split: if_splits)
  show "eTo m = recipients (seCfg env) (smTo p)" "eCc m = recipients (seCfg env) (smCc p)"
    "eSenders m = outbound_senders env" "HasSubject (eSubject m)"
    using assms subj d by (simp_all add: outbound_email_def Let_def split: if_splits) auto
  then show "eTo m \<noteq> []" using to by simp
  show "trim_space (smMessage p) \<noteq> []" by (rule body)
  show "MaxMessageBodyChars (seCfg env) > 0 \<Longrightarrow> int (length (smMessage p)) \<le> MaxMessageBodyChars (seCfg env)"
    using cap by linarith
  show "\<exists>d. make_draft env p = Inr d \<and> eReferences m = drReferences d \<and> eInReplyTo m = drInReplyTo d"
    using assms d by (simp add: outbound_email_def Let_def split: if_splits) auto
qed

section \<open>Properties of sending\<close>

lemma internal_params_cases:
  assumes "internal_params env p = Inr q"
  shows "q = p\<lparr>smCc := filter_cc env (to_lower (extractDomain (AgentEmail (seCfg env)))) (smCc p)\<rparr>"
    "recipient_addr (seNetMail env) (smTo p) \<in> set (AgentEmails (seCfg env)) \<or>
     AgentEmails (seCfg env) = [] \<and> equal_fold (extractDomain (smTo p)) (extractDomain (AgentEmail (seCfg env)))"
    "count_list (smTo p) (CHR ''@'') = 1"
proof -
  from assms obtain a agentDom b toDom where
    s: "split_char (CHR ''@'') (AgentEmail (seCfg env)) = [a, agentDom]" "split_char (CHR ''@'') (smTo p) = [b, toDom]"
    by (auto simp: internal_params_def Let_def split: if_splits list.splits)
  then have d: "extractDomain (AgentEmail (seCfg env)) = agentDom" "extractDomain (smTo p) = toDom"
    by (simp_all add: extractDomain_def)
  from assms s d show "q = p\<lparr>smCc := filter_cc env (to_lower (extractDomain (AgentEmail (seCfg env)))) (smCc p)\<rparr>"
    by (auto simp: internal_params_def Let_def split: if_splits)
  from assms s d show "recipient_addr (seNetMail env) (smTo p) \<in> set (AgentEmails (seCfg env)) \<or>
     AgentEmails (seCfg env) = [] \<and> equal_fold (extractDomain (smTo p)) (extractDomain (AgentEmail (seCfg env)))"
    by (auto simp: internal_params_def Let_def equal_fold_def split: if_splits)
  show "count_list (smTo p) (CHR ''@'') = 1"
    using s(2) length_split_char [of "CHR ''@''" "smTo p"] by simp
qed

lemma filter_cc_allowed:
  assumes "cc \<in> set (recipients cfg (filter_cc env agentDomain header))"
  shows "cc_allowed env agentDomain cc"
proof -
  let ?ws = "filter (\<lambda>c. c \<noteq> [] \<and> cc_allowed env agentDomain c) (map trim_space (comma_split header))"
  have clean: "list_all clean_entry ?ws"
    using comma_split_no_comma set_trim_by by (fastforce simp: list_all_iff clean_entry_def)
  show ?thesis
  proof (cases "header = [] \<or> ?ws = []")
    case True
    then have "filter_cc env agentDomain header = []"
      unfolding filter_cc_def by (metis join.simps(1))
    then show ?thesis using assms by (simp add: recipients_def)
  next
    case False
    then have "comma_split (filter_cc env agentDomain header) = ?ws"
      using comma_split_join [OF _ clean] by (simp add: filter_cc_def)
    moreover have "cc \<in> set (comma_split (filter_cc env agentDomain header))"
      using assms by (auto simp: recipients_def split: if_splits)
    ultimately show ?thesis by auto
  qed
qed

text \<open>C9. Messages to coworkers stay inside.  Whatever parameters the model supplies, a message that
  \<open>message_tool\<close> hands to delivery has a To field that is on the roster (or, with no roster, of the agent's own
  domain) and holds one \<open>@\<close>, and each Cc recipient of it is on the roster or of the agent's domain, with or
  without a roster; and at most one message is handed over per call.\<close>

theorem coworker_message_stays_inside:
  assumes "sendEmailInternal env (recording deliver) (Inr p) ((s, []), t) = (r, ((s', sent), t'))" "m \<in> set sent"
  shows "sent = [m] \<and> eTo m = recipients (seCfg env) (smTo p) \<and> count_list (smTo p) (CHR ''@'') = 1 \<and>
    (recipient_addr (seNetMail env) (smTo p) \<in> set (AgentEmails (seCfg env)) \<or>
     AgentEmails (seCfg env) = [] \<and> equal_fold (extractDomain (smTo p)) (extractDomain (AgentEmail (seCfg env)))) \<and>
    (\<forall>cc\<in>set (eCc m). cc_allowed env (to_lower (extractDomain (AgentEmail (seCfg env)))) cc)"
proof -
  from sendEmailInternal_sent [OF assms] obtain q where
    q: "internal_params env p = Inr q" "outbound_email env q = Inr m" "sent = [m]" by auto
  note i = internal_params_cases [OF q(1)] and o = outbound_fields(1,3) [OF q(2)]
  have "cc_allowed env (to_lower (extractDomain (AgentEmail (seCfg env)))) cc" if "cc \<in> set (eCc m)" for cc
    using that o(2) i(1) filter_cc_allowed by simp
  with q(3) i o(1) show ?thesis by simp
qed

text \<open>The body of a message holds what the model wrote, before what is quoted or forwarded.\<close>

lemma make_draft_content:
  assumes "make_draft env p = Inr d"
  shows "drContent d = [] \<or> (\<exists>u. drContent d = smMessage p @ u)"
  using assms
  by (auto simp: make_draft_def Let_def and_then_Inr empty_draft_def reply_draft_def forward_draft_def ReplyBody_def
      ForwardBody_def split: if_splits)

lemma outbound_body:
  assumes "outbound_email env p = Inr m"
  shows "trim_space (eContent m) \<noteq> []"
proof -
  obtain d atts where d: "make_draft env p = Inr d" "toAttachments (seReadFile env) (smAttachments p) = Inr atts"
    using assms by (auto simp only: outbound_email_def Let_def and_then_Inr split: if_splits)
  then have "eContent m = (if drContent d = [] then smMessage p else drContent d)"
    using assms by (auto simp: outbound_email_def Let_def split: if_splits)
  then obtain u where "eContent m = smMessage p @ u" using make_draft_content [OF d(1)] by force
  then show ?thesis using outbound_fields(6) [OF assms] by (auto simp: trim_by_eq_Nil)
qed

text \<open>A small deployment for the instances: the bot, its coworker Amy and a customer.\<close>

definition demo_env :: send_env where
  "demo_env =
     \<lparr>seCfg = startup_config\<lparr>AgentEmail := ''bot@acme.com'', AgentEmails := [''bot@acme.com'', ''amy@acme.com'']\<rparr>,
      seSource = Some (empty_email\<lparr>eMessageId := ''<q2>'', eReferences := [''<q1>''], eFrom := ''bob@shop.org''\<rparr>),
      seGet = (\<lambda>ids. Inr (map (\<lambda>i. empty_email\<lparr>eMessageId := i, eFrom := ''bob@shop.org'', eSubject := ''Lamp''\<rparr>) ids)),
      seNetMail = plain_address, seHeader = plain_address,
      seReadFile = (\<lambda>p. Inl (Err ''no file'')), seNow = utc 0\<rparr>"

definition demo_msg :: "string \<Rightarrow> string \<Rightarrow> string \<Rightarrow> send_mail_msg" where
  "demo_msg rcpt cc reply =
     \<lparr>smTo = rcpt, smCc = cc, smInReplyTo = reply, smForward = [], smSubject = [], smMessage = ''Hi'',
      smAttachments = []\<rparr>"

definition accepting :: "email \<Rightarrow> (unit, unit) io" where
  "accepting m = io_return ()"

lemma sending_run:
  assumes "map eTo (snd (fst (snd R))) = [x]" "map eCc (snd (fst (snd R))) = [y]"
  obtains r s' m t' where "R = (r, ((s', [m]), t'))" "eTo m = x" "eCc m = y"
  using assms that by (cases R) (auto simp: Cons_eq_map_conv map_eq_Cons_conv)

lemma coworker_message_stays_inside_witness:
  "\<exists>r s' m t'. sendEmailInternal demo_env (recording accepting)
       (Inr (demo_msg ''amy@acme.com'' ''eve@evil.org, joe@acme.com'' [])) (((), []), Some 0) = (r, ((s', [m]), t')) \<and>
     (\<forall>cc\<in>set (eCc m). cc_allowed demo_env ''acme.com'' cc)"
proof -
  let ?p = "demo_msg ''amy@acme.com'' ''eve@evil.org, joe@acme.com'' []"
  let ?R = "sendEmailInternal demo_env (recording accepting) (Inr ?p) (((), []), Some 0)"
  have run: "map eTo (snd (fst (snd ?R))) = [[''amy@acme.com'']]" "map eCc (snd (fst (snd ?R))) = [[''joe@acme.com'']]"
    by code_simp+
  then obtain r s' m t' where m: "?R = (r, ((s', [m]), t'))" by (rule sending_run)
  have "to_lower (extractDomain (AgentEmail (seCfg demo_env))) = ''acme.com''" by code_simp
  with coworker_message_stays_inside [OF m, of m] m show ?thesis by auto
qed

text \<open>C38. Every message that the three tools hand to delivery is well formed: it has a recipient, none of its To
  and Cc entries reads as the agent's bare address, its subject is more than a reply prefix, its body is not
  blank, and its X-Senders chain is the trusted one of the inbound email, whatever parameters the model
  supplied.\<close>

theorem outbound_message_is_well_formed:
  assumes "sendEmailInternal env (recording deliver) input ((s, []), t) = (r, ((s', sent), t')) \<or>
      sendReportEmail env (recording deliver) input ((s, []), t) = (r, ((s', sent), t')) \<or>
      sendReportStrictEmail env (map beside_log hooks) (recording deliver) input ((s, []), t) = (r, ((s', sent), t'))"
    "m \<in> set sent"
  shows "sent = [m] \<and> eTo m \<noteq> [] \<and>
    (\<forall>rcpt\<in>set (eTo m) \<union> set (eCc m). \<not> equal_fold (trim_space rcpt) (trim_space (AgentEmail (seCfg env)))) \<and>
    HasSubject (eSubject m) \<and> trim_space (eContent m) \<noteq> [] \<and> eSenders m = outbound_senders env"
proof -
  obtain q where q: "outbound_email env q = Inr m" "sent = [m]"
  proof -
    have k: "\<exists>q. outbound_email env q = Inr m \<and> sent = [m]"
      if run: "sendReportEmail env (recording deliver) input ((s, []), t) = (r, ((s', sent), t'))"
    proof (cases input)
      case (Inl e)
      then show ?thesis using run assms(2)
        by (auto simp: sendReportEmail_def healReportRecipient_def sendEmail_def io_bind_def)
    next
      case (Inr p)
      from sendReportEmail_sent [OF run [unfolded Inr] assms(2)] show ?thesis by blast
    qed
    from assms(1) consider
      "sendEmailInternal env (recording deliver) input ((s, []), t) = (r, ((s', sent), t'))"
      | "sendReportEmail env (recording deliver) input ((s, []), t) = (r, ((s', sent), t'))"
      | "sendReportStrictEmail env (map beside_log hooks) (recording deliver) input ((s, []), t) = (r, ((s', sent), t'))"
      by blast
    then show ?thesis
    proof cases
      case 1
      from sendEmailInternal_sent [OF 1 assms(2)] that show ?thesis by blast
    next
      case 2
      from k [OF 2] that show ?thesis by blast
    next
      case 3
      from sendReportStrictEmail_sent [OF 3 assms(2)] that show ?thesis by blast
    qed
  qed
  have self: "\<not> equal_fold (trim_space rcpt) (trim_space (AgentEmail (seCfg env)))"
    if "rcpt \<in> set (recipients (seCfg env) h)" for rcpt h
    using that by (auto simp: recipients_def self_addr_def equal_fold_def to_lower_trim_space split: if_splits)
  with outbound_fields [OF q(1)] outbound_body [OF q(1)] q(2) show ?thesis by auto
qed

lemma outbound_message_is_well_formed_witness:
  "\<exists>r s' m t'. sendEmailInternal demo_env (recording accepting)
       (Inr (demo_msg ''amy@acme.com'' ''Bot@acme.com'' [])) (((), []), Some 0) = (r, ((s', [m]), t')) \<and>
     HasSubject (eSubject m) \<and> eSenders m = [''bob@shop.org'']"
proof -
  let ?R = "sendEmailInternal demo_env (recording accepting) (Inr (demo_msg ''amy@acme.com'' ''Bot@acme.com'' []))
     (((), []), Some 0)"
  have run: "map eTo (snd (fst (snd ?R))) = [[''amy@acme.com'']]" "map eCc (snd (fst (snd ?R))) = [[]]"
    by code_simp+
  then obtain r s' m t' where m: "?R = (r, ((s', [m]), t'))" by (rule sending_run)
  have "outbound_senders demo_env = [''bob@shop.org'']" by code_simp
  with outbound_message_is_well_formed [OF disjI1 [OF m], of m] m show ?thesis by auto
qed

text \<open>An entry with a name is not recognised as the agent's own address, although the code means to leave the agent
  itself out; and a Cc of the agent's domain is kept when the roster does not have it, which the To gate refuses.\<close>

theorem named_self_is_mailed:
  "recipients (seCfg demo_env) ''bot@acme.com'' = [] \<and>
   recipients (seCfg demo_env) ''Bot <bot@acme.com>'' = [''Bot <bot@acme.com>'']"
  by code_simp

theorem unlisted_cc_is_kept:
  "filter_cc demo_env ''acme.com'' ''joe@acme.com'' = ''joe@acme.com'' \<and>
   \<not> is_ok (internal_params demo_env (demo_msg ''joe@acme.com'' [] []))"
  by code_simp


lemma sendEmail_count:
  "sendEmail env deliver input (s, t) = (r, (s', t')) \<Longrightarrow> t' = (if is_ok r then MarkDelivered t else t)"
  by (auto simp: sendEmail_def split: sum.splits prod.splits)

lemma io_bind_ok: "is_ok (fst (io_bind f (\<lambda>x. io_return (g x)) s)) = is_ok (fst (f s))"
  by (simp add: io_bind_def io_return_def split: prod.split sum.split)

lemma sendReportEmail_count:
  assumes "sendReportEmail env deliver input (s, t) = (r, (s', t'))"
  shows "t' = (if is_ok r then MarkDelivered t else t)"
proof (cases "healReportRecipient env input")
  case (Inl e)
  then show ?thesis using assms by (auto simp: sendReportEmail_def)
next
  case (Inr x)
  obtain h nt where x: "x = (h, nt)" by (cases x)
  obtain r1 s1 t1 where send: "sendEmail env deliver h (s, t) = (r1, (s1, t1))" by (metis prod.collapse)
  have "s1 = s'" "t1 = t'" "is_ok r1 = is_ok r"
    using assms Inr x send by (cases r1; auto simp: sendReportEmail_def)+
  with sendEmail_count [OF send] show ?thesis by simp
qed

lemma sendReportStrictEmail_count:
  assumes "sendReportStrictEmail env hooks deliver input (s, t) = (r, (s', t'))"
  shows "t' = (if is_ok r then MarkDelivered t else t)"
proof (cases "lockReportRecipient env input")
  case (Inl e)
  then show ?thesis using assms by (auto simp: sendReportStrictEmail_def)
next
  case (Inr p)
  obtain r1 s1 t1 where send: "sendEmail env deliver (Inr p) (s, t) = (r1, (s1, t1))" by (metis prod.collapse)
  have "t1 = t'" "is_ok r1 = is_ok r"
    using assms Inr send by (cases r1; auto simp: sendReportStrictEmail_def)+
  with sendEmail_count [OF send] show ?thesis by simp
qed

text \<open>Deliveries are counted exactly: for every send tool the counter of the turn goes up by one when the
  tool succeeds and stays as it is when it fails.\<close>

theorem deliveries_are_counted:
  assumes "sendEmailInternal env deliver input (s, t) = (r, (s', t')) \<or>
      sendReportEmail env deliver input (s, t) = (r, (s', t')) \<or>
      sendReportStrictEmail env hooks deliver input (s, t) = (r, (s', t'))"
  shows "t' = (if is_ok r then MarkDelivered t else t)"
proof -
  have i: ?thesis if "sendEmailInternal env deliver input (s, t) = (r, (s', t'))"
    using that sendEmail_count [of env deliver _ s t r s' t']
    by (auto simp: sendEmailInternal_def split: sum.splits)
  from assms show ?thesis
    by (elim disjE) (erule i, erule sendReportEmail_count, erule sendReportStrictEmail_count)
qed

lemma deliveries_are_counted_witness:
  "snd (snd (sendEmailInternal demo_env accepting (Inr (demo_msg ''amy@acme.com'' [] [])) ((), Some 0))) = Some 1 \<and>
   snd (snd (sendEmailInternal demo_env accepting (Inr (demo_msg ''nobody@acme.com'' [] [])) ((), Some 0))) = Some 0"
proof -
  let ?good = "sendEmailInternal demo_env accepting (Inr (demo_msg ''amy@acme.com'' [] [])) ((), Some 0)"
  let ?bad = "sendEmailInternal demo_env accepting (Inr (demo_msg ''nobody@acme.com'' [] [])) ((), Some 0)"
  obtain r1 u1 t1 r2 u2 t2 where runs: "?good = (r1, (u1, t1))" "?bad = (r2, (u2, t2))" by (metis prod.collapse)
  have "is_ok (fst ?good)" "\<not> is_ok (fst ?bad)" by code_simp+
  with runs deliveries_are_counted [OF disjI1 [OF runs(1)]] deliveries_are_counted [OF disjI1 [OF runs(2)]]
  show ?thesis by (simp add: MarkDelivered_def)
qed

lemma human_addr_Some:
  "human_addr env h = Some a \<Longrightarrow> a = bareAddressFromEmail (seNetMail env) h \<and> a \<noteq> [] \<and> a \<notin> set (AgentEmails (seCfg env))"
  by (auto simp: human_addr_def Let_def split: if_splits)

lemma recipients_singleton:
  assumes "CHR '','' \<notin> set a" "recipients cfg a \<noteq> []"
  shows "recipients cfg a = [a]"
  using assms by (auto simp: recipients_def comma_split_def split_char_id split: if_splits)



text \<open>A report is never redirected silently: when \<open>report_tool\<close> answers a plain success, the message went to
  the recipients the model chose; and when it went elsewhere, it went to a human of the thread and the answer
  carries a note that says so.\<close>

theorem report_redirect_is_never_silent:
  assumes "sendReportEmail env (recording deliver) (Inr p) ((s, []), t) = (Inr answer, ((s', sent), t'))"
    "m \<in> set sent"
  shows "answer = ''Success'' \<and> eTo m = recipients (seCfg env) (smTo p) \<or>
    (\<exists>reply rest human. seGet env [EnsureAngleBrackets (smInReplyTo p)] = Inr (reply # rest) \<and>
       findHumanInThread env (heal_seed env reply) = Some human \<and> human \<notin> set (AgentEmails (seCfg env)) \<and>
       eTo m = recipients (seCfg env) human \<and> has_prefix (''Success'' @ [nl, nl] @ ''NOTE: To '') answer)"
proof -
  from sendReportEmail_sent [OF assms] obtain q nt where
    q: "heal_params env p = Inr (q, nt)" "outbound_email env q = Inr m" by auto
  have run: "io_bind (sendEmail env (recording deliver) (Inr q))
      (\<lambda>res. io_return (if nt \<noteq> [] then res @ [nl, nl] @ ''NOTE: '' @ nt else res)) ((s, []), t) =
      (Inr answer, ((s', sent), t'))"
    using assms(1) q(1) by (simp add: sendReportEmail_def healReportRecipient_def)
  then have ans: "answer = (if nt \<noteq> [] then ''Success'' @ [nl, nl] @ ''NOTE: '' @ nt else ''Success'')"
    by (auto simp: io_bind_Inr sendEmail_def split: sum.splits prod.splits)
  have note_form: "has_prefix ''To '' (heal_note g rs c h)" for g rs c h
    by (simp add: heal_note_def conflation_note_def replaced_note_def)
  have human: "h \<notin> set (AgentEmails (seCfg env))" if "findHumanInThread env e = Some h" for e h
  proof -
    have "human_in_refs env refs = Some h \<Longrightarrow> h \<notin> set (AgentEmails (seCfg env))" for refs
      by (induction env refs rule: human_in_refs.induct)
        (auto simp: Let_def dest: human_addr_Some split: if_splits sum.splits list.splits option.splits)
    with that show ?thesis
      by (auto simp: findHumanInThread_def dest: human_addr_Some split: if_splits option.splits)
  qed
  from q(1) consider "q = p" "nt = []"
    | reply rest h where "seGet env [EnsureAngleBrackets (smInReplyTo p)] = Inr (reply # rest)"
      "findHumanInThread env (heal_seed env reply) = Some h" "q = p\<lparr>smTo := h\<rparr>" "has_prefix ''To '' nt"
    using note_form
    by (auto simp: heal_params_def Let_def split: if_splits sum.splits list.splits option.splits)
  then show ?thesis
  proof cases
    case 1
    with ans outbound_fields(1) [OF q(2)] show ?thesis by simp
  next
    case 2
    then have "nt \<noteq> []" by (auto simp: has_prefix_def)
    with 2 ans outbound_fields(1) [OF q(2)] human show ?thesis by simp
  qed
qed

lemma report_redirect_is_never_silent_witness:
  "\<exists>answer s' m t'. sendReportEmail demo_env (recording accepting)
       (Inr (demo_msg ''bob@shop.rog'' [] ''<q2>'')) (((), []), Some 0) = (Inr answer, ((s', [m]), t')) \<and>
     eTo m = [''bob@shop.org''] \<and> has_prefix (''Success'' @ [nl, nl] @ ''NOTE: To '') answer"
proof -
  let ?R = "sendReportEmail demo_env (recording accepting)
       (Inr (demo_msg ''bob@shop.rog'' [] ''<q2>'')) (((), []), Some 0)"
  have run: "map eTo (snd (fst (snd ?R))) = [[''bob@shop.org'']]" "map eCc (snd (fst (snd ?R))) = [[]]"
    by code_simp+
  then obtain r s' m t' where m: "?R = (r, ((s', [m]), t'))" "eTo m = [''bob@shop.org'']" by (rule sending_run)
  have "is_ok (fst ?R)" by code_simp
  with m obtain answer where r: "r = Inr answer" by (auto simp: is_ok_iff)
  have "recipients (seCfg demo_env) (smTo (demo_msg ''bob@shop.rog'' [] ''<q2>'')) = [''bob@shop.rog'']" by code_simp
  with report_redirect_is_never_silent [OF m(1) [unfolded r], of m] m r show ?thesis by auto
qed

end
