(* ===== verification/Memory_Json.thy ===== *)
theory Memory_Json
  imports Messages
begin

text \<open>
  The clean-up of a history read back from a memory file (\<open>internal/services/memory.go\<close>): corrupt
  server-tool results and their calls are removed, the fields the API rejects are stripped, unusable
  thinking blocks are dropped, and the leading messages that cannot open a conversation are trimmed.
  The functions work on the JSON of a message.
\<close>

section \<open>Corrupt server results\<close>

definition server_result_types :: "string list" where
  "server_result_types =
     [''code_execution_tool_result'', ''bash_code_execution_tool_result'',
      ''text_editor_code_execution_tool_result'', ''web_search_tool_result'', ''web_fetch_tool_result'']"

definition union_field :: string where
  "union_field = ''OfWebSearchResultBlockArray''"

text \<open>
  The bytes \<open>"OfWebSearchResultBlockArray"\<close> occur in the text of a value when a key or string is that
  name, or ends with it after a quote of its own.
\<close>

definition leaks_token :: "string \<Rightarrow> bool" where
  "leaks_token t \<longleftrightarrow> t = union_field \<or> has_suffix (dquote # union_field) t"

fun leaks :: "json \<Rightarrow> bool" where
  "leaks (JStr s) = leaks_token s"
| "leaks (JArr vs) = list_ex leaks vs"
| "leaks (JObj ms) = list_ex (\<lambda>(k, v). leaks_token k \<or> leaks v) ms"
| "leaks v = False"

definition isCorruptServerResult :: "string \<Rightarrow> json option \<Rightarrow> bool" where
  "isCorruptServerResult ty content \<longleftrightarrow>
     ty \<in> set server_result_types \<and> (case content of Some c \<Rightarrow> leaks c | None \<Rightarrow> False)"

text \<open>
  A block peeked at through a struct with some string fields; \<open>None\<close> when the decoding fails.
\<close>

definition peek_str :: "string \<Rightarrow> json \<Rightarrow> string option" where
  "peek_str name b = Option.bind (members b) (field_str name)"

definition peek_raw :: "string \<Rightarrow> json \<Rightarrow> json option" where
  "peek_raw name b = Option.bind (members b) (field_raw name)"

definition corrupt_block :: "json \<Rightarrow> bool" where
  "corrupt_block b \<longleftrightarrow>
     (case (peek_str ''type'' b, peek_str ''tool_use_id'' b) of
        (Some ty, Some i) \<Rightarrow> isCorruptServerResult ty (peek_raw ''content'' b)
      | _ \<Rightarrow> False)"

definition orphaned_ids :: "json list \<Rightarrow> string list" where
  "orphaned_ids bs =
     filter (\<lambda>i. i \<noteq> []) (List.map_filter (peek_str ''tool_use_id'') (filter corrupt_block bs))"

definition orphaned_call :: "string list \<Rightarrow> json \<Rightarrow> bool" where
  "orphaned_call ids b \<longleftrightarrow>
     (case (peek_str ''type'' b, peek_str ''id'' b) of
        (Some ty, Some i) \<Rightarrow> ty = ''server_tool_use'' \<and> i \<in> set ids
      | _ \<Rightarrow> False)"

text \<open>The decoding of an array field: \<open>null\<close> is the empty slice.\<close>

fun as_array :: "json \<Rightarrow> json list option" where
  "as_array (JArr vs) = Some vs"
| "as_array JNull = Some []"
| "as_array v = None"

definition marshal_map :: "(string \<times> json) list \<Rightarrow> json" where
  "marshal_map ms = JObj (sort_key fst ms)"

text \<open>\<open>None\<close>: the message is dropped.\<close>

definition stripCorruptServerResults :: "json \<Rightarrow> json option" where
  "stripCorruptServerResults raw =
     (case raw of
        JObj ms0 \<Rightarrow>
          let ms = dedup_members ms0
          in (case map_of ms ''content'' of
                None \<Rightarrow> Some raw
              | Some contentRaw \<Rightarrow>
                  (case as_array contentRaw of
                     None \<Rightarrow> Some raw
                   | Some blocks \<Rightarrow>
                       if \<not> list_ex corrupt_block blocks then (if blocks = [] then None else Some raw)
                       else let ids = orphaned_ids blocks;
                                kept = filter (\<lambda>b. \<not> corrupt_block b \<and> \<not> orphaned_call ids b) blocks
                            in if kept = [] then None
                               else Some (marshal_map (AList.update ''content'' (JArr kept) ms))))
      | _ \<Rightarrow> Some raw)"

section \<open>Citations and server tool uses\<close>

definition serverToolUseAllowedFields :: "string list" where
  "serverToolUseAllowedFields = [''type'', ''id'', ''input'', ''name'', ''cache_control'', ''caller'']"

definition clean_block :: "json \<Rightarrow> json option" where
  "clean_block b =
     (case (peek_str ''type'' b, b) of
        (Some ty, JObj ms0) \<Rightarrow>
          let ms = dedup_members ms0
          in if ty = ''text'' then
               (case peek_raw ''citations'' b of
                  None \<Rightarrow> None
                | Some c \<Rightarrow> Some (marshal_map (filter (\<lambda>(k, v). k \<noteq> ''citations'') ms)))
             else if ty = ''server_tool_use'' then
               (if list_all (\<lambda>(k, v). k \<in> set serverToolUseAllowedFields) ms then None
                else Some (marshal_map (filter (\<lambda>(k, v). k \<in> set serverToolUseAllowedFields) ms)))
             else None
      | _ \<Rightarrow> None)"

text \<open>The message shape \<open>{role, content}\<close>; \<open>None\<close> when it does not decode.\<close>

definition message_shape :: "json \<Rightarrow> (string \<times> json list) option" where
  "message_shape raw =
     Option.bind (members raw) (\<lambda>ms.
     Option.bind (field_str ''role'' ms) (\<lambda>r.
     Option.bind (field_arr ''content'' ms) (\<lambda>bs. Some (r, bs))))"

definition marshal_shape :: "string \<Rightarrow> json list \<Rightarrow> json" where
  "marshal_shape r bs = JObj [(''role'', JStr r), (''content'', JArr bs)]"

definition stripCitationsFromMessage :: "json \<Rightarrow> json" where
  "stripCitationsFromMessage raw =
     (case message_shape raw of
        None \<Rightarrow> raw
      | Some (r, bs) \<Rightarrow>
          if list_all (\<lambda>b. clean_block b = None) bs then raw
          else marshal_shape r (map (\<lambda>b. case clean_block b of Some b' \<Rightarrow> b' | None \<Rightarrow> b) bs))"

section \<open>Unusable thinking\<close>

definition unusable_thinking :: "json \<Rightarrow> bool" where
  "unusable_thinking b \<longleftrightarrow>
     (case (peek_str ''type'' b, peek_str ''signature'' b, peek_str ''thinking'' b, peek_str ''data'' b) of
        (Some ty, Some sig, Some th, Some dat) \<Rightarrow>
          (ty = ''thinking'' \<and> (trim_space sig = [] \<or> trim_space th = [])) \<or>
          (ty = ''redacted_thinking'' \<and> trim_space dat = [])
      | _ \<Rightarrow> False)"

definition stripUnusableThinking :: "json \<Rightarrow> json" where
  "stripUnusableThinking raw =
     (case message_shape raw of
        None \<Rightarrow> raw
      | Some (r, bs) \<Rightarrow>
          let kept = filter (\<lambda>b. \<not> unusable_thinking b) bs
          in if length kept = length bs \<or> kept = [] then raw else marshal_shape r kept)"

section \<open>Leading messages\<close>

text \<open>The role, and whether a block is a tool result; \<open>None\<close> when the message does not decode.\<close>

definition peekRoleAndToolResult :: "json \<Rightarrow> (string \<times> bool) option" where
  "peekRoleAndToolResult raw =
     Option.bind (message_shape raw) (\<lambda>(r, bs).
       let tys = map (peek_str ''type'') bs
       in if None \<in> set tys then None else Some (r, Some ''tool_result'' \<in> set tys))"

definition opens_conversation :: "json \<Rightarrow> bool" where
  "opens_conversation m \<longleftrightarrow> peekRoleAndToolResult m = Some (''user'', False)"

definition trimOrphanedLeadingMessagesRaw :: "json list \<Rightarrow> json list" where
  "trimOrphanedLeadingMessagesRaw history = dropWhile (\<lambda>m. \<not> opens_conversation m) history"

section \<open>The whole clean-up\<close>

definition sanitize_message :: "json \<Rightarrow> json option" where
  "sanitize_message raw =
     map_option (\<lambda>j. stripUnusableThinking (stripCitationsFromMessage j)) (stripCorruptServerResults raw)"

definition sanitize_history :: "json list \<Rightarrow> json list" where
  "sanitize_history hs = trimOrphanedLeadingMessagesRaw (List.map_filter sanitize_message hs)"

section \<open>Well-formed messages\<close>

text \<open>
  A message as it is written to a memory file: an object with a role and an array of blocks, in
  either order; and a block: an object whose keys are distinct and in lower case.
\<close>

fun msg_view :: "json \<Rightarrow> (string \<times> json list) option" where
  "msg_view (JObj [(k, JStr r), (k', JArr bs)]) =
     (if k = ''role'' \<and> k' = ''content'' then Some (r, bs) else None)"
| "msg_view (JObj [(k, JArr bs), (k', JStr r)]) =
     (if k = ''content'' \<and> k' = ''role'' then Some (r, bs) else None)"
| "msg_view j = None"

fun proper_block :: "json \<Rightarrow> bool" where
  "proper_block (JObj ms) = (distinct (map fst ms) \<and> list_all (\<lambda>(k, v). to_lower k = k) ms)"
| "proper_block v = False"

text \<open>The blocks whose partner is in a neighbouring message.\<close>

definition paired :: "json \<Rightarrow> bool" where
  "paired b \<longleftrightarrow> peek_str ''type'' b = Some ''tool_use'' \<or> peek_str ''type'' b = Some ''tool_result''"

lemma msg_view_cases:
  assumes "msg_view j = Some (r, bs)"
  obtains "j = JObj [(''role'', JStr r), (''content'', JArr bs)]"
  | "j = JObj [(''content'', JArr bs), (''role'', JStr r)]"
  using assms by (cases j rule: msg_view.cases) (auto split: if_splits)

lemma msg_view_marshal_shape [simp]: "msg_view (marshal_shape r bs) = Some (r, bs)"
  by (simp add: marshal_shape_def)

lemma equal_fold_lower_iff: "to_lower a = a \<Longrightarrow> to_lower b = b \<Longrightarrow> equal_fold a b \<longleftrightarrow> a = b"
  by (simp add: equal_fold_def)

lemma message_shape_view:
  assumes "msg_view j = Some (r, bs)"
  shows "message_shape j = Some (r, bs)"
proof -
  have "equal_fold ''role'' ''content'' = False" "equal_fold ''content'' ''role'' = False"
    by code_simp+
  with assms show ?thesis
    by (cases rule: msg_view_cases [OF assms])
      (simp_all add: message_shape_def field_str_def field_arr_def keys_of_def)
qed

lemma content_le_role: "''content'' \<le> ''role''" "\<not> ''role'' \<le> ''content''"
  by code_simp+

lemma strip_corrupt_view:
  assumes "msg_view j = Some (r, bs)"
  defines "kept \<equiv> filter (\<lambda>b. \<not> corrupt_block b \<and> \<not> orphaned_call (orphaned_ids bs) b) bs"
  shows "if kept = [] then stripCorruptServerResults j = None
    else \<exists>j'. stripCorruptServerResults j = Some j' \<and> msg_view j' = Some (r, kept)"
proof -
  have none: "orphaned_ids bs = [] \<and> kept = bs" if "\<not> list_ex corrupt_block bs"
  proof -
    have "filter corrupt_block bs = []" using that by (auto simp: filter_empty_conv list_ex_iff)
    then have "orphaned_ids bs = []" by (simp add: orphaned_ids_def map_filter_def)
    then show ?thesis using that by (auto simp: kept_def filter_id_conv list_ex_iff orphaned_call_def split: option.splits)
  qed
  from assms(1) show ?thesis
  proof (cases rule: msg_view_cases)
    case 1
    then show ?thesis
      using none assms(1)
      by (auto simp: stripCorruptServerResults_def dedup_members_def Let_def kept_def marshal_map_def content_le_role)
  next
    case 2
    then show ?thesis
      using none assms(1)
      by (auto simp: stripCorruptServerResults_def dedup_members_def Let_def kept_def marshal_map_def content_le_role)
  qed
qed

definition clean :: "json \<Rightarrow> json" where
  "clean b = (case clean_block b of Some b' \<Rightarrow> b' | None \<Rightarrow> b)"

lemma strip_citations_view:
  assumes "msg_view j = Some (r, bs)"
  shows "msg_view (stripCitationsFromMessage j) = Some (r, map clean bs)"
proof (cases "list_all (\<lambda>b. clean_block b = None) bs")
  case True
  then have "map clean bs = bs" by (auto simp: clean_def list_all_iff intro: map_idI)
  with True assms show ?thesis by (simp add: stripCitationsFromMessage_def message_shape_view)
next
  case False
  then show ?thesis using assms
    by (simp add: stripCitationsFromMessage_def message_shape_view clean_def [abs_def])
qed

definition usable :: "json list \<Rightarrow> json list" where
  "usable bs =
     (let kept = filter (\<lambda>b. \<not> unusable_thinking b) bs in if kept = [] then bs else kept)"

lemma strip_thinking_view:
  assumes "msg_view j = Some (r, bs)"
  shows "msg_view (stripUnusableThinking j) = Some (r, usable bs)"
proof -
  have e: "filter (\<lambda>b. \<not> unusable_thinking b) bs = bs"
    if "length (filter (\<lambda>b. \<not> unusable_thinking b) bs) = length bs"
    using that by (metis filter_id_conv length_filter_less nat_neq_iff)
  show ?thesis
  proof (cases "length (filter (\<lambda>b. \<not> unusable_thinking b) bs) = length bs")
    case True
    with assms e show ?thesis by (simp add: stripUnusableThinking_def message_shape_view usable_def)
  next
    case False
    with assms show ?thesis by (auto simp: stripUnusableThinking_def message_shape_view usable_def Let_def)
  qed
qed

lemma sanitize_message_view:
  assumes "msg_view j = Some (r, bs)"
  defines "kept \<equiv> filter (\<lambda>b. \<not> corrupt_block b \<and> \<not> orphaned_call (orphaned_ids bs) b) bs"
  shows "if kept = [] then sanitize_message j = None
    else \<exists>j'. sanitize_message j = Some j' \<and> msg_view j' = Some (r, usable (map clean kept))"
  using strip_corrupt_view [OF assms(1)] strip_citations_view strip_thinking_view
  by (auto simp: sanitize_message_def kept_def split: if_splits)

section \<open>Proper blocks\<close>

lemma keys_of_proper:
  assumes "distinct (map fst ms)" "list_all (\<lambda>(k, v). to_lower k = k) ms" "to_lower name = name"
  shows "keys_of name ms = (case map_of ms name of None \<Rightarrow> [] | Some v \<Rightarrow> [v])"
  using assms
proof (induction ms)
  case Nil
  then show ?case by (simp add: keys_of_def)
next
  case (Cons m ms)
  obtain k v where m: "m = (k, v)" by force
  have "keys_of name (m # ms) = (if k = name then [v] else []) @ keys_of name ms"
    using Cons.prems m by (simp add: keys_of_def equal_fold_lower_iff)
  moreover have "map_of ms name = None" if "k = name"
    using Cons.prems(1) m that by (simp add: map_of_eq_None_iff)
  ultimately show ?case using Cons m by auto
qed

lemma field_str_proper:
  assumes "distinct (map fst ms)" "list_all (\<lambda>(k, v). to_lower k = k) ms" "to_lower name = name"
  shows "field_str name ms = (case map_of ms name of None \<Rightarrow> Some [] | Some v \<Rightarrow> fold_str [] [v])"
  using keys_of_proper [OF assms] by (simp add: field_str_def split: option.split)

lemma update_fresh: "k \<notin> fst ` set xs \<Longrightarrow> AList.update k v xs = xs @ [(k, v)]"
  by (induction xs) auto

lemma dedup_members_distinct: "distinct (map fst ms) \<Longrightarrow> dedup_members ms = ms"
proof -
  have "distinct (map fst (acc @ ms)) \<Longrightarrow> foldl (\<lambda>acc (k, v). AList.update k v acc) acc ms = acc @ ms" for acc
  proof (induction ms arbitrary: acc)
    case (Cons m ms)
    then show ?case by (cases m) (auto simp: update_fresh)
  qed simp
  from this [of "[]"] show "distinct (map fst ms) \<Longrightarrow> ?thesis" by (simp add: dedup_members_def)
qed

lemma map_of_filter_key: "map_of (filter (\<lambda>(k, v). P k) ms) k = (if P k then map_of ms k else None)"
  by (induction ms) auto

lemma map_of_sort: "distinct (map fst ms) \<Longrightarrow> map_of (sort_key fst ms) = map_of ms"
  by (subst map_of_inject_set) (auto simp: distinct_map)

text \<open>Keeping the members with some keys leaves a string field whose key is kept.\<close>

lemma marshal_filter_block:
  assumes "proper_block (JObj ms)" "P name" "to_lower name = name"
  shows "proper_block (marshal_map (filter (\<lambda>(k, v). P k) (dedup_members ms)))"
    "peek_str name (marshal_map (filter (\<lambda>(k, v). P k) (dedup_members ms))) = peek_str name (JObj ms)"
proof -
  have d: "dedup_members ms = ms" using assms(1) by (simp add: dedup_members_distinct)
  let ?ys = "sort_key fst (filter (\<lambda>(k, v). P k) ms)"
  have dy: "distinct (map fst (filter (\<lambda>(k, v). P k) ms))" using assms(1) by (simp add: distinct_map_filter)
  then have dy': "distinct (map fst ?ys)" by (simp add: distinct_map)
  have ly: "list_all (\<lambda>(k, v). to_lower k = k) ?ys" using assms(1) by (auto simp: list_all_iff)
  show "proper_block (marshal_map (filter (\<lambda>(k, v). P k) (dedup_members ms)))"
    using dy' ly by (simp add: marshal_map_def d)
  have "map_of ?ys name = map_of ms name"
    using assms(2) by (simp add: map_of_sort [OF dy] map_of_filter_key)
  then show "peek_str name (marshal_map (filter (\<lambda>(k, v). P k) (dedup_members ms))) = peek_str name (JObj ms)"
    using assms(1,3) dy' ly by (simp add: peek_str_def marshal_map_def d field_str_proper)
qed

section \<open>What the stages keep\<close>

lemma fields_lower: "\<forall>f\<in>set serverToolUseAllowedFields. to_lower f = f"
  by code_simp

lemma type_allowed: "''type'' \<in> set serverToolUseAllowedFields"
  by code_simp

lemma clean_block_cases:
  assumes "proper_block b"
  obtains "clean b = b"
  | ms P where "b = JObj ms" "clean b = marshal_map (filter (\<lambda>(k, v). P k) (dedup_members ms))" "P ''type''"
      "peek_str ''type'' b = Some ''text'' \<or> peek_str ''type'' b = Some ''server_tool_use''"
proof (cases "clean_block b")
  case None
  then show ?thesis using that(1) by (simp add: clean_def)
next
  case (Some b')
  then obtain ms where ms: "b = JObj ms"
    by (auto simp: clean_block_def split: option.splits json.splits)
  have "''type'' \<noteq> ''citations''" by simp
  show ?thesis
  proof (cases "peek_str ''type'' b = Some ''text''")
    case True
    with Some ms show ?thesis
      using that(2) [of ms "\<lambda>k. k \<noteq> ''citations''"] by (auto simp: clean_block_def clean_def Let_def split: option.splits)
  next
    case False
    with Some ms show ?thesis
      using that(2) [of ms "\<lambda>k. k \<in> set serverToolUseAllowedFields"] type_allowed
      by (auto simp: clean_block_def clean_def Let_def split: option.splits if_splits)
  qed
qed

lemma clean_proper:
  assumes "proper_block b"
  shows "proper_block (clean b)"
proof (cases rule: clean_block_cases [OF assms])
  case (2 ms P)
  then show ?thesis using assms marshal_filter_block(1) [of ms P "''type''"] by simp
qed (use assms in simp)

lemma clean_type:
  assumes "proper_block b"
  shows "peek_str ''type'' (clean b) = peek_str ''type'' b"
proof (cases rule: clean_block_cases [OF assms])
  case (2 ms P)
  then show ?thesis using assms marshal_filter_block(2) [of ms P "''type''"] by simp
qed simp

lemma clean_paired: "proper_block b \<Longrightarrow> paired b \<Longrightarrow> clean b = b"
  by (erule clean_block_cases) (auto simp: paired_def)

lemma corrupt_type: "corrupt_block b \<Longrightarrow> \<exists>ty\<in>set server_result_types. peek_str ''type'' b = Some ty"
  by (auto simp: corrupt_block_def isCorruptServerResult_def split: option.splits)

lemma paired_not_corrupt: "paired b \<Longrightarrow> \<not> corrupt_block b"
  using corrupt_type [of b] by (auto simp: paired_def server_result_types_def)

lemma paired_not_orphaned: "paired b \<Longrightarrow> \<not> orphaned_call ids b"
  by (auto simp: paired_def orphaned_call_def split: option.splits)

lemma paired_usable: "paired b \<Longrightarrow> \<not> unusable_thinking b"
  by (auto simp: paired_def unusable_thinking_def split: option.splits)

lemma clean_not_corrupt:
  assumes "proper_block b" "\<not> corrupt_block b"
  shows "\<not> corrupt_block (clean b)"
proof (cases rule: clean_block_cases [OF assms(1)])
  case (2 ms P)
  have "\<not> (\<exists>ty\<in>set server_result_types. peek_str ''type'' b = Some ty)"
    using 2(4) by (auto simp: server_result_types_def)
  then show ?thesis using corrupt_type [of "clean b"] clean_type [OF assms(1)] by auto
qed (use assms in simp)

lemma usable_sub: "set (usable bs) \<subseteq> set bs"
  by (auto simp: usable_def Let_def)

lemma usable_ne: "bs \<noteq> [] \<Longrightarrow> usable bs \<noteq> []"
  by (simp add: usable_def Let_def)

lemma paired_filter_usable: "filter paired (usable bs) = filter paired bs"
proof -
  have "filter paired (filter (\<lambda>b. \<not> unusable_thinking b) bs) = filter paired bs"
    by (induction bs) (auto dest: paired_usable)
  then show ?thesis by (simp add: usable_def Let_def)
qed

lemma paired_map_clean: "list_all proper_block bs \<Longrightarrow> filter paired (map clean bs) = filter paired bs"
  by (induction bs) (auto simp: clean_paired paired_def clean_type)

lemma paired_filter_kept:
  "filter paired (filter (\<lambda>b. \<not> corrupt_block b \<and> \<not> orphaned_call ids b) bs) = filter paired bs"
  by (induction bs) (auto dest: paired_not_corrupt paired_not_orphaned)

section \<open>The contract of a stage\<close>

text \<open>
  A stage may drop a message only when it holds no paired block, and otherwise keeps its role, its
  shape and its paired blocks in order.
\<close>

definition proper_message :: "json \<Rightarrow> bool" where
  "proper_message j \<longleftrightarrow> (case msg_view j of Some (r, bs) \<Rightarrow> list_all proper_block bs | None \<Rightarrow> False)"

definition role_of :: "json \<Rightarrow> string" where
  "role_of j = (case msg_view j of Some (r, bs) \<Rightarrow> r | None \<Rightarrow> [])"

definition blocks_of :: "json \<Rightarrow> json list" where
  "blocks_of j = (case msg_view j of Some (r, bs) \<Rightarrow> bs | None \<Rightarrow> [])"

definition paired_blocks :: "json \<Rightarrow> json list" where
  "paired_blocks j = filter paired (blocks_of j)"

lemma proper_message_iff:
  "proper_message j \<longleftrightarrow> (\<exists>r bs. msg_view j = Some (r, bs) \<and> list_all proper_block bs)"
  by (auto simp: proper_message_def split: option.splits)

lemma view_simps: "msg_view j = Some (r, bs) \<Longrightarrow> role_of j = r \<and> blocks_of j = bs"
  by (simp add: role_of_def blocks_of_def)

locale message_stage =
  fixes stage :: "json \<Rightarrow> json option"
  assumes dropped: "proper_message j \<Longrightarrow> stage j = None \<Longrightarrow> paired_blocks j = []"
    and kept: "proper_message j \<Longrightarrow> stage j = Some j' \<Longrightarrow>
      proper_message j' \<and> role_of j' = role_of j \<and> paired_blocks j' = paired_blocks j"
begin

text \<open>Over a history, the paired blocks come out in order, none lost and none added.\<close>

lemma history_pairing:
  "list_all proper_message hs \<Longrightarrow>
     concat (map paired_blocks (List.map_filter stage hs)) = concat (map paired_blocks hs)"
proof (induction hs)
  case (Cons h hs)
  then show ?case using dropped [of h] kept [of h] by (cases "stage h") (auto simp: map_filter_simps)
qed (simp add: map_filter_simps)

lemma history_proper:
  "list_all proper_message hs \<Longrightarrow> list_all proper_message (List.map_filter stage hs)"
  by (induction hs) (auto simp: map_filter_simps kept split: option.split)

lemma history_length: "length (List.map_filter stage hs) \<le> length hs"
  by (induction hs) (auto simp: map_filter_simps split: option.split)

end

text \<open>Two stages in a row are a stage.\<close>

locale two_stages = first: message_stage f + second: message_stage g
  for f :: "json \<Rightarrow> json option" and g :: "json \<Rightarrow> json option"

sublocale two_stages \<subseteq> both: message_stage "\<lambda>j. Option.bind (f j) g"
proof unfold_locales
  fix j j'
  assume p: "proper_message j"
  show "Option.bind (f j) g = None \<Longrightarrow> paired_blocks j = []"
    using first.dropped [OF p] first.kept [OF p] second.dropped by (cases "f j") fastforce+
  assume "Option.bind (f j) g = Some j'"
  then obtain k where k: "f j = Some k" "g k = Some j'" by (auto simp: bind_eq_Some_conv)
  from first.kept [OF p k(1)] second.kept [OF _ k(2)]
  show "proper_message j' \<and> role_of j' = role_of j \<and> paired_blocks j' = paired_blocks j" by simp
qed

interpretation corrupt_stage: message_stage stripCorruptServerResults
proof unfold_locales
  fix j j'
  assume "proper_message j"
  then obtain r bs where v: "msg_view j = Some (r, bs)" "list_all proper_block bs"
    by (auto simp: proper_message_iff)
  let ?kept = "filter (\<lambda>b. \<not> corrupt_block b \<and> \<not> orphaned_call (orphaned_ids bs) b) bs"
  have p: "filter paired ?kept = filter paired bs" by (rule paired_filter_kept)
  have "stripCorruptServerResults j = None \<Longrightarrow> ?kept = []"
    using strip_corrupt_view [OF v(1)] by (auto split: if_splits)
  then show "stripCorruptServerResults j = None \<Longrightarrow> paired_blocks j = []"
    using p view_simps [OF v(1)] by (metis filter.simps(1) paired_blocks_def)
  assume "stripCorruptServerResults j = Some j'"
  then have "msg_view j' = Some (r, ?kept)"
    using strip_corrupt_view [OF v(1)] by (auto split: if_splits)
  moreover have "list_all proper_block ?kept" using v(2) by (auto simp: list_all_iff)
  ultimately show "proper_message j' \<and> role_of j' = role_of j \<and> paired_blocks j' = paired_blocks j"
    using view_simps [OF v(1)] view_simps [of j'] p by (auto simp: proper_message_iff paired_blocks_def)
qed

interpretation citations_stage: message_stage "\<lambda>j. Some (stripCitationsFromMessage j)"
proof unfold_locales
  fix j j'
  assume "proper_message j" and s: "Some (stripCitationsFromMessage j) = Some j'"
  then obtain r bs where v: "msg_view j = Some (r, bs)" "list_all proper_block bs"
    by (auto simp: proper_message_iff)
  from strip_citations_view [OF v(1)] s have "msg_view j' = Some (r, map clean bs)" by simp
  moreover have "list_all proper_block (map clean bs)" using v(2) clean_proper by (auto simp: list_all_iff)
  ultimately show "proper_message j' \<and> role_of j' = role_of j \<and> paired_blocks j' = paired_blocks j"
    using view_simps [OF v(1)] view_simps [of j'] paired_map_clean [OF v(2)]
    by (auto simp: proper_message_iff paired_blocks_def)
qed simp

interpretation thinking_stage: message_stage "\<lambda>j. Some (stripUnusableThinking j)"
proof unfold_locales
  fix j j'
  assume "proper_message j" and s: "Some (stripUnusableThinking j) = Some j'"
  then obtain r bs where v: "msg_view j = Some (r, bs)" "list_all proper_block bs"
    by (auto simp: proper_message_iff)
  from strip_thinking_view [OF v(1)] s have "msg_view j' = Some (r, usable bs)" by simp
  moreover have "list_all proper_block (usable bs)" using v(2) usable_sub by (auto simp: list_all_iff)
  ultimately show "proper_message j' \<and> role_of j' = role_of j \<and> paired_blocks j' = paired_blocks j"
    using view_simps [OF v(1)] view_simps [of j'] paired_filter_usable
    by (auto simp: proper_message_iff paired_blocks_def)
qed simp

interpretation clean_stages:
  two_stages "\<lambda>j. Some (stripCitationsFromMessage j)" "\<lambda>j. Some (stripUnusableThinking j)"
  by unfold_locales

interpretation load_stages:
  two_stages stripCorruptServerResults
    "\<lambda>j. Option.bind (Some (stripCitationsFromMessage j)) (\<lambda>j. Some (stripUnusableThinking j))"
  by unfold_locales

lemma sanitize_message_stages:
  "sanitize_message = (\<lambda>j. Option.bind (stripCorruptServerResults j)
     (\<lambda>j. Option.bind (Some (stripCitationsFromMessage j)) (\<lambda>j. Some (stripUnusableThinking j))))"
  by (auto simp: sanitize_message_def map_option_case split: option.split)

lemma usable_all_or_none:
  "list_all (\<lambda>b. \<not> unusable_thinking b) (usable xs) \<or> list_all unusable_thinking (usable xs)"
  by (auto simp: usable_def Let_def list_all_iff filter_empty_conv)

section \<open>Properties\<close>

text \<open>C37. What loading does to tool calls: cleaning a history message by message loses no client-side
  \<open>tool_use\<close> or \<open>tool_result\<close> block and adds none, so the pairing between messages survives, and every
  message kept has its role.\<close>

theorem loading_keeps_tool_pairing:
  assumes "list_all proper_message hs"
  shows "concat (map paired_blocks (List.map_filter sanitize_message hs)) = concat (map paired_blocks hs) \<and>
    list_all proper_message (List.map_filter sanitize_message hs)"
  using load_stages.both.history_pairing [OF assms] load_stages.both.history_proper [OF assms]
  unfolding sanitize_message_stages by blast

definition sample_use :: json where
  "sample_use = JObj [(''type'', JStr ''tool_use''), (''id'', JStr ''u1''), (''name'', JStr ''message_tool''), (''input'', JObj [])]"

definition sample_corrupt :: json where
  "sample_corrupt = JObj [(''type'', JStr ''web_search_tool_result''), (''tool_use_id'', JStr ''s1''),
     (''content'', JObj [(''OfWebSearchResultBlockArray'', JNull)])]"

definition sample_call :: json where
  "sample_call = JObj [(''type'', JStr ''server_tool_use''), (''id'', JStr ''s1''), (''text'', JStr [])]"

definition sample_message :: json where
  "sample_message = JObj [(''content'', JArr [sample_call, sample_corrupt, sample_use]), (''role'', JStr ''assistant'')]"

theorem loading_keeps_tool_pairing_witness:
  "concat (map paired_blocks (List.map_filter sanitize_message [sample_message])) = [sample_use] \<and>
   list_all proper_message (List.map_filter sanitize_message [sample_message])"
proof -
  have "list_all proper_message [sample_message]" "concat (map paired_blocks [sample_message]) = [sample_use]"
    by code_simp+
  with loading_keeps_tool_pairing [of "[sample_message]"] show ?thesis by simp
qed

text \<open>A message that is kept is acceptable: it has blocks, none of them a corrupt server result; its
  \<open>server_tool_use\<close> blocks have only the fields the API accepts; and either every thinking block is
  usable or no other block was left.\<close>

theorem kept_message_is_acceptable:
  assumes "proper_message j" "sanitize_message j = Some j'"
  shows "role_of j' = role_of j \<and> blocks_of j' \<noteq> [] \<and> \<not> list_ex corrupt_block (blocks_of j') \<and>
    (list_all (\<lambda>b. \<not> unusable_thinking b) (blocks_of j') \<or> list_all unusable_thinking (blocks_of j'))"
proof -
  obtain r bs where v: "msg_view j = Some (r, bs)" "list_all proper_block bs"
    using assms(1) by (auto simp: proper_message_iff)
  let ?kept = "filter (\<lambda>b. \<not> corrupt_block b \<and> \<not> orphaned_call (orphaned_ids bs) b) bs"
  have ne: "?kept \<noteq> []" and v': "msg_view j' = Some (r, usable (map clean ?kept))"
    using sanitize_message_view [OF v(1)] assms(2) by (auto split: if_splits)
  let ?U = "usable (map clean ?kept)"
  have "\<not> corrupt_block b" if b: "b \<in> set ?U" for b
  proof -
    from b usable_sub obtain c where "c \<in> set bs" "\<not> corrupt_block c" "b = clean c" by fastforce
    then show ?thesis using clean_not_corrupt v(2) by (auto simp: list_all_iff)
  qed
  then have "\<not> list_ex corrupt_block ?U" unfolding list_ex_iff by blast
  moreover have "?U \<noteq> []" using ne usable_ne by simp
  moreover have "list_all (\<lambda>b. \<not> unusable_thinking b) ?U \<or> list_all unusable_thinking ?U"
    by (rule usable_all_or_none)
  moreover have "role_of j' = role_of j" "blocks_of j' = ?U"
    using view_simps [OF v(1)] view_simps [OF v'] by simp_all
  ultimately show ?thesis by simp
qed

theorem kept_message_is_acceptable_witness:
  "\<exists>j'. sanitize_message sample_message = Some j' \<and> \<not> list_ex corrupt_block (blocks_of j')"
proof -
  have p: "proper_message sample_message" by code_simp
  have "\<not> Option.is_none (sanitize_message sample_message)" by code_simp
  then obtain j' where j': "sanitize_message sample_message = Some j'"
    by (cases "sanitize_message sample_message") auto
  show ?thesis using kept_message_is_acceptable [OF p j'] j' by blast
qed

text \<open>Where a loaded history starts: it is the rest of the cleaned messages from the first one that
  can open a conversation, a user message without tool results; only messages before it are dropped.\<close>

theorem loaded_history_starts_with_request:
  "\<exists>n. sanitize_history hs = drop n (List.map_filter sanitize_message hs) \<and>
     \<not> list_ex opens_conversation (take n (List.map_filter sanitize_message hs)) \<and>
     (sanitize_history hs = [] \<or> opens_conversation (hd (sanitize_history hs)))"
proof -
  let ?xs = "List.map_filter sanitize_message hs" and ?P = "\<lambda>m. \<not> opens_conversation m"
  let ?n = "length (takeWhile ?P ?xs)"
  have s: "sanitize_history hs = dropWhile ?P ?xs"
    by (simp add: sanitize_history_def trimOrphanedLeadingMessagesRaw_def)
  have "dropWhile ?P ?xs = drop ?n ?xs" by (rule dropWhile_eq_drop)
  moreover have "\<not> list_ex opens_conversation (take ?n ?xs)"
    unfolding takeWhile_eq_take [symmetric] by (auto simp: list_ex_iff dest: set_takeWhileD)
  moreover have "dropWhile ?P ?xs = [] \<or> opens_conversation (hd (dropWhile ?P ?xs))"
    using hd_dropWhile [of ?P ?xs] by blast
  ultimately show ?thesis unfolding s by metis
qed

text \<open>The fields of a server tool use that is sent back are those the API accepts.\<close>

theorem server_tool_use_fields:
  assumes "proper_message j" "b \<in> set (blocks_of (stripCitationsFromMessage j))"
    "peek_str ''type'' b = Some ''server_tool_use''"
  shows "\<exists>ms. b = JObj ms \<and> fst ` set ms \<subseteq> set serverToolUseAllowedFields"
proof -
  obtain r bs where v: "msg_view j = Some (r, bs)" "list_all proper_block bs"
    using assms(1) by (auto simp: proper_message_iff)
  have "blocks_of (stripCitationsFromMessage j) = map clean bs"
    using strip_citations_view [OF v(1)] view_simps by blast
  with assms(2) obtain c where c: "c \<in> set bs" "b = clean c" by auto
  have p: "proper_block c" using c v(2) by (auto simp: list_all_iff)
  then obtain ms where ms: "c = JObj ms" by (cases c) auto
  have ty: "peek_str ''type'' c = Some ''server_tool_use''" using assms(3) c clean_type [OF p] by simp
  show ?thesis
    using c ms ty p
    by (auto simp: clean_def clean_block_def marshal_map_def dedup_members_distinct Let_def list_all_iff
             split: option.splits if_splits)
qed

end
