(* ===== verification/Keyed_Store.thy ===== *)
theory Keyed_Store
  imports Prelude
begin

text \<open>
  The interface shared by the three stores of the program that keep one value per key: the snooze
  file (one scheduled task and one watchdog per thread), the memory directory (one file per thread)
  and the thread index (one root per conversation and subject).  \<open>lookup\<close> and \<open>put\<close> are the
  operations the clients call; the laws are what they rely on.
\<close>

locale keyed_store =
  fixes inv :: "'s \<Rightarrow> bool"
    and admissible :: "'v \<Rightarrow> bool"
    and key :: "'v \<Rightarrow> 'k"
    and lookup :: "'k \<Rightarrow> 's \<Rightarrow> 'v option"
    and put :: "'v \<Rightarrow> 's \<Rightarrow> 's"
  assumes inv_put: "inv s \<Longrightarrow> admissible v \<Longrightarrow> inv (put v s)"
    and lookup_put_same: "inv s \<Longrightarrow> admissible v \<Longrightarrow> lookup (key v) (put v s) = Some v"
    and lookup_put_other:
      "inv s \<Longrightarrow> admissible v \<Longrightarrow> k \<noteq> key v \<Longrightarrow> lookup k (put v s) = lookup k s"
begin

lemma lookup_put:
  "inv s \<Longrightarrow> admissible v \<Longrightarrow> lookup k (put v s) = (if k = key v then Some v else lookup k s)"
  by (simp add: lookup_put_same lookup_put_other)

lemma inv_fold_put: "inv s \<Longrightarrow> (\<And>v. v \<in> set vs \<Longrightarrow> admissible v) \<Longrightarrow> inv (fold put vs s)"
  by (induction vs arbitrary: s) (simp_all add: inv_put)

text \<open>After a series of puts a key holds the last value put under it.\<close>

lemma lookup_fold_put:
  assumes "inv s" "\<And>v. v \<in> set vs \<Longrightarrow> admissible v"
  shows "lookup k (fold put vs s) =
    (case find (\<lambda>v. key v = k) (rev vs) of Some v \<Rightarrow> Some v | None \<Rightarrow> lookup k s)"
  using assms
proof (induction vs rule: rev_induct)
  case Nil
  then show ?case by simp
next
  case (snoc v vs)
  have "inv (fold put vs s)" by (rule inv_fold_put) (use snoc.prems in auto)
  with snoc show ?case by (auto simp: lookup_put)
qed

lemma put_overwrites:
  assumes "inv s" "admissible v" "admissible w" "key w = key v"
  shows "lookup k (put w (put v s)) = lookup k (put w s)"
  using assms by (simp add: lookup_put inv_put)

lemma put_commutes:
  assumes "inv s" "admissible v" "admissible w" "key w \<noteq> key v"
  shows "lookup k (put w (put v s)) = lookup k (put v (put w s))"
  using assms by (auto simp: lookup_put inv_put)

end

end
