(* ===== verification/Threads.thy ===== *)
theory Threads
  imports Mail_Transport Memory_Json Keyed_Store
begin

text \<open>
  The memory of a thread and the way to it: the memory files of \<open>internal/services/memory.go\<close>, one per
  thread root, and the index of \<open>internal/services/thread_index.go\<close> from an Outlook conversation and
  a subject to a root.  Both live in the memory directory.  \<open>sdk\<close> is the marshalling of a message by
  the provider's SDK; it fails when a tool input is not valid JSON.  A write of a file can fail before
  the directory exists, before the file is opened, or half-way (the file is then not decodable); the
  outcomes of the coming writes are part of the state.
\<close>

section \<open>State\<close>

record memory =
  meThreadRoot :: string
  meHistory :: "message list"
  meStatus :: string
  meUpdated :: "gotime option"

text \<open>The decoded contents of a memory file.\<close>

record raw_memory =
  rmThreadRoot :: string
  rmHistory :: "json list"
  rmStatus :: string
  rmUpdated :: "gotime option"

datatype write_fault = MkdirFails goerror | OpenFails goerror | PartialWrite goerror

text \<open>An index file that is present but cannot be decoded is \<open>Stored None\<close>.\<close>

record memory_dir =
  mdFiles :: "string \<Rightarrow> raw_memory fsfile"
  mdIndex :: "(string \<times> string) list option fsfile"
  mdFaults :: "write_fault option list"

type_synonym sdk = "mrole \<Rightarrow> block list \<Rightarrow> json result"

definition status_waiting :: string where "status_waiting = ''waiting''"
definition status_complete :: string where "status_complete = ''complete''"
definition status_error :: string where "status_error = ''error''"
definition status_admin_review :: string where "status_admin_review = ''admin_review''"

section \<open>File names\<close>

definition strip_brackets :: "string \<Rightarrow> string" where
  "strip_brackets i = trim_prefix ''<'' (trim_suffix ''>'' i)"

definition msgIDToFilename :: "string \<Rightarrow> string" where
  "msgIDToFilename i = PathEscape (strip_brackets i) @ ''.json''"

definition file_base :: "string \<Rightarrow> string" where
  "file_base path =
     (let t = trim_right (\<lambda>c. c = CHR ''/'') path
      in if path = [] then ''.'' else if t = [] then ''/''
         else case last_index_char (CHR ''/'') t of None \<Rightarrow> t | Some i \<Rightarrow> drop (i + 1) t)"

definition filenameToMsgID :: "string \<Rightarrow> string result" where
  "filenameToMsgID filename =
     (let base = file_base filename; name = trim_suffix (file_ext base) base
      in case PathUnescape name of
           None \<Rightarrow> Inl (Err ''invalid URL escape'')
         | Some s \<Rightarrow> Inr (''<'' @ s @ ''>''))"

section \<open>Memory files\<close>

definition load_memory :: "raw_memory \<Rightarrow> memory" where
  "load_memory r = \<lparr>meThreadRoot = rmThreadRoot r, meHistory = map Wrapped (sanitize_history (rmHistory r)),
     meStatus = rmStatus r, meUpdated = rmUpdated r\<rparr>"

definition GetMemory :: "memory_dir \<Rightarrow> string \<Rightarrow> memory result" where
  "GetMemory d threadRoot =
     (case mdFiles d (msgIDToFilename threadRoot) of
        Absent \<Rightarrow> Inl ErrMemoryNotFound
      | Unreadable e \<Rightarrow> Inl e
      | Stored r \<Rightarrow> Inr (load_memory r))"

fun toolUseInputValid :: "tool_input \<Rightarrow> bool" where
  "toolUseInputValid InNil = True"
| "toolUseInputValid (InRaw r) = (let t = trim_space r in t \<noteq> [] \<and> json_valid t)"
| "toolUseInputValid (InBytes b) = (let t = trim_space b in t \<noteq> [] \<and> json_valid t)"
| "toolUseInputValid (InValue v) = True"

fun repair_block :: "block \<Rightarrow> block" where
  "repair_block (BToolUse i n inp) =
     (if toolUseInputValid inp then BToolUse i n inp else BToolUse i n (InRaw ''{}''))"
| "repair_block b = b"

fun repair_message :: "message \<Rightarrow> message" where
  "repair_message (Fresh r bs) = Fresh r (map repair_block bs)"
| "repair_message (Wrapped j) = Wrapped j"

fun needs_repair :: "block \<Rightarrow> bool" where
  "needs_repair (BToolUse i n inp) = (\<not> toolUseInputValid inp)"
| "needs_repair b = False"

definition sanitizeHistoryRawJSON :: "message list \<Rightarrow> message list option" where
  "sanitizeHistoryRawJSON history =
     (if list_ex (\<lambda>m. list_ex needs_repair (msg_blocks m)) history
      then Some (map repair_message history) else None)"

fun marshal_message :: "sdk \<Rightarrow> message \<Rightarrow> json result" where
  "marshal_message sdk (Fresh r bs) = sdk r bs"
| "marshal_message sdk (Wrapped j) = Inr j"

fun marshal_history :: "sdk \<Rightarrow> message list \<Rightarrow> json list result" where
  "marshal_history sdk [] = Inr []"
| "marshal_history sdk (m # ms) =
     and_then (marshal_message sdk m) (\<lambda>j. and_then (marshal_history sdk ms) (\<lambda>js. Inr (j # js)))"

definition raw_of :: "memory \<Rightarrow> json list \<Rightarrow> raw_memory" where
  "raw_of m hs = \<lparr>rmThreadRoot = meThreadRoot m, rmHistory = hs, rmStatus = meStatus m, rmUpdated = meUpdated m\<rparr>"

text \<open>The history that is marshalled, which the repair replaces in the caller's memory, and its JSON.\<close>

definition marshal_memory :: "sdk \<Rightarrow> memory \<Rightarrow> json list result \<times> memory" where
  "marshal_memory sdk m =
     (case marshal_history sdk (meHistory m) of
        Inr hs \<Rightarrow> (Inr hs, m)
      | Inl e \<Rightarrow>
          (case sanitizeHistoryRawJSON (meHistory m) of
             Some cleaned \<Rightarrow>
               (wrap_err ''memory marshal failed even after sanitization: '' (marshal_history sdk cleaned),
                m\<lparr>meHistory := cleaned\<rparr>)
           | None \<Rightarrow> (Inl (Wrap ''memory marshal failed even after sanitization: '' e []), m)))"

definition next_fault :: "memory_dir \<Rightarrow> write_fault option \<times> memory_dir" where
  "next_fault d = (case mdFaults d of [] \<Rightarrow> (None, d) | f # fs \<Rightarrow> (f, d\<lparr>mdFaults := fs\<rparr>))"

definition put_file :: "raw_memory \<Rightarrow> (string \<Rightarrow> raw_memory fsfile) \<Rightarrow> string \<Rightarrow> raw_memory fsfile" where
  "put_file r files = files(msgIDToFilename (rmThreadRoot r) := Stored r)"

definition truncated_json :: goerror where
  "truncated_json = Err ''unexpected end of JSON input''"

definition SaveMemory :: "sdk \<Rightarrow> memory \<Rightarrow> memory_dir \<Rightarrow> (unit result \<times> memory) \<times> memory_dir" where
  "SaveMemory sdk m d =
     (case next_fault d of (f, d1) \<Rightarrow>
        (case f of
           Some (MkdirFails e) \<Rightarrow> ((Inl e, m), d1)
         | _ \<Rightarrow>
             (case marshal_memory sdk m of
                (Inl e, m1) \<Rightarrow> ((Inl e, m1), d1)
              | (Inr hs, m1) \<Rightarrow>
                  (case f of
                     Some (OpenFails e) \<Rightarrow> ((Inl e, m1), d1)
                   | Some (PartialWrite e) \<Rightarrow>
                       ((Inl e, m1), d1\<lparr>mdFiles := (mdFiles d1)(msgIDToFilename (meThreadRoot m1) := Unreadable truncated_json)\<rparr>)
                   | _ \<Rightarrow> ((Inr (), m1), d1\<lparr>mdFiles := put_file (raw_of m1 hs) (mdFiles d1)\<rparr>)))))"

section \<open>Operations on a thread's memory\<close>

definition memory_or_new :: "memory_dir \<Rightarrow> string \<Rightarrow> memory result" where
  "memory_or_new d root =
     (case GetMemory d root of
        Inr m \<Rightarrow> Inr m
      | Inl e \<Rightarrow>
          if err_is e ErrMemoryNotFound
          then Inr \<lparr>meThreadRoot = root, meHistory = [], meStatus = [], meUpdated = None\<rparr>
          else Inl e)"

definition SetMemoryStatus ::
  "sdk \<Rightarrow> fetch \<Rightarrow> gotime \<Rightarrow> string \<Rightarrow> string \<Rightarrow> memory_dir \<Rightarrow> unit result \<times> memory_dir" where
  "SetMemoryStatus sdk get now status messageId d =
     (case and_then (first_email get messageId) (\<lambda>e. memory_or_new d (GetThreadRoot e)) of
        Inl e \<Rightarrow> (Inl e, d)
      | Inr m \<Rightarrow> apfst fst (SaveMemory sdk (m\<lparr>meStatus := status, meUpdated := Some now\<rparr>) d))"

definition SaveMemoryHistory ::
  "sdk \<Rightarrow> fetch \<Rightarrow> message list \<Rightarrow> string \<Rightarrow> memory_dir \<Rightarrow> unit result \<times> memory_dir" where
  "SaveMemoryHistory sdk get history messageId d =
     (case and_then (first_email get messageId)
             (\<lambda>e. wrap_err ''error getting memory: '' (memory_or_new d (GetThreadRoot e))) of
        Inl e \<Rightarrow> (Inl e, d)
      | Inr m \<Rightarrow> apfst fst (SaveMemory sdk (m\<lparr>meHistory := history\<rparr>) d))"

definition MemoryFromReferences ::
  "sdk \<Rightarrow> converters \<Rightarrow> fetch \<Rightarrow> string list \<Rightarrow> memory_dir \<Rightarrow> memory option result \<times> memory_dir" where
  "MemoryFromReferences sdk cv get refs d =
     (case get refs of
        Inl e \<Rightarrow> (Inl (Wrap ''fetching referenced emails: '' e []), d)
      | Inr [] \<Rightarrow> (Inr None, d)
      | Inr (e # es) \<Rightarrow>
          let root = GetThreadRoot e;
              m = \<lparr>meThreadRoot = root, meHistory = map (UserMessage cv) (e # es), meStatus = [], meUpdated = None\<rparr>
          in (case SaveMemory sdk m d of
                ((Inl err, m1), d1) \<Rightarrow> (Inl (Wrap (''saving memory for thread '' @ root @ '': '') err []), d1)
              | ((Inr _, m1), d1) \<Rightarrow> (Inr (Some m1), d1)))"

definition ClearStatus :: "memory \<Rightarrow> memory" where
  "ClearStatus m = m\<lparr>meStatus := [], meUpdated := None\<rparr>"

definition StatusSince :: "gotime \<Rightarrow> memory option \<Rightarrow> string" where
  "StatusSince t p =
     (case p of
        None \<Rightarrow> []
      | Some m \<Rightarrow>
          (case meUpdated m of
             None \<Rightarrow> []
           | Some u \<Rightarrow> if tm_before u t then [] else meStatus m))"

definition AddMessage :: "message list \<Rightarrow> memory \<Rightarrow> memory" where
  "AddMessage ms m = m\<lparr>meHistory := meHistory m @ ms\<rparr>"

section \<open>The thread index\<close>

definition loadThreadIndex :: "memory_dir \<Rightarrow> (string \<times> string) list result" where
  "loadThreadIndex d =
     (case mdIndex d of
        Absent \<Rightarrow> Inr []
      | Unreadable e \<Rightarrow> Inl e
      | Stored None \<Rightarrow> Inr []
      | Stored (Some idx) \<Rightarrow> Inr idx)"

definition saveThreadIndex :: "(string \<times> string) list \<Rightarrow> (memory_dir, unit) io" where
  "saveThreadIndex idx d =
     (case next_fault d of (f, d1) \<Rightarrow>
        (case f of
           None \<Rightarrow> (Inr (), d1\<lparr>mdIndex := Stored (Some idx)\<rparr>)
         | Some (MkdirFails e) \<Rightarrow> (Inl e, d1)
         | Some (OpenFails e) \<Rightarrow> (Inl e, d1)
         | Some (PartialWrite e) \<Rightarrow> (Inl e, d1\<lparr>mdIndex := Stored None\<rparr>)))"

definition threadIndexKey :: "string \<Rightarrow> string \<Rightarrow> string" where
  "threadIndexKey convID subject = (if convID = [] then [] else convID @ ''|'' @ NormalizeSubject subject)"

text \<open>A missing key of a Go map reads as the empty string.\<close>

definition index_get :: "string \<Rightarrow> (string \<times> string) list \<Rightarrow> string" where
  "index_get k idx = (case map_of idx k of Some r \<Rightarrow> r | None \<Rightarrow> [])"

definition RememberThreadIndex :: "string \<Rightarrow> string \<Rightarrow> string \<Rightarrow> (memory_dir, unit) io" where
  "RememberThreadIndex convID subject root d =
     (let k = threadIndexKey convID subject
      in if k = [] \<or> root = [] then (Inr (), d)
         else case loadThreadIndex d of
                Inl e \<Rightarrow> (Inl e, d)
              | Inr idx \<Rightarrow>
                  if index_get k idx = root then (Inr (), d)
                  else saveThreadIndex (AList.update k root idx) d)"

definition LookupThreadRoot :: "string \<Rightarrow> string \<Rightarrow> memory_dir \<Rightarrow> string result" where
  "LookupThreadRoot convID subject d =
     (let k = threadIndexKey convID subject
      in if k = [] then Inr []
         else and_then (loadThreadIndex d) (\<lambda>idx. Inr (index_get k idx)))"

definition index_subject :: "email \<Rightarrow> string" where
  "index_subject e = (if eThreadTopic e = [] then eSubject e else eThreadTopic e)"

text \<open>The lookup through the index, when the primary root has no memory.\<close>

definition resolve_by_index :: "email \<Rightarrow> memory_dir \<Rightarrow> string result" where
  "resolve_by_index e d =
     (let primary = GetThreadRoot e
      in if eThreadIndexConvID e = [] then Inr primary
         else case LookupThreadRoot (eThreadIndexConvID e) (index_subject e) d of
                Inl x \<Rightarrow> Inl x
              | Inr root \<Rightarrow>
                  if root = [] then Inr primary
                  else case GetMemory d root of
                         Inr m \<Rightarrow> Inr root
                       | Inl x \<Rightarrow>
                           if err_is x ErrMemoryNotFound then Inr primary
                           else Inl (Wrap ''memory lookup (resolved): '' x []))"

definition ResolveThreadRoot :: "email \<Rightarrow> memory_dir \<Rightarrow> string result" where
  "ResolveThreadRoot e d =
     (let primary = GetThreadRoot e
      in if primary = [] then resolve_by_index e d
         else case GetMemory d primary of
                Inr m \<Rightarrow> Inr primary
              | Inl x \<Rightarrow>
                  if err_is x ErrMemoryNotFound then resolve_by_index e d
                  else Inl (Wrap ''memory lookup: '' x []))"

text \<open>
  \<open>statFails\<close> marks the files whose \<open>stat\<close> fails for another reason than absence.  The result is the
  number of entries kept and pruned, and the outcome.
\<close>

definition stale_entry :: "(string \<Rightarrow> bool) \<Rightarrow> memory_dir \<Rightarrow> string \<Rightarrow> bool" where
  "stale_entry statFails d root \<longleftrightarrow>
     (let name = msgIDToFilename root
      in \<not> statFails name \<and> (case mdFiles d name of Absent \<Rightarrow> True | _ \<Rightarrow> False))"

definition PruneThreadIndex ::
  "(string \<Rightarrow> bool) \<Rightarrow> memory_dir \<Rightarrow> (nat \<times> nat \<times> unit result) \<times> memory_dir" where
  "PruneThreadIndex statFails d =
     (case loadThreadIndex d of
        Inl e \<Rightarrow> ((0, 0, Inl e), d)
      | Inr idx \<Rightarrow>
          if idx = [] then ((0, 0, Inr ()), d)
          else let kept = filter (\<lambda>(k, root). \<not> stale_entry statFails d root) idx;
                   pruned = length idx - length kept
               in if pruned = 0 then ((length kept, 0, Inr ()), d)
                  else case saveThreadIndex kept d of (r, d') \<Rightarrow> ((length kept, pruned, r), d'))"

section \<open>File names\<close>

lemma last_index_append: "d \<notin> set b \<Longrightarrow> last_index_char d (a @ d # b) = Some (length a)"
proof -
  assume d: "d \<notin> set b"
  have "index_char d (u @ d # v) = Some (length u)" if "d \<notin> set u" for u v
    using that by (induction u) auto
  from this [of "rev b" "rev a"] d show ?thesis by (simp add: last_index_char_def)
qed

lemma last_index_None: "d \<notin> set s \<Longrightarrow> last_index_char d s = None"
  by (simp add: last_index_char_def index_char_None_iff)

lemma file_name_no_slash: "CHR ''/'' \<notin> set (msgIDToFilename i)"
  using PathEscape_no_slash by (simp add: msgIDToFilename_def)

lemma file_base_name: "file_base (msgIDToFilename i) = msgIDToFilename i"
proof -
  have ne: "msgIDToFilename i \<noteq> []" by (simp add: msgIDToFilename_def)
  have "trim_right (\<lambda>c. c = CHR ''/'') (msgIDToFilename i) = msgIDToFilename i"
    by (rule trim_right_id) (use ne in \<open>metis file_name_no_slash last_in_set\<close>)+
  then show ?thesis using ne file_name_no_slash by (simp add: file_base_def last_index_None)
qed

lemma file_ext_name: "file_ext (msgIDToFilename i) = ''.json''"
proof -
  have "last_index_char (CHR ''.'') (msgIDToFilename i) = Some (length (PathEscape (strip_brackets i)))"
    using last_index_append [of "CHR ''.''" "''json''" "PathEscape (strip_brackets i)"]
    by (simp add: msgIDToFilename_def)
  then show ?thesis by (simp add: file_ext_def msgIDToFilename_def)
qed

lemma filenameToMsgID_msgIDToFilename: "filenameToMsgID (msgIDToFilename i) = Inr (''<'' @ strip_brackets i @ ''>'')"
proof -
  have "trim_suffix ''.json'' (msgIDToFilename i) = PathEscape (strip_brackets i)"
    by (simp add: msgIDToFilename_def)
  then show ?thesis
    by (simp add: filenameToMsgID_def file_base_name file_ext_name PathUnescape_PathEscape)
qed

lemma msgIDToFilename_eq_iff: "msgIDToFilename a = msgIDToFilename b \<longleftrightarrow> strip_brackets a = strip_brackets b"
  by (simp add: msgIDToFilename_def inj_PathEscape)

lemma strip_brackets_bracketed [simp]: "strip_brackets (''<'' @ s @ ''>'') = s"
proof -
  have "trim_suffix ''>'' ((''<'' @ s) @ ''>'') = ''<'' @ s" by (rule trim_suffix_append)
  then show ?thesis by (simp add: strip_brackets_def trim_prefix_def)
qed

section \<open>The directory as a keyed store\<close>

definition file_memory :: "string \<Rightarrow> (string \<Rightarrow> raw_memory fsfile) \<Rightarrow> raw_memory option" where
  "file_memory name files = (case files name of Stored r \<Rightarrow> Some r | _ \<Rightarrow> None)"

definition file_key :: "raw_memory \<Rightarrow> string" where
  "file_key r = msgIDToFilename (rmThreadRoot r)"

interpretation memory_files: keyed_store "\<lambda>files. True" "\<lambda>r. True" file_key file_memory put_file
  by unfold_locales (auto simp: file_key_def file_memory_def put_file_def)

definition index_lookup :: "string \<Rightarrow> (string \<times> string) list \<Rightarrow> (string \<times> string) option" where
  "index_lookup k idx = map_option (Pair k) (map_of idx k)"

definition index_put :: "string \<times> string \<Rightarrow> (string \<times> string) list \<Rightarrow> (string \<times> string) list" where
  "index_put p idx = AList.update (fst p) (snd p) idx"

interpretation index_entries: keyed_store "\<lambda>idx. True" "\<lambda>p. snd p \<noteq> []" fst index_lookup index_put
  by unfold_locales (auto simp: index_lookup_def index_put_def AList.update_conv')

lemma index_get_lookup: "index_get k idx = (case index_lookup k idx of Some (k', r) \<Rightarrow> r | None \<Rightarrow> [])"
  by (auto simp: index_get_def index_lookup_def split: option.split)

lemma index_get_put:
  "r \<noteq> [] \<Longrightarrow> index_get k (AList.update k' r idx) = (if k = k' then r else index_get k idx)"
  using index_entries.lookup_put [where v = "(k', r)" and s = idx and k = k]
  by (auto simp: index_get_lookup index_put_def)

section \<open>Saving\<close>

text \<open>Every file holds the memory of the root it is named after.\<close>

definition dir_wf :: "memory_dir \<Rightarrow> bool" where
  "dir_wf d \<longleftrightarrow> (\<forall>name r. mdFiles d name = Stored r \<longrightarrow> file_key r = name)"

lemma next_fault_files [simp]:
  "mdFiles (snd (next_fault d)) = mdFiles d" "mdIndex (snd (next_fault d)) = mdIndex d"
  by (simp_all add: next_fault_def split: list.split)

lemma marshal_Wrapped: "marshal_history sdk (map Wrapped js) = Inr js"
  by (induction js) auto

lemma GetMemory_Inr: "GetMemory d root = Inr m \<longleftrightarrow>
    (\<exists>r. mdFiles d (msgIDToFilename root) = Stored r \<and> m = load_memory r)"
  by (auto simp: GetMemory_def split: fsfile.splits)

lemma marshal_memory_fields:
  "marshal_memory sdk m = (r, m') \<Longrightarrow> meThreadRoot m' = meThreadRoot m \<and> meStatus m' = meStatus m \<and> meUpdated m' = meUpdated m"
  by (auto simp: marshal_memory_def split: sum.splits option.splits)

lemma SaveMemory_Inr:
  assumes "SaveMemory sdk m d = ((Inr (), m1), d')"
  shows "\<exists>hs. marshal_memory sdk m = (Inr hs, m1) \<and> mdFiles d' = put_file (raw_of m1 hs) (mdFiles d) \<and>
    mdIndex d' = mdIndex d"
proof -
  obtain f d1 where f: "next_fault d = (f, d1)" by force
  then have d1: "mdFiles d1 = mdFiles d" "mdIndex d1 = mdIndex d"
    using next_fault_files [of d] by simp_all
  from assms f show ?thesis
    by (cases f) (auto simp: SaveMemory_def d1 [symmetric] split: write_fault.splits prod.splits sum.splits)
qed

lemma SaveMemory_other_files:
  assumes "name \<noteq> msgIDToFilename (meThreadRoot m)"
  shows "mdFiles (snd (SaveMemory sdk m d)) name = mdFiles d name"
proof -
  obtain f d1 where f: "next_fault d = (f, d1)" by force
  then have d1: "mdFiles d1 = mdFiles d" using next_fault_files [of d] by simp
  obtain r m1 where m1: "marshal_memory sdk m = (r, m1)" by force
  from marshal_memory_fields [OF this] assms f m1 d1 show ?thesis
    by (auto simp: SaveMemory_def put_file_def raw_of_def split: option.split write_fault.split sum.split)
qed

lemma SaveMemory_wf: "dir_wf d \<Longrightarrow> dir_wf (snd (SaveMemory sdk m d))"
proof -
  assume wf: "dir_wf d"
  obtain f d1 where f: "next_fault d = (f, d1)" by force
  then have d1: "mdFiles d1 = mdFiles d" using next_fault_files [of d] by simp
  obtain r m1 where m1: "marshal_memory sdk m = (r, m1)" by force
  from wf f m1 d1 show ?thesis
    by (auto simp: SaveMemory_def dir_wf_def put_file_def file_key_def split: option.split write_fault.split sum.split)
qed


lemma memory_or_new_Inr:
  assumes "memory_or_new d root = Inr m" "dir_wf d"
  shows "msgIDToFilename (meThreadRoot m) = msgIDToFilename root \<and>
    (case mdFiles d (msgIDToFilename root) of
       Stored r \<Rightarrow> m = load_memory r
     | _ \<Rightarrow> meHistory m = [] \<and> meStatus m = [] \<and> meUpdated m = None)"
  using assms
  by (fastforce simp: memory_or_new_def GetMemory_def load_memory_def dir_wf_def file_key_def
      split: fsfile.splits if_splits)

text \<open>The JSON that a save of the memory of a root stores again: what loading kept of it.\<close>

definition kept_history :: "memory_dir \<Rightarrow> string \<Rightarrow> json list" where
  "kept_history d root =
     (case mdFiles d (msgIDToFilename root) of Stored r \<Rightarrow> sanitize_history (rmHistory r) | _ \<Rightarrow> [])"

definition kept_status :: "memory_dir \<Rightarrow> string \<Rightarrow> string \<times> gotime option" where
  "kept_status d root =
     (case mdFiles d (msgIDToFilename root) of Stored r \<Rightarrow> (rmStatus r, rmUpdated r) | _ \<Rightarrow> ([], None))"

lemma memory_or_new_history:
  "memory_or_new d root = Inr m \<Longrightarrow> meHistory m = map Wrapped (kept_history d root) \<and>
     (meStatus m, meUpdated m) = kept_status d root"
  by (auto simp: memory_or_new_def GetMemory_def load_memory_def kept_history_def kept_status_def
      split: fsfile.splits if_splits)

lemma SetMemoryStatus_Inr:
  assumes "SetMemoryStatus sdk get now status messageId d = (Inr (), d')" "dir_wf d"
  shows "\<exists>e r. first_email get messageId = Inr e \<and>
    mdFiles d' = (mdFiles d)(msgIDToFilename (GetThreadRoot e) := Stored r) \<and>
    rmStatus r = status \<and> rmUpdated r = Some now \<and> rmHistory r = kept_history d (GetThreadRoot e) \<and>
    file_key r = msgIDToFilename (GetThreadRoot e)"
proof -
  from assms(1) obtain e m where e: "first_email get messageId = Inr e" and m: "memory_or_new d (GetThreadRoot e) = Inr m"
    and s: "apfst fst (SaveMemory sdk (m\<lparr>meStatus := status, meUpdated := Some now\<rparr>) d) = (Inr (), d')"
    by (auto simp: SetMemoryStatus_def and_then_def split: sum.splits)
  let ?m = "m\<lparr>meStatus := status, meUpdated := Some now\<rparr>"
  obtain m1 where s1: "SaveMemory sdk ?m d = ((Inr (), m1), d')"
    using s by (cases "SaveMemory sdk ?m d") auto
  from SaveMemory_Inr [OF this] obtain hs where hs: "marshal_memory sdk ?m = (Inr hs, m1)"
    "mdFiles d' = put_file (raw_of m1 hs) (mdFiles d)" by blast
  have "marshal_memory sdk ?m = (Inr (kept_history d (GetThreadRoot e)), ?m)"
    using memory_or_new_history [OF m] by (simp add: marshal_memory_def marshal_Wrapped)
  with hs have h: "hs = kept_history d (GetThreadRoot e)" "m1 = ?m" by auto
  have k: "msgIDToFilename (meThreadRoot m) = msgIDToFilename (GetThreadRoot e)"
    using memory_or_new_Inr [OF m assms(2)] by blast
  let ?r = "raw_of ?m hs"
  have "mdFiles d' = (mdFiles d)(msgIDToFilename (GetThreadRoot e) := Stored ?r)"
    using hs(2) k h by (simp add: put_file_def raw_of_def)
  moreover have "rmStatus ?r = status" "rmUpdated ?r = Some now" "rmHistory ?r = kept_history d (GetThreadRoot e)"
    "file_key ?r = msgIDToFilename (GetThreadRoot e)"
    using k h by (simp_all add: raw_of_def file_key_def)
  ultimately show ?thesis using e by blast
qed

lemma SaveMemoryHistory_Inr:
  assumes "SaveMemoryHistory sdk get history messageId d = (Inr (), d')" "dir_wf d"
  shows "\<exists>e r. first_email get messageId = Inr e \<and>
    mdFiles d' = (mdFiles d)(msgIDToFilename (GetThreadRoot e) := Stored r) \<and>
    (rmStatus r, rmUpdated r) = kept_status d (GetThreadRoot e) \<and>
    (\<exists>h'. (h' = history \<or> Some h' = sanitizeHistoryRawJSON history) \<and> marshal_history sdk h' = Inr (rmHistory r)) \<and>
    file_key r = msgIDToFilename (GetThreadRoot e)"
proof -
  from assms(1) obtain e m where e: "first_email get messageId = Inr e" and m: "memory_or_new d (GetThreadRoot e) = Inr m"
    and s: "apfst fst (SaveMemory sdk (m\<lparr>meHistory := history\<rparr>) d) = (Inr (), d')"
    by (auto simp: SaveMemoryHistory_def and_then_def wrap_err_def split: sum.splits)
  let ?m = "m\<lparr>meHistory := history\<rparr>"
  obtain m1 where s1: "SaveMemory sdk ?m d = ((Inr (), m1), d')"
    using s by (cases "SaveMemory sdk ?m d") auto
  from SaveMemory_Inr [OF this] obtain hs where hs: "marshal_memory sdk ?m = (Inr hs, m1)"
    "mdFiles d' = put_file (raw_of m1 hs) (mdFiles d)" by blast
  have f: "meThreadRoot m1 = meThreadRoot m" "meStatus m1 = meStatus m" "meUpdated m1 = meUpdated m"
    using marshal_memory_fields [OF hs(1)] by simp_all
  have h': "\<exists>h'. (h' = history \<or> Some h' = sanitizeHistoryRawJSON history) \<and> marshal_history sdk h' = Inr hs"
    using hs(1) by (auto simp: marshal_memory_def result_iff split: sum.splits option.splits)
  have k: "msgIDToFilename (meThreadRoot m) = msgIDToFilename (GetThreadRoot e)"
    using memory_or_new_Inr [OF m assms(2)] by blast
  let ?r = "raw_of m1 hs"
  have "mdFiles d' = (mdFiles d)(msgIDToFilename (GetThreadRoot e) := Stored ?r)"
    using hs(2) k f by (simp add: put_file_def raw_of_def)
  moreover have "(rmStatus ?r, rmUpdated ?r) = kept_status d (GetThreadRoot e)" "rmHistory ?r = hs"
    "file_key ?r = msgIDToFilename (GetThreadRoot e)"
    using k f memory_or_new_history [OF m] by (simp_all add: raw_of_def file_key_def)
  ultimately show ?thesis using e h' by metis
qed

section \<open>Properties\<close>

text \<open>Memory file names: the name of a bracketed Message-Id gives the id back, no name leaves the
  directory, and two ids share a file only when they differ in their brackets alone.\<close>

theorem memory_file_names:
  "filenameToMsgID (msgIDToFilename (''<'' @ s @ ''>'')) = Inr (''<'' @ s @ ''>'') \<and>
   CHR ''/'' \<notin> set (msgIDToFilename i) \<and>
   (msgIDToFilename i = msgIDToFilename j \<longleftrightarrow> strip_brackets i = strip_brackets j)"
  using filenameToMsgID_msgIDToFilename [of "''<'' @ s @ ''>''"] file_name_no_slash [of i]
    msgIDToFilename_eq_iff [of i j] strip_brackets_bracketed [of s] by simp

text \<open>One Message-Id shares its file with the index: the memory of the thread \<open><thread_index>\<close> is
  written to \<open>thread_index.json\<close>, and no other id is.\<close>

theorem thread_index_file_collision:
  "msgIDToFilename i = ''thread_index.json'' \<longleftrightarrow> strip_brackets i = ''thread_index''"
proof -
  have "msgIDToFilename ''thread_index'' = ''thread_index.json''" "strip_brackets ''thread_index'' = ''thread_index''"
    by code_simp+
  then show ?thesis using msgIDToFilename_eq_iff [of i "''thread_index''"] by simp
qed

text \<open>Setting a status: when it succeeds, the memory of the message's thread has that status with the
  time of the call, every other thread's memory is as before, and so is the index.\<close>

theorem SetMemoryStatus_effect:
  assumes "SetMemoryStatus sdk get now status messageId d = (Inr (), d')" "dir_wf d"
  shows "\<exists>e. first_email get messageId = Inr e \<and>
    (\<exists>m. GetMemory d' (GetThreadRoot e) = Inr m \<and> meStatus m = status \<and> meUpdated m = Some now \<and>
         StatusSince t (Some m) = (if tm_before now t then [] else status)) \<and>
    (\<forall>root. msgIDToFilename root \<noteq> msgIDToFilename (GetThreadRoot e) \<longrightarrow> GetMemory d' root = GetMemory d root) \<and>
    dir_wf d'"
proof -
  from SetMemoryStatus_Inr [OF assms] obtain e r where e: "first_email get messageId = Inr e"
    and f: "mdFiles d' = (mdFiles d)(msgIDToFilename (GetThreadRoot e) := Stored r)"
    and r: "rmStatus r = status" "rmUpdated r = Some now" "file_key r = msgIDToFilename (GetThreadRoot e)" by blast
  have "GetMemory d' (GetThreadRoot e) = Inr (load_memory r)" using f by (simp add: GetMemory_def)
  moreover have "meStatus (load_memory r) = status" "meUpdated (load_memory r) = Some now"
    using r by (simp_all add: load_memory_def)
  moreover have "msgIDToFilename root \<noteq> msgIDToFilename (GetThreadRoot e) \<Longrightarrow> GetMemory d' root = GetMemory d root" for root
    using f by (simp add: GetMemory_def)
  moreover have "dir_wf d'" using assms(2) f r(3) by (simp add: dir_wf_def)
  ultimately show ?thesis using e by (auto simp: StatusSince_def)
qed

definition sample_email :: email where
  "sample_email = empty_email\<lparr>eMessageId := ''<m2>'', eReferences := [''<m1>''], eSubject := ''Report''\<rparr>"

definition empty_dir :: memory_dir where
  "empty_dir = \<lparr>mdFiles = (\<lambda>_. Absent), mdIndex = Absent, mdFaults = []\<rparr>"

lemma empty_dir_wf: "dir_wf empty_dir"
  by (simp add: dir_wf_def empty_dir_def)

lemma sample_root: "GetThreadRoot sample_email = ''<m1>''"
  by (simp add: sample_email_def)

theorem SetMemoryStatus_effect_witness:
  "\<exists>d'. SetMemoryStatus (\<lambda>r bs. Inr JNull) (\<lambda>ids. Inr [sample_email]) (utc 5) ''waiting'' ''<m2>'' empty_dir = (Inr (), d') \<and>
    (\<exists>m. GetMemory d' ''<m1>'' = Inr m \<and> meStatus m = ''waiting'')"
proof -
  let ?set = "SetMemoryStatus (\<lambda>r bs. Inr JNull) (\<lambda>ids. Inr [sample_email]) (utc 5) ''waiting'' ''<m2>'' empty_dir"
  have "fst ?set = Inr ()"
    by (simp add: SetMemoryStatus_def first_email_def memory_or_new_def GetMemory_def empty_dir_def SaveMemory_def
        next_fault_def marshal_memory_def)
  then have s: "?set = (Inr (), snd ?set)" by (metis prod.collapse)
  from SetMemoryStatus_effect [OF s empty_dir_wf, of "utc 0"] sample_root s show ?thesis
    by (auto simp: first_email_def)
qed

text \<open>Saving a history: when it succeeds, the status of the thread and its time are untouched, the
  file holds the JSON of the history (of its repaired form when a tool input was not valid JSON), and
  every other file is as before.\<close>

theorem SaveMemoryHistory_effect:
  assumes "SaveMemoryHistory sdk get history messageId d = (Inr (), d')" "dir_wf d"
  shows "\<exists>e r. first_email get messageId = Inr e \<and>
    mdFiles d' = (mdFiles d)(msgIDToFilename (GetThreadRoot e) := Stored r) \<and>
    (rmStatus r, rmUpdated r) =
      (case mdFiles d (msgIDToFilename (GetThreadRoot e)) of Stored o' \<Rightarrow> (rmStatus o', rmUpdated o') | _ \<Rightarrow> ([], None)) \<and>
    (marshal_history sdk history = Inr (rmHistory r) \<or>
     marshal_history sdk (map repair_message history) = Inr (rmHistory r)) \<and> dir_wf d'"
proof -
  from SaveMemoryHistory_Inr [OF assms] obtain e r h' where e: "first_email get messageId = Inr e"
    and f: "mdFiles d' = (mdFiles d)(msgIDToFilename (GetThreadRoot e) := Stored r)"
    and s: "(rmStatus r, rmUpdated r) = kept_status d (GetThreadRoot e)"
    and h: "h' = history \<or> Some h' = sanitizeHistoryRawJSON history" "marshal_history sdk h' = Inr (rmHistory r)"
    and k: "file_key r = msgIDToFilename (GetThreadRoot e)" by blast
  have "dir_wf d'" using assms(2) f k by (simp add: dir_wf_def)
  moreover have "marshal_history sdk history = Inr (rmHistory r) \<or>
     marshal_history sdk (map repair_message history) = Inr (rmHistory r)"
    using h by (auto simp: sanitizeHistoryRawJSON_def split: if_splits)
  ultimately show ?thesis using e f s unfolding kept_status_def by blast
qed

theorem SaveMemoryHistory_effect_witness:
  "\<exists>d' r. SaveMemoryHistory (\<lambda>r bs. Inr JNull) (\<lambda>ids. Inr [sample_email]) [Fresh User []] ''<m2>'' empty_dir = (Inr (), d') \<and>
    mdFiles d' ''m1.json'' = Stored r \<and> rmHistory r = [JNull]"
proof -
  let ?save = "SaveMemoryHistory (\<lambda>r bs. Inr JNull) (\<lambda>ids. Inr [sample_email]) [Fresh User []] ''<m2>'' empty_dir"
  have "fst ?save = Inr ()"
    by (simp add: SaveMemoryHistory_def first_email_def memory_or_new_def GetMemory_def empty_dir_def SaveMemory_def
        next_fault_def marshal_memory_def)
  then have s: "?save = (Inr (), snd ?save)" by (metis prod.collapse)
  have n: "msgIDToFilename ''<m1>'' = ''m1.json''" by code_simp
  from SaveMemoryHistory_effect [OF s empty_dir_wf] obtain e r where
    "first_email (\<lambda>ids. Inr [sample_email]) ''<m2>'' = Inr e"
    "mdFiles (snd ?save) = (mdFiles empty_dir)(msgIDToFilename (GetThreadRoot e) := Stored r)"
    "rmHistory r = [JNull]" by auto
  with s n sample_root show ?thesis by (auto simp: first_email_def)
qed

text \<open>Remembering and looking up: after a successful write the conversation answers with its root for
  every subject that normalises the same, and every other conversation or subject answers as before.\<close>

theorem RememberThreadIndex_then_lookup:
  assumes "RememberThreadIndex convID subject root d = (Inr (), d')" "convID \<noteq> []" "root \<noteq> []"
  shows "LookupThreadRoot c s d' =
    (if threadIndexKey c s = threadIndexKey convID subject then Inr root else LookupThreadRoot c s d)"
proof -
  let ?k = "threadIndexKey convID subject"
  have k: "?k \<noteq> []" using assms(2) by (simp add: threadIndexKey_def)
  obtain idx where idx: "loadThreadIndex d = Inr idx"
    using assms k by (cases "loadThreadIndex d") (auto simp: RememberThreadIndex_def Let_def)
  show ?thesis
  proof (cases "index_get ?k idx = root")
    case True
    with assms k idx have "d' = d" by (simp add: RememberThreadIndex_def)
    with True idx k show ?thesis by (auto simp: LookupThreadRoot_def Let_def)
  next
    case False
    with assms k idx have "saveThreadIndex (AList.update ?k root idx) d = (Inr (), d')"
      by (simp add: RememberThreadIndex_def)
    then have "loadThreadIndex d' = Inr (AList.update ?k root idx)"
      by (auto simp: saveThreadIndex_def loadThreadIndex_def split: prod.splits option.splits write_fault.splits)
    with idx k assms(3) show ?thesis by (auto simp: LookupThreadRoot_def Let_def index_get_put)
  qed
qed

theorem RememberThreadIndex_then_lookup_witness:
  "\<exists>d'. RememberThreadIndex ''ab'' ''Re: Budget'' ''<m1>'' empty_dir = (Inr (), d') \<and>
     LookupThreadRoot ''ab'' ''AW: budget '' d' = Inr ''<m1>''"
proof -
  let ?rem = "RememberThreadIndex ''ab'' ''Re: Budget'' ''<m1>'' empty_dir"
  have "fst ?rem = Inr ()"
    by (simp add: RememberThreadIndex_def empty_dir_def loadThreadIndex_def saveThreadIndex_def next_fault_def Let_def)
  then have s: "?rem = (Inr (), snd ?rem)" by (metis prod.collapse)
  have "threadIndexKey ''ab'' ''AW: budget '' = threadIndexKey ''ab'' ''Re: Budget''" by code_simp
  with RememberThreadIndex_then_lookup [OF s, of "''ab''" "''AW: budget ''"] s show ?thesis by auto
qed

text \<open>Finding the thread of an inbound email: the root of its headers wins when it has a memory; else
  the conversation's root, only if that has a memory; else the root of its headers.  So a stale index
  entry never leads anywhere.\<close>

theorem ResolveThreadRoot_result:
  assumes "ResolveThreadRoot e d = Inr root"
  shows "root = (if GetThreadRoot e \<noteq> [] \<and> is_ok (GetMemory d (GetThreadRoot e)) then GetThreadRoot e
     else (case LookupThreadRoot (eThreadIndexConvID e) (index_subject e) d of
             Inr r \<Rightarrow> if r \<noteq> [] \<and> is_ok (GetMemory d r) then r else GetThreadRoot e
           | Inl x \<Rightarrow> GetThreadRoot e)) \<and>
    (root = GetThreadRoot e \<or> is_ok (GetMemory d root))"
proof -
  have idx: "r = (case LookupThreadRoot (eThreadIndexConvID e) (index_subject e) d of
             Inr q \<Rightarrow> if q \<noteq> [] \<and> is_ok (GetMemory d q) then q else GetThreadRoot e
           | Inl x \<Rightarrow> GetThreadRoot e)" if "resolve_by_index e d = Inr r" for r
    using that by (auto simp: resolve_by_index_def LookupThreadRoot_def threadIndexKey_def Let_def
        split: if_splits sum.splits)
  have "resolve_by_index e d = Inr root" if "GetThreadRoot e = [] \<or> \<not> is_ok (GetMemory d (GetThreadRoot e))"
    using assms that by (auto simp: ResolveThreadRoot_def Let_def split: if_splits sum.splits)
  moreover have "root = GetThreadRoot e" if "GetThreadRoot e \<noteq> []" "is_ok (GetMemory d (GetThreadRoot e))"
    using assms that by (auto simp: ResolveThreadRoot_def Let_def split: sum.splits)
  ultimately show ?thesis using idx [of root] by (auto split: sum.splits if_splits)
qed

theorem ResolveThreadRoot_result_witness:
  "ResolveThreadRoot (sample_email\<lparr>eThreadIndexConvID := ''ab''\<rparr>)
     (empty_dir\<lparr>mdIndex := Stored (Some [(''ab|report'', ''<gone>'')])\<rparr>) = Inr ''<m1>''"
proof -
  let ?e = "sample_email\<lparr>eThreadIndexConvID := ''ab''\<rparr>" and ?d = "empty_dir\<lparr>mdIndex := Stored (Some [(''ab|report'', ''<gone>'')])\<rparr>"
  have "is_ok (ResolveThreadRoot ?e ?d)"
    by (simp add: ResolveThreadRoot_def resolve_by_index_def GetMemory_def empty_dir_def LookupThreadRoot_def
        loadThreadIndex_def and_then_def threadIndexKey_def Let_def)
  then obtain r where r: "ResolveThreadRoot ?e ?d = Inr r" by (auto simp: is_ok_iff)
  have "\<not> is_ok (GetMemory ?d q)" for q by (simp add: GetMemory_def empty_dir_def)
  moreover have "GetThreadRoot ?e = ''<m1>''" by (simp add: sample_email_def)
  ultimately show ?thesis using ResolveThreadRoot_result [OF r] r by auto
qed

text \<open>Pruning: when it succeeds the index keeps exactly the entries whose root has a file (or whose
  file could not be inspected), in order, and the counts add up to the old size.\<close>

theorem PruneThreadIndex_effect:
  assumes "PruneThreadIndex statFails d = ((kept, pruned, Inr ()), d')" "loadThreadIndex d = Inr idx"
  shows "loadThreadIndex d' = Inr (filter (\<lambda>(k, root). statFails (msgIDToFilename root) \<or>
        mdFiles d (msgIDToFilename root) \<noteq> Absent) idx) \<and>
    kept + pruned = length idx \<and> mdFiles d' = mdFiles d"
proof -
  let ?keep = "\<lambda>(k :: string, root). \<not> stale_entry statFails d root"
  have f: "?keep = (\<lambda>(k, root). statFails (msgIDToFilename root) \<or> mdFiles d (msgIDToFilename root) \<noteq> Absent)"
    by (auto simp: stale_entry_def Let_def split: fsfile.splits)
  have le: "length (filter ?keep idx) \<le> length idx" by (rule length_filter_le)
  have "loadThreadIndex d' = Inr (filter ?keep idx) \<and> kept + pruned = length idx \<and> mdFiles d' = mdFiles d"
  proof (cases "idx = [] \<or> length (filter ?keep idx) = length idx")
    case True
    then have "filter ?keep idx = idx"
      by (metis filter.simps(1) filter_id_conv length_filter_less nat_neq_iff)
    with True assms show ?thesis by (auto simp: PruneThreadIndex_def Let_def split: if_splits)
  next
    case False
    with le have ne: "length idx - length (filter ?keep idx) \<noteq> 0" by (metis diff_is_0_eq le_antisym)
    with False assms have s: "saveThreadIndex (filter ?keep idx) d = (Inr (), d')"
      "kept = length (filter ?keep idx)" "pruned = length idx - length (filter ?keep idx)"
      by (auto simp: PruneThreadIndex_def Let_def split: prod.splits)
    obtain f d1 where fd: "next_fault d = (f, d1)" by force
    then have "mdFiles d1 = mdFiles d" using next_fault_files [of d] by simp
    with s fd le show ?thesis
      by (auto simp: saveThreadIndex_def loadThreadIndex_def split: option.splits write_fault.splits)
  qed
  then show ?thesis unfolding f .
qed

theorem PruneThreadIndex_effect_witness:
  "\<exists>d'. PruneThreadIndex (\<lambda>n. False) (empty_dir\<lparr>mdIndex := Stored (Some [(''k'', ''<gone>'')])\<rparr>) = ((0, 1, Inr ()), d') \<and>
    loadThreadIndex d' = Inr []"
proof -
  let ?d = "empty_dir\<lparr>mdIndex := Stored (Some [(''k'', ''<gone>'')])\<rparr>"
  have p: "PruneThreadIndex (\<lambda>n. False) ?d = ((0, 1, Inr ()), ?d\<lparr>mdIndex := Stored (Some [])\<rparr>)"
    by (simp add: PruneThreadIndex_def loadThreadIndex_def stale_entry_def empty_dir_def saveThreadIndex_def
        next_fault_def Let_def)
  have "loadThreadIndex ?d = Inr [(''k'', ''<gone>'')]" by (simp add: loadThreadIndex_def)
  from PruneThreadIndex_effect [OF p this] p show ?thesis by (auto simp: empty_dir_def)
qed

text \<open>A write that breaks off blocks the thread: the memory file is not replaced atomically, so when a
  save fails after the file was truncated, every later email of the thread fails to find its root.\<close>

theorem partial_write_blocks_thread:
  assumes "mdFaults d = Some (PartialWrite x) # fs" "is_ok (fst (marshal_memory sdk m))"
    and "meThreadRoot m = GetThreadRoot e" "GetThreadRoot e \<noteq> []"
  shows "\<exists>d' y. snd (SaveMemory sdk m d) = d' \<and> \<not> is_ok (fst (fst (SaveMemory sdk m d))) \<and>
    ResolveThreadRoot e d' = Inl y"
proof -
  obtain hs m1 where m1: "marshal_memory sdk m = (Inr hs, m1)"
    using assms(2) by (cases "marshal_memory sdk m") (auto simp: is_ok_iff)
  from marshal_memory_fields [OF this] assms m1 have "\<not> is_ok (fst (fst (SaveMemory sdk m d)))"
    "GetMemory (snd (SaveMemory sdk m d)) (GetThreadRoot e) = Inl truncated_json"
    by (auto simp: SaveMemory_def next_fault_def GetMemory_def)
  then show ?thesis using assms(4) by (simp add: ResolveThreadRoot_def truncated_json_def)
qed

theorem partial_write_blocks_thread_witness:
  "\<exists>y. ResolveThreadRoot sample_email
     (snd (SaveMemory (\<lambda>r bs. Inr JNull) \<lparr>meThreadRoot = ''<m1>'', meHistory = [], meStatus = [], meUpdated = None\<rparr>
        (empty_dir\<lparr>mdFaults := [Some (PartialWrite (Err ''no space''))]\<rparr>))) = Inl y"
  using partial_write_blocks_thread [of "empty_dir\<lparr>mdFaults := [Some (PartialWrite (Err ''no space''))]\<rparr>"
      "Err ''no space''" "[]" "\<lambda>r bs. Inr JNull"
      "\<lparr>meThreadRoot = ''<m1>'', meHistory = [], meStatus = [], meUpdated = None\<rparr>" sample_email]
  by (simp add: marshal_memory_def sample_root)

end
