(* ===== verification/Snooze.thy ===== *)
theory Snooze
  imports Mail_Transport Keyed_Store
begin

text \<open>
  Scheduled tasks and watchdogs (\<open>internal/services/snooze.go\<close>): the entries of the snooze file,
  their queries and updates, the arming of a watchdog and the advance of a schedule.  The file is
  replaced atomically, so a save either stores the new list or fails and leaves the old one; the
  outcomes of the coming saves are part of the state.  The cron library is an argument:
  \<open>cron spec\<close> parses a specification into the function that gives the next tick after a time.
\<close>

section \<open>State\<close>

record snooze =
  snThreadId :: string
  snSubject :: string
  snDescription :: string
  snOnce :: bool
  snMessageId :: string
  snCrontab :: string
  snUnSnooze :: gotime
  snTimezone :: string
  snWatchdog :: bool
  snFires :: int

datatype save_fault = CreateFails goerror | WriteFails goerror | CloseFails goerror | RenameFails goerror

record snooze_disk =
  skFile :: "snooze list fsfile"
  skFaults :: "save_fault option list"

type_synonym cron = "string \<Rightarrow> (gotime \<Rightarrow> gotime) result"

definition empty_snooze :: snooze where
  "empty_snooze = \<lparr>snThreadId = [], snSubject = [], snDescription = [], snOnce = False, snMessageId = [],
     snCrontab = [], snUnSnooze = zero_time, snTimezone = [], snWatchdog = False, snFires = 0\<rparr>"

section \<open>The file\<close>

definition ReadSnoozeFile :: "snooze_disk \<Rightarrow> snooze list result" where
  "ReadSnoozeFile d =
     (case skFile d of Absent \<Rightarrow> Inr [] | Unreadable e \<Rightarrow> Inl e | Stored xs \<Rightarrow> Inr xs)"

fun fault_error :: "save_fault \<Rightarrow> goerror" where
  "fault_error (CreateFails e) = Wrap ''creating temp file: '' e []"
| "fault_error (WriteFails e) = Wrap ''writing temp file: '' e []"
| "fault_error (CloseFails e) = Wrap ''closing temp file: '' e []"
| "fault_error (RenameFails e) = Wrap ''renaming temp file: '' e []"

definition SaveSnoozeFile :: "snooze list \<Rightarrow> (snooze_disk, unit) io" where
  "SaveSnoozeFile xs = (\<lambda>d.
     case skFaults d of
       Some f # fs \<Rightarrow> (Inl (fault_error f), d\<lparr>skFaults := fs\<rparr>)
     | None # fs \<Rightarrow> (Inr (), d\<lparr>skFile := Stored xs, skFaults := fs\<rparr>)
     | [] \<Rightarrow> (Inr (), d\<lparr>skFile := Stored xs\<rparr>))"

section \<open>Queries\<close>

definition find_by_thread :: "string \<Rightarrow> bool \<Rightarrow> snooze list \<Rightarrow> snooze option" where
  "find_by_thread threadId wd xs = find (\<lambda>s. snThreadId s = threadId \<and> snWatchdog s = wd) xs"

definition findSnoozeByThread :: "string \<Rightarrow> bool \<Rightarrow> snooze_disk \<Rightarrow> snooze option result" where
  "findSnoozeByThread threadId wd d = and_then (ReadSnoozeFile d) (\<lambda>xs. Inr (find_by_thread threadId wd xs))"

definition FindSnoozeByThread :: "string \<Rightarrow> snooze_disk \<Rightarrow> snooze option result" where
  "FindSnoozeByThread threadId = findSnoozeByThread threadId False"

definition FindWatchdogByThread :: "string \<Rightarrow> snooze_disk \<Rightarrow> snooze option result" where
  "FindWatchdogByThread threadId = findSnoozeByThread threadId True"

fun oldest_due :: "gotime \<Rightarrow> snooze option \<Rightarrow> snooze list \<Rightarrow> snooze option" where
  "oldest_due now best [] = best"
| "oldest_due now best (x # xs) =
     (if tm_after (snUnSnooze x) now then oldest_due now best xs
      else case best of
             None \<Rightarrow> oldest_due now (Some x) xs
           | Some b \<Rightarrow> oldest_due now (if tm_before (snUnSnooze x) (snUnSnooze b) then Some x else best) xs)"

definition NextSnoozed :: "gotime \<Rightarrow> snooze_disk \<Rightarrow> snooze option result" where
  "NextSnoozed now d = and_then (ReadSnoozeFile d) (\<lambda>xs. Inr (oldest_due now None xs))"

section \<open>Updates\<close>

definition same_message :: "snooze \<Rightarrow> snooze \<Rightarrow> bool" where
  "same_message s e \<longleftrightarrow> snWatchdog e = snWatchdog s \<and> snMessageId s \<noteq> [] \<and> snMessageId e = snMessageId s"

definition same_thread :: "snooze \<Rightarrow> snooze \<Rightarrow> bool" where
  "same_thread s e \<longleftrightarrow> snWatchdog e = snWatchdog s \<and> snThreadId e = snThreadId s"

definition without :: "snooze \<Rightarrow> snooze list \<Rightarrow> snooze list" where
  "without s xs =
     (let byMsg = filter (\<lambda>e. \<not> same_message s e) xs
      in if length byMsg = length xs \<and> snThreadId s \<noteq> []
         then filter (\<lambda>e. \<not> same_thread s e) xs else byMsg)"

definition DeleteSnooze :: "snooze \<Rightarrow> (snooze_disk, unit) io" where
  "DeleteSnooze s = (\<lambda>d.
     case ReadSnoozeFile d of
       Inl e \<Rightarrow> (Inl e, d)
     | Inr xs \<Rightarrow>
         if length (without s xs) = length xs then (Inr (), d)
         else SaveSnoozeFile (without s xs) d)"

text \<open>
  \<open>rootOf\<close> is \<open>GetThreadRootId\<close>; the result carries the entry with its thread filled in, which the
  code leaves in the receiver.
\<close>

definition resolve_thread :: "(string \<Rightarrow> string result) \<Rightarrow> snooze \<Rightarrow> snooze result" where
  "resolve_thread rootOf s =
     (if snThreadId s = [] then
        (case rootOf (snMessageId s) of
           Inl e \<Rightarrow> Inl (Wrap ''getting thread root id: '' e [])
         | Inr t \<Rightarrow> Inr (s\<lparr>snThreadId := t\<rparr>))
      else Inr s)"

definition SaveSnooze :: "(string \<Rightarrow> string result) \<Rightarrow> snooze \<Rightarrow> (snooze_disk, snooze) io" where
  "SaveSnooze rootOf s = (\<lambda>d.
     case resolve_thread rootOf s of
       Inl e \<Rightarrow> (Inl e, d)
     | Inr s1 \<Rightarrow>
         io_bind (io_wrap ''deleting existing snooze entry: '' (DeleteSnooze s1)) (\<lambda>_ d1.
           case ReadSnoozeFile d1 of
             Inl e \<Rightarrow> (Inl e, d1)
           | Inr xs \<Rightarrow> io_bind (SaveSnoozeFile (xs @ [s1])) (\<lambda>_. io_return s1) d1) d)"

definition keeps_on_abort :: "string \<Rightarrow> snooze \<Rightarrow> bool" where
  "keeps_on_abort threadId e \<longleftrightarrow> snThreadId e \<noteq> threadId \<or> (\<not> snWatchdog e \<and> \<not> snOnce e)"

definition AbortThreadSnoozes :: "string \<Rightarrow> snooze_disk \<Rightarrow> (nat \<times> unit result) \<times> snooze_disk" where
  "AbortThreadSnoozes threadId d =
     (case ReadSnoozeFile d of
        Inl e \<Rightarrow> ((0, Inl e), d)
      | Inr xs \<Rightarrow>
          let kept = filter (keeps_on_abort threadId) xs; removed = length xs - length kept
          in if removed = 0 then ((0, Inr ()), d)
             else case SaveSnoozeFile kept d of (r, d') \<Rightarrow> ((removed, r), d'))"

text \<open>\<open>time.Duration\<close> is a 64-bit count of nanoseconds and its product wraps.\<close>

definition wrap64 :: "int \<Rightarrow> int" where
  "wrap64 x = (x + 2 ^ 63) mod 2 ^ 64 - 2 ^ 63"

definition watchdog_note :: string where
  "watchdog_note = ''watchdog: still awaiting a reply on this delegated task''"

definition watchdog_entry :: "gotime \<Rightarrow> string \<Rightarrow> string \<Rightarrow> int \<Rightarrow> int \<Rightarrow> snooze" where
  "watchdog_entry now messageId threadId mins fires =
     empty_snooze\<lparr>snThreadId := threadId, snMessageId := messageId, snOnce := True, snWatchdog := True,
       snFires := fires, snUnSnooze := tm_add (wrap64 (minutes mins)) now,
       snDescription := watchdog_note\<rparr>"

definition carried_fires :: "bool \<Rightarrow> string \<Rightarrow> snooze_disk \<Rightarrow> int" where
  "carried_fires nudge threadId d =
     (if nudge then
        (case FindWatchdogByThread threadId d of
           Inr (Some w) \<Rightarrow> snFires w
         | _ \<Rightarrow> 0)
      else 0)"

definition ArmWaitingWatchdog ::
  "(string \<Rightarrow> string result) \<Rightarrow> gotime \<Rightarrow> bool \<Rightarrow> string \<Rightarrow> string \<Rightarrow> int \<Rightarrow> (snooze_disk, unit) io" where
  "ArmWaitingWatchdog rootOf now nudge messageId threadId mins = (\<lambda>d.
     if mins \<le> 0 \<or> trim_space messageId = [] \<or> trim_space threadId = [] then (Inr (), d)
     else io_bind (SaveSnooze rootOf (watchdog_entry now messageId threadId mins (carried_fires nudge threadId d)))
            (\<lambda>_. io_return ()) d)"

section \<open>Time zones and recurrence\<close>

definition LoadTimezone :: "tzdb \<Rightarrow> string \<Rightarrow> location result" where
  "LoadTimezone db tz =
     (case db tz of
        Some loc \<Rightarrow> Inr loc
      | None \<Rightarrow>
          (case parse_offset tz of
             Some off \<Rightarrow> Inr (fixed_zone tz off)
           | None \<Rightarrow> Inl (Err (''unknown timezone '' @ go_quote tz))))"

text \<open>Go's \<open>/\<close> and \<open>%\<close> truncate towards zero.\<close>

definition quot :: "int \<Rightarrow> int \<Rightarrow> int" where
  "quot a b = sgn a * sgn b * (\<bar>a\<bar> div \<bar>b\<bar>)"

definition remt :: "int \<Rightarrow> int \<Rightarrow> int" where
  "remt a b = a - b * quot a b"

definition TimezoneFromTime :: "tzdb \<Rightarrow> gotime \<Rightarrow> string" where
  "TimezoneFromTime db t =
     (let name = tmZone t; offset = tmOffset t
      in if \<not> Option.is_none (db name) \<and> name \<noteq> [] \<and> name \<noteq> ''Local'' then name
         else show_signed_hours (quot offset 3600) @ pad2 (nat \<bar>quot (remt offset 3600) 60\<bar>))"

definition local_now :: "tzdb \<Rightarrow> string \<Rightarrow> gotime \<Rightarrow> gotime" where
  "local_now db tz now =
     (if tz = [] then now else case LoadTimezone db tz of Inr loc \<Rightarrow> tm_in loc now | Inl e \<Rightarrow> now)"

definition AdvanceOrDeleteSnooze ::
  "cron \<Rightarrow> tzdb \<Rightarrow> (string \<Rightarrow> string result) \<Rightarrow> gotime \<Rightarrow> snooze \<Rightarrow> (snooze_disk, unit) io" where
  "AdvanceOrDeleteSnooze cron db rootOf now s =
     (if snOnce s then DeleteSnooze s
      else case cron (snCrontab s) of
             Inl e \<Rightarrow> io_fail (Wrap (''couldn'' @ [squote] @ ''t parse crontab expression: '') e [])
           | Inr next \<Rightarrow>
               io_bind (SaveSnooze rootOf (s\<lparr>snUnSnooze := next (local_now db (snTimezone s) now)\<rparr>))
                 (\<lambda>_. io_return ()))"

section \<open>The invariant of the file\<close>

text \<open>
  \<open>root\<close> is the thread of a Message-Id.  The file holds at most one entry of each kind per thread, and
  the thread recorded with a Message-Id is that of the message.
\<close>

definition entry_key :: "snooze \<Rightarrow> string \<times> bool" where
  "entry_key e = (snThreadId e, snWatchdog e)"

definition rooted :: "(string \<Rightarrow> string) \<Rightarrow> snooze \<Rightarrow> bool" where
  "rooted root e \<longleftrightarrow> (snMessageId e \<noteq> [] \<longrightarrow> snThreadId e = root (snMessageId e))"

definition entries_inv :: "(string \<Rightarrow> string) \<Rightarrow> snooze list \<Rightarrow> bool" where
  "entries_inv root xs \<longleftrightarrow> distinct (map entry_key xs) \<and> list_all (rooted root) xs"

definition admissible_entry :: "(string \<Rightarrow> string) \<Rightarrow> snooze \<Rightarrow> bool" where
  "admissible_entry root s \<longleftrightarrow> snThreadId s \<noteq> [] \<and> rooted root s"

definition put_entry :: "snooze \<Rightarrow> snooze list \<Rightarrow> snooze list" where
  "put_entry s xs = without s xs @ [s]"

definition lookup_entry :: "string \<times> bool \<Rightarrow> snooze list \<Rightarrow> snooze option" where
  "lookup_entry k xs = find_by_thread (fst k) (snd k) xs"

lemma same_thread_key: "same_thread s e \<longleftrightarrow> entry_key e = entry_key s"
  by (auto simp: same_thread_def entry_key_def)

lemma same_message_thread:
  "rooted root s \<Longrightarrow> rooted root e \<Longrightarrow> same_message s e \<Longrightarrow> same_thread s e"
  by (auto simp: same_message_def same_thread_def rooted_def)

lemma distinct_map_unique: "distinct (map f xs) \<Longrightarrow> x \<in> set xs \<Longrightarrow> y \<in> set xs \<Longrightarrow> f x = f y \<Longrightarrow> x = y"
  by (auto simp: distinct_map inj_on_def)

text \<open>Under the invariant both searches of \<open>DeleteSnooze\<close> remove the entry with the key.\<close>

lemma without_by_key:
  assumes inv: "entries_inv root xs" and s: "admissible_entry root s"
  shows "without s xs = filter (\<lambda>e. entry_key e \<noteq> entry_key s) xs"
proof (cases "filter (\<lambda>e. \<not> same_message s e) xs = xs")
  case True
  then show ?thesis
    using s by (simp add: without_def admissible_entry_def same_thread_key)
next
  case False
  then obtain e0 where e0: "e0 \<in> set xs" "same_message s e0"
    by (auto simp: filter_id_conv)
  have r: "rooted root e" if "e \<in> set xs" for e
    using inv that by (auto simp: entries_inv_def list_all_iff)
  have st: "rooted root s" using s by (simp add: admissible_entry_def)
  have "same_message s e \<longleftrightarrow> entry_key e = entry_key s" if e: "e \<in> set xs" for e
  proof
    assume "same_message s e"
    from same_message_thread [OF st r [OF e] this] show "entry_key e = entry_key s"
      by (simp add: same_thread_key)
  next
    assume k: "entry_key e = entry_key s"
    moreover have "entry_key e0 = entry_key s"
      using same_message_thread [OF st r [OF e0(1)] e0(2)] by (simp add: same_thread_key)
    ultimately have "e = e0"
      using distinct_map_unique [of entry_key xs e e0] e e0(1) inv by (simp add: entries_inv_def)
    with e0(2) show "same_message s e" by simp
  qed
  then have "filter (\<lambda>e. \<not> same_message s e) xs = filter (\<lambda>e. entry_key e \<noteq> entry_key s) xs"
    by (auto intro: filter_cong)
  moreover have "length (filter (\<lambda>e. \<not> same_message s e) xs) \<noteq> length xs"
    using False by (metis filter_True length_filter_less nat_neq_iff e0)
  ultimately show ?thesis by (simp add: without_def Let_def)
qed

lemma entries_inv_filter: "entries_inv root xs \<Longrightarrow> entries_inv root (filter P xs)"
  by (auto simp: entries_inv_def list_all_iff distinct_map_filter)

lemma without_sub: "\<exists>P. without s xs = filter P xs"
  by (auto simp: without_def Let_def)

lemma entries_inv_without: "entries_inv root xs \<Longrightarrow> entries_inv root (without s xs)"
  using without_sub [of s xs] entries_inv_filter by fastforce

lemma entries_inv_put:
  assumes "entries_inv root xs" "admissible_entry root s"
  shows "entries_inv root (put_entry s xs)"
  using assms without_by_key [OF assms]
  by (auto simp: put_entry_def entries_inv_def admissible_entry_def list_all_iff distinct_map_filter)

lemma lookup_entry_find: "lookup_entry k xs = find (\<lambda>e. entry_key e = k) xs"
  by (cases k) (simp add: lookup_entry_def find_by_thread_def entry_key_def)

lemma find_filter_other: "(\<And>x. P x \<Longrightarrow> Q x) \<Longrightarrow> find P (filter Q xs) = find P xs"
  by (induction xs) auto

lemma find_append: "find P (xs @ ys) = (case find P xs of Some x \<Rightarrow> Some x | None \<Rightarrow> find P ys)"
  by (induction xs) auto

interpretation entries: keyed_store "entries_inv root" "admissible_entry root" entry_key lookup_entry put_entry
  for root
proof unfold_locales
  fix xs s
  assume a: "entries_inv root xs" "admissible_entry root s"
  show "entries_inv root (put_entry s xs)" by (rule entries_inv_put [OF a])
  have "find (\<lambda>e. entry_key e = entry_key s) (filter (\<lambda>e. entry_key e \<noteq> entry_key s) xs) = None"
    by (simp add: find_None_iff)
  then show "lookup_entry (entry_key s) (put_entry s xs) = Some s"
    by (simp add: lookup_entry_find put_entry_def without_by_key [OF a] find_append)
  fix k
  assume k: "k \<noteq> entry_key s"
  then have "find (\<lambda>e. entry_key e = k) (filter (\<lambda>e. entry_key e \<noteq> entry_key s) xs) = find (\<lambda>e. entry_key e = k) xs"
    by (intro find_filter_other) auto
  with k show "lookup_entry k (put_entry s xs) = lookup_entry k xs"
    by (simp add: lookup_entry_find put_entry_def without_by_key [OF a] find_append split: option.split)
qed

section \<open>Operations on the disk\<close>

definition disk_inv :: "(string \<Rightarrow> string) \<Rightarrow> snooze_disk \<Rightarrow> bool" where
  "disk_inv root d \<longleftrightarrow> (\<forall>xs. ReadSnoozeFile d = Inr xs \<longrightarrow> entries_inv root xs)"

definition roots_by :: "(string \<Rightarrow> string) \<Rightarrow> (string \<Rightarrow> string result) \<Rightarrow> bool" where
  "roots_by root rootOf \<longleftrightarrow> (\<forall>m t. rootOf m = Inr t \<longrightarrow> t = root m \<and> t \<noteq> [])"

lemma save_file_cases:
  obtains e where "fst (SaveSnoozeFile xs d) = Inl e" "skFile (snd (SaveSnoozeFile xs d)) = skFile d"
  | "fst (SaveSnoozeFile xs d) = Inr ()" "skFile (snd (SaveSnoozeFile xs d)) = Stored xs"
  by (cases d; cases "skFaults d"; cases "hd (skFaults d)") (auto simp: SaveSnoozeFile_def)

lemma read_cong: "skFile d = skFile d' \<Longrightarrow> ReadSnoozeFile d = ReadSnoozeFile d'"
  by (simp add: ReadSnoozeFile_def)

lemma read_stored [simp]: "skFile d = Stored xs \<Longrightarrow> ReadSnoozeFile d = Inr xs"
  by (simp add: ReadSnoozeFile_def)

lemma without_same_length: "length (without s xs) = length xs \<Longrightarrow> without s xs = xs"
  using without_sub [of s xs] by (metis filter_id_conv length_filter_less nat_neq_iff)

lemma without_idem_length: "length (without s xs) \<noteq> length xs \<Longrightarrow> length (without s xs) < length xs"
  using without_sub [of s xs] by (metis length_filter_le nless_le)

text \<open>Deleting: an error leaves the file, success removes \<open>without\<close>.\<close>

lemma DeleteSnooze_cases:
  obtains e where "fst (DeleteSnooze s d) = Inl e" "skFile (snd (DeleteSnooze s d)) = skFile d"
  | xs where "ReadSnoozeFile d = Inr xs" "fst (DeleteSnooze s d) = Inr ()"
      "ReadSnoozeFile (snd (DeleteSnooze s d)) = Inr (without s xs)"
proof (cases "ReadSnoozeFile d")
  case (Inl e)
  then show ?thesis using that(1) by (simp add: DeleteSnooze_def)
next
  case (Inr xs)
  show ?thesis
  proof (cases "length (without s xs) = length xs")
    case True
    with that(2) [OF Inr] Inr without_same_length [OF True] show ?thesis by (simp add: DeleteSnooze_def)
  next
    case False
    then have "DeleteSnooze s d = SaveSnoozeFile (without s xs) d"
      using Inr by (simp add: DeleteSnooze_def)
    then show ?thesis
      using that Inr by (cases rule: save_file_cases [of "without s xs" d]) auto
  qed
qed

text \<open>
  Saving: an error of the first write leaves the file, an error of the second has already removed
  the entry it was to replace.
\<close>

lemma SaveSnooze_cases:
  obtains e where "fst (SaveSnooze rootOf s d) = Inl e" "skFile (snd (SaveSnooze rootOf s d)) = skFile d"
  | s1 xs e where "resolve_thread rootOf s = Inr s1" "ReadSnoozeFile d = Inr xs"
      "fst (SaveSnooze rootOf s d) = Inl e" "ReadSnoozeFile (snd (SaveSnooze rootOf s d)) = Inr (without s1 xs)"
  | s1 xs where "resolve_thread rootOf s = Inr s1" "ReadSnoozeFile d = Inr xs"
      "fst (SaveSnooze rootOf s d) = Inr s1"
      "ReadSnoozeFile (snd (SaveSnooze rootOf s d)) = Inr (put_entry s1 xs)"
proof (cases "resolve_thread rootOf s")
  case (Inl e)
  then show ?thesis using that(1) by (simp add: SaveSnooze_def)
next
  case s1: (Inr s1)
  show ?thesis
  proof (cases rule: DeleteSnooze_cases [of s1 d])
    case (1 e)
    then obtain d1 where d1: "DeleteSnooze s1 d = (Inl e, d1)" by (metis prod.collapse)
    with 1 s1 that(1) show ?thesis
      by (simp add: SaveSnooze_def io_bind_def io_wrap_def)
  next
    case (2 xs)
    then obtain d1 where d1: "DeleteSnooze s1 d = (Inr (), d1)" "ReadSnoozeFile d1 = Inr (without s1 xs)"
      by (metis prod.collapse)
    let ?ys = "without s1 xs @ [s1]"
    obtain r d2 where d2: "SaveSnoozeFile ?ys d1 = (r, d2)" by (metis prod.collapse)
    have sv: "SaveSnooze rootOf s d = (case r of Inl e \<Rightarrow> (Inl e, d2) | Inr u \<Rightarrow> (Inr s1, d2))"
      using s1 d1 d2 by (simp add: SaveSnooze_def io_bind_def io_wrap_def io_return_def split: sum.split)
    show ?thesis
    proof (cases rule: save_file_cases [of ?ys d1])
      case (1 e)
      with d2 have "r = Inl e" "skFile d2 = skFile d1" by simp_all
      with sv have f: "fst (SaveSnooze rootOf s d) = Inl e" "snd (SaveSnooze rootOf s d) = d2" by simp_all
      have "ReadSnoozeFile d2 = Inr (without s1 xs)"
        using read_cong [OF \<open>skFile d2 = skFile d1\<close>] d1(2) by simp
      then show ?thesis using that(2) [OF s1 2(1)] f by metis
    next
      case 22: 2
      with d2 have "r = Inr ()" "skFile d2 = Stored ?ys" by simp_all
      with sv have f: "fst (SaveSnooze rootOf s d) = Inr s1" "snd (SaveSnooze rootOf s d) = d2" by simp_all
      have "ReadSnoozeFile d2 = Inr (put_entry s1 xs)"
        using \<open>skFile d2 = Stored ?ys\<close> by (simp add: put_entry_def)
      then show ?thesis using that(3) [OF s1 2(1)] f by metis
    qed
  qed
qed

lemma resolve_thread_admissible:
  assumes "roots_by root rootOf" "snThreadId s \<noteq> [] \<Longrightarrow> rooted root s" "resolve_thread rootOf s = Inr s1"
  shows "admissible_entry root s1"
  using assms by (auto simp: resolve_thread_def roots_by_def rooted_def admissible_entry_def
      split: if_splits sum.splits)

lemma resolve_thread_fields:
  "resolve_thread rootOf s = Inr s1 \<Longrightarrow> s1 = s\<lparr>snThreadId := snThreadId s1\<rparr>"
  by (auto simp: resolve_thread_def split: if_splits sum.splits)

lemma disk_inv_read: "disk_inv root d \<Longrightarrow> ReadSnoozeFile d = Inr xs \<Longrightarrow> entries_inv root xs"
  by (simp add: disk_inv_def)

lemma disk_inv_unchanged: "disk_inv root d \<Longrightarrow> skFile d' = skFile d \<Longrightarrow> disk_inv root d'"
  by (simp add: disk_inv_def ReadSnoozeFile_def)

lemma disk_inv_new: "ReadSnoozeFile d' = Inr xs \<Longrightarrow> entries_inv root xs \<Longrightarrow> disk_inv root d'"
  by (simp add: disk_inv_def)

lemma DeleteSnooze_inv: "disk_inv root d \<Longrightarrow> disk_inv root (snd (DeleteSnooze s d))"
  by (cases rule: DeleteSnooze_cases [of s d])
    (auto intro: disk_inv_unchanged disk_inv_new entries_inv_without dest: disk_inv_read)

lemma SaveSnooze_inv:
  assumes "disk_inv root d" "roots_by root rootOf" "snThreadId s \<noteq> [] \<Longrightarrow> rooted root s"
  shows "disk_inv root (snd (SaveSnooze rootOf s d))"
proof (cases rule: SaveSnooze_cases [of rootOf s d])
  case (1 e)
  then show ?thesis using assms(1) disk_inv_unchanged by blast
next
  case (2 s1 xs e)
  then show ?thesis using assms(1) disk_inv_new disk_inv_read entries_inv_without by metis
next
  case (3 s1 xs)
  have "admissible_entry root s1" by (rule resolve_thread_admissible [OF assms(2,3) 3(1)])
  then show ?thesis using 3 assms(1) disk_inv_new disk_inv_read entries_inv_put by metis
qed

lemma AbortThreadSnoozes_inv: "disk_inv root d \<Longrightarrow> disk_inv root (snd (AbortThreadSnoozes t d))"
proof (cases "ReadSnoozeFile d")
  case (Inl e)
  then show "disk_inv root d \<Longrightarrow> ?thesis" by (simp add: AbortThreadSnoozes_def)
next
  case (Inr xs)
  let ?ys = "filter (keeps_on_abort t) xs"
  assume d: "disk_inv root d"
  have "disk_inv root (snd (SaveSnoozeFile ?ys d))"
    by (cases rule: save_file_cases [of ?ys d])
      (auto intro: disk_inv_unchanged [OF d] disk_inv_new [OF read_stored] entries_inv_filter disk_inv_read [OF d Inr])
  then show ?thesis using d Inr
    by (auto simp: AbortThreadSnoozes_def Let_def split: prod.splits)
qed

lemma io_discard: "snd (io_bind m (\<lambda>_. io_return ()) d) = snd (m d)"
  by (auto simp: io_bind_def io_return_def split: prod.split sum.split)

lemma ArmWaitingWatchdog_inv:
  assumes "disk_inv root d" "roots_by root rootOf" "t = root m"
  shows "disk_inv root (snd (ArmWaitingWatchdog rootOf now nudge m t mins d))"
proof -
  have "rooted root (watchdog_entry now m t mins f)" for f
    using assms(3) by (simp add: rooted_def watchdog_entry_def)
  then show ?thesis
    using assms SaveSnooze_inv by (simp add: ArmWaitingWatchdog_def io_discard)
qed

lemma AdvanceOrDeleteSnooze_inv:
  assumes "disk_inv root d" "roots_by root rootOf" "snThreadId s \<noteq> [] \<Longrightarrow> rooted root s"
  shows "disk_inv root (snd (AdvanceOrDeleteSnooze cron db rootOf now s d))"
proof -
  have "snThreadId (s\<lparr>snUnSnooze := u\<rparr>) \<noteq> [] \<Longrightarrow> rooted root (s\<lparr>snUnSnooze := u\<rparr>)" for u
    using assms(3) by (simp add: rooted_def)
  from SaveSnooze_inv [OF assms(1,2) this] show ?thesis
    using DeleteSnooze_inv [OF assms(1)] assms(1)
    by (simp add: AdvanceOrDeleteSnooze_def io_discard split: sum.split)
qed

section \<open>What the queries and updates return\<close>

lemma oldest_due_cases:
  "case oldest_due now best xs of
     None \<Rightarrow> best = None \<and> (\<forall>e\<in>set xs. tm_after (snUnSnooze e) now)
   | Some s \<Rightarrow> (best = Some s \<or> (s \<in> set xs \<and> \<not> tm_after (snUnSnooze s) now)) \<and>
       (\<forall>e\<in>set xs. \<not> tm_after (snUnSnooze e) now \<longrightarrow> \<not> tm_before (snUnSnooze e) (snUnSnooze s)) \<and>
       (\<forall>b. best = Some b \<longrightarrow> \<not> tm_before (snUnSnooze b) (snUnSnooze s))"
proof (induction xs arbitrary: best)
  case Nil
  then show ?case by (simp add: tm_before_def split: option.split)
next
  case (Cons x xs)
  show ?case
  proof (cases "tm_after (snUnSnooze x) now")
    case True
    with Cons [of best] show ?thesis by (auto split: option.splits)
  next
    case False
    show ?thesis
    proof (cases best)
      case None
      with False Cons [of "Some x"] show ?thesis by (auto split: option.splits)
    next
      case (Some b)
      show ?thesis
        using False Some Cons [of "if tm_before (snUnSnooze x) (snUnSnooze b) then Some x else best"]
        by (auto simp: tm_before_def split: option.splits if_splits)
    qed
  qed
qed

lemma filter_absorb: "(\<And>e. P e \<Longrightarrow> Q e) \<Longrightarrow> filter P (filter Q xs) = filter P xs"
  by (induction xs) auto

lemma other_kind_without:
  "filter (\<lambda>e. snWatchdog e \<noteq> snWatchdog s) (without s xs) = filter (\<lambda>e. snWatchdog e \<noteq> snWatchdog s) xs"
proof -
  have "filter (\<lambda>e. snWatchdog e \<noteq> snWatchdog s) (filter (\<lambda>e. \<not> same_message s e) xs) =
      filter (\<lambda>e. snWatchdog e \<noteq> snWatchdog s) xs"
    by (rule filter_absorb) (simp add: same_message_def)
  moreover have "filter (\<lambda>e. snWatchdog e \<noteq> snWatchdog s) (filter (\<lambda>e. \<not> same_thread s e) xs) =
      filter (\<lambda>e. snWatchdog e \<noteq> snWatchdog s) xs"
    by (rule filter_absorb) (simp add: same_thread_def)
  ultimately show ?thesis by (simp only: without_def Let_def simp_thms split: if_split)
qed

lemma resolve_thread_kind: "resolve_thread rootOf s = Inr s1 \<Longrightarrow> snWatchdog s1 = snWatchdog s"
  by (auto simp: resolve_thread_def split: if_splits sum.splits)

lemma other_kind_put:
  "filter (\<lambda>e. snWatchdog e \<noteq> snWatchdog s) (put_entry s xs) = filter (\<lambda>e. snWatchdog e \<noteq> snWatchdog s) xs"
  using other_kind_without [of s xs] by (simp add: put_entry_def)

lemma DeleteSnooze_other_kind:
  assumes "ReadSnoozeFile d = Inr xs"
  shows "\<exists>ys. ReadSnoozeFile (snd (DeleteSnooze s d)) = Inr ys \<and>
    filter (\<lambda>e. snWatchdog e \<noteq> snWatchdog s) ys = filter (\<lambda>e. snWatchdog e \<noteq> snWatchdog s) xs"
proof (cases rule: DeleteSnooze_cases [of s d])
  case (1 e)
  then show ?thesis using assms read_cong by metis
next
  case (2 ys)
  then show ?thesis using assms other_kind_without [of s xs] by auto
qed

lemma SaveSnooze_other_kind:
  assumes "ReadSnoozeFile d = Inr xs"
  shows "\<exists>ys. ReadSnoozeFile (snd (SaveSnooze rootOf s d)) = Inr ys \<and>
    filter (\<lambda>e. snWatchdog e \<noteq> snWatchdog s) ys = filter (\<lambda>e. snWatchdog e \<noteq> snWatchdog s) xs"
proof (cases rule: SaveSnooze_cases [of rootOf s d])
  case (1 e)
  then show ?thesis using assms read_cong by metis
next
  case (2 s1 xs' e)
  then have "snWatchdog s1 = snWatchdog s" using resolve_thread_kind by metis
  with 2 assms show ?thesis using other_kind_without [of s1 xs] by auto
next
  case (3 s1 xs')
  then have "snWatchdog s1 = snWatchdog s" using resolve_thread_kind by metis
  with 3 assms show ?thesis using other_kind_put [of s1 xs] by auto
qed

lemma SaveSnooze_Inr:
  assumes "SaveSnooze rootOf s d = (Inr s1, d')"
  shows "\<exists>xs. resolve_thread rootOf s = Inr s1 \<and> ReadSnoozeFile d = Inr xs \<and>
              ReadSnoozeFile d' = Inr (put_entry s1 xs)"
  by (cases rule: SaveSnooze_cases [of rootOf s d]) (use assms in auto)

lemma SaveSnooze_lookup:
  assumes "SaveSnooze rootOf s d = (Inr s1, d')" "disk_inv root d" "roots_by root rootOf"
    "snThreadId s \<noteq> [] \<Longrightarrow> rooted root s"
  shows "findSnoozeByThread t wd d' =
    (if (t, wd) = entry_key s1 then Inr (Some s1) else findSnoozeByThread t wd d)"
proof -
  from SaveSnooze_Inr [OF assms(1)] obtain xs where
    xs: "resolve_thread rootOf s = Inr s1" "ReadSnoozeFile d = Inr xs" "ReadSnoozeFile d' = Inr (put_entry s1 xs)"
    by blast
  have a: "entries_inv root xs" "admissible_entry root s1"
    by (rule disk_inv_read [OF assms(2) xs(2)], rule resolve_thread_admissible [OF assms(3,4) xs(1)])
  have "find_by_thread t wd (put_entry s1 xs) = (if (t, wd) = entry_key s1 then Some s1 else find_by_thread t wd xs)"
    using entries.lookup_put [OF a, of "(t, wd)"] by (simp add: lookup_entry_def)
  then show ?thesis using xs by (simp add: findSnoozeByThread_def)
qed

section \<open>Properties\<close>

text \<open>C17. One entry of each kind per thread: every operation on the snooze file keeps the invariant
  that a thread has at most one scheduled task and at most one watchdog, each recorded under the
  thread of its Message-Id, whatever write of the file fails on the way.\<close>

theorem snooze_operations_keep_invariant:
  assumes "disk_inv root d" "roots_by root rootOf" "snThreadId s \<noteq> [] \<Longrightarrow> rooted root s"
    and "threadId = root messageId"
  shows "disk_inv root (snd (SaveSnooze rootOf s d)) \<and> disk_inv root (snd (DeleteSnooze s d)) \<and>
    disk_inv root (snd (AbortThreadSnoozes threadId d)) \<and>
    disk_inv root (snd (ArmWaitingWatchdog rootOf now nudge messageId threadId mins d)) \<and>
    disk_inv root (snd (AdvanceOrDeleteSnooze cron db rootOf now s d))"
  by (intro conjI SaveSnooze_inv [OF assms(1-3)] DeleteSnooze_inv [OF assms(1)] AbortThreadSnoozes_inv [OF assms(1)]
      ArmWaitingWatchdog_inv [OF assms(1,2,4)] AdvanceOrDeleteSnooze_inv [OF assms(1-3)])

definition sample_task :: snooze where
  "sample_task = empty_snooze\<lparr>snThreadId := ''<t>'', snMessageId := ''<m>'', snCrontab := ''0 6 * * *''\<rparr>"

definition sample_disk :: snooze_disk where
  "sample_disk = \<lparr>skFile = Stored [sample_task], skFaults = [None, Some (WriteFails (Err ''disk full''))]\<rparr>"

theorem snooze_operations_keep_invariant_witness:
  "disk_inv (\<lambda>m. ''<t>'') (snd (SaveSnooze (\<lambda>m. Inr ''<t>'') sample_task sample_disk))"
proof -
  have "disk_inv (\<lambda>m. ''<t>'') sample_disk"
    by (simp add: disk_inv_def sample_disk_def ReadSnoozeFile_def entries_inv_def rooted_def sample_task_def)
  moreover have "roots_by (\<lambda>m. ''<t>'') (\<lambda>m. Inr ''<t>'')" by (simp add: roots_by_def)
  moreover have "rooted (\<lambda>m. ''<t>'') sample_task" by (simp add: rooted_def sample_task_def)
  ultimately show ?thesis
    using snooze_operations_keep_invariant [of "\<lambda>m. ''<t>''" sample_disk "\<lambda>m. Inr ''<t>''" sample_task "''<t>''" "''<m>''"]
    by simp
qed

text \<open>The two kinds of entry do not interfere: saving, deleting or advancing an entry leaves the
  list of entries of the other kind as it was, in the same order, on every outcome of the writes.\<close>

theorem snooze_kinds_are_independent:
  assumes "ReadSnoozeFile d = Inr xs"
    and "d' \<in> {snd (SaveSnooze rootOf s d), snd (DeleteSnooze s d), snd (AdvanceOrDeleteSnooze cron db rootOf now s d)}"
  shows "\<exists>ys. ReadSnoozeFile d' = Inr ys \<and>
    filter (\<lambda>e. snWatchdog e \<noteq> snWatchdog s) ys = filter (\<lambda>e. snWatchdog e \<noteq> snWatchdog s) xs"
proof -
  have "\<exists>ys. ReadSnoozeFile (snd (AdvanceOrDeleteSnooze cron db rootOf now s d)) = Inr ys \<and>
    filter (\<lambda>e. snWatchdog e \<noteq> snWatchdog s) ys = filter (\<lambda>e. snWatchdog e \<noteq> snWatchdog s) xs"
  proof -
    have "\<exists>ys. ReadSnoozeFile (snd (SaveSnooze rootOf (s\<lparr>snUnSnooze := u\<rparr>) d)) = Inr ys \<and>
        filter (\<lambda>e. snWatchdog e \<noteq> snWatchdog s) ys = filter (\<lambda>e. snWatchdog e \<noteq> snWatchdog s) xs" for u
      using SaveSnooze_other_kind [OF assms(1), of rootOf "s\<lparr>snUnSnooze := u\<rparr>"] by simp
    then show ?thesis
      using DeleteSnooze_other_kind [OF assms(1)] assms(1)
      by (simp add: AdvanceOrDeleteSnooze_def io_discard split: sum.split)
  qed
  with assms SaveSnooze_other_kind DeleteSnooze_other_kind show ?thesis by blast
qed

theorem snooze_kinds_are_independent_witness:
  "\<exists>ys. ReadSnoozeFile (snd (DeleteSnooze sample_task sample_disk)) = Inr ys \<and>
    filter (\<lambda>e. snWatchdog e \<noteq> snWatchdog sample_task) ys = []"
proof -
  have "ReadSnoozeFile sample_disk = Inr [sample_task]" by (simp add: ReadSnoozeFile_def sample_disk_def)
  from snooze_kinds_are_independent [OF this, of "snd (DeleteSnooze sample_task sample_disk)" "\<lambda>m. Inr ''<t>''"
      sample_task "\<lambda>c. Inl (Err c)" "\<lambda>z. None" zero_time]
  show ?thesis by simp
qed

text \<open>The poll loop takes the entry that has been due the longest: \<open>NextSnoozed\<close> returns an entry
  of the file that is due and that no due entry precedes, and it returns nothing exactly when no
  entry is due.\<close>

theorem NextSnoozed_is_oldest_due:
  assumes "ReadSnoozeFile d = Inr xs"
  shows "case NextSnoozed now d of
      Inl e \<Rightarrow> False
    | Inr None \<Rightarrow> (\<forall>e\<in>set xs. tmNanos (snUnSnooze e) > tmNanos now)
    | Inr (Some s) \<Rightarrow> s \<in> set xs \<and> tmNanos (snUnSnooze s) \<le> tmNanos now \<and>
        (\<forall>e\<in>set xs. tmNanos (snUnSnooze e) \<le> tmNanos now \<longrightarrow> tmNanos (snUnSnooze s) \<le> tmNanos (snUnSnooze e))"
  using oldest_due_cases [of None xs now] assms
  by (auto simp: NextSnoozed_def tm_before_def tm_after_def not_less split: option.splits)

theorem NextSnoozed_is_oldest_due_witness:
  "NextSnoozed zero_time sample_disk = Inr (Some sample_task)"
proof -
  have "ReadSnoozeFile sample_disk = Inr [sample_task]" by (simp add: ReadSnoozeFile_def sample_disk_def)
  moreover have "tmNanos (snUnSnooze sample_task) = tmNanos zero_time"
    by (simp add: sample_task_def empty_snooze_def)
  ultimately show ?thesis
    using NextSnoozed_is_oldest_due [of sample_disk "[sample_task]" zero_time]
    by (auto split: sum.splits option.splits)
qed

text \<open>Aborting a thread: when the file is written, it keeps exactly the entries of other threads
  and the recurring schedules of this one, in order, and the count returned is the number of
  watchdogs and one-shot runs dropped.\<close>

theorem AbortThreadSnoozes_keeps_recurring:
  assumes "ReadSnoozeFile d = Inr xs" "AbortThreadSnoozes threadId d = ((n, Inr ()), d')"
  shows "ReadSnoozeFile d' =
      Inr (filter (\<lambda>e. snThreadId e \<noteq> threadId \<or> (\<not> snWatchdog e \<and> \<not> snOnce e)) xs) \<and>
    n = length (filter (\<lambda>e. snThreadId e = threadId \<and> (snWatchdog e \<or> snOnce e)) xs)"
proof -
  let ?ys = "filter (keeps_on_abort threadId) xs"
  have n: "length xs - length ?ys = length (filter (\<lambda>e. \<not> keeps_on_abort threadId e) xs)"
    using sum_length_filter_compl [of "keeps_on_abort threadId" xs] by linarith
  have k: "keeps_on_abort threadId = (\<lambda>e. snThreadId e \<noteq> threadId \<or> (\<not> snWatchdog e \<and> \<not> snOnce e))"
    "(\<lambda>e. \<not> keeps_on_abort threadId e) = (\<lambda>e. snThreadId e = threadId \<and> (snWatchdog e \<or> snOnce e))"
    by (auto simp: keeps_on_abort_def)
  have "ReadSnoozeFile d' = Inr ?ys \<and> n = length xs - length ?ys"
  proof (cases "length xs - length ?ys = 0")
    case True
    then have "filter (\<lambda>e. \<not> keeps_on_abort threadId e) xs = []" using n by simp
    then have "?ys = xs" by (simp add: filter_empty_conv filter_id_conv)
    with True assms show ?thesis by (simp add: AbortThreadSnoozes_def)
  next
    case False
    with assms have "SaveSnoozeFile ?ys d = (Inr (), d')" "n = length xs - length ?ys"
      by (auto simp: AbortThreadSnoozes_def Let_def split: prod.splits)
    then show ?thesis by (cases rule: save_file_cases [of ?ys d]) simp_all
  qed
  then show ?thesis using n by (simp add: k)
qed

definition sample_watchdog :: snooze where
  "sample_watchdog = sample_task\<lparr>snWatchdog := True, snOnce := True\<rparr>"

definition sample_disk2 :: snooze_disk where
  "sample_disk2 = \<lparr>skFile = Stored [sample_task, sample_watchdog], skFaults = []\<rparr>"

theorem AbortThreadSnoozes_keeps_recurring_witness:
  "ReadSnoozeFile (sample_disk2\<lparr>skFile := Stored [sample_task]\<rparr>) = Inr [sample_task]"
proof -
  have r: "ReadSnoozeFile sample_disk2 = Inr [sample_task, sample_watchdog]"
    by (simp add: ReadSnoozeFile_def sample_disk2_def)
  moreover have "AbortThreadSnoozes ''<t>'' sample_disk2 = ((1, Inr ()), sample_disk2\<lparr>skFile := Stored [sample_task]\<rparr>)"
    using r by (simp add: AbortThreadSnoozes_def keeps_on_abort_def sample_task_def sample_watchdog_def
        empty_snooze_def SaveSnoozeFile_def sample_disk2_def)
  ultimately show ?thesis
    using AbortThreadSnoozes_keeps_recurring [of sample_disk2 "[sample_task, sample_watchdog]" "''<t>''" 1]
    by (simp add: sample_task_def sample_watchdog_def empty_snooze_def)
qed

text \<open>Looking up after a save: when \<open>SaveSnooze\<close> succeeds, the thread's entry of that kind is the
  one saved, and every other thread and kind answers as before.\<close>

theorem SaveSnooze_then_find:
  assumes "SaveSnooze rootOf s d = (Inr s1, d')" "disk_inv root d" "roots_by root rootOf"
    "snThreadId s \<noteq> [] \<Longrightarrow> rooted root s"
  shows "(if wd then FindWatchdogByThread t d' else FindSnoozeByThread t d') =
    (if t = snThreadId s1 \<and> wd = snWatchdog s then Inr (Some s1)
     else if wd then FindWatchdogByThread t d else FindSnoozeByThread t d)"
proof -
  have "snWatchdog s1 = snWatchdog s"
    using SaveSnooze_Inr [OF assms(1)] resolve_thread_kind by blast
  with SaveSnooze_lookup [OF assms, of t wd] show ?thesis
    by (cases wd) (auto simp: FindWatchdogByThread_def FindSnoozeByThread_def entry_key_def)
qed

theorem SaveSnooze_then_find_witness:
  "FindWatchdogByThread ''<t>'' (sample_disk2\<lparr>skFile := Stored [sample_task, sample_watchdog\<lparr>snFires := 1\<rparr>]\<rparr>)
     = Inr (Some (sample_watchdog\<lparr>snFires := 1\<rparr>))"
proof -
  let ?w = "sample_watchdog\<lparr>snFires := 1\<rparr>"
  have "SaveSnooze (\<lambda>m. Inr ''<t>'') ?w sample_disk2 =
      (Inr ?w, sample_disk2\<lparr>skFile := Stored [sample_task, ?w]\<rparr>)"
    by (simp add: SaveSnooze_def resolve_thread_def DeleteSnooze_def ReadSnoozeFile_def SaveSnoozeFile_def
        sample_disk2_def sample_task_def sample_watchdog_def empty_snooze_def without_def same_message_def
        io_bind_def io_wrap_def io_return_def)
  moreover have "disk_inv (\<lambda>m. ''<t>'') sample_disk2" "roots_by (\<lambda>m. ''<t>'') (\<lambda>m. Inr ''<t>'')"
    "rooted (\<lambda>m. ''<t>'') ?w"
    by (auto simp: disk_inv_def sample_disk2_def ReadSnoozeFile_def entries_inv_def rooted_def sample_task_def
        sample_watchdog_def entry_key_def roots_by_def empty_snooze_def)
  ultimately show ?thesis
    using SaveSnooze_then_find [of "\<lambda>m. Inr ''<t>''" ?w sample_disk2 ?w _ "\<lambda>m. ''<t>''" True "''<t>''"]
    by (simp add: sample_watchdog_def sample_task_def)
qed

text \<open>Arming a watchdog: with a positive delay and known identifiers, when the file is written the
  thread's watchdog fires at the deadline, replays the message, is a one-shot, and starts from zero
  nudges; only when it is re-armed during a watchdog's own nudge does it keep the count of the
  watchdog it replaces.\<close>

theorem ArmWaitingWatchdog_deadline_and_count:
  assumes "ArmWaitingWatchdog rootOf now nudge messageId threadId mins d = (Inr (), d')"
    and "disk_inv root d" "roots_by root rootOf" "threadId = root messageId"
    and "0 < mins" "trim_space messageId \<noteq> []" "trim_space threadId \<noteq> []"
  shows "\<exists>w. FindWatchdogByThread threadId d' = Inr (Some w) \<and> snOnce w \<and> snMessageId w = messageId \<and>
    snUnSnooze w = tm_add (wrap64 (minutes mins)) now \<and>
    snFires w = (if nudge then (case FindWatchdogByThread threadId d of Inr (Some o') \<Rightarrow> snFires o' | _ \<Rightarrow> 0) else 0)"
proof -
  let ?w = "watchdog_entry now messageId threadId mins (carried_fires nudge threadId d)"
  have ne: "threadId \<noteq> []" using assms(7) by auto
  have "\<exists>s1. SaveSnooze rootOf ?w d = (Inr s1, d')"
    using assms(1,5-7) by (auto simp: ArmWaitingWatchdog_def io_bind_def io_return_def split: prod.splits sum.splits)
  moreover have "resolve_thread rootOf ?w = Inr ?w"
    using ne by (simp add: resolve_thread_def watchdog_entry_def)
  ultimately have sv: "SaveSnooze rootOf ?w d = (Inr ?w, d')"
    using SaveSnooze_Inr by fastforce
  have "rooted root ?w" using assms(4) by (simp add: rooted_def watchdog_entry_def)
  from SaveSnooze_lookup [OF sv assms(2,3) this, of threadId True]
  have "FindWatchdogByThread threadId d' = Inr (Some ?w)"
    by (simp add: FindWatchdogByThread_def entry_key_def watchdog_entry_def)
  then show ?thesis by (simp add: watchdog_entry_def carried_fires_def)
qed

theorem ArmWaitingWatchdog_deadline_and_count_witness:
  "\<exists>d'. ArmWaitingWatchdog (\<lambda>m. Inr ''<t>'') (utc 0) True ''<m>'' ''<t>'' 5 sample_disk2 = (Inr (), d') \<and>
     (\<exists>w. FindWatchdogByThread ''<t>'' d' = Inr (Some w) \<and> tmNanos (snUnSnooze w) = 300 * 10 ^ 9)"
proof -
  let ?w = "watchdog_entry (utc 0) ''<m>'' ''<t>'' 5 0"
  let ?d = "sample_disk2\<lparr>skFile := Stored [sample_task, ?w]\<rparr>"
  have t: "trim_space ''<m>'' = ''<m>''" "trim_space ''<t>'' = ''<t>''" by code_simp+
  have "carried_fires True ''<t>'' sample_disk2 = 0"
    by (simp add: carried_fires_def FindWatchdogByThread_def findSnoozeByThread_def find_by_thread_def
        ReadSnoozeFile_def sample_disk2_def sample_task_def sample_watchdog_def empty_snooze_def)
  then have arm: "ArmWaitingWatchdog (\<lambda>m. Inr ''<t>'') (utc 0) True ''<m>'' ''<t>'' 5 sample_disk2 = (Inr (), ?d)"
    by (simp add: ArmWaitingWatchdog_def t SaveSnooze_def resolve_thread_def DeleteSnooze_def ReadSnoozeFile_def
        SaveSnoozeFile_def sample_disk2_def sample_task_def sample_watchdog_def empty_snooze_def without_def
        same_message_def io_bind_def io_wrap_def io_return_def watchdog_entry_def)
  moreover have "disk_inv (\<lambda>m. ''<t>'') sample_disk2" "roots_by (\<lambda>m. ''<t>'') (\<lambda>m. Inr ''<t>'')"
    by (auto simp: disk_inv_def sample_disk2_def ReadSnoozeFile_def entries_inv_def rooted_def sample_task_def
        sample_watchdog_def entry_key_def roots_by_def empty_snooze_def)
  ultimately have "\<exists>w. FindWatchdogByThread ''<t>'' ?d = Inr (Some w) \<and>
      snUnSnooze w = tm_add (wrap64 (minutes 5)) (utc 0)"
    using ArmWaitingWatchdog_deadline_and_count [OF arm, of "\<lambda>m. ''<t>''"] t by auto
  then show ?thesis using arm by (fastforce simp: wrap64_def minutes_def utc_def)
qed

text \<open>After a run: when the file is written, a one-shot entry is gone from its thread, and a
  recurring one is the thread's entry of its kind, unchanged but for the next tick of its schedule,
  taken in the time zone of the entry.\<close>

theorem AdvanceOrDeleteSnooze_outcome:
  assumes "AdvanceOrDeleteSnooze cron db rootOf now s d = (Inr (), d')" "disk_inv root d"
    and "roots_by root rootOf" "admissible_entry root s"
  shows "if snOnce s then findSnoozeByThread (snThreadId s) (snWatchdog s) d' = Inr None
    else \<exists>next. cron (snCrontab s) = Inr next \<and>
      findSnoozeByThread (snThreadId s) (snWatchdog s) d' =
        Inr (Some (s\<lparr>snUnSnooze := next (local_now db (snTimezone s) now)\<rparr>))"
proof (cases "snOnce s")
  case True
  then have d': "DeleteSnooze s d = (Inr (), d')" using assms(1) by (simp add: AdvanceOrDeleteSnooze_def)
  then obtain xs where xs: "ReadSnoozeFile d = Inr xs" "ReadSnoozeFile d' = Inr (without s xs)"
    by (cases rule: DeleteSnooze_cases [of s d]) auto
  have "find (\<lambda>e. snThreadId e = snThreadId s \<and> snWatchdog e = snWatchdog s) (without s xs) = None"
    using without_by_key [OF disk_inv_read [OF assms(2) xs(1)] assms(4)]
    by (auto simp: find_None_iff entry_key_def)
  with xs True show ?thesis by (simp add: findSnoozeByThread_def find_by_thread_def)
next
  case False
  with assms(1) obtain nx where nx: "cron (snCrontab s) = Inr nx"
    by (cases "cron (snCrontab s)") (auto simp: AdvanceOrDeleteSnooze_def)
  let ?s = "s\<lparr>snUnSnooze := nx (local_now db (snTimezone s) now)\<rparr>"
  have r: "resolve_thread rootOf ?s = Inr ?s"
    using assms(4) by (simp add: resolve_thread_def admissible_entry_def)
  have "\<exists>s1. SaveSnooze rootOf ?s d = (Inr s1, d')"
    using assms(1) False nx
    by (auto simp: AdvanceOrDeleteSnooze_def io_bind_def io_return_def split: prod.splits sum.splits)
  then have sv: "SaveSnooze rootOf ?s d = (Inr ?s, d')" using SaveSnooze_Inr r by fastforce
  have "rooted root ?s" using assms(4) by (simp add: admissible_entry_def rooted_def)
  from SaveSnooze_lookup [OF sv assms(2,3) this, of "snThreadId s" "snWatchdog s"] nx False
  show ?thesis by (simp add: entry_key_def)
qed

theorem AdvanceOrDeleteSnooze_outcome_witness:
  "\<exists>d'. AdvanceOrDeleteSnooze (\<lambda>c. Inr (tm_add (minutes 60))) (\<lambda>z. None) (\<lambda>m. Inr ''<t>'') (utc 7) sample_task sample_disk2
      = (Inr (), d') \<and>
    findSnoozeByThread ''<t>'' False d' = Inr (Some (sample_task\<lparr>snUnSnooze := utc (7 + minutes 60)\<rparr>))"
proof -
  let ?s = "sample_task\<lparr>snUnSnooze := utc (7 + minutes 60)\<rparr>"
  let ?cron = "\<lambda>c :: string. Inr (tm_add (minutes 60)) :: (gotime \<Rightarrow> gotime) result"
  let ?d = "sample_disk2\<lparr>skFile := Stored [sample_watchdog, ?s]\<rparr>"
  have a: "AdvanceOrDeleteSnooze ?cron (\<lambda>z. None) (\<lambda>m. Inr ''<t>'') (utc 7) sample_task sample_disk2 = (Inr (), ?d)"
    by (simp add: AdvanceOrDeleteSnooze_def SaveSnooze_def resolve_thread_def DeleteSnooze_def ReadSnoozeFile_def
        SaveSnoozeFile_def sample_disk2_def sample_task_def sample_watchdog_def empty_snooze_def without_def
        same_message_def io_bind_def io_wrap_def io_return_def local_now_def utc_def tm_add_def)
  moreover have "disk_inv (\<lambda>m. ''<t>'') sample_disk2" "roots_by (\<lambda>m. ''<t>'') (\<lambda>m. Inr ''<t>'')"
    "admissible_entry (\<lambda>m. ''<t>'') sample_task"
    by (auto simp: disk_inv_def sample_disk2_def ReadSnoozeFile_def entries_inv_def rooted_def sample_task_def
        sample_watchdog_def entry_key_def roots_by_def admissible_entry_def empty_snooze_def)
  ultimately have "findSnoozeByThread ''<t>'' False ?d = Inr (Some ?s)"
    using AdvanceOrDeleteSnooze_outcome [OF a, of "\<lambda>m. ''<t>''"]
    by (simp add: sample_task_def empty_snooze_def local_now_def utc_def tm_add_def)
  with a show ?thesis by auto
qed

lemma parse_offset_show:
  assumes "h < 24" "m < 60"
  shows "parse_offset ((if neg then ''-'' else ''+'') @ pad2 h @ pad2 m) =
    Some (if neg then - int (h * 3600 + m * 60) else int (h * 3600 + m * 60))"
proof -
  have d: "h div 10 < 10" "m div 10 < 10" "h mod 10 < 10" "m mod 10 < 10" using assms by auto
  have dig: "is_digit (char_of (48 + h div 10))" "is_digit (char_of (48 + h mod 10))"
    "is_digit (char_of (48 + m div 10))" "is_digit (char_of (48 + m mod 10))"
    using d by (intro is_digit_char_of; simp)+
  have "pad2 h = [char_of (48 + h div 10), char_of (48 + h mod 10)]"
    "pad2 m = [char_of (48 + m div 10), char_of (48 + m mod 10)]"
    using assms pad2_digits [of h] pad2_digits [of m] by simp_all
  then show ?thesis
    using dig digit_value_char_of [OF d(1)] digit_value_char_of [OF d(2)] digit_value_char_of [OF d(3)]
      digit_value_char_of [OF d(4)] assms
    by (simp add: mult.commute)
qed

lemma quot_3600: "quot off 3600 = sgn off * (\<bar>off\<bar> div 3600)"
  by (simp add: quot_def)

lemma remt_3600: "remt off 3600 = sgn off * (\<bar>off\<bar> mod 3600)"
proof -
  have "off = sgn off * \<bar>off\<bar>" by (simp add: sgn_mult_abs)
  also have "\<bar>off\<bar> = 3600 * (\<bar>off\<bar> div 3600) + \<bar>off\<bar> mod 3600" by simp
  finally have "off = 3600 * (sgn off * (\<bar>off\<bar> div 3600)) + sgn off * (\<bar>off\<bar> mod 3600)"
    by (simp only: distrib_left mult.left_commute)
  then show ?thesis unfolding remt_def quot_3600 by linarith
qed

lemma abs_minutes: "\<bar>quot (remt off 3600) 60\<bar> = \<bar>off\<bar> mod 3600 div 60"
  by (cases "off = 0"; cases "\<bar>off\<bar> mod 3600 = 0")
    (simp_all add: remt_3600 quot_def abs_mult sgn_mult abs_sgn_eq)

lemma abs_hours: "\<bar>quot off 3600\<bar> = \<bar>off\<bar> div 3600"
  by (cases "off = 0") (simp_all add: quot_3600 abs_mult abs_sgn_eq)

lemma hours_neg: "quot off 3600 < 0 \<longleftrightarrow> off \<le> -3600"
proof (cases "off < 0")
  case True
  then have "quot off 3600 = - (- off div 3600)" by (simp add: quot_3600)
  moreover have "0 < - off div 3600 \<longleftrightarrow> 3600 \<le> - off"
    by (simp add: pos_imp_zdiv_pos_iff)
  ultimately show ?thesis by linarith
next
  case False
  then show ?thesis by (auto simp: quot_3600 sgn_if pos_imp_zdiv_neg_iff not_less pos_imp_zdiv_nonneg_iff)
qed

lemma seconds_of_parts: "a mod 60 = 0 \<Longrightarrow> a div 3600 * 3600 + a mod 3600 div 60 * 60 = (a :: int)"
proof -
  assume "a mod 60 = 0"
  then have "a mod 3600 mod 60 = 0" by (simp add: mod_mod_cancel)
  then have "a mod 3600 div 60 * 60 = a mod 3600"
    using div_mult_mod_eq [of "a mod 3600" 60] by linarith
  then show ?thesis by simp
qed

text \<open>A stored zone gives back its offset: for a time whose zone is not an IANA name and whose
  offset is a whole number of minutes within a day, loading the string made from it yields the same
  offset, except that the sign of a negative offset of less than one hour is lost.\<close>

theorem LoadTimezone_TimezoneFromTime:
  assumes "db (tmZone t) = None \<or> tmZone t = [] \<or> tmZone t = ''Local''"
    and "\<bar>tmOffset t\<bar> < 86400" "tmOffset t mod 60 = 0"
    and "db (TimezoneFromTime db t) = None"
  shows "\<exists>loc. LoadTimezone db (TimezoneFromTime db t) = Inr loc \<and>
    snd (loc n) = (if -3600 < tmOffset t \<and> tmOffset t < 0 then - tmOffset t else tmOffset t)"
proof -
  let ?off = "tmOffset t"
  let ?h = "nat \<bar>quot ?off 3600\<bar>" and ?m = "nat \<bar>quot (remt ?off 3600) 60\<bar>"
  have hm: "?h < 24" "?m < 60"
  proof -
    have "\<bar>?off\<bar> div 3600 < 24" using assms(2) by linarith
    moreover have "\<bar>?off\<bar> mod 3600 div 60 < 60"
    proof -
      have "\<bar>?off\<bar> mod 3600 < 3600" by simp
      then show ?thesis by linarith
    qed
    ultimately show "?h < 24" "?m < 60" by (simp_all add: abs_hours abs_minutes nat_less_iff)
  qed
  have tz: "TimezoneFromTime db t = (if ?off \<le> -3600 then ''-'' else ''+'') @ pad2 ?h @ pad2 ?m"
    using assms(1) by (auto simp: TimezoneFromTime_def Let_def show_signed_hours_def hours_neg)
  have "\<bar>?off\<bar> mod 60 = 0" using assms(3) by (simp add: abs_if zmod_zminus1_eq_if)
  then have secs: "int (?h * 3600 + ?m * 60) = \<bar>?off\<bar>"
    using seconds_of_parts [of "\<bar>?off\<bar>"]
      pos_imp_zdiv_nonneg_iff [of 3600 "\<bar>?off\<bar>"] pos_imp_zdiv_nonneg_iff [of 60 "\<bar>?off\<bar> mod 3600"]
    by (simp add: abs_hours abs_minutes)
  have "LoadTimezone db (TimezoneFromTime db t) =
      Inr (fixed_zone (TimezoneFromTime db t) (if ?off \<le> -3600 then - \<bar>?off\<bar> else \<bar>?off\<bar>))"
    using parse_offset_show [OF hm, of "?off \<le> -3600"] assms(4)
    by (simp only: LoadTimezone_def tz secs option.case)
  then show ?thesis by (auto simp: fixed_zone_def)
qed

theorem LoadTimezone_TimezoneFromTime_witness:
  "\<exists>loc. LoadTimezone (\<lambda>z. None) ''-0530'' = Inr loc \<and> snd (loc 0) = -19800"
proof -
  let ?t = "tm_in (fixed_zone [] (-19800)) (utc 0)"
  have "tmOffset ?t = -19800" "TimezoneFromTime (\<lambda>z. None) ?t = ''-0530''"
    by (simp add: tm_in_def fixed_zone_def, code_simp)
  with LoadTimezone_TimezoneFromTime [of "\<lambda>z. None" ?t 0] show ?thesis by simp
qed

text \<open>The lost sign on a concrete time: half an hour west of UTC is stored as half an hour east.\<close>

theorem TimezoneFromTime_loses_sign:
  "TimezoneFromTime (\<lambda>z. None) (tm_in (fixed_zone [] (-1800)) (utc 0)) = ''+0030''"
  by code_simp

end
