(* ===== verification/Status.thy ===== *)
theory Status
  imports Sending Threads Snooze
begin

text \<open>
  The tool that sets the status of a task (\<open>internal/tools/status.go\<close>): the gate on deliveries, the write of
  the status, the completion hooks and the watchdog of a task that waits.  The world holds the memory files,
  the snooze file and whatever the hooks change.
\<close>

record 'h status_world =
  swMemory :: memory_dir
  swSnooze :: snooze_disk
  swHooks :: 'h

record status_msg =
  stStatus :: string
  stMessageId :: string

definition ungated_status :: "string \<Rightarrow> goerror" where
  "ungated_status status =
     Err (''cannot set status to '' @ go_quote status @ '' before delivering a message '' @ em_dash @
          '' no send tool has been called this turn. Your assistant text is not visible to the recipient; '' @
          ''the only way to communicate is to call report_strict_tool (or report_tool / message_tool, '' @
          ''whichever your toolset provides). Send the message first, then update the status. If you '' @
          ''genuinely have nothing to deliver and want to abort, set status to '' @
          go_quote status_error @ '' instead.'')"

text \<open>
  \<open>nudge\<close> is the mark that the context carries during the run of a watchdog.  A failure to arm the watchdog
  is only logged.
\<close>

definition arm_watchdog ::
  "send_env \<Rightarrow> bool \<Rightarrow> tracker \<Rightarrow> string \<Rightarrow> snooze_disk \<Rightarrow> snooze_disk" where
  "arm_watchdog env nudge t status d =
     (case seSource env of
        Some src \<Rightarrow>
          if status = status_waiting \<and> WaitingWatchdogMinutes (seCfg env) > 0 \<and> DeliveryCount t > 0 \<and>
             eMessageId src \<noteq> []
          then snd (ArmWaitingWatchdog (GetThreadRootId (seGet env)) (seNow env) nudge (eMessageId src)
                      (GetThreadRoot src) (WaitingWatchdogMinutes (seCfg env)) d)
          else d
      | None \<Rightarrow> d)"

definition setTaskStatus ::
  "sdk \<Rightarrow> send_env \<Rightarrow> bool \<Rightarrow> ('h \<Rightarrow> 'h) list \<Rightarrow> status_msg result \<Rightarrow> ('h status_world, string) sending" where
  "setTaskStatus sdk env nudge hooks input = (\<lambda>(w, t).
     case wrap_err ''failed to parse setTaskStatus input: '' input of
       Inl e \<Rightarrow> (Inl e, (w, t))
     | Inr p \<Rightarrow>
         if HasSendTracker t \<and> DeliveryCount t = 0 \<and> (stStatus p = status_waiting \<or> stStatus p = status_complete)
         then (Inl (ungated_status (stStatus p)), (w, t))
         else (case SetMemoryStatus sdk (seGet env) (seNow env) (stStatus p) (EnsureAngleBrackets (stMessageId p))
                      (swMemory w) of
            (Inl e, d) \<Rightarrow> (Inl e, (w\<lparr>swMemory := d\<rparr>, t))
          | (Inr _, d) \<Rightarrow>
              (Inr ''Status Updated'',
               (w\<lparr>swMemory := d,
                  swHooks := (if stStatus p = status_complete then fireTaskComplete hooks (swHooks w) else swHooks w),
                  swSnooze := arm_watchdog env nudge t (stStatus p) (swSnooze w)\<rparr>, t))))"

section \<open>The calls of one turn\<close>

text \<open>
  The communication tools a model may call in a turn, each with the environment of its moment (the clock and
  the mailbox move on).  The agent runs the calls one after the other over the same world and counter; a turn
  starts with a fresh counter.
\<close>

datatype comm_call =
    CallMessage "send_mail_msg result"
  | CallReport "send_mail_msg result"
  | CallStrict "send_mail_msg result"
  | CallStatus "status_msg result"

record 'h turn_env =
  teSdk :: sdk
  teNudge :: bool
  teReportHooks :: "(sent_report \<Rightarrow> 'h status_world \<Rightarrow> 'h status_world) list"
  teCompleteHooks :: "('h \<Rightarrow> 'h) list"
  teDeliver :: "email \<Rightarrow> ('h status_world, unit) io"

fun comm_exec :: "'h turn_env \<Rightarrow> send_env \<Rightarrow> comm_call \<Rightarrow> ('h status_world, string) sending" where
  "comm_exec te env (CallMessage i) = sendEmailInternal env (teDeliver te) i"
| "comm_exec te env (CallReport i) = sendReportEmail env (teDeliver te) i"
| "comm_exec te env (CallStrict i) = sendReportStrictEmail env (teReportHooks te) (teDeliver te) i"
| "comm_exec te env (CallStatus i) = setTaskStatus (teSdk te) env (teNudge te) (teCompleteHooks te) i"

text \<open>A step of the turn appends the call and its result to the trace.\<close>

type_synonym 'h turn_state = "('h status_world \<times> tracker) \<times> (comm_call \<times> string result) list"

inductive comm_step :: "'h turn_env \<Rightarrow> 'h turn_state \<Rightarrow> 'h turn_state \<Rightarrow> bool" for te where
  "comm_exec te env c st = (r, st') \<Longrightarrow> comm_step te (st, trace) (st', trace @ [(c, r)])"

inductive turn_reach :: "'h turn_env \<Rightarrow> 'h turn_state \<Rightarrow> bool" for te where
  turn_start: "turn_reach te ((w, WithSendTracker t), [])"
| turn_step: "turn_reach te a \<Longrightarrow> comm_step te a b \<Longrightarrow> turn_reach te b"

inductive_cases comm_stepE: "comm_step te a b"

section \<open>Properties\<close>

fun is_send :: "comm_call \<Rightarrow> bool" where
  "is_send (CallStatus i) = False"
| "is_send c = True"

definition delivered :: "(comm_call \<times> string result) list \<Rightarrow> nat" where
  "delivered trace = length (filter (\<lambda>(c, r). is_send c \<and> is_ok r) trace)"

fun closes :: "comm_call \<Rightarrow> bool" where
  "closes (CallStatus (Inr p)) = (stStatus p = status_waiting \<or> stStatus p = status_complete)"
| "closes c = False"

lemma setTaskStatus_tracker: "snd (snd (setTaskStatus sdk env nudge hooks i st)) = snd st"
  by (cases st) (simp add: setTaskStatus_def Let_def split: sum.splits prod.splits)

lemma send_count:
  assumes "comm_exec te env c (w, t) = (r, (w', t'))" "is_send c"
  shows "t' = (if is_ok r then MarkDelivered t else t)"
  using assms
proof (cases c)
  case (CallMessage i)
  then show ?thesis using assms(1) sendEmail_count by (fastforce simp: sendEmailInternal_def split: sum.splits)
next
  case (CallReport i)
  with assms(1) have "sendReportEmail env (teDeliver te) i (w, t) = (r, (w', t'))" by simp
  then show ?thesis by (rule sendReportEmail_count)
next
  case (CallStrict i)
  with assms(1) have "sendReportStrictEmail env (teReportHooks te) (teDeliver te) i (w, t) = (r, (w', t'))" by simp
  then show ?thesis by (rule sendReportStrictEmail_count)
qed simp

text \<open>The counter is the number of successful sends so far, and a closing status had one before it.\<close>

definition turn_inv :: "'h turn_state \<Rightarrow> bool" where
  "turn_inv st \<longleftrightarrow> snd (fst st) = Some (delivered (snd st)) \<and>
     (\<forall>pre c r post. snd st = pre @ (c, r) # post \<longrightarrow> closes c \<longrightarrow> is_ok r \<longrightarrow> delivered pre > 0)"

lemma delivered_snoc: "delivered (trace @ [(c, r)]) = delivered trace + (if is_send c \<and> is_ok r then 1 else 0)"
  by (simp add: delivered_def)

lemma comm_exec_tracker:
  assumes "comm_exec te env c (w, Some n) = (r, (w', t'))"
  shows "t' = Some (n + (if is_send c \<and> is_ok r then 1 else 0))"
proof (cases c)
  case (CallStatus i)
  then show ?thesis using assms setTaskStatus_tracker [of "teSdk te" env "teNudge te" "teCompleteHooks te" i "(w, Some n)"]
    by simp
qed (use send_count [OF assms] in \<open>simp_all add: MarkDelivered_def\<close>)

lemma closing_needs_delivery:
  assumes "comm_exec te env c (w, Some n) = (r, st')" "closes c" "is_ok r"
  shows "n > 0"
  using assms
  by (cases c rule: closes.cases) (auto simp: setTaskStatus_def HasSendTracker_def DeliveryCount_def split: if_splits)

lemma comm_step_inv:
  assumes "comm_step te a b" "turn_inv a"
  shows "turn_inv b"
proof -
  from assms(1) obtain env c st r st' trace where
    e: "comm_exec te env c st = (r, st')" "a = (st, trace)" "b = (st', trace @ [(c, r)])" by (rule comm_stepE)
  obtain w t w' t' where st: "st = (w, t)" "st' = (w', t')" by (metis prod.collapse)
  from assms(2) e st have t: "t = Some (delivered trace)" by (simp add: turn_inv_def)
  with e st comm_exec_tracker have t': "t' = Some (delivered (trace @ [(c, r)]))"
    by (fastforce simp: delivered_snoc)
  have "delivered pre > 0"
    if split: "trace @ [(c, r)] = pre @ (d, q) # post" and d: "closes d" "is_ok q" for pre d q post
  proof (cases post rule: rev_cases)
    case Nil
    with split have "pre = trace" "d = c" "q = r" by auto
    with closing_needs_delivery e(1) st t d show ?thesis by fastforce
  next
    case (snoc us u)
    with split have "trace = pre @ (d, q) # us" by (simp flip: append_Cons append_assoc)
    with assms(2) e(2) d show ?thesis by (auto simp: turn_inv_def)
  qed
  with t' e(3) st show ?thesis by (simp add: turn_inv_def)
qed

text \<open>C11. The forcing function over a whole turn.  In any sequence of calls of a turn, a call that set the status
  to \<open>waiting\<close> or \<open>complete\<close> successfully was preceded, in the same turn, by a send that succeeded.\<close>

theorem closing_status_follows_a_delivery:
  assumes "turn_reach te (st, trace)"
  shows "\<forall>pre c r post. trace = pre @ (c, r) # post \<longrightarrow> closes c \<longrightarrow> is_ok r \<longrightarrow>
    (\<exists>d answer. (d, Inr answer) \<in> set pre \<and> is_send d)"
proof -
  have "turn_inv a" if "turn_reach te a" for a
    using that
  proof induction
    case (turn_start w t)
    then show ?case by (simp add: turn_inv_def WithSendTracker_def delivered_def)
  next
    case (turn_step a b)
    then show ?case using comm_step_inv by blast
  qed
  with assms have "turn_inv (st, trace)" by blast
  then have "delivered pre > 0" if "trace = pre @ (c, r) # post" "closes c" "is_ok r" for pre c r post
    using that by (auto simp: turn_inv_def)
  moreover have "\<exists>d answer. (d, Inr answer) \<in> set pre \<and> is_send d" if "delivered pre > 0"
    for pre :: "(comm_call \<times> string result) list"
    using that by (auto simp: delivered_def filter_empty_conv is_ok_iff)
  ultimately show ?thesis by blast
qed

text \<open>Inside a turn that has delivered nothing, \<open>waiting\<close> and \<open>complete\<close> are refused and nothing changes: no
  status is written, no hook runs, no watchdog is armed.\<close>

theorem undelivered_turn_cannot_close:
  assumes "status = status_waiting \<or> status = status_complete"
  shows "setTaskStatus sdk env nudge hooks (Inr \<lparr>stStatus = status, stMessageId = mid\<rparr>) (w, WithSendTracker t) =
    (Inl (ungated_status status), (w, WithSendTracker t))"
  using assms by (auto simp: setTaskStatus_def HasSendTracker_def DeliveryCount_def WithSendTracker_def)

text \<open>A turn that reports and then closes, for the instances.\<close>

definition demo_world :: "unit status_world" where
  "demo_world = \<lparr>swMemory = empty_dir, swSnooze = \<lparr>skFile = Absent, skFaults = []\<rparr>, swHooks = ()\<rparr>"

definition demo_turn :: "unit turn_env" where
  "demo_turn = \<lparr>teSdk = (\<lambda>r bs. Inr JNull), teNudge = False, teReportHooks = [], teCompleteHooks = [],
     teDeliver = (\<lambda>m. io_return ())\<rparr>"

lemma closing_status_follows_a_delivery_witness:
  "\<exists>st r1 r2. turn_reach demo_turn (st, [(CallStrict (Inr (demo_msg [] [] ''<q2>'')), r1),
      (CallStatus (Inr \<lparr>stStatus = ''complete'', stMessageId = ''<q2>''\<rparr>), r2)]) \<and> is_ok r2 \<and>
    (\<exists>d answer. (d, Inr answer) \<in> set [(CallStrict (Inr (demo_msg [] [] ''<q2>'')), r1)] \<and> is_send d)"
proof -
  let ?c1 = "CallStrict (Inr (demo_msg [] [] ''<q2>''))"
  let ?c2 = "CallStatus (Inr \<lparr>stStatus = ''complete'', stMessageId = ''<q2>''\<rparr>)"
  obtain r1 st1 where e1: "comm_exec demo_turn demo_env ?c1 (demo_world, WithSendTracker None) = (r1, st1)"
    by (metis prod.collapse)
  obtain r2 st2 where e2: "comm_exec demo_turn demo_env ?c2 st1 = (r2, st2)" by (metis prod.collapse)
  have "is_ok (fst (comm_exec demo_turn demo_env ?c2
      (snd (comm_exec demo_turn demo_env ?c1 (demo_world, WithSendTracker None)))))"
    by code_simp
  with e1 e2 have ok: "is_ok r2" by simp
  have "turn_reach demo_turn ((demo_world, WithSendTracker None), [])" by (rule turn_start)
  from turn_step [OF this comm_step.intros [OF e1]] have "turn_reach demo_turn (st1, [(?c1, r1)])" by simp
  from turn_step [OF this comm_step.intros [OF e2]]
  have reach: "turn_reach demo_turn (st2, [(?c1, r1), (?c2, r2)])" by simp
  have cl: "closes ?c2" by (simp add: status_waiting_def status_complete_def)
  from closing_status_follows_a_delivery [OF reach, rule_format, of "[(?c1, r1)]" ?c2 r2 "[]"] cl ok
  have "\<exists>d answer. (d, Inr answer) \<in> set [(?c1, r1)] \<and> is_send d" by simp
  with reach ok show ?thesis by blast
qed

lemma undelivered_turn_cannot_close_witness:
  "setTaskStatus (\<lambda>r bs. Inr JNull) demo_env False [] (Inr \<lparr>stStatus = ''waiting'', stMessageId = ''<q2>''\<rparr>)
     (demo_world, WithSendTracker None) = (Inl (ungated_status ''waiting''), (demo_world, WithSendTracker None))"
  by (rule undelivered_turn_cannot_close) (simp add: status_waiting_def)

end
