(* ===== verification/History.thy ===== *)
theory History
  imports Email Memory_Json "HOL-Library.Multiset"
begin

text \<open>
  The conversation history as the agent prepares it for a request (\<open>internal/agents/agent.go\<close>): the size
  estimate of fresh and loaded messages, the trimming at safe cutpoints, the compression of tool results,
  the removal of attachment payloads before saving, and the treatment of single tool results and inputs.

  \<open>rl\<close> is the length in bytes of a JSON value as it stands in the memory file, and \<open>nm\<close> the address
  parser of \<open>net/mail\<close>; both are arguments, and every statement holds for all of them.
\<close>

section \<open>Sizes\<close>

definition approxImageBlockChars :: nat where "approxImageBlockChars = 6000"
definition approxPDFBlockChars :: nat where "approxPDFBlockChars = 12000"

fun result_item_size :: "result_item \<Rightarrow> nat" where
  "result_item_size (RText s) = length s"
| "result_item_size (RImage src) = approxImageBlockChars"

fun contentBlockSize :: "block \<Rightarrow> nat" where
  "contentBlockSize (BText s) = length s"
| "contentBlockSize (BToolUse i n inp) =
     length n + length i + (case marshal_input inp of Some raw \<Rightarrow> length raw | None \<Rightarrow> 0)"
| "contentBlockSize (BToolResult i items e) = length i + sum_list (map result_item_size items)"
| "contentBlockSize (BImage (ImgURL u)) = length u"
| "contentBlockSize (BImage (ImgBase64 m d)) = approxImageBlockChars"
| "contentBlockSize (BDocument (DocText t) title) = length t"
| "contentBlockSize (BDocument (DocURL u) title) = length u"
| "contentBlockSize (BDocument (DocBase64 d) title) = approxPDFBlockChars"
| "contentBlockSize b = 0"

text \<open>The raw block of a loaded message, seen through structs of string fields.\<close>

definition str_of :: "string \<Rightarrow> json \<Rightarrow> string" where
  "str_of name b = (case peek_str name b of Some s \<Rightarrow> s | None \<Rightarrow> [])"

definition decodes :: "string list \<Rightarrow> json \<Rightarrow> bool" where
  "decodes names b \<longleftrightarrow> list_all (\<lambda>n. peek_str n b \<noteq> None) names"

definition raw_item_size :: "json \<Rightarrow> nat" where
  "raw_item_size c =
     (if \<not> decodes [''type'', ''text''] c then 0
      else if str_of ''type'' c = ''text'' then length (str_of ''text'' c)
      else if str_of ''type'' c = ''image'' then approxImageBlockChars else 0)"

definition contentBlockSizeRaw :: "(json \<Rightarrow> nat) \<Rightarrow> json \<Rightarrow> nat" where
  "contentBlockSizeRaw rl b =
     (if \<not> decodes [''type'', ''text'', ''name'', ''id'', ''tool_use_id''] b then 0
      else let ty = str_of ''type'' b in
      if ty = ''text'' then length (str_of ''text'' b)
      else if ty = ''tool_use'' then
        length (str_of ''name'' b) + length (str_of ''id'' b) +
        (case peek_raw ''input'' b of Some v \<Rightarrow> rl v | None \<Rightarrow> 0)
      else if ty = ''tool_result'' then
        length (str_of ''tool_use_id'' b) +
        (case peek_raw ''content'' b of
           Some (JArr inner) \<Rightarrow> sum_list (map raw_item_size inner)
         | _ \<Rightarrow> 0)
      else if ty = ''image'' then
        (case peek_raw ''source'' b of
           Some src \<Rightarrow>
             if decodes [''type'', ''url''] src \<and> str_of ''type'' src = ''url''
             then length (str_of ''url'' src) else approxImageBlockChars
         | None \<Rightarrow> approxImageBlockChars)
      else if ty = ''document'' then
        (case peek_raw ''source'' b of
           Some src \<Rightarrow>
             if \<not> decodes [''type'', ''url'', ''data''] src then 0
             else if str_of ''type'' src = ''text'' then length (str_of ''data'' src)
             else if str_of ''type'' src = ''url'' then length (str_of ''url'' src)
             else if str_of ''type'' src = ''base64'' then approxPDFBlockChars else 0
         | None \<Rightarrow> 0)
      else 0)"

section \<open>Views of a message\<close>

record message_view =
  mvRole :: string
  mvFrom :: string
  mvHasToolResult :: bool
  mvSize :: nat

definition parseEmailSummaryFrom :: "(string \<Rightarrow> string option) \<Rightarrow> string \<Rightarrow> string" where
  "parseEmailSummaryFrom nm text =
     (case Option.bind (json_parse text) (peek_str ''from'') of
        None \<Rightarrow> []
      | Some f \<Rightarrow> if f = [] then [] else case nm f of Some addr \<Rightarrow> addr | None \<Rightarrow> f)"

text \<open>The sender is that of the first text block.\<close>

fun first_text :: "block list \<Rightarrow> string option" where
  "first_text [] = None"
| "first_text (BText s # bs) = Some s"
| "first_text (b # bs) = first_text bs"

definition raw_type :: "json \<Rightarrow> string" where
  "raw_type b = str_of ''type'' b"

definition viewMessageRaw :: "(json \<Rightarrow> nat) \<Rightarrow> (string \<Rightarrow> string option) \<Rightarrow> json \<Rightarrow> message_view" where
  "viewMessageRaw rl nm raw =
     (case message_shape raw of
        None \<Rightarrow> \<lparr>mvRole = [], mvFrom = [], mvHasToolResult = False, mvSize = rl raw\<rparr>
      | Some (r, bs) \<Rightarrow>
          \<lparr>mvRole = r,
           mvFrom = (case filter (\<lambda>b. raw_type b = ''text'') bs of
                       [] \<Rightarrow> []
                     | b # rest \<Rightarrow>
                         (case peek_str ''text'' b of Some t \<Rightarrow> parseEmailSummaryFrom nm t | None \<Rightarrow> [])),
           mvHasToolResult = list_ex (\<lambda>b. raw_type b = ''tool_result'') bs,
           mvSize = length r + 8 + sum_list (map (contentBlockSizeRaw rl) bs)\<rparr>)"

fun viewMessage :: "(json \<Rightarrow> nat) \<Rightarrow> (string \<Rightarrow> string option) \<Rightarrow> message \<Rightarrow> message_view" where
  "viewMessage rl nm (Wrapped raw) = viewMessageRaw rl nm raw"
| "viewMessage rl nm (Fresh r bs) =
     \<lparr>mvRole = role_name r,
      mvFrom = (case first_text bs of Some t \<Rightarrow> parseEmailSummaryFrom nm t | None \<Rightarrow> []),
      mvHasToolResult = list_ex is_tool_result bs,
      mvSize = length (role_name r) + 8 + sum_list (map contentBlockSize bs)\<rparr>"

definition effectiveSize :: "(json \<Rightarrow> nat) \<Rightarrow> (string \<Rightarrow> string option) \<Rightarrow> message list \<Rightarrow> nat" where
  "effectiveSize rl nm history = sum_list (map (\<lambda>m. mvSize (viewMessage rl nm m)) history)"

section \<open>Trimming\<close>

definition safe_cutpoint :: "(json \<Rightarrow> nat) \<Rightarrow> (string \<Rightarrow> string option) \<Rightarrow> message \<Rightarrow> bool" where
  "safe_cutpoint rl nm m \<longleftrightarrow>
     (let v = viewMessage rl nm m in mvRole v = ''user'' \<and> \<not> mvHasToolResult v)"

text \<open>A request of a human: a message that can be an anchor.\<close>

definition human_request ::
  "config \<Rightarrow> (json \<Rightarrow> nat) \<Rightarrow> (string \<Rightarrow> string option) \<Rightarrow> message \<Rightarrow> bool" where
  "human_request cfg rl nm m \<longleftrightarrow>
     safe_cutpoint rl nm m \<and> mvFrom (viewMessage rl nm m) \<noteq> [] \<and>
     to_lower (mvFrom (viewMessage rl nm m)) \<notin> set (AgentEmails cfg)"

fun last_index :: "('a \<Rightarrow> bool) \<Rightarrow> 'a list \<Rightarrow> nat option" where
  "last_index P [] = None"
| "last_index P (x # xs) =
     (case last_index P xs of Some i \<Rightarrow> Some (Suc i) | None \<Rightarrow> if P x then Some 0 else None)"

definition findAnchor ::
  "config \<Rightarrow> (json \<Rightarrow> nat) \<Rightarrow> (string \<Rightarrow> string option) \<Rightarrow> message list \<Rightarrow> nat option" where
  "findAnchor cfg rl nm history =
     (if AgentEmails cfg = [] then None else last_index (human_request cfg rl nm) history)"

fun cutpoints_from :: "('a \<Rightarrow> bool) \<Rightarrow> nat \<Rightarrow> 'a list \<Rightarrow> nat list" where
  "cutpoints_from P i [] = []"
| "cutpoints_from P i (x # xs) = (if P x then i # cutpoints_from P (Suc i) xs else cutpoints_from P (Suc i) xs)"

text \<open>
  A tool result that may be compressed: its message, its block and the length of its text.  The public
  blocks of a loaded message are empty, so only fresh messages have any.
\<close>

type_synonym result_ref = "nat \<times> nat \<times> nat"

fun text_size :: "block \<Rightarrow> nat" where
  "text_size (BToolResult i items e) =
     sum_list (map (\<lambda>c. case c of RText s \<Rightarrow> length s | RImage src \<Rightarrow> 0) items)"
| "text_size b = 0"

definition result_refs :: "message list \<Rightarrow> result_ref list" where
  "result_refs history =
     concat (map (\<lambda>(i, m). List.map_filter
         (\<lambda>(j, b). if is_tool_result b \<and> text_size b > 0 then Some (i, j, text_size b) else None)
         (enumerate 0 (msg_blocks m)))
       (enumerate 0 history))"

text \<open>The exchange sort of the code: each pass moves the largest of the rest to the front.\<close>

fun swap_pass :: "('a \<Rightarrow> nat) \<Rightarrow> 'a \<Rightarrow> 'a list \<Rightarrow> 'a \<times> 'a list" where
  "swap_pass key h [] = (h, [])"
| "swap_pass key h (x # xs) =
     (if key x > key h then (case swap_pass key x xs of (m, ys) \<Rightarrow> (m, h # ys))
      else (case swap_pass key h xs of (m, ys) \<Rightarrow> (m, x # ys)))"

lemma length_swap_pass: "length (snd (swap_pass key h xs)) = length xs"
  by (induction key h xs rule: swap_pass.induct) (auto split: prod.splits)

function exchange_sort :: "('a \<Rightarrow> nat) \<Rightarrow> 'a list \<Rightarrow> 'a list" where
  "exchange_sort key [] = []"
| "exchange_sort key (h # t) = fst (swap_pass key h t) # exchange_sort key (snd (swap_pass key h t))"
  by pat_completeness auto
termination
  by (relation "measure (\<lambda>(key, xs). length xs)") (auto simp: length_swap_pass)

definition elided_note :: "nat \<Rightarrow> string" where
  "elided_note n = ''[compressed for context window: '' @ show_nat n @ '' chars elided]''"

fun elide_block :: "nat \<Rightarrow> block \<Rightarrow> block" where
  "elide_block n (BToolResult i items e) = BToolResult i [RText (elided_note n)] e"
| "elide_block n b = b"

fun elide_in :: "nat \<Rightarrow> nat \<Rightarrow> message \<Rightarrow> message" where
  "elide_in j n (Fresh r bs) = Fresh r (bs[j := elide_block n (bs ! j)])"
| "elide_in j n (Wrapped raw) = Wrapped raw"

fun compress_loop ::
  "(json \<Rightarrow> nat) \<Rightarrow> (string \<Rightarrow> string option) \<Rightarrow> int \<Rightarrow> result_ref list \<Rightarrow> message list \<Rightarrow> message list" where
  "compress_loop rl nm maxChars [] out = out"
| "compress_loop rl nm maxChars ((i, j, n) # refs) out =
     (if int (effectiveSize rl nm out) \<le> maxChars then out
      else compress_loop rl nm maxChars refs (out[i := elide_in j n (out ! i)]))"

definition compressToolResults ::
  "(json \<Rightarrow> nat) \<Rightarrow> (string \<Rightarrow> string option) \<Rightarrow> message list \<Rightarrow> int \<Rightarrow> message list" where
  "compressToolResults rl nm history maxChars =
     compress_loop rl nm maxChars (exchange_sort (\<lambda>(i, j, n). n) (result_refs history)) history"

definition cut_candidates ::
  "config \<Rightarrow> (json \<Rightarrow> nat) \<Rightarrow> (string \<Rightarrow> string option) \<Rightarrow> message list \<Rightarrow> nat list" where
  "cut_candidates cfg rl nm history =
     (let cutpoints = cutpoints_from (safe_cutpoint rl nm) 0 history
      in case findAnchor cfg rl nm history of
           None \<Rightarrow> cutpoints
         | Some a \<Rightarrow> let filtered = filter (\<lambda>i. a \<le> i) cutpoints
                     in if filtered \<noteq> [] then filtered else cutpoints)"

definition chosen_cut ::
  "(json \<Rightarrow> nat) \<Rightarrow> (string \<Rightarrow> string option) \<Rightarrow> message list \<Rightarrow> int \<Rightarrow> nat list \<Rightarrow> nat" where
  "chosen_cut rl nm history maxChars candidates =
     (case find (\<lambda>i. int (effectiveSize rl nm (drop i history)) \<le> maxChars) candidates of
        Some i \<Rightarrow> i
      | None \<Rightarrow> hd candidates)"

definition trimHistory ::
  "config \<Rightarrow> (json \<Rightarrow> nat) \<Rightarrow> (string \<Rightarrow> string option) \<Rightarrow> message list \<Rightarrow> int \<Rightarrow> message list" where
  "trimHistory cfg rl nm history maxChars =
     (if int (effectiveSize rl nm history) \<le> maxChars then history
      else if cutpoints_from (safe_cutpoint rl nm) 0 history = [] then history
      else let trimmed = drop (chosen_cut rl nm history maxChars (cut_candidates cfg rl nm history)) history
           in if int (effectiveSize rl nm trimmed) > maxChars then compressToolResults rl nm trimmed maxChars
              else trimmed)"

section \<open>Attachment payloads\<close>

definition elided_image :: string where
  "elided_image =
     ''[image attachment elided from persisted history '' @ em_dash @ '' original was processed in-run]''"

definition elided_pdf :: "string \<Rightarrow> string" where
  "elided_pdf name =
     (if name = [] then
        ''[PDF attachment elided from persisted history '' @ em_dash @ '' original was processed in-run]''
      else ''[PDF attachment '' @ go_quote name @ '' elided from persisted history '' @ em_dash @
           '' original was processed in-run]'')"

fun strip_blob :: "block \<Rightarrow> block" where
  "strip_blob (BImage (ImgBase64 m d)) = BText elided_image"
| "strip_blob (BDocument (DocBase64 d) title) = BText (elided_pdf title)"
| "strip_blob b = b"

fun strip_message :: "message \<Rightarrow> message" where
  "strip_message (Fresh r bs) = Fresh r (map strip_blob bs)"
| "strip_message (Wrapped raw) = Wrapped raw"

definition StripAttachmentBlobs :: "message list \<Rightarrow> message list" where
  "StripAttachmentBlobs history = map strip_message history"

section \<open>One tool result\<close>

definition trunc_marker :: string where
  "trunc_marker = [nl, nl] @ ''[... tool result truncated ...]''"

text \<open>A continuation byte of UTF-8 has the form 10xxxxxx.\<close>

definition continuation :: "char \<Rightarrow> bool" where
  "continuation c \<longleftrightarrow> (of_char c :: nat) div 64 = 2"

fun rune_boundary :: "string \<Rightarrow> nat \<Rightarrow> nat" where
  "rune_boundary s 0 = 0"
| "rune_boundary s (Suc n) = (if continuation (s ! Suc n) then rune_boundary s n else Suc n)"

definition truncateToolResult :: "string \<Rightarrow> int \<Rightarrow> string" where
  "truncateToolResult res maxChars =
     (if maxChars \<le> 0 \<or> int (length res) \<le> maxChars then res
      else let budget = maxChars - int (length trunc_marker)
           in if budget \<le> 0 then take (nat maxChars) res
              else take (rune_boundary res (nat budget)) res @ trunc_marker)"

definition toolResultSpillNote :: "nat \<Rightarrow> string \<Rightarrow> string" where
  "toolResultSpillNote fullLen path =
     [nl, nl] @ ''[The FULL untruncated result ('' @ show_nat fullLen @ '' chars) was saved to disk at:'' @ [nl] @
     ''  '' @ path @ [nl] @
     ''To send this result to a coworker, attach the FILE '' @ em_dash @ '' pass this exact '' @
     ''path as message_tool attachments[].path (set a descriptive `name` like '' @
     ''report.csv). Do NOT paste the result text into the message body or into '' @
     ''attachments[].content: large inline payloads exceed the output limit and '' @
     ''truncate mid-stream. If you only need part of it, read the file with '' @
     ''bash_exec.]''"

text \<open>\<open>dashed\<close> tells that the text so far ends with a dash.\<close>

fun dash_runs :: "bool \<Rightarrow> string \<Rightarrow> string" where
  "dash_runs dashed [] = []"
| "dash_runs dashed (c # cs) =
     (if is_lower c \<or> is_digit c then c # dash_runs False cs
      else if dashed then dash_runs True cs
      else CHR ''-'' # dash_runs True cs)"

definition sanitizeForFilename :: "string \<Rightarrow> string" where
  "sanitizeForFilename s =
     (let out = trim_by (\<lambda>c. c = CHR ''-'') (dash_runs False (to_lower s))
      in if out = [] then ''result'' else out)"

text \<open>The name given to \<open>os.CreateTemp\<close>, whose \<open>*\<close> stands for the random part.\<close>

definition spill_pattern :: "string \<Rightarrow> string \<Rightarrow> string" where
  "spill_pattern agentID toolName =
     ''kikubot-'' @ sanitizeForFilename agentID @ ''-'' @ sanitizeForFilename toolName @ ''-*.txt''"

section \<open>The identity of a call\<close>

text \<open>
  \<open>fl\<close> is the round trip of a numeral through \<open>float64\<close>, \<open>None\<close> when it is out of range.  Decoding into an
  \<open>interface{}\<close> keeps the last of equal keys, and a map is printed in the order of its keys.
\<close>

fun traverse :: "('a \<Rightarrow> 'b option) \<Rightarrow> 'a list \<Rightarrow> 'b list option" where
  "traverse f [] = Some []"
| "traverse f (x # xs) = Option.bind (f x) (\<lambda>y. Option.bind (traverse f xs) (\<lambda>ys. Some (y # ys)))"

lemma traverse_cong [fundef_cong]:
  "xs = ys \<Longrightarrow> (\<And>x. x \<in> set ys \<Longrightarrow> f x = g x) \<Longrightarrow> traverse f xs = traverse g ys"
  by (induction xs arbitrary: ys) auto

fun canon_value :: "(string \<Rightarrow> string option) \<Rightarrow> json \<Rightarrow> json option" where
  "canon_value fl (JNum n) = map_option JNum (fl n)"
| "canon_value fl (JArr vs) = map_option JArr (traverse (canon_value fl) vs)"
| "canon_value fl (JObj ms) =
     map_option (\<lambda>ns. JObj (sort_key fst (dedup_members ns)))
       (traverse (\<lambda>(k, v). map_option (Pair k) (canon_value fl v)) ms)"
| "canon_value fl v = Some v"

definition canonicalJSON :: "(string \<Rightarrow> string option) \<Rightarrow> string \<Rightarrow> string" where
  "canonicalJSON fl raw =
     (let trimmed = trim_space raw
      in if trimmed = [] then []
         else case Option.bind (json_parse trimmed) (canon_value fl) of
                None \<Rightarrow> trimmed
              | Some v \<Rightarrow> json_show v)"

definition toolCallKey :: "(string \<Rightarrow> string option) \<Rightarrow> string \<Rightarrow> string \<Rightarrow> string" where
  "toolCallKey fl name input = name @ [CHR 0x00] @ canonicalJSON fl input"

definition repeatedFailureNote :: "string \<Rightarrow> string \<Rightarrow> string" where
  "repeatedFailureNote toolName prevErr =
     ''Blocked: you already called '' @ toolName @
     '' with these exact arguments during this task and it failed:'' @ [nl, nl] @
     (if length prevErr > 600 then take 600 prevErr @ [CHR 0xE2, CHR 0x80, CHR 0xA6] else prevErr) @ [nl, nl] @
     ''Retrying the identical call will fail the same way. Change the arguments or the approach '' @ em_dash @
     '' a different tool, a search instead of a direct lookup, or the shared_link/as_user path a tool '' @
     ''documents '' @ em_dash @ '' or proceed without this result.''"

section \<open>The exchange sort\<close>

lemma swap_pass_mset: "swap_pass key h xs = (m, ys) \<Longrightarrow> add_mset m (mset ys) = add_mset h (mset xs)"
  by (induction key h xs arbitrary: m ys rule: swap_pass.induct) (fastforce split: if_splits prod.splits)+

lemma swap_pass_max: "swap_pass key h xs = (m, ys) \<Longrightarrow> key h \<le> key m \<and> (\<forall>y\<in>set ys. key y \<le> key m)"
proof (induction key h xs arbitrary: m ys rule: swap_pass.induct)
  case (2 key h x xs)
  then show ?case by (fastforce split: if_splits prod.splits)
qed simp

lemma exchange_sort_mset: "mset (exchange_sort key xs) = mset xs"
proof (induction key xs rule: exchange_sort.induct)
  case (2 key h t)
  obtain m ys where p: "swap_pass key h t = (m, ys)" by (cases "swap_pass key h t")
  with 2 swap_pass_mset [OF p] show ?case by simp
qed simp

lemma exchange_sort_set: "set (exchange_sort key xs) = set xs"
  using arg_cong [OF exchange_sort_mset, of set_mset] by simp

lemma exchange_sort_descending: "sorted_wrt (\<lambda>a b. key b \<le> key a) (exchange_sort key xs)"
proof (induction key xs rule: exchange_sort.induct)
  case (2 key h t)
  obtain m ys where p: "swap_pass key h t = (m, ys)" by (cases "swap_pass key h t")
  with 2 swap_pass_max [OF p] show ?case by (simp add: exchange_sort_set)
qed simp

section \<open>What compression keeps\<close>

text \<open>
  A block as it is sent: unchanged, or a tool result with a text whose items (images too) are replaced by the note on
  the number of characters left out.  The blocks of a message keep their order, and loaded messages are unchanged.
\<close>

definition shortened :: "block \<Rightarrow> block \<Rightarrow> bool" where
  "shortened b b' \<longleftrightarrow> b' = b \<or>
     (\<exists>i items e. b = BToolResult i items e \<and> text_size b > 0 \<and> b' = BToolResult i [RText (elided_note (text_size b))] e)"

fun compressed :: "message \<Rightarrow> message \<Rightarrow> bool" where
  "compressed (Fresh r bs) (Fresh r' bs') = (r' = r \<and> list_all2 shortened bs bs')"
| "compressed (Wrapped raw) m = (m = Wrapped raw)"
| "compressed (Fresh r bs) (Wrapped raw) = False"

lemma shortened_refl [simp]: "shortened b b"
  by (simp add: shortened_def)

lemma compressed_refl [simp]: "compressed m m"
  by (cases m) (simp_all add: list_all2_same)

lemma compressed_all_refl [simp]: "list_all2 compressed ms ms"
  by (simp add: list_all2_same)

lemma result_refs_at:
  assumes "(i, j, n) \<in> set (result_refs ms)"
  shows "i < length ms \<and> j < length (msg_blocks (ms ! i)) \<and> is_tool_result (msg_blocks (ms ! i) ! j) \<and>
    n = text_size (msg_blocks (ms ! i) ! j) \<and> n > 0"
  using assms
  by (auto simp: result_refs_def List.map_filter_def in_set_enumerate_eq split: if_splits)

lemma shortened_elide:
  "shortened b b' \<Longrightarrow> is_tool_result b \<Longrightarrow> text_size b > 0 \<Longrightarrow> shortened b (elide_block (text_size b) b')"
  by (cases b) (auto simp: shortened_def)

lemma compressed_elide:
  assumes "compressed m m'" "j < length (msg_blocks m)" "is_tool_result (msg_blocks m ! j)" "text_size (msg_blocks m ! j) > 0"
  shows "compressed m (elide_in j (text_size (msg_blocks m ! j)) m')"
proof (cases m; cases m')
  fix r bs r' bs' assume m: "m = Fresh r bs" "m' = Fresh r' bs'"
  then have l: "r' = r" "list_all2 shortened bs bs'" using assms(1) by simp_all
  let ?b = "elide_block (text_size (bs ! j)) (bs' ! j)"
  have "shortened (bs ! j) ?b" using assms(2-4) l(2) m by (intro shortened_elide) (simp_all add: list_all2_nthD)
  then have "list_all2 shortened (bs[j := bs ! j]) (bs'[j := ?b])" by (intro list_all2_update_cong l(2))
  then show ?thesis using m l(1) by simp
qed (use assms in simp_all)

lemma compressed_loop:
  assumes "set refs \<subseteq> set (result_refs ms)"
  shows "list_all2 compressed ms out \<Longrightarrow> list_all2 compressed ms (compress_loop rl nm maxChars refs out)"
  using assms
proof (induction rl nm maxChars refs out rule: compress_loop.induct)
  case (2 rl nm maxChars i j n refs out)
  note ref = result_refs_at [of i j n ms]
  have "compressed (ms ! i) (elide_in j n (out ! i))"
    using ref 2(2,3) compressed_elide [of "ms ! i" "out ! i" j] by (auto simp: list_all2_nthD)
  then have "list_all2 compressed (ms[i := ms ! i]) (out[i := elide_in j n (out ! i)])"
    by (intro list_all2_update_cong 2(2))
  then show ?case using 2 by simp
qed simp

lemma compressed_results: "list_all2 compressed ms (compressToolResults rl nm ms maxChars)"
  by (simp add: compressToolResults_def compressed_loop exchange_sort_set)

text \<open>A block is done when it has no text to elide, or is elided.\<close>

definition elided :: "block \<Rightarrow> bool" where
  "elided b \<longleftrightarrow> is_tool_result b \<longrightarrow> text_size b = 0 \<or> (\<exists>i n e. b = BToolResult i [RText (elided_note n)] e)"

definition block_at :: "message list \<Rightarrow> nat \<Rightarrow> nat \<Rightarrow> block" where
  "block_at ms i j = msg_blocks (ms ! i) ! j"

lemma elided_elide: "elided (elide_block n b)"
  by (cases b) (auto simp: elided_def)

lemma elide_in_blocks:
  "msg_blocks (elide_in j n m) = (msg_blocks m)[j := elide_block n (msg_blocks m ! j)]"
  by (cases m) simp_all

text \<open>The places not yet done.\<close>

definition pending :: "message list \<Rightarrow> (nat \<times> nat) set" where
  "pending ms = {(i, j). i < length ms \<and> j < length (msg_blocks (ms ! i)) \<and> \<not> elided (block_at ms i j)}"

lemma pending_update: "pending (ms[i := elide_in j n (ms ! i)]) \<subseteq> pending ms - {(i, j)}"
proof
  fix p assume "p \<in> pending (ms[i := elide_in j n (ms ! i)])"
  then obtain a b where p: "p = (a, b)" "a < length ms" "b < length (msg_blocks (ms[i := elide_in j n (ms ! i)] ! a))"
    "\<not> elided (msg_blocks (ms[i := elide_in j n (ms ! i)] ! a) ! b)"
    by (auto simp: pending_def block_at_def)
  show "p \<in> pending ms - {(i, j)}"
  proof (cases "a = i")
    case True
    with p have "b < length ((msg_blocks (ms ! i))[j := elide_block n (msg_blocks (ms ! i) ! j)])"
      "\<not> elided ((msg_blocks (ms ! i))[j := elide_block n (msg_blocks (ms ! i) ! j)] ! b)"
      by (simp_all add: elide_in_blocks)
    from nth_update_pred [where Q = elided, OF this elided_elide] True p(1,2) show ?thesis
      by (simp add: pending_def block_at_def)
  next
    case False
    with p show ?thesis by (simp add: pending_def block_at_def)
  qed
qed

lemma compress_loop_pending:
  "int (effectiveSize rl nm (compress_loop rl nm maxChars refs out)) \<le> maxChars \<or>
   pending (compress_loop rl nm maxChars refs out) \<subseteq> pending out - (\<lambda>(i, j, n). (i, j)) ` set refs"
proof (induction rl nm maxChars refs out rule: compress_loop.induct)
  case (2 rl nm maxChars i j n refs out)
  show ?case
  proof (cases "int (effectiveSize rl nm out) \<le> maxChars")
    case False
    from 2 [OF this] pending_update [of out i j n] False show ?thesis by (simp del: split_paired_All) blast
  qed simp
qed simp

lemma pending_refs: "pending ms \<subseteq> (\<lambda>(i, j, n). (i, j)) ` set (result_refs ms)"
proof
  fix p assume "p \<in> pending ms"
  then obtain i j where p: "p = (i, j)" "i < length ms" "j < length (msg_blocks (ms ! i))"
    and b: "is_tool_result (block_at ms i j)" "text_size (block_at ms i j) > 0"
    by (auto simp: pending_def elided_def)
  have "(i, ms ! i) \<in> set (enumerate 0 ms)" using p(2) by (simp add: in_set_enumerate_eq)
  moreover have "(j, block_at ms i j) \<in> set (enumerate 0 (msg_blocks (ms ! i)))"
    using p(3) by (simp add: in_set_enumerate_eq block_at_def)
  ultimately have "(i, j, text_size (block_at ms i j)) \<in> set (result_refs ms)"
    using b unfolding result_refs_def List.map_filter_def by (fastforce simp: image_iff)
  then show "p \<in> (\<lambda>(i, j, n). (i, j)) ` set (result_refs ms)" using p(1) by force
qed

lemma compress_complete:
  "int (effectiveSize rl nm (compressToolResults rl nm ms maxChars)) \<le> maxChars \<or>
   pending (compressToolResults rl nm ms maxChars) = {}"
  using compress_loop_pending [of rl nm maxChars "exchange_sort (\<lambda>(i, j, n). n) (result_refs ms)" ms] pending_refs [of ms]
  unfolding compressToolResults_def exchange_sort_set by blast

section \<open>Where the history is cut\<close>

lemma cutpoints_from_enumerate: "cutpoints_from P k xs = map fst (filter (\<lambda>(i, x). P x) (enumerate k xs))"
  by (induction xs arbitrary: k) simp_all

lemma cutpoints_from_set: "set (cutpoints_from P 0 xs) = {i. i < length xs \<and> P (xs ! i)}"
  by (force simp: cutpoints_from_enumerate in_set_enumerate_eq image_iff)

lemma sorted_cutpoints: "sorted (cutpoints_from P k xs)"
  unfolding cutpoints_from_enumerate by (rule sorted_filter) simp

lemma last_index_Some: "last_index P xs = Some i \<Longrightarrow> i < length xs \<and> P (xs ! i)"
  by (induction xs arbitrary: i) (auto split: option.splits if_splits)

lemma findAnchor_cutpoint:
  assumes "findAnchor cfg rl nm history = Some a"
  shows "a \<in> set (cutpoints_from (safe_cutpoint rl nm) 0 history)"
proof -
  have "last_index (human_request cfg rl nm) history = Some a"
    using assms by (auto simp: findAnchor_def split: if_splits)
  from last_index_Some [OF this] show ?thesis
    by (simp add: cutpoints_from_set human_request_def)
qed

lemma cut_candidates_sub: "set (cut_candidates cfg rl nm history) \<subseteq> set (cutpoints_from (safe_cutpoint rl nm) 0 history)"
  by (auto simp: cut_candidates_def Let_def split: option.split)

lemma cut_candidates_not_Nil:
  "cutpoints_from (safe_cutpoint rl nm) 0 history \<noteq> [] \<Longrightarrow> cut_candidates cfg rl nm history \<noteq> []"
  by (auto simp: cut_candidates_def Let_def split: option.split)

lemma chosen_cut_cases:
  assumes "cs \<noteq> []"
  obtains "chosen_cut rl nm history maxChars cs \<in> set cs"
      "int (effectiveSize rl nm (drop (chosen_cut rl nm history maxChars cs) history)) \<le> maxChars"
  | "chosen_cut rl nm history maxChars cs = hd cs"
      "\<And>i. i \<in> set cs \<Longrightarrow> int (effectiveSize rl nm (drop i history)) > maxChars"
proof (cases "find (\<lambda>i. int (effectiveSize rl nm (drop i history)) \<le> maxChars) cs")
  case None
  with that(2) show ?thesis by (auto simp: chosen_cut_def find_None_iff not_le)
next
  case (Some i)
  with that(1) show ?thesis by (auto simp: chosen_cut_def find_Some_iff)
qed

lemma chosen_cut_in: "cs \<noteq> [] \<Longrightarrow> chosen_cut rl nm history maxChars cs \<in> set cs"
  using chosen_cut_cases [of cs rl nm history maxChars] by (metis list.set_sel(1))

text \<open>The three outcomes of trimming.\<close>

lemma trimHistory_cases:
  obtains "trimHistory cfg rl nm history maxChars = history" "int (effectiveSize rl nm history) \<le> maxChars"
  | "trimHistory cfg rl nm history maxChars = history" "list_all (\<lambda>m. \<not> safe_cutpoint rl nm m) history"
  | n where "n = chosen_cut rl nm history maxChars (cut_candidates cfg rl nm history)"
      "n < length history" "safe_cutpoint rl nm (history ! n)"
      "trimHistory cfg rl nm history maxChars =
         (if int (effectiveSize rl nm (drop n history)) > maxChars
          then compressToolResults rl nm (drop n history) maxChars else drop n history)"
proof -
  let ?cs = "cutpoints_from (safe_cutpoint rl nm) 0 history"
  consider "int (effectiveSize rl nm history) \<le> maxChars"
    | "\<not> int (effectiveSize rl nm history) \<le> maxChars" "?cs = []"
    | "\<not> int (effectiveSize rl nm history) \<le> maxChars" "?cs \<noteq> []" by blast
  then show ?thesis
  proof cases
    case 1
    then show ?thesis using that(1) by (simp add: trimHistory_def)
  next
    case 2
    then have "{i. i < length history \<and> safe_cutpoint rl nm (history ! i)} = {}"
      using cutpoints_from_set [of "safe_cutpoint rl nm" history] by simp
    then have "list_all (\<lambda>m. \<not> safe_cutpoint rl nm m) history"
      by (auto simp: list_all_length)
    with 2 show ?thesis using that(2) by (simp add: trimHistory_def)
  next
    case 3
    let ?n = "chosen_cut rl nm history maxChars (cut_candidates cfg rl nm history)"
    have "?n \<in> set ?cs"
      using chosen_cut_in [OF cut_candidates_not_Nil [OF 3(2)]] cut_candidates_sub by blast
    with 3 show ?thesis using that(3) [OF refl] by (simp add: trimHistory_def Let_def cutpoints_from_set)
  qed
qed

section \<open>Properties\<close>


text \<open>The request being worked on: when the history holds an anchor, the newest human request, nothing before
  it is ever sent, and the cut is at the anchor itself unless the history from there is over the limit and from
  some later cutpoint on fits.\<close>

theorem trimHistory_starts_at_anchor_or_later:
  assumes "findAnchor cfg rl nm history = Some a" "int (effectiveSize rl nm history) > maxChars"
  shows "\<exists>n. a \<le> n \<and> list_all2 compressed (drop n history) (trimHistory cfg rl nm history maxChars) \<and>
    (n = a \<or> int (effectiveSize rl nm (drop a history)) > maxChars \<and>
             int (effectiveSize rl nm (drop n history)) \<le> maxChars)"
proof -
  let ?cut = "cutpoints_from (safe_cutpoint rl nm) 0 history" and ?fits = "\<lambda>i. int (effectiveSize rl nm (drop i history)) \<le> maxChars"
  let ?cs = "filter (\<lambda>i. a \<le> i) ?cut"
  have a: "a \<in> set ?cut" by (rule findAnchor_cutpoint [OF assms(1)])
  then have ne: "?cs \<noteq> []" by (auto simp: filter_empty_conv)
  then have cs: "cut_candidates cfg rl nm history = ?cs" using assms(1) by (simp add: cut_candidates_def)
  have "sorted ?cs" by (rule sorted_wrt_filter [OF sorted_cutpoints])
  moreover have "a \<in> set ?cs" using a by simp
  moreover have "hd ?cs \<in> set ?cs" using ne by (rule hd_in_set)
  moreover from this have "a \<le> hd ?cs" by simp
  ultimately have hd: "hd ?cs = a"
    by (cases ?cs) (auto intro: antisym)
  let ?n = "chosen_cut rl nm history maxChars ?cs"
  have fits_a: "?n = a" if "?fits a"
    using ne hd that by (cases ?cs) (simp_all add: chosen_cut_def)
  have n: "?n \<in> set ?cs" by (rule chosen_cut_in [OF ne])
  have "?n = a \<or> \<not> ?fits a \<and> ?fits ?n"
    using fits_a chosen_cut_cases [OF ne, of rl nm history maxChars] hd by metis
  moreover have "list_all2 compressed (drop ?n history) (trimHistory cfg rl nm history maxChars)"
    using assms(2) ne cs by (auto simp: trimHistory_def Let_def compressed_results)
  moreover have "a \<le> ?n" using n by simp
  ultimately show ?thesis by (intro exI [of _ ?n]) auto
qed

text \<open>Messages for the instances: a customer's request and a coworker's answer as their summaries stand in a
  user message.\<close>

definition demo_summary :: "string \<Rightarrow> string" where
  "demo_summary sender = ''{'' @ [dquote] @ ''from'' @ [dquote, CHR '':'', dquote] @ sender @ [dquote] @ ''}''"

definition demo_history :: "message list" where
  "demo_history =
     [Fresh User [BText (demo_summary ''bob@shop.org'')], Fresh Assistant [BText ''I ask Amy.''],
      Fresh User [BText (demo_summary ''amy@acme.com'')]]"

definition demo_roster :: config where
  "demo_roster = startup_config\<lparr>AgentEmails := [''amy@acme.com'']\<rparr>"

lemma trimHistory_starts_at_anchor_or_later_witness:
  "\<exists>n. 0 \<le> n \<and> list_all2 compressed (drop n demo_history) (trimHistory demo_roster (\<lambda>j. 0) Some demo_history 60) \<and>
    (n = 0 \<or> int (effectiveSize (\<lambda>j. 0) Some (drop 0 demo_history)) > 60 \<and>
             int (effectiveSize (\<lambda>j. 0) Some (drop n demo_history)) \<le> 60)"
  by (rule trimHistory_starts_at_anchor_or_later) code_simp+

text \<open>The request can be lost all the same: with a customer's request, an answer of the agent and then a mail
  of a coworker, a limit that only the coworker's mail fits cuts at that mail, and the request, which is the
  anchor, is not sent.\<close>

theorem trimHistory_can_lose_the_request:
  "findAnchor demo_roster (\<lambda>j. 0) Some demo_history = Some 0 \<and>
   trimHistory demo_roster (\<lambda>j. 0) Some demo_history 60 = drop 2 demo_history"
proof -
  have "findAnchor demo_roster (\<lambda>j. 0) Some demo_history = Some 0" by code_simp
  moreover have "\<not> int (effectiveSize (\<lambda>j. 0) Some demo_history) \<le> 60"
    "cut_candidates demo_roster (\<lambda>j. 0) Some demo_history = [0, 2]"
    "chosen_cut (\<lambda>j. 0) Some demo_history 60 [0, 2] = 2"
    "\<not> int (effectiveSize (\<lambda>j. 0) Some (drop 2 demo_history)) > 60"
    "cutpoints_from (safe_cutpoint (\<lambda>j. 0) Some) 0 demo_history = [0, 2]"
    by code_simp+
  ultimately show ?thesis by (simp add: trimHistory_def)
qed

lemma rune_boundary_le: "rune_boundary s n \<le> n"
  by (induction s n rule: rune_boundary.induct) auto

lemma rune_boundary_ok: "rune_boundary s n = 0 \<or> \<not> continuation (s ! rune_boundary s n)"
  by (induction s n rule: rune_boundary.induct) auto

text \<open>A tool result sent to the model is never longer than the limit: a result within it is sent as it is, and
  a longer one is cut to a prefix with the marker, where the marker fits, and not inside a UTF-8 character.\<close>

theorem truncateToolResult_bounds:
  assumes "maxChars > 0"
  shows "int (length (truncateToolResult res maxChars)) \<le> maxChars \<and>
    (int (length res) \<le> maxChars \<and> truncateToolResult res maxChars = res \<or>
     maxChars \<le> int (length trunc_marker) \<and> truncateToolResult res maxChars = take (nat maxChars) res \<or>
     (\<exists>k. truncateToolResult res maxChars = take k res @ trunc_marker \<and> k < length res \<and>
          (k = 0 \<or> \<not> continuation (res ! k))))"
proof -
  let ?b = "nat (maxChars - int (length trunc_marker))" and ?k = "rune_boundary res (nat (maxChars - int (length trunc_marker)))"
  consider "int (length res) \<le> maxChars"
    | "int (length res) > maxChars" "maxChars \<le> int (length trunc_marker)"
    | "int (length res) > maxChars" "maxChars > int (length trunc_marker)" by linarith
  then show ?thesis
  proof cases
    case 3
    then have t: "truncateToolResult res maxChars = take ?k res @ trunc_marker"
      using assms by (simp add: truncateToolResult_def)
    have "?k \<le> ?b" by (rule rune_boundary_le)
    with 3 have "?k < length res" "int ?k + int (length trunc_marker) \<le> maxChars" by linarith+
    with rune_boundary_ok [of res ?b] show ?thesis unfolding t by auto
  qed (use assms in \<open>auto simp: truncateToolResult_def\<close>)
qed

lemma truncateToolResult_bounds_witness:
  "int (length (truncateToolResult (replicate 100 (CHR ''x'')) 50)) \<le> 50"
  using truncateToolResult_bounds [of 50 "replicate 100 (CHR ''x'')"] by simp

fun has_blob :: "block \<Rightarrow> bool" where
  "has_blob (BImage (ImgBase64 m d)) = True"
| "has_blob (BDocument (DocBase64 d) title) = True"
| "has_blob b = False"

lemma strip_blob_gone: "\<not> has_blob (strip_blob b)"
  by (cases b rule: strip_blob.cases) simp_all

lemma strip_blob_keeps: "\<not> has_blob b \<Longrightarrow> strip_blob b = b"
  by (cases b rule: strip_blob.cases) simp_all

lemma tool_ids_strip: "tool_use_id (strip_blob b) = tool_use_id b" "tool_result_id (strip_blob b) = tool_result_id b"
  by (cases b rule: strip_blob.cases; simp)+

text \<open>Saving drops attachment payloads and nothing else: afterwards no message built in this run holds a base64
  image or PDF, every other block is as before, and so is every loaded message.\<close>

theorem StripAttachmentBlobs_keeps_conversation:
  "length (StripAttachmentBlobs history) = length history \<and>
   \<not> list_ex has_blob (concat (map msg_blocks (StripAttachmentBlobs history))) \<and>
   map tool_use_ids (StripAttachmentBlobs history) = map tool_use_ids history \<and>
   map tool_result_ids (StripAttachmentBlobs history) = map tool_result_ids history \<and>
   filter (\<lambda>b. \<not> has_blob b) (concat (map msg_blocks history)) =
     map snd (filter (\<lambda>(b, b'). \<not> has_blob b)
       (zip (concat (map msg_blocks history)) (concat (map msg_blocks (StripAttachmentBlobs history))))) \<and>
   StripAttachmentBlobs (StripAttachmentBlobs history) = StripAttachmentBlobs history"
proof -
  have blocks: "msg_blocks (strip_message m) = map strip_blob (msg_blocks m)" for m
    by (cases m) simp_all
  then have all: "concat (map msg_blocks (StripAttachmentBlobs history)) =
      map strip_blob (concat (map msg_blocks history))"
    by (simp add: StripAttachmentBlobs_def map_concat comp_def)
  have "filter (\<lambda>b. \<not> has_blob b) bs = map snd (filter (\<lambda>(b, b'). \<not> has_blob b) (zip bs (map strip_blob bs)))" for bs
    by (induction bs) (simp_all add: strip_blob_keeps)
  moreover have "strip_message (strip_message m) = strip_message m" for m
    by (cases m) (simp_all add: strip_blob_keeps strip_blob_gone)
  moreover have "tool_use_ids (strip_message m) = tool_use_ids m" "tool_result_ids (strip_message m) = tool_result_ids m" for m
    by (simp_all add: tool_use_ids_def tool_result_ids_def blocks List.map_filter_def filter_map comp_def tool_ids_strip)
  ultimately show ?thesis
    using strip_blob_gone unfolding all by (auto simp: StripAttachmentBlobs_def list_ex_iff)
qed

end
