(* ===== verification/Provider.thy ===== *)
theory Provider
  imports Threads
begin

text \<open>
  The LLM providers (\<open>internal/provider\<close>): the neutral response type, the Anthropic and OpenRouter
  conversions of responses, tool results, tool lists and histories, the accumulation of a stream and the
  retries.  The SDKs are arguments: \<open>accumulate\<close> folds a stream event into a message, \<open>sdk\<close> marshals a
  message built in this run, \<open>rt\<close> is the text of a loaded JSON value as it is marshalled again, and an
  attempt of a request is an operation on a world.
\<close>

section \<open>Responses\<close>

record content_block =
  cbType :: string
  cbText :: string
  cbId :: string
  cbName :: string
  cbInput :: string
  cbThinking :: string
  cbSignature :: string
  cbData :: string
  cbRaw :: string

definition plain_block :: "string \<Rightarrow> content_block" where
  "plain_block ty = \<lparr>cbType = ty, cbText = [], cbId = [], cbName = [], cbInput = [], cbThinking = [],
     cbSignature = [], cbData = [], cbRaw = []\<rparr>"

record message_response =
  mrRole :: string
  mrContent :: "content_block list"
  mrStopReason :: string

record tool_def =
  tdName :: string
  tdDescription :: string
  tdSchema :: "string option"

definition NewToolResult :: "string \<Rightarrow> string \<Rightarrow> bool \<Rightarrow> block" where
  "NewToolResult toolUseID content isError = BToolResult toolUseID [RText content] isError"

text \<open>The client tool calls of a response.\<close>

definition called_ids :: "message_response \<Rightarrow> string list" where
  "called_ids resp = map cbId (filter (\<lambda>c. cbType c = ''tool_use'') (mrContent resp))"

section \<open>Anthropic\<close>

text \<open>The types that keep the raw JSON they had at the start of their block.\<close>

definition needsOriginalRaw :: "string \<Rightarrow> bool" where
  "needsOriginalRaw ty \<longleftrightarrow>
     ty \<in> set [''code_execution_tool_result'', ''bash_code_execution_tool_result'',
              ''text_editor_code_execution_tool_result'', ''web_search_tool_result'', ''web_fetch_tool_result'']"

definition anthropic_block :: "content_block \<Rightarrow> block" where
  "anthropic_block c =
     (if needsOriginalRaw (cbType c) then BOverride (cbRaw c)
      else if cbType c = ''server_tool_use'' then BServerToolUse (cbId c) (cbName c) (InRaw (cbInput c))
      else if cbType c = ''thinking'' then BThinking (cbThinking c) (cbSignature c)
      else if cbType c = ''redacted_thinking'' then BRedactedThinking (cbData c)
      else if cbType c = ''text'' then BText (cbText c)
      else if cbType c = ''tool_use'' then BToolUse (cbId c) (cbName c) (InRaw (cbInput c))
      else if cbRaw c \<noteq> [] then BOverride (cbRaw c)
      else BText (cbText c))"

definition anthropic_ToHistoryParam :: "message_response \<Rightarrow> message" where
  "anthropic_ToHistoryParam resp = Fresh (role_of_name (mrRole resp)) (map anthropic_block (mrContent resp))"

datatype anthropic_tool = WebSearch20250305 | WebSearch20260209 | ATool string string string

definition anthropicBuiltinTool :: "string \<Rightarrow> string \<Rightarrow> anthropic_tool option" where
  "anthropicBuiltinTool name model =
     (if name = ''anthropic-web-search'' then
        (if contains_sub ''haiku'' model then Some WebSearch20250305
         else if contains_sub ''sonnet'' model \<or> contains_sub ''opus'' model then Some WebSearch20260209
         else None)
      else None)"

text \<open>\<open>schema_ok\<close> tells whether the SDK decodes an input schema.  A tool it does not is left out.\<close>

fun anthropic_BuildTools ::
  "(string \<Rightarrow> bool) \<Rightarrow> string \<Rightarrow> tool_def list \<Rightarrow> anthropic_tool list \<times> string list" where
  "anthropic_BuildTools schema_ok model [] = ([], [])"
| "anthropic_BuildTools schema_ok model (td # tds) =
     (let (tools, server) = anthropic_BuildTools schema_ok model tds
      in case anthropicBuiltinTool (tdName td) model of
           Some t \<Rightarrow> (t # tools, tdName td # server)
         | None \<Rightarrow>
             (case tdSchema td of
                Some schema \<Rightarrow>
                  if tdName td \<noteq> [] \<and> schema_ok schema
                  then (ATool (tdName td) (tdDescription td) schema # tools, server) else (tools, server)
              | None \<Rightarrow> (tools, server)))"

text \<open>A message of the SDK and the events of a stream.  \<open>None\<close> as input is Go's \<open>nil\<close>.\<close>

record sdk_block =
  sbType :: string
  sbText :: string
  sbId :: string
  sbName :: string
  sbInput :: "string option"
  sbThinking :: string
  sbSignature :: string
  sbData :: string
  sbRaw :: string

record sdk_message =
  sgRole :: string
  sgContent :: "sdk_block list"
  sgStopReason :: string

record stream_event =
  evType :: string
  evIndex :: nat
  evStartRaw :: "string option"
  evDeltaType :: string
  evPartialJSON :: string

record accumulator =
  saMsg :: sdk_message
  saOriginalRaw :: "string list"
  saToolInput :: "nat \<Rightarrow> string"

definition new_accumulator :: accumulator where
  "new_accumulator = \<lparr>saMsg = \<lparr>sgRole = [], sgContent = [], sgStopReason = []\<rparr>, saOriginalRaw = [],
     saToolInput = (\<lambda>i. [])\<rparr>"

type_synonym accumulate = "stream_event \<Rightarrow> sdk_message \<Rightarrow> unit result \<times> sdk_message"

definition acc_add :: "accumulate \<Rightarrow> stream_event \<Rightarrow> accumulator \<Rightarrow> unit result \<times> accumulator" where
  "acc_add accumulate ev acc =
     (let raws = (case evStartRaw ev of Some r \<Rightarrow> saOriginalRaw acc @ [r] | None \<Rightarrow> saOriginalRaw acc);
          input = (if evType ev = ''content_block_delta'' \<and> evDeltaType ev = ''input_json_delta'' \<and> evPartialJSON ev \<noteq> []
                   then (saToolInput acc)(evIndex ev := saToolInput acc (evIndex ev) @ evPartialJSON ev)
                   else saToolInput acc)
      in case accumulate ev (saMsg acc) of
           (r, m) \<Rightarrow> (r, \<lparr>saMsg = m, saOriginalRaw = raws, saToolInput = input\<rparr>))"

definition restore_input :: "(nat \<Rightarrow> string) \<Rightarrow> nat \<Rightarrow> sdk_block \<Rightarrow> sdk_block" where
  "restore_input streamed i b =
     (if sbType b = ''tool_use'' \<and> streamed i \<noteq> [] \<and> \<not> json_valid (streamed i)
      then b\<lparr>sbInput := Some (streamed i)\<rparr> else b)"

definition acc_message :: "accumulator \<Rightarrow> sdk_message" where
  "acc_message acc =
     (saMsg acc)\<lparr>sgContent := map (\<lambda>(i, b). restore_input (saToolInput acc) i b)
                             (enumerate 0 (sgContent (saMsg acc)))\<rparr>"

text \<open>One attempt reads the events of its stream up to an error of the SDK or of the stream.\<close>

fun read_stream ::
  "accumulate \<Rightarrow> stream_event list \<Rightarrow> accumulator \<Rightarrow> accumulator result" where
  "read_stream accumulate [] acc = Inr acc"
| "read_stream accumulate (ev # evs) acc =
     (case acc_add accumulate ev acc of
        (Inl e, acc') \<Rightarrow> Inl (Wrap ''stream accumulate error: '' e [])
      | (Inr u, acc') \<Rightarrow> read_stream accumulate evs acc')"

definition block_of_sdk :: "sdk_block \<Rightarrow> content_block" where
  "block_of_sdk b =
     \<lparr>cbType = sbType b, cbText = sbText b, cbId = sbId b, cbName = sbName b,
      cbInput = (case sbInput b of
                   None \<Rightarrow> []
                 | Some raw \<Rightarrow>
                     if raw = [] then [] else (case marshal_input (InRaw raw) of Some t \<Rightarrow> t | None \<Rightarrow> raw)),
      cbThinking = sbThinking b, cbSignature = sbSignature b, cbData = sbData b, cbRaw = sbRaw b\<rparr>"

definition anthropicResponseToMessage :: "sdk_message \<Rightarrow> message_response" where
  "anthropicResponseToMessage m =
     \<lparr>mrRole = sgRole m, mrContent = map block_of_sdk (sgContent m), mrStopReason = sgStopReason m\<rparr>"

definition original_raw :: "string list \<Rightarrow> nat \<Rightarrow> content_block \<Rightarrow> content_block" where
  "original_raw raws i c =
     (if i < length raws \<and> raws ! i \<noteq> [] \<and> needsOriginalRaw (cbType c) then c\<lparr>cbRaw := raws ! i\<rparr> else c)"

definition anthropic_response :: "accumulator \<Rightarrow> message_response" where
  "anthropic_response acc =
     (let resp = anthropicResponseToMessage (acc_message acc)
      in resp\<lparr>mrContent := map (\<lambda>(i, c). original_raw (saOriginalRaw acc) i c) (enumerate 0 (mrContent resp))\<rparr>)"

section \<open>Retries\<close>

text \<open>
  \<open>attempt\<close> is one request; \<open>wait n\<close> is the back-off after attempt \<open>n\<close>, \<open>True\<close> when the context ended
  during it.  The number of attempts left is the recursion.
\<close>

definition anthropic_retryable :: "goerror \<Rightarrow> bool" where
  "anthropic_retryable e \<longleftrightarrow>
     contains_sub ''529'' (err_text e) \<or> contains_sub ''429'' (err_text e) \<or> contains_sub ''overloaded'' (err_text e)"

definition backoff_cancelled :: goerror where
  "backoff_cancelled = Wrap ''context cancelled during retry backoff: '' (Err ''context canceled'') []"

fun anthropic_attempts ::
  "('s, 'r) io \<Rightarrow> (nat \<Rightarrow> 's \<Rightarrow> bool \<times> 's) \<Rightarrow> nat \<Rightarrow> nat \<Rightarrow> ('s, 'r) io" where
  "anthropic_attempts attempt wait n 0 s = (Inl (Err ''no attempt''), s)"
| "anthropic_attempts attempt wait n (Suc left) s =
     (case attempt s of
        (Inr r, s1) \<Rightarrow> (Inr r, s1)
      | (Inl e, s1) \<Rightarrow>
          if \<not> anthropic_retryable e \<or> left = 0 then (Inl (Wrap ''anthropic api call failed: '' e []), s1)
          else (case wait n s1 of
                  (True, s2) \<Rightarrow> (Inl backoff_cancelled, s2)
                | (False, s2) \<Rightarrow> anthropic_attempts attempt wait (Suc n) left s2))"

definition maxRetries :: nat where "maxRetries = 3"

definition anthropic_CreateMessage ::
  "accumulate \<Rightarrow> ('s \<Rightarrow> (stream_event list \<times> unit result) \<times> 's) \<Rightarrow> (nat \<Rightarrow> 's \<Rightarrow> bool \<times> 's) \<Rightarrow>
   ('s, message_response) io" where
  "anthropic_CreateMessage accumulate stream wait s =
     (case anthropic_attempts
             (\<lambda>s. case stream s of
                    ((evs, err), s1) \<Rightarrow>
                      (and_then (read_stream accumulate evs new_accumulator) (\<lambda>acc. and_then err (\<lambda>u. Inr acc)), s1))
             wait 0 maxRetries s of
        (Inl e, s1) \<Rightarrow> (Inl e, s1)
      | (Inr acc, s1) \<Rightarrow> (Inr (anthropic_response acc), s1))"

section \<open>OpenRouter\<close>

definition openrouter_block :: "content_block \<Rightarrow> block option" where
  "openrouter_block c =
     (if cbType c = ''text'' then Some (BText (cbText c))
      else if cbType c = ''tool_use'' then Some (BToolUse (cbId c) (cbName c) (InRaw (cbInput c)))
      else if cbRaw c \<noteq> [] then Some (BOverride (cbRaw c))
      else None)"

definition openrouter_ToHistoryParam :: "message_response \<Rightarrow> message" where
  "openrouter_ToHistoryParam resp =
     (let bs = List.map_filter openrouter_block (mrContent resp)
      in Fresh Assistant (if bs = [] then [BText []] else bs))"

fun openrouter_BuildTools :: "tool_def list \<Rightarrow> (string \<times> string \<times> string) list" where
  "openrouter_BuildTools [] = []"
| "openrouter_BuildTools (td # tds) =
     (case tdSchema td of
        Some schema \<Rightarrow>
          if tdName td \<noteq> ''anthropic-web-search'' \<and> tdName td \<noteq> []
          then (tdName td, tdDescription td, schema) # openrouter_BuildTools tds else openrouter_BuildTools tds
      | None \<Rightarrow> openrouter_BuildTools tds)"

text \<open>A message of the chat completion API; a call is its id, name and arguments.\<close>

datatype or_part = OrText string | OrImage string | OrFile string string

datatype or_content = OrPlain string | OrMulti "or_part list"

record or_message =
  orRole :: string
  orContent :: or_content
  orCalls :: "(string \<times> string \<times> string) list"
  orToolId :: string

definition or_plain :: "string \<Rightarrow> string \<Rightarrow> or_message" where
  "or_plain role text = \<lparr>orRole = role, orContent = OrPlain text, orCalls = [], orToolId = []\<rparr>"

definition ToolMessage :: "string \<Rightarrow> string \<Rightarrow> or_message" where
  "ToolMessage i text = (or_plain ''tool'' text)\<lparr>orToolId := i\<rparr>"

fun first_result_text :: "result_item list \<Rightarrow> string" where
  "first_result_text [] = []"
| "first_result_text (RText s # items) = s"
| "first_result_text (RImage src # items) = first_result_text items"

fun tool_message :: "block \<Rightarrow> or_message option" where
  "tool_message (BToolResult i items e) = Some (ToolMessage i (first_result_text items))"
| "tool_message b = None"

fun or_parts :: "block \<Rightarrow> or_part list" where
  "or_parts (BText s) = [OrText s]"
| "or_parts (BImage (ImgBase64 media dat)) = [OrImage (''data:'' @ media @ '';base64,'' @ dat)]"
| "or_parts (BDocument (DocBase64 dat) title) = [OrFile ''document.pdf'' (''data:application/pdf;base64,'' @ dat)]"
| "or_parts (BDocument (DocText t) title) =
     [OrText ((if title = [] then [] else ''['' @ title @ '']'' @ [nl]) @ t)]"
| "or_parts b = []"

fun block_text :: "block \<Rightarrow> string option" where
  "block_text (BText s) = Some s"
| "block_text b = None"

text \<open>
  \<open>extractText\<close>: the texts of the blocks, or those read back from the marshalled message, where \<open>json\<close> is
  that message.
\<close>

definition raw_texts :: "json \<Rightarrow> string list" where
  "raw_texts j =
     (case Option.bind (peek_raw ''content'' j) as_array of
        Some bs \<Rightarrow>
          if list_all (\<lambda>b. peek_str ''type'' b \<noteq> None \<and> peek_str ''text'' b \<noteq> None) bs
          then filter (\<lambda>t. t \<noteq> []) (List.map_filter (peek_str ''text'')
                 (filter (\<lambda>b. peek_str ''type'' b = Some ''text'') bs))
          else []
      | None \<Rightarrow> [])"

definition extractText :: "sdk \<Rightarrow> mrole \<Rightarrow> block list \<Rightarrow> string" where
  "extractText sdk r bs =
     (let texts = List.map_filter block_text bs
      in if texts \<noteq> [] then join [nl] texts
         else case sdk r bs of Inl e \<Rightarrow> [] | Inr j \<Rightarrow> join [nl] (raw_texts j))"

definition convertUserMessages :: "sdk \<Rightarrow> mrole \<Rightarrow> block list \<Rightarrow> or_message list" where
  "convertUserMessages sdk r bs =
     (let results = List.map_filter tool_message bs; parts = concat (map or_parts bs)
      in if results \<noteq> [] \<and> list_all is_tool_result bs then results
         else (case parts of
                 [] \<Rightarrow> or_plain ''user'' (extractText sdk r bs)
               | [OrText t] \<Rightarrow> or_plain ''user'' t
               | _ \<Rightarrow> (or_plain ''user'' [])\<lparr>orContent := OrMulti parts\<rparr>) # results)"

definition call_arguments :: "tool_input \<Rightarrow> string" where
  "call_arguments inp = (case marshal_input inp of Some t \<Rightarrow> t | None \<Rightarrow> [])"

fun block_call :: "block \<Rightarrow> (string \<times> string \<times> string) option" where
  "block_call (BToolUse i n inp) = Some (i, n, call_arguments inp)"
| "block_call b = None"

definition convertAssistantMessage :: "block list \<Rightarrow> or_message" where
  "convertAssistantMessage bs =
     (or_plain ''assistant'' (join [nl] (List.map_filter block_text bs)))\<lparr>orCalls := List.map_filter block_call bs\<rparr>"

text \<open>Loaded messages.  A block whose fields have other types is skipped.\<close>

definition bool_ok :: "string \<Rightarrow> json \<Rightarrow> bool" where
  "bool_ok name b =
     (case members b of
        Some ms \<Rightarrow> list_all (\<lambda>v. case v of JBool x \<Rightarrow> True | JNull \<Rightarrow> True | _ \<Rightarrow> False) (keys_of name ms)
      | None \<Rightarrow> False)"

definition raw_block_ok :: "json \<Rightarrow> bool" where
  "raw_block_ok b \<longleftrightarrow>
     list_all (\<lambda>n. peek_str n b \<noteq> None) [''type'', ''text'', ''id'', ''name'', ''tool_use_id''] \<and> bool_ok ''is_error'' b"

definition peek_text :: "string \<Rightarrow> json \<Rightarrow> string" where
  "peek_text name b = (case peek_str name b of Some s \<Rightarrow> s | None \<Rightarrow> [])"

definition first_text_block :: "json list \<Rightarrow> string option" where
  "first_text_block bs =
     (if list_all (\<lambda>b. peek_str ''type'' b \<noteq> None \<and> peek_str ''text'' b \<noteq> None) bs
      then (case filter (\<lambda>b. peek_text ''type'' b = ''text'') bs of
              [] \<Rightarrow> None
            | b # rest \<Rightarrow> Some (peek_text ''text'' b))
      else None)"

definition extractToolResultTextFromRaw :: "(json \<Rightarrow> string) \<Rightarrow> json option \<Rightarrow> string" where
  "extractToolResultTextFromRaw rt content =
     (case content of
        None \<Rightarrow> []
      | Some (JStr s) \<Rightarrow> s
      | Some JNull \<Rightarrow> []
      | Some (JArr bs) \<Rightarrow> (case first_text_block bs of Some t \<Rightarrow> t | None \<Rightarrow> rt (JArr bs))
      | Some v \<Rightarrow> rt v)"

definition raw_call :: "(json \<Rightarrow> string) \<Rightarrow> json \<Rightarrow> (string \<times> string \<times> string) option" where
  "raw_call rt b =
     (if raw_block_ok b \<and> peek_text ''type'' b = ''tool_use''
      then Some (peek_text ''id'' b, peek_text ''name'' b,
                 case peek_raw ''input'' b of Some v \<Rightarrow> rt v | None \<Rightarrow> ''null'')
      else None)"

definition raw_result :: "(json \<Rightarrow> string) \<Rightarrow> json \<Rightarrow> or_message option" where
  "raw_result rt b =
     (if raw_block_ok b \<and> peek_text ''type'' b = ''tool_result''
      then Some (ToolMessage (peek_text ''tool_use_id'' b) (extractToolResultTextFromRaw rt (peek_raw ''content'' b)))
      else None)"

definition raw_text_of :: "json \<Rightarrow> string option" where
  "raw_text_of b =
     (if raw_block_ok b \<and> peek_text ''type'' b = ''text'' then Some (peek_text ''text'' b) else None)"

definition rawMessageToOpenRouter :: "(json \<Rightarrow> string) \<Rightarrow> json \<Rightarrow> or_message list" where
  "rawMessageToOpenRouter rt j =
     (case message_shape j of
        None \<Rightarrow> []
      | Some (r, bs) \<Rightarrow>
          let text = join [nl] (List.map_filter raw_text_of bs); results = List.map_filter (raw_result rt) bs
          in if r = ''assistant'' then
               (or_plain ''assistant'' text)\<lparr>orCalls := List.map_filter (raw_call rt) bs\<rparr> # results
             else if r = ''user'' then (if results \<noteq> [] then results else [or_plain ''user'' text])
             else [or_plain r text])"

fun convert_message :: "sdk \<Rightarrow> (json \<Rightarrow> string) \<Rightarrow> message \<Rightarrow> or_message list" where
  "convert_message sdk rt (Wrapped j) = rawMessageToOpenRouter rt j"
| "convert_message sdk rt (Fresh r bs) =
     (if role_name r = [] \<or> bs = [] then
        (case sdk r bs of Inl e \<Rightarrow> [] | Inr j \<Rightarrow> rawMessageToOpenRouter rt j)
      else if role_name r = ''user'' then convertUserMessages sdk r bs
      else if role_name r = ''assistant'' then [convertAssistantMessage bs]
      else [or_plain (role_name r) (extractText sdk r bs)])"

definition convertMessages :: "sdk \<Rightarrow> (json \<Rightarrow> string) \<Rightarrow> string \<Rightarrow> message list \<Rightarrow> or_message list" where
  "convertMessages sdk rt system history =
     (if system = [] then [] else [or_plain ''system'' system]) @ concat (map (convert_message sdk rt) history)"

definition openrouter_system :: "string \<Rightarrow> string \<Rightarrow> string" where
  "openrouter_system fixed perEmail =
     (if perEmail = [] then fixed
      else if fixed = [] then perEmail
      else fixed @ [nl, nl] @ perEmail)"

definition openrouter_models :: "config \<Rightarrow> string \<Rightarrow> string list" where
  "openrouter_models cfg model = (if LlmOpenRouterBackup cfg = [] then [] else model # LlmOpenRouterBackup cfg)"

record or_choice =
  ocFinish :: string
  ocText :: string
  ocCalls :: "(string \<times> string \<times> string) list"

definition call_block :: "string \<times> string \<times> string \<Rightarrow> content_block" where
  "call_block = (\<lambda>(i, n, args). (plain_block ''tool_use'')\<lparr>cbId := i, cbName := n, cbInput := args\<rparr>)"

definition toMessageResponse :: "or_choice list \<Rightarrow> message_response" where
  "toMessageResponse choices =
     (case choices of
        [] \<Rightarrow> \<lparr>mrRole = ''assistant'', mrContent = [], mrStopReason = []\<rparr>
      | c # cs \<Rightarrow>
          \<lparr>mrRole = ''assistant'',
           mrContent = (if ocText c = [] then [] else [(plain_block ''text'')\<lparr>cbText := ocText c\<rparr>]) @
                       map call_block (ocCalls c),
           mrStopReason = (if ocFinish c = ''stop'' then ''end_turn''
                           else if ocFinish c = ''tool_calls'' then ''tool_use''
                           else if ocFinish c = ''length'' then ''max_tokens'' else ocFinish c)\<rparr>)"

definition openrouter_retryable :: "goerror \<Rightarrow> bool" where
  "openrouter_retryable e \<longleftrightarrow> anthropic_retryable e \<or> contains_sub ''rate'' (err_text e)"

text \<open>Unlike the Anthropic loop, this one also waits after its last attempt.\<close>

fun openrouter_attempts ::
  "('s, 'r) io \<Rightarrow> (nat \<Rightarrow> 's \<Rightarrow> bool \<times> 's) \<Rightarrow> nat \<Rightarrow> nat \<Rightarrow> goerror \<Rightarrow> ('s, 'r) io" where
  "openrouter_attempts attempt wait n 0 last_err s = (Inl (Wrap ''openrouter api call failed: '' last_err []), s)"
| "openrouter_attempts attempt wait n (Suc left) last_err s =
     (case attempt s of
        (Inr r, s1) \<Rightarrow> (Inr r, s1)
      | (Inl e, s1) \<Rightarrow>
          if openrouter_retryable e
          then (case wait n s1 of
                  (True, s2) \<Rightarrow> (Inl backoff_cancelled, s2)
                | (False, s2) \<Rightarrow> openrouter_attempts attempt wait (Suc n) left e s2)
          else (Inl (Wrap ''openrouter api call failed: '' e []), s1))"

definition openrouter_CreateMessage ::
  "('s, or_choice list) io \<Rightarrow> (nat \<Rightarrow> 's \<Rightarrow> bool \<times> 's) \<Rightarrow> ('s, message_response) io" where
  "openrouter_CreateMessage attempt wait s =
     (case openrouter_attempts attempt wait 0 maxRetries (Err []) s of
        (Inl e, s1) \<Rightarrow> (Inl e, s1)
      | (Inr choices, s1) \<Rightarrow> (Inr (toMessageResponse choices), s1))"

section \<open>The stub and the choice of a provider\<close>

definition stubMessage :: string where
  "stubMessage = ''Kikubot is running, but no LLM API key is configured, so it cannot generate a reply.''"

definition stub_response :: message_response where
  "stub_response = \<lparr>mrRole = ''assistant'', mrContent = [(plain_block ''text'')\<lparr>cbText := stubMessage\<rparr>],
     mrStopReason = ''end_turn''\<rparr>"

definition stub_ToHistoryParam :: "message_response \<Rightarrow> message" where
  "stub_ToHistoryParam resp = Fresh Assistant [BText stubMessage]"

datatype provider_kind = StubProvider | OpenRouterProvider | AnthropicProvider

definition NewProvider :: "config \<Rightarrow> provider_kind" where
  "NewProvider cfg =
     (if LLMKeyMissing cfg then StubProvider
      else if to_lower (LlmProvider cfg) = ''openrouter'' then OpenRouterProvider
      else AnthropicProvider)"

section \<open>Truncated inputs\<close>

text \<open>
  The agent's check of a response (\<open>sanitizeTruncatedToolInputs\<close> of \<open>agent.go\<close>): an input that is not JSON is
  replaced by \<open>{}\<close> and its call is noted with the reason.
\<close>

definition truncation_reason :: "message_response \<Rightarrow> string" where
  "truncation_reason resp =
     (if mrStopReason resp = ''max_tokens''
      then ''stop_reason=max_tokens '' @ em_dash @ '' output limit hit mid-tool-call'' else ''invalid JSON'')"

definition cut_off :: "content_block \<Rightarrow> bool" where
  "cut_off c \<longleftrightarrow> cbType c = ''tool_use'' \<and> trim_space (cbInput c) \<noteq> [] \<and> \<not> json_valid (trim_space (cbInput c))"

definition clean_input :: "content_block \<Rightarrow> content_block" where
  "clean_input c =
     (if cbType c = ''tool_use'' \<and> (trim_space (cbInput c) = [] \<or> \<not> json_valid (trim_space (cbInput c)))
      then c\<lparr>cbInput := ''{}''\<rparr> else c)"

definition sanitize_response :: "message_response \<Rightarrow> message_response" where
  "sanitize_response resp = resp\<lparr>mrContent := map clean_input (mrContent resp)\<rparr>"

definition truncated_ids :: "message_response \<Rightarrow> string list" where
  "truncated_ids resp = map cbId (filter cut_off (mrContent resp))"

definition sanitizeTruncatedToolInputs :: "message_response \<Rightarrow> message_response \<times> (string \<Rightarrow> string option)" where
  "sanitizeTruncatedToolInputs resp =
     (sanitize_response resp, \<lambda>i. if i \<in> set (truncated_ids resp) then Some (truncation_reason resp) else None)"

lemma clean_input_fields [simp]: "cbType (clean_input c) = cbType c" "cbId (clean_input c) = cbId c"
  "cbName (clean_input c) = cbName c" "cbRaw (clean_input c) = cbRaw c"
  by (simp_all add: clean_input_def)

lemma called_ids_sanitize [simp]: "called_ids (sanitize_response resp) = called_ids resp"
  by (simp add: called_ids_def sanitize_response_def filter_map comp_def)

lemma json_valid_braces: "json_valid ''{}''"
  by code_simp

section \<open>Answered conversations\<close>

text \<open>
  A conversation in which each message with calls is followed at once by a message with their results, in the
  order of the calls, and no result stands elsewhere.
\<close>

fun answered :: "message list \<Rightarrow> bool" where
  "answered [] = True"
| "answered [m] = (tool_use_ids m = [] \<and> tool_result_ids m = [])"
| "answered (m # r # rest) =
     (tool_result_ids m = [] \<and>
      (if tool_use_ids m = [] then answered (r # rest)
       else tool_result_ids r = tool_use_ids m \<and> tool_use_ids r = [] \<and> answered rest))"

lemma answered_append: "answered xs \<Longrightarrow> answered ys \<Longrightarrow> answered (xs @ ys)"
proof (induction xs rule: answered.induct)
  case (2 m)
  then show ?case by (cases ys) simp_all
qed (auto split: if_splits)

section \<open>The interface of a provider\<close>

text \<open>
  What the agent relies on: \<open>produced\<close> holds of the responses a provider returns.  The history form of a
  response carries the same client calls, in the same order and nothing that answers one, and a tool result
  answers the call it is made for.
\<close>

locale llm_provider =
  fixes produced :: "message_response \<Rightarrow> bool"
    and to_history :: "message_response \<Rightarrow> message"
    and new_result :: "string \<Rightarrow> string \<Rightarrow> bool \<Rightarrow> block"
  assumes history_calls: "produced resp \<Longrightarrow> tool_use_ids (to_history resp) = called_ids resp"
    and history_results: "produced resp \<Longrightarrow> tool_result_ids (to_history resp) = []"
    and result_answers: "tool_result_id (new_result i text e) = Some i"
    and result_calls: "tool_use_id (new_result i text e) = None"
    and produced_sanitize: "produced resp \<Longrightarrow> produced (sanitize_response resp)"
begin

text \<open>A response and the results for its calls, as the agent appends them.\<close>

lemma answered_calls:
  assumes "produced resp" "map fst answers = called_ids resp"
  shows "tool_use_ids (to_history (sanitize_response resp)) =
         tool_result_ids (Fresh User (map (\<lambda>(i, text, e). new_result i text e) answers))"
proof -
  have "List.map_filter tool_result_id (map (\<lambda>(i, text, e). new_result i text e) answers) = map fst answers"
    by (induction answers) (auto simp: List.map_filter_def result_answers)
  then show ?thesis
    using assms history_calls [OF produced_sanitize [OF assms(1)]] by (simp add: tool_result_ids_def)
qed

lemma results_call_nothing:
  "tool_use_ids (Fresh User (map (\<lambda>(i, text, e). new_result i text e) answers)) = []"
  by (induction answers) (auto simp: tool_use_ids_def List.map_filter_def result_calls)

end

lemma map_filter_map: "List.map_filter f (map g xs) = List.map_filter (f \<circ> g) xs"
  by (simp add: List.map_filter_def filter_map comp_def)

lemma map_filter_filter:
  "(\<And>x. f x = (if P x then Some (g x) else None)) \<Longrightarrow> List.map_filter f xs = map g (filter P xs)"
  by (induction xs) (auto simp: List.map_filter_def)

lemma map_filter_none: "(\<And>x. f x = None) \<Longrightarrow> List.map_filter f xs = []"
  by (simp add: List.map_filter_def)

lemma anthropic_block_ids:
  "tool_use_id (anthropic_block c) = (if cbType c = ''tool_use'' then Some (cbId c) else None)"
  "tool_result_id (anthropic_block c) = None"
  by (auto simp: anthropic_block_def needsOriginalRaw_def)

interpretation anthropic: llm_provider "\<lambda>resp. True" anthropic_ToHistoryParam NewToolResult
proof
  show "tool_use_ids (anthropic_ToHistoryParam resp) = called_ids resp" for resp
    by (simp add: tool_use_ids_def anthropic_ToHistoryParam_def called_ids_def map_filter_map)
      (rule map_filter_filter, simp add: anthropic_block_ids)
  show "tool_result_ids (anthropic_ToHistoryParam resp) = []" for resp
    by (simp add: tool_result_ids_def anthropic_ToHistoryParam_def map_filter_map map_filter_none anthropic_block_ids)
qed (simp_all add: NewToolResult_def)

lemma openrouter_block_use:
  "Option.bind (openrouter_block c) tool_use_id = (if cbType c = ''tool_use'' then Some (cbId c) else None)"
  "Option.bind (openrouter_block c) tool_result_id = None"
  by (auto simp: openrouter_block_def)

lemma map_filter_bind: "List.map_filter g (List.map_filter f xs) = List.map_filter (\<lambda>x. Option.bind (f x) g) xs"
  by (induction xs) (auto simp: List.map_filter_def)

lemma openrouter_history_ids:
  "List.map_filter f (msg_blocks (openrouter_ToHistoryParam resp)) =
   List.map_filter f (if List.map_filter openrouter_block (mrContent resp) = [] then [BText []]
                      else List.map_filter openrouter_block (mrContent resp))"
  by (simp add: openrouter_ToHistoryParam_def Let_def)

interpretation openrouter: llm_provider "\<lambda>resp. True" openrouter_ToHistoryParam NewToolResult
proof
  show "tool_use_ids (openrouter_ToHistoryParam resp) = called_ids resp" for resp
  proof -
    have "List.map_filter tool_use_id (List.map_filter openrouter_block (mrContent resp)) = called_ids resp"
      unfolding map_filter_bind called_ids_def by (rule map_filter_filter) (rule openrouter_block_use)
    then show ?thesis
      unfolding tool_use_ids_def openrouter_history_ids
      by (auto simp: List.map_filter_def)
  qed
  show "tool_result_ids (openrouter_ToHistoryParam resp) = []" for resp
  proof -
    have "List.map_filter tool_result_id (List.map_filter openrouter_block (mrContent resp)) = []"
      unfolding map_filter_bind by (rule map_filter_none) (rule openrouter_block_use)
    then show ?thesis
      unfolding tool_result_ids_def openrouter_history_ids
      by (auto simp: List.map_filter_def)
  qed
qed (simp_all add: NewToolResult_def)

interpretation stub: llm_provider "\<lambda>resp. called_ids resp = []" stub_ToHistoryParam NewToolResult
  by unfold_locales
    (simp_all add: NewToolResult_def stub_ToHistoryParam_def tool_use_ids_def tool_result_ids_def List.map_filter_def)

section \<open>Requests to OpenRouter\<close>

text \<open>
  What the chat completion API demands of a request: the tool messages stand right after the assistant message
  whose calls they answer, in order, and nowhere else.  \<open>pend\<close> are the calls still to be answered.
\<close>

fun paired_from :: "string list \<Rightarrow> or_message list \<Rightarrow> bool" where
  "paired_from pend [] = (pend = [])"
| "paired_from pend (m # ms) =
     (if orRole m = ''tool''
      then (case pend of [] \<Rightarrow> False | i # is \<Rightarrow> orToolId m = i \<and> paired_from is ms)
      else pend = [] \<and> paired_from (map fst (orCalls m)) ms)"

text \<open>
  The calls and the results of a message as the API sees them, also when it was loaded from a memory file.
\<close>

definition json_use_id :: "json \<Rightarrow> string option" where
  "json_use_id b = (if peek_str ''type'' b = Some ''tool_use'' then peek_str ''id'' b else None)"

definition json_result_id :: "json \<Rightarrow> string option" where
  "json_result_id b = (if peek_str ''type'' b = Some ''tool_result'' then peek_str ''tool_use_id'' b else None)"

definition json_ids :: "(json \<Rightarrow> string option) \<Rightarrow> json \<Rightarrow> string list" where
  "json_ids f j = (case message_shape j of None \<Rightarrow> [] | Some (r, bs) \<Rightarrow> List.map_filter f bs)"

fun asked_ids :: "message \<Rightarrow> string list" where
  "asked_ids (Fresh r bs) = tool_use_ids (Fresh r bs)"
| "asked_ids (Wrapped j) = json_ids json_use_id j"

fun replied_ids :: "message \<Rightarrow> string list" where
  "replied_ids (Fresh r bs) = tool_result_ids (Fresh r bs)"
| "replied_ids (Wrapped j) = json_ids json_result_id j"

fun calls_answered :: "message list \<Rightarrow> bool" where
  "calls_answered [] = True"
| "calls_answered [m] = (asked_ids m = [] \<and> replied_ids m = [])"
| "calls_answered (m # r # rest) =
     (replied_ids m = [] \<and>
      (if asked_ids m = [] then calls_answered (r # rest)
       else replied_ids r = asked_ids m \<and> asked_ids r = [] \<and> calls_answered rest))"

text \<open>
  The two speakers: an assistant message holds no results and a user message no calls.  A fresh message has
  blocks, and the members of the blocks of a loaded one have their types.
\<close>

fun proper_turn :: "message \<Rightarrow> bool" where
  "proper_turn (Fresh Assistant bs) \<longleftrightarrow> bs \<noteq> [] \<and> replied_ids (Fresh Assistant bs) = []"
| "proper_turn (Fresh User bs) \<longleftrightarrow> bs \<noteq> [] \<and> asked_ids (Fresh User bs) = []"
| "proper_turn (Fresh (OtherRole s) bs) \<longleftrightarrow> False"
| "proper_turn (Wrapped j) \<longleftrightarrow>
     (case message_shape j of
        None \<Rightarrow> False
      | Some (r, bs) \<Rightarrow>
          list_all raw_block_ok bs \<and>
          (r = ''assistant'' \<and> replied_ids (Wrapped j) = [] \<or> r = ''user'' \<and> asked_ids (Wrapped j) = []))"

text \<open>A user message built in this run that holds results and something else.\<close>

fun mixes_results :: "message \<Rightarrow> bool" where
  "mixes_results (Fresh User bs) \<longleftrightarrow> \<not> list_all is_tool_result bs \<and> replied_ids (Fresh User bs) \<noteq> []"
| "mixes_results m \<longleftrightarrow> False"

lemma tool_message_id: "map_option orToolId (tool_message b) = tool_result_id b"
  by (cases b) (simp_all add: ToolMessage_def)

lemma tool_message_role: "tool_message b = Some m \<Longrightarrow> orRole m = ''tool'' \<and> orCalls m = []"
  by (cases b) (auto simp: ToolMessage_def or_plain_def)

lemma map_filter_image: "map g (List.map_filter f xs) = List.map_filter (\<lambda>x. map_option g (f x)) xs"
  by (induction xs) (auto simp: List.map_filter_def)

lemma tool_messages_ids: "map orToolId (List.map_filter tool_message bs) = tool_result_ids (Fresh r bs)"
  by (simp add: tool_result_ids_def map_filter_image tool_message_id)

lemma tool_messages_tool: "list_all (\<lambda>m. orRole m = ''tool'') (List.map_filter tool_message bs)"
  by (induction bs) (auto simp: List.map_filter_def dest: tool_message_role)

lemma block_calls_ids: "map fst (List.map_filter block_call bs) = tool_use_ids (Fresh r bs)"
proof -
  have "map_option fst (block_call b) = tool_use_id b" for b by (cases b) simp_all
  then show ?thesis by (simp add: tool_use_ids_def map_filter_image)
qed

lemma paired_from_tools:
  "list_all (\<lambda>m. orRole m = ''tool'') ts \<Longrightarrow> paired_from (map orToolId ts @ pend) (ts @ ms) = paired_from pend ms"
  by (induction ts) simp_all

lemma results_only: "list_all is_tool_result bs \<Longrightarrow> length (tool_result_ids (Fresh r bs)) = length bs"
  unfolding tool_result_ids_def msg_blocks.simps
proof (induction bs)
  case (Cons b bs)
  then show ?case by (cases b) (simp_all add: List.map_filter_def)
qed (simp add: List.map_filter_def)

lemma raw_ids:
  assumes "list_all raw_block_ok bs"
  shows "map fst (List.map_filter (raw_call rt) bs) = List.map_filter json_use_id bs"
    and "map orToolId (List.map_filter (raw_result rt) bs) = List.map_filter json_result_id bs"
  using assms
  by (induction bs)
    (auto simp: List.map_filter_def raw_call_def raw_result_def json_use_id_def json_result_id_def raw_block_ok_def
      peek_text_def ToolMessage_def)

lemma raw_results_tool: "list_all (\<lambda>m. orRole m = ''tool'') (List.map_filter (raw_result rt) bs)"
  by (induction bs) (auto simp: List.map_filter_def raw_result_def ToolMessage_def or_plain_def split: if_splits)

text \<open>What a message becomes: one message that is not a tool message and carries its calls, the tool messages of
  its results, or, when it mixes them, a user message in front of them.\<close>

lemma proper_turn_cases:
  assumes "proper_turn m"
  obtains (speaks) c where "convert_message sdk rt m = [c]" "orRole c \<noteq> ''tool''" "map fst (orCalls c) = asked_ids m"
      "replied_ids m = []" "\<not> mixes_results m"
  | (replied_ids) "list_all (\<lambda>c. orRole c = ''tool'') (convert_message sdk rt m)"
      "map orToolId (convert_message sdk rt m) = replied_ids m" "replied_ids m \<noteq> []" "\<not> mixes_results m"
  | (mixes_results) c cs where "convert_message sdk rt m = c # cs" "orRole c \<noteq> ''tool''" "replied_ids m \<noteq> []" "mixes_results m"
proof (cases m rule: proper_turn.cases)
  case (1 bs)
  show ?thesis
    by (rule speaks [of "convertAssistantMessage bs"])
      (use assms in \<open>simp_all add: 1 convertAssistantMessage_def or_plain_def block_calls_ids [of bs Assistant]\<close>)
next
  case (2 bs)
  from assms have bs: "bs \<noteq> []" and none: "asked_ids m = []" by (simp_all add: 2)
  from bs have conv: "convert_message sdk rt m = convertUserMessages sdk User bs" by (simp add: 2)
  have ids: "map orToolId (List.map_filter tool_message bs) = replied_ids m"
    by (simp add: 2 tool_messages_ids [of bs User])
  show ?thesis
  proof (cases "list_all is_tool_result bs")
    case True
    with bs have some: "replied_ids m \<noteq> []" using results_only [OF True, of User] by (auto simp: 2)
    with ids have "List.map_filter tool_message bs \<noteq> []" by auto
    with True have "convert_message sdk rt m = List.map_filter tool_message bs"
      by (simp add: conv convertUserMessages_def)
    with some ids True show ?thesis by (intro replied_ids) (simp_all add: 2 tool_messages_tool)
  next
    case False
    let ?c = "hd (convertUserMessages sdk User bs)"
    have c: "convert_message sdk rt m = ?c # List.map_filter tool_message bs" "orRole ?c \<noteq> ''tool''" "orCalls ?c = []"
      using False by (auto simp: conv convertUserMessages_def Let_def or_plain_def split: list.splits or_part.splits)
    show ?thesis
    proof (cases "replied_ids m = []")
      case True
      with ids c none show ?thesis by (intro speaks [of ?c]) (simp_all add: 2)
    next
      case some: False
      with c False show ?thesis by (intro mixes_results [OF c(1)]) (simp_all add: 2)
    qed
  qed
next
  case (4 j)
  from assms obtain r bs where j: "message_shape j = Some (r, bs)" "list_all raw_block_ok bs"
    "r = ''assistant'' \<and> replied_ids m = [] \<or> r = ''user'' \<and> asked_ids m = []"
    by (auto simp: 4 split: option.splits)
  let ?results = "List.map_filter (raw_result rt) bs"
  have ids: "asked_ids m = map fst (List.map_filter (raw_call rt) bs)" "replied_ids m = map orToolId ?results"
    using raw_ids [OF j(2)] by (simp_all add: 4 json_ids_def j(1))
  have conv: "convert_message sdk rt m = rawMessageToOpenRouter rt j" by (simp add: 4)
  show ?thesis
  proof (cases "replied_ids m = []")
    case True
    with ids(2) have "?results = []" by simp
    with j(1,3) ids(1) True show ?thesis
      by (intro speaks [of "hd (rawMessageToOpenRouter rt j)"])
        (auto simp: 4 conv rawMessageToOpenRouter_def Let_def or_plain_def)
  next
    case False
    with ids(2) have "?results \<noteq> []" by auto
    with j False have "convert_message sdk rt m = ?results" by (simp add: conv rawMessageToOpenRouter_def)
    with False ids(2) show ?thesis by (intro replied_ids) (simp_all add: 4 raw_results_tool)
  qed
qed (use assms in simp)

lemma paired_conversation:
  "calls_answered h \<Longrightarrow> list_all proper_turn h \<Longrightarrow>
   paired_from [] (concat (map (convert_message sdk rt) h)) \<longleftrightarrow> \<not> list_ex mixes_results h"
proof (induction h rule: calls_answered.induct)
  case (2 m)
  then have m: "proper_turn m" "replied_ids m = []" "asked_ids m = []" by simp_all
  from m(1) show ?case by (cases rule: proper_turn_cases [where sdk = sdk and rt = rt]) (use m(2,3) in simp_all)
next
  case (3 m r rest)
  then have m: "proper_turn m" "replied_ids m = []" and r: "proper_turn r" and all: "list_all proper_turn rest" by simp_all
  from m(1) obtain c where c: "convert_message sdk rt m = [c]" "orRole c \<noteq> ''tool''" "map fst (orCalls c) = asked_ids m"
    "\<not> mixes_results m"
    by (cases rule: proper_turn_cases [where sdk = sdk and rt = rt]) (use m(2) in auto)
  let ?rest = "concat (map (convert_message sdk rt) rest)"
  show ?case
  proof (cases "asked_ids m = []")
    case True
    with 3 c show ?thesis by simp
  next
    case False
    with 3 have rest: "replied_ids r = asked_ids m" "paired_from [] ?rest \<longleftrightarrow> \<not> list_ex mixes_results rest" by simp_all
    from r have "paired_from (asked_ids m) (convert_message sdk rt r @ ?rest) \<longleftrightarrow> \<not> mixes_results r \<and> paired_from [] ?rest"
    proof (cases rule: proper_turn_cases [where sdk = sdk and rt = rt])
      case replied_ids
      then show ?thesis using paired_from_tools [of "convert_message sdk rt r" "[]" ?rest] rest(1) by simp
    qed (use rest(1) False in simp_all)
    with c rest(2) show ?thesis by simp
  qed
qed simp

text \<open>C40. A conversation whose calls are answered, of messages loaded from memory and messages of this run, becomes a
  request the chat completion API accepts, each assistant message with calls followed by exactly their tool
  messages, in order, and no other tool message, exactly when no user message built in this run mixes results with
  other content: there the user message stands between the calls and the tool messages.\<close>

theorem openrouter_request_is_paired:
  assumes "calls_answered h" "list_all proper_turn h"
  shows "paired_from [] (convertMessages sdk rt system h) \<longleftrightarrow> \<not> list_ex mixes_results h"
  using paired_conversation [OF assms] by (simp add: convertMessages_def or_plain_def)

text \<open>A conversation of which the first exchange was loaded from memory, and the same with a remark beside a result.\<close>

definition demo_block :: "string \<Rightarrow> (string \<times> json) list \<Rightarrow> json" where
  "demo_block ty ms = JObj ((''type'', JStr ty) # ms)"

definition demo_turns :: "block list \<Rightarrow> message list" where
  "demo_turns remark =
     [Wrapped (marshal_shape ''user'' [demo_block ''text'' [(''text'', JStr ''Subject: stock'')]]),
      Wrapped (marshal_shape ''assistant'' [demo_block ''text'' [(''text'', JStr ''Looking.'')],
        demo_block ''tool_use'' [(''id'', JStr ''t1''), (''name'', JStr ''lookup''), (''input'', JObj [])]]),
      Wrapped (marshal_shape ''user'' [demo_block ''tool_result'' [(''tool_use_id'', JStr ''t1''),
        (''content'', JArr [demo_block ''text'' [(''text'', JStr ''7'')]]), (''is_error'', JBool False)]]),
      Fresh Assistant [BToolUse ''t2'' ''lookup'' (InRaw ''[1]''), BToolUse ''t3'' ''lookup'' (InRaw ''{}'')],
      Fresh User ([BToolResult ''t2'' [RText ''none''] True, BToolResult ''t3'' [RText ''8''] False] @ remark),
      Fresh Assistant [BText ''Done.'']]"

lemma openrouter_request_is_paired_witness:
  "paired_from [] (convertMessages (\<lambda>r bs. Inl (Err [])) json_show ''sys'' (demo_turns [])) \<and>
   \<not> paired_from [] (convertMessages (\<lambda>r bs. Inl (Err [])) json_show ''sys'' (demo_turns [BText ''Hurry.''])) \<and>
   length (convertMessages (\<lambda>r bs. Inl (Err [])) json_show ''sys'' (demo_turns [])) = 8"
proof (intro conjI)
  have h: "calls_answered (demo_turns [])" "list_all proper_turn (demo_turns [])" "\<not> list_ex mixes_results (demo_turns [])" by code_simp+
  then show "paired_from [] (convertMessages (\<lambda>r bs. Inl (Err [])) json_show ''sys'' (demo_turns []))"
    by (simp add: openrouter_request_is_paired)
  have h: "calls_answered (demo_turns [BText ''Hurry.''])" "list_all proper_turn (demo_turns [BText ''Hurry.''])"
    "list_ex mixes_results (demo_turns [BText ''Hurry.''])" by code_simp+
  then show "\<not> paired_from [] (convertMessages (\<lambda>r bs. Inl (Err [])) json_show ''sys'' (demo_turns [BText ''Hurry.'']))"
    by (simp add: openrouter_request_is_paired)
  show "length (convertMessages (\<lambda>r bs. Inl (Err [])) json_show ''sys'' (demo_turns [])) = 8" by code_simp
qed

section \<open>Retries\<close>

text \<open>
  The attempts and the back-offs seen in a world: \<open>tries\<close> goes up by one with each attempt, \<open>waits\<close> with each
  back-off.
\<close>

definition observes ::
  "('s \<Rightarrow> nat) \<Rightarrow> ('s \<Rightarrow> nat) \<Rightarrow> ('s \<Rightarrow> 'r \<times> 's) \<Rightarrow> (nat \<Rightarrow> 's \<Rightarrow> bool \<times> 's) \<Rightarrow> bool" where
  "observes tries waits attempt wait \<longleftrightarrow>
     (\<forall>s. tries (snd (attempt s)) = Suc (tries s) \<and> waits (snd (attempt s)) = waits s) \<and>
     (\<forall>n s. tries (snd (wait n s)) = tries s \<and> waits (snd (wait n s)) = Suc (waits s))"

lemma observes_step:
  assumes "observes tries waits attempt wait"
  shows "attempt s = (r, s1) \<Longrightarrow> tries s1 = Suc (tries s) \<and> waits s1 = waits s"
    and "wait n s = (b, s1) \<Longrightarrow> tries s1 = tries s \<and> waits s1 = Suc (waits s)"
  using assms unfolding observes_def by (metis snd_conv)+

lemma anthropic_attempts_count:
  assumes "observes tries waits attempt wait"
  shows "anthropic_attempts attempt wait n (Suc left) s = (r, s') \<Longrightarrow>
    tries s < tries s' \<and> tries s' \<le> tries s + Suc left \<and>
    (is_ok r \<longrightarrow> waits s' + tries s + 1 = waits s + tries s') \<and> waits s' \<le> waits s + left"
proof (induction left arbitrary: n s)
  case 0
  obtain r1 s1 where a: "attempt s = (r1, s1)" by (metis prod.collapse)
  with 0 observes_step(1) [OF assms a] show ?case by (cases r1) auto
next
  case (Suc left)
  obtain r1 s1 where a: "attempt s = (r1, s1)" by (metis prod.collapse)
  obtain b s2 where w: "wait n s1 = (b, s2)" by (metis prod.collapse)
  consider (ok) x where "r1 = Inr x" | (stop) e where "r1 = Inl e" "\<not> anthropic_retryable e"
    | (cancelled) e where "r1 = Inl e" "anthropic_retryable e" "b"
    | (again) e where "r1 = Inl e" "anthropic_retryable e" "\<not> b" by (cases r1) auto
  then show ?case
  proof cases
    case again
    with Suc.prems a w have "anthropic_attempts attempt wait (Suc n) (Suc left) s2 = (r, s')" by simp
    from Suc.IH [OF this] observes_step(1) [OF assms a] observes_step(2) [OF assms w] show ?thesis by auto
  qed (use Suc.prems a w observes_step(1) [OF assms a] observes_step(2) [OF assms w] in auto)
qed

lemma openrouter_attempts_count:
  assumes "observes tries waits attempt wait"
  shows "openrouter_attempts attempt wait n left last_err s = (r, s') \<Longrightarrow>
    tries s' \<le> tries s + left \<and> waits s' \<le> waits s + left \<and>
    (is_ok r \<longrightarrow> waits s' + tries s + 1 = waits s + tries s')"
proof (induction left arbitrary: n s last_err)
  case (Suc left)
  obtain r1 s1 where a: "attempt s = (r1, s1)" by (metis prod.collapse)
  obtain b s2 where w: "wait n s1 = (b, s2)" by (metis prod.collapse)
  consider (ok) x where "r1 = Inr x" | (stop) e where "r1 = Inl e" "\<not> openrouter_retryable e"
    | (cancelled) e where "r1 = Inl e" "openrouter_retryable e" "b"
    | (again) e where "r1 = Inl e" "openrouter_retryable e" "\<not> b" by (cases r1) auto
  then show ?case
  proof cases
    case again
    with Suc.prems a w have "openrouter_attempts attempt wait (Suc n) left e s2 = (r, s')" by simp
    from Suc.IH [OF this] observes_step(1) [OF assms a] observes_step(2) [OF assms w] show ?thesis by auto
  qed (use Suc.prems a w observes_step(1) [OF assms a] observes_step(2) [OF assms w] in auto)
qed auto

text \<open>A request is tried at most three times, with every provider, and a response is returned right after the
  attempt that gave it: between the attempts of a successful request there is one back-off each.  The Anthropic
  provider never waits after its last attempt.\<close>

theorem requests_are_tried_three_times_at_most:
  assumes "observes tries waits stream wait" "observes tries waits attempt wait"
  shows "(case anthropic_CreateMessage accumulate stream wait s of
            (r, s') \<Rightarrow> tries s < tries s' \<and> tries s' \<le> tries s + 3 \<and> waits s' \<le> waits s + 2 \<and>
              (is_ok r \<longrightarrow> waits s' + tries s + 1 = waits s + tries s')) \<and>
         (case openrouter_CreateMessage attempt wait s of
            (r, s') \<Rightarrow> tries s' \<le> tries s + 3 \<and> waits s' \<le> waits s + 3 \<and>
              (is_ok r \<longrightarrow> waits s' + tries s + 1 = waits s + tries s'))"
proof
  let ?one = "\<lambda>s. case stream s of
      ((evs, err), s1) \<Rightarrow> (and_then (read_stream accumulate evs new_accumulator) (\<lambda>acc. and_then err (\<lambda>u. Inr acc)), s1)"
  have "snd (?one s) = snd (stream s)" for s by (auto split: prod.splits)
  then have obs: "observes tries waits ?one wait" using assms(1) by (simp add: observes_def)
  obtain r s1 where run: "anthropic_attempts ?one wait 0 (Suc 2) s = (r, s1)" by (metis prod.collapse)
  have three: "maxRetries = Suc 2" by (simp add: maxRetries_def)
  have create: "anthropic_CreateMessage accumulate stream wait s =
      (case r of Inl e \<Rightarrow> Inl e | Inr acc \<Rightarrow> Inr (anthropic_response acc), s1)"
    unfolding anthropic_CreateMessage_def three run by (cases r) simp_all
  show "case anthropic_CreateMessage accumulate stream wait s of
      (r, s') \<Rightarrow> tries s < tries s' \<and> tries s' \<le> tries s + 3 \<and> waits s' \<le> waits s + 2 \<and>
        (is_ok r \<longrightarrow> waits s' + tries s + 1 = waits s + tries s')"
    unfolding create using anthropic_attempts_count [OF obs run] by (cases r) simp_all
next
  obtain r s1 where run: "openrouter_attempts attempt wait 0 maxRetries (Err []) s = (r, s1)" by (metis prod.collapse)
  have create: "openrouter_CreateMessage attempt wait s =
      (case r of Inl e \<Rightarrow> Inl e | Inr choices \<Rightarrow> Inr (toMessageResponse choices), s1)"
    unfolding openrouter_CreateMessage_def run by (cases r) simp_all
  have "maxRetries = 3" by (simp add: maxRetries_def)
  with openrouter_attempts_count [OF assms(2) run]
  show "case openrouter_CreateMessage attempt wait s of
      (r, s') \<Rightarrow> tries s' \<le> tries s + 3 \<and> waits s' \<le> waits s + 3 \<and>
        (is_ok r \<longrightarrow> waits s' + tries s + 1 = waits s + tries s')"
    unfolding create by (cases r) simp_all
qed

text \<open>A server that is overloaded for every request.  Worlds count attempts and back-offs.\<close>

definition overloaded_server :: "(nat \<times> nat, 'a) io" where
  "overloaded_server = (\<lambda>(t, w). (Inl (Err ''529 overloaded''), (Suc t, w)))"

definition demo_wait :: "nat \<Rightarrow> nat \<times> nat \<Rightarrow> bool \<times> nat \<times> nat" where
  "demo_wait n = (\<lambda>(t, w). (False, (t, Suc w)))"

definition overloaded_stream :: "nat \<times> nat \<Rightarrow> (stream_event list \<times> unit result) \<times> nat \<times> nat" where
  "overloaded_stream = (\<lambda>(t, w). (([], Inl (Err ''529 overloaded'')), (Suc t, w)))"

lemma requests_are_tried_three_times_at_most_witness:
  "fst (snd (openrouter_CreateMessage overloaded_server demo_wait (0, 0))) \<le> 3 \<and>
   snd (openrouter_CreateMessage overloaded_server demo_wait (0, 0)) = (3, 3)"
proof
  have obs: "observes fst snd overloaded_server demo_wait" "observes fst snd overloaded_stream demo_wait"
    by (simp_all add: observes_def overloaded_server_def overloaded_stream_def demo_wait_def split: prod.splits)
  show "fst (snd (openrouter_CreateMessage overloaded_server demo_wait (0, 0))) \<le> 3"
    using requests_are_tried_three_times_at_most [OF obs(2,1), where s = "(0, 0)" and accumulate = "\<lambda>ev m. (ok, m)"]
    by (auto split: prod.splits)
  show "snd (openrouter_CreateMessage overloaded_server demo_wait (0, 0)) = (3, 3)" by code_simp
qed

section \<open>Truncated streams\<close>

lemma enumerate_nth: "i < length bs \<Longrightarrow> enumerate 0 bs ! i = (i, bs ! i)"
  by (simp add: nth_enumerate_eq)

lemma anthropic_response_nth:
  assumes "i < length (sgContent (saMsg acc))"
  shows "mrContent (anthropic_response acc) ! i =
    original_raw (saOriginalRaw acc) i (block_of_sdk (restore_input (saToolInput acc) i (sgContent (saMsg acc) ! i)))"
  using assms
  by (simp add: anthropic_response_def Let_def anthropicResponseToMessage_def acc_message_def enumerate_nth)

lemma anthropic_response_length: "length (mrContent (anthropic_response acc)) = length (sgContent (saMsg acc))"
  by (simp add: anthropic_response_def Let_def anthropicResponseToMessage_def acc_message_def)

text \<open>A tool call whose streamed input was cut off is noticed, whatever the SDK made of the input: the call is
  noted as truncated, the history holds it with the input \<open>{}\<close>, and its id, its name and every other block
  stay as they were.\<close>

theorem cut_off_stream_is_noticed:
  assumes "i < length (sgContent (saMsg acc))" "sbType (sgContent (saMsg acc) ! i) = ''tool_use''"
    "\<not> json_valid (saToolInput acc i)" "trim_space (saToolInput acc i) \<noteq> []"
    "\<not> json_valid (trim_space (saToolInput acc i))"
    "sanitizeTruncatedToolInputs (anthropic_response acc) = (resp, truncated)"
  shows "truncated (sbId (sgContent (saMsg acc) ! i)) = Some (truncation_reason (anthropic_response acc)) \<and>
    cbInput (mrContent resp ! i) = ''{}'' \<and>
    map cbId (mrContent resp) = map sbId (sgContent (saMsg acc)) \<and>
    map cbName (mrContent resp) = map sbName (sgContent (saMsg acc))"
proof -
  let ?b = "sgContent (saMsg acc) ! i" and ?c = "mrContent (anthropic_response acc) ! i"
  have "saToolInput acc i \<noteq> []" using assms(4) by (auto simp: trim_by_def trim_left_def trim_right_def)
  with assms(1-3) have c: "cbType ?c = ''tool_use''" "cbId ?c = sbId ?b" "cbInput ?c = saToolInput acc i"
    by (simp_all add: anthropic_response_nth original_raw_def needsOriginalRaw_def block_of_sdk_def restore_input_def)
  then have cut: "cut_off ?c" using assms(4,5) by (simp add: cut_off_def)
  have i: "i < length (mrContent (anthropic_response acc))" using assms(1) by (simp add: anthropic_response_length)
  with cut c(2) have "sbId ?b \<in> set (truncated_ids (anthropic_response acc))"
    using nth_mem [OF i] by (force simp: truncated_ids_def)
  moreover have "cbInput (clean_input ?c) = ''{}''" using cut by (simp add: cut_off_def clean_input_def)
  moreover have "map cbId (mrContent (anthropic_response acc)) = map sbId (sgContent (saMsg acc))"
    "map cbName (mrContent (anthropic_response acc)) = map sbName (sgContent (saMsg acc))"
    by (rule nth_equalityI; simp add: anthropic_response_length anthropic_response_nth original_raw_def
        block_of_sdk_def restore_input_def)+
  ultimately show ?thesis
    using assms(6) i by (auto simp: sanitizeTruncatedToolInputs_def sanitize_response_def comp_def)
qed

text \<open>A call whose arguments stop in the middle of a string; the SDK keeps the last input it could parse.\<close>

definition cut_event :: stream_event where
  "cut_event = \<lparr>evType = ''content_block_delta'', evIndex = 0, evStartRaw = None, evDeltaType = ''input_json_delta'',
     evPartialJSON = [CHR ''{'', dquote]\<rparr>"

definition cut_call :: sdk_block where
  "cut_call = \<lparr>sbType = ''tool_use'', sbText = [], sbId = ''t1'', sbName = ''lookup'', sbInput = Some ''{}'',
     sbThinking = [], sbSignature = [], sbData = [], sbRaw = []\<rparr>"

definition cut_acc :: accumulator where
  "cut_acc = snd (acc_add (\<lambda>ev m. (ok, m\<lparr>sgContent := [cut_call]\<rparr>)) cut_event new_accumulator)"

lemma cut_off_stream_is_noticed_witness:
  "snd (sanitizeTruncatedToolInputs (anthropic_response cut_acc)) ''t1'' \<noteq> None"
proof -
  have acc: "0 < length (sgContent (saMsg cut_acc))" "sbType (sgContent (saMsg cut_acc) ! 0) = ''tool_use''"
    "\<not> json_valid (saToolInput cut_acc 0)" "trim_space (saToolInput cut_acc 0) \<noteq> []"
    "\<not> json_valid (trim_space (saToolInput cut_acc 0))" "sbId (sgContent (saMsg cut_acc) ! 0) = ''t1''"
    by code_simp+
  show ?thesis
    using cut_off_stream_is_noticed [OF acc(1-5) prod.collapse [symmetric]] by (simp add: acc(6))
qed

end
