(* ===== verification/Agent_Loop.thy ===== *)
theory Agent_Loop
  imports History Provider Snooze
begin

text \<open>
  The agent's loop over one inbound message (\<open>internal/agents/agent.go\<close>): the prompt, the turns, the dispatch
  of tool calls with the guard against repeated failures, and the replay of a scheduled task.  A tool is a
  record whose execution is an operation on a world \<open>'s\<close> and the delivery counter of the run; the provider is
  a record of its four operations, with \<open>'t\<close> its own form of a tool list.
\<close>

section \<open>Tools\<close>

record tool_ctx =
  tcSource :: email
  tcNudge :: bool

record 's tool =
  tlName :: string
  tlDescription :: string
  tlSchema :: "string option"
  tlStatic :: string
  tlSystem :: "email \<Rightarrow> string result"
  tlExec :: "tool_ctx \<Rightarrow> string \<Rightarrow> ('s, string) io"

text \<open>A tool without a \<open>System\<close> function has the constant empty text.  Of equal names the last one is indexed.\<close>

definition indexTools :: "'s tool list \<Rightarrow> string \<Rightarrow> 's tool option" where
  "indexTools tools name = map_of (rev (map (\<lambda>t. (tlName t, t)) tools)) name"

definition WithoutTool :: "'s tool list \<Rightarrow> string \<Rightarrow> 's tool list" where
  "WithoutTool tools name = filter (\<lambda>t. tlName t \<noteq> name) tools"

definition toToolDefs :: "'s tool list \<Rightarrow> tool_def list" where
  "toToolDefs tools = map (\<lambda>t. \<lparr>tdName = tlName t, tdDescription = tlDescription t, tdSchema = tlSchema t\<rparr>) tools"

section \<open>The agent\<close>

record 't message_params =
  mpModel :: string
  mpMaxTokens :: int
  mpSystemStable :: string
  mpSystemVolatile :: string
  mpMessages :: "message list"
  mpTools :: 't

record ('s, 't) provider_ops =
  pvCreateMessage :: "'t message_params \<Rightarrow> ('s, message_response) io"
  pvBuildTools :: "tool_def list \<Rightarrow> string \<Rightarrow> 't \<times> string list"
  pvToHistoryParam :: "message_response \<Rightarrow> message"
  pvNewToolResult :: "string \<Rightarrow> string \<Rightarrow> bool \<Rightarrow> block"

text \<open>
  What a run reads: the configuration, the agent's id and system prompt, the provider, the state of the
  context, the write of a temporary file and the arguments of the history functions.
\<close>

record ('s, 't) agent_env =
  aeCfg :: config
  aeId :: string
  aeSystem :: string
  aeProvider :: "('s, 't) provider_ops"
  aeCtxErr :: "'s \<Rightarrow> goerror option"
  aeCreateTemp :: "string \<Rightarrow> string \<Rightarrow> 's \<Rightarrow> string option \<times> 's"
  aeRawLength :: "json \<Rightarrow> nat"
  aeNetMail :: "string \<Rightarrow> string option"
  aeFloat :: "string \<Rightarrow> string option"
  aeConverters :: converters

text \<open>The state of a run.\<close>

record 's run_state =
  rsWorld :: 's
  rsHistory :: "message list"
  rsLast :: string
  rsFailed :: "string \<Rightarrow> string option"

section \<open>The prompt\<close>

definition static_instructions :: "'s tool list \<Rightarrow> string list" where
  "static_instructions tools = filter (\<lambda>t. t \<noteq> []) (map tlStatic tools)"

definition dynamic_instructions :: "'s tool list \<Rightarrow> email \<Rightarrow> string list" where
  "dynamic_instructions tools e =
     filter (\<lambda>t. t \<noteq> []) (List.map_filter (\<lambda>t. case tlSystem t e of Inl x \<Rightarrow> None | Inr s \<Rightarrow> Some s) tools)"

definition stable_system :: "string \<Rightarrow> string \<Rightarrow> 's tool list \<Rightarrow> string" where
  "stable_system preSys system tools =
     (if preSys \<noteq> [] then preSys @ [nl, nl] else []) @ system @
     (if static_instructions tools \<noteq> []
      then [nl, nl] @ ''# Tool Instructions'' @ [nl, nl] @ join [nl, nl] (static_instructions tools) else [])"

definition volatile_system :: "'s tool list \<Rightarrow> email \<Rightarrow> string" where
  "volatile_system tools e =
     (if dynamic_instructions tools e \<noteq> []
      then ''# Per-Email Tool Instructions'' @ [nl, nl] @ join [nl, nl] (dynamic_instructions tools e) else [])"

section \<open>One tool call\<close>

definition truncated_guidance :: string where
  "truncated_guidance =
     ''Your previous tool input was truncated by the model output limit and could not be parsed. The payload '' @
     ''is too large to emit inline. Reduce the size: send long content as a file attachment, split the '' @
     ''request into multiple smaller calls, or summarize. Do NOT retry the same call verbatim.''"

text \<open>The result text of an executed call: spilled when large, truncated, then the note on the spilled file.\<close>

definition spill_result ::
  "('s, 't) agent_env \<Rightarrow> string \<Rightarrow> string \<Rightarrow> bool \<Rightarrow> 's \<Rightarrow> string option \<times> 's" where
  "spill_result env name text isError w =
     (if \<not> isError \<and> ToolResultSpillChars (aeCfg env) > 0 \<and>
         int (length text) > ToolResultSpillChars (aeCfg env)
      then aeCreateTemp env (spill_pattern (aeId env) name) text w else (None, w))"

definition result_text :: "config \<Rightarrow> string \<Rightarrow> string option \<Rightarrow> string" where
  "result_text cfg text spillPath =
     truncateToolResult text (MaxToolResultChars cfg) @
     (case spillPath of Some p \<Rightarrow> toolResultSpillNote (length text) p | None \<Rightarrow> [])"

text \<open>A call answers with a text and the error flag.\<close>

definition dispatch ::
  "('s, 't) agent_env \<Rightarrow> (string \<Rightarrow> 's tool option) \<Rightarrow> tool_ctx \<Rightarrow> (string \<Rightarrow> string option) \<Rightarrow>
   content_block \<Rightarrow> 's run_state \<Rightarrow> (string \<times> bool) \<times> 's run_state" where
  "dispatch env tools ctx truncated c st =
     (if truncated (cbId c) \<noteq> None then ((truncated_guidance, True), st)
      else case tools (cbName c) of
        None \<Rightarrow> ((''unknown tool: '' @ cbName c, True), st)
      | Some td \<Rightarrow>
          let key = toolCallKey (aeFloat env) (cbName c) (cbInput c)
          in case rsFailed st key of
               Some prevErr \<Rightarrow> ((repeatedFailureNote (cbName c) prevErr, True), st)
             | None \<Rightarrow>
                 (case tlExec td ctx (cbInput c) (rsWorld st) of
                    (Inl e, w) \<Rightarrow>
                      ((truncateToolResult (err_text e) (MaxToolResultChars (aeCfg env)), True),
                       st\<lparr>rsWorld := w, rsFailed := (rsFailed st)(key := Some (err_text e))\<rparr>)
                  | (Inr text, w) \<Rightarrow>
                      (case spill_result env (cbName c) text False w of
                         (path, w') \<Rightarrow> ((result_text (aeCfg env) text path, False), st\<lparr>rsWorld := w'\<rparr>))))"

fun process_blocks ::
  "('s, 't) agent_env \<Rightarrow> (string \<Rightarrow> 's tool option) \<Rightarrow> tool_ctx \<Rightarrow> (string \<Rightarrow> string option) \<Rightarrow>
   content_block list \<Rightarrow> 's run_state \<Rightarrow> block list \<times> 's run_state" where
  "process_blocks env tools ctx truncated [] st = ([], st)"
| "process_blocks env tools ctx truncated (c # cs) st =
     (if cbType c = ''text'' then process_blocks env tools ctx truncated cs (st\<lparr>rsLast := cbText c\<rparr>)
      else if cbType c = ''tool_use'' then
        (case dispatch env tools ctx truncated c st of
           ((text, isError), st1) \<Rightarrow>
             (case process_blocks env tools ctx truncated cs st1 of
                (results, st2) \<Rightarrow> (pvNewToolResult (aeProvider env) (cbId c) text isError # results, st2)))
      else process_blocks env tools ctx truncated cs st)"

section \<open>The turns\<close>

datatype turn_outcome = Continue | EndTurn | Failed goerror

definition outgoing :: "('s, 't) agent_env \<Rightarrow> message list \<Rightarrow> message list" where
  "outgoing env history =
     (if MaxHistoryChars (aeCfg env) > 0
      then trimHistory (aeCfg env) (aeRawLength env) (aeNetMail env) history (MaxHistoryChars (aeCfg env))
      else history)"

text \<open>\<open>mk\<close> makes the request of a message list; the other parts of a request do not change in a run.\<close>

definition run_turn ::
  "('s, 't) agent_env \<Rightarrow> (message list \<Rightarrow> 't message_params) \<Rightarrow> (string \<Rightarrow> 's tool option) \<Rightarrow> tool_ctx \<Rightarrow> nat \<Rightarrow>
   's run_state \<Rightarrow> turn_outcome \<times> 's run_state" where
  "run_turn env mk tools ctx turn st =
     (case aeCtxErr env (rsWorld st) of
        Some e \<Rightarrow> (Failed (Wrap (''context cancelled before turn '' @ show_nat turn @ '': '') e []), st)
      | None \<Rightarrow>
          (case pvCreateMessage (aeProvider env) (mk (outgoing env (rsHistory st))) (rsWorld st) of
             (Inl e, w) \<Rightarrow> (Failed (Wrap ''api call failed: '' e []), st\<lparr>rsWorld := w\<rparr>)
           | (Inr resp0, w) \<Rightarrow>
               (case sanitizeTruncatedToolInputs resp0 of
                  (resp, truncated) \<Rightarrow>
                    let st1 = st\<lparr>rsWorld := w,
                                 rsHistory := rsHistory st @ [pvToHistoryParam (aeProvider env) resp]\<rparr>
                    in case process_blocks env tools ctx truncated (mrContent resp) st1 of
                         (results, st2) \<Rightarrow>
                           if mrStopReason resp = ''end_turn'' then (EndTurn, st2)
                           else if results \<noteq> []
                           then (Continue, st2\<lparr>rsHistory := rsHistory st2 @ [Fresh User results]\<rparr>)
                           else (Continue, st2))))"

fun run_turns ::
  "('s, 't) agent_env \<Rightarrow> (message list \<Rightarrow> 't message_params) \<Rightarrow> (string \<Rightarrow> 's tool option) \<Rightarrow> tool_ctx \<Rightarrow>
   nat \<Rightarrow> nat \<Rightarrow> 's run_state \<Rightarrow> turn_outcome \<times> 's run_state" where
  "run_turns env mk tools ctx turn 0 st = (Continue, st)"
| "run_turns env mk tools ctx turn (Suc left) st =
     (case run_turn env mk tools ctx turn st of
        (Continue, st1) \<Rightarrow> run_turns env mk tools ctx (Suc turn) left st1
      | (out, st1) \<Rightarrow> (out, st1))"

record 's agent =
  agWorld :: 's
  agHistory :: "message list"
  agLast :: string

definition max_turns_error :: "string \<Rightarrow> int \<Rightarrow> goerror" where
  "max_turns_error i n = Wrap (''agent '' @ i @ '' hit max turns ('' @ show_int n @ ''): '') ErrMaxTurns []"

definition make_request ::
  "('s, 't) agent_env \<Rightarrow> string \<Rightarrow> email \<Rightarrow> 's tool list \<Rightarrow> message list \<Rightarrow> 't message_params" where
  "make_request env preSys e toolSet msgs =
     \<lparr>mpModel = LlmModel (aeCfg env), mpMaxTokens = MaxTokens (aeCfg env),
      mpSystemStable = stable_system preSys (aeSystem env) toolSet, mpSystemVolatile = volatile_system toolSet e,
      mpMessages = msgs,
      mpTools = fst (pvBuildTools (aeProvider env) (toToolDefs toolSet) (LlmModel (aeCfg env)))\<rparr>"

text \<open>
  \<open>fresh_counter\<close> is what \<open>WithSendTracker\<close> does to the world the tools see: a run has a counter of its own,
  and a set of failed calls of its own.
\<close>

definition initial_state ::
  "('s, 't) agent_env \<Rightarrow> ('s \<Rightarrow> 's) \<Rightarrow> email \<Rightarrow> 's agent \<Rightarrow> 's run_state" where
  "initial_state env fresh_counter e ag =
     \<lparr>rsWorld = fresh_counter (agWorld ag), rsHistory = agHistory ag @ [UserMessage (aeConverters env) e],
      rsLast = agLast ag, rsFailed = (\<lambda>k. None)\<rparr>"

definition run_result :: "string \<Rightarrow> int \<Rightarrow> turn_outcome \<Rightarrow> unit result" where
  "run_result i maxTurns out =
     (case out of EndTurn \<Rightarrow> ok | Failed x \<Rightarrow> Inl x | Continue \<Rightarrow> Inl (max_turns_error i maxTurns))"

definition handleMessageWith ::
  "('s, 't) agent_env \<Rightarrow> ('s \<Rightarrow> 's) \<Rightarrow> string \<Rightarrow> bool \<Rightarrow> email \<Rightarrow> int \<Rightarrow> 's tool list \<Rightarrow> 's agent \<Rightarrow>
   unit result \<times> 's agent" where
  "handleMessageWith env fresh_counter preSys nudge e maxTurns toolSet ag =
     (case run_turns env (make_request env preSys e toolSet) (indexTools toolSet)
             \<lparr>tcSource = e, tcNudge = nudge\<rparr> 0 (nat maxTurns) (initial_state env fresh_counter e ag) of
        (out, st) \<Rightarrow>
          (run_result (aeId env) maxTurns out,
           \<lparr>agWorld = rsWorld st, agHistory = rsHistory st, agLast = rsLast st\<rparr>))"

definition HandleMessage ::
  "('s, 't) agent_env \<Rightarrow> ('s \<Rightarrow> 's) \<Rightarrow> string \<Rightarrow> email \<Rightarrow> int \<Rightarrow> 's tool list \<Rightarrow> 's agent \<Rightarrow>
   unit result \<times> 's agent" where
  "HandleMessage env fresh_counter preSys e maxTurns toolSet ag =
     handleMessageWith env fresh_counter preSys False e maxTurns toolSet ag"

section \<open>Scheduled tasks\<close>

definition replay_pre :: "snooze \<Rightarrow> string" where
  "replay_pre s =
     ''IMPORTANT: This email is being replayed as a previously scheduled task. '' @
     ''The scheduling has already been handled '' @ em_dash @ '' do NOT schedule, snooze, or defer anything. '' @
     ''Do NOT mention scheduling in your response. '' @
     ''Execute the task described below immediately.'' @
     (if snDescription s \<noteq> [] then [nl, nl] @ ''Task: '' @ snDescription s else [])"

definition replay_now :: "tzdb \<Rightarrow> snooze \<Rightarrow> gotime \<Rightarrow> gotime" where
  "replay_now db s now =
     (if snTimezone s = [] then now
      else case LoadTimezone db (snTimezone s) of Inr loc \<Rightarrow> tm_in loc now | Inl e \<Rightarrow> now)"

definition snoozeReplayContent :: "tzdb \<Rightarrow> snooze \<Rightarrow> email \<Rightarrow> gotime \<Rightarrow> string" where
  "snoozeReplayContent db s e now0 =
     (let now = fmt_replay_date (replay_now db s now0)
      in (if snWatchdog s then
            ''[AUTOMATED FOLLOW-UP '' @ em_dash @ '' not a new email from the sender]'' @ [nl] @
            ''Current time: '' @ now @ [nl] @
            ''Instruction: '' @ snDescription s @ [nl] @
            ''The email below is replayed for context only.'' @ [nl]
          else
            ''[AUTOMATED SCHEDULED RUN '' @ em_dash @ '' not a new email from the sender]'' @ [nl] @
            ''Current time: '' @ now @ [nl] @
            (if snDescription s \<noteq> [] then ''Task to perform now: '' @ snDescription s @ [nl] else []) @
            ''The email below (originally received '' @ fmt_replay_date (eDate e) @
            '') is being replayed because its scheduled time has arrived. If it asks for something to be '' @
            ''scheduled or set up, that was already done '' @ em_dash @ '' the schedule is what triggered this '' @
            ''run. Do not reply about the schedule and do not treat this as a duplicate of an earlier '' @
            ''message: carry out the task itself now, from the start, as if the sender had just asked for it.'' @ [nl]) @
         [nl] @ ''--- Replayed email ---'' @ [nl] @ eContent e)"

definition HandleSnooze ::
  "('s, 't) agent_env \<Rightarrow> ('s \<Rightarrow> 's) \<Rightarrow> tzdb \<Rightarrow> fetch \<Rightarrow> gotime \<Rightarrow> snooze \<Rightarrow> int \<Rightarrow> 's tool list \<Rightarrow> 's agent \<Rightarrow>
   unit result \<times> 's agent" where
  "HandleSnooze env fresh_counter db get now s maxTurns toolSet ag =
     (case get [snMessageId s] of
        Inl e \<Rightarrow> (Inl e, ag)
      | Inr [] \<Rightarrow> (Inl (Err (''no snoozed email found with Message-Id: '' @ snMessageId s)), ag)
      | Inr (e # es) \<Rightarrow>
          handleMessageWith env fresh_counter (replay_pre s) (snWatchdog s)
            (e\<lparr>eContent := snoozeReplayContent db s e now\<rparr>) maxTurns
            (WithoutTool (WithoutTool toolSet ''snooze_tool'') ''unsnooze_tool'') ag)"

section \<open>Every call is answered\<close>

lemma handled_run:
  assumes "handleMessageWith env fresh_counter preSys nudge e maxTurns toolSet ag = (r, ag')"
  obtains out st' where
    "run_turns env (make_request env preSys e toolSet) (indexTools toolSet)
       \<lparr>tcSource = e, tcNudge = nudge\<rparr> 0 (nat maxTurns) (initial_state env fresh_counter e ag) = (out, st')"
    "r = run_result (aeId env) maxTurns out"
    "ag' = \<lparr>agWorld = rsWorld st', agHistory = rsHistory st', agLast = rsLast st'\<rparr>"
  using assms that unfolding handleMessageWith_def by (auto split: prod.splits)

context llm_provider
begin

lemma process_blocks_ids:
  assumes "pvNewToolResult (aeProvider env) = new_result"
  shows "tool_result_ids (Fresh User (fst (process_blocks env tools ctx truncated cs st))) =
           map cbId (filter (\<lambda>c. cbType c = ''tool_use'') cs) \<and>
         tool_use_ids (Fresh User (fst (process_blocks env tools ctx truncated cs st))) = []"
  using assms
proof (induction env tools ctx truncated cs st rule: process_blocks.induct)
  case (2 env tools ctx truncated c cs st)
  show ?case
  proof (cases "cbType c = ''tool_use''")
    case True
    obtain ans isError st1 where d: "dispatch env tools ctx truncated c st = ((ans, isError), st1)"
      by (metis prod.collapse)
    obtain results st2 where p: "process_blocks env tools ctx truncated cs st1 = (results, st2)"
      by (metis prod.collapse)
    have "cbType c \<noteq> ''text''" using True by simp
    from 2(2) [OF this True d [symmetric] refl 2(4)] p True d 2(4) show ?thesis
      by (simp add: tool_result_ids_def tool_use_ids_def List.map_filter_def result_answers result_calls)
  next
    case False
    with 2 show ?thesis by (cases "cbType c = ''text''") simp_all
  qed
qed (simp add: tool_result_ids_def tool_use_ids_def List.map_filter_def)

lemma process_blocks_results:
  "fst (process_blocks env tools ctx truncated cs st) = [] \<longleftrightarrow> filter (\<lambda>c. cbType c = ''tool_use'') cs = []"
  by (induction env tools ctx truncated cs st rule: process_blocks.induct) (auto split: prod.splits)

text \<open>The provider of the environment is this one.\<close>

definition provided :: "('s, 't) agent_env \<Rightarrow> bool" where
  "provided env \<longleftrightarrow>
     pvToHistoryParam (aeProvider env) = to_history \<and> pvNewToolResult (aeProvider env) = new_result \<and>
     (\<forall>p w resp w'. pvCreateMessage (aeProvider env) p w = (Inr resp, w') \<longrightarrow> produced resp)"

lemma process_blocks_history: "rsHistory (snd (process_blocks env tools ctx truncated cs st)) = rsHistory st"
proof (induction env tools ctx truncated cs st rule: process_blocks.induct)
  case (2 env tools ctx truncated c cs st)
  obtain ans isError st1 where d: "dispatch env tools ctx truncated c st = ((ans, isError), st1)"
    by (metis prod.collapse)
  then have "rsHistory st1 = rsHistory st"
    by (auto simp: dispatch_def Let_def split: if_splits option.splits prod.splits sum.splits)
  with 2 d show ?case by (auto split: prod.splits)
qed simp

text \<open>One turn appends nothing, an answered piece, or a last response at the end of the run.\<close>

lemma run_turn_history:
  assumes "provided env" "run_turn env mk tools ctx turn st = (out, st')"
  shows "\<exists>ms. rsHistory st' = rsHistory st @ ms \<and> length ms \<le> 2 \<and>
    (answered ms \<or> out = EndTurn \<and> (\<exists>resp. ms = [to_history resp] \<and> mrStopReason resp = ''end_turn''))"
proof (cases "aeCtxErr env (rsWorld st)")
  case (Some e)
  then show ?thesis using assms(2) by (auto simp: run_turn_def intro: exI [of _ "[]"])
next
  case None
  note ctx_ok = None
  obtain r w where cm: "pvCreateMessage (aeProvider env) (mk (outgoing env (rsHistory st))) (rsWorld st) = (r, w)"
    by (metis prod.collapse)
  show ?thesis
  proof (cases r)
    case (Inl e)
    then show ?thesis using assms(2) ctx_ok cm by (auto simp: run_turn_def intro: exI [of _ "[]"])
  next
    case (Inr resp0)
    obtain resp truncated where s: "sanitizeTruncatedToolInputs resp0 = (resp, truncated)" by (metis prod.collapse)
    let ?st1 = "st\<lparr>rsWorld := w, rsHistory := rsHistory st @ [to_history resp]\<rparr>"
    obtain results st2 where p: "process_blocks env tools ctx truncated (mrContent resp) ?st1 = (results, st2)"
      by (metis prod.collapse)
    have prod: "produced resp0" and env: "pvToHistoryParam (aeProvider env) = to_history"
      "pvNewToolResult (aeProvider env) = new_result"
      using assms(1) cm Inr by (auto simp: provided_def)
    have resp: "resp = sanitize_response resp0" using s by (simp add: sanitizeTruncatedToolInputs_def)
    have h: "rsHistory st2 = rsHistory st @ [to_history resp]"
      using process_blocks_history [of env tools ctx truncated "mrContent resp" ?st1] p by simp
    have ids: "tool_result_ids (Fresh User results) = tool_use_ids (to_history resp)" "tool_use_ids (Fresh User results) = []"
      "tool_result_ids (to_history resp) = []"
      using process_blocks_ids [OF env(2), of tools ctx truncated "mrContent resp" ?st1] p
        history_calls [OF produced_sanitize [OF prod]] history_results [OF produced_sanitize [OF prod]] resp
      by (simp_all add: called_ids_def)
    have nonempty: "tool_use_ids (to_history resp) = [] \<longleftrightarrow> results = []"
      using process_blocks_results [of env tools ctx truncated "mrContent resp" ?st1] p
        history_calls [OF produced_sanitize [OF prod]] resp by (simp add: called_ids_def)
    have run: "(out, st') = (if mrStopReason resp = ''end_turn'' then (EndTurn, st2)
        else if results \<noteq> [] then (Continue, st2\<lparr>rsHistory := rsHistory st2 @ [Fresh User results]\<rparr>)
        else (Continue, st2))"
      using assms(2) ctx_ok cm Inr s p env(1) by (simp add: run_turn_def)
    have "answered [to_history resp, Fresh User results]" if "results \<noteq> []" using ids nonempty that by simp
    moreover have "answered [to_history resp]" if "results = []"
      using ids nonempty that by simp
    ultimately show ?thesis
      using run h by (auto split: if_splits intro: exI [of _ "[to_history resp]"] exI [of _ "[to_history resp, Fresh User results]"])
  qed
qed

lemma run_turns_history:
  assumes "provided env"
  shows "run_turns env mk tools ctx turn left st = (out, st') \<Longrightarrow>
    \<exists>ms. rsHistory st' = rsHistory st @ ms \<and> length ms \<le> 2 * left \<and>
      (answered ms \<or> out = EndTurn \<and>
        (\<exists>ms' resp. ms = ms' @ [to_history resp] \<and> mrStopReason resp = ''end_turn'' \<and> answered ms'))"
proof (induction left arbitrary: turn st)
  case (Suc left)
  obtain out1 st1 where t: "run_turn env mk tools ctx turn st = (out1, st1)" by (metis prod.collapse)
  from run_turn_history [OF assms t] obtain ms where
    ms: "rsHistory st1 = rsHistory st @ ms" "length ms \<le> 2" 
    "answered ms \<or> out1 = EndTurn \<and> (\<exists>resp. ms = [to_history resp] \<and> mrStopReason resp = ''end_turn'')" by blast
  show ?case
  proof (cases "out1 = Continue")
    case True
    with Suc.prems t have "run_turns env mk tools ctx (Suc turn) left st1 = (out, st')" by simp
    from Suc.IH [OF this] obtain ns where
      ns: "rsHistory st' = rsHistory st1 @ ns" "length ns \<le> 2 * left"
        "answered ns \<or> out = EndTurn \<and>
          (\<exists>ms' resp. ns = ms' @ [to_history resp] \<and> mrStopReason resp = ''end_turn'' \<and> answered ms')" by blast
    have am: "answered ms" using ms(3) True by simp
    have "answered (ms @ ns) \<or> out = EndTurn \<and>
        (\<exists>ms' resp. ms @ ns = ms' @ [to_history resp] \<and> mrStopReason resp = ''end_turn'' \<and> answered ms')"
      using ns(3) answered_append [OF am] by (metis append_assoc)
    with ms ns show ?thesis by (intro exI [of _ "ms @ ns"]) simp
  next
    case False
    with Suc.prems t have "out = out1" "st' = st1" by (cases out1; simp)+
    with ms show ?thesis
      by (intro exI [of _ ms]) (auto intro: exI [of _ "[]"])
  qed
qed (auto intro: exI [of _ "[]"])

lemma handled_history:
  assumes "provided env"
    "handleMessageWith env fresh_counter preSys nudge e maxTurns toolSet ag = (r, ag')"
  shows "\<exists>ms. agHistory ag' = agHistory ag @ UserMessage (aeConverters env) e # ms \<and> length ms \<le> 2 * nat maxTurns \<and>
    (answered ms \<or> r = ok \<and>
      (\<exists>ms' resp. ms = ms' @ [to_history resp] \<and> mrStopReason resp = ''end_turn'' \<and> answered ms'))"
proof (rule handled_run [OF assms(2)])
  fix out st'
  assume run: "run_turns env (make_request env preSys e toolSet) (indexTools toolSet)
      \<lparr>tcSource = e, tcNudge = nudge\<rparr> 0 (nat maxTurns) (initial_state env fresh_counter e ag) = (out, st')"
    "r = run_result (aeId env) maxTurns out" "ag' = \<lparr>agWorld = rsWorld st', agHistory = rsHistory st', agLast = rsLast st'\<rparr>"
  let ?st = "initial_state env fresh_counter e ag"
  from run_turns_history [OF assms(1) run(1)] obtain ms where
    ms: "rsHistory st' = rsHistory ?st @ ms" "length ms \<le> 2 * nat maxTurns"
      "answered ms \<or> out = EndTurn \<and>
        (\<exists>ms' resp. ms = ms' @ [to_history resp] \<and> mrStopReason resp = ''end_turn'' \<and> answered ms')" by blast
  have "agHistory ag' = agHistory ag @ UserMessage (aeConverters env) e # ms"
    using ms(1) run(3) by (simp add: initial_state_def)
  moreover have "out = EndTurn \<Longrightarrow> r = ok" using run(2) by (simp add: run_result_def)
  ultimately show ?thesis using ms(2,3) by blast
qed

end

section \<open>Failed calls\<close>

text \<open>A log of executed calls, each with its key and its success, in which no failed key comes again.\<close>

fun no_repeat :: "(string \<times> bool) list \<Rightarrow> bool" where
  "no_repeat [] = True"
| "no_repeat ((k, good) # l) = ((good \<or> k \<notin> fst ` set l) \<and> no_repeat l)"

lemma no_repeat_snoc: "no_repeat (l @ [(k, good)]) \<longleftrightarrow> no_repeat l \<and> (k, False) \<notin> set l"
  by (induction l rule: no_repeat.induct) auto

lemma indexTools_name: "indexTools tools n = Some t \<Longrightarrow> t \<in> set tools \<and> tlName t = n"
  unfolding indexTools_def by (auto dest!: map_of_SomeD)

text \<open>\<open>log\<close> reads the log off a world: the tools write it, and nothing else of the environment does.\<close>

definition logs :: "('s \<Rightarrow> (string \<times> bool) list) \<Rightarrow> ('s, 't) agent_env \<Rightarrow> ('s \<Rightarrow> 's) \<Rightarrow> 's tool list \<Rightarrow> bool" where
  "logs log env fresh_counter tools \<longleftrightarrow>
     (\<forall>t\<in>set tools. \<forall>ctx i w. log (snd (tlExec t ctx i w)) =
        log w @ [(toolCallKey (aeFloat env) (tlName t) i, is_ok (fst (tlExec t ctx i w)))]) \<and>
     (\<forall>p w. log (snd (pvCreateMessage (aeProvider env) p w)) = log w) \<and>
     (\<forall>a b w. log (snd (aeCreateTemp env a b w)) = log w) \<and>
     (\<forall>w. log (fresh_counter w) = log w)"

definition failed_known :: "('s \<Rightarrow> (string \<times> bool) list) \<Rightarrow> 's run_state \<Rightarrow> bool" where
  "failed_known log st \<longleftrightarrow>
     no_repeat (log (rsWorld st)) \<and> (\<forall>k. (k, False) \<in> set (log (rsWorld st)) \<longrightarrow> rsFailed st k \<noteq> None)"

lemma dispatch_failed_known:
  assumes "logs log env fresh tools" "failed_known log st"
  shows "failed_known log (snd (dispatch env (indexTools tools) ctx truncated c st))"
proof (cases "truncated (cbId c) \<noteq> None \<or> indexTools tools (cbName c) = None \<or>
    rsFailed st (toolCallKey (aeFloat env) (cbName c) (cbInput c)) \<noteq> None")
  case True
  then have "snd (dispatch env (indexTools tools) ctx truncated c st) = st"
    by (auto simp: dispatch_def split: option.splits)
  with assms(2) show ?thesis by simp
next
  case False
  then obtain td where td: "indexTools tools (cbName c) = Some td" by auto
  let ?key = "toolCallKey (aeFloat env) (cbName c) (cbInput c)"
  obtain r w where ex: "tlExec td ctx (cbInput c) (rsWorld st) = (r, w)" by (metis prod.collapse)
  have log: "log w = log (rsWorld st) @ [(?key, is_ok r)]"
    using assms(1) indexTools_name [OF td] ex unfolding logs_def by (metis fst_conv snd_conv)
  have fresh: "(?key, False) \<notin> set (log (rsWorld st))" using assms(2) False by (auto simp: failed_known_def)
  then have nr: "no_repeat (log w)" using assms(2) by (simp add: log no_repeat_snoc failed_known_def)
  show ?thesis
  proof (cases r)
    case (Inl e)
    then show ?thesis using False td ex nr log assms(2)
      by (auto simp: dispatch_def failed_known_def)
  next
    case (Inr ans)
    obtain path w' where sp: "spill_result env (cbName c) ans False w = (path, w')" by (metis prod.collapse)
    have "log w' = log w"
      using sp assms(1) unfolding logs_def spill_result_def by (metis (full_types) snd_conv)
    with Inr show ?thesis using False td ex nr log sp assms(2)
      by (auto simp: dispatch_def failed_known_def)
  qed
qed

lemma process_blocks_failed_known:
  assumes "logs log env fresh tools"
  shows "failed_known log st \<Longrightarrow> failed_known log (snd (process_blocks env (indexTools tools) ctx truncated cs st))"
proof (induction cs arbitrary: st)
  case (Cons c cs)
  have "failed_known log (st\<lparr>rsLast := cbText c\<rparr>)" using Cons.prems by (simp add: failed_known_def)
  with Cons dispatch_failed_known [OF assms Cons.prems, of ctx truncated c] show ?case
    by (auto split: prod.splits) (metis snd_conv)+
qed simp

lemma run_turn_failed_known:
  assumes "logs log env fresh tools" "failed_known log st"
  shows "failed_known log (snd (run_turn env mk (indexTools tools) ctx turn st))"
proof -
  have upd: "failed_known log (s\<lparr>rsHistory := h\<rparr>) = failed_known log s" for s h
    by (simp add: failed_known_def)
  obtain r w where cm: "pvCreateMessage (aeProvider env) (mk (outgoing env (rsHistory st))) (rsWorld st) = (r, w)"
    by (metis prod.collapse)
  then have w: "failed_known log (st\<lparr>rsWorld := w\<rparr>)"
    using assms by (auto simp: failed_known_def logs_def) (metis snd_conv)+
  have "failed_known log (snd (process_blocks env (indexTools tools) ctx truncated cs (st\<lparr>rsWorld := w, rsHistory := h\<rparr>)))"
    for truncated cs h
    by (rule process_blocks_failed_known [OF assms(1)]) (simp add: upd w)
  with w assms(2) cm upd show ?thesis
    by (auto simp: run_turn_def Let_def split: option.splits sum.splits prod.splits) (metis snd_conv)+
qed

lemma run_turns_failed_known:
  assumes "logs log env fresh tools"
  shows "failed_known log st \<Longrightarrow> failed_known log (snd (run_turns env mk (indexTools tools) ctx turn left st))"
proof (induction left arbitrary: turn st)
  case (Suc left)
  have "failed_known log (snd (run_turn env mk (indexTools tools) ctx turn st))"
    by (rule run_turn_failed_known [OF assms Suc.prems])
  with Suc.IH show ?case by (auto split: prod.splits turn_outcome.splits)
qed simp

section \<open>The turn budget\<close>

text \<open>\<open>requests\<close> counts the requests to the provider in a world.\<close>

definition counts :: "('s \<Rightarrow> nat) \<Rightarrow> ('s, 't) agent_env \<Rightarrow> ('s \<Rightarrow> 's) \<Rightarrow> 's tool list \<Rightarrow> bool" where
  "counts requests env fresh_counter tools \<longleftrightarrow>
     (\<forall>p w. requests (snd (pvCreateMessage (aeProvider env) p w)) = Suc (requests w)) \<and>
     (\<forall>t\<in>set tools. \<forall>ctx i w. requests (snd (tlExec t ctx i w)) = requests w) \<and>
     (\<forall>a b w. requests (snd (aeCreateTemp env a b w)) = requests w) \<and>
     (\<forall>w. requests (fresh_counter w) = requests w)"

lemma dispatch_requests:
  assumes "counts requests env fresh tools"
  shows "requests (rsWorld (snd (dispatch env (indexTools tools) ctx truncated c st))) = requests (rsWorld st)"
proof -
  have tool: "requests (snd (tlExec t ctx i w)) = requests w" if "indexTools tools n = Some t" for n t i w
    using assms indexTools_name [OF that] by (simp add: counts_def)
  have spill: "requests (snd (spill_result env n a b w)) = requests w" for n a b w
    using assms by (simp add: counts_def spill_result_def)
  show ?thesis
    using tool spill by (auto simp: dispatch_def Let_def split: option.splits prod.splits sum.splits) (metis snd_conv)+
qed

lemma process_blocks_requests:
  assumes "counts requests env fresh tools"
  shows "requests (rsWorld (snd (process_blocks env (indexTools tools) ctx truncated cs st))) = requests (rsWorld st)"
proof (induction cs arbitrary: st)
  case (Cons c cs)
  then show ?case
    using dispatch_requests [OF assms, of ctx truncated c st] by (auto split: prod.splits) (metis snd_conv)+
qed simp

lemma run_turn_requests:
  assumes "counts requests env fresh tools" "run_turn env mk (indexTools tools) ctx turn st = (out, st')"
  shows "requests (rsWorld st') \<le> Suc (requests (rsWorld st)) \<and>
    (out = Failed e \<or> requests (rsWorld st') = Suc (requests (rsWorld st)) \<or> (\<exists>x. out = Failed x))"
proof -
  obtain r w where cm: "pvCreateMessage (aeProvider env) (mk (outgoing env (rsHistory st))) (rsWorld st) = (r, w)"
    by (metis prod.collapse)
  then have w: "requests w = Suc (requests (rsWorld st))" using assms(1) unfolding counts_def by (metis snd_conv)
  have "requests (rsWorld (snd (process_blocks env (indexTools tools) ctx truncated cs (st\<lparr>rsWorld := w, rsHistory := h\<rparr>)))) = requests w"
    for truncated cs h
    using process_blocks_requests [OF assms(1)] by simp
  with w cm assms(2) show ?thesis
    by (auto simp: run_turn_def Let_def split: option.splits sum.splits prod.splits if_splits) (metis order_refl snd_conv)+
qed

lemma run_turns_requests:
  assumes "counts requests env fresh tools"
  shows "run_turns env mk (indexTools tools) ctx turn left st = (out, st') \<Longrightarrow>
    requests (rsWorld st') \<le> requests (rsWorld st) + left \<and>
    (out = Continue \<longrightarrow> requests (rsWorld st') = requests (rsWorld st) + left)"
proof (induction left arbitrary: turn st)
  case (Suc left)
  obtain out1 st1 where t: "run_turn env mk (indexTools tools) ctx turn st = (out1, st1)" by (metis prod.collapse)
  from run_turn_requests [OF assms t] have r: "requests (rsWorld st1) \<le> Suc (requests (rsWorld st))"
    "out1 = Continue \<longrightarrow> requests (rsWorld st1) = Suc (requests (rsWorld st))" by auto
  show ?case
  proof (cases "out1 = Continue")
    case True
    with Suc.prems t have "run_turns env mk (indexTools tools) ctx (Suc turn) left st1 = (out, st')" by simp
    from Suc.IH [OF this] r True show ?thesis by auto
  next
    case False
    with Suc.prems t have "out = out1" "st' = st1" by (cases out1; simp)+
    with r False show ?thesis by auto
  qed
qed simp

section \<open>Properties\<close>

text \<open>C12. Every tool call is answered.  With the Anthropic or the OpenRouter provider, what a run appends to the
  history is the inbound email and then a conversation in which each message with calls is followed at once by
  their results, in order.  This holds for the whole of a run that fails or spends its budget; of a successful run
  only the last message is exempt, the response with the stop reason \<open>end_turn\<close>.  A run appends at most two
  messages per turn.\<close>

theorem every_tool_call_is_answered:
  assumes "pvToHistoryParam (aeProvider env) = anthropic_ToHistoryParam \<or>
      pvToHistoryParam (aeProvider env) = openrouter_ToHistoryParam"
    "pvNewToolResult (aeProvider env) = NewToolResult"
    "handleMessageWith env fresh_counter preSys nudge e maxTurns toolSet ag = (r, ag')"
  shows "\<exists>ms. agHistory ag' = agHistory ag @ UserMessage (aeConverters env) e # ms \<and> length ms \<le> 2 * nat maxTurns \<and>
    (answered ms \<or> r = ok \<and>
      (\<exists>ms' resp. ms = ms' @ [pvToHistoryParam (aeProvider env) resp] \<and> mrStopReason resp = ''end_turn'' \<and> answered ms'))"
proof -
  from assms(1) show ?thesis
  proof
    assume p: "pvToHistoryParam (aeProvider env) = anthropic_ToHistoryParam"
    then have "anthropic.provided env" using assms(2) by (simp add: anthropic.provided_def)
    from anthropic.handled_history [OF this assms(3)] p show ?thesis by simp
  next
    assume p: "pvToHistoryParam (aeProvider env) = openrouter_ToHistoryParam"
    then have "openrouter.provided env" using assms(2) by (simp add: openrouter.provided_def)
    from openrouter.handled_history [OF this assms(3)] p show ?thesis by simp
  qed
qed

text \<open>C13. A call that failed is not executed again: in the log of the executed calls of a run, by tool name and
  canonical input, nothing follows a failed call under its key.\<close>

theorem failed_call_is_not_repeated:
  assumes "logs log env fresh_counter toolSet" "log (agWorld ag) = []"
    "handleMessageWith env fresh_counter preSys nudge e maxTurns toolSet ag = (r, ag')"
  shows "no_repeat (log (agWorld ag'))"
proof (rule handled_run [OF assms(3)])
  let ?st = "initial_state env fresh_counter e ag"
  fix out st'
  assume run: "run_turns env (make_request env preSys e toolSet) (indexTools toolSet)
      \<lparr>tcSource = e, tcNudge = nudge\<rparr> 0 (nat maxTurns) ?st = (out, st')"
    "ag' = \<lparr>agWorld = rsWorld st', agHistory = rsHistory st', agLast = rsLast st'\<rparr>"
  have "failed_known log ?st" using assms(1,2) by (simp add: failed_known_def logs_def initial_state_def)
  from run_turns_failed_known [OF assms(1) this, where ctx = "\<lparr>tcSource = e, tcNudge = nudge\<rparr>"
      and mk = "make_request env preSys e toolSet" and turn = 0 and left = "nat maxTurns"] run
  show ?thesis by (simp add: failed_known_def)
qed

text \<open>C14. A run ends within its turn budget: it makes at most \<open>maxTurns\<close> requests, and when it returns because
  the budget is spent it made exactly that many and the error is the one the poller tells from the others.\<close>

theorem run_ends_within_budget:
  assumes "counts requests env fresh_counter toolSet"
    "handleMessageWith env fresh_counter preSys nudge e maxTurns toolSet ag = (r, ag')"
  shows "requests (agWorld ag') \<le> requests (agWorld ag) + nat maxTurns \<and>
    (r = ok \<or> (\<exists>x. r = Inl x \<and> fst (run_turns env (make_request env preSys e toolSet) (indexTools toolSet)
        \<lparr>tcSource = e, tcNudge = nudge\<rparr> 0 (nat maxTurns) (initial_state env fresh_counter e ag)) = Failed x) \<or>
     (\<exists>x. r = Inl x \<and> err_is x ErrMaxTurns) \<and> requests (agWorld ag') = requests (agWorld ag) + nat maxTurns)"
proof (rule handled_run [OF assms(2)])
  let ?st = "initial_state env fresh_counter e ag"
  fix out st'
  assume run: "run_turns env (make_request env preSys e toolSet) (indexTools toolSet)
      \<lparr>tcSource = e, tcNudge = nudge\<rparr> 0 (nat maxTurns) ?st = (out, st')"
    "r = run_result (aeId env) maxTurns out" "ag' = \<lparr>agWorld = rsWorld st', agHistory = rsHistory st', agLast = rsLast st'\<rparr>"
  have "requests (rsWorld ?st) = requests (agWorld ag)" using assms(1) by (simp add: initial_state_def counts_def)
  with run_turns_requests [OF assms(1) run(1)] run(3)
  have n: "requests (agWorld ag') \<le> requests (agWorld ag) + nat maxTurns"
    "out = Continue \<longrightarrow> requests (agWorld ag') = requests (agWorld ag) + nat maxTurns"
    by auto
  show ?thesis
    using n run(1,2) by (cases out) (auto simp: run_result_def max_turns_error_def)
qed

text \<open>An agent for the instances: its model calls a lookup twice and then ends; the lookup fails.  The world is
  the log of executed calls and the number of requests.\<close>

type_synonym demo_world = "(string \<times> bool) list \<times> nat"

definition lookup_call :: content_block where
  "lookup_call = (plain_block ''tool_use'')\<lparr>cbId := ''t1'', cbName := ''lookup'', cbInput := ''{}''\<rparr>"

definition demo_create :: "unit message_params \<Rightarrow> (demo_world, message_response) io" where
  "demo_create p = (\<lambda>(log, n).
     (Inr (if n < 2 then \<lparr>mrRole = ''assistant'', mrContent = [lookup_call], mrStopReason = ''tool_use''\<rparr>
           else \<lparr>mrRole = ''assistant'', mrContent = [], mrStopReason = ''end_turn''\<rparr>), (log, Suc n)))"

definition lookup_tool :: "demo_world tool" where
  "lookup_tool = \<lparr>tlName = ''lookup'', tlDescription = [], tlSchema = Some ''{}'', tlStatic = [],
     tlSystem = (\<lambda>e. Inr []),
     tlExec = (\<lambda>ctx i (log, n). (Inl (Err ''404''), (log @ [(toolCallKey Some ''lookup'' i, False)], n)))\<rparr>"

definition demo_agent_env :: "(demo_world, unit) agent_env" where
  "demo_agent_env =
     \<lparr>aeCfg = startup_config, aeId = ''kiku'', aeSystem = [],
      aeProvider = \<lparr>pvCreateMessage = demo_create, pvBuildTools = (\<lambda>defs model. ((), [])),
                    pvToHistoryParam = anthropic_ToHistoryParam, pvNewToolResult = NewToolResult\<rparr>,
      aeCtxErr = (\<lambda>w. None), aeCreateTemp = (\<lambda>a b w. (None, w)), aeRawLength = (\<lambda>j. 0), aeNetMail = Some,
      aeFloat = Some,
      aeConverters = \<lparr>cvUnzip = (\<lambda>b. None), cvCharData = (\<lambda>s. []), cvTika = (\<lambda>n b. Inl (Err []))\<rparr>\<rparr>"

definition demo_agent :: "demo_world agent" where
  "demo_agent = \<lparr>agWorld = ([], 0), agHistory = [], agLast = []\<rparr>"

abbreviation demo_run :: "unit result \<times> demo_world agent" where
  "demo_run \<equiv> handleMessageWith demo_agent_env id [] False empty_email 5 [lookup_tool] demo_agent"

lemma demo_logs: "logs fst demo_agent_env id [lookup_tool]"
  by (auto simp: logs_def demo_agent_env_def demo_create_def lookup_tool_def split: prod.splits)

lemma demo_counts: "counts snd demo_agent_env id [lookup_tool]"
  by (auto simp: counts_def demo_agent_env_def demo_create_def lookup_tool_def split: prod.splits)

lemma every_tool_call_is_answered_witness:
  "\<exists>ms. agHistory (snd demo_run) = UserMessage (aeConverters demo_agent_env) empty_email # ms \<and> length ms \<le> 10"
proof -
  have provider: "pvToHistoryParam (aeProvider demo_agent_env) = anthropic_ToHistoryParam \<or>
      pvToHistoryParam (aeProvider demo_agent_env) = openrouter_ToHistoryParam"
    "pvNewToolResult (aeProvider demo_agent_env) = NewToolResult" by (simp_all add: demo_agent_env_def)
  obtain ms where "agHistory (snd demo_run) = agHistory demo_agent @ UserMessage (aeConverters demo_agent_env) empty_email # ms"
    "length ms \<le> 2 * nat 5"
    using every_tool_call_is_answered [OF provider prod.collapse [symmetric],
        of id "[]" False empty_email 5 "[lookup_tool]" demo_agent] by metis
  moreover have "agHistory demo_agent = []" by (simp add: demo_agent_def)
  ultimately show ?thesis by simp
qed

lemma failed_call_is_not_repeated_witness:
  "no_repeat (fst (agWorld (snd demo_run))) \<and> length (fst (agWorld (snd demo_run))) = 1"
proof
  show "no_repeat (fst (agWorld (snd demo_run)))"
    using failed_call_is_not_repeated [OF demo_logs _ prod.collapse [symmetric], of demo_agent "[]" False empty_email 5]
    by (simp add: demo_agent_def)
  show "length (fst (agWorld (snd demo_run))) = 1" by code_simp
qed

lemma run_ends_within_budget_witness: "snd (agWorld (snd demo_run)) \<le> 5"
  using run_ends_within_budget [OF demo_counts prod.collapse [symmetric], of "[]" False empty_email 5 demo_agent]
  by (simp add: demo_agent_def)

section \<open>Inputs of executed calls\<close>

text \<open>A property of worlds that survives requests, spilled results and executions on an input that parses.\<close>

definition kept_by :: "('s \<Rightarrow> bool) \<Rightarrow> ('s, 't) agent_env \<Rightarrow> ('s \<Rightarrow> 's) \<Rightarrow> 's tool list \<Rightarrow> bool" where
  "kept_by P env fresh_counter tools \<longleftrightarrow>
     (\<forall>t\<in>set tools. \<forall>ctx i w. P w \<longrightarrow> json_valid (trim_space i) \<longrightarrow> P (snd (tlExec t ctx i w))) \<and>
     (\<forall>p w. P w \<longrightarrow> P (snd (pvCreateMessage (aeProvider env) p w))) \<and>
     (\<forall>a b w. P w \<longrightarrow> P (snd (aeCreateTemp env a b w))) \<and>
     (\<forall>w. P w \<longrightarrow> P (fresh_counter w))"

definition parsed_input :: "content_block \<Rightarrow> bool" where
  "parsed_input c \<longleftrightarrow> cbType c = ''tool_use'' \<longrightarrow> json_valid (trim_space (cbInput c))"

lemma clean_input_parsed: "parsed_input (clean_input c)"
proof -
  have "json_valid (trim_space ''{}'')" by code_simp
  then show ?thesis by (simp add: parsed_input_def clean_input_def)
qed

lemma sanitized_parsed: "sanitizeTruncatedToolInputs resp = (resp', tr) \<Longrightarrow> list_all parsed_input (mrContent resp')"
  by (auto simp: sanitizeTruncatedToolInputs_def sanitize_response_def list_all_iff clean_input_parsed)

lemma dispatch_kept:
  assumes "kept_by P env fresh_counter tools" "P (rsWorld st)" "json_valid (trim_space (cbInput c))"
  shows "P (rsWorld (snd (dispatch env (indexTools tools) ctx truncated c st)))"
proof -
  have tool: "P (snd (tlExec t ctx (cbInput c) (rsWorld st)))" if "indexTools tools n = Some t" for n t
    using assms indexTools_name [OF that] by (simp add: kept_by_def)
  have spill: "P (snd (spill_result env n a b w))" if "P w" for n a b w
    using assms(1) that by (simp add: kept_by_def spill_result_def)
  show ?thesis
    using tool spill assms(2) by (auto simp: dispatch_def Let_def split: option.splits prod.splits sum.splits) (metis snd_conv)+
qed

lemma process_blocks_kept:
  assumes "kept_by P env fresh_counter tools"
  shows "P (rsWorld st) \<Longrightarrow> list_all parsed_input cs \<Longrightarrow>
    P (rsWorld (snd (process_blocks env (indexTools tools) ctx truncated cs st)))"
proof (induction cs arbitrary: st)
  case (Cons c cs)
  show ?case
  proof (cases "cbType c = ''tool_use''")
    case True
    obtain ans st1 where d: "dispatch env (indexTools tools) ctx truncated c st = (ans, st1)" by (metis prod.collapse)
    have "P (rsWorld st1)"
      using dispatch_kept [OF assms Cons.prems(1), of c ctx truncated] Cons.prems(2) True d by (simp add: parsed_input_def)
    with Cons.IH [of st1] Cons.prems(2) True d show ?thesis by (auto split: prod.splits)
  next
    case False
    with Cons show ?thesis by simp
  qed
qed simp

lemma run_turn_kept:
  assumes "kept_by P env fresh_counter tools" "P (rsWorld st)"
  shows "P (rsWorld (snd (run_turn env mk (indexTools tools) ctx turn st)))"
proof -
  obtain r w where cm: "pvCreateMessage (aeProvider env) (mk (outgoing env (rsHistory st))) (rsWorld st) = (r, w)"
    by (metis prod.collapse)
  then have w: "P w" using assms unfolding kept_by_def by (metis snd_conv)
  show ?thesis
  proof (cases r)
    case (Inl e)
    with w cm assms(2) show ?thesis by (auto simp: run_turn_def split: option.splits)
  next
    case (Inr resp0)
    obtain resp truncated where s: "sanitizeTruncatedToolInputs resp0 = (resp, truncated)" by (metis prod.collapse)
    have "P (rsWorld (snd (process_blocks env (indexTools tools) ctx truncated (mrContent resp)
        (st\<lparr>rsWorld := w, rsHistory := rsHistory st @ [pvToHistoryParam (aeProvider env) resp]\<rparr>))))"
      by (rule process_blocks_kept [OF assms(1)]) (simp_all add: w sanitized_parsed [OF s])
    with Inr cm s assms(2) show ?thesis
      by (auto simp: run_turn_def Let_def split: option.splits prod.splits)
  qed
qed

lemma run_turns_kept:
  assumes "kept_by P env fresh_counter tools"
  shows "P (rsWorld st) \<Longrightarrow> P (rsWorld (snd (run_turns env mk (indexTools tools) ctx turn left st)))"
proof (induction left arbitrary: turn st)
  case (Suc left)
  have "P (rsWorld (snd (run_turn env mk (indexTools tools) ctx turn st)))"
    by (rule run_turn_kept [OF assms Suc.prems])
  with Suc.IH show ?case by (auto split: prod.splits turn_outcome.splits)
qed simp

lemma handled_kept:
  assumes "kept_by P env fresh_counter toolSet" "P (agWorld ag)"
    "handleMessageWith env fresh_counter preSys nudge e maxTurns toolSet ag = (r, ag')"
  shows "P (agWorld ag')"
proof (rule handled_run [OF assms(3)])
  let ?st = "initial_state env fresh_counter e ag"
  fix out st'
  assume run: "run_turns env (make_request env preSys e toolSet) (indexTools toolSet)
      \<lparr>tcSource = e, tcNudge = nudge\<rparr> 0 (nat maxTurns) ?st = (out, st')"
    "ag' = \<lparr>agWorld = rsWorld st', agHistory = rsHistory st', agLast = rsLast st'\<rparr>"
  have "P (rsWorld ?st)" using assms(1,2) by (simp add: initial_state_def kept_by_def)
  from run_turns_kept [OF assms(1) this, where ctx = "\<lparr>tcSource = e, tcNudge = nudge\<rparr>"
      and mk = "make_request env preSys e toolSet" and turn = 0 and left = "nat maxTurns"] run
  show ?thesis by simp
qed

text \<open>A tool is only executed on an input that is JSON (up to white space around it): whatever the model or a cut
  off stream sends, a property of the world that requests and executions on parsed inputs keep holds after a run.\<close>

theorem tools_run_on_parsed_input:
  assumes "kept_by P env fresh_counter toolSet" "P (agWorld ag)"
    "handleMessageWith env fresh_counter preSys nudge e maxTurns toolSet ag = (r, ag')"
  shows "P (agWorld ag')"
  using assms by (rule handled_kept)

text \<open>A model that sends a cut-off input first and a proper one next, to a tool that logs its inputs.\<close>

definition cut_create :: "unit message_params \<Rightarrow> (string list \<times> nat, message_response) io" where
  "cut_create p = (\<lambda>(log, n).
     (Inr (if n < 2 then \<lparr>mrRole = ''assistant'',
                mrContent = [(plain_block ''tool_use'')\<lparr>cbId := ''t1'', cbName := ''lookup'',
                               cbInput := (if n = 0 then ''{'' else ''{}'')\<rparr>], mrStopReason = ''tool_use''\<rparr>
           else \<lparr>mrRole = ''assistant'', mrContent = [], mrStopReason = ''end_turn''\<rparr>), (log, Suc n)))"

definition logging_tool :: "(string list \<times> nat) tool" where
  "logging_tool = \<lparr>tlName = ''lookup'', tlDescription = [], tlSchema = Some ''{}'', tlStatic = [],
     tlSystem = (\<lambda>e. Inr []), tlExec = (\<lambda>ctx i (log, n). (Inr ''ok'', (log @ [i], n)))\<rparr>"

definition cut_agent_env :: "(string list \<times> nat, unit) agent_env" where
  "cut_agent_env =
     \<lparr>aeCfg = startup_config, aeId = ''kiku'', aeSystem = [],
      aeProvider = \<lparr>pvCreateMessage = cut_create, pvBuildTools = (\<lambda>defs model. ((), [])),
                    pvToHistoryParam = anthropic_ToHistoryParam, pvNewToolResult = NewToolResult\<rparr>,
      aeCtxErr = (\<lambda>w. None), aeCreateTemp = (\<lambda>a b w. (None, w)), aeRawLength = (\<lambda>j. 0), aeNetMail = Some,
      aeFloat = Some,
      aeConverters = \<lparr>cvUnzip = (\<lambda>b. None), cvCharData = (\<lambda>s. []), cvTika = (\<lambda>n b. Inl (Err []))\<rparr>\<rparr>"

abbreviation cut_run :: "unit result \<times> (string list \<times> nat) agent" where
  "cut_run \<equiv> handleMessageWith cut_agent_env id [] False empty_email 5 [logging_tool]
     \<lparr>agWorld = ([], 0), agHistory = [], agLast = []\<rparr>"

lemma tools_run_on_parsed_input_witness:
  "list_all (\<lambda>i. json_valid (trim_space i)) (fst (agWorld (snd cut_run))) \<and> fst (agWorld (snd cut_run)) = [''{}'']"
proof
  let ?P = "\<lambda>w :: string list \<times> nat. list_all (\<lambda>i. json_valid (trim_space i)) (fst w)"
  have "kept_by ?P cut_agent_env id [logging_tool]"
    by (auto simp: kept_by_def cut_agent_env_def cut_create_def logging_tool_def split: prod.splits)
  from tools_run_on_parsed_input [OF this _ prod.collapse [symmetric]]
  show "?P (agWorld (snd cut_run))" by simp
  show "fst (agWorld (snd cut_run)) = [''{}'']" by code_simp
qed

end
