(* ===== verification/Scheduler.thy ===== *)
theory Scheduler
  imports Agent_Loop "HOL-Library.Multiset"
begin

text \<open>
  The part of the poll loop (\<open>cmd/kikubot/main.go\<close>) that runs what is due: the replay of a scheduled task on
  its thread's memory, the watchdog over a delegated task, and the loop over the due entries.  The world of a
  run is the memory directory, the snooze file and the rest \<open>'x\<close> of the program's surroundings; what reads
  or changes the rest is an argument.
\<close>

section \<open>The world of the poller\<close>

record 'x world =
  wdMem :: memory_dir
  wdSnooze :: snooze_disk
  wdRest :: 'x

text \<open>
  \<open>peFetch\<close> is \<open>GetEmails\<close> on the mailbox as it stands, \<open>peSentEmail\<close> is \<open>GetSentEmail\<close>; sending goes
  through \<open>peSendBounce\<close> and \<open>peSendEmail\<close>.  \<open>peFresh\<close> gives a run its own delivery counter.
\<close>

record ('x, 't) poller_env =
  peAgent :: "('x world, 't) agent_env"
  peFresh :: "'x world \<Rightarrow> 'x world"
  peTools :: "'x world tool list"
  peFetch :: "'x world \<Rightarrow> fetch"
  peSentEmail :: "'x world \<Rightarrow> string \<Rightarrow> email option result"
  peNow :: "'x world \<Rightarrow> gotime"
  peSendBounce :: "email \<Rightarrow> string \<Rightarrow> ('x world, unit) io"
  peSendEmail :: "email \<Rightarrow> ('x world, unit) io"
  peMarkSeen :: "string list \<Rightarrow> ('x world, unit) io"
  peDb :: tzdb
  peCron :: cron
  peSdk :: sdk

abbreviation peCfg :: "('x, 't) poller_env \<Rightarrow> config" where
  "peCfg pe \<equiv> aeCfg (peAgent pe)"

text \<open>The operations of the services on the parts of an agent's world.\<close>

definition on_world :: "('w, 'a) io \<Rightarrow> ('w agent, 'a) io" where
  "on_world m ag = (case m (agWorld ag) of (r, w) \<Rightarrow> (r, ag\<lparr>agWorld := w\<rparr>))"

definition on_mem :: "(memory_dir \<Rightarrow> 'r \<times> memory_dir) \<Rightarrow> 'x world \<Rightarrow> 'r \<times> 'x world" where
  "on_mem m w = (case m (wdMem w) of (r, d) \<Rightarrow> (r, w\<lparr>wdMem := d\<rparr>))"

definition on_snooze :: "(snooze_disk \<Rightarrow> 'r \<times> snooze_disk) \<Rightarrow> 'x world \<Rightarrow> 'r \<times> 'x world" where
  "on_snooze m w = (case m (wdSnooze w) of (r, d) \<Rightarrow> (r, w\<lparr>wdSnooze := d\<rparr>))"

definition root_of_message :: "('x, 't) poller_env \<Rightarrow> 'x world \<Rightarrow> string \<Rightarrow> string result" where
  "root_of_message pe w = GetThreadRootId (peFetch pe w)"

definition ClearHistory :: "'w agent \<Rightarrow> 'w agent" where
  "ClearHistory ag = ag\<lparr>agHistory := [], agLast := []\<rparr>"

definition SetHistory :: "message list \<Rightarrow> 'w agent \<Rightarrow> 'w agent" where
  "SetHistory h ag = ag\<lparr>agHistory := h\<rparr>"

text \<open>The memory of a thread, with \<open>None\<close> for a thread that has none; other errors stop the caller.\<close>

definition thread_memory :: "memory_dir \<Rightarrow> string \<Rightarrow> memory option result" where
  "thread_memory d root =
     (case GetMemory d root of
        Inr m \<Rightarrow> Inr (Some m)
      | Inl e \<Rightarrow> if err_is e ErrMemoryNotFound then Inr None else Inl e)"

definition save_history ::
  "('x, 't) poller_env \<Rightarrow> message list \<Rightarrow> string \<Rightarrow> ('x world, unit) io" where
  "save_history pe h messageId w = on_mem (SaveMemoryHistory (peSdk pe) (peFetch pe w) h messageId) w"

text \<open>Saving what an agent remembers after a run; the error is only logged.\<close>

definition save_run :: "('x, 't) poller_env \<Rightarrow> string \<Rightarrow> 'x world agent \<Rightarrow> 'x world agent" where
  "save_run pe messageId ag = snd (on_world (save_history pe (StripAttachmentBlobs (agHistory ag)) messageId) ag)"

section \<open>Notices\<close>

abbreviation warning_sign :: string where
  "warning_sign \<equiv> [CHR 0xE2, CHR 0x9A, CHR 0xA0, CHR 0xEF, CHR 0xB8, CHR 0x8F]"

definition maxTurnsNoticeUnneeded :: "memory option \<Rightarrow> string \<Rightarrow> gotime \<Rightarrow> snooze_disk \<Rightarrow> string" where
  "maxTurnsNoticeUnneeded mem threadRoot started d =
     (let status = StatusSince started mem
      in if status = status_complete then ''the task is already marked complete''
         else if status = status_waiting
         then (case FindWatchdogByThread threadRoot d of
                 Inr (Some wd) \<Rightarrow> ''the task is waiting with a watchdog armed''
               | _ \<Rightarrow> [])
         else [])"

definition scheduled_notice :: "config \<Rightarrow> snooze \<Rightarrow> email \<Rightarrow> string" where
  "scheduled_notice cfg s e =
     warning_sign @ '' Agent '' @ AgentName cfg @ '' exhausted its turn budget ('' @ show_int (MaxTurns cfg) @
     '' turns) during the scheduled run of '' @
     go_quote (if snDescription s = [] then eSubject e else snDescription s) @
     '' and could not complete it. Partial progress has been preserved in the thread history, '' @
     ''but no final answer was produced.'' @ [nl] @
     (if snOnce s then [] else ''The task is still scheduled and will run again at its next scheduled time.'' @ [nl])"

definition notifySnoozeMaxTurns ::
  "('x, 't) poller_env \<Rightarrow> snooze \<Rightarrow> string \<Rightarrow> gotime \<Rightarrow> 'x world \<Rightarrow> 'x world" where
  "notifySnoozeMaxTurns pe s threadId started w =
     (if (case GetMemory (wdMem w) threadId of
            Inr m \<Rightarrow> maxTurnsNoticeUnneeded (Some m) threadId started (wdSnooze w) \<noteq> []
          | Inl e \<Rightarrow> False) then w
      else case peFetch pe w [snMessageId s] of
             Inl e \<Rightarrow> w
           | Inr [] \<Rightarrow> w
           | Inr (e # es) \<Rightarrow> snd (peSendBounce pe e (scheduled_notice (peCfg pe) s e) w))"

section \<open>A scheduled task\<close>

definition replay ::
  "('x, 't) poller_env \<Rightarrow> snooze \<Rightarrow> 'x world agent \<Rightarrow> unit result \<times> 'x world agent" where
  "replay pe s ag =
     HandleSnooze (peAgent pe) (peFresh pe) (peDb pe) (peFetch pe (agWorld ag)) (peNow pe (agWorld ag)) s
       (MaxTurns (peCfg pe)) (peTools pe) ag"

definition runSnooze ::
  "('x, 't) poller_env \<Rightarrow> snooze \<Rightarrow> 'x world agent \<Rightarrow> unit result \<times> 'x world agent" where
  "runSnooze pe s ag =
     (case (if snThreadId s \<noteq> [] then Inr (snThreadId s)
            else case root_of_message pe (agWorld ag) (snMessageId s) of
                   Inl e \<Rightarrow> Inl (Wrap (''resolving thread root for '' @ snMessageId s @ '': '') e [])
                 | Inr root \<Rightarrow> Inr root) of
        Inl e \<Rightarrow> (Inl e, ag)
      | Inr threadId \<Rightarrow>
          (case thread_memory (wdMem (agWorld ag)) threadId of
             Inl e \<Rightarrow> (Inl (Wrap (''reading memory for '' @ threadId @ '': '') e []), ag)
           | Inr mem \<Rightarrow>
               let ag1 = (case mem of Some m \<Rightarrow> SetHistory (meHistory m) (ClearHistory ag) | None \<Rightarrow> ClearHistory ag);
                   started = peNow pe (agWorld ag1)
               in case replay pe s ag1 of
                    (r, ag2) \<Rightarrow>
                      let ag3 = save_run pe (snMessageId s) ag2
                      in (r, if (case r of Inl e \<Rightarrow> err_is e ErrMaxTurns | Inr u \<Rightarrow> False)
                             then ag3\<lparr>agWorld := notifySnoozeMaxTurns pe s threadId started (agWorld ag3)\<rparr>
                             else ag3)))"

section \<open>The watchdog\<close>

definition waitingWatchdogMaxFires :: int where "waitingWatchdogMaxFires = 2"

text \<open>The code leaves the entry with its new deadline in the receiver; both writes only log their errors.\<close>

definition rescheduleWatchdog :: "('x, 't) poller_env \<Rightarrow> snooze \<Rightarrow> 'x world \<Rightarrow> 'x world" where
  "rescheduleWatchdog pe s w =
     snd (on_snooze (SaveSnooze (root_of_message pe w)
            (s\<lparr>snUnSnooze := tm_add (wrap64 (minutes (WaitingWatchdogMinutes (peCfg pe)))) (peNow pe w)\<rparr>)) w)"

definition delete_entry :: "snooze \<Rightarrow> 'x world \<Rightarrow> 'x world" where
  "delete_entry s w = snd (on_snooze (DeleteSnooze s) w)"

definition give_up_notice :: "config \<Rightarrow> int \<Rightarrow> string" where
  "give_up_notice cfg fires =
     warning_sign @ '' Agent '' @ AgentName cfg @
     '' waited on a delegated sub-task for this thread and received no reply after '' @ show_int fires @
     '' follow-ups. Marking the task as failed so it does not hang indefinitely. '' @
     ''Please review and resend if the work is still needed.'' @ [nl]"

definition give_up :: "('x, 't) poller_env \<Rightarrow> snooze \<Rightarrow> 'x world \<Rightarrow> 'x world" where
  "give_up pe s w =
     (let w1 = (case peFetch pe w [snMessageId s] of
                  Inr (e # es) \<Rightarrow> snd (peSendBounce pe e (give_up_notice (peCfg pe) (snFires s)) w)
                | _ \<Rightarrow> w);
          w2 = snd (on_mem (SetMemoryStatus (peSdk pe) (peFetch pe w1) (peNow pe w1) status_error (snMessageId s)) w1)
      in delete_entry s w2)"

definition nudge_note :: string where
  "nudge_note =
     ''You previously set this task to '' @ [squote] @ ''waiting'' @ [squote] @
     '' and are still waiting on a coworker who has not replied. Do NOT simply wait again. Either (a) send a '' @
     ''brief follow-up to the coworker you delegated to, or (b) if you already have enough to proceed, reply '' @
     ''to the original requester now with the best result you have (noting any missing piece) and mark the '' @
     ''task complete. Do not re-delegate the whole task from scratch.''"

definition nudge_entry :: "snooze \<Rightarrow> snooze" where
  "nudge_entry s = empty_snooze\<lparr>snMessageId := snMessageId s, snWatchdog := True, snDescription := nudge_note\<rparr>"

text \<open>The entry after \<open>Fires++\<close>; the counter is 64 bits wide.\<close>

definition counted :: "snooze \<Rightarrow> snooze" where
  "counted s = s\<lparr>snFires := wrap64 (snFires s + 1)\<rparr>"

definition still_waiting :: "memory_dir \<Rightarrow> string \<Rightarrow> bool" where
  "still_waiting d threadId \<longleftrightarrow>
     (case GetMemory d threadId of Inr m \<Rightarrow> meStatus m = status_waiting | Inl e \<Rightarrow> False)"

definition nudge :: "('x, 't) poller_env \<Rightarrow> snooze \<Rightarrow> memory \<Rightarrow> 'x world agent \<Rightarrow> 'x world agent" where
  "nudge pe s m ag =
     (let ag1 = SetHistory (meHistory m)
                  (ClearHistory (ag\<lparr>agWorld := rescheduleWatchdog pe (counted s) (agWorld ag)\<rparr>));
          ag2 = save_run pe (snMessageId s) (snd (replay pe (nudge_entry s) ag1))
      in if still_waiting (wdMem (agWorld ag2)) (snThreadId s) then ag2
         else ag2\<lparr>agWorld := delete_entry (counted s) (agWorld ag2)\<rparr>)"

definition runWatchdog :: "('x, 't) poller_env \<Rightarrow> snooze \<Rightarrow> 'x world agent \<Rightarrow> 'x world agent" where
  "runWatchdog pe s ag =
     (case thread_memory (wdMem (agWorld ag)) (snThreadId s) of
        Inl e \<Rightarrow> ag\<lparr>agWorld := rescheduleWatchdog pe s (agWorld ag)\<rparr>
      | Inr None \<Rightarrow> ag\<lparr>agWorld := delete_entry s (agWorld ag)\<rparr>
      | Inr (Some m) \<Rightarrow>
          if meStatus m \<noteq> status_waiting then ag\<lparr>agWorld := delete_entry s (agWorld ag)\<rparr>
          else if waitingWatchdogMaxFires \<le> snFires s then ag\<lparr>agWorld := give_up pe s (agWorld ag)\<rparr>
          else nudge pe s m ag)"

section \<open>The loop over the due entries\<close>

definition advance :: "('x, 't) poller_env \<Rightarrow> snooze \<Rightarrow> 'x world \<Rightarrow> 'x world" where
  "advance pe s w =
     snd (on_snooze (AdvanceOrDeleteSnooze (peCron pe) (peDb pe) (root_of_message pe w) (peNow pe w) s) w)"

text \<open>
  One pass: \<open>Inl\<close> when the loop is left (the context ended, nothing is due, the file cannot be read, or a run
  failed and is retried at the next poll), \<open>Inr\<close> when it goes on.
\<close>

definition snooze_step :: "('x, 't) poller_env \<Rightarrow> 'x world agent \<Rightarrow> 'x world agent + 'x world agent" where
  "snooze_step pe ag =
     (if aeCtxErr (peAgent pe) (agWorld ag) \<noteq> None then Inl ag
      else case NextSnoozed (peNow pe (agWorld ag)) (wdSnooze (agWorld ag)) of
             Inl e \<Rightarrow> Inl ag
           | Inr None \<Rightarrow> Inl ag
           | Inr (Some s) \<Rightarrow>
               if snWatchdog s then Inr (runWatchdog pe s ag)
               else case runSnooze pe s ag of
                      (r, ag1) \<Rightarrow>
                        if (case r of Inl e \<Rightarrow> \<not> err_is e ErrMaxTurns | Inr u \<Rightarrow> False) then Inl ag1
                        else Inr (ag1\<lparr>agWorld := advance pe s (agWorld ag1)\<rparr>))"

text \<open>The loop, with a bound on its passes: \<open>None\<close> when it has not ended within the bound.\<close>

fun snooze_loop :: "('x, 't) poller_env \<Rightarrow> nat \<Rightarrow> 'x world agent \<Rightarrow> 'x world agent option" where
  "snooze_loop pe 0 ag = None"
| "snooze_loop pe (Suc n) ag =
     (case snooze_step pe ag of Inl ag1 \<Rightarrow> Some ag1 | Inr ag1 \<Rightarrow> snooze_loop pe n ag1)"

section \<open>The loop ends\<close>

text \<open>
  The due entries of a file.  A file is settled when every write to it succeeds and its entries can be
  rescheduled: \<open>good\<close> stands for that below.
\<close>

definition due :: "gotime \<Rightarrow> snooze_disk \<Rightarrow> snooze list" where
  "due now d = (case ReadSnoozeFile d of
                  Inr xs \<Rightarrow> filter (\<lambda>e. \<not> tm_after (snUnSnooze e) now) xs | Inl e \<Rightarrow> [])"

definition named_entry :: "snooze \<Rightarrow> bool" where
  "named_entry e \<longleftrightarrow> snMessageId e \<noteq> [] \<and> snThreadId e \<noteq> []"

definition settled :: "(snooze \<Rightarrow> bool) \<Rightarrow> snooze_disk \<Rightarrow> bool" where
  "settled good d \<longleftrightarrow> skFaults d = [] \<and> (case ReadSnoozeFile d of Inr xs \<Rightarrow> list_all good xs | Inl e \<Rightarrow> False)"

text \<open>A change of the file that makes nothing due, and one that also removes the entries of a message.\<close>

definition no_more_due :: "(snooze \<Rightarrow> bool) \<Rightarrow> gotime \<Rightarrow> snooze_disk \<Rightarrow> snooze_disk \<Rightarrow> bool" where
  "no_more_due good now d d' \<longleftrightarrow> (settled good d \<longrightarrow> settled good d' \<and> mset (due now d') \<subseteq># mset (due now d))"

definition clears :: "(snooze \<Rightarrow> bool) \<Rightarrow> gotime \<Rightarrow> snooze \<Rightarrow> snooze_disk \<Rightarrow> snooze_disk \<Rightarrow> bool" where
  "clears good now s d d' \<longleftrightarrow>
     (settled good d \<longrightarrow> settled good d' \<and> mset (due now d') \<subseteq># {#e \<in># mset (due now d). \<not> same_message s e#})"

lemma no_more_due_refl [simp]: "no_more_due good now d d"
  by (simp add: no_more_due_def)

lemma no_more_due_trans: "no_more_due good now d d1 \<Longrightarrow> no_more_due good now d1 d2 \<Longrightarrow> no_more_due good now d d2"
  unfolding no_more_due_def by (meson subset_mset.order_trans)

lemma clears_no_more: "clears good now s d d' \<Longrightarrow> no_more_due good now d d'"
  unfolding clears_def no_more_due_def by (meson multiset_filter_subset subset_mset.order_trans)

lemma clears_after: "no_more_due good now d d1 \<Longrightarrow> clears good now s d1 d2 \<Longrightarrow> clears good now s d d2"
  unfolding no_more_due_def clears_def by (meson multiset_filter_mono subset_mset.order_trans)

lemma clears_before: "clears good now s d d1 \<Longrightarrow> no_more_due good now d1 d2 \<Longrightarrow> clears good now s d d2"
  unfolding no_more_due_def clears_def by (meson subset_mset.order_trans)

lemma clears_smaller:
  assumes "clears good now s d d'" "settled good d" "s \<in> set (due now d)" "snMessageId s \<noteq> []"
  shows "length (due now d') < length (due now d)"
proof -
  have "same_message s s" using assms(4) by (simp add: same_message_def)
  then have "{#e \<in># mset (due now d). \<not> same_message s e#} \<subset># mset (due now d)"
    using assms(3) by (metis multiset_filter_subset mem_Collect_eq set_mset_filter set_mset_mset subset_mset.nless_le)
  then have "mset (due now d') \<subset># mset (due now d)"
    using assms(1,2) by (auto simp: clears_def intro: subset_mset.le_less_trans)
  then show ?thesis by (metis mset_subset_size size_mset)
qed

lemma without_message: "\<exists>Q. without s xs = filter Q (filter (\<lambda>e. \<not> same_message s e) xs)"
proof (cases "length (filter (\<lambda>e. \<not> same_message s e) xs) = length xs")
  case True
  then have by_msg: "filter (\<lambda>e. \<not> same_message s e) xs = xs"
    by (metis filter_id_conv length_filter_less nat_neq_iff)
  then have "\<not> same_message s e" if "e \<in> set xs" for e using that by (auto simp: filter_id_conv)
  then have "filter (\<lambda>e. \<not> same_thread s e) xs = filter (\<lambda>e. \<not> same_thread s e) (filter (\<lambda>e. \<not> same_message s e) xs)"
    using by_msg by simp
  moreover have "xs = filter (\<lambda>e. True) (filter (\<lambda>e. \<not> same_message s e) xs)" using by_msg by simp
  moreover have "without s xs = (if snThreadId s \<noteq> [] then filter (\<lambda>e. \<not> same_thread s e) xs else xs)"
    using by_msg by (simp add: without_def)
  ultimately show ?thesis by metis
next
  case False
  then have "without s xs = filter (\<lambda>e. True) (filter (\<lambda>e. \<not> same_message s e) xs)" by (simp add: without_def Let_def)
  then show ?thesis by blast
qed

lemma due_without:
  "mset (filter P (without s xs)) \<subseteq># {#e \<in># mset (filter P xs). \<not> same_message s e#}"
proof -
  obtain Q where "without s xs = filter Q (filter (\<lambda>e. \<not> same_message s e) xs)" using without_message by blast
  then have "mset (filter P (without s xs)) = filter_mset Q (filter_mset (\<lambda>e. \<not> same_message s e) (filter_mset P (mset xs)))"
    by (simp add: filter_filter_mset conj_ac)
  then show ?thesis by simp
qed

lemma good_without: "list_all good xs \<Longrightarrow> list_all good (without s xs)"
  using without_sub [of s xs] by (auto simp: list_all_iff)

lemma save_settled: "skFaults d = [] \<Longrightarrow> SaveSnoozeFile xs d = (Inr (), d\<lparr>skFile := Stored xs\<rparr>)"
  by (simp add: SaveSnoozeFile_def)

lemma DeleteSnooze_settled:
  assumes "skFaults d = []" "ReadSnoozeFile d = Inr xs"
  shows "\<exists>d'. DeleteSnooze s d = (Inr (), d') \<and> skFaults d' = [] \<and> ReadSnoozeFile d' = Inr (without s xs)"
  using assms without_same_length [of s xs]
  by (cases "length (without s xs) = length xs") (simp_all add: DeleteSnooze_def save_settled)

lemma DeleteSnooze_clears: "clears good now s d (snd (DeleteSnooze s d))"
proof (cases "ReadSnoozeFile d")
  case (Inr xs)
  show ?thesis
  proof (cases "skFaults d = []")
    case True
    from DeleteSnooze_settled [OF True Inr, of s] obtain d' where
      d': "DeleteSnooze s d = (Inr (), d')" "skFaults d' = []" "ReadSnoozeFile d' = Inr (without s xs)" by blast
    then show ?thesis
      using Inr due_without good_without by (simp add: clears_def settled_def due_def)
  qed (simp add: clears_def settled_def)
qed (simp add: clears_def settled_def)

lemma SaveSnooze_settled:
  assumes "skFaults d = []" "ReadSnoozeFile d = Inr xs" "snThreadId s \<noteq> []"
  shows "\<exists>d'. SaveSnooze rootOf s d = (Inr s, d') \<and> skFaults d' = [] \<and> ReadSnoozeFile d' = Inr (without s xs @ [s])"
proof -
  from DeleteSnooze_settled [OF assms(1,2), of s] obtain d' where
    d': "DeleteSnooze s d = (Inr (), d')" "skFaults d' = []" "ReadSnoozeFile d' = Inr (without s xs)" by blast
  with assms(3) save_settled [OF d'(2)] show ?thesis
    by (simp add: SaveSnooze_def resolve_thread_def io_bind_def)
qed

lemma SaveSnooze_clears:
  assumes "tm_after t now" "good (s\<lparr>snUnSnooze := t\<rparr>)" "snThreadId s \<noteq> []"
  shows "clears good now s d (snd (SaveSnooze rootOf (s\<lparr>snUnSnooze := t\<rparr>) d))"
proof (cases "skFaults d = [] \<and> (\<exists>xs. ReadSnoozeFile d = Inr xs)")
  case True
  then obtain xs where xs: "skFaults d = []" "ReadSnoozeFile d = Inr xs" by blast
  let ?s = "s\<lparr>snUnSnooze := t\<rparr>"
  have "snThreadId ?s \<noteq> []" using assms(3) by simp
  from SaveSnooze_settled [OF xs this, of rootOf] obtain d' where
    d': "SaveSnooze rootOf ?s d = (Inr ?s, d')" "skFaults d' = []" "ReadSnoozeFile d' = Inr (without ?s xs @ [?s])" by blast
  have same: "same_message ?s = same_message s" "same_thread ?s = same_thread s"
    by (simp_all add: fun_eq_iff same_message_def same_thread_def)
  have "without ?s xs = without s xs" unfolding without_def same by simp
  with d' xs assms due_without good_without show ?thesis
    by (simp add: clears_def settled_def due_def)
next
  case False
  then show ?thesis by (auto simp: clears_def settled_def split: sum.splits)
qed

lemma NextSnoozed_due:
  assumes "NextSnoozed now d = Inr (Some s)"
  shows "s \<in> set (due now d)"
proof -
  obtain xs where "ReadSnoozeFile d = Inr xs" "oldest_due now None xs = Some s"
    using assms by (auto simp: NextSnoozed_def and_then_Inr)
  then show ?thesis using oldest_due_cases [where now = now and best = None and xs = xs] by (simp add: due_def)
qed

lemma NextSnoozed_none:
  assumes "NextSnoozed now d = Inr None"
  shows "due now d = []"
proof -
  obtain xs where "ReadSnoozeFile d = Inr xs" "oldest_due now None xs = None"
    using assms by (auto simp: NextSnoozed_def and_then_Inr)
  then show ?thesis using oldest_due_cases [where now = now and best = None and xs = xs] by (simp add: due_def filter_empty_conv)
qed

lemma due_good: "settled good d \<Longrightarrow> s \<in> set (due now d) \<Longrightarrow> good s"
  by (auto simp: settled_def due_def list_all_iff split: sum.splits)

text \<open>
  The clock moves on while the loop runs; \<open>later\<close> compares its readings in two worlds.  An entry can be
  rescheduled between \<open>t0\<close> and \<open>t1\<close> when it names its message and it is deleted after its run, belongs to a
  watchdog, or its crontab parses and from any time between \<open>t0\<close> and \<open>t1\<close> ticks next after \<open>t1\<close>.
\<close>

definition later :: "('x, 't) poller_env \<Rightarrow> 'x world \<Rightarrow> 'x world \<Rightarrow> bool" where
  "later pe w w' \<longleftrightarrow> tmNanos (peNow pe w) \<le> tmNanos (peNow pe w')"

definition within :: "gotime \<Rightarrow> gotime \<Rightarrow> gotime \<Rightarrow> bool" where
  "within t0 t1 t \<longleftrightarrow> \<not> tm_after t0 t \<and> \<not> tm_after t t1"

definition schedulable :: "gotime \<Rightarrow> gotime \<Rightarrow> cron \<Rightarrow> snooze \<Rightarrow> bool" where
  "schedulable t0 t1 cron e \<longleftrightarrow> named_entry e \<and>
     (snWatchdog e \<or> snOnce e \<or>
      (\<exists>next. cron (snCrontab e) = Inr next \<and> (\<forall>t. within t0 t1 t \<longrightarrow> tm_after (next t) t1)))"

abbreviation good_file :: "gotime \<Rightarrow> gotime \<Rightarrow> ('x, 't) poller_env \<Rightarrow> snooze \<Rightarrow> bool" where
  "good_file t0 t1 pe \<equiv> schedulable t0 t1 (peCron pe)"

text \<open>
  The surroundings of a loop between \<open>t0\<close> and \<open>t1\<close>: the clock never goes back, a watchdog set in that time
  fires after it, a run of the model makes nothing due (what it schedules is for later and can be rescheduled),
  and a notice leaves the file alone.
\<close>

definition steady :: "gotime \<Rightarrow> gotime \<Rightarrow> ('x, 't) poller_env \<Rightarrow> bool" where
  "steady t0 t1 pe \<longleftrightarrow>
     (\<forall>w d. later pe w (w\<lparr>wdMem := d\<rparr>)) \<and> (\<forall>w d. later pe w (w\<lparr>wdSnooze := d\<rparr>)) \<and>
     (\<forall>s ag. later pe (agWorld ag) (agWorld (snd (replay pe s ag)))) \<and>
     (\<forall>e notice w. later pe w (snd (peSendBounce pe e notice w))) \<and>
     (\<forall>t. within t0 t1 t \<longrightarrow> tm_after (tm_add (wrap64 (minutes (WaitingWatchdogMinutes (peCfg pe)))) t) t1) \<and>
     (\<forall>s ag. no_more_due (good_file t0 t1 pe) t1 (wdSnooze (agWorld ag)) (wdSnooze (agWorld (snd (replay pe s ag))))) \<and>
     (\<forall>e notice w. wdSnooze (snd (peSendBounce pe e notice w)) = wdSnooze w)"

lemma later_refl [simp]: "later pe w w"
  by (simp add: later_def)

lemma later_trans: "later pe w w1 \<Longrightarrow> later pe w1 w2 \<Longrightarrow> later pe w w2"
  by (simp add: later_def)

lemma schedulable_times [simp]:
  "schedulable t0 t1 cron (s\<lparr>snUnSnooze := t\<rparr>) = schedulable t0 t1 cron s"
  "schedulable t0 t1 cron (counted s) = schedulable t0 t1 cron s"
  by (simp_all add: schedulable_def named_entry_def counted_def)

lemma schedulable_named: "schedulable t0 t1 cron s \<Longrightarrow> snMessageId s \<noteq> [] \<and> snThreadId s \<noteq> []"
  by (simp add: schedulable_def named_entry_def)

lemma save_run_snooze [simp]: "wdSnooze (agWorld (save_run pe m ag)) = wdSnooze (agWorld ag)"
  by (simp add: save_run_def save_history_def on_world_def on_mem_def split: prod.split)

lemma history_world [simp]: "agWorld (ClearHistory ag) = agWorld ag" "agWorld (SetHistory h ag) = agWorld ag"
  by (simp_all add: ClearHistory_def SetHistory_def)

lemma on_mem_snooze [simp]: "wdSnooze (snd (on_mem m w)) = wdSnooze w"
  by (simp add: on_mem_def split: prod.split)

lemma on_snooze_snooze [simp]: "wdSnooze (snd (on_snooze m w)) = snd (m (wdSnooze w))"
  by (simp add: on_snooze_def split: prod.split)

lemma save_run_later: "steady t0 t1 pe \<Longrightarrow> later pe (agWorld ag) (agWorld (save_run pe m ag))"
  by (simp add: steady_def save_run_def save_history_def on_world_def on_mem_def split: prod.split)

lemma advance_later: "steady t0 t1 pe \<Longrightarrow> later pe w (advance pe s w)"
  by (simp add: steady_def advance_def on_snooze_def split: prod.split)

lemma replay_no_more:
  "steady t0 t1 pe \<Longrightarrow>
   no_more_due (good_file t0 t1 pe) t1 (wdSnooze (agWorld ag)) (wdSnooze (agWorld (snd (replay pe s ag))))"
  by (simp only: steady_def)

lemma reschedule_clears:
  assumes "steady t0 t1 pe" "good_file t0 t1 pe s" "within t0 t1 (peNow pe w)"
  shows "clears (good_file t0 t1 pe) t1 s (wdSnooze w) (wdSnooze (rescheduleWatchdog pe s w))"
  using SaveSnooze_clears [of _ t1 "good_file t0 t1 pe" s] schedulable_named [OF assms(2)] assms
  by (simp add: rescheduleWatchdog_def steady_def)

lemma delete_clears: "clears good now s (wdSnooze w) (wdSnooze (delete_entry s w))"
  by (simp add: delete_entry_def DeleteSnooze_clears)

lemma clears_counted: "clears good now (counted s) = clears good now s"
  by (simp add: clears_def fun_eq_iff counted_def same_message_def)

lemma give_up_clears:
  assumes "steady t0 t1 pe"
  shows "clears good now s (wdSnooze w) (wdSnooze (give_up pe s w))"
proof -
  have "wdSnooze (snd (peSendBounce pe e notice w)) = wdSnooze w" for e notice
    using assms by (simp add: steady_def)
  then have "wdSnooze (case peFetch pe w [snMessageId s] of
      Inr (e # es) \<Rightarrow> snd (peSendBounce pe e (give_up_notice (peCfg pe) (snFires s)) w) | _ \<Rightarrow> w) = wdSnooze w"
    by (simp split: sum.split list.split)
  then show ?thesis
    unfolding give_up_def Let_def by (metis delete_clears on_mem_snooze)
qed

lemma nudge_clears:
  assumes "steady t0 t1 pe" "good_file t0 t1 pe s" "within t0 t1 (peNow pe (agWorld ag))"
  shows "clears (good_file t0 t1 pe) t1 s (wdSnooze (agWorld ag)) (wdSnooze (agWorld (nudge pe s m ag)))"
proof -
  let ?good = "good_file t0 t1 pe"
  let ?w1 = "rescheduleWatchdog pe (counted s) (agWorld ag)"
  let ?ag1 = "SetHistory (meHistory m) (ClearHistory (ag\<lparr>agWorld := ?w1\<rparr>))"
  let ?ag2 = "save_run pe (snMessageId s) (snd (replay pe (nudge_entry s) ?ag1))"
  have "clears ?good t1 s (wdSnooze (agWorld ag)) (wdSnooze ?w1)"
    using reschedule_clears [OF assms(1), of "counted s"] assms(2,3) by (simp add: clears_counted)
  moreover have "no_more_due ?good t1 (wdSnooze ?w1) (wdSnooze (agWorld ?ag2))"
    using replay_no_more [OF assms(1), of ?ag1 "nudge_entry s"] by simp
  ultimately have c: "clears ?good t1 s (wdSnooze (agWorld ag)) (wdSnooze (agWorld ?ag2))" by (rule clears_before)
  have "no_more_due ?good t1 (wdSnooze (agWorld ?ag2)) (wdSnooze (delete_entry (counted s) (agWorld ?ag2)))"
    by (rule clears_no_more [OF delete_clears])
  from clears_before [OF c this] c show ?thesis by (simp add: nudge_def Let_def)
qed

lemma runWatchdog_clears:
  assumes "steady t0 t1 pe" "good_file t0 t1 pe s" "within t0 t1 (peNow pe (agWorld ag))"
  shows "clears (good_file t0 t1 pe) t1 s (wdSnooze (agWorld ag)) (wdSnooze (agWorld (runWatchdog pe s ag)))"
  using reschedule_clears [OF assms] delete_clears [of "good_file t0 t1 pe" t1 s "agWorld ag"]
    give_up_clears [OF assms(1)] nudge_clears [OF assms]
  by (simp add: runWatchdog_def split: sum.split option.split)

text \<open>The run of a scheduled task makes nothing due and takes its time.\<close>

definition calm :: "gotime \<Rightarrow> gotime \<Rightarrow> ('x, 't) poller_env \<Rightarrow> 'x world \<Rightarrow> 'x world \<Rightarrow> bool" where
  "calm t0 t1 pe w w' \<longleftrightarrow> later pe w w' \<and> no_more_due (good_file t0 t1 pe) t1 (wdSnooze w) (wdSnooze w')"

lemma calm_refl [simp]: "calm t0 t1 pe w w"
  by (simp add: calm_def)

lemma calm_trans: "calm t0 t1 pe w w1 \<Longrightarrow> calm t0 t1 pe w1 w2 \<Longrightarrow> calm t0 t1 pe w w2"
  unfolding calm_def by (meson later_trans no_more_due_trans)

lemma runSnooze_calm:
  assumes "steady t0 t1 pe"
  shows "calm t0 t1 pe (agWorld ag) (agWorld (snd (runSnooze pe s ag)))"
proof -
  have bounce: "calm t0 t1 pe w (notifySnoozeMaxTurns pe s root t w)" for root t w
    using assms by (simp add: notifySnoozeMaxTurns_def calm_def steady_def split: sum.split list.split)
  have run: "calm t0 t1 pe (agWorld ag) (agWorld (save_run pe i ag2))"
    if "agWorld ag1 = agWorld ag" "replay pe s ag1 = (r, ag2)" for ag1 ag2 r i
  proof (rule calm_trans)
    show "calm t0 t1 pe (agWorld ag) (agWorld ag2)"
      using assms that unfolding steady_def calm_def by (metis snd_conv)
    show "calm t0 t1 pe (agWorld ag2) (agWorld (save_run pe i ag2))"
      by (simp add: calm_def save_run_later [OF assms])
  qed
  have body: "calm t0 t1 pe (agWorld ag) (agWorld (save_run pe i ag2)) \<and>
      calm t0 t1 pe (agWorld ag) (notifySnoozeMaxTurns pe s root t (agWorld (save_run pe i ag2)))"
    if "agWorld ag1 = agWorld ag" "replay pe s ag1 = (r, ag2)" for ag1 ag2 r root t i
    using run [OF that] calm_trans [OF run [OF that] bounce] by blast
  show ?thesis
    unfolding runSnooze_def Let_def
    by (auto simp: body [OF history_world(1)] body [OF trans [OF history_world(2) history_world(1)]]
        split: sum.split option.split prod.split)
qed

lemma advance_clears:
  assumes "good_file t0 t1 pe s" "\<not> snWatchdog s" "within t0 t1 (peNow pe w)"
  shows "clears (good_file t0 t1 pe) t1 s (wdSnooze w) (wdSnooze (advance pe s w))"
proof (cases "snOnce s")
  case True
  then show ?thesis by (simp add: advance_def AdvanceOrDeleteSnooze_def DeleteSnooze_clears)
next
  case False
  then obtain nxt where n: "peCron pe (snCrontab s) = Inr nxt" "\<forall>t. within t0 t1 t \<longrightarrow> tm_after (nxt t) t1"
    using assms(1,2) unfolding schedulable_def by blast
  let ?t = "nxt (local_now (peDb pe) (snTimezone s) (peNow pe w))"
  have "tmNanos (local_now (peDb pe) (snTimezone s) (peNow pe w)) = tmNanos (peNow pe w)"
    by (simp add: local_now_def tm_in_def split: sum.split)
  then have "tm_after ?t t1" using n(2) assms(3) by (simp add: within_def tm_after_def)
  moreover have "snd (io_bind m (\<lambda>_. io_return ()) d) = snd (m d)" for m :: "(snooze_disk, snooze) io" and d
    by (simp add: io_bind_def split: prod.split sum.split)
  ultimately show ?thesis
    using False n(1) SaveSnooze_clears [of ?t t1 "good_file t0 t1 pe" s] assms(1) schedulable_named [OF assms(1)]
    by (simp add: advance_def AdvanceOrDeleteSnooze_def)
qed

lemma snooze_step_smaller:
  assumes "steady t0 t1 pe" "settled (good_file t0 t1 pe) (wdSnooze (agWorld ag))" "snooze_step pe ag = Inr ag1"
    "within t0 t1 (peNow pe (agWorld ag))" "within t0 t1 (peNow pe (agWorld ag1))"
  shows "settled (good_file t0 t1 pe) (wdSnooze (agWorld ag1)) \<and>
    length (due t1 (wdSnooze (agWorld ag1))) < length (due t1 (wdSnooze (agWorld ag)))"
proof -
  let ?good = "good_file t0 t1 pe" and ?d = "wdSnooze (agWorld ag)"
  obtain s where s: "NextSnoozed (peNow pe (agWorld ag)) ?d = Inr (Some s)"
    using assms(3) by (auto simp: snooze_step_def split: if_splits sum.splits option.splits)
  have d: "s \<in> set (due t1 ?d)"
    using NextSnoozed_due [OF s] assms(4) by (auto simp: due_def within_def tm_after_def split: sum.splits)
  have n: "?good s" by (rule due_good [OF assms(2) d])
  have "clears ?good t1 s ?d (wdSnooze (agWorld ag1))"
  proof (cases "snWatchdog s")
    case True
    with s assms(3) have "ag1 = runWatchdog pe s ag" by (auto simp: snooze_step_def split: if_splits)
    with runWatchdog_clears [OF assms(1) n assms(4)] show ?thesis by simp
  next
    case False
    obtain r ag0 where run: "runSnooze pe s ag = (r, ag0)" by (metis prod.collapse)
    with False s assms(3) have ag1: "ag1 = ag0\<lparr>agWorld := advance pe s (agWorld ag0)\<rparr>"
      by (auto simp: snooze_step_def split: if_splits sum.splits)
    have c: "calm t0 t1 pe (agWorld ag) (agWorld ag0)" using runSnooze_calm [OF assms(1), of ag s] run by simp
    then have "within t0 t1 (peNow pe (agWorld ag0))"
      using advance_later [OF assms(1), of "agWorld ag0" s] assms(4,5) ag1
      by (simp add: calm_def later_def within_def tm_after_def)
    from advance_clears [OF n False this] c ag1 show ?thesis by (auto simp: calm_def intro: clears_after)
  qed
  moreover have "snMessageId s \<noteq> []" using schedulable_named [OF n] by simp
  ultimately show ?thesis using clears_smaller [OF _ assms(2) d] assms(2) by (simp add: clears_def)
qed

lemma snooze_step_left:
  assumes "settled good (wdSnooze (agWorld ag))" "snooze_step pe ag = Inl ag1"
  shows "aeCtxErr (peAgent pe) (agWorld ag1) \<noteq> None \<or> due (peNow pe (agWorld ag1)) (wdSnooze (agWorld ag1)) = [] \<or>
    (\<exists>s ag0 e. runSnooze pe s ag0 = (Inl e, ag1) \<and> \<not> err_is e ErrMaxTurns)"
proof -
  obtain xs where "ReadSnoozeFile (wdSnooze (agWorld ag)) = Inr xs"
    using assms(1) by (auto simp: settled_def split: sum.splits)
  then have "NextSnoozed now (wdSnooze (agWorld ag)) \<noteq> Inl e" for now e by (simp add: NextSnoozed_def)
  with assms(2) NextSnoozed_none show ?thesis
    by (auto simp: snooze_step_def split: if_splits sum.splits option.splits prod.splits)
qed

text \<open>The states at the passes of the loop that starts in \<open>ag\<close>.\<close>

inductive passes :: "('x, 't) poller_env \<Rightarrow> 'x world agent \<Rightarrow> 'x world agent \<Rightarrow> bool" for pe ag where
  first_pass: "passes pe ag ag"
| next_pass: "passes pe ag ag1 \<Longrightarrow> snooze_step pe ag1 = Inr ag2 \<Longrightarrow> passes pe ag ag2"

lemma loop_ends_from:
  assumes "steady t0 t1 pe" "\<forall>ag1. passes pe ag ag1 \<longrightarrow> within t0 t1 (peNow pe (agWorld ag1))"
  shows "passes pe ag ag1 \<Longrightarrow> settled (good_file t0 t1 pe) (wdSnooze (agWorld ag1)) \<Longrightarrow>
    length (due t1 (wdSnooze (agWorld ag1))) < fuel \<Longrightarrow>
    \<exists>ag'. snooze_loop pe fuel ag1 = Some ag' \<and>
    (aeCtxErr (peAgent pe) (agWorld ag') \<noteq> None \<or> due (peNow pe (agWorld ag')) (wdSnooze (agWorld ag')) = [] \<or>
     (\<exists>s ag0 e. runSnooze pe s ag0 = (Inl e, ag') \<and> \<not> err_is e ErrMaxTurns))"
proof (induction fuel arbitrary: ag1)
  case (Suc fuel)
  show ?case
  proof (cases "snooze_step pe ag1")
    case (Inl ag2)
    with snooze_step_left [OF Suc.prems(2) Inl] show ?thesis by simp
  next
    case (Inr ag2)
    have p: "passes pe ag ag2" by (rule next_pass [OF Suc.prems(1) Inr])
    from snooze_step_smaller [OF assms(1) Suc.prems(2) Inr] assms(2) Suc.prems(1,3) p
    have "settled (good_file t0 t1 pe) (wdSnooze (agWorld ag2))" "length (due t1 (wdSnooze (agWorld ag2))) < fuel" by auto
    from Suc.IH [OF p this] Inr show ?thesis by simp
  qed
qed simp

text \<open>C4. The loop over the due entries ends, with the clock running on.  The loop runs between \<open>t0\<close> and \<open>t1\<close>,
  the file can be written, and each recurring task of the file has a crontab that parses and does not tick again
  before \<open>t1\<close>; then the loop makes at most one pass for each entry due by \<open>t1\<close> and one more, and when it is left
  the context has ended, nothing is due at that moment, or a run failed and waits for the next poll.\<close>

theorem due_loop_ends:
  assumes "steady t0 t1 pe" "\<forall>ag1. passes pe ag ag1 \<longrightarrow> within t0 t1 (peNow pe (agWorld ag1))"
    "settled (schedulable t0 t1 (peCron pe)) (wdSnooze (agWorld ag))" "length (due t1 (wdSnooze (agWorld ag))) < fuel"
  shows "\<exists>ag'. snooze_loop pe fuel ag = Some ag' \<and>
    (aeCtxErr (peAgent pe) (agWorld ag') \<noteq> None \<or> due (peNow pe (agWorld ag')) (wdSnooze (agWorld ag')) = [] \<or>
     (\<exists>s ag0 e. runSnooze pe s ag0 = (Inl e, ag') \<and> \<not> err_is e ErrMaxTurns))"
  by (rule loop_ends_from [OF assms(1,2) first_pass assms(3,4)])

section \<open>A delegate that never answers\<close>

lemma SaveMemory_no_fault:
  assumes "mdFaults d = []"
  shows "mdFaults (snd (SaveMemory sdk m d)) = []"
    and "fst (fst (SaveMemory sdk m d)) = Inl e \<Longrightarrow> mdFiles (snd (SaveMemory sdk m d)) = mdFiles d"
  using assms by (auto simp: SaveMemory_def next_fault_def split: prod.splits sum.splits)

lemma SetMemoryStatus_ok:
  assumes "mdFaults d = []" "dir_wf d" "first_email get messageId = Inr e" "still_waiting d (GetThreadRoot e)"
  shows "\<exists>m. GetMemory (snd (SetMemoryStatus sdk get now status messageId d)) (GetThreadRoot e) = Inr m \<and> meStatus m = status"
proof -
  obtain m where m: "GetMemory d (GetThreadRoot e) = Inr m"
    using assms(4) by (auto simp: still_waiting_def split: sum.splits)
  then have mn: "memory_or_new d (GetThreadRoot e) = Inr m" by (simp add: memory_or_new_def)
  let ?m = "m\<lparr>meStatus := status, meUpdated := Some now\<rparr>"
  have "marshal_memory sdk ?m = (Inr (kept_history d (GetThreadRoot e)), ?m)"
    using memory_or_new_history [OF mn] by (simp add: marshal_memory_def marshal_Wrapped)
  then have "fst (fst (SaveMemory sdk ?m d)) = Inr ()"
    using assms(1) by (simp add: SaveMemory_def next_fault_def)
  then have "fst (SetMemoryStatus sdk get now status messageId d) = Inr ()"
    using assms(3) mn by (simp add: SetMemoryStatus_def split: prod.splits)
  then obtain d' where d': "SetMemoryStatus sdk get now status messageId d = (Inr (), d')" by (metis prod.collapse)
  from SetMemoryStatus_Inr [OF d' assms(2)] assms(3) d' show ?thesis by (auto simp: GetMemory_Inr load_memory_def)
qed

lemma SaveMemoryHistory_keeps_waiting:
  assumes "mdFaults d = []" "dir_wf d" "first_email get messageId = Inr e" "still_waiting d (GetThreadRoot e)"
    "SaveMemoryHistory sdk get h messageId d = (r, d')"
  shows "mdFaults d' = [] \<and> dir_wf d' \<and> still_waiting d' (GetThreadRoot e)"
proof (intro conjI)
  obtain m where m: "GetMemory d (GetThreadRoot e) = Inr m" "meStatus m = status_waiting"
    using assms(4) by (auto simp: still_waiting_def split: sum.splits)
  then have save: "(r, d') = apfst fst (SaveMemory sdk (m\<lparr>meHistory := h\<rparr>) d)"
    using assms(3,5) by (simp add: SaveMemoryHistory_def memory_or_new_def)
  then have d': "d' = snd (SaveMemory sdk (m\<lparr>meHistory := h\<rparr>) d)" by (metis snd_apfst snd_conv)
  show "mdFaults d' = []" "dir_wf d'" using assms(1,2) by (simp_all add: d' SaveMemory_no_fault SaveMemory_wf)
  show "still_waiting d' (GetThreadRoot e)"
  proof (cases r)
    case (Inl x)
    then have "mdFiles d' = mdFiles d"
      using save assms(1) d' SaveMemory_no_fault(2) by (metis fst_apfst fst_conv)
    with assms(4) show ?thesis by (simp add: still_waiting_def GetMemory_def)
  next
    case (Inr u)
    with assms(5) have "SaveMemoryHistory sdk get h messageId d = (Inr (), d')" by simp
    from SaveMemoryHistory_Inr [OF this assms(2)] assms(3) obtain rm where
      "mdFiles d' = (mdFiles d)(msgIDToFilename (GetThreadRoot e) := Stored rm)"
      "(rmStatus rm, rmUpdated rm) = kept_status d (GetThreadRoot e)" by auto
    with m show ?thesis by (auto simp: still_waiting_def GetMemory_def kept_status_def load_memory_def split: fsfile.splits)
  qed
qed

text \<open>
  What a follow-up run may do while the coworker stays silent, for the thread \<open>t\<close>: anything outside the memory
  and the snooze file, setting the thread waiting once more on a message of it, arming its watchdog again (the
  run of a nudge is marked as one, so the count is carried over), and scheduling tasks and other watchdogs.
  \<open>root\<close> is the thread of a Message-Id.
\<close>

inductive nudge_effect ::
  "(string \<Rightarrow> string) \<Rightarrow> ('x, 't) poller_env \<Rightarrow> string \<Rightarrow> 'x world \<Rightarrow> 'x world \<Rightarrow> bool" for root pe t where
  works: "nudge_effect root pe t w (w\<lparr>wdRest := x\<rparr>)"
| waits: "m \<noteq> [] \<Longrightarrow> root m = t \<Longrightarrow>
    nudge_effect root pe t w (snd (on_mem (SetMemoryStatus (peSdk pe) (peFetch pe w) now status_waiting m) w))"
| rearms: "root m = t \<Longrightarrow>
    nudge_effect root pe t w (snd (on_snooze (ArmWaitingWatchdog (root_of_message pe w) now True m t mins) w))"
| schedules: "admissible_entry root s \<Longrightarrow> entry_key s \<noteq> (t, True) \<Longrightarrow>
    nudge_effect root pe t w (snd (on_snooze (SaveSnooze (root_of_message pe w) s) w))"

text \<open>
  The surroundings of such a delegate: the messages of the thread are in the mailbox, a follow-up run does no
  more than the above, in any order and number, and a bounce leaves the memory and the snooze file alone.
\<close>

definition unanswered :: "(string \<Rightarrow> string) \<Rightarrow> ('x, 't) poller_env \<Rightarrow> string \<Rightarrow> bool" where
  "unanswered root pe t \<longleftrightarrow>
     (\<forall>w m. m \<noteq> [] \<longrightarrow> root m = t \<longrightarrow> (\<exists>e es. peFetch pe w [m] = Inr (e # es) \<and> GetThreadRoot e = t)) \<and>
     (\<forall>s ag. snWatchdog s \<longrightarrow> (nudge_effect root pe t)\<^sup>*\<^sup>* (agWorld ag) (agWorld (snd (replay pe s ag)))) \<and>
     (\<forall>e notice w. wdMem (snd (peSendBounce pe e notice w)) = wdMem w \<and>
             wdSnooze (snd (peSendBounce pe e notice w)) = wdSnooze w)"

text \<open>The thread \<open>t\<close> waits, and its watchdog has fired \<open>n\<close> times.\<close>

definition watched :: "(string \<Rightarrow> string) \<Rightarrow> string \<Rightarrow> int \<Rightarrow> 'x world \<Rightarrow> bool" where
  "watched root t n w \<longleftrightarrow>
     mdFaults (wdMem w) = [] \<and> dir_wf (wdMem w) \<and> still_waiting (wdMem w) t \<and> skFaults (wdSnooze w) = [] \<and> t \<noteq> [] \<and>
     (\<exists>xs s. ReadSnoozeFile (wdSnooze w) = Inr xs \<and> entries_inv root xs \<and> lookup_entry (t, True) xs = Some s \<and>
             snMessageId s \<noteq> [] \<and> snFires s = n)"

text \<open>The watchdog of the thread fires.\<close>

definition watch_round :: "('x, 't) poller_env \<Rightarrow> string \<Rightarrow> 'x world agent \<Rightarrow> 'x world agent" where
  "watch_round pe t ag =
     (case FindWatchdogByThread t (wdSnooze (agWorld ag)) of
        Inr (Some s) \<Rightarrow> runWatchdog pe s ag
      | _ \<Rightarrow> ag)"

lemma find_watchdog: "ReadSnoozeFile d = Inr xs \<Longrightarrow> FindWatchdogByThread t d = Inr (lookup_entry (t, True) xs)"
  by (simp add: FindWatchdogByThread_def findSnoozeByThread_def lookup_entry_def)

lemma lookup_entry_key: "lookup_entry k xs = Some s \<Longrightarrow> entry_key s = k \<and> s \<in> set xs"
  by (auto simp: lookup_entry_find find_Some_iff)

lemma watched_entry:
  assumes "watched root t n w"
  obtains xs s m where "ReadSnoozeFile (wdSnooze w) = Inr xs" "entries_inv root xs" "lookup_entry (t, True) xs = Some s"
    "snMessageId s \<noteq> []" "root (snMessageId s) = t" "snFires s = n" "snThreadId s = t" "snWatchdog s"
    "admissible_entry root s" "thread_memory (wdMem w) t = Inr (Some m)" "meStatus m = status_waiting"
proof -
  obtain xs s where s: "ReadSnoozeFile (wdSnooze w) = Inr xs" "entries_inv root xs" "lookup_entry (t, True) xs = Some s"
    "snMessageId s \<noteq> []" "snFires s = n" using assms by (auto simp: watched_def)
  have k: "snThreadId s = t" "snWatchdog s" "s \<in> set xs" using lookup_entry_key [OF s(3)] by (simp_all add: entry_key_def)
  then have r: "rooted root s" using s(2) by (auto simp: entries_inv_def list_all_iff)
  then have "root (snMessageId s) = t" using k s(4) by (simp add: rooted_def)
  moreover have "admissible_entry root s" using assms r k by (auto simp: watched_def admissible_entry_def)
  moreover obtain m where "GetMemory (wdMem w) t = Inr m" "meStatus m = status_waiting"
    using assms by (auto simp: watched_def still_waiting_def split: sum.splits)
  ultimately show ?thesis using that s k by (simp add: thread_memory_def)
qed

lemma on_mem_mem [simp]: "wdMem (snd (on_mem m w)) = snd (m (wdMem w))"
  by (simp add: on_mem_def split: prod.split)

lemma on_snooze_mem [simp]: "wdMem (snd (on_snooze m w)) = wdMem w"
  by (simp add: on_snooze_def split: prod.split)

lemma save_run_mem: "wdMem (agWorld (save_run pe i ag)) =
    snd (SaveMemoryHistory (peSdk pe) (peFetch pe (agWorld ag)) (StripAttachmentBlobs (agHistory ag)) i (wdMem (agWorld ag)))"
  by (simp add: save_run_def save_history_def on_world_def on_mem_def split: prod.split)

text \<open>Saving the watchdog of the thread sets its count; saving another entry keeps it.\<close>

lemma saved_watched:
  assumes "watched root t n w" "admissible_entry root s" "snWatchdog s \<Longrightarrow> snThreadId s = t \<Longrightarrow> snMessageId s \<noteq> []"
  shows "watched root t (if entry_key s = (t, True) then snFires s else n) (snd (on_snooze (SaveSnooze rootOf s) w))"
proof (rule watched_entry [OF assms(1)])
  fix xs s0
  assume xs: "ReadSnoozeFile (wdSnooze w) = Inr xs" "entries_inv root xs" "lookup_entry (t, True) xs = Some s0"
    "snMessageId s0 \<noteq> []" "snFires s0 = n"
  have f: "skFaults (wdSnooze w) = []" "snThreadId s \<noteq> []" using assms(1,2) by (simp_all add: watched_def admissible_entry_def)
  obtain d' where d': "SaveSnooze rootOf s (wdSnooze w) = (Inr s, d')" "skFaults d' = []"
    "ReadSnoozeFile d' = Inr (put_entry s xs)"
    using SaveSnooze_settled [OF f(1) xs(1) f(2), of rootOf] by (auto simp: put_entry_def)
  have "lookup_entry (t, True) (put_entry s xs) = Some (if entry_key s = (t, True) then s else s0)"
    using entries.lookup_put [OF xs(2) assms(2), of "(t, True)"] xs(3) by auto
  moreover have "entries_inv root (put_entry s xs)" by (rule entries_inv_put [OF xs(2) assms(2)])
  ultimately show ?thesis
    using assms(1,3) d' xs(4,5) by (simp add: watched_def) (auto simp: entry_key_def)
qed

lemma rescheduled:
  assumes "watched root t n w" "ReadSnoozeFile (wdSnooze w) = Inr xs" "lookup_entry (t, True) xs = Some s"
  shows "watched root t (wrap64 (n + 1)) (rescheduleWatchdog pe (counted s) w)"
proof -
  have s: "snMessageId s \<noteq> []" "snFires s = n" "snThreadId s = t" "snWatchdog s" "admissible_entry root s"
    using watched_entry [OF assms(1)] assms(2,3) by (metis option.inject sum.inject(2))+
  then have "admissible_entry root ((counted s)\<lparr>snUnSnooze := u\<rparr>)" for u
    by (auto simp: counted_def admissible_entry_def rooted_def)
  from saved_watched [OF assms(1) this] s show ?thesis
    by (simp add: rescheduleWatchdog_def) (simp add: counted_def entry_key_def)
qed

lemma rearmed:
  assumes "watched root t n w" "root m = t"
  shows "watched root t n (snd (on_snooze (ArmWaitingWatchdog rootOf now True m t mins) w))"
proof (cases "mins \<le> 0 \<or> trim_space m = [] \<or> trim_space t = []")
  case True
  then show ?thesis using assms(1) by (simp add: ArmWaitingWatchdog_def watched_def)
next
  case False
  let ?s = "watchdog_entry now m t mins n"
  have "carried_fires True t (wdSnooze w) = n"
    by (rule watched_entry [OF assms(1)]) (simp add: carried_fires_def find_watchdog)
  then have "snd (on_snooze (ArmWaitingWatchdog rootOf now True m t mins) w) = snd (on_snooze (SaveSnooze rootOf ?s) w)"
    using False by (simp add: ArmWaitingWatchdog_def on_snooze_def io_bind_def io_return_def split: prod.split sum.split)
  moreover have "admissible_entry root ?s" "m \<noteq> []"
    using assms False by (auto simp: watched_def admissible_entry_def rooted_def watchdog_entry_def)
  ultimately show ?thesis
    using saved_watched [OF assms(1), of ?s rootOf] by (simp add: watchdog_entry_def entry_key_def)
qed

lemma waiting_again:
  assumes "watched root t n w" "first_email get m = Inr e" "GetThreadRoot e = t"
  shows "watched root t n (snd (on_mem (SetMemoryStatus sdk get now status_waiting m) w))"
proof -
  let ?d = "snd (SetMemoryStatus sdk get now status_waiting m (wdMem w))"
  have w: "mdFaults (wdMem w) = []" "dir_wf (wdMem w)" "still_waiting (wdMem w) (GetThreadRoot e)"
    using assms by (simp_all add: watched_def)
  obtain m' where "GetMemory ?d t = Inr m'" "meStatus m' = status_waiting"
    using SetMemoryStatus_ok [OF w(1,2) assms(2) w(3), of sdk now status_waiting] assms(3) by auto
  then have "still_waiting ?d t" by (simp add: still_waiting_def)
  moreover have "mdFaults ?d = []" "dir_wf ?d"
    using w by (simp_all add: SetMemoryStatus_def SaveMemory_no_fault SaveMemory_wf split: sum.split)
  ultimately show ?thesis using assms(1) by (simp add: watched_def)
qed

lemma nudge_effect_watched:
  assumes "unanswered root pe t" "nudge_effect root pe t w w'" "watched root t n w"
  shows "watched root t n w'"
  using assms(2)
proof cases
  case (waits m now)
  obtain e es where "peFetch pe w [m] = Inr (e # es)" "GetThreadRoot e = t"
    using assms(1) waits unfolding unanswered_def by blast
  with waiting_again [OF assms(3), of "peFetch pe w" m e] waits show ?thesis by (simp add: first_email_def)
next
  case (schedules s)
  with saved_watched [OF assms(3), of s] show ?thesis by (auto simp: entry_key_def)
next
  case (rearms m now mins)
  with rearmed [OF assms(3)] show ?thesis by simp
qed (use assms(3) in \<open>simp add: watched_def\<close>)

lemma nudge_effects_watched:
  assumes "unanswered root pe t" "(nudge_effect root pe t)\<^sup>*\<^sup>* w w'" "watched root t n w"
  shows "watched root t n w'"
  using assms(2,3) by (induction rule: rtranclp_induct) (use nudge_effect_watched [OF assms(1)] in blast)+

lemma nudge_watched:
  assumes "unanswered root pe t" "watched root t n (agWorld ag)" "n < waitingWatchdogMaxFires"
  shows "watched root t (wrap64 (n + 1)) (agWorld (watch_round pe t ag))"
proof (rule watched_entry [OF assms(2)])
  fix xs s m
  assume s: "ReadSnoozeFile (wdSnooze (agWorld ag)) = Inr xs" "lookup_entry (t, True) xs = Some s"
    "snMessageId s \<noteq> []" "root (snMessageId s) = t" "snFires s = n" "snThreadId s = t"
    and m: "thread_memory (wdMem (agWorld ag)) t = Inr (Some m)" "meStatus m = status_waiting"
  let ?w1 = "rescheduleWatchdog pe (counted s) (agWorld ag)"
  let ?ag1 = "SetHistory (meHistory m) (ClearHistory (ag\<lparr>agWorld := ?w1\<rparr>))"
  let ?ag2 = "snd (replay pe (nudge_entry s) ?ag1)"
  let ?ag3 = "save_run pe (snMessageId s) ?ag2"
  have w1: "watched root t (wrap64 (n + 1)) ?w1" by (rule rescheduled [OF assms(2) s(1,2)])
  have "(nudge_effect root pe t)\<^sup>*\<^sup>* (agWorld ?ag1) (agWorld ?ag2)"
    using assms(1) unfolding unanswered_def by (simp add: nudge_entry_def del: history_world)
  then have w2: "watched root t (wrap64 (n + 1)) (agWorld ?ag2)"
    using nudge_effects_watched [OF assms(1) _ w1] by simp
  obtain e es where e: "peFetch pe (agWorld ?ag2) [snMessageId s] = Inr (e # es)" "GetThreadRoot e = t"
    using assms(1) s(3,4) unfolding unanswered_def by blast
  obtain r d' where save: "SaveMemoryHistory (peSdk pe) (peFetch pe (agWorld ?ag2))
      (StripAttachmentBlobs (agHistory ?ag2)) (snMessageId s) (wdMem (agWorld ?ag2)) = (r, d')" by (metis prod.collapse)
  have "mdFaults d' = [] \<and> dir_wf d' \<and> still_waiting d' (GetThreadRoot e)"
    by (rule SaveMemoryHistory_keeps_waiting [OF _ _ _ _ save]) (use w2 e in \<open>simp_all add: watched_def first_email_def\<close>)
  then have d': "mdFaults d' = []" "dir_wf d'" "still_waiting d' t" using e(2) by simp_all
  have w3: "wdMem (agWorld ?ag3) = d'" "wdSnooze (agWorld ?ag3) = wdSnooze (agWorld ?ag2)"
    using save by (simp_all add: save_run_mem)
  have "watch_round pe t ag = nudge pe s m ag"
    using s m assms(3) by (simp add: watch_round_def find_watchdog runWatchdog_def)
  also have "\<dots> = ?ag3"
    using w3(1) d'(3) s(6) by (simp add: nudge_def Let_def)
  finally show ?thesis using w2 w3 d' by (simp add: watched_def)
qed

lemma give_up_watched:
  assumes "unanswered root pe t" "watched root t waitingWatchdogMaxFires (agWorld ag)"
  shows "FindWatchdogByThread t (wdSnooze (agWorld (watch_round pe t ag))) = Inr None \<and>
    (\<exists>m. GetMemory (wdMem (agWorld (watch_round pe t ag))) t = Inr m \<and> meStatus m = status_error)"
proof (rule watched_entry [OF assms(2)])
  fix xs s m
  assume s: "ReadSnoozeFile (wdSnooze (agWorld ag)) = Inr xs" "lookup_entry (t, True) xs = Some s"
    "snMessageId s \<noteq> []" "root (snMessageId s) = t" "snFires s = waitingWatchdogMaxFires" "snThreadId s = t"
    "entries_inv root xs" "admissible_entry root s"
    and m: "thread_memory (wdMem (agWorld ag)) t = Inr (Some m)" "meStatus m = status_waiting"
  let ?w = "agWorld ag" and ?i = "snMessageId s"
  have mail: "\<exists>e es. peFetch pe w [?i] = Inr (e # es) \<and> GetThreadRoot e = t" for w
    using assms(1) s(3,4) by (simp add: unanswered_def)
  then obtain e es where e: "peFetch pe ?w [?i] = Inr (e # es)" by blast
  let ?w1 = "snd (peSendBounce pe e (give_up_notice (peCfg pe) (snFires s)) ?w)"
  have w1: "wdMem ?w1 = wdMem ?w" "wdSnooze ?w1 = wdSnooze ?w" using assms(1) by (simp_all add: unanswered_def)
  let ?w2 = "snd (on_mem (SetMemoryStatus (peSdk pe) (peFetch pe ?w1) (peNow pe ?w1) status_error ?i) ?w1)"
  have round: "agWorld (watch_round pe t ag) = delete_entry s ?w2"
    using s m e by (simp add: watch_round_def find_watchdog runWatchdog_def give_up_def Let_def)
  obtain e' es' where e': "peFetch pe ?w1 [?i] = Inr (e' # es')" "GetThreadRoot e' = t" using mail by blast
  have "\<exists>m'. GetMemory (wdMem ?w2) t = Inr m' \<and> meStatus m' = status_error"
    using SetMemoryStatus_ok [of "wdMem ?w" "peFetch pe ?w1" ?i e'] e' assms(2) w1
    by (simp add: watched_def first_email_def)
  moreover have "wdSnooze ?w2 = wdSnooze ?w" using w1 by simp
  moreover have "lookup_entry (t, True) (without s xs) = None"
    using without_by_key [OF s(7,8)] lookup_entry_key [OF s(2)] by (auto simp: lookup_entry_find find_None_iff)
  moreover obtain d' where "DeleteSnooze s (wdSnooze ?w) = (Inr (), d')" "ReadSnoozeFile d' = Inr (without s xs)"
    using DeleteSnooze_settled [OF _ s(1)] assms(2) unfolding watched_def by blast
  ultimately show ?thesis by (simp add: round delete_entry_def find_watchdog)
qed

text \<open>C2. A delegate that never answers: the watchdog follows up exactly twice and gives up at its third firing.
  On a healthy disk and with the thread's messages in the mailbox, whatever the follow-up runs do elsewhere, and
  however often they set the thread waiting again and arm its watchdog anew, the thread still waits after the
  first two firings under a watchdog with the count raised; after the third the watchdog is gone and the thread
  is marked failed.\<close>

theorem silent_delegate_is_given_up:
  assumes "unanswered root pe t" "watched root t 0 (agWorld ag)"
  shows "watched root t 1 (agWorld (watch_round pe t ag)) \<and>
    watched root t 2 (agWorld (watch_round pe t (watch_round pe t ag))) \<and>
    (let ag3 = watch_round pe t (watch_round pe t (watch_round pe t ag))
     in FindWatchdogByThread t (wdSnooze (agWorld ag3)) = Inr None \<and>
        (\<exists>m. GetMemory (wdMem (agWorld ag3)) t = Inr m \<and> meStatus m = status_error))"
proof -
  have one: "watched root t 1 (agWorld (watch_round pe t ag))"
    using nudge_watched [OF assms] by (simp add: waitingWatchdogMaxFires_def wrap64_def)
  moreover from nudge_watched [OF assms(1) one]
  have two: "watched root t 2 (agWorld (watch_round pe t (watch_round pe t ag)))"
    by (simp add: waitingWatchdogMaxFires_def wrap64_def)
  ultimately show ?thesis
    using give_up_watched [OF assms(1)] by (simp add: waitingWatchdogMaxFires_def Let_def)
qed

section \<open>Instances\<close>

text \<open>
  A poller without a model key and without tools, on a mailbox with one message of the thread \<open><m1>\<close>.  Its
  runs leave the world as it is.
\<close>

definition quiet_env :: "(unit world, unit) agent_env" where
  "quiet_env =
     \<lparr>aeCfg = startup_config\<lparr>MaxTurns := 3, WaitingWatchdogMinutes := 30\<rparr>, aeId = ''kiku'', aeSystem = [],
      aeProvider = \<lparr>pvCreateMessage = (\<lambda>p w. (Inr stub_response, w)), pvBuildTools = (\<lambda>defs model. ((), [])),
                    pvToHistoryParam = stub_ToHistoryParam, pvNewToolResult = NewToolResult\<rparr>,
      aeCtxErr = (\<lambda>w. None), aeCreateTemp = (\<lambda>a b w. (None, w)), aeRawLength = (\<lambda>j. 0), aeNetMail = Some,
      aeFloat = Some,
      aeConverters = \<lparr>cvUnzip = (\<lambda>b. None), cvCharData = (\<lambda>s. []), cvTika = (\<lambda>n b. Inl (Err []))\<rparr>\<rparr>"

definition quiet_poller :: "(unit, unit) poller_env" where
  "quiet_poller =
     \<lparr>peAgent = quiet_env, peFresh = (\<lambda>w. w), peTools = [], peFetch = (\<lambda>w ids. Inr [sample_email]),
      peSentEmail = (\<lambda>w i. Inr None), peNow = (\<lambda>w. utc 5), peSendBounce = (\<lambda>e n w. (ok, w)),
      peSendEmail = (\<lambda>e w. (ok, w)), peMarkSeen = (\<lambda>ids w. (ok, w)), peDb = (\<lambda>n. None),
      peCron = (\<lambda>c. Inr (tm_add (minutes 60))), peSdk = (\<lambda>r bs. Inr JNull)\<rparr>"

lemma quiet_replay [simp]: "agWorld (snd (replay quiet_poller s ag)) = agWorld ag"
proof -
  have kept: "kept_by (\<lambda>w. w = agWorld ag) quiet_env (\<lambda>w. w) []"
    by (simp add: kept_by_def quiet_env_def)
  have "agWorld (snd (handleMessageWith quiet_env (\<lambda>w. w) pre nudge e n [] ag)) = agWorld ag" for pre nudge e n
    by (rule handled_kept [OF kept refl]) (rule prod.collapse [symmetric])
  then show ?thesis
    by (simp add: replay_def quiet_poller_def HandleSnooze_def WithoutTool_def)
qed

definition due_task :: snooze where
  "due_task = empty_snooze\<lparr>snThreadId := ''<m1>'', snMessageId := ''<m2>'', snOnce := True, snUnSnooze := utc 1\<rparr>"

definition quiet_agent :: "snooze list \<Rightarrow> unit world agent" where
  "quiet_agent xs = \<lparr>agWorld = \<lparr>wdMem = empty_dir, wdSnooze = \<lparr>skFile = Stored xs, skFaults = []\<rparr>, wdRest = ()\<rparr>,
     agHistory = [], agLast = []\<rparr>"

text \<open>
  A poller whose clock runs on with every request of the model, up to nine, and whose only known schedule is
  hourly; and its file with a task that recurs and one that does not.
\<close>

definition busy_env :: "('w, message_response) io \<Rightarrow> ('w, unit) agent_env" where
  "busy_env create =
     \<lparr>aeCfg = aeCfg quiet_env, aeId = ''kiku'', aeSystem = [],
      aeProvider = \<lparr>pvCreateMessage = (\<lambda>p. create), pvBuildTools = (\<lambda>defs model. ((), [])),
                    pvToHistoryParam = stub_ToHistoryParam, pvNewToolResult = NewToolResult\<rparr>,
      aeCtxErr = (\<lambda>w. None), aeCreateTemp = (\<lambda>a b w. (None, w)), aeRawLength = (\<lambda>j. 0), aeNetMail = Some,
      aeFloat = Some, aeConverters = aeConverters quiet_env\<rparr>"

definition ticking_poller :: "(nat, unit) poller_env" where
  "ticking_poller =
     \<lparr>peAgent = busy_env (\<lambda>w. (Inr stub_response, w\<lparr>wdRest := Suc (wdRest w)\<rparr>)), peFresh = (\<lambda>w. w), peTools = [],
      peFetch = (\<lambda>w ids. Inr [sample_email]), peSentEmail = (\<lambda>w i. Inr None),
      peNow = (\<lambda>w. utc (int (min (wdRest w) 9))), peSendBounce = (\<lambda>e n w. (ok, w)),
      peSendEmail = (\<lambda>e w. (ok, w)), peMarkSeen = (\<lambda>ids w. (ok, w)), peDb = (\<lambda>n. None),
      peCron = (\<lambda>c. if c = ''@hourly'' then Inr (tm_add (minutes 60)) else Inl (Err ''unknown schedule'')),
      peSdk = (\<lambda>r bs. Inr JNull)\<rparr>"

lemma busy_replay:
  assumes "peAgent pe = busy_env create" "peFresh pe = (\<lambda>w. w)" "P (agWorld ag)" "\<And>w. P w \<Longrightarrow> P (snd (create w))"
    "\<And>t ctx i w. t \<in> set (peTools pe) \<Longrightarrow> P w \<Longrightarrow> P (snd (tlExec t ctx i w))"
  shows "P (agWorld (snd (replay pe s ag)))"
proof -
  let ?tools = "WithoutTool (WithoutTool (peTools pe) ''snooze_tool'') ''unsnooze_tool''"
  have kept: "kept_by P (peAgent pe) (peFresh pe) ?tools"
    using assms(4,5) by (simp add: kept_by_def assms(1,2)) (simp add: busy_env_def WithoutTool_def)
  have "P (agWorld (snd (handleMessageWith (peAgent pe) (peFresh pe) pre nudge e n ?tools ag)))" for pre nudge e n
    by (rule handled_kept [OF kept assms(3)]) (rule prod.collapse [symmetric])
  then show ?thesis
    using assms(3) by (simp add: replay_def HandleSnooze_def split: sum.split list.split)
qed

lemma ticking_replay:
  "wdRest (agWorld ag) \<le> wdRest (agWorld (snd (replay ticking_poller s ag)))"
  "wdSnooze (agWorld (snd (replay ticking_poller s ag))) = wdSnooze (agWorld ag)"
proof -
  let ?P = "\<lambda>w. wdRest (agWorld ag) \<le> wdRest w \<and> wdSnooze w = wdSnooze (agWorld ag)"
  have "?P (agWorld (snd (replay ticking_poller s ag)))"
    by (rule busy_replay [where create = "\<lambda>w. (Inr stub_response, w\<lparr>wdRest := Suc (wdRest w)\<rparr>)"])
      (auto simp: ticking_poller_def)
  then show "wdRest (agWorld ag) \<le> wdRest (agWorld (snd (replay ticking_poller s ag)))"
    "wdSnooze (agWorld (snd (replay ticking_poller s ag))) = wdSnooze (agWorld ag)" by simp_all
qed

lemma ticking_within: "within (utc 0) (utc 9) (peNow ticking_poller w)"
  by (simp add: within_def tm_after_def utc_def ticking_poller_def)

lemma ticking_steady: "steady (utc 0) (utc 9) ticking_poller"
proof -
  have "later ticking_poller w w'" if "wdRest w \<le> wdRest w'" for w w'
    using that by (simp add: later_def ticking_poller_def utc_def)
  moreover have "tm_after (tm_add (wrap64 (minutes (WaitingWatchdogMinutes (peCfg ticking_poller)))) t) (utc 9)"
    if "within (utc 0) (utc 9) t" for t
    using that by (simp add: ticking_poller_def busy_env_def quiet_env_def within_def utc_def tm_add_def tm_after_def
        minutes_def wrap64_def)
  ultimately show ?thesis
    using ticking_replay by (simp add: steady_def) (simp add: ticking_poller_def)
qed

definition hourly_task :: snooze where
  "hourly_task = empty_snooze\<lparr>snThreadId := ''<m3>'', snMessageId := ''<m3>'', snCrontab := ''@hourly'', snUnSnooze := utc 2\<rparr>"

definition two_tasks :: "nat world agent" where
  "two_tasks = \<lparr>agWorld = \<lparr>wdMem = empty_dir, wdSnooze = \<lparr>skFile = Stored [hourly_task, due_task], skFaults = []\<rparr>, wdRest = 5\<rparr>,
     agHistory = [], agLast = []\<rparr>"

lemma due_loop_ends_witness: "\<exists>ag'. snooze_loop ticking_poller 3 two_tasks = Some ag'"
proof -
  have "schedulable (utc 0) (utc 9) (peCron ticking_poller) hourly_task"
    "schedulable (utc 0) (utc 9) (peCron ticking_poller) due_task"
    by (simp_all add: schedulable_def named_entry_def hourly_task_def due_task_def empty_snooze_def ticking_poller_def)
      (simp add: within_def tm_after_def tm_add_def utc_def minutes_def)
  then have "settled (schedulable (utc 0) (utc 9) (peCron ticking_poller)) (wdSnooze (agWorld two_tasks))"
    by (simp add: settled_def two_tasks_def)
  moreover have "length (due (utc 9) (wdSnooze (agWorld two_tasks))) < 3"
    by (simp add: due_def two_tasks_def hourly_task_def due_task_def tm_after_def utc_def)
  ultimately show ?thesis using due_loop_ends [OF ticking_steady] ticking_within by blast
qed

text \<open>A thread that waits under an armed watchdog.\<close>

definition waiting_memory :: raw_memory where
  "waiting_memory = \<lparr>rmThreadRoot = ''<m1>'', rmHistory = [], rmStatus = status_waiting, rmUpdated = Some (utc 0)\<rparr>"

definition armed_watchdog :: snooze where
  "armed_watchdog = watchdog_entry (utc 0) ''<m2>'' ''<m1>'' 30 0"

definition waiting_agent :: "unit world agent" where
  "waiting_agent = (quiet_agent [armed_watchdog])\<lparr>agWorld :=
     \<lparr>wdMem = empty_dir\<lparr>mdFiles := (mdFiles empty_dir)(''m1.json'' := Stored waiting_memory)\<rparr>,
      wdSnooze = \<lparr>skFile = Stored [armed_watchdog], skFaults = []\<rparr>, wdRest = ()\<rparr>\<rparr>"

lemma m1_file: "msgIDToFilename ''<m1>'' = ''m1.json''"
  by code_simp

lemma waiting_watched: "watched (\<lambda>m. ''<m1>'') ''<m1>'' 0 (agWorld waiting_agent)"
proof -
  have "still_waiting (wdMem (agWorld waiting_agent)) ''<m1>''"
    by (simp add: still_waiting_def GetMemory_def m1_file waiting_agent_def load_memory_def waiting_memory_def)
  moreover have "dir_wf (wdMem (agWorld waiting_agent))"
    by (simp add: dir_wf_def waiting_agent_def empty_dir_def file_key_def waiting_memory_def m1_file)
  ultimately show ?thesis
    by (simp add: watched_def) (simp add: waiting_agent_def empty_dir_def entries_inv_def rooted_def armed_watchdog_def
        watchdog_entry_def empty_snooze_def lookup_entry_def find_by_thread_def)
qed

text \<open>A model that only ever sets the task waiting again, which arms the watchdog anew.\<close>

definition wait_again :: "unit world \<Rightarrow> unit world" where
  "wait_again w =
     (let w1 = snd (on_mem (SetMemoryStatus (\<lambda>r bs. Inr JNull) (\<lambda>ids. Inr [sample_email]) (utc 6) status_waiting ''<m2>'') w)
      in snd (on_snooze (ArmWaitingWatchdog (GetThreadRootId (\<lambda>ids. Inr [sample_email])) (utc 6) True ''<m2>'' ''<m1>'' 30) w1))"

definition wait_tool :: "unit world tool" where
  "wait_tool = \<lparr>tlName = ''set_task_status_tool'', tlDescription = [], tlSchema = Some ''{}'', tlStatic = [],
     tlSystem = (\<lambda>e. Inr []), tlExec = (\<lambda>ctx i w. (Inr ''Status Updated'', wait_again w))\<rparr>"

definition wait_response :: message_response where
  "wait_response = \<lparr>mrRole = ''assistant'', 
     mrContent = [(plain_block ''tool_use'')\<lparr>cbId := ''t1'', cbName := ''set_task_status_tool'', cbInput := ''{}''\<rparr>],
     mrStopReason = ''tool_use''\<rparr>"

definition patient_poller :: "(unit, unit) poller_env" where
  "patient_poller = quiet_poller\<lparr>peAgent := busy_env (\<lambda>w. (Inr wait_response, w)), peTools := [wait_tool]\<rparr>"

lemma patient_unanswered: "unanswered (\<lambda>m. ''<m1>'') patient_poller ''<m1>''"
proof -
  let ?eff = "nudge_effect (\<lambda>m. ''<m1>'') patient_poller ''<m1>''"
  have again: "?eff\<^sup>*\<^sup>* w (wait_again w)" for w
  proof -
    let ?w1 = "snd (on_mem (SetMemoryStatus (peSdk patient_poller) (peFetch patient_poller w) (utc 6) status_waiting ''<m2>'') w)"
    have "?eff w ?w1" by (rule waits) simp_all
    moreover have "?eff ?w1 (snd (on_snooze (ArmWaitingWatchdog (root_of_message patient_poller ?w1) (utc 6) True ''<m2>'' ''<m1>'' 30) ?w1))"
      by (rule rearms) simp
    moreover have "wait_again w = snd (on_snooze (ArmWaitingWatchdog (root_of_message patient_poller ?w1) (utc 6) True ''<m2>'' ''<m1>'' 30) ?w1)"
      by (simp add: wait_again_def Let_def patient_poller_def quiet_poller_def root_of_message_def)
    ultimately show ?thesis by simp
  qed
  have "?eff\<^sup>*\<^sup>* (agWorld ag) (agWorld (snd (replay patient_poller s ag)))" for s ag
  proof (rule busy_replay [where P = "?eff\<^sup>*\<^sup>* (agWorld ag)" and create = "\<lambda>w. (Inr wait_response, w)"])
    fix t :: "unit world tool" and ctx i w
    assume "t \<in> set (peTools patient_poller)" "?eff\<^sup>*\<^sup>* (agWorld ag) w"
    then show "?eff\<^sup>*\<^sup>* (agWorld ag) (snd (tlExec t ctx i w))"
      using again [of w] by (simp add: patient_poller_def wait_tool_def)
  qed (simp_all add: patient_poller_def quiet_poller_def)
  then show ?thesis
    by (simp add: unanswered_def) (simp add: patient_poller_def quiet_poller_def sample_root)
qed

lemma silent_delegate_is_given_up_witness:
  "watched (\<lambda>m. ''<m1>'') ''<m1>'' 1 (agWorld (watch_round patient_poller ''<m1>'' waiting_agent)) \<and>
   FindWatchdogByThread ''<m1>'' (wdSnooze (agWorld (watch_round patient_poller ''<m1>''
     (watch_round patient_poller ''<m1>'' (watch_round patient_poller ''<m1>'' waiting_agent))))) = Inr None"
  using silent_delegate_is_given_up [OF patient_unanswered waiting_watched] by (simp add: Let_def)

text \<open>Its run does arm the watchdog anew: the deadline is that of the tool, not of the poller.\<close>

lemma patient_poller_rearms:
  "(case FindWatchdogByThread ''<m1>'' (wdSnooze (agWorld (watch_round patient_poller ''<m1>'' waiting_agent))) of
      Inr (Some s) \<Rightarrow> snUnSnooze s = tm_add (minutes 30) (utc 6) | _ \<Rightarrow> False)"
  by code_simp

section \<open>Isolation and repetition\<close>

text \<open>C5. No leak between threads: what a scheduled run does and leaves behind depends on the world alone, not on
  the conversation that the last handled message left in the agent.\<close>

theorem scheduled_run_is_isolated:
  assumes "agWorld ag = agWorld ag'"
  shows "fst (runSnooze pe s ag) = fst (runSnooze pe s ag') \<and>
    agWorld (snd (runSnooze pe s ag)) = agWorld (snd (runSnooze pe s ag')) \<and>
    agWorld (runWatchdog pe w ag) = agWorld (runWatchdog pe w ag')"
proof -
  have clear: "ClearHistory ag = ClearHistory ag'" using assms by (cases ag; cases ag') (simp add: ClearHistory_def)
  have "ClearHistory (ag\<lparr>agWorld := v\<rparr>) = ClearHistory (ag'\<lparr>agWorld := v\<rparr>)" for v
    using assms by (cases ag; cases ag') (simp add: ClearHistory_def)
  then have "nudge pe w m ag = nudge pe w m ag'" for m
    unfolding nudge_def assms by simp
  then have "agWorld (runWatchdog pe w ag) = agWorld (runWatchdog pe w ag')"
    unfolding runWatchdog_def assms by (simp split: sum.split option.split)
  moreover have "fst (runSnooze pe s ag) = fst (runSnooze pe s ag') \<and>
      agWorld (snd (runSnooze pe s ag)) = agWorld (snd (runSnooze pe s ag'))"
    unfolding runSnooze_def assms clear using assms
    by (simp add: Let_def split: sum.split option.split prod.split)
  ultimately show ?thesis by blast
qed

lemma scheduled_run_is_isolated_witness:
  "agWorld (runWatchdog quiet_poller armed_watchdog waiting_agent) =
   agWorld (runWatchdog quiet_poller armed_watchdog (waiting_agent\<lparr>agHistory := [Fresh User [BText ''another thread'']]\<rparr>))"
  using scheduled_run_is_isolated [of waiting_agent "waiting_agent\<lparr>agHistory := [Fresh User [BText ''another thread'']]\<rparr>"
      quiet_poller due_task armed_watchdog] by simp

text \<open>A failed write repeats the work: when a scheduled task was run and the file cannot be written to advance
  it, the same task is the next one of the same loop and is run again at once.\<close>

theorem failed_advance_repeats_the_task:
  assumes "snooze_step pe ag = Inr ag'" "aeCtxErr (peAgent pe) (agWorld ag) = None"
    "NextSnoozed now (wdSnooze (agWorld ag)) = Inr (Some s)" "\<not> snWatchdog s" "\<forall>w. peNow pe w = now"
    "wdSnooze (agWorld (snd (runSnooze pe s ag))) = wdSnooze (agWorld ag)"
    "skFaults (wdSnooze (agWorld ag)) = Some f # fs" "snOnce s" "snMessageId s \<noteq> []"
  shows "NextSnoozed now (wdSnooze (agWorld ag')) = Inr (Some s)"
proof -
  obtain r ag0 where run: "runSnooze pe s ag = (r, ag0)" by (metis prod.collapse)
  have ag': "ag' = ag0\<lparr>agWorld := advance pe s (agWorld ag0)\<rparr>"
    using assms(1-5) run by (auto simp: snooze_step_def split: sum.splits if_splits)
  obtain xs where xs: "ReadSnoozeFile (wdSnooze (agWorld ag)) = Inr xs" "oldest_due now None xs = Some s"
    using assms(3) by (auto simp: NextSnoozed_def and_then_Inr)
  have "s \<in> set xs" using NextSnoozed_due [OF assms(3)] xs(1) by (simp add: due_def)
  moreover have "same_message s s" using assms(9) by (simp add: same_message_def)
  moreover obtain Q where "without s xs = filter Q (filter (\<lambda>e. \<not> same_message s e) xs)" using without_message by blast
  ultimately have "without s xs \<noteq> xs" by (metis filter_filter filter_id_conv)
  then have "length (without s xs) \<noteq> length xs" using without_same_length by blast
  then have "snd (DeleteSnooze s (wdSnooze (agWorld ag))) = (wdSnooze (agWorld ag))\<lparr>skFaults := fs\<rparr>"
    using xs(1) assms(7) by (simp add: DeleteSnooze_def SaveSnoozeFile_def)
  then have "skFile (wdSnooze (agWorld ag')) = skFile (wdSnooze (agWorld ag))"
    using ag' run assms(6,8) by (simp add: advance_def AdvanceOrDeleteSnooze_def)
  then show ?thesis using assms(3) by (simp add: NextSnoozed_def ReadSnoozeFile_def)
qed

definition full_disk_agent :: "unit world agent" where
  "full_disk_agent = (quiet_agent [])\<lparr>agWorld :=
     \<lparr>wdMem = empty_dir, wdSnooze = \<lparr>skFile = Stored [due_task], skFaults = [Some (WriteFails (Err ''ENOSPC''))]\<rparr>,
      wdRest = ()\<rparr>\<rparr>"

lemma quiet_runSnooze [simp]: "wdSnooze (agWorld (snd (runSnooze quiet_poller s ag))) = wdSnooze (agWorld ag)"
proof -
  have bounce: "wdSnooze (notifySnoozeMaxTurns quiet_poller s root t w) = wdSnooze w" for root t w
    by (simp add: notifySnoozeMaxTurns_def quiet_poller_def split: sum.split list.split)
  have run: "wdSnooze (agWorld ag2) = wdSnooze (agWorld ag1)" if "replay quiet_poller s ag1 = (r, ag2)" for ag1 ag2 r
    using quiet_replay [of s ag1] that by simp
  show ?thesis
    unfolding runSnooze_def Let_def
    by (auto simp: bounce dest!: run split: sum.split option.split prod.split)
qed

lemma failed_advance_repeats_the_task_witness:
  "\<exists>ag'. snooze_step quiet_poller full_disk_agent = Inr ag' \<and>
     NextSnoozed (utc 5) (wdSnooze (agWorld ag')) = Inr (Some due_task)"
proof -
  have "\<not> Sum_Type.isl (snooze_step quiet_poller full_disk_agent)" by code_simp
  then obtain ag' where step: "snooze_step quiet_poller full_disk_agent = Inr ag'"
    by (cases "snooze_step quiet_poller full_disk_agent") auto
  have quiet: "aeCtxErr (peAgent quiet_poller) w = None" "peNow quiet_poller w = utc 5" for w
    by (simp_all add: quiet_poller_def quiet_env_def)
  have task: "\<not> snWatchdog due_task" "snOnce due_task" "snMessageId due_task \<noteq> []"
    by (simp_all add: due_task_def empty_snooze_def)
  have disk: "NextSnoozed (utc 5) (wdSnooze (agWorld full_disk_agent)) = Inr (Some due_task)"
    "skFaults (wdSnooze (agWorld full_disk_agent)) = [Some (WriteFails (Err ''ENOSPC''))]"
    by (simp_all add: full_disk_agent_def NextSnoozed_def ReadSnoozeFile_def due_task_def tm_after_def utc_def)
  have "NextSnoozed (utc 5) (wdSnooze (agWorld ag')) = Inr (Some due_task)"
    by (rule failed_advance_repeats_the_task [OF step quiet(1) disk(1) task(1) _ quiet_runSnooze disk(2) task(2,3)])
      (simp add: quiet(2))
  with step show ?thesis by blast
qed

text \<open>The failure to advance a task is only logged.  So a recurring task whose crontab does not parse, once it is
  the oldest due one, is run again and again: the loop is left only when a run fails.\<close>

theorem unparsable_task_blocks_the_loop:
  assumes "\<forall>w. NextSnoozed (peNow pe w) (wdSnooze (agWorld ag)) = Inr (Some s)" "\<not> snWatchdog s" "\<not> snOnce s"
    "peCron pe (snCrontab s) = Inl e" "\<forall>w. aeCtxErr (peAgent pe) w = None"
    "\<forall>ag1. wdSnooze (agWorld (snd (runSnooze pe s ag1))) = wdSnooze (agWorld ag1)"
    "snooze_loop pe n ag = Some ag'"
  shows "\<exists>ag0 x. runSnooze pe s ag0 = (Inl x, ag') \<and> \<not> err_is x ErrMaxTurns"
  using assms(1,7)
proof (induction n arbitrary: ag)
  case (Suc n)
  obtain r ag1 where run: "runSnooze pe s ag = (r, ag1)" "wdSnooze (agWorld ag1) = wdSnooze (agWorld ag)"
    using assms(6) by (metis prod.collapse)
  let ?ag2 = "ag1\<lparr>agWorld := advance pe s (agWorld ag1)\<rparr>"
  have same: "wdSnooze (agWorld ?ag2) = wdSnooze (agWorld ag)"
    using assms(3,4) run(2) by (simp add: advance_def AdvanceOrDeleteSnooze_def io_fail_def)
  show ?case
  proof (cases "\<exists>x. r = Inl x \<and> \<not> err_is x ErrMaxTurns")
    case True
    then obtain x where "r = Inl x" "\<not> err_is x ErrMaxTurns" by blast
    moreover from this have "ag1 = ag'" using Suc.prems assms(2,5) run(1) by (simp add: snooze_step_def)
    ultimately show ?thesis using run(1) by blast
  next
    case False
    then have "snooze_step pe ag = Inr ?ag2"
      using Suc.prems(1) assms(2,5) run(1) by (auto simp: snooze_step_def split: sum.split)
    with Suc.prems same show ?thesis using Suc.IH [of ?ag2] by simp
  qed
qed simp

definition stray_task :: snooze where
  "stray_task = due_task\<lparr>snOnce := False, snCrontab := ''every day''\<rparr>"

definition stray_poller :: "(unit, unit) poller_env" where
  "stray_poller = quiet_poller\<lparr>peCron := (\<lambda>c. Inl (Err ''expected 5 fields''))\<rparr>"

lemma unparsable_task_blocks_the_loop_witness:
  "snooze_loop stray_poller n (quiet_agent [stray_task]) = Some ag' \<Longrightarrow>
   \<exists>ag0 x. runSnooze stray_poller stray_task ag0 = (Inl x, ag')"
proof -
  have same: "peAgent stray_poller = peAgent quiet_poller" "peFresh stray_poller = peFresh quiet_poller"
    "peDb stray_poller = peDb quiet_poller" "peFetch stray_poller = peFetch quiet_poller"
    "peNow stray_poller = peNow quiet_poller" "peTools stray_poller = peTools quiet_poller"
    "peSdk stray_poller = peSdk quiet_poller" "peSendBounce stray_poller = peSendBounce quiet_poller"
    by (simp_all add: stray_poller_def)
  have "save_history stray_poller h m w = save_history quiet_poller h m w" for h m w by (simp add: save_history_def same)
  then have "save_history stray_poller = save_history quiet_poller" by (intro ext)
  with same have "runSnooze stray_poller s ag = runSnooze quiet_poller s ag" for s ag
    by (simp only: runSnooze_def root_of_message_def replay_def save_run_def notifySnoozeMaxTurns_def)
  moreover have "NextSnoozed (peNow stray_poller w) (wdSnooze (agWorld (quiet_agent [stray_task]))) = Inr (Some stray_task)"
    for w :: "unit world"
    by (simp add: stray_poller_def quiet_poller_def quiet_agent_def NextSnoozed_def stray_task_def due_task_def
        tm_after_def utc_def)
  moreover have "\<not> snWatchdog stray_task" "\<not> snOnce stray_task" by (simp_all add: stray_task_def due_task_def empty_snooze_def)
  moreover have "peCron stray_poller c = Inl (Err ''expected 5 fields'')" "aeCtxErr (peAgent stray_poller) w = None" for c w
    by (simp_all add: stray_poller_def quiet_poller_def quiet_env_def)
  ultimately show "\<exists>ag0 x. runSnooze stray_poller stray_task ag0 = (Inl x, ag')"
    if "snooze_loop stray_poller n (quiet_agent [stray_task]) = Some ag'"
    using unparsable_task_blocks_the_loop [of stray_poller "quiet_agent [stray_task]" stray_task _ n ag'] that by simp blast
qed

end
