(* ===== verification/Poller.thy ===== *)
theory Poller
  imports Scheduler Acl "HOL-Library.Sublist"
begin

text \<open>
  The poll loop over new mail (\<open>cmd/kikubot/main.go\<close>): what happens to each message before, during and after
  the agent's run, and the handling of automatic replies.  As in the code, the loop takes its collaborators
  from a record; \<open>default_deps\<close> is the record of the program.
\<close>

section \<open>Helpers\<close>

definition isAutoReply :: "string \<Rightarrow> bool" where
  "isAutoReply v \<longleftrightarrow> (let u = trim_space (to_lower v) in u \<noteq> [] \<and> u \<noteq> ''no'')"

definition addressOnly :: "(string \<Rightarrow> string option) \<Rightarrow> string \<Rightarrow> string" where
  "addressOnly netmail s0 =
     (let s = trim_space s0
      in if s = [] then []
         else case netmail s of Some a \<Rightarrow> to_lower a | None \<Rightarrow> to_lower s)"

abbreviation lock_sign :: string where "lock_sign \<equiv> [CHR 0xF0, CHR 0x9F, CHR 0x94, CHR 0x92]"

definition acl_notice :: "config \<Rightarrow> goerror \<Rightarrow> string" where
  "acl_notice cfg e =
     lock_sign @ '' Agent '' @ AgentName cfg @ '' is not allowed to receive this email: '' @ err_text e @ [nl]"

definition max_turns_notice :: "config \<Rightarrow> string" where
  "max_turns_notice cfg =
     warning_sign @ '' Agent '' @ AgentName cfg @ '' exhausted its turn budget ('' @ show_int (MaxTurns cfg) @
     '' turns) while processing this task and could not complete it. Partial progress has been preserved in '' @
     ''the thread history, but no final answer was produced.'' @ [nl]"

definition retry_notice :: "config \<Rightarrow> nat \<Rightarrow> goerror \<Rightarrow> string" where
  "retry_notice cfg attempt e =
     warning_sign @ '' Agent '' @ AgentName cfg @ '' could not process this email after '' @ show_nat attempt @
     '' attempts (last error: '' @ err_text e @ ''). Marking it as seen to break the retry loop. '' @
     ''Please review the agent logs and resend if the underlying issue has been addressed.'' @ [nl]"

section \<open>Collaborators\<close>

text \<open>
  The operations of \<open>pollerDeps\<close>, on a state \<open>'s\<close>, and last the two the loop calls directly: the lookup of a
  watchdog and the clock.  \<open>pdNotice\<close> stands for the text of the demo reply, which is data.
\<close>

record 's poller_deps =
  pdClearHistory :: "'s \<Rightarrow> 's"
  pdSetHistory :: "message list \<Rightarrow> 's \<Rightarrow> 's"
  pdHistory :: "'s \<Rightarrow> message list"
  pdHandleMessage :: "string \<Rightarrow> email \<Rightarrow> int \<Rightarrow> ('s, unit) io"
  pdAccessControl :: "email \<Rightarrow> ('s, unit) io"
  pdResolveThreadRoot :: "email \<Rightarrow> ('s, string) io"
  pdGetMemory :: "string \<Rightarrow> ('s, memory) io"
  pdMemoryFromReferences :: "string list \<Rightarrow> ('s, memory option) io"
  pdRememberThreadIndex :: "string \<Rightarrow> string \<Rightarrow> string \<Rightarrow> ('s, unit) io"
  pdSaveMemoryHistory :: "message list \<Rightarrow> string \<Rightarrow> ('s, unit) io"
  pdStripAttachmentBlobs :: "message list \<Rightarrow> message list"
  pdIsAdminReviewThread :: "string \<Rightarrow> 's \<Rightarrow> bool \<times> 's"
  pdHandleAdminReviewFollowUp :: "email \<Rightarrow> string \<Rightarrow> ('s, bool) io"
  pdLeaveUnread :: "string \<Rightarrow> string \<Rightarrow> 's \<Rightarrow> 's"
  pdMarkSeen :: "string list \<Rightarrow> ('s, unit) io"
  pdSendBounce :: "email \<Rightarrow> string \<Rightarrow> ('s, unit) io"
  pdAddToSenders :: "string list \<Rightarrow> string \<Rightarrow> string list"
  pdHandleAutoReply :: "email \<Rightarrow> 's \<Rightarrow> 's"
  pdFindWatchdog :: "string \<Rightarrow> 's \<Rightarrow> snooze option result"
  pdNow :: "'s \<Rightarrow> gotime"
  pdNotice :: string

text \<open>The state of the loop: the world, the retries of each Message-Id and the messages to mark as seen.\<close>

record 's poll_state =
  psWorld :: 's
  psRetries :: "string \<Rightarrow> nat"
  psProcessed :: "string list"

section \<open>One message\<close>

definition admin_follow_up :: "'s poller_deps \<Rightarrow> email \<Rightarrow> string \<Rightarrow> 's \<Rightarrow> bool \<times> 's" where
  "admin_follow_up deps e root w =
     (case pdHandleAdminReviewFollowUp deps e root w of
        (Inl x, w1) \<Rightarrow> (False, pdLeaveUnread deps (eMessageId e) root w1)
      | (Inr handled, w1) \<Rightarrow> (handled, if handled then w1 else pdLeaveUnread deps (eMessageId e) root w1))"

text \<open>
  The thread of a message: \<open>Inl b\<close> when the message is not given to the agent (\<open>b\<close> when it is then marked as
  seen), otherwise the thread root, the history for the agent and the memory to save.
\<close>

definition load_thread ::
  "'s poller_deps \<Rightarrow> email \<Rightarrow> 's \<Rightarrow> (bool + string \<times> message list \<times> memory) \<times> 's" where
  "load_thread deps e w =
     (case pdResolveThreadRoot deps e w of
        (Inl x, w1) \<Rightarrow> (Inl False, w1)
      | (Inr root, w1) \<Rightarrow>
          (case pdGetMemory deps root w1 of
             (Inr m, w2) \<Rightarrow>
               if meStatus m = status_admin_review then apfst Inl (admin_follow_up deps e root w2)
               else (Inr (root, meHistory m, ClearStatus m), w2)
           | (Inl x, w2) \<Rightarrow>
               if \<not> err_is x ErrMemoryNotFound then (Inl False, w2)
               else case pdMemoryFromReferences deps (eReferences e) w2 of
                      (Inl y, w3) \<Rightarrow> (Inl False, w3)
                    | (Inr (Some m), w3) \<Rightarrow> (Inr (root, [], m), w3)
                    | (Inr None, w3) \<Rightarrow>
                        (Inr (root, [], \<lparr>meThreadRoot = root, meHistory = [], meStatus = [], meUpdated = None\<rparr>), w3)))"

definition remember_index :: "'s poller_deps \<Rightarrow> email \<Rightarrow> memory \<Rightarrow> 's \<Rightarrow> 's" where
  "remember_index deps e m w =
     (if eThreadIndexConvID e \<noteq> []
      then snd (pdRememberThreadIndex deps (eThreadIndexConvID e) (index_subject e) (meThreadRoot m) w) else w)"

text \<open>The run on a loaded thread, with the save after it; the time the run started goes with the result.\<close>

definition run_message_on :: "config \<Rightarrow> 's poller_deps \<Rightarrow> email \<Rightarrow> message list \<Rightarrow> 's \<Rightarrow> (unit result \<times> gotime) \<times> 's" where
  "run_message_on cfg deps e history w =
     (let w1 = pdSetHistory deps history (pdClearHistory deps w); started = pdNow deps w1
      in case pdHandleMessage deps [] e (MaxTurns cfg) w1 of
           (r, w2) \<Rightarrow>
             ((r, started),
              snd (pdSaveMemoryHistory deps (pdStripAttachmentBlobs deps (pdHistory deps w2)) (eMessageId e) w2)))"

definition notice_unneeded :: "'s poller_deps \<Rightarrow> memory \<Rightarrow> string \<Rightarrow> gotime \<Rightarrow> 's \<Rightarrow> bool" where
  "notice_unneeded deps m root started w \<longleftrightarrow>
     (let status = StatusSince started (Some m)
      in status = status_complete \<or>
         status = status_waiting \<and>
           (case pdFindWatchdog deps root w of Inr (Some wd) \<Rightarrow> True | _ \<Rightarrow> False))"

definition bounce_or_mark :: "'s poller_deps \<Rightarrow> email \<Rightarrow> string \<Rightarrow> 's poll_state \<Rightarrow> 's poll_state" where
  "bounce_or_mark deps e notice st =
     (case pdSendBounce deps e notice (psWorld st) of
        (Inl x, w) \<Rightarrow> st\<lparr>psWorld := w, psProcessed := psProcessed st @ [eMessageId e]\<rparr>
      | (Inr u, w) \<Rightarrow> st\<lparr>psWorld := w\<rparr>)"

definition forget :: "email \<Rightarrow> 's poll_state \<Rightarrow> 's poll_state" where
  "forget e st = st\<lparr>psRetries := (psRetries st)(eMessageId e := 0)\<rparr>"

definition after_max_turns :: "config \<Rightarrow> 's poller_deps \<Rightarrow> email \<Rightarrow> gotime \<Rightarrow> 's poll_state \<Rightarrow> 's poll_state" where
  "after_max_turns cfg deps e started st =
     (case pdGetMemory deps (GetThreadRoot e) (psWorld st) of
        (r, w) \<Rightarrow>
          let st1 = (forget e st)\<lparr>psWorld := w\<rparr>
          in if (case r of Inr m \<Rightarrow> notice_unneeded deps m (GetThreadRoot e) started w | Inl x \<Rightarrow> False)
             then st1\<lparr>psProcessed := psProcessed st1 @ [eMessageId e]\<rparr>
             else bounce_or_mark deps e (max_turns_notice cfg) st1)"

definition after_failure :: "config \<Rightarrow> 's poller_deps \<Rightarrow> email \<Rightarrow> goerror \<Rightarrow> 's poll_state \<Rightarrow> 's poll_state" where
  "after_failure cfg deps e x st =
     (let attempt = Suc (psRetries st (eMessageId e));
          st1 = st\<lparr>psRetries := (psRetries st)(eMessageId e := attempt)\<rparr>
      in if MaxEmailRetries cfg \<le> int attempt
         then forget e (bounce_or_mark deps e (retry_notice cfg attempt x) st1) else st1)"

definition after_run ::
  "config \<Rightarrow> 's poller_deps \<Rightarrow> email \<Rightarrow> string \<Rightarrow> unit result \<Rightarrow> gotime \<Rightarrow> 's poll_state \<Rightarrow> 's poll_state" where
  "after_run cfg deps e root r started st =
     (case pdIsAdminReviewThread deps root (psWorld st) of
        (admin, w) \<Rightarrow>
          let st1 = st\<lparr>psWorld := w\<rparr>
          in if admin then (forget e st1)\<lparr>psWorld := pdLeaveUnread deps (eMessageId e) root w\<rparr>
             else case r of
                    Inr u \<Rightarrow> (forget e st1)\<lparr>psProcessed := psProcessed st1 @ [eMessageId e]\<rparr>
                  | Inl x \<Rightarrow>
                      if err_is x ErrMaxTurns then after_max_turns cfg deps e started st1
                      else after_failure cfg deps e x st1)"

definition handle_task :: "config \<Rightarrow> 's poller_deps \<Rightarrow> email \<Rightarrow> 's poll_state \<Rightarrow> 's poll_state" where
  "handle_task cfg deps e st =
     (case load_thread deps e (psWorld st) of
        (Inl seen, w1) \<Rightarrow> st\<lparr>psWorld := w1, psProcessed := psProcessed st @ (if seen then [eMessageId e] else [])\<rparr>
      | (Inr (root, history, m), w1) \<Rightarrow>
          (case pdSaveMemoryHistory deps (meHistory m) (eMessageId e) (remember_index deps e m w1) of
             (Inl x, w2) \<Rightarrow> st\<lparr>psWorld := w2\<rparr>
           | (Inr u, w2) \<Rightarrow>
               (case run_message_on cfg deps e history w2 of
                  ((r, started), w3) \<Rightarrow> after_run cfg deps e root r started (st\<lparr>psWorld := w3\<rparr>))))"

definition process_email :: "config \<Rightarrow> 's poller_deps \<Rightarrow> email \<Rightarrow> 's poll_state \<Rightarrow> 's poll_state" where
  "process_email cfg deps e0 st =
     (let e = e0\<lparr>eSenders := pdAddToSenders deps (eSenders e0) (eFrom e0)\<rparr>
      in if isAutoReply (eAutoSubmitted e)
         then st\<lparr>psWorld := snd (pdMarkSeen deps [eMessageId e] (pdHandleAutoReply deps e (psWorld st)))\<rparr>
         else case pdAccessControl deps e (psWorld st) of
                (Inl x, w1) \<Rightarrow> st\<lparr>psWorld := snd (pdSendBounce deps e (acl_notice cfg x) w1)\<rparr>
              | (Inr u, w1) \<Rightarrow>
                  if LLMKeyMissing cfg
                  then (case pdSendBounce deps e (pdNotice deps) w1 of
                          (Inl x, w2) \<Rightarrow> st\<lparr>psWorld := snd (pdMarkSeen deps [eMessageId e] w2)\<rparr>
                        | (Inr u, w2) \<Rightarrow> st\<lparr>psWorld := w2\<rparr>)
                  else handle_task cfg deps e (st\<lparr>psWorld := w1\<rparr>))"

definition processNewEmails ::
  "config \<Rightarrow> 's poller_deps \<Rightarrow> email list \<Rightarrow> (string \<Rightarrow> nat) \<Rightarrow> 's \<Rightarrow> (string \<Rightarrow> nat) \<times> 's" where
  "processNewEmails cfg deps es retries w =
     (let st = fold (process_email cfg deps) es \<lparr>psWorld = w, psRetries = retries, psProcessed = []\<rparr>
      in (psRetries st, if psProcessed st \<noteq> [] then snd (pdMarkSeen deps (psProcessed st) (psWorld st)) else psWorld st))"

section \<open>Automatic replies\<close>

text \<open>The first message of the inbox among a list of ids; an id that cannot be looked up is passed over.\<close>

fun first_hit :: "fetch \<Rightarrow> string list \<Rightarrow> email option" where
  "first_hit get [] = None"
| "first_hit get (i # is) =
     (if i = [] then first_hit get is
      else case get [i] of Inr (e # es) \<Rightarrow> Some e | _ \<Rightarrow> first_hit get is)"

definition parents_of :: "email \<Rightarrow> string list" where
  "parents_of sent = (if eInReplyTo sent \<noteq> [] then [eInReplyTo sent] else []) @ rev (eReferences sent)"

fun upstream_of_sent :: "fetch \<Rightarrow> (string \<Rightarrow> email option result) \<Rightarrow> string list \<Rightarrow> email option" where
  "upstream_of_sent get sent [] = None"
| "upstream_of_sent get sent (i # is) =
     (if i = [] then upstream_of_sent get sent is
      else case sent i of
             Inr (Some m) \<Rightarrow>
               (case first_hit get (parents_of m) of
                  Some e \<Rightarrow> Some e
                | None \<Rightarrow> upstream_of_sent get sent is)
           | _ \<Rightarrow> upstream_of_sent get sent is)"

definition find_upstream :: "fetch \<Rightarrow> (string \<Rightarrow> email option result) \<Rightarrow> string list \<Rightarrow> email option" where
  "find_upstream get sent refs =
     (case first_hit get (rev refs) of Some e \<Rightarrow> Some e | None \<Rightarrow> upstream_of_sent get sent (rev refs))"

definition upstream_notice :: "config \<Rightarrow> gotime \<Rightarrow> email \<Rightarrow> email \<Rightarrow> email" where
  "upstream_notice cfg now up e =
     empty_email\<lparr>eTo := [eFrom up],
       eSubject := (if ReplySubject (eSubject up) = [] then DefaultSubject cfg else ReplySubject (eSubject up)),
       eContent := ''I was unable to complete your request. A downstream coworker declined part of the task '' @
                   ''with the following response:'' @ [nl, nl] @ trim_space (eContent e),
       eInReplyTo := eMessageId up, eReferences := eReferences up @ [eMessageId up], eDate := now,
       eAutoSubmitted := ''auto-replied''\<rparr>"

definition notify_upstream :: "('x, 't) poller_env \<Rightarrow> email \<Rightarrow> 'x world \<Rightarrow> 'x world" where
  "notify_upstream pe e w =
     (case find_upstream (peFetch pe w) (peSentEmail pe w) (eReferences e) of
        None \<Rightarrow> w
      | Some up \<Rightarrow>
          if equal_fold (addressOnly (aeNetMail (peAgent pe)) (eFrom e)) (addressOnly (aeNetMail (peAgent pe)) (eFrom up))
          then w
          else snd (peSendEmail pe (upstream_notice (peCfg pe) (peNow pe w) up e) w))"

definition abort_note :: "email \<Rightarrow> message" where
  "abort_note e =
     Fresh User [BText (''[SYSTEM] Task aborted '' @ em_dash @
       '' coworker returned an auto-reply rejecting the request:'' @ [nl, nl] @ trim_space (eContent e))]"

definition record_abort :: "sdk \<Rightarrow> email \<Rightarrow> string \<Rightarrow> memory_dir \<Rightarrow> memory_dir" where
  "record_abort sdk e root d =
     (case memory_or_new d root of
        Inl x \<Rightarrow> d
      | Inr m \<Rightarrow> snd (SaveMemory sdk (ClearStatus (AddMessage [abort_note e] m)) d))"

definition handleAutoReply :: "('x, 't) poller_env \<Rightarrow> email \<Rightarrow> 'x world \<Rightarrow> 'x world" where
  "handleAutoReply pe e w =
     (let root = (case ResolveThreadRoot e (wdMem w) of Inl x \<Rightarrow> GetThreadRoot e | Inr r \<Rightarrow> r);
          w1 = notify_upstream pe e w
      in if root = [] then w1
         else let w2 = snd (on_snooze (AbortThreadSnoozes root) w1)
              in w2\<lparr>wdMem := record_abort (peSdk pe) e root (wdMem w2)\<rparr>)"

section \<open>The program's collaborators and the poll\<close>

definition isAdminReviewThread :: "memory_dir \<Rightarrow> string \<Rightarrow> bool" where
  "isAdminReviewThread d root = (case GetMemory d root of Inr m \<Rightarrow> meStatus m = status_admin_review | Inl x \<Rightarrow> False)"

definition default_deps :: "('x, 't) poller_env \<Rightarrow> string \<Rightarrow> 'x world agent poller_deps" where
  "default_deps pe demo_notice =
     \<lparr>pdClearHistory = ClearHistory, pdSetHistory = SetHistory, pdHistory = agHistory,
      pdHandleMessage = (\<lambda>pre e n. HandleMessage (peAgent pe) (peFresh pe) pre e n (peTools pe)),
      pdAccessControl = (\<lambda>e ag. (AccessControl (peCfg pe) (aeNetMail (peAgent pe)) (peFetch pe (agWorld ag)) e, ag)),
      pdResolveThreadRoot = (\<lambda>e ag. (ResolveThreadRoot e (wdMem (agWorld ag)), ag)),
      pdGetMemory = (\<lambda>root ag. (GetMemory (wdMem (agWorld ag)) root, ag)),
      pdMemoryFromReferences = (\<lambda>refs ag.
        on_world (on_mem (MemoryFromReferences (peSdk pe) (aeConverters (peAgent pe)) (peFetch pe (agWorld ag)) refs)) ag),
      pdRememberThreadIndex = (\<lambda>c s root. on_world (on_mem (RememberThreadIndex c s root))),
      pdSaveMemoryHistory = (\<lambda>h i. on_world (save_history pe h i)),
      pdStripAttachmentBlobs = StripAttachmentBlobs,
      pdIsAdminReviewThread = (\<lambda>root ag. (isAdminReviewThread (wdMem (agWorld ag)) root, ag)),
      pdHandleAdminReviewFollowUp = (\<lambda>e root ag. (Inr False, ag)),
      pdLeaveUnread = (\<lambda>i root ag. ag),
      pdMarkSeen = (\<lambda>is. on_world (peMarkSeen pe is)),
      pdSendBounce = (\<lambda>e notice. on_world (peSendBounce pe e notice)),
      pdAddToSenders = AddToSenders (aeNetMail (peAgent pe)),
      pdHandleAutoReply = (\<lambda>e ag. ag\<lparr>agWorld := handleAutoReply pe e (agWorld ag)\<rparr>),
      pdFindWatchdog = (\<lambda>root ag. FindWatchdogByThread root (wdSnooze (agWorld ag))),
      pdNow = (\<lambda>ag. peNow pe (agWorld ag)),
      pdNotice = demo_notice\<rparr>"

text \<open>
  A poll: the new mail, then what is due.  \<open>new_mail\<close> is \<open>GetNewEmails\<close>; when it fails nothing else is done.
\<close>

definition process ::
  "('x, 't) poller_env \<Rightarrow> string \<Rightarrow> ('x world, email list) io \<Rightarrow> nat \<Rightarrow> (string \<Rightarrow> nat) \<Rightarrow> 'x world agent \<Rightarrow>
   ((string \<Rightarrow> nat) \<times> 'x world agent) option" where
  "process pe demo_notice new_mail fuel retries ag =
     (case on_world new_mail ag of
        (Inl x, ag1) \<Rightarrow> Some (retries, ag1)
      | (Inr es, ag1) \<Rightarrow>
          (case (if es \<noteq> [] then processNewEmails (peCfg pe) (default_deps pe demo_notice) es retries ag1
                 else (retries, ag1)) of
             (retries', ag2) \<Rightarrow> map_option (Pair retries') (snooze_loop pe fuel ag2)))"

section \<open>Which mail reaches the model\<close>

text \<open>
  \<open>runs\<close> reads off a world the ids of the messages given to the agent: \<open>HandleMessage\<close> adds one, nothing else
  does.  \<open>verdict\<close> is the access control of a message.
\<close>

definition logs_runs :: "('s \<Rightarrow> string list) \<Rightarrow> 's poller_deps \<Rightarrow> bool" where
  "logs_runs runs deps \<longleftrightarrow>
     (\<forall>pre e n w. runs (snd (pdHandleMessage deps pre e n w)) = runs w @ [eMessageId e]) \<and>
     (\<forall>h w. runs (pdClearHistory deps w) = runs w \<and> runs (pdSetHistory deps h w) = runs w) \<and>
     (\<forall>e w. runs (snd (pdAccessControl deps e w)) = runs w \<and> runs (snd (pdResolveThreadRoot deps e w)) = runs w) \<and>
     (\<forall>x w. runs (snd (pdGetMemory deps x w)) = runs w \<and> runs (snd (pdIsAdminReviewThread deps x w)) = runs w) \<and>
     (\<forall>xs w. runs (snd (pdMemoryFromReferences deps xs w)) = runs w \<and> runs (snd (pdMarkSeen deps xs w)) = runs w) \<and>
     (\<forall>a b c w. runs (snd (pdRememberThreadIndex deps a b c w)) = runs w) \<and>
     (\<forall>h i w. runs (snd (pdSaveMemoryHistory deps h i w)) = runs w) \<and>
     (\<forall>e r w. runs (snd (pdHandleAdminReviewFollowUp deps e r w)) = runs w) \<and>
     (\<forall>i r w. runs (pdLeaveUnread deps i r w) = runs w) \<and>
     (\<forall>e m w. runs (snd (pdSendBounce deps e m w)) = runs w) \<and>
     (\<forall>e w. runs (pdHandleAutoReply deps e w) = runs w)"

definition with_sender :: "'s poller_deps \<Rightarrow> email \<Rightarrow> email" where
  "with_sender deps e = e\<lparr>eSenders := pdAddToSenders deps (eSenders e) (eFrom e)\<rparr>"

definition admitted :: "config \<Rightarrow> 's poller_deps \<Rightarrow> (email \<Rightarrow> bool) \<Rightarrow> email \<Rightarrow> bool" where
  "admitted cfg deps verdict e \<longleftrightarrow>
     \<not> isAutoReply (eAutoSubmitted e) \<and> verdict (with_sender deps e) \<and> \<not> LLMKeyMissing cfg"

lemma runs_kept:
  assumes "logs_runs runs deps"
  shows "runs (pdClearHistory deps w) = runs w" "runs (pdSetHistory deps h w) = runs w"
  "runs (pdLeaveUnread deps i x w) = runs w" "runs (pdHandleAutoReply deps e w) = runs w"
  "pdAccessControl deps e w = (ra, w1) \<Longrightarrow> runs w1 = runs w"
  "pdResolveThreadRoot deps e w = (rb, w1) \<Longrightarrow> runs w1 = runs w"
  "pdGetMemory deps x w = (rc, w1) \<Longrightarrow> runs w1 = runs w"
  "pdIsAdminReviewThread deps x w = (rd, w1) \<Longrightarrow> runs w1 = runs w"
  "pdMemoryFromReferences deps xs w = (re, w1) \<Longrightarrow> runs w1 = runs w"
  "pdMarkSeen deps xs w = (rf, w1) \<Longrightarrow> runs w1 = runs w"
  "pdRememberThreadIndex deps a b c w = (rg, w1) \<Longrightarrow> runs w1 = runs w"
  "pdSaveMemoryHistory deps h i w = (rh, w1) \<Longrightarrow> runs w1 = runs w"
  "pdHandleAdminReviewFollowUp deps e x w = (ri, w1) \<Longrightarrow> runs w1 = runs w"
  "pdSendBounce deps e m w = (rj, w1) \<Longrightarrow> runs w1 = runs w"
  "pdHandleMessage deps pre e n w = (rk, w1) \<Longrightarrow> runs w1 = runs w @ [eMessageId e]"
  using assms unfolding logs_runs_def by (metis snd_conv)+

lemma runs_kept_snd:
  assumes "logs_runs runs deps"
  shows "runs (snd (pdMarkSeen deps xs w)) = runs w" "runs (snd (pdSendBounce deps e m w)) = runs w"
    "runs (snd (pdSaveMemoryHistory deps h i w)) = runs w"
  using assms by (simp_all add: logs_runs_def)

lemma load_thread_runs:
  assumes "logs_runs runs deps"
  shows "load_thread deps e w = (r, w1) \<Longrightarrow> runs w1 = runs w"
  by (auto simp: load_thread_def admin_follow_up_def runs_kept(3) [OF assms] dest!: runs_kept(5-) [OF assms]
      split: prod.splits sum.splits if_splits option.splits)

lemma after_run_runs:
  assumes "logs_runs runs deps"
  shows "runs (psWorld (after_run cfg deps e root r started st)) = runs (psWorld st)"
proof -
  have bounce: "runs (psWorld (bounce_or_mark deps e m st)) = runs (psWorld st)" for m st
    by (auto simp: bounce_or_mark_def dest!: runs_kept(14) [OF assms] split: prod.splits sum.splits)
  have forget: "psWorld (forget e st) = psWorld st" for st by (simp add: forget_def)
  have turns: "runs (psWorld (after_max_turns cfg deps e started st)) = runs (psWorld st)" for st
    by (auto simp: after_max_turns_def Let_def bounce dest!: runs_kept(7) [OF assms] split: prod.splits)
  have failure: "runs (psWorld (after_failure cfg deps e x st)) = runs (psWorld st)" for x st
    by (simp add: after_failure_def Let_def bounce forget)
  show ?thesis
    by (auto simp: after_run_def Let_def turns failure forget runs_kept(3) [OF assms]
        dest!: runs_kept(8) [OF assms] split: prod.splits sum.splits)
qed

lemma handle_task_runs:
  assumes "logs_runs runs deps"
  shows "runs (psWorld (handle_task cfg deps e st)) = runs (psWorld st) \<or>
    runs (psWorld (handle_task cfg deps e st)) = runs (psWorld st) @ [eMessageId e]"
proof -
  have index: "runs (remember_index deps e m w) = runs w" for m w
    using assms by (simp add: remember_index_def logs_runs_def)
  have run: "runs w1 = runs w @ [eMessageId e]" if "run_message_on cfg deps e h w = (rt, w1)" for h w rt w1
    using that by (auto simp: run_message_on_def Let_def runs_kept_snd(3) [OF assms] runs_kept(1,2) [OF assms]
        dest!: runs_kept(15) [OF assms] split: prod.splits)
  show ?thesis
    by (auto simp: handle_task_def after_run_runs [OF assms] index dest!: load_thread_runs [OF assms] run
        runs_kept(12) [OF assms] split: prod.splits sum.splits)
qed

lemma process_email_runs:
  assumes "logs_runs runs deps" "\<forall>e w. is_ok (fst (pdAccessControl deps e w)) = verdict e"
  shows "\<exists>ids. runs (psWorld (process_email cfg deps e st)) = runs (psWorld st) @ ids \<and>
    subseq ids (if admitted cfg deps verdict e then [eMessageId e] else [])"
proof -
  let ?e = "with_sender deps e"
  obtain r w1 where ac: "pdAccessControl deps ?e (psWorld st) = (r, w1)" by (metis prod.collapse)
  have verdict: "is_ok r = verdict ?e" using assms(2) ac by (metis fst_conv)
  have w1: "runs w1 = runs (psWorld st)" by (rule runs_kept(5) [OF assms(1) ac])
  have fields: "eAutoSubmitted ?e = eAutoSubmitted e" "eMessageId ?e = eMessageId e" by (simp_all add: with_sender_def)
  have p: "process_email cfg deps e st =
      (if isAutoReply (eAutoSubmitted e)
       then st\<lparr>psWorld := snd (pdMarkSeen deps [eMessageId ?e] (pdHandleAutoReply deps ?e (psWorld st)))\<rparr>
       else case r of
              Inl x \<Rightarrow> st\<lparr>psWorld := snd (pdSendBounce deps ?e (acl_notice cfg x) w1)\<rparr>
            | Inr u \<Rightarrow>
                if LLMKeyMissing cfg
                then (case pdSendBounce deps ?e (pdNotice deps) w1 of
                        (Inl x, w2) \<Rightarrow> st\<lparr>psWorld := snd (pdMarkSeen deps [eMessageId ?e] w2)\<rparr>
                      | (Inr u, w2) \<Rightarrow> st\<lparr>psWorld := w2\<rparr>)
                else handle_task cfg deps ?e (st\<lparr>psWorld := w1\<rparr>))"
    using ac fields by (simp add: process_email_def with_sender_def [symmetric] Let_def)
  show ?thesis
  proof (cases "admitted cfg deps verdict e")
    case True
    then obtain u where "r = Inr u" "\<not> isAutoReply (eAutoSubmitted e)" "\<not> LLMKeyMissing cfg"
      using verdict by (auto simp: admitted_def is_ok_iff)
    with True p handle_task_runs [OF assms(1), of cfg ?e "st\<lparr>psWorld := w1\<rparr>"] w1 fields show ?thesis by auto
  next
    case False
    then have "runs (psWorld (process_email cfg deps e st)) = runs (psWorld st)"
      using p verdict w1 by (auto simp: admitted_def runs_kept_snd [OF assms(1)] runs_kept(4) [OF assms(1)]
          dest!: runs_kept(14) [OF assms(1)] split: sum.splits prod.splits)
    with False show ?thesis by simp
  qed
qed

lemma process_emails_runs:
  assumes "logs_runs runs deps" "\<forall>e w. is_ok (fst (pdAccessControl deps e w)) = verdict e"
  shows "\<exists>ids. runs (psWorld (fold (process_email cfg deps) es st)) = runs (psWorld st) @ ids \<and>
    subseq ids (map eMessageId (filter (admitted cfg deps verdict) es))"
proof (induction es arbitrary: st)
  case (Cons e es)
  obtain ids where ids: "runs (psWorld (process_email cfg deps e st)) = runs (psWorld st) @ ids"
    "subseq ids (if admitted cfg deps verdict e then [eMessageId e] else [])"
    using process_email_runs [OF assms] by blast
  obtain js where js: "runs (psWorld (fold (process_email cfg deps) es (process_email cfg deps e st))) =
      runs (psWorld (process_email cfg deps e st)) @ js"
    "subseq js (map eMessageId (filter (admitted cfg deps verdict) es))"
    using Cons.IH by blast
  from ids(2) js(2) have "subseq (ids @ js) (map eMessageId (filter (admitted cfg deps verdict) (e # es)))"
    using list_emb_append_mono by fastforce
  with ids(1) js(1) show ?case by auto
qed simp

text \<open>C1. What reaches the model: a poll gives it, in their order and each at most once, only messages that are no
  automatic replies and that the access control admits, and none at all while the model has no key.\<close>

theorem only_admitted_mail_reaches_the_model:
  assumes "logs_runs runs deps" "\<forall>e w. is_ok (fst (pdAccessControl deps e w)) = verdict e"
    "processNewEmails cfg deps es retries w = (retries', w')"
  shows "\<exists>ids. runs w' = runs w @ ids \<and> subseq ids (map eMessageId (filter (admitted cfg deps verdict) es))"
proof -
  let ?st = "\<lparr>psWorld = w, psRetries = retries, psProcessed = []\<rparr>"
  have "runs w' = runs (psWorld (fold (process_email cfg deps) es ?st))"
    using assms(3) by (auto simp: processNewEmails_def Let_def runs_kept_snd(1) [OF assms(1)] split: if_splits)
  with process_emails_runs [OF assms(1,2), of cfg es ?st] show ?thesis by auto
qed

text \<open>Collaborators for the instances: only messages from \<open>ann\<close> are admitted, and every run fails.\<close>

definition from_ann :: "email \<Rightarrow> bool" where
  "from_ann e \<longleftrightarrow> eFrom e = ''ann@x.org''"

definition failing_deps :: "(string list \<times> nat) poller_deps" where
  "failing_deps =
     \<lparr>pdClearHistory = (\<lambda>w. w), pdSetHistory = (\<lambda>h w. w), pdHistory = (\<lambda>w. []),
      pdHandleMessage = (\<lambda>pre e n (l, b). (Inl (Err ''503''), (l @ [eMessageId e], b))),
      pdAccessControl = (\<lambda>e w. (if from_ann e then ok else Inl (Err ''not in whitelist''), w)),
      pdResolveThreadRoot = (\<lambda>e w. (Inr (GetThreadRoot e), w)),
      pdGetMemory = (\<lambda>root w. (Inl ErrMemoryNotFound, w)),
      pdMemoryFromReferences = (\<lambda>refs w. (Inr None, w)),
      pdRememberThreadIndex = (\<lambda>c s root w. (ok, w)),
      pdSaveMemoryHistory = (\<lambda>h i w. (ok, w)),
      pdStripAttachmentBlobs = (\<lambda>h. h),
      pdIsAdminReviewThread = (\<lambda>root w. (False, w)),
      pdHandleAdminReviewFollowUp = (\<lambda>e root w. (Inr False, w)),
      pdLeaveUnread = (\<lambda>i root w. w),
      pdMarkSeen = (\<lambda>is w. (ok, w)),
      pdSendBounce = (\<lambda>e notice (l, b). (ok, (l, Suc b))),
      pdAddToSenders = (\<lambda>senders from. senders @ [from]),
      pdHandleAutoReply = (\<lambda>e w. w),
      pdFindWatchdog = (\<lambda>root w. Inr None),
      pdNow = (\<lambda>w. utc 0),
      pdNotice = []\<rparr>"

definition ann_mail :: email where
  "ann_mail = empty_email\<lparr>eFrom := ''ann@x.org'', eMessageId := ''<a1>''\<rparr>"

definition bob_mail :: email where
  "bob_mail = empty_email\<lparr>eFrom := ''bob@y.org'', eMessageId := ''<b1>''\<rparr>"

lemma only_admitted_mail_reaches_the_model_witness:
  "subseq (fst (snd (processNewEmails startup_config failing_deps [bob_mail, ann_mail] (\<lambda>i. 0) ([], 0)))) [''<a1>''] \<and>
   fst (snd (processNewEmails startup_config failing_deps [bob_mail, ann_mail] (\<lambda>i. 0) ([], 0))) = [''<a1>'']"
proof
  have logs: "logs_runs fst failing_deps"
    by (simp add: logs_runs_def failing_deps_def split: prod.split)
  have verdict: "\<forall>e w. is_ok (fst (pdAccessControl failing_deps e w)) = from_ann e"
    by (simp add: failing_deps_def)
  have "isAutoReply [] = False" by code_simp
  then have "filter (admitted startup_config failing_deps from_ann) [bob_mail, ann_mail] = [ann_mail]"
    by (simp add: admitted_def from_ann_def with_sender_def bob_mail_def ann_mail_def empty_email_def startup_config_def)
  with only_admitted_mail_reaches_the_model [OF logs verdict prod.collapse [symmetric],
      of startup_config "[bob_mail, ann_mail]" "\<lambda>i. 0" "([], 0)"]
  show "subseq (fst (snd (processNewEmails startup_config failing_deps [bob_mail, ann_mail] (\<lambda>i. 0) ([], 0)))) [''<a1>'']"
    by (auto simp: ann_mail_def)
  show "fst (snd (processNewEmails startup_config failing_deps [bob_mail, ann_mail] (\<lambda>i. 0) ([], 0))) = [''<a1>'']"
    by code_simp
qed

section \<open>Mail that keeps failing\<close>

text \<open>Polls that each find the same message.\<close>

fun polls :: "config \<Rightarrow> 's poller_deps \<Rightarrow> email \<Rightarrow> nat \<Rightarrow> (string \<Rightarrow> nat) \<times> 's \<Rightarrow> (string \<Rightarrow> nat) \<times> 's" where
  "polls cfg deps e 0 (retries, w) = (retries, w)"
| "polls cfg deps e (Suc n) (retries, w) =
     (case polls cfg deps e n (retries, w) of (retries1, w1) \<Rightarrow> processNewEmails cfg deps [e] retries1 w1)"

text \<open>
  A message that is admitted and whose every run fails with an error other than the turn budget; \<open>bounced\<close>
  counts the notices sent.
\<close>

definition keeps_failing :: "('s \<Rightarrow> nat) \<Rightarrow> config \<Rightarrow> 's poller_deps \<Rightarrow> email \<Rightarrow> bool" where
  "keeps_failing bounced cfg deps e \<longleftrightarrow>
     (let e' = with_sender deps e in
      \<not> isAutoReply (eAutoSubmitted e) \<and> \<not> LLMKeyMissing cfg \<and>
      (\<forall>w. \<exists>w1. pdAccessControl deps e' w = (ok, w1) \<and> bounced w1 = bounced w) \<and>
      (\<forall>w. \<exists>t w1. load_thread deps e' w = (Inr t, w1) \<and> bounced w1 = bounced w) \<and>
      (\<forall>m w. bounced (remember_index deps e' m w) = bounced w) \<and>
      (\<forall>h w. \<exists>w1. pdSaveMemoryHistory deps h (eMessageId e) w = (ok, w1) \<and> bounced w1 = bounced w) \<and>
      (\<forall>h w. \<exists>x t w1. run_message_on cfg deps e' h w = ((Inl x, t), w1) \<and> \<not> err_is x ErrMaxTurns \<and>
         bounced w1 = bounced w) \<and>
      (\<forall>r w. \<exists>w1. pdIsAdminReviewThread deps r w = (False, w1) \<and> bounced w1 = bounced w) \<and>
      (\<forall>m w. bounced (snd (pdSendBounce deps e' m w)) = Suc (bounced w)) \<and>
      (\<forall>is w. bounced (snd (pdMarkSeen deps is w)) = bounced w))"

lemma failing_round:
  assumes "keeps_failing bounced cfg deps e" "processNewEmails cfg deps [e] retries w = (retries', w')"
  shows "(if MaxEmailRetries cfg \<le> int (Suc (retries (eMessageId e)))
          then retries' (eMessageId e) = 0 \<and> bounced w' = Suc (bounced w)
          else retries' (eMessageId e) = Suc (retries (eMessageId e)) \<and> bounced w' = bounced w)"
proof -
  let ?e = "with_sender deps e" and ?st = "\<lparr>psWorld = w, psRetries = retries, psProcessed = []\<rparr>"
  have id: "eMessageId ?e = eMessageId e" by (simp add: with_sender_def)
  have auto: "\<not> isAutoReply (eAutoSubmitted ?e)" "\<not> LLMKeyMissing cfg"
    using assms(1) by (simp_all add: keeps_failing_def Let_def with_sender_def)
  obtain w1 where w1: "pdAccessControl deps ?e w = (ok, w1)" "bounced w1 = bounced w"
    using assms(1) unfolding keeps_failing_def Let_def by blast
  obtain root h m w2 where w2: "load_thread deps ?e w1 = (Inr (root, h, m), w2)" "bounced w2 = bounced w1"
    using assms(1) unfolding keeps_failing_def Let_def by (metis prod_cases3)
  have w2': "bounced (remember_index deps ?e m w2) = bounced w2"
    using assms(1) unfolding keeps_failing_def Let_def by blast
  obtain w3 where w3: "pdSaveMemoryHistory deps (meHistory m) (eMessageId e) (remember_index deps ?e m w2) = (ok, w3)"
    "bounced w3 = bounced w2"
    using assms(1) w2' unfolding keeps_failing_def Let_def by metis
  obtain x t w4 where w4: "run_message_on cfg deps ?e h w3 = ((Inl x, t), w4)" "\<not> err_is x ErrMaxTurns"
    "bounced w4 = bounced w3"
    using assms(1) unfolding keeps_failing_def Let_def by blast
  obtain w5 where w5: "pdIsAdminReviewThread deps root w4 = (False, w5)" "bounced w5 = bounced w4"
    using assms(1) unfolding keeps_failing_def Let_def by blast
  have bounce: "bounced (snd (pdSendBounce deps ?e n v)) = Suc (bounced v)" for n v
    using assms(1) unfolding keeps_failing_def Let_def by blast
  have seen: "bounced (snd (pdMarkSeen deps is v)) = bounced v" for "is" v
    using assms(1) unfolding keeps_failing_def Let_def by blast
  have round: "process_email cfg deps e ?st = after_failure cfg deps ?e x (?st\<lparr>psWorld := w5\<rparr>)"
    using auto w1(1) w2(1) w3(1) w4(1,2) w5(1)
    by (simp add: process_email_def with_sender_def [symmetric] Let_def handle_task_def after_run_def id)
  have fail: "(let st' = after_failure cfg deps ?e x (?st\<lparr>psWorld := w5\<rparr>) in
      if MaxEmailRetries cfg \<le> int (Suc (retries (eMessageId e)))
      then psRetries st' (eMessageId e) = 0 \<and> bounced (psWorld st') = Suc (bounced w5)
      else psRetries st' (eMessageId e) = Suc (retries (eMessageId e)) \<and> bounced (psWorld st') = bounced w5)"
    using bounce by (auto simp: after_failure_def Let_def id forget_def bounce_or_mark_def split: prod.splits sum.splits)
      (metis snd_conv)+
  have "retries' = psRetries (process_email cfg deps e ?st)" "bounced w' = bounced (psWorld (process_email cfg deps e ?st))"
    using assms(2) seen by (auto simp: processNewEmails_def Let_def split: if_splits)
  with round fail w1(2) w2(2) w3(2) w4(3) w5(2) show ?thesis by (simp add: Let_def)
qed

lemma failing_rounds:
  assumes "keeps_failing bounced cfg deps e" "retries (eMessageId e) = 0"
  shows "int n < MaxEmailRetries cfg \<Longrightarrow> polls cfg deps e n (retries, w) = (retries', w') \<Longrightarrow>
    retries' (eMessageId e) = n \<and> bounced w' = bounced w"
proof (induction n arbitrary: retries' w')
  case 0
  then show ?case using assms(2) by simp
next
  case (Suc n)
  obtain r1 w1 where p: "polls cfg deps e n (retries, w) = (r1, w1)" by (metis prod.collapse)
  from Suc.IH [OF _ p] Suc.prems(1) have "r1 (eMessageId e) = n" "bounced w1 = bounced w" by simp_all
  with failing_round [OF assms(1), of r1 w1 retries' w'] Suc.prems p show ?case by simp
qed

text \<open>C3. A message whose runs keep failing is not retried for ever: for every number of polls below the retry
  budget the failures are counted and nobody is told, and the poll that reaches the budget sends one notice and
  forgets the count.\<close>

theorem failing_mail_is_given_up:
  assumes "keeps_failing bounced cfg deps e" "retries (eMessageId e) = 0" "1 \<le> MaxEmailRetries cfg"
    "polls cfg deps e n (retries, w) = (retries', w')" "int n \<le> MaxEmailRetries cfg"
  shows "if int n = MaxEmailRetries cfg
    then retries' (eMessageId e) = 0 \<and> bounced w' = Suc (bounced w)
    else retries' (eMessageId e) = n \<and> bounced w' = bounced w"
proof (cases "int n = MaxEmailRetries cfg")
  case True
  then obtain k where k: "n = Suc k" using assms(3) by (cases n) simp_all
  obtain r1 w1 where p: "polls cfg deps e k (retries, w) = (r1, w1)" by (metis prod.collapse)
  from failing_rounds [OF assms(1,2) _ p] True k have "r1 (eMessageId e) = k" "bounced w1 = bounced w" by simp_all
  with failing_round [OF assms(1), of r1 w1 retries' w'] assms(4) p k True show ?thesis by simp
next
  case False
  with failing_rounds [OF assms(1,2) _ assms(4)] assms(5) show ?thesis by simp
qed

lemma failing_mail_is_given_up_witness:
  "snd (snd (polls (startup_config\<lparr>MaxEmailRetries := 3\<rparr>) failing_deps ann_mail 3 (\<lambda>i. 0, ([], 0)))) = 1"
proof -
  have auto: "isAutoReply [] = False" by code_simp
  have "keeps_failing snd (startup_config\<lparr>MaxEmailRetries := 3\<rparr>) failing_deps ann_mail"
    by (simp add: keeps_failing_def with_sender_def ann_mail_def empty_email_def auto)
      (simp add: failing_deps_def from_ann_def load_thread_def remember_index_def run_message_on_def startup_config_def
        split: prod.split)
  from failing_mail_is_given_up [OF this _ _ prod.collapse [symmetric], of "\<lambda>i. 0" 3 "([], 0)"]
  show ?thesis by simp
qed

section \<open>The program's own collaborators\<close>

lemma default_deps_simps [simp]:
  "pdClearHistory (default_deps pe n) = ClearHistory" "pdSetHistory (default_deps pe n) = SetHistory"
  "pdHistory (default_deps pe n) = agHistory"
  "pdHandleMessage (default_deps pe n) pre e k ag = HandleMessage (peAgent pe) (peFresh pe) pre e k (peTools pe) ag"
  "pdAccessControl (default_deps pe n) e ag =
     (AccessControl (peCfg pe) (aeNetMail (peAgent pe)) (peFetch pe (agWorld ag)) e, ag)"
  "pdResolveThreadRoot (default_deps pe n) e ag = (ResolveThreadRoot e (wdMem (agWorld ag)), ag)"
  "pdGetMemory (default_deps pe n) root ag = (GetMemory (wdMem (agWorld ag)) root, ag)"
  "pdMemoryFromReferences (default_deps pe n) refs ag =
     on_world (on_mem (MemoryFromReferences (peSdk pe) (aeConverters (peAgent pe)) (peFetch pe (agWorld ag)) refs)) ag"
  "pdSaveMemoryHistory (default_deps pe n) h i ag = on_world (save_history pe h i) ag"
  "pdStripAttachmentBlobs (default_deps pe n) = StripAttachmentBlobs"
  "pdIsAdminReviewThread (default_deps pe n) root ag = (isAdminReviewThread (wdMem (agWorld ag)) root, ag)"
  "pdLeaveUnread (default_deps pe n) i root ag = ag"
  "pdMarkSeen (default_deps pe n) is ag = on_world (peMarkSeen pe is) ag"
  "pdSendBounce (default_deps pe n) e notice ag = on_world (peSendBounce pe e notice) ag"
  "pdAddToSenders (default_deps pe n) = AddToSenders (aeNetMail (peAgent pe))"
  "pdHandleAutoReply (default_deps pe n) e ag = ag\<lparr>agWorld := handleAutoReply pe e (agWorld ag)\<rparr>"
  "pdNow (default_deps pe n) ag = peNow pe (agWorld ag)"
  by (simp_all add: default_deps_def)

lemma on_world_pair: "m (agWorld ag) = (r, w) \<Longrightarrow> on_world m ag = (r, ag\<lparr>agWorld := w\<rparr>)"
  by (simp add: on_world_def)

text \<open>What the handling of a message looks like from outside when the agent runs on it.\<close>

lemma default_process:
  assumes "\<not> isAutoReply (eAutoSubmitted e)" "\<not> LLMKeyMissing (peCfg pe)"
    "AccessControl (peCfg pe) (aeNetMail (peAgent pe)) (peFetch pe (agWorld ag)) (with_sender (default_deps pe n) e) = ok"
  shows "process_email (peCfg pe) (default_deps pe n) e \<lparr>psWorld = ag, psRetries = rs, psProcessed = []\<rparr> =
    handle_task (peCfg pe) (default_deps pe n) (with_sender (default_deps pe n) e)
      \<lparr>psWorld = ag, psRetries = rs, psProcessed = []\<rparr>"
  using assms by (simp add: process_email_def with_sender_def)

lemma with_sender_fields [simp]:
  "eMessageId (with_sender deps e) = eMessageId e" "eReferences (with_sender deps e) = eReferences e"
  "eThreadIndexConvID (with_sender deps e) = eThreadIndexConvID e" "eSubject (with_sender deps e) = eSubject e"
  "eThreadTopic (with_sender deps e) = eThreadTopic e" "eInReplyTo (with_sender deps e) = eInReplyTo e"
  by (simp_all add: with_sender_def)

lemma with_sender_root [simp]: "GetThreadRoot (with_sender deps e) = GetThreadRoot e"
  by (simp add: GetThreadRoot_def split: list.split)

text \<open>One bad memory file silences its thread: while the file of a thread cannot be decoded (a write of it
  stopped half-way, say) a poll does nothing at all with an admitted message of the thread.  It is not handled,
  its sender is not told, it is not marked as seen, and the retry is not counted.\<close>

theorem undecodable_memory_silences_thread:
  assumes "\<not> isAutoReply (eAutoSubmitted e)" "\<not> LLMKeyMissing (peCfg pe)"
    "AccessControl (peCfg pe) (aeNetMail (peAgent pe)) (peFetch pe (agWorld ag)) (with_sender (default_deps pe n) e) = ok"
    "GetThreadRoot e \<noteq> []" "mdFiles (wdMem (agWorld ag)) (msgIDToFilename (GetThreadRoot e)) = Unreadable x"
    "\<not> err_is x ErrMemoryNotFound"
  shows "processNewEmails (peCfg pe) (default_deps pe n) [e] retries ag = (retries, ag)"
proof -
  have "ResolveThreadRoot (with_sender (default_deps pe n) e) (wdMem (agWorld ag)) = Inl (Wrap ''memory lookup: '' x [])"
    using assms(4-6) by (simp add: ResolveThreadRoot_def GetMemory_def Let_def)
  then have "load_thread (default_deps pe n) (with_sender (default_deps pe n) e) ag = (Inl False, ag)"
    by (simp add: load_thread_def)
  then show ?thesis
    using default_process [OF assms(1-3)] by (simp add: processNewEmails_def handle_task_def)
qed

definition stuck_agent :: "unit world agent" where
  "stuck_agent = (quiet_agent [])\<lparr>agWorld :=
     \<lparr>wdMem = empty_dir\<lparr>mdFiles := (mdFiles empty_dir)(''m1.json'' := Unreadable truncated_json)\<rparr>,
      wdSnooze = \<lparr>skFile = Absent, skFaults = []\<rparr>, wdRest = ()\<rparr>\<rparr>"

definition reply_mail :: email where
  "reply_mail = sample_email\<lparr>eFrom := ''ann@x.org''\<rparr>"

lemma quiet_admits:
  "\<not> isAutoReply (eAutoSubmitted reply_mail)" "\<not> LLMKeyMissing (peCfg quiet_poller)"
  "AccessControl (peCfg quiet_poller) (aeNetMail (peAgent quiet_poller)) (peFetch quiet_poller w)
     (with_sender (default_deps quiet_poller n) reply_mail) = ok"
proof -
  show "\<not> isAutoReply (eAutoSubmitted reply_mail)" "\<not> LLMKeyMissing (peCfg quiet_poller)" by code_simp+
  have "is_ok (AccessControl (peCfg quiet_poller) Some (\<lambda>ids. Inr [sample_email])
      (reply_mail\<lparr>eSenders := AddToSenders Some (eSenders reply_mail) (eFrom reply_mail)\<rparr>))" by code_simp
  then show "AccessControl (peCfg quiet_poller) (aeNetMail (peAgent quiet_poller)) (peFetch quiet_poller w)
     (with_sender (default_deps quiet_poller n) reply_mail) = ok"
    by (simp add: is_ok_iff with_sender_def) (simp add: quiet_poller_def quiet_env_def)
qed

lemma reply_root: "GetThreadRoot reply_mail = ''<m1>''"
  by code_simp

lemma undecodable_memory_silences_thread_witness:
  "processNewEmails (peCfg quiet_poller) (default_deps quiet_poller []) [reply_mail] (\<lambda>i. 0) stuck_agent = (\<lambda>i. 0, stuck_agent)"
  by (rule undecodable_memory_silences_thread [OF quiet_admits, where x = truncated_json])
    (simp_all add: reply_root m1_file stuck_agent_def truncated_json_def)

definition waiting_on :: "string \<Rightarrow> 'x world agent \<Rightarrow> bool" where
  "waiting_on root ag \<longleftrightarrow>
     mdFaults (wdMem (agWorld ag)) = [] \<and> dir_wf (wdMem (agWorld ag)) \<and> still_waiting (wdMem (agWorld ag)) root"

lemma waiting_on_cong: "wdMem (agWorld ag') = wdMem (agWorld ag) \<Longrightarrow> waiting_on root ag' = waiting_on root ag"
  by (simp add: waiting_on_def)

lemma save_waiting_on:
  assumes "\<forall>w. \<exists>e' es. peFetch pe w [i] = Inr (e' # es) \<and> GetThreadRoot e' = root" "waiting_on root ag"
    "on_world (save_history pe h i) ag = (r, ag')"
  shows "waiting_on root ag'"
proof -
  obtain e' es where e': "peFetch pe (agWorld ag) [i] = Inr (e' # es)" "GetThreadRoot e' = root" using assms(1) by blast
  obtain r0 d' where d': "SaveMemoryHistory (peSdk pe) (peFetch pe (agWorld ag)) h i (wdMem (agWorld ag)) = (r0, d')"
    by (metis prod.collapse)
  have "first_email (peFetch pe (agWorld ag)) i = Inr e'" using e'(1) by (simp add: first_email_def)
  from SaveMemoryHistory_keeps_waiting [OF _ _ this _ d'] assms(2) e'(2)
  have "mdFaults d' = [] \<and> dir_wf d' \<and> still_waiting d' root" by (simp add: waiting_on_def)
  moreover have "wdMem (agWorld ag') = d'"
    using assms(3) d' by (auto simp: on_world_def save_history_def on_mem_def)
  ultimately show ?thesis by (simp add: waiting_on_def)
qed

lemma bounce_waiting_on:
  assumes "\<forall>e notice w. wdMem (snd (peSendBounce pe e notice w)) = wdMem w"
  shows "waiting_on root (psWorld (bounce_or_mark (default_deps pe n) e notice st)) = waiting_on root (psWorld st)"
proof -
  have "wdMem (agWorld (snd (on_world (peSendBounce pe e notice) ag))) = wdMem (agWorld ag)" for ag
    using assms by (simp add: on_world_def split: prod.split) (metis snd_conv)
  then have "waiting_on root (snd (on_world (peSendBounce pe e notice) ag)) = waiting_on root ag" for ag
    by (simp add: waiting_on_def)
  from this [of "psWorld st"] show ?thesis
    by (cases "on_world (peSendBounce pe e notice) (psWorld st)") (simp add: bounce_or_mark_def split: sum.split)
qed

lemma after_run_waiting_on:
  assumes "\<forall>e notice w. wdMem (snd (peSendBounce pe e notice w)) = wdMem w"
  shows "waiting_on root (psWorld (after_run cfg (default_deps pe n) e root' r started st)) = waiting_on root (psWorld st)"
proof -
  have forget: "psWorld (forget e st) = psWorld st" for st :: "'a world agent poll_state" by (simp add: forget_def)
  have turns: "waiting_on root (psWorld (after_max_turns cfg (default_deps pe n) e started st)) = waiting_on root (psWorld st)" for st
    by (simp add: after_max_turns_def Let_def bounce_waiting_on [OF assms] forget)
  have failure: "waiting_on root (psWorld (after_failure cfg (default_deps pe n) e x st)) = waiting_on root (psWorld st)" for x st
    by (simp add: after_failure_def Let_def bounce_waiting_on [OF assms] forget)
  show ?thesis
    by (auto simp: after_run_def Let_def turns failure forget split: sum.splits)
qed

text \<open>A reply does not clear the status: the poll clears the status of a waiting thread in its copy of the memory
  only, so after a run that leaves the memory alone the thread still waits, and its watchdog will nudge.\<close>

theorem reply_leaves_thread_waiting:
  assumes "\<not> isAutoReply (eAutoSubmitted e)" "\<not> LLMKeyMissing (peCfg pe)"
    "AccessControl (peCfg pe) (aeNetMail (peAgent pe)) (peFetch pe (agWorld ag)) (with_sender (default_deps pe n) e) = ok"
    "eThreadIndexConvID e = []" "GetThreadRoot e \<noteq> []"
    "mdFaults (wdMem (agWorld ag)) = []" "dir_wf (wdMem (agWorld ag))" "still_waiting (wdMem (agWorld ag)) (GetThreadRoot e)"
    "\<forall>w. \<exists>e' es. peFetch pe w [eMessageId e] = Inr (e' # es) \<and> GetThreadRoot e' = GetThreadRoot e"
    "\<forall>ag pre e k. wdMem (agWorld (snd (HandleMessage (peAgent pe) (peFresh pe) pre e k (peTools pe) ag))) = wdMem (agWorld ag)"
    "\<forall>e notice w. wdMem (snd (peSendBounce pe e notice w)) = wdMem w"
    "\<forall>is w. wdMem (snd (peMarkSeen pe is w)) = wdMem w"
    "processNewEmails (peCfg pe) (default_deps pe n) [e] retries ag = (retries', ag')"
  shows "still_waiting (wdMem (agWorld ag')) (GetThreadRoot e)"
proof -
  let ?deps = "default_deps pe n" and ?e = "with_sender (default_deps pe n) e" and ?root = "GetThreadRoot e"
  let ?st = "\<lparr>psWorld = ag, psRetries = retries, psProcessed = []\<rparr>"
  have w0: "waiting_on ?root ag" using assms(6-8) by (simp add: waiting_on_def)
  obtain m where m: "GetMemory (wdMem (agWorld ag)) ?root = Inr m" "meStatus m = status_waiting"
    using assms(8) by (auto simp: still_waiting_def split: sum.splits)
  have "ResolveThreadRoot ?e (wdMem (agWorld ag)) = Inr ?root"
    using assms(5) m(1) by (simp add: ResolveThreadRoot_def Let_def)
  moreover have "status_waiting \<noteq> status_admin_review" by code_simp
  ultimately have load: "load_thread ?deps ?e ag = (Inr (?root, meHistory m, ClearStatus m), ag)"
    using m by (simp add: load_thread_def)
  have rem: "remember_index ?deps ?e m' ag = ag" for m' using assms(4) by (simp add: remember_index_def)
  obtain r1 ag1 where s1: "on_world (save_history pe (meHistory (ClearStatus m)) (eMessageId e)) ag = (r1, ag1)"
    by (metis prod.collapse)
  have w1: "waiting_on ?root ag1" by (rule save_waiting_on [OF assms(9) w0 s1])
  obtain r started ag2 where run: "run_message_on (peCfg pe) ?deps ?e (meHistory m) ag1 = ((r, started), ag2)"
    by (metis prod.collapse)
  have w2: "waiting_on ?root ag2"
  proof -
    let ?ag = "SetHistory (meHistory m) (ClearHistory ag1)"
    obtain r' ag' where h: "HandleMessage (peAgent pe) (peFresh pe) [] ?e (MaxTurns (peCfg pe)) (peTools pe) ?ag = (r', ag')"
      by (metis prod.collapse)
    then have "wdMem (agWorld ag') = wdMem (agWorld ag1)" using assms(10) by (metis history_world snd_conv)
    then have "waiting_on ?root ag'" using w1 by (simp add: waiting_on_def)
    moreover have "ag2 = snd (on_world (save_history pe (StripAttachmentBlobs (agHistory ag')) (eMessageId e)) ag')"
      using run h by (simp add: run_message_on_def Let_def)
    ultimately show ?thesis using save_waiting_on [OF assms(9) _ prod.collapse [symmetric]] by blast
  qed
  have "psWorld (handle_task (peCfg pe) ?deps ?e ?st) =
      (case r1 of Inl x \<Rightarrow> ag1
       | Inr u \<Rightarrow> psWorld (after_run (peCfg pe) ?deps ?e ?root r started (?st\<lparr>psWorld := ag2\<rparr>)))"
    using load rem s1 run by (simp add: handle_task_def split: sum.split)
  then have "waiting_on ?root (psWorld (process_email (peCfg pe) ?deps e ?st))"
    using default_process [OF assms(1-3), of retries] w1 w2 after_run_waiting_on [OF assms(11)]
    by (simp split: sum.split)
  moreover have "waiting_on ?root (snd (pdMarkSeen ?deps is ag)) = waiting_on ?root ag" for "is" ag
    using assms(12) by (simp add: waiting_on_def on_world_def split: prod.split) (metis snd_conv)
  ultimately have "waiting_on ?root ag'"
    using assms(13) by (auto simp: processNewEmails_def Let_def split: if_splits)
  then show ?thesis by (simp add: waiting_on_def)
qed

lemma quiet_handle [simp]:
  "agWorld (snd (HandleMessage (peAgent quiet_poller) (peFresh quiet_poller) pre e k (peTools quiet_poller) ag)) = agWorld ag"
proof -
  have kept: "kept_by (\<lambda>w. w = agWorld ag) quiet_env (\<lambda>w. w) []"
    by (simp add: kept_by_def quiet_env_def)
  show ?thesis
    using handled_kept [OF kept refl prod.collapse [symmetric]] by (simp add: quiet_poller_def HandleMessage_def)
qed

lemma reply_leaves_thread_waiting_witness:
  "still_waiting (wdMem (agWorld (snd (processNewEmails (peCfg quiet_poller) (default_deps quiet_poller []) [reply_mail]
     (\<lambda>i. 0) waiting_agent)))) ''<m1>''"
proof -
  have w: "mdFaults (wdMem (agWorld waiting_agent)) = []" "dir_wf (wdMem (agWorld waiting_agent))"
    "still_waiting (wdMem (agWorld waiting_agent)) ''<m1>''"
    using waiting_watched by (simp_all add: watched_def)
  have "eThreadIndexConvID reply_mail = []" by code_simp
  moreover have "\<exists>e' es. peFetch quiet_poller w [i] = Inr (e' # es) \<and> GetThreadRoot e' = ''<m1>''" for w i
    by (simp add: quiet_poller_def sample_root)
  moreover have "wdMem (snd (peSendBounce quiet_poller e notice w)) = wdMem w" "wdMem (snd (peMarkSeen quiet_poller is w)) = wdMem w"
    for e notice w "is" by (simp_all add: quiet_poller_def)
  ultimately show ?thesis
    using reply_leaves_thread_waiting [OF quiet_admits, where retries = "\<lambda>i. 0" and n = "[]", OF _ _ _ _ _ _ _ _ _ prod.collapse [symmetric]] w
    by (simp add: reply_root)
qed

section \<open>The context of a first message\<close>

lemma run_turn_appends: "\<exists>ms. rsHistory (snd (run_turn env mk tools ctx turn st)) = rsHistory st @ ms"
proof -
  have "rsHistory (snd (process_blocks env tools ctx truncated cs st)) = rsHistory st" for truncated cs st
    by (rule anthropic.process_blocks_history)
  then show ?thesis
    by (auto simp: run_turn_def Let_def split: option.split sum.split prod.split) (metis run_state.select_convs(2) run_state.surjective run_state.update_convs(1,2) snd_conv append_assoc)+
qed

lemma run_turns_appends: "\<exists>ms. rsHistory (snd (run_turns env mk tools ctx turn left st)) = rsHistory st @ ms"
proof (induction left arbitrary: turn st)
  case (Suc left)
  obtain out st1 where t: "run_turn env mk tools ctx turn st = (out, st1)" by (metis prod.collapse)
  obtain ms where ms: "rsHistory st1 = rsHistory st @ ms" using run_turn_appends t by (metis snd_conv)
  with Suc.IH [of "Suc turn" st1] t show ?case by (cases out) auto
qed simp

lemma handled_appends:
  "\<exists>ms. agHistory (snd (HandleMessage env fresh_counter pre e n tools ag)) =
     agHistory ag @ UserMessage (aeConverters env) e # ms"
  using run_turns_appends [of env "make_request env pre e tools" "indexTools tools" "\<lparr>tcSource = e, tcNudge = False\<rparr>" 0
      "nat n" "initial_state env fresh_counter e ag"]
  by (auto simp: HandleMessage_def handleMessageWith_def initial_state_def split: prod.splits)

lemma on_world_history [simp]: "agHistory (snd (on_world m ag)) = agHistory ag"
  by (simp add: on_world_def split: prod.split)

lemma on_world_pair_history: "on_world m ag = (r, ag1) \<Longrightarrow> agHistory ag1 = agHistory ag"
  using on_world_history [of m ag] by simp

lemma after_run_history:
  "agHistory (psWorld (after_run cfg (default_deps pe n) e root r started st)) = agHistory (psWorld st)"
proof -
  have forget: "psWorld (forget e st) = psWorld st" for st :: "'a world agent poll_state" by (simp add: forget_def)
  have bounce: "agHistory (psWorld (bounce_or_mark (default_deps pe n) e m st)) = agHistory (psWorld st)" for m st
    by (auto simp: bounce_or_mark_def dest: on_world_pair_history split: prod.split sum.split)
  have turns: "agHistory (psWorld (after_max_turns cfg (default_deps pe n) e started st)) = agHistory (psWorld st)" for st
    by (simp add: after_max_turns_def Let_def bounce forget)
  have failure: "agHistory (psWorld (after_failure cfg (default_deps pe n) e x st)) = agHistory (psWorld st)" for x st
    by (simp add: after_failure_def Let_def bounce forget)
  show ?thesis by (auto simp: after_run_def Let_def turns failure forget split: sum.splits)
qed

text \<open>The referenced messages never reach the model: for the first message of a thread without a memory file the
  poll builds a memory from the referenced messages and saves it, but the agent starts from an empty history, so
  if it runs its history begins with the new message, and that history is what is saved in the end.\<close>

theorem referenced_context_is_lost:
  assumes "\<not> isAutoReply (eAutoSubmitted e)" "\<not> LLMKeyMissing (peCfg pe)"
    "AccessControl (peCfg pe) (aeNetMail (peAgent pe)) (peFetch pe (agWorld ag)) (with_sender (default_deps pe n) e) = ok"
    "GetMemory (wdMem (agWorld ag)) (GetThreadRoot e) = Inl ErrMemoryNotFound" "eThreadIndexConvID e = []"
    "processNewEmails (peCfg pe) (default_deps pe n) [e] retries ag = (retries', ag')"
  shows "agHistory ag' = agHistory ag \<or>
    (\<exists>ms. agHistory ag' = UserMessage (aeConverters (peAgent pe)) (with_sender (default_deps pe n) e) # ms)"
proof -
  let ?deps = "default_deps pe n" and ?e = "with_sender (default_deps pe n) e" and ?cv = "aeConverters (peAgent pe)"
  let ?st = "\<lparr>psWorld = ag, psRetries = retries, psProcessed = []\<rparr>"
  have root: "ResolveThreadRoot ?e (wdMem (agWorld ag)) = Inr (GetThreadRoot e)"
    using assms(4,5) by (simp add: ResolveThreadRoot_def resolve_by_index_def Let_def)
  obtain t ag1 where load: "load_thread ?deps ?e ag = (t, ag1)" by (metis prod.collapse)
  have load1: "agHistory ag1 = agHistory ag" "t = Inl False \<or> (\<exists>m. t = Inr (GetThreadRoot e, [], m))"
    using load root assms(4) by (auto simp: load_thread_def dest: on_world_pair_history split: prod.splits sum.splits option.splits)
  have rem: "remember_index ?deps ?e m w = w" for m w using assms(5) by (simp add: remember_index_def)
  have run: "\<exists>ms. agHistory ag3 = UserMessage ?cv ?e # ms" if r: "run_message_on (peCfg pe) ?deps ?e [] ag2 = (rt, ag3)" for ag2 rt ag3
  proof -
    let ?ag = "SetHistory [] (ClearHistory ag2)"
    obtain r' ag' where h: "HandleMessage (peAgent pe) (peFresh pe) [] ?e (MaxTurns (peCfg pe)) (peTools pe) ?ag = (r', ag')"
      by (metis prod.collapse)
    have "agHistory ag3 = agHistory ag'"
      using r h by (auto simp: run_message_on_def Let_def)
    moreover have "\<exists>ms. agHistory ag' = UserMessage ?cv ?e # ms"
      using handled_appends [of "peAgent pe" "peFresh pe" "[]" ?e "MaxTurns (peCfg pe)" "peTools pe" ?ag] h
      by (simp add: SetHistory_def)
    ultimately show ?thesis by simp
  qed
  have "agHistory (psWorld (handle_task (peCfg pe) ?deps ?e ?st)) = agHistory ag \<or>
      (\<exists>ms. agHistory (psWorld (handle_task (peCfg pe) ?deps ?e ?st)) = UserMessage ?cv ?e # ms)"
    using load load1 rem
    by (auto simp: handle_task_def after_run_history dest: on_world_pair_history run split: prod.splits sum.splits)
  then show ?thesis
    using assms(6) default_process [OF assms(1-3), of retries]
    by (auto simp: processNewEmails_def Let_def split: if_splits)
qed

lemma referenced_context_is_lost_witness:
  "agHistory (snd (processNewEmails (peCfg quiet_poller) (default_deps quiet_poller []) [reply_mail] (\<lambda>i. 0) (quiet_agent []))) = [] \<or>
   (\<exists>ms. agHistory (snd (processNewEmails (peCfg quiet_poller) (default_deps quiet_poller []) [reply_mail] (\<lambda>i. 0) (quiet_agent []))) =
      UserMessage (aeConverters quiet_env) (with_sender (default_deps quiet_poller []) reply_mail) # ms)"
proof -
  have "GetMemory (wdMem (agWorld (quiet_agent []))) (GetThreadRoot reply_mail) = Inl ErrMemoryNotFound"
    by (simp add: quiet_agent_def GetMemory_def empty_dir_def)
  moreover have "eThreadIndexConvID reply_mail = []" by code_simp
  moreover have "agHistory (quiet_agent []) = []" "peAgent quiet_poller = quiet_env"
    by (simp_all add: quiet_agent_def quiet_poller_def)
  ultimately show ?thesis
    using referenced_context_is_lost [OF quiet_admits _ _ prod.collapse [symmetric], where ag = "quiet_agent []"
        and retries = "\<lambda>i. 0" and n = "[]"] by simp
qed

section \<open>Automatic replies\<close>

text \<open>C6. Automatic mail does not answer automatic mail.  An automatic reply makes the poller send at most one message:
  to the sender of an earlier message of the thread who is not the originator of the automatic reply.  That message,
  and every bounce, is itself marked so that the poller of the receiving agent handles it without its model.\<close>

theorem automatic_mail_does_not_loop:
  assumes "\<forall>e w. mails (snd (peSendEmail pe e w)) = mails w @ [e]"
    "\<forall>d w. mails (w\<lparr>wdMem := d\<rparr>) = mails w" "\<forall>d w. mails (w\<lparr>wdSnooze := d\<rparr>) = mails w"
  shows "(mails (handleAutoReply pe e w) = mails w \<or>
      (\<exists>up m. find_upstream (peFetch pe w) (peSentEmail pe w) (eReferences e) = Some up \<and>
        mails (handleAutoReply pe e w) = mails w @ [m] \<and> eTo m = [eFrom up] \<and> isAutoReply (eAutoSubmitted m) \<and>
        \<not> equal_fold (addressOnly (aeNetMail (peAgent pe)) (eFrom e)) (addressOnly (aeNetMail (peAgent pe)) (eFrom up)))) \<and>
    isAutoReply (eAutoSubmitted (bounce_email cfg now rcvd notice))"
proof
  have auto: "isAutoReply ''auto-replied''" by code_simp
  then show "isAutoReply (eAutoSubmitted (bounce_email cfg now rcvd notice))" by (simp add: bounce_email_def)
  have snooze: "mails (snd (on_snooze m v)) = mails v" for m v
    using assms(3) by (simp add: on_snooze_def split: prod.split)
  have "mails (handleAutoReply pe e w) = mails (notify_upstream pe e w)"
    by (simp add: handleAutoReply_def Let_def snooze assms(2))
  then show "mails (handleAutoReply pe e w) = mails w \<or>
      (\<exists>up m. find_upstream (peFetch pe w) (peSentEmail pe w) (eReferences e) = Some up \<and>
        mails (handleAutoReply pe e w) = mails w @ [m] \<and> eTo m = [eFrom up] \<and> isAutoReply (eAutoSubmitted m) \<and>
        \<not> equal_fold (addressOnly (aeNetMail (peAgent pe)) (eFrom e)) (addressOnly (aeNetMail (peAgent pe)) (eFrom up)))"
    using assms(1) auto by (auto simp: notify_upstream_def upstream_notice_def split: option.split)
qed

text \<open>A poller that keeps what it sends.\<close>

definition sending_poller :: "(email list, unit) poller_env" where
  "sending_poller =
     \<lparr>peAgent = \<lparr>aeCfg = startup_config, aeId = [], aeSystem = [],
        aeProvider = \<lparr>pvCreateMessage = (\<lambda>p w. (Inr stub_response, w)), pvBuildTools = (\<lambda>defs model. ((), [])),
                      pvToHistoryParam = stub_ToHistoryParam, pvNewToolResult = NewToolResult\<rparr>,
        aeCtxErr = (\<lambda>w. None), aeCreateTemp = (\<lambda>a b w. (None, w)), aeRawLength = (\<lambda>j. 0), aeNetMail = Some,
        aeFloat = Some,
        aeConverters = \<lparr>cvUnzip = (\<lambda>b. None), cvCharData = (\<lambda>s. []), cvTika = (\<lambda>n b. Inl (Err []))\<rparr>\<rparr>,
      peFresh = (\<lambda>w. w), peTools = [], peFetch = (\<lambda>w ids. Inr [ann_mail]),
      peSentEmail = (\<lambda>w i. Inr None), peNow = (\<lambda>w. utc 5), peSendBounce = (\<lambda>e n w. (ok, w)),
      peSendEmail = (\<lambda>e w. (ok, w\<lparr>wdRest := wdRest w @ [e]\<rparr>)), peMarkSeen = (\<lambda>ids w. (ok, w)), peDb = (\<lambda>n. None),
      peCron = (\<lambda>c. Inr (tm_add (minutes 60))), peSdk = (\<lambda>r bs. Inr JNull)\<rparr>"

definition declined_mail :: email where
  "declined_mail = empty_email\<lparr>eFrom := ''zoe@z.org'', eMessageId := ''<z1>'', eReferences := [''<a1>''],
     eAutoSubmitted := ''auto-replied''\<rparr>"

definition empty_world :: "email list world" where
  "empty_world = \<lparr>wdMem = empty_dir, wdSnooze = \<lparr>skFile = Absent, skFaults = []\<rparr>, wdRest = []\<rparr>"

lemma automatic_mail_does_not_loop_witness:
  "length (wdRest (handleAutoReply sending_poller declined_mail empty_world)) \<le> 1 \<and>
   map eTo (wdRest (handleAutoReply sending_poller declined_mail empty_world)) = [[''ann@x.org'']]"
proof
  have "\<forall>e w. wdRest (snd (peSendEmail sending_poller e w)) = wdRest w @ [e]" by (simp add: sending_poller_def)
  from automatic_mail_does_not_loop [OF this, where e = declined_mail and w = empty_world and cfg = startup_config
      and now = "utc 0" and rcvd = ann_mail and notice = "[]"]
  show "length (wdRest (handleAutoReply sending_poller declined_mail empty_world)) \<le> 1"
    by (auto simp: empty_world_def)
  show "map eTo (wdRest (handleAutoReply sending_poller declined_mail empty_world)) = [[''ann@x.org'']]" by code_simp
qed

end
