(* ===== verification/Toolset.thy ===== *)
theory Toolset
  imports Agent_Loop "HOL-Library.Multiset"
begin

text \<open>
  What an agent is equipped with: the registry of tool factories with the remote servers of the MCP table
  (\<open>tools/registry.go\<close>, \<open>tools/mcp_servers.go\<close>), the assembly of its tool set through a cache, the reloads, the
  knowledge files and the system prompt (\<open>cmd/kikubot/main.go\<close>).  Connecting to a server is an argument, and
  so are the file system and the iteration order of a Go map.
\<close>

section \<open>Factories\<close>

datatype mcp_auth = NoAuth | StaticHeader string string string | OAuth2 string string string

datatype tool_factory = Builtin string | Remote string string mcp_auth

text \<open>The header of a static mode and its scheme; a scheme of white space is set, but empty.\<close>

definition apikey_modes :: "string list" where
  "apikey_modes = [''apikey'', ''api_key'', ''api-key'']"

definition staticHeaderDefaults :: "mcp_server \<Rightarrow> string \<times> string" where
  "staticHeaderDefaults srv =
     (let h = trim_space (msHeader srv); header = (if h = [] then ''Authorization'' else h)
      in (header,
          if msScheme srv \<noteq> [] then trim_space (msScheme srv)
          else if to_lower (trim_space (msAuth srv)) \<in> set apikey_modes
          then (if equal_fold header ''Authorization'' then ''ApiKey'' else [])
          else ''Bearer''))"

definition mcpServerFactory :: "mcp_server \<Rightarrow> tool_factory result" where
  "mcpServerFactory srv =
     (let name = trim_space (msKey srv); url = trim_space (msURL srv); mode = to_lower (trim_space (msAuth srv))
      in if mode \<in> set ['''', ''none''] then Inr (Remote name url NoAuth)
         else if mode \<in> set (''bearer'' # ''static'' # apikey_modes) then
           (let tokenEnv = trim_space (msTokenEnv srv)
            in if tokenEnv = [] then Inl (Err (''auth='' @ go_quote (msAuth srv) @ '' requires token_env''))
               else case staticHeaderDefaults srv of
                      (header, scheme) \<Rightarrow> Inr (Remote name url (StaticHeader tokenEnv header scheme)))
         else if mode \<in> set [''oauth2'', ''oauth''] then
           (let idEnv = trim_space (msClientIDEnv srv)
            in if idEnv = [] then Inl (Err (''auth='' @ go_quote (msAuth srv) @ '' requires client_id_env''))
               else Inr (Remote name url (OAuth2 idEnv (trim_space (msClientSecretEnv srv)) (trim_space (msMetadataURL srv)))))
         else Inl (Err (''unknown auth type '' @ go_quote (msAuth srv) @ '' (want none|bearer|apikey|oauth2)'')))"

text \<open>
  Running a factory.  \<open>builtin\<close> are the factories of the program, \<open>bridge name url headers\<close> connects to a server,
  \<open>oauth name url id secret metadata\<close> does so with OAuth2.  A server that cannot be used gives no tools.
\<close>

record ('w, 'd) connectors =
  cnGetenv :: "string \<Rightarrow> string"
  cnBuiltin :: "string \<Rightarrow> 'w \<Rightarrow> 'd list \<times> 'w"
  cnBridge :: "string \<Rightarrow> string \<Rightarrow> (string \<times> string) list \<Rightarrow> ('w, 'd list) io"
  cnOAuth :: "string \<Rightarrow> string \<Rightarrow> string \<Rightarrow> string \<Rightarrow> string \<Rightarrow> ('w, 'd list) io"

definition mcpBridgeOrLog :: "('w, 'd list) io \<Rightarrow> 'w \<Rightarrow> 'd list \<times> 'w" where
  "mcpBridgeOrLog m w = (case m w of (Inl e, w1) \<Rightarrow> ([], w1) | (Inr ts, w1) \<Rightarrow> (ts, w1))"

fun run_factory :: "('w, 'd) connectors \<Rightarrow> tool_factory \<Rightarrow> 'w \<Rightarrow> 'd list \<times> 'w" where
  "run_factory cn (Builtin key) w = cnBuiltin cn key w"
| "run_factory cn (Remote name url NoAuth) w = mcpBridgeOrLog (cnBridge cn name url []) w"
| "run_factory cn (Remote name url (StaticHeader tokenEnv header scheme)) w =
     (let token = trim_space (cnGetenv cn tokenEnv)
      in if token = [] then ([], w)
         else mcpBridgeOrLog (cnBridge cn name url [(header, trim_space (scheme @ '' '' @ token))]) w)"
| "run_factory cn (Remote name url (OAuth2 idEnv secretEnv metadataURL)) w =
     (let clientID = trim_space (cnGetenv cn idEnv)
      in if clientID = [] then ([], w)
         else mcpBridgeOrLog (cnOAuth cn name url clientID (trim_space (cnGetenv cn secretEnv)) metadataURL) w)"

section \<open>The registry\<close>

record tool_registry =
  rgFactories :: "string \<Rightarrow> tool_factory option"
  rgDescriptions :: "string \<Rightarrow> string option"
  rgMcp :: "string set"

definition HasTool :: "tool_registry \<Rightarrow> string \<Rightarrow> bool" where
  "HasTool rg key \<longleftrightarrow> rgFactories rg key \<noteq> None"

definition LookupTools :: "('w, 'd) connectors \<Rightarrow> tool_registry \<Rightarrow> string \<Rightarrow> 'w \<Rightarrow> 'd list option \<times> 'w" where
  "LookupTools cn rg key w =
     (case rgFactories rg key of
        None \<Rightarrow> (None, w)
      | Some f \<Rightarrow> (case run_factory cn f w of (ts, w1) \<Rightarrow> (Some ts, w1)))"

definition Register :: "string \<Rightarrow> tool_factory \<Rightarrow> string \<Rightarrow> tool_registry \<Rightarrow> tool_registry" where
  "Register key f description rg =
     (if key = [] then rg
      else rg\<lparr>rgFactories := (rgFactories rg)(key := Some f),
              rgDescriptions := (if description \<noteq> [] then (rgDescriptions rg)(key := Some description)
                                 else rgDescriptions rg)\<rparr>)"

definition Unregister :: "string \<Rightarrow> tool_registry \<Rightarrow> tool_registry" where
  "Unregister key rg =
     rg\<lparr>rgFactories := (rgFactories rg)(key := None), rgDescriptions := (rgDescriptions rg)(key := None)\<rparr>"

text \<open>One row of the table.  \<open>rgMcp\<close> holds the keys of the table registered before; it is replaced at the end.\<close>

definition register_row :: "mcp_server \<Rightarrow> tool_registry \<times> string list \<Rightarrow> tool_registry \<times> string list" where
  "register_row srv = (\<lambda>(rg, next).
     let key = trim_space (msKey srv)
     in if key = [] \<or> trim_space (msURL srv) = [] then (rg, next)
        else if HasTool rg key \<and> key \<notin> rgMcp rg then (rg, next)
        else case mcpServerFactory srv of
               Inl e \<Rightarrow> (rg, next)
             | Inr f \<Rightarrow> (Register key f (trim_space (msDescription srv)) rg, next @ [key]))"

definition drop_keys :: "(string \<Rightarrow> bool) \<Rightarrow> tool_registry \<Rightarrow> tool_registry" where
  "drop_keys gone rg =
     rg\<lparr>rgFactories := (\<lambda>k. if gone k then None else rgFactories rg k),
        rgDescriptions := (\<lambda>k. if gone k then None else rgDescriptions rg k)\<rparr>"

definition RegisterMCPServers :: "mcp_server list \<Rightarrow> tool_registry \<Rightarrow> tool_registry" where
  "RegisterMCPServers servers rg =
     (case fold register_row servers (rg, []) of
        (rg1, next) \<Rightarrow> (drop_keys (\<lambda>k. k \<in> rgMcp rg \<and> k \<notin> set next) rg1)\<lparr>rgMcp := set next\<rparr>)"

section \<open>The tool set of an agent\<close>

text \<open>
  The cache maps a key to the configuration it was built from and its tools.  \<open>sig_of\<close> is the printed row of the
  table; of rows with one key the last one counts.
\<close>

record 'd toolset_state =
  tsCache :: "string \<Rightarrow> (string \<times> 'd list) option"
  tsRetryAt :: "gotime option"

definition mcpRetryInterval :: int where "mcpRetryInterval = minutes 2"

definition mcp_signature :: "(mcp_server \<Rightarrow> string) \<Rightarrow> mcp_server list \<Rightarrow> string \<Rightarrow> string" where
  "mcp_signature sig_of servers key =
     (case map_of (rev (map (\<lambda>s. (trim_space (msKey s), sig_of s)) servers)) key of Some s \<Rightarrow> s | None \<Rightarrow> [])"

definition wanted_keys :: "agents_config option \<Rightarrow> string \<Rightarrow> string list" where
  "wanted_keys cfg email =
     (case cfg of
        None \<Rightarrow> []
      | Some c \<Rightarrow>
          (case FindAgent c email of
             None \<Rightarrow> []
           | Some a \<Rightarrow> filter (\<lambda>k. k \<noteq> []) (map trim_space (adTools a))))"

definition arm_retry :: "gotime \<Rightarrow> 'd toolset_state \<Rightarrow> 'd toolset_state" where
  "arm_retry now ts =
     (if tsRetryAt ts = None then ts\<lparr>tsRetryAt := Some (tm_add mcpRetryInterval now)\<rparr> else ts)"

text \<open>The tools of one key, through the cache; \<open>now\<close> is the clock of a world.\<close>

definition tools_of_key ::
  "('w, 'd) connectors \<Rightarrow> tool_registry \<Rightarrow> ('w \<Rightarrow> gotime) \<Rightarrow> (string \<Rightarrow> string) \<Rightarrow> string \<Rightarrow>
   'd toolset_state \<times> 'w \<Rightarrow> 'd list \<times> 'd toolset_state \<times> 'w" where
  "tools_of_key cn rg now sig key = (\<lambda>(ts, w).
     case (case tsCache ts key of Some (s, defs) \<Rightarrow> if s = sig key then Some defs else None | None \<Rightarrow> None) of
       Some defs \<Rightarrow> (defs, ts, w)
     | None \<Rightarrow>
         (case LookupTools cn rg key w of
            (None, w1) \<Rightarrow> ([], ts\<lparr>tsCache := (tsCache ts)(key := None)\<rparr>, w1)
          | (Some defs, w1) \<Rightarrow>
              if sig key \<noteq> [] \<and> defs = []
              then ([], arm_retry (now w1) (ts\<lparr>tsCache := (tsCache ts)(key := None)\<rparr>), w1)
              else (defs, ts\<lparr>tsCache := (tsCache ts)(key := Some (sig key, defs))\<rparr>, w1)))"

fun tools_of_keys ::
  "('w, 'd) connectors \<Rightarrow> tool_registry \<Rightarrow> ('w \<Rightarrow> gotime) \<Rightarrow> (string \<Rightarrow> string) \<Rightarrow> string list \<Rightarrow>
   'd toolset_state \<times> 'w \<Rightarrow> 'd list \<times> 'd toolset_state \<times> 'w" where
  "tools_of_keys cn rg now sig [] st = ([], st)"
| "tools_of_keys cn rg now sig (k # ks) st =
     (case tools_of_key cn rg now sig k st of
        (defs, st1) \<Rightarrow> (case tools_of_keys cn rg now sig ks st1 of (rest, st2) \<Rightarrow> (defs @ rest, st2)))"

text \<open>
  Of tools with one name the last one is kept.  \<open>order\<close> is the order in which the map of the tools is iterated.
\<close>

definition last_named :: "('d \<Rightarrow> string) \<Rightarrow> 'd list \<Rightarrow> 'd list" where
  "last_named name ts = rev (foldr (\<lambda>t acc. if name t \<in> name ` set acc then acc else acc @ [t]) ts [])"

definition dedupTools :: "('d list \<Rightarrow> 'd list) \<Rightarrow> ('d \<Rightarrow> string) \<Rightarrow> 'd list \<Rightarrow> 'd list" where
  "dedupTools order name ts = order (last_named name ts)"

definition disabledToolNames :: "agents_config option \<Rightarrow> string \<Rightarrow> string list" where
  "disabledToolNames cfg email =
     (case cfg of
        None \<Rightarrow> []
      | Some c \<Rightarrow>
          filter (\<lambda>n. n \<noteq> [])
            (map trim_space (ccDisabledTools (acCommon c) @
               (case FindAgent c email of Some a \<Rightarrow> adDisabledTools a | None \<Rightarrow> []))))"

definition filterDisabledTools :: "('d \<Rightarrow> string) \<Rightarrow> 'd list \<Rightarrow> string list \<Rightarrow> 'd list" where
  "filterDisabledTools name ts disabled = filter (\<lambda>t. name t \<notin> set disabled) ts"

definition buildAgentTools ::
  "('w, 'd) connectors \<Rightarrow> tool_registry \<Rightarrow> ('w \<Rightarrow> gotime) \<Rightarrow> (mcp_server \<Rightarrow> string) \<Rightarrow> ('d list \<Rightarrow> 'd list) \<Rightarrow>
   ('d \<Rightarrow> string) \<Rightarrow> 'd list \<Rightarrow> agents_config option \<Rightarrow> mcp_server list \<Rightarrow> string \<Rightarrow>
   'd toolset_state \<times> 'w \<Rightarrow> 'd list \<times> 'd toolset_state \<times> 'w" where
  "buildAgentTools cn rg now sig_of order name core cfg servers email = (\<lambda>(ts, w).
     let wanted = wanted_keys cfg email
     in case tools_of_keys cn rg now (mcp_signature sig_of servers) wanted (ts\<lparr>tsRetryAt := None\<rparr>, w) of
          (defs, ts1, w1) \<Rightarrow>
            (filterDisabledTools name (dedupTools order name (core @ defs)) (disabledToolNames cfg email),
             ts1\<lparr>tsCache := (\<lambda>k. if k \<in> set wanted then tsCache ts1 k else None)\<rparr>, w1))"

section \<open>Reloads\<close>

text \<open>
  The state of the hot reload: the times of the two files as last seen, the registry, the cache and the tools of
  the agent.  The files are read in a world: their times, and the decoded contents or the error.
\<close>

record 'd reload_state =
  rlAgentsTime :: gotime
  rlMcpTime :: gotime
  rlRegistry :: tool_registry
  rlToolset :: "'d toolset_state"
  rlTools :: "'d list"

record ('w, 'd) reload_env =
  reTimes :: "'w \<Rightarrow> gotime \<times> gotime"
  reAgents :: "'w \<Rightarrow> agents_config option result"
  reServers :: "'w \<Rightarrow> mcp_server list result"
  reStartup :: "agents_config option"
  reBuild :: "tool_registry \<Rightarrow> agents_config option \<Rightarrow> mcp_server list \<Rightarrow> 'd toolset_state \<times> 'w \<Rightarrow>
              'd list \<times> 'd toolset_state \<times> 'w"
  reNow :: "'w \<Rightarrow> gotime"

definition reloadTools :: "('w, 'd) reload_env \<Rightarrow> 'd reload_state \<times> 'w \<Rightarrow> 'd reload_state \<times> 'w" where
  "reloadTools re = (\<lambda>(rl, w).
     let rl1 = rl\<lparr>rlAgentsTime := fst (reTimes re w), rlMcpTime := snd (reTimes re w)\<rparr>
     in case reAgents re w of
          Inl e \<Rightarrow> (rl1, w)
        | Inr cfg \<Rightarrow>
            (case reServers re w of
               Inl e \<Rightarrow> (rl1, w)
             | Inr servers \<Rightarrow>
                 let rg = RegisterMCPServers servers (rlRegistry rl1)
                 in case reBuild re rg (if cfg = None then reStartup re else cfg) servers (rlToolset rl1, w) of
                      (tools, ts, w1) \<Rightarrow> (rl1\<lparr>rlRegistry := rg, rlToolset := ts, rlTools := tools\<rparr>, w1)))"

definition reloadToolsIfChanged :: "('w, 'd) reload_env \<Rightarrow> 'd reload_state \<times> 'w \<Rightarrow> 'd reload_state \<times> 'w" where
  "reloadToolsIfChanged re = (\<lambda>(rl, w).
     if tm_after (fst (reTimes re w)) (rlAgentsTime rl) \<or> tm_after (snd (reTimes re w)) (rlMcpTime rl)
     then reloadTools re (rl, w)
     else case tsRetryAt (rlToolset rl) of
            None \<Rightarrow> (rl, w)
          | Some t \<Rightarrow>
              if tm_before (reNow re w) t then (rl, w)
              else reloadTools re
                     (rl\<lparr>rlToolset := (rlToolset rl)\<lparr>tsRetryAt := Some (tm_add mcpRetryInterval (reNow re w))\<rparr>\<rparr>, w))"

section \<open>Knowledge files\<close>

text \<open>
  The knowledge directory: the entries of a directory with whether they are directories (\<open>None\<close> when it cannot
  be read), the text of a file, and the times of a directory and of its files.
\<close>

record knowledge_dir =
  kdEntries :: "string \<Rightarrow> (string \<times> bool) list option"
  kdRead :: "string \<Rightarrow> string \<Rightarrow> string option"
  kdDirTime :: "string \<Rightarrow> gotime option"
  kdFileTime :: "string \<Rightarrow> string \<Rightarrow> gotime option"

definition knowledge_dirs :: "string \<Rightarrow> string list" where
  "knowledge_dirs agentKey = ''common'' # (if agentKey \<noteq> [] then [agentKey] else [])"

definition md_files :: "knowledge_dir \<Rightarrow> string \<Rightarrow> string list" where
  "md_files kd dir =
     (case kdEntries kd dir of
        None \<Rightarrow> []
      | Some es \<Rightarrow> map fst (filter (\<lambda>(n, isDir). \<not> isDir \<and> has_suffix ''.md'' n) es))"

definition knowledge_sections :: "knowledge_dir \<Rightarrow> string \<Rightarrow> string list" where
  "knowledge_sections kd dir =
     filter (\<lambda>c. c \<noteq> []) (map trim_space (List.map_filter (kdRead kd dir) (sort (md_files kd dir))))"

definition loadKnowledge :: "knowledge_dir \<Rightarrow> string \<Rightarrow> string" where
  "loadKnowledge kd agentKey =
     join ([nl, nl] @ ''---'' @ [nl, nl]) (concat (map (knowledge_sections kd) (knowledge_dirs agentKey)))"

definition later :: "gotime \<Rightarrow> gotime option \<Rightarrow> gotime" where
  "later newest t = (case t of Some u \<Rightarrow> if tm_after u newest then u else newest | None \<Rightarrow> newest)"

definition knowledgeMTime :: "knowledge_dir \<Rightarrow> string \<Rightarrow> gotime" where
  "knowledgeMTime kd agentKey =
     foldl (\<lambda>newest dir. foldl later (later newest (kdDirTime kd dir)) (map (kdFileTime kd dir) (md_files kd dir)))
       zero_time (knowledge_dirs agentKey)"

text \<open>The prompt with the knowledge, and the time it was read; a reload keeps both while nothing is newer.\<close>

definition applyKnowledge :: "string \<Rightarrow> string \<Rightarrow> knowledge_dir \<Rightarrow> string \<times> gotime" where
  "applyKnowledge base agentKey kd = (base @ loadKnowledge kd agentKey, knowledgeMTime kd agentKey)"

definition reloadKnowledgeIfChanged ::
  "string \<Rightarrow> string \<Rightarrow> knowledge_dir \<Rightarrow> string \<times> gotime \<Rightarrow> string \<times> gotime" where
  "reloadKnowledgeIfChanged base agentKey kd = (\<lambda>(system, t).
     if tm_after (knowledgeMTime kd agentKey) t then applyKnowledge base agentKey kd else (system, t))"

section \<open>The system prompt\<close>

text \<open>\<open>json.MarshalIndent\<close> of the peers with the prefix and indentation of the code; empty fields are left out.\<close>

definition peer_members :: "prompt_peer \<Rightarrow> (string \<times> string) list" where
  "peer_members p =
     filter (\<lambda>(k, v). v \<noteq> []) [(''name'', ppName p), (''email'', ppEmail p), (''role'', ppRole p),
       (''description'', ppDescription p), (''scope'', ppScope p)]"

definition new_line :: "nat \<Rightarrow> string" where
  "new_line depth = nl # '' '' @ concat (replicate depth ''   '')"

definition show_peer :: "prompt_peer \<Rightarrow> string" where
  "show_peer p =
     (if peer_members p = [] then ''{}''
      else ''{'' @ join '','' (map (\<lambda>(k, v). new_line 2 @ show_str k @ '': '' @ show_str v) (peer_members p)) @
           new_line 1 @ ''}'')"

definition show_peers :: "prompt_peer list \<Rightarrow> string" where
  "show_peers ps = ''['' @ join '','' (map (\<lambda>p. new_line 1 @ show_peer p) ps) @ new_line 0 @ '']''"

definition formatCoworkers :: "prompt_peer list \<Rightarrow> string" where
  "formatCoworkers peers =
     (if peers = [] then []
      else ''Your coworkers are:'' @ [nl, nl] @ show_peers peers @ [nl, nl] @
           ''Collaborate with your coworkers using the message_tool tool.'' @
           (if list_ex (\<lambda>p. ppScope p = ''external'') peers
            then '' Peers marked '' @ [dquote] @ ''scope'' @ [dquote] @ '': '' @ [dquote] @ ''external'' @ [dquote] @
                 '' run on other machines or domains: reach them the same way via message_tool, but expect '' @
                 ''higher latency, unknown capabilities, and no shared memory with them.''
            else []))"

text \<open>
  The replacement of \<open>regexp.ReplaceAllString\<close> is a template: \<open>$$\<close> is a dollar sign, \<open>$0\<close> the match, and any other
  \<open>$name\<close> or \<open>${name}\<close> a group that the pattern does not have, so nothing.
\<close>

definition word_char :: "char \<Rightarrow> bool" where
  "word_char c \<longleftrightarrow> is_upper c \<or> is_lower c \<or> is_digit c \<or> c = CHR ''_''"

definition group_text :: "string \<Rightarrow> string \<Rightarrow> string" where
  "group_text whole name = (if name = ''0'' then whole else [])"

function expand_template :: "string \<Rightarrow> string \<Rightarrow> string" where
  "expand_template whole s =
     (case s of
        [] \<Rightarrow> []
      | c # cs \<Rightarrow>
          if c \<noteq> CHR ''$'' then c # expand_template whole cs
          else case cs of
                 [] \<Rightarrow> [c]
               | d # ds \<Rightarrow>
                   if d = CHR ''$'' then d # expand_template whole ds
                   else if d = CHR ''{'' then
                     (let name = takeWhile word_char ds; rest = dropWhile word_char ds
                      in if name \<noteq> [] \<and> has_prefix ''}'' rest
                         then group_text whole name @ expand_template whole (drop 1 rest)
                         else c # expand_template whole cs)
                   else if word_char d then
                     group_text whole (takeWhile word_char cs) @ expand_template whole (dropWhile word_char ds)
                   else c # expand_template whole cs)"
  by pat_completeness auto
termination
  by (relation "measure (\<lambda>(whole, s). length s)")
    (auto simp: less_Suc_eq_le intro: le_SucI length_dropWhile_le order_trans [OF diff_le_self])

declare expand_template.simps [simp del]

text \<open>The pattern \<open>{{coworker}}\<close> or \<open>{{coworkers}}\<close>, in any case: its length at the start of a text.\<close>

definition marker_length :: "string \<Rightarrow> nat option" where
  "marker_length s =
     (if has_prefix ''{{coworkers}}'' (to_lower s) then Some 13
      else if has_prefix ''{{coworker}}'' (to_lower s) then Some 12 else None)"

function replace_markers :: "string \<Rightarrow> string \<Rightarrow> string" where
  "replace_markers clause s =
     (case s of
        [] \<Rightarrow> []
      | c # cs \<Rightarrow>
          (case marker_length s of
             Some n \<Rightarrow> expand_template (take n s) clause @ replace_markers clause (drop (n - 1) cs)
           | None \<Rightarrow> c # replace_markers clause cs))"
  by pat_completeness auto
termination
  by (relation "measure (\<lambda>(clause, s). length s)") auto

declare replace_markers.simps [simp del]

definition system_prompt :: "string \<Rightarrow> string \<Rightarrow> string" where
  "system_prompt sysPrompt clause =
     (if sysPrompt = [] then
        (if clause \<noteq> []
         then ''You are a helpful agent that serves two groups '' @ em_dash @ '' users and coworkers. Your role is '' @
              ''to resolve tasks submitted by users, drawing on your coworkers below as needed.'' @ [nl, nl] @ clause
         else ''You are a helpful agent. Your job is to resolve tasks sent to you by users.'')
      else if contains_sub ''{{coworkers}}'' (to_lower sysPrompt) then
        (if clause \<noteq> [] then replace_markers clause sysPrompt else replace_all ''{{coworkers}}'' [] sysPrompt)
      else sysPrompt)"

definition knowledge_key :: "string \<Rightarrow> string" where
  "knowledge_key email =
     (let k = to_lower email
      in case index_char (CHR ''@'') k of Some i \<Rightarrow> if i > 0 then take i k else k | None \<Rightarrow> k)"

section \<open>The registry mirrors the table\<close>

definition row_key :: "mcp_server \<Rightarrow> string" where
  "row_key srv = trim_space (msKey srv)"

text \<open>A row that counts: it has a key and an address, its mode is complete, and its key is not that of a tool of the
  program.\<close>

definition row_ok :: "tool_registry \<Rightarrow> mcp_server \<Rightarrow> bool" where
  "row_ok rg srv \<longleftrightarrow> row_key srv \<noteq> [] \<and> trim_space (msURL srv) \<noteq> [] \<and> is_ok (mcpServerFactory srv) \<and>
     \<not> (HasTool rg (row_key srv) \<and> row_key srv \<notin> rgMcp rg)"

definition row_factory :: "mcp_server \<Rightarrow> tool_factory option" where
  "row_factory srv = (case mcpServerFactory srv of Inl e \<Rightarrow> None | Inr f \<Rightarrow> Some f)"

lemma register_row_cases:
  "register_row srv (rg, next) =
     (if row_ok rg srv
      then (Register (row_key srv) (the (row_factory srv)) (trim_space (msDescription srv)) rg, next @ [row_key srv])
      else (rg, next))"
  by (auto simp: register_row_def row_ok_def row_factory_def row_key_def Let_def split: sum.splits)

lemma row_ok_other:
  "k \<noteq> row_key srv \<Longrightarrow> row_ok (Register k f d rg) srv = row_ok rg srv"
  by (simp add: row_ok_def HasTool_def Register_def)

lemma fold_register_rows:
  assumes "distinct (map row_key servers)"
  shows "fold register_row servers (rg, next) = (rg1, next1) \<Longrightarrow>
    rgMcp rg1 = rgMcp rg \<and> next1 = next @ map row_key (filter (row_ok rg) servers) \<and>
    (\<forall>k. rgFactories rg1 k =
       (case find (\<lambda>s. row_ok rg s \<and> row_key s = k) servers of Some s \<Rightarrow> row_factory s | None \<Rightarrow> rgFactories rg k))"
  using assms
proof (induction servers arbitrary: rg "next")
  case (Cons srv servers)
  show ?case
  proof (cases "row_ok rg srv")
    case True
    let ?rg = "Register (row_key srv) (the (row_factory srv)) (trim_space (msDescription srv)) rg"
    have step: "fold register_row servers (?rg, next @ [row_key srv]) = (rg1, next1)"
      using Cons.prems(1) True by (simp add: register_row_cases)
    have ok: "row_ok ?rg s = row_ok rg s" if "s \<in> set servers" for s
      using Cons.prems(2) that by (intro row_ok_other) auto
    have key: "row_key srv \<noteq> []" "row_factory srv \<noteq> None"
      using True by (auto simp: row_ok_def row_factory_def split: sum.splits)
    then have fs: "rgFactories ?rg k = (if k = row_key srv then row_factory srv else rgFactories rg k)"
      "rgMcp ?rg = rgMcp rg" for k
      by (auto simp: Register_def)
    have "row_key srv \<notin> row_key ` set servers" using Cons.prems(2) by simp
    then have none: "find (\<lambda>s. row_ok rg s \<and> row_key s = row_key srv) servers = None"
      by (metis (mono_tags, lifting) find_None_iff image_eqI)
    have find: "find (\<lambda>s. row_ok ?rg s \<and> row_key s = k) servers = find (\<lambda>s. row_ok rg s \<and> row_key s = k) servers" for k
      by (rule find_cong) (simp_all add: ok)
    have filter: "filter (row_ok ?rg) servers = filter (row_ok rg) servers" by (rule filter_cong) (simp_all add: ok)
    from Cons.IH [OF step] Cons.prems(2) True none show ?thesis
      by (auto simp: fs find filter split: option.splits)
  next
    case False
    with Cons show ?thesis by (simp add: register_row_cases)
  qed
qed simp

lemma registry_after_load:
  assumes "distinct (map row_key servers)"
  shows "rgFactories (RegisterMCPServers servers rg) k =
      (if HasTool rg k \<and> k \<notin> rgMcp rg then rgFactories rg k
       else case find (\<lambda>s. row_ok rg s \<and> row_key s = k) servers of Some s \<Rightarrow> row_factory s | None \<Rightarrow> None) \<and>
    rgMcp (RegisterMCPServers servers rg) = row_key ` {s \<in> set servers. row_ok rg s}"
proof -
  obtain rg1 next1 where f: "fold register_row servers (rg, []) = (rg1, next1)" by (metis prod.collapse)
  from fold_register_rows [OF assms f] have
    r: "rgMcp rg1 = rgMcp rg" "next1 = map row_key (filter (row_ok rg) servers)"
      "\<And>k. rgFactories rg1 k =
         (case find (\<lambda>s. row_ok rg s \<and> row_key s = k) servers of Some s \<Rightarrow> row_factory s | None \<Rightarrow> rgFactories rg k)"
    by auto
  have builtin: "find (\<lambda>s. row_ok rg s \<and> row_key s = k) servers = None" if "HasTool rg k" "k \<notin> rgMcp rg"
    using that by (auto simp: find_None_iff row_ok_def)
  have "k \<in> set next1 \<longleftrightarrow> find (\<lambda>s. row_ok rg s \<and> row_key s = k) servers \<noteq> None"
    using r(2) by (auto simp: find_None_iff)
  then show ?thesis
    using f r builtin by (auto simp: RegisterMCPServers_def drop_keys_def HasTool_def split: option.splits)
qed

text \<open>C7. After a (re)load the registry mirrors the table: a tool of the program keeps its factory whatever the table
  says, the key of a usable row has the factory of that row, and a key that only an earlier table had is gone.\<close>

theorem registry_mirrors_table:
  assumes "distinct (map row_key servers)"
  shows "rgFactories (RegisterMCPServers servers rg) k =
      (if HasTool rg k \<and> k \<notin> rgMcp rg then rgFactories rg k
       else case find (\<lambda>s. row_ok rg s \<and> row_key s = k) servers of Some s \<Rightarrow> row_factory s | None \<Rightarrow> None) \<and>
    rgMcp (RegisterMCPServers servers rg) = row_key ` {s \<in> set servers. row_ok rg s}"
  using assms by (rule registry_after_load)

definition crm_row :: mcp_server where
  "crm_row = \<lparr>msKey = ''crm'', msURL = ''https://crm.x.org/mcp'', msAuth = ''apikey'', msHeader = [], msScheme = [],
     msTokenEnv = ''CRM_TOKEN'', msClientIDEnv = [], msClientSecretEnv = [], msMetadataURL = [], msDescription = []\<rparr>"

definition builtin_registry :: tool_registry where
  "builtin_registry = \<lparr>rgFactories = [''report'' \<mapsto> Builtin ''report''], rgDescriptions = (\<lambda>k. None), rgMcp = {}\<rparr>"

lemma registry_mirrors_table_witness:
  "rgFactories (RegisterMCPServers [crm_row, crm_row\<lparr>msKey := ''report''\<rparr>] builtin_registry) ''report'' = Some (Builtin ''report'')"
proof -
  have d: "distinct (map row_key [crm_row, crm_row\<lparr>msKey := ''report''\<rparr>])" by code_simp
  show ?thesis
    using registry_mirrors_table [OF d, of builtin_registry "''report''"] by (simp add: builtin_registry_def HasTool_def)
qed

text \<open>Two rows with one key: at the first load the first row counts and the second is taken for a tool of the
  program, at a reload of the same table the second replaces the first.\<close>

theorem duplicate_rows_change_on_reload:
  "rgFactories (RegisterMCPServers [crm_row, crm_row\<lparr>msURL := ''https://other''\<rparr>] builtin_registry) ''crm'' =
     row_factory crm_row \<and>
   rgFactories (RegisterMCPServers [crm_row, crm_row\<lparr>msURL := ''https://other''\<rparr>]
     (RegisterMCPServers [crm_row, crm_row\<lparr>msURL := ''https://other''\<rparr>] builtin_registry)) ''crm'' =
     row_factory (crm_row\<lparr>msURL := ''https://other''\<rparr>) \<and>
   row_factory (crm_row\<lparr>msURL := ''https://other''\<rparr>) \<noteq> row_factory crm_row"
  by code_simp

section \<open>The cache of the tools\<close>

text \<open>The tools the cache holds for a key under the present configuration, and what a factory gives in a world.\<close>

definition cached_tools :: "(string \<Rightarrow> string) \<Rightarrow> 'd toolset_state \<Rightarrow> string \<Rightarrow> 'd list option" where
  "cached_tools sig ts k =
     (case tsCache ts k of Some (s, defs) \<Rightarrow> if s = sig k then Some defs else None | None \<Rightarrow> None)"

definition made_tools :: "('w, 'd) connectors \<Rightarrow> tool_registry \<Rightarrow> string \<Rightarrow> 'w \<Rightarrow> 'd list" where
  "made_tools cn rg k w = (case fst (LookupTools cn rg k w) of None \<Rightarrow> [] | Some defs \<Rightarrow> defs)"

text \<open>The tools of a key in an assembly: the cached ones, or what its factory gives at that moment.\<close>

definition key_tools ::
  "('w, 'd) connectors \<Rightarrow> tool_registry \<Rightarrow> (string \<Rightarrow> string) \<Rightarrow> 'd toolset_state \<Rightarrow> string \<Rightarrow> 'd list \<Rightarrow> bool" where
  "key_tools cn rg sig ts k defs \<longleftrightarrow>
     (case cached_tools sig ts k of Some d \<Rightarrow> defs = d | None \<Rightarrow> \<exists>w. defs = made_tools cn rg k w)"

lemma arm_retry_fields [simp]:
  "tsCache (arm_retry t s) = tsCache s" "\<exists>at. tsRetryAt (arm_retry t s) = Some at" "tsRetryAt (arm_retry t s) \<noteq> None"
  by (auto simp: arm_retry_def)

lemma tools_of_key_cached:
  "cached_tools sig ts k = Some d \<Longrightarrow> tools_of_key cn rg now sig k (ts, w) = (d, ts, w)"
  by (simp add: tools_of_key_def cached_tools_def)

lemma tools_of_key_made:
  assumes "cached_tools sig ts k = None" "tools_of_key cn rg now sig k (ts, w) = (defs, ts', w')"
  shows "defs = made_tools cn rg k w"
    "\<exists>e. tsCache ts' = (tsCache ts)(k := e)"
    "tsRetryAt ts \<noteq> None \<Longrightarrow> tsRetryAt ts' \<noteq> None"
    "HasTool rg k \<Longrightarrow> tsRetryAt ts' = None \<Longrightarrow> cached_tools sig ts' k = Some defs"
  using assms
  by (auto simp: tools_of_key_def cached_tools_def made_tools_def HasTool_def LookupTools_def
      split: option.splits prod.splits if_splits)

lemma tools_of_key_keeps:
  assumes "tools_of_key cn rg now sig k (ts, w) = (defs, ts', w')"
  shows "cached_tools sig ts j = Some d \<Longrightarrow> cached_tools sig ts' j = Some d"
    "tsRetryAt ts \<noteq> None \<Longrightarrow> tsRetryAt ts' \<noteq> None"
    "HasTool rg k \<Longrightarrow> tsRetryAt ts' = None \<Longrightarrow> cached_tools sig ts' k = Some defs"
    "key_tools cn rg sig ts k defs"
proof -
  show "cached_tools sig ts' j = Some d" if "cached_tools sig ts j = Some d"
  proof (cases "cached_tools sig ts k")
    case None
    with tools_of_key_made(2) [OF None assms] that show ?thesis by (auto simp: cached_tools_def)
  qed (use assms that in \<open>simp add: tools_of_key_cached\<close>)
  show "tsRetryAt ts \<noteq> None \<Longrightarrow> tsRetryAt ts' \<noteq> None"
    using tools_of_key_made(3) [OF _ assms] assms by (cases "cached_tools sig ts k") (simp_all add: tools_of_key_cached)
  show "HasTool rg k \<Longrightarrow> tsRetryAt ts' = None \<Longrightarrow> cached_tools sig ts' k = Some defs"
    using tools_of_key_made(4) [OF _ assms] assms by (cases "cached_tools sig ts k") (auto simp: tools_of_key_cached)
  show "key_tools cn rg sig ts k defs"
    using tools_of_key_made(1) [OF _ assms] assms
    by (cases "cached_tools sig ts k") (auto simp: tools_of_key_cached key_tools_def)
qed

text \<open>The tools of a list of keys, one part for each key.\<close>

lemma tools_of_keys_parts:
  assumes "tools_of_keys cn rg now sig ks (ts, w) = (defs, ts', w')"
  shows "(\<exists>parts. defs = concat parts \<and> list_all2 (key_tools cn rg sig ts) ks parts) \<and>
    (\<forall>j d. cached_tools sig ts j = Some d \<longrightarrow> cached_tools sig ts' j = Some d) \<and>
    (tsRetryAt ts \<noteq> None \<longrightarrow> tsRetryAt ts' \<noteq> None) \<and>
    (tsRetryAt ts' = None \<longrightarrow> list_all (HasTool rg) ks \<longrightarrow>
       (\<exists>f. defs = concat (map f ks) \<and> list_all (\<lambda>k. cached_tools sig ts' k = Some (f k)) ks))"
  using assms
proof (induction ks arbitrary: ts w defs)
  case (Cons k ks)
  obtain d1 ts1 w1 where one: "tools_of_key cn rg now sig k (ts, w) = (d1, ts1, w1)" by (metis prod_cases3)
  obtain d2 where rest: "tools_of_keys cn rg now sig ks (ts1, w1) = (d2, ts', w')" "defs = d1 @ d2"
    using Cons.prems one by (auto split: prod.splits)
  note step = tools_of_key_keeps [OF one] and IH = Cons.IH [OF rest(1)]
  from IH obtain parts where p: "d2 = concat parts" "list_all2 (key_tools cn rg sig ts1) ks parts" by blast
  have earlier: "key_tools cn rg sig ts j d" if "key_tools cn rg sig ts1 j d" for j d
  proof (cases "cached_tools sig ts j")
    case None
    show ?thesis
    proof (cases "cached_tools sig ts1 j")
      case None
      with \<open>cached_tools sig ts j = None\<close> that show ?thesis by (simp add: key_tools_def)
    next
      case (Some x)
      have "j = k"
      proof (rule ccontr)
        assume "j \<noteq> k"
        then have "cached_tools sig ts1 j = cached_tools sig ts j"
          using tools_of_key_made(2) [OF _ one] one
          by (cases "cached_tools sig ts k") (auto simp: tools_of_key_cached cached_tools_def)
        with Some None show False by simp
      qed
      with Some None one have "x = d1"
        by (auto simp: tools_of_key_def cached_tools_def LookupTools_def split: option.splits prod.splits if_splits)
      with Some that step(4) \<open>j = k\<close> show ?thesis by (simp add: key_tools_def)
    qed
  next
    case (Some x)
    with step(1) [OF Some] that show ?thesis by (simp add: key_tools_def)
  qed
  have "list_all2 (key_tools cn rg sig ts) (k # ks) (d1 # parts)"
    using list_all2_mono [OF p(2) earlier] step(4) by simp
  then have parts: "\<exists>parts. defs = concat parts \<and> list_all2 (key_tools cn rg sig ts) (k # ks) parts"
    using rest(2) p(1) by (intro exI [where x = "d1 # parts"]) simp
  have all: "\<exists>f. defs = concat (map f (k # ks)) \<and> list_all (\<lambda>k. cached_tools sig ts' k = Some (f k)) (k # ks)"
    if n: "tsRetryAt ts' = None" and h: "list_all (HasTool rg) (k # ks)"
  proof -
    obtain f where f: "d2 = concat (map f ks)" "list_all (\<lambda>k. cached_tools sig ts' k = Some (f k)) ks"
      using IH n h by auto
    have "tsRetryAt ts1 = None" using IH n by blast
    with step(3) h IH have k: "cached_tools sig ts' k = Some d1" by auto
    define g where "g j = (case cached_tools sig ts' j of Some d \<Rightarrow> d | None \<Rightarrow> [])" for j
    have g: "map f ks = map g ks" "list_all (\<lambda>k. cached_tools sig ts' k = Some (g k)) (k # ks)"
      using f(2) k by (auto simp: g_def list_all_iff)
    have "defs = concat (map g (k # ks))" using rest(2) f(1) g(1) k by (simp add: g_def)
    with g(2) show ?thesis by blast
  qed
  from parts all step(1,2) IH show ?case by auto
qed simp

lemma tools_of_keys_cached:
  "list_all (\<lambda>k. cached_tools sig ts k = Some (f k)) ks \<Longrightarrow>
   tools_of_keys cn rg now sig ks (ts, w) = (concat (map f ks), ts, w)"
  by (induction ks) (simp_all add: tools_of_key_cached)

text \<open>The factory of a cached key is not looked at.\<close>

lemma tools_of_keys_cong:
  "(\<And>k. cached_tools sig ts k = None \<Longrightarrow> LookupTools cn' rg' k = LookupTools cn rg k) \<Longrightarrow>
   tools_of_keys cn' rg' now sig ks (ts, w) = tools_of_keys cn rg now sig ks (ts, w)"
proof (induction ks arbitrary: ts w)
  case (Cons k ks)
  have one: "tools_of_key cn' rg' now sig k (ts, w) = tools_of_key cn rg now sig k (ts, w)"
  proof (cases "cached_tools sig ts k")
    case None
    show ?thesis by (simp only: tools_of_key_def Cons.prems [OF None])
  qed (simp add: tools_of_key_cached)
  obtain d1 ts1 w1 where run: "tools_of_key cn rg now sig k (ts, w) = (d1, ts1, w1)" by (metis prod_cases3)
  have "tools_of_keys cn' rg' now sig ks (ts1, w1) = tools_of_keys cn rg now sig ks (ts1, w1)"
    by (rule Cons.IH) (metis Cons.prems tools_of_key_keeps(1) [OF run] not_None_eq)
  with one run show ?case by simp
qed simp

lemma last_named_append: "last_named name (ts @ [t]) = filter (\<lambda>u. name u \<noteq> name t) (last_named name ts) @ [t]"
proof -
  define step where "step = (\<lambda>t acc. if name t \<in> name ` set acc then acc else acc @ [t])"
  have "foldr step ts [t] = t # filter (\<lambda>u. name u \<noteq> name t) (foldr step ts [])"
  proof (induction ts)
    case (Cons u ts)
    let ?F = "foldr step ts []"
    have "name u \<in> name ` set (t # filter (\<lambda>u. name u \<noteq> name t) ?F) \<longleftrightarrow> name u = name t \<or> name u \<in> name ` set ?F"
      by (auto simp: image_iff)
    then show ?case using Cons by (simp add: step_def)
  qed simp
  moreover have "last_named name xs = rev (foldr step xs [])" for xs by (simp add: last_named_def step_def)
  moreover have "step t [] = [t]" by (simp add: step_def)
  ultimately show ?thesis by (simp add: rev_filter)
qed

lemma last_named_names: "distinct (map name (last_named name ts)) \<and> name ` set (last_named name ts) = name ` set ts"
proof (induction ts rule: rev_induct)
  case Nil
  then show ?case by (simp add: last_named_def)
next
  case (snoc t ts)
  then have "distinct (map name (filter (\<lambda>u. name u \<noteq> name t) (last_named name ts)))"
    by (simp add: distinct_map_filter)
  moreover have "name ` set (filter (\<lambda>u. name u \<noteq> name t) (last_named name ts)) = name ` set (last_named name ts) - {name t}" by auto
  ultimately show ?case using snoc by (auto simp: last_named_append)
qed

lemma cached_retry [simp]: "cached_tools sig (ts\<lparr>tsRetryAt := t\<rparr>) = cached_tools sig ts"
  by (simp add: fun_eq_iff cached_tools_def)

lemma dedup_names:
  assumes "\<forall>xs. mset (order xs) = mset xs"
  shows "distinct (map name (filterDisabledTools name (dedupTools order name ts) off))"
    "name ` set (filterDisabledTools name (dedupTools order name ts) off) = name ` set ts - set off"
    "mset (filterDisabledTools name (dedupTools order name ts) off) = {#t \<in># mset (last_named name ts). name t \<notin> set off#}"
proof -
  have m: "mset (order (last_named name ts)) = mset (last_named name ts)" using assms by blast
  then have set: "set (order (last_named name ts)) = set (last_named name ts)" by (rule mset_eq_setD)
  from m have "mset (map name (order (last_named name ts))) = mset (map name (last_named name ts))" by simp
  then have "distinct (map name (order (last_named name ts)))"
    using last_named_names [of name ts] by (metis mset_eq_imp_distinct_iff)
  then show "distinct (map name (filterDisabledTools name (dedupTools order name ts) off))"
    by (simp add: filterDisabledTools_def dedupTools_def distinct_map_filter)
  show "name ` set (filterDisabledTools name (dedupTools order name ts) off) = name ` set ts - set off"
  proof -
    have "name ` {t \<in> A. name t \<notin> D} = name ` A - D" for A and D :: "string set" by auto
    then show ?thesis using set last_named_names [of name ts] by (simp add: filterDisabledTools_def dedupTools_def)
  qed
  show "mset (filterDisabledTools name (dedupTools order name ts) off) = {#t \<in># mset (last_named name ts). name t \<notin> set off#}"
    using m by (simp add: filterDisabledTools_def dedupTools_def)
qed

lemma assembled_again:
  assumes input: "keys = wanted_keys cfg email" "sig = mcp_signature sig_of servers"
    and run: "tools_of_keys cn rg now sig keys (ts\<lparr>tsRetryAt := None\<rparr>, w) = (defs, ts2, w1)"
    and ts1: "ts1 = ts2\<lparr>tsCache := (\<lambda>k. if k \<in> set keys then tsCache ts2 k else None)\<rparr>"
    and quiet: "tsRetryAt ts1 = None" "list_all (HasTool rg) keys"
  shows "buildAgentTools cn' rg' now' sig_of order name core cfg servers email (ts1, w2) =
    (filterDisabledTools name (dedupTools order name (core @ defs)) (disabledToolNames cfg email), ts1, w2)"
proof -
  have "tsRetryAt ts2 = None" using quiet(1) ts1 by simp
  then obtain f where f: "defs = concat (map f keys)" "list_all (\<lambda>k. cached_tools sig ts2 k = Some (f k)) keys"
    using tools_of_keys_parts [OF run] quiet(2) by blast
  have "list_all (\<lambda>k. cached_tools sig ts1 k = Some (f k)) keys"
    using f(2) ts1 by (simp add: list_all_iff cached_tools_def)
  moreover have "ts1\<lparr>tsRetryAt := None\<rparr> = ts1" using quiet(1) by simp
  moreover have "ts1\<lparr>tsCache := (\<lambda>k. if k \<in> set keys then tsCache ts1 k else None)\<rparr> = ts1"
    using ts1 by (simp add: fun_eq_iff)
  ultimately show ?thesis
    using tools_of_keys_cached [of sig ts1 f keys cn' rg' now' w2] f(1)
    by (simp add: buildAgentTools_def Let_def input)
qed


text \<open>An agent with a tool of the program and a remote server, whose tools it has in the cache; afterwards the server
  is down.\<close>

definition blank_agent :: agent_def where
  "blank_agent = \<lparr>adName = [], adEmail = [], adRole = [], adDescription = [], adTools = [], adDisabledTools = [],
     adLLMProvider = [], adLLMModel = [], adLLMOpenRouterBackup = [], adSystemPrompt = [], adWhitelist = [],
     adBlacklist = [], adMaxHistoryChars = None, adMaxTokens = None, adMaxTurns = None, adMaxToolResultChars = None,
     adToolResultSpillChars = None, adMaxEmailRetries = None, adMaxMessageBodyChars = None, adAgentTimeout = None,
     adWaitingWatchdogMinutes = None, adEmailServer = [], adSmtpServer = [], adEmailInsecureTLS = None\<rparr>"

definition equipped :: agents_config where
  "equipped = \<lparr>acCommon = empty_common, acAgents = [blank_agent\<lparr>adEmail := ''a@x.org'', adTools := [''report'', ''crm'']\<rparr>],
     acExternal = []\<rparr>"

definition demo_connectors :: "(string list, string) connectors" where
  "demo_connectors = \<lparr>cnGetenv = (\<lambda>k. ''key''), cnBuiltin = (\<lambda>k w. ([k @ ''_tool''], w @ [k])),
     cnBridge = (\<lambda>n u h w. (Inl (Err ''connection refused''), w @ [n])), cnOAuth = (\<lambda>n u i s m w. (Inr [], w))\<rparr>"

definition demo_registry :: tool_registry where
  "demo_registry = RegisterMCPServers [crm_row] builtin_registry"

definition demo_cache :: "string toolset_state" where
  "demo_cache = \<lparr>tsCache = [''crm'' \<mapsto> (''https://crm.x.org/mcp'', [''crm_search''])], tsRetryAt = None\<rparr>"

abbreviation demo_assembly ::
  "string toolset_state \<times> string list \<Rightarrow> string list \<times> string toolset_state \<times> string list" where
  "demo_assembly \<equiv> buildAgentTools demo_connectors demo_registry (\<lambda>w. utc 0) msURL (\<lambda>xs. xs) (\<lambda>t. t)
     [''message_tool''] (Some equipped) [crm_row] ''a@x.org''"


section \<open>The coworkers in the prompt\<close>

text \<open>A price in a coworker's description does not reach the prompt: the text put in for \<open>{{coworkers}}\<close> is read as a
  replacement template, which drops a dollar sign with the word after it.\<close>

theorem prices_vanish_from_prompt:
  "system_prompt ''Team: {{Coworkers}}'' ''Ann sells the $99 plan'' = ''Team: Ann sells the  plan''"
  by code_simp

end
