(* ===== verification/Envfile.thy ===== *)
theory Envfile
  imports Config
begin

text \<open>
  The \<open>.env\<close> files the configurator edits (\<open>scripts/configurator/envfile.go\<close>) and the secrets it keeps in one
  (\<open>secrets.go\<close>): parsing into entries that remember their lines, the operations on the entries, rendering, and
  the mailbox password of an agent.
\<close>

section \<open>Entries\<close>

text \<open>An entry with the empty key is a comment, a blank line or a line that is not understood.\<close>

record env_entry =
  enLines :: "string list"
  enKey :: string
  enValue :: string
  enQuoted :: bool
  enCommented :: bool

type_synonym env_file = "env_entry list"

definition plain_entry :: "string \<Rightarrow> env_entry" where
  "plain_entry line = \<lparr>enLines = [line], enKey = [], enValue = [], enQuoted = False, enCommented = False\<rparr>"

fun closingDQuote :: "string \<Rightarrow> nat option" where
  "closingDQuote [] = None"
| "closingDQuote (c # cs) =
     (if c = backslash then (case cs of [] \<Rightarrow> None | d # ds \<Rightarrow> map_option (\<lambda>i. i + 2) (closingDQuote ds))
      else if c = dquote then Some 0 else map_option Suc (closingDQuote cs))"

definition unescape_char :: "char \<Rightarrow> char" where
  "unescape_char c = (if c = CHR ''n'' then nl else if c = CHR ''t'' then CHR 0x09 else c)"

fun unescapeDQ :: "string \<Rightarrow> string" where
  "unescapeDQ [] = []"
| "unescapeDQ (c # cs) =
     (if c = backslash then (case cs of [] \<Rightarrow> [c] | d # ds \<Rightarrow> unescape_char d # unescapeDQ ds)
      else c # unescapeDQ cs)"

definition key_start :: "char \<Rightarrow> bool" where
  "key_start c \<longleftrightarrow> c = CHR ''_'' \<or> is_upper c \<or> is_lower c"

definition isValidKey :: "string \<Rightarrow> bool" where
  "isValidKey s = (case s of [] \<Rightarrow> False | c # cs \<Rightarrow> key_start c \<and> list_all (\<lambda>d. key_start d \<or> is_digit d) cs)"

section \<open>Parsing\<close>

text \<open>
  A line that starts an entry: whether it is commented out, its key and what follows the equals sign.  \<open>None\<close>
  for a line that is kept as it is.
\<close>

definition scanned :: "string \<Rightarrow> (bool \<times> string) option" where
  "scanned trimmed =
     (if has_prefix ''#'' trimmed then
        (let after = trim_space (tl trimmed)
         in case index_char (CHR ''='') after of
              None \<Rightarrow> None
            | Some eq \<Rightarrow> if eq > 0 \<and> isValidKey (trim_space (take eq after)) then Some (True, after) else None)
      else Some (False, trimmed))"

definition entry_head :: "string \<Rightarrow> (bool \<times> string \<times> string) option" where
  "entry_head line =
     (let trimmed = trim_space line
      in if trimmed = [] then None
         else case scanned trimmed of
                None \<Rightarrow> None
              | Some (commented, scan) \<Rightarrow>
                  (case index_char (CHR ''='') scan of
                     None \<Rightarrow> None
                   | Some eq \<Rightarrow>
                       if eq = 0 then None else Some (commented, trim_space (take eq scan), drop (Suc eq) scan)))"

text \<open>The lines up to the closing quote of a value: their text without the quote, as they are, and what remains.\<close>

fun close_lines :: "string list \<Rightarrow> string list \<times> string list \<times> string list" where
  "close_lines [] = ([], [], [])"
| "close_lines (nx # ls) =
     (case closingDQuote nx of
        Some i \<Rightarrow> ([take i nx], [nx], ls)
      | None \<Rightarrow> (case close_lines ls of (parts, raw, rest) \<Rightarrow> (nx # parts, nx # raw, rest)))"

definition take_entry :: "string \<Rightarrow> string list \<Rightarrow> env_entry \<times> string list" where
  "take_entry line ls =
     (case entry_head line of
        None \<Rightarrow> (plain_entry line, ls)
      | Some (commented, key, rest) \<Rightarrow>
          let e = (plain_entry line)\<lparr>enKey := key, enCommented := commented\<rparr>; body = tl rest
          in if has_prefix [dquote] rest then
               (case closingDQuote body of
                  Some i \<Rightarrow> (e\<lparr>enQuoted := True, enValue := unescapeDQ (take i body)\<rparr>, ls)
                | None \<Rightarrow>
                    (case close_lines ls of
                       (parts, raw, ls') \<Rightarrow>
                         (e\<lparr>enLines := line # raw, enQuoted := True,
                            enValue := unescapeDQ (join [nl] (body # parts))\<rparr>, ls')))
             else if has_prefix [squote] rest then
               (e\<lparr>enQuoted := True,
                  enValue := (case index_char squote body of Some i \<Rightarrow> take i body | None \<Rightarrow> body)\<rparr>, ls)
             else (e\<lparr>enValue := trim_space rest\<rparr>, ls))"

lemma close_lines_length: "close_lines ls = (parts, raw, rest) \<Longrightarrow> length rest \<le> length ls"
  by (induction ls arbitrary: parts raw rest) (fastforce split: option.splits prod.splits)+

lemma take_entry_length: "(e, rest) = take_entry line ls \<Longrightarrow> length rest \<le> length ls"
  by (auto simp: take_entry_def Let_def dest: close_lines_length split: option.splits prod.splits if_splits)

function parse_entries :: "string list \<Rightarrow> env_file" where
  "parse_entries [] = []"
| "parse_entries (line # ls) =
     (case take_entry line ls of (e, rest) \<Rightarrow> e # parse_entries rest)"
  by pat_completeness auto
termination
  by (relation "measure length") (auto dest: take_entry_length)

definition file_lines :: "string \<Rightarrow> string list" where
  "file_lines s = (let ls = split_char nl s in if last ls = [] then butlast ls else ls)"

definition parseEnv :: "string \<Rightarrow> env_file" where
  "parseEnv s = parse_entries (file_lines s)"

section \<open>Operations\<close>

definition needsQuoting :: "string \<Rightarrow> bool" where
  "needsQuoting s \<longleftrightarrow> list_ex (\<lambda>c. c \<in> set [CHR '' '', CHR 0x09, CHR ''#'', dquote, squote, nl, CHR ''='', CHR '','']) s"

definition escapeDQ :: "string \<Rightarrow> string" where
  "escapeDQ v = replace_all [dquote] [backslash, dquote] (replace_all [backslash] [backslash, backslash] v)"

definition formatVar :: "string \<Rightarrow> string \<Rightarrow> bool \<Rightarrow> string" where
  "formatVar key v commented =
     (if commented then ''#'' else []) @ key @ ''='' @
     (if needsQuoting v then [dquote] @ escapeDQ v @ [dquote] else v)"

definition envGet :: "string \<Rightarrow> env_file \<Rightarrow> string option" where
  "envGet key f = map_option enValue (find (\<lambda>e. enKey e = key \<and> \<not> enCommented e) f)"

definition envGetAny :: "string \<Rightarrow> env_file \<Rightarrow> (string \<times> bool) option" where
  "envGetAny key f = map_option (\<lambda>e. (enValue e, enCommented e)) (find (\<lambda>e. enKey e = key) f)"

definition envHas :: "string \<Rightarrow> env_file \<Rightarrow> bool" where
  "envHas key f \<longleftrightarrow> list_ex (\<lambda>e. enKey e = key) f"

definition set_entry :: "string \<Rightarrow> string \<Rightarrow> env_entry \<Rightarrow> env_entry" where
  "set_entry key v e = e\<lparr>enValue := v, enCommented := False, enLines := [formatVar key v False]\<rparr>"

fun envSet :: "string \<Rightarrow> string \<Rightarrow> env_file \<Rightarrow> env_file" where
  "envSet key v [] = [set_entry key v ((plain_entry [])\<lparr>enKey := key\<rparr>)]"
| "envSet key v (e # es) = (if enKey e = key then set_entry key v e # es else e # envSet key v es)"

definition envDelete :: "string \<Rightarrow> env_file \<Rightarrow> env_file" where
  "envDelete key f = filter (\<lambda>e. enKey e \<noteq> key) f"

fun envComment :: "string \<Rightarrow> env_file \<Rightarrow> env_file" where
  "envComment key [] = []"
| "envComment key (e # es) =
     (if enKey e = key \<and> \<not> enCommented e
      then e\<lparr>enCommented := True, enLines := [formatVar key (enValue e) True]\<rparr> # es
      else e # envComment key es)"

definition Render :: "env_file \<Rightarrow> string" where
  "Render f = join [nl] (map (\<lambda>e. join [nl] (enLines e)) f) @ [nl]"

definition envKeys :: "env_file \<Rightarrow> string list" where
  "envKeys f = rev (remdups (rev (filter (\<lambda>k. k \<noteq> []) (map enKey f))))"

definition SortedKeys :: "env_file \<Rightarrow> string list" where
  "SortedKeys f = sort (envKeys f)"

section \<open>What a file means\<close>

text \<open>
  The content of an entry, its physical lines, and the entries that end where their lines end: an entry whose
  closing quote is missing goes on to the end of the file.
\<close>

definition meaning :: "env_entry \<Rightarrow> string \<times> string \<times> bool" where
  "meaning e = (enKey e, enValue e, enCommented e)"

definition phys :: "env_entry \<Rightarrow> string list" where
  "phys e = concat (map (split_char nl) (enLines e))"

definition terminated :: "env_entry \<Rightarrow> bool" where
  "terminated e \<longleftrightarrow>
     (case phys e of
        [] \<Rightarrow> False
      | l # ls \<Rightarrow> (case take_entry l (ls @ [[]]) of (e', rest) \<Rightarrow> meaning e' = meaning e \<and> rest = [[]]))"

lemma close_lines_stable:
  "close_lines (ls @ [[]]) = (parts, raw, [[]]) \<Longrightarrow> close_lines (ls @ rest) = (parts, raw, rest)"
  by (induction ls arbitrary: parts raw) (auto split: option.splits prod.splits)

lemma take_entry_stable:
  "take_entry l (ls @ [[]]) = (e, [[]]) \<Longrightarrow> take_entry l (ls @ rest) = (e, rest)"
  by (auto simp: take_entry_def Let_def split: option.splits prod.splits if_splits
      dest!: close_lines_stable [where rest = rest])

lemma parse_terminated:
  "list_all terminated f \<Longrightarrow> map meaning (parse_entries (concat (map phys f))) = map meaning f"
proof (induction f)
  case (Cons e f)
  then obtain l ls e' where ls: "phys e = l # ls" "take_entry l (ls @ [[]]) = (e', [[]])" "meaning e' = meaning e"
    by (auto simp: terminated_def split: list.splits prod.splits)
  from take_entry_stable [OF ls(2)] ls(1,3) Cons show ?case by simp
qed simp

lemma join_concat:
  "(\<And>ls. ls \<in> set lss \<Longrightarrow> ls \<noteq> []) \<Longrightarrow> join sep (map (join sep) lss) = join sep (concat lss)"
proof (induction lss)
  case (Cons ls lss)
  have app: "xs \<noteq> [] \<Longrightarrow> ys \<noteq> [] \<Longrightarrow> join sep (xs @ ys) = join sep xs @ sep @ join sep ys" for xs ys
    by (induction sep xs rule: join.induct) (auto simp: neq_Nil_conv)
  show ?case
  proof (cases lss)
    case (Cons a b)
    then have "concat lss \<noteq> []" using Cons.prems by auto
    with Cons.prems Cons.IH app [of ls "concat lss"] show ?thesis by (simp add: Cons)
  qed simp
qed simp

lemma lines_of_Render:
  assumes "list_all terminated f" "f \<noteq> []"
  shows "file_lines (Render f) = concat (map phys f)"
proof -
  have ne: "enLines e \<noteq> []" "phys e \<noteq> []" if "e \<in> set f" for e
    using assms(1) that by (auto simp: list_all_iff terminated_def phys_def split: list.splits)
  let ?L = "concat (map phys f)"
  have one: "join [nl] (enLines e) = join [nl] (phys e)" for e
  proof -
    have "join [nl] (map (join [nl]) (map (split_char nl) (enLines e))) = join [nl] (phys e)"
      unfolding phys_def by (rule join_concat) auto
    then show ?thesis by (simp add: join_split_char o_def)
  qed
  have "join [nl] (map (\<lambda>e. join [nl] (enLines e)) f) = join [nl] (map (join [nl]) (map phys f))"
    by (simp add: one o_def)
  also have "\<dots> = join [nl] ?L" using ne by (intro join_concat) auto
  finally have r: "Render f = join [nl] ?L @ [nl]" by (simp add: Render_def)
  have L: "?L \<noteq> []" using ne(2) assms(2) by (cases f) auto
  have snoc: "xs \<noteq> [] \<Longrightarrow> join [nl] xs @ [nl] = join [nl] (xs @ [[]])" for xs
    by (induction "[nl]" xs rule: join.induct) auto
  have "split_char nl (join [nl] (?L @ [[]])) = ?L @ [[]]"
    by (rule split_char_join) (auto simp: phys_def dest: split_char_no_sep)
  then show ?thesis using L by (simp add: r snoc file_lines_def)
qed

lemma envGet_meaning: "envGet k f = map_option (\<lambda>m. fst (snd m)) (find (\<lambda>(k', v, c). k' = k \<and> \<not> c) (map meaning f))"
  by (induction f) (auto simp: envGet_def meaning_def)

lemma reload_get:
  assumes "list_all terminated f" "k \<noteq> []"
  shows "envGet k (parseEnv (Render f)) = envGet k f"
proof (cases "f = []")
  case True
  have "parseEnv (Render []) = [plain_entry []]" by code_simp
  with True assms(2) show ?thesis by (simp add: envGet_def plain_entry_def)
next
  case False
  with assms show ?thesis
    by (simp add: envGet_meaning parseEnv_def lines_of_Render parse_terminated)
qed

lemma close_lines_raw: "close_lines ls = (parts, raw, rest) \<Longrightarrow> raw @ rest = ls"
  by (induction ls arbitrary: parts raw) (auto split: option.splits prod.splits)

lemma take_entry_lines: "take_entry l ls = (e, rest) \<Longrightarrow> enLines e @ rest = l # ls"
  by (auto simp: take_entry_def plain_entry_def Let_def split: option.splits prod.splits if_splits dest!: close_lines_raw)

lemma split_lines_again: "(\<And>w. w \<in> set ws \<Longrightarrow> nl \<notin> set w) \<Longrightarrow> concat (map (split_char nl) ws) = ws"
  by (induction ws) (simp_all add: split_char_id)

lemma reload_terminated: "list_all terminated f \<Longrightarrow> list_all terminated (parseEnv (Render f))"
proof (cases "f = []")
  case False
  assume "list_all terminated f"
  moreover have "list_all terminated f \<Longrightarrow> list_all terminated (parse_entries (concat (map phys f)))"
  proof (induction f)
    case (Cons e f)
    then obtain l ls e' where ls: "phys e = l # ls" "take_entry l (ls @ [[]]) = (e', [[]])"
      by (auto simp: terminated_def split: list.splits prod.splits)
    have lines: "enLines e' = phys e" using take_entry_lines [OF ls(2)] ls(1) by simp
    have "concat (map (split_char nl) (phys e)) = phys e"
      by (rule split_lines_again) (auto simp: phys_def dest: split_char_no_sep)
    then have "phys e' = l # ls" using lines ls(1) by (simp add: phys_def)
    with ls(2) have "terminated e'" by (simp add: terminated_def)
    with take_entry_stable [OF ls(2)] ls(1) Cons show ?case by simp
  qed simp
  ultimately show ?thesis using False by (simp add: parseEnv_def lines_of_Render)
next
  case True
  have "list_all terminated (parseEnv (Render []))" by code_simp
  with True show ?thesis by simp
qed

section \<open>Setting a value\<close>

text \<open>
  Keys that a line can hold, and values that come back: an unquoted value without outer white space, or a quoted
  one whose first line does not end with white space when there are more lines.
\<close>

definition plain_key :: "string \<Rightarrow> bool" where
  "plain_key k \<longleftrightarrow> k \<noteq> [] \<and> trim_space k = k \<and> hd k \<noteq> CHR ''#'' \<and> CHR ''='' \<notin> set k \<and> nl \<notin> set k"

definition storable :: "string \<Rightarrow> bool" where
  "storable v \<longleftrightarrow>
     (if needsQuoting v
      then (case split_char nl v of x # y # ys \<Rightarrow> trim_right is_space x = x | _ \<Rightarrow> True)
      else trim_space v = v)"

lemma replace_all_char: "replace_all [c] new s = concat (map (\<lambda>x. if x = c then new else [x]) s)"
proof (induction s)
  case (Cons x s)
  then show ?case by (subst replace_all.simps) auto
qed (simp add: replace_all.simps)

lemma not_space_dquote [simp]: "\<not> is_space dquote"
  by code_simp

lemma escapeDQ_simps [simp]:
  "escapeDQ [] = []"
  "escapeDQ (c # cs) = (if c = backslash \<or> c = dquote then [backslash, c] else [c]) @ escapeDQ cs"
  by (auto simp: escapeDQ_def replace_all_char)

lemma closingDQuote_escape: "closingDQuote (escapeDQ v @ dquote # r) = Some (length (escapeDQ v))"
  by (induction v) auto

lemma closingDQuote_open: "closingDQuote (escapeDQ v) = None"
  by (induction v) auto

lemma unescape_escape: "unescapeDQ (escapeDQ v) = v"
  by (induction v) (auto simp: unescape_char_def)

lemma escapeDQ_eq_Nil [simp]: "escapeDQ v = [] \<longleftrightarrow> v = []"
  by (cases v) auto

lemma last_escapeDQ: "v \<noteq> [] \<Longrightarrow> last (escapeDQ v) = last v"
  by (induction v) auto

lemma split_escape: "split_char nl (escapeDQ v) = map escapeDQ (split_char nl v)"
  unfolding split_char_def by (induction v) (auto split: list.splits)

lemma close_escaped:
  "close_lines (map escapeDQ ms @ (escapeDQ l @ [dquote]) # rest) =
     (map escapeDQ (ms @ [l]), map escapeDQ ms @ [escapeDQ l @ [dquote]], rest)"
  by (induction ms) (simp_all add: closingDQuote_escape closingDQuote_open)

lemma split_append_line:
  assumes "nl \<notin> set a"
  shows "split_char nl (a @ b) = (a @ hd (split_char nl b)) # tl (split_char nl b)"
  using assms unfolding split_char_def
  by (induction a) (auto simp: neq_Nil_conv split: list.splits)

lemma split_snoc_line:
  assumes "nl \<notin> set b"
  shows "split_char nl (a @ b) = butlast (split_char nl a) @ [last (split_char nl a) @ b]"
proof -
  have "split_by (\<lambda>c. c = nl) b = [b]" using assms by (intro split_by_id) auto
  then show ?thesis
    unfolding split_char_def by (induction a) (auto simp: neq_Nil_conv split: list.splits)
qed

lemma trim_right_last: "trim_right P r = r \<Longrightarrow> r \<noteq> [] \<Longrightarrow> \<not> P (last r)"
  unfolding trim_right_def by (metis hd_dropWhile hd_rev rev_is_Nil_conv rev_rev_ident)

lemma trim_by_right: "trim_by P v = v \<Longrightarrow> trim_right P v = v"
  using last_trim_by [of P v] by (cases "v = []") (auto intro: trim_right_id)

lemma index_char_append: "d \<notin> set a \<Longrightarrow> index_char d (a @ d # b) = Some (length a)"
  by (induction a) auto

lemma entry_head_plain:
  assumes "plain_key k" "trim_right is_space r = r"
  shows "entry_head (k @ ''='' @ r) = Some (False, k, r)"
proof -
  have k: "k \<noteq> []" "trim_space k = k" "hd k \<noteq> CHR ''#''" "CHR ''='' \<notin> set k" "\<not> is_space (hd k)"
    using assms(1) hd_trim_by [of is_space k] by (auto simp: plain_key_def)
  have "\<not> is_space (last (''='' @ r))"
    using trim_right_last [OF assms(2)] by (cases "r = []") auto
  then have t: "trim_space (k @ ''='' @ r) = k @ ''='' @ r"
    using k by (intro trim_by_id) auto
  have "scanned (k @ ''='' @ r) = Some (False, k @ ''='' @ r)"
    using k by (cases k) (auto simp: scanned_def)
  with k t show ?thesis by (simp add: entry_head_def index_char_append)
qed

lemma set_entry_terminated:
  assumes "plain_key k" "storable v" "enKey e = k"
  shows "terminated (set_entry k v e)"
proof (cases "needsQuoting v")
  case False
  then have "nl \<notin> set v" "v = [] \<or> hd v \<noteq> dquote \<and> hd v \<noteq> squote"
    by (auto simp: needsQuoting_def list_ex_iff intro: list.set_sel(1))
  moreover from this assms(1) have "split_char nl (k @ ''='' @ v) = [k @ ''='' @ v]"
    by (intro split_char_id) (auto simp: plain_key_def)
  moreover have "trim_space v = v" using assms(2) False by (simp add: storable_def)
  ultimately show ?thesis
    using assms(1,3) False entry_head_plain [OF assms(1) trim_by_right, of v]
    by (cases v) (auto simp: terminated_def phys_def set_entry_def formatVar_def take_entry_def meaning_def
        plain_entry_def)
next
  case True
  let ?a = "k @ ''='' @ [dquote]"
  have a: "nl \<notin> set ?a" using assms(1) by (auto simp: plain_key_def)
  show ?thesis
  proof (cases "split_char nl v")
    case (Cons x ys)
    show ?thesis
    proof (cases ys rule: rev_cases)
      case Nil
      then have "nl \<notin> set (escapeDQ v)" "v = x"
        using Cons join_split_char [of nl v] split_char_no_sep [of _ nl "escapeDQ v"] by (auto simp: split_escape)
      with a have "split_char nl (?a @ escapeDQ v @ [dquote]) = [?a @ escapeDQ v @ [dquote]]"
        by (intro split_char_id) auto
      moreover have "entry_head (k @ ''='' @ (dquote # escapeDQ v @ [dquote])) = Some (False, k, dquote # escapeDQ v @ [dquote])"
        by (rule entry_head_plain [OF assms(1)], rule trim_right_id) simp_all
      ultimately show ?thesis
        using assms(3) True
        by (simp add: terminated_def phys_def set_entry_def formatVar_def take_entry_def meaning_def plain_entry_def
            closingDQuote_escape unescape_escape trim_right_id)
    next
      case (snoc ms l)
      have sp: "split_char nl (?a @ escapeDQ v @ [dquote]) =
          (?a @ escapeDQ x) # map escapeDQ ms @ [escapeDQ l @ [dquote]]"
        using a Cons snoc by (simp add: split_append_line [OF a, simplified] split_snoc_line split_escape)
      have "trim_right is_space x = x"
        using assms(2) True Cons snoc by (cases ms) (auto simp: storable_def)
      then have "trim_right is_space (dquote # escapeDQ x) = dquote # escapeDQ x"
        by (cases "x = []") (auto intro!: trim_right_id dest: trim_right_last simp: last_escapeDQ)
      from entry_head_plain [OF assms(1) this] have
        h: "entry_head (k @ CHR ''='' # dquote # escapeDQ x) = Some (False, k, dquote # escapeDQ x)" by simp
      have "join [nl] (escapeDQ x # map escapeDQ (ms @ [l])) = escapeDQ v"
        using Cons snoc join_split_char [of nl "escapeDQ v"] by (simp add: split_escape)
      then show ?thesis
        using assms(3) True sp h close_escaped [of ms l "[[]]"]
        by (simp add: terminated_def phys_def set_entry_def formatVar_def take_entry_def meaning_def plain_entry_def
            closingDQuote_open unescape_escape)
    qed
  qed simp
qed

lemma envSet_terminated:
  "list_all terminated f \<Longrightarrow> plain_key k \<Longrightarrow> storable v \<Longrightarrow> list_all terminated (envSet k v f)"
  by (induction f) (simp_all add: set_entry_terminated plain_entry_def)

lemma envGet_envSet: "envGet k' (envSet k v f) = (if k' = k then Some v else envGet k' f)"
  by (induction f) (auto simp: envGet_def set_entry_def plain_entry_def)

section \<open>The files of a deployment\<close>

text \<open>
  The files below the project root: the secrets and their example, the roster, the MCP catalog, the compose file,
  and below \<open>services/dms\<close> whether the configuration directory exists, whether the service is switched off, the
  three postfix files and the mailbox accounts; last the paths of the OAuth token files and the outcome of a write
  to a path.  A refused write leaves the file as it was.  Paths are relative to the root.
\<close>

datatype disk_fault = Permission | Fault goerror

record conf_disk =
  cdSecrets :: "string fsfile"
  cdSecretsExample :: "string fsfile"
  cdRoster :: "string fsfile"
  cdCatalog :: "string fsfile"
  cdCompose :: "string fsfile"
  cdDmsDir :: bool
  cdDisabled :: bool
  cdTransport :: "string fsfile"
  cdSenderAccess :: "string fsfile"
  cdMainCf :: "string fsfile"
  cdAccounts :: "string fsfile"
  cdTokens :: "string list"
  cdFault :: "string \<Rightarrow> disk_fault option"

fun fsWriteError :: "string \<Rightarrow> disk_fault \<Rightarrow> goerror" where
  "fsWriteError path Permission =
     Err (''permission denied writing '' @ path @ [nl] @ ''The configurator can'' @ [squote] @
          ''t write this path. Make sure the file and its parent directory are writable by the user running the '' @
          ''configurator '' @ em_dash @ '' check the ownership and permissions (chmod/chown) of '' @ path @
          '' and the directory it lives in '' @ em_dash @ '' then try again.'')"
| "fsWriteError path (Fault e) = Wrap (''could not write '' @ path @ '': '') e []"

definition write_to :: "string \<Rightarrow> (conf_disk \<Rightarrow> conf_disk) \<Rightarrow> (conf_disk, unit) io" where
  "write_to path upd d =
     (case cdFault d path of Some e \<Rightarrow> (Inl (fsWriteError path e), d) | None \<Rightarrow> (Inr (), upd d))"

definition config_dir :: string where "config_dir = ''configs''"
definition secretsPath :: string where "secretsPath = ''configs/secrets.env''"

section \<open>Secrets\<close>

definition loadSecrets :: "conf_disk \<Rightarrow> env_file" where
  "loadSecrets d =
     (case cdSecrets d of
        Stored s \<Rightarrow> parseEnv s
      | _ \<Rightarrow> (case cdSecretsExample d of Stored s \<Rightarrow> parseEnv s | _ \<Rightarrow> []))"

definition saveSecrets :: "env_file \<Rightarrow> (conf_disk, unit) io" where
  "saveSecrets f =
     io_bind (write_to config_dir (\<lambda>d. d)) (\<lambda>_.
       write_to secretsPath (\<lambda>d. d\<lparr>cdSecrets := Stored (Render f)\<rparr>))"

definition emailPasswordKey :: "string \<Rightarrow> string" where
  "emailPasswordKey email = map upper_char (emailStem email) @ ''_EMAIL_PASSWORD''"

definition setAgentPassword :: "string \<Rightarrow> string \<Rightarrow> (conf_disk, unit) io" where
  "setAgentPassword email password d =
     (if trim_space email = [] then (ok, d)
      else saveSecrets
             (if trim_space password = [] then envDelete (emailPasswordKey email) (loadSecrets d)
              else envSet (emailPasswordKey email) password (loadSecrets d)) d)"

definition removeAgentPassword :: "string \<Rightarrow> (conf_disk, unit) io" where
  "removeAgentPassword email d =
     (if trim_space email = [] then (ok, d)
      else saveSecrets (envDelete (emailPasswordKey email) (loadSecrets d)) d)"

definition secret :: "string \<Rightarrow> env_file \<Rightarrow> string" where
  "secret key f = (case envGet key f of Some v \<Rightarrow> v | None \<Rightarrow> [])"

definition getAgentPassword :: "conf_disk \<Rightarrow> string \<Rightarrow> string" where
  "getAgentPassword d email =
     (if trim_space email = [] then [] else secret (emailPasswordKey email) (loadSecrets d))"

definition hasLLMKeys :: "conf_disk \<Rightarrow> bool \<times> bool" where
  "hasLLMKeys d =
     (let has = (\<lambda>key. trim_space (secret key (loadSecrets d)) \<noteq> [])
      in (has ''ANTHROPIC_API_KEY'', has ''OPENROUTER_API_KEY''))"

lemma saveSecrets_Inr [result_iff]:
  "saveSecrets f d = (Inr (), d') \<longleftrightarrow>
     cdFault d config_dir = None \<and> cdFault d secretsPath = None \<and> d' = d\<lparr>cdSecrets := Stored (Render f)\<rparr>"
  by (auto simp: saveSecrets_def write_to_def io_bind_def split: option.splits)

lemma loadSecrets_saved [simp]: "loadSecrets (d\<lparr>cdSecrets := Stored s\<rparr>) = parseEnv s"
  by (simp add: loadSecrets_def)

lemma setAgentPassword_get:
  assumes "list_all terminated (loadSecrets d)" "plain_key (emailPasswordKey email)" "storable password"
    "trim_space email \<noteq> []" "trim_space password \<noteq> []" "setAgentPassword email password d = (Inr (), d')"
  shows "list_all terminated (loadSecrets d') \<and> d' = d\<lparr>cdSecrets := cdSecrets d'\<rparr> \<and>
    (\<forall>key. key \<noteq> [] \<longrightarrow>
      envGet key (loadSecrets d') = (if key = emailPasswordKey email then Some password else envGet key (loadSecrets d)))"
proof -
  let ?f = "envSet (emailPasswordKey email) password (loadSecrets d)"
  have d': "d' = d\<lparr>cdSecrets := Stored (Render ?f)\<rparr>"
    using assms(4-6) by (auto simp: setAgentPassword_def saveSecrets_Inr)
  moreover have "list_all terminated ?f" using assms(1-3) by (rule envSet_terminated)
  ultimately show ?thesis by (simp add: reload_get reload_terminated envGet_envSet)
qed

lemma removeAgentPassword_get:
  assumes "list_all terminated (loadSecrets d)" "removeAgentPassword email d = (Inr (), d')"
  shows "list_all terminated (loadSecrets d') \<and> d' = d\<lparr>cdSecrets := cdSecrets d'\<rparr> \<and>
    (\<forall>key. key \<noteq> [] \<longrightarrow> trim_space email \<noteq> [] \<longrightarrow>
      envGet key (loadSecrets d') = (if key = emailPasswordKey email then None else envGet key (loadSecrets d)))"
proof (cases "trim_space email = []")
  case False
  let ?f = "envDelete (emailPasswordKey email) (loadSecrets d)"
  have d': "d' = d\<lparr>cdSecrets := Stored (Render ?f)\<rparr>"
    using assms(2) False by (auto simp: removeAgentPassword_def saveSecrets_Inr)
  moreover have "list_all terminated ?f" using assms(1) by (auto simp: envDelete_def list_all_iff)
  moreover have "envGet key (envDelete k f) = (if key = k then None else envGet key f)" for key k f
    by (induction f) (auto simp: envDelete_def envGet_def)
  ultimately show ?thesis by (simp add: reload_get reload_terminated)
qed (use assms in \<open>simp add: removeAgentPassword_def\<close>)

text \<open>C23. A stored password comes back.  The entries of the file are complete (none has an open quote), the address gives a
  plain key, and the first line of a password of several lines does not end in white space.  Then after a successful
  write the configurator reads back exactly the password, and every other secret reads as before.  The agent looks
  for its password under the same name: whatever its environment holds there, when it is not empty, is what it uses.\<close>

theorem stored_password_is_read_back:
  assumes "list_all terminated (loadSecrets d)" "plain_key (emailPasswordKey email)" "storable password"
    "trim_space email \<noteq> []" "trim_space password \<noteq> []"
    "setAgentPassword email password d = (Inr (), d')"
  shows "getAgentPassword d' email = password \<and>
    (\<forall>key. key \<noteq> emailPasswordKey email \<longrightarrow> key \<noteq> [] \<longrightarrow> secret key (loadSecrets d') = secret key (loadSecrets d)) \<and>
    (\<forall>env. env (emailPasswordKey email) \<noteq> [] \<longrightarrow> resolveEmailPassword env email = env (emailPasswordKey email))"
proof -
  let ?k = "emailPasswordKey email"
  have get: "envGet key (loadSecrets d') = (if key = ?k then Some password else envGet key (loadSecrets d))"
    if "key \<noteq> []" for key
    using setAgentPassword_get [OF assms] that by blast
  have k: "?k \<noteq> []" by (simp add: emailPasswordKey_def)
  have "emailStem email \<noteq> []"
    using assms(4) by (auto simp: emailStem_def to_lower_def Let_def split: option.splits)
  then have "resolveEmailPassword env email = env ?k" if "env ?k \<noteq> []" for env
    using that by (simp add: resolveEmailPassword_def emailPasswordKey_def)
  then show ?thesis using get [OF k] get assms(4) by (simp add: getAgentPassword_def secret_def)
qed

definition sample_secrets :: string where
  "sample_secrets = join [nl] [''# keys'', ''#OLD='' @ [dquote] @ ''x'', ''y'' @ [dquote], '''', ''API=abc'', '''']"

definition conf_sample :: conf_disk where
  "conf_sample = \<lparr>cdSecrets = Stored sample_secrets, cdSecretsExample = Absent, cdRoster = Absent, cdCatalog = Absent,
     cdCompose = Absent, cdDmsDir = False, cdDisabled = False, cdTransport = Absent, cdSenderAccess = Absent,
     cdMainCf = Absent, cdAccounts = Absent, cdTokens = [], cdFault = (\<lambda>p. None)\<rparr>"

lemma stored_password_is_read_back_witness:
  "getAgentPassword (snd (setAgentPassword ''Kiku@x.org'' (''p w'' @ [nl] @ ''#2'') conf_sample)) ''Kiku@x.org'' =
     ''p w'' @ [nl] @ ''#2''"
proof -
  let ?d = "snd (setAgentPassword ''Kiku@x.org'' (''p w'' @ [nl] @ ''#2'') conf_sample)"
  have t: "list_all terminated (loadSecrets conf_sample)" by code_simp
  have k: "plain_key (emailPasswordKey ''Kiku@x.org'')" by code_simp
  have s: "storable (''p w'' @ [nl] @ ''#2'')" by code_simp
  have e: "trim_space ''Kiku@x.org'' \<noteq> []" "trim_space (''p w'' @ [nl] @ ''#2'') \<noteq> []" by code_simp+
  have r: "setAgentPassword ''Kiku@x.org'' (''p w'' @ [nl] @ ''#2'') conf_sample = (Inr (), ?d)"
    using e by (simp add: setAgentPassword_def saveSecrets_def write_to_def conf_sample_def io_bind_def)
  show ?thesis
    using stored_password_is_read_back [OF t k s e r] by simp
qed

text \<open>White space at the end of the first line of a longer value is lost, and a value without a closing quote takes
  the entries added after it.\<close>

theorem secret_value_not_kept:
  "envGet ''K'' (parseEnv (Render (envSet ''K'' (''a '' @ [nl] @ ''b'') []))) = Some (''a'' @ [nl] @ ''b'') \<and>
   envGet ''NEW'' (parseEnv (Render (envSet ''NEW'' ''v'' (parseEnv (''K='' @ [dquote] @ ''abc''))))) = None"
  by code_simp

end
