(* ===== verification/Tables.thy ===== *)
theory Tables
  imports Keyed_Store Acl Envfile
begin

text \<open>
  The tables the configurator edits (\<open>scripts/configurator/roster.go\<close>, \<open>external.go\<close>): the roster of agents and the
  external partners, each row found by its address in any letter case.  The lists are searched from the front,
  a row is replaced in place or appended, and only the first match is dropped.
\<close>

section \<open>Rows with a key\<close>

fun first_index :: "('a \<Rightarrow> bool) \<Rightarrow> 'a list \<Rightarrow> nat option" where
  "first_index P [] = None"
| "first_index P (x # xs) = (if P x then Some 0 else map_option Suc (first_index P xs))"

definition upsert :: "('a \<Rightarrow> bool) \<Rightarrow> 'a \<Rightarrow> 'a list \<Rightarrow> 'a list" where
  "upsert P x xs = (case first_index P xs of Some i \<Rightarrow> xs[i := x] | None \<Rightarrow> xs @ [x])"

definition drop_first :: "('a \<Rightarrow> bool) \<Rightarrow> 'a list \<Rightarrow> 'a list" where
  "drop_first P xs = (case first_index P xs of Some i \<Rightarrow> take i xs @ drop (Suc i) xs | None \<Rightarrow> xs)"

lemma first_index_None: "first_index P xs = None \<longleftrightarrow> find P xs = None"
  by (induction xs) auto

lemma find_first_index: "find P xs = map_option (\<lambda>i. xs ! i) (first_index P xs)"
  by (induction xs) (auto simp: option.map_comp o_def)

lemma upsert_simps [simp]:
  "upsert P x [] = [x]"
  "upsert P x (y # ys) = (if P y then x # ys else y # upsert P x ys)"
  by (auto simp: upsert_def split: option.split)

lemma drop_first_simps [simp]:
  "drop_first P [] = []"
  "drop_first P (y # ys) = (if P y then ys else y # drop_first P ys)"
  by (auto simp: drop_first_def split: option.split)

lemma find_upsert:
  "find (\<lambda>y. key y = k) (upsert (\<lambda>y. key y = key x) x xs) =
     (if k = key x then Some x else find (\<lambda>y. key y = k) xs)"
  by (induction xs) auto

lemma find_drop_first:
  "distinct (map key xs) \<Longrightarrow>
   find (\<lambda>y. key y = k) (drop_first (\<lambda>y. key y = k') xs) = (if k = k' then None else find (\<lambda>y. key y = k) xs)"
  by (induction xs) (auto simp: find_None_iff image_iff)

lemma keys_upsert:
  "key ` set (upsert (\<lambda>y. key y = key x) x xs) = insert (key x) (key ` set xs)"
  by (induction xs) auto

lemma keys_drop_first: "key ` set (drop_first P xs) \<subseteq> key ` set xs"
  by (induction xs) auto

lemma distinct_upsert: "distinct (map key xs) \<Longrightarrow> distinct (map key (upsert (\<lambda>y. key y = key x) x xs))"
proof (induction xs)
  case (Cons y ys)
  have "key ` set (upsert (\<lambda>y. key y = key x) x ys) = insert (key x) (key ` set ys)" by (rule keys_upsert)
  with Cons show ?case by auto
qed simp

lemma distinct_drop_first: "distinct (map key xs) \<Longrightarrow> distinct (map key (drop_first P xs))"
proof (induction xs)
  case (Cons y ys)
  have "key ` set (drop_first P ys) \<subseteq> key ` set ys" by (rule keys_drop_first)
  with Cons show ?case by auto
qed simp

lemma set_upsert:
  "distinct (map key xs) \<Longrightarrow> set (upsert (\<lambda>y. key y = k) x xs) = insert x {y \<in> set xs. key y \<noteq> k}"
  by (induction xs) (auto simp: image_iff)

lemma set_drop_first:
  "distinct (map key xs) \<Longrightarrow> set (drop_first (\<lambda>y. key y = k) xs) = {y \<in> set xs. key y \<noteq> k}"
  by (induction xs) (auto simp: image_iff)

lemma find_cong_key: "(\<And>y. y \<in> set xs \<Longrightarrow> P y = Q y) \<Longrightarrow> find P xs = find Q xs"
  by (induction xs) auto

section \<open>The roster file\<close>

text \<open>
  The YAML library is an argument: \<open>yaShow\<close> and \<open>yaRead\<close> for the roster, and the same for the MCP catalog.
\<close>

record yaml =
  yaShow :: "agents_config \<Rightarrow> string result"
  yaRead :: "string \<Rightarrow> agents_config result"
  yaShowServers :: "mcp_server list \<Rightarrow> string result"
  yaReadServers :: "string \<Rightarrow> mcp_server list result"

definition empty_roster :: agents_config where
  "empty_roster = \<lparr>acCommon = empty_common, acAgents = [], acExternal = []\<rparr>"

definition rosterPath :: string where "rosterPath = ''configs/agents.yaml''"

definition loadRoster :: "yaml \<Rightarrow> conf_disk \<Rightarrow> agents_config result" where
  "loadRoster ya d =
     (case cdRoster d of
        Absent \<Rightarrow> Inr empty_roster
      | Unreadable e \<Rightarrow> Inl e
      | Stored b \<Rightarrow> wrap_err (''parsing '' @ rosterPath @ '': '') (yaRead ya b))"

definition saveRoster :: "yaml \<Rightarrow> agents_config \<Rightarrow> (conf_disk, unit) io" where
  "saveRoster ya r d =
     (case write_to config_dir (\<lambda>d. d) d of
        (Inl e, d1) \<Rightarrow> (Inl e, d1)
      | (Inr u, d1) \<Rightarrow>
          (case yaShow ya r of
             Inl e \<Rightarrow> (Inl e, d1)
           | Inr b \<Rightarrow> write_to rosterPath (\<lambda>d. d\<lparr>cdRoster := Stored b\<rparr>) d1))"

section \<open>Agents and partners\<close>

definition mail_key :: "string \<Rightarrow> string" where
  "mail_key email = to_lower (trim_space email)"

definition agent_key :: "agent_def \<Rightarrow> string" where
  "agent_key a = mail_key (adEmail a)"

definition partner_key :: "external_agent \<Rightarrow> string" where
  "partner_key e = mail_key (exEmail e)"

definition findAgentIndex :: "agents_config \<Rightarrow> string \<Rightarrow> nat option" where
  "findAgentIndex r email = first_index (\<lambda>a. agent_key a = mail_key email) (acAgents r)"

definition upsertAgent :: "agent_def \<Rightarrow> agents_config \<Rightarrow> agents_config" where
  "upsertAgent a r = r\<lparr>acAgents := upsert (\<lambda>b. agent_key b = agent_key a) a (acAgents r)\<rparr>"

definition removeAgent :: "string \<Rightarrow> agents_config \<Rightarrow> agents_config" where
  "removeAgent email r = r\<lparr>acAgents := drop_first (\<lambda>b. agent_key b = mail_key email) (acAgents r)\<rparr>"

definition findExternalIndex :: "agents_config \<Rightarrow> string \<Rightarrow> nat option" where
  "findExternalIndex r email = first_index (\<lambda>e. partner_key e = mail_key email) (acExternal r)"

definition upsertExternal :: "external_agent \<Rightarrow> agents_config \<Rightarrow> agents_config" where
  "upsertExternal x r = r\<lparr>acExternal := upsert (\<lambda>e. partner_key e = partner_key x) x (acExternal r)\<rparr>"

definition removeExternal :: "string \<Rightarrow> agents_config \<Rightarrow> agents_config" where
  "removeExternal email r = r\<lparr>acExternal := drop_first (\<lambda>e. partner_key e = mail_key email) (acExternal r)\<rparr>"

text \<open>No two rows of a table have one address.\<close>

definition roster_inv :: "agents_config \<Rightarrow> bool" where
  "roster_inv r \<longleftrightarrow> distinct (map (agent_key) (acAgents r)) \<and> distinct (map (partner_key) (acExternal r))"

definition agent_at :: "string \<Rightarrow> agents_config \<Rightarrow> agent_def option" where
  "agent_at k r = find (\<lambda>a. agent_key a = k) (acAgents r)"

definition partner_at :: "string \<Rightarrow> agents_config \<Rightarrow> external_agent option" where
  "partner_at k r = find (\<lambda>a. partner_key a = k) (acExternal r)"

interpretation agents: keyed_store roster_inv "\<lambda>a. True" agent_key agent_at upsertAgent
  by unfold_locales
    (use distinct_upsert [of agent_key] find_upsert [of agent_key] in
      \<open>auto simp: roster_inv_def agent_at_def upsertAgent_def\<close>)

interpretation partners: keyed_store roster_inv "\<lambda>a. True" partner_key partner_at upsertExternal
  by unfold_locales
    (use distinct_upsert [of partner_key] find_upsert [of partner_key] in
      \<open>auto simp: roster_inv_def partner_at_def upsertExternal_def\<close>)


lemma roster_inv_removeAgent: "roster_inv r \<Longrightarrow> roster_inv (removeAgent email r)"
  using distinct_drop_first [of agent_key] by (simp add: roster_inv_def removeAgent_def)

lemma agent_at_removeAgent:
  "roster_inv r \<Longrightarrow> agent_at k (removeAgent email r) = (if k = mail_key email then None else agent_at k r)"
  using find_drop_first [of agent_key "acAgents r"] by (simp add: roster_inv_def agent_at_def removeAgent_def)

lemma roster_inv_removeExternal: "roster_inv r \<Longrightarrow> roster_inv (removeExternal email r)"
  using distinct_drop_first [of partner_key] by (simp add: roster_inv_def removeExternal_def)

lemma partner_at_removeExternal:
  "roster_inv r \<Longrightarrow> partner_at k (removeExternal email r) = (if k = mail_key email then None else partner_at k r)"
  using find_drop_first [of partner_key "acExternal r"] by (simp add: roster_inv_def partner_at_def removeExternal_def)

lemma loadRoster_saved:
  assumes "saveRoster ya r d = (Inr (), d')" "\<And>b. yaShow ya r = Inr b \<Longrightarrow> yaRead ya b = Inr r"
  shows "loadRoster ya d' = Inr r \<and> d' = d\<lparr>cdRoster := cdRoster d'\<rparr>"
  using assms by (auto simp: saveRoster_def write_to_def loadRoster_def split: option.splits sum.splits)

section \<open>External partners\<close>

definition matchesWhitelistEntry :: "string \<Rightarrow> string list \<Rightarrow> bool" where
  "matchesWhitelistEntry email0 ws =
     (let email = to_lower (trim_space email0);
          domain = (case last_index_char (CHR ''@'') email of Some at \<Rightarrow> drop (Suc at) email | None \<Rightarrow> [])
      in list_ex (\<lambda>w0. let w = to_lower (trim_space w0)
                       in w \<noteq> [] \<and> (if CHR ''@'' \<in> set w then w = email else domain \<noteq> [] \<and> w = domain)) ws)"

definition display_name :: "agent_def \<Rightarrow> string" where
  "display_name a = (if trim_space (adName a) = [] then adEmail a else trim_space (adName a))"

definition externalWhitelistGaps :: "agents_config \<Rightarrow> string \<Rightarrow> string list" where
  "externalWhitelistGaps r extEmail =
     map display_name
       (filter (\<lambda>a. adWhitelist a \<noteq> [] \<and> \<not> matchesWhitelistEntry extEmail (adWhitelist a)) (acAgents r))"

text \<open>The warning of the agent at start-up: its own check of the same question, on its whitelist.\<close>

definition covers :: "string list \<Rightarrow> string \<Rightarrow> bool" where
  "covers whitelist email0 =
     (let email = to_lower (trim_space email0);
          domain = (case last_index_char (CHR ''@'') email of Some at \<Rightarrow> drop (Suc at) email | None \<Rightarrow> [])
      in email = [] \<or>
         list_ex (\<lambda>w0. let w = to_lower (trim_space w0)
                       in if CHR ''@'' \<in> set w then w = email else w \<noteq> [] \<and> w = domain) whitelist)"

definition warnUncoveredExternals :: "config \<Rightarrow> agents_config option \<Rightarrow> string list" where
  "warnUncoveredExternals cfg c =
     (case c of
        None \<Rightarrow> []
      | Some ac \<Rightarrow>
          if Whitelist cfg = [] then []
          else filter (\<lambda>m. m \<noteq> [] \<and> \<not> covers (Whitelist cfg) m) (map exEmail (acExternal ac)))"

record external_summary =
  xsName :: string
  xsEmail :: string
  xsRole :: string
  xsDescription :: string
  xsUncovered :: "string list"

definition listExternalAgents :: "yaml \<Rightarrow> conf_disk \<Rightarrow> external_summary list result" where
  "listExternalAgents ya d =
     (case loadRoster ya d of
        Inl e \<Rightarrow> Inl e
      | Inr r \<Rightarrow>
          Inr (sort_key (\<lambda>s. to_lower (xsName s))
                 (map (\<lambda>x. \<lparr>xsName = trim_space (exName x), xsEmail = exEmail x, xsRole = exRole x,
                             xsDescription = exDescription x, xsUncovered = externalWhitelistGaps r (exEmail x)\<rparr>)
                   (filter (\<lambda>x. trim_space (exEmail x) \<noteq> []) (acExternal r)))))"

record external_form =
  xfOriginalEmail :: string
  xfName :: string
  xfEmail :: string
  xfRole :: string
  xfDescription :: string

fun first_error :: "(bool \<times> string) list \<Rightarrow> unit result" where
  "first_error [] = ok"
| "first_error ((bad, msg) # cs) = (if bad then Inl (Err msg) else first_error cs)"

definition validate_external :: "external_form \<Rightarrow> unit result" where
  "validate_external f =
     first_error
       [(trim_space (xfName f) = [], ''partner name is required''),
        (trim_space (xfEmail f) = [], ''partner email is required''),
        (CHR ''@'' \<notin> set (xfEmail f), ''partner email must include @''),
        (trim_space (xfRole f) = [], ''role is required''),
        (trim_space (xfDescription f) = [], ''description is required'')]"

definition loadExternalForm :: "yaml \<Rightarrow> conf_disk \<Rightarrow> string \<Rightarrow> external_form result" where
  "loadExternalForm ya d email =
     (case loadRoster ya d of
        Inl e \<Rightarrow> Inl e
      | Inr r \<Rightarrow>
          (case findExternalIndex r email of
             None \<Rightarrow> Inl (Err (''external partner '' @ go_quote email @ '' not found in roster''))
           | Some i \<Rightarrow>
               let x = acExternal r ! i
               in Inr \<lparr>xfOriginalEmail = exEmail x, xfName = exName x, xfEmail = exEmail x, xfRole = exRole x,
                       xfDescription = exDescription x\<rparr>))"

definition partner_of_form :: "external_form \<Rightarrow> external_agent" where
  "partner_of_form f =
     \<lparr>exName = trim_space (xfName f), exEmail = trim_space (xfEmail f), exRole = trim_space (xfRole f),
      exDescription = trim_space (xfDescription f)\<rparr>"

definition put_partner :: "external_form \<Rightarrow> agents_config \<Rightarrow> agents_config" where
  "put_partner f r =
     (let x = partner_of_form f
      in upsertExternal x
           (if xfOriginalEmail f \<noteq> [] \<and> \<not> equal_fold (xfOriginalEmail f) (exEmail x)
            then removeExternal (xfOriginalEmail f) r else r))"

definition save_external :: "yaml \<Rightarrow> external_form \<Rightarrow> (conf_disk, string) io" where
  "save_external ya f d =
     (case validate_external f of
        Inl e \<Rightarrow> (Inl e, d)
      | Inr u \<Rightarrow>
          (case loadRoster ya d of
             Inl e \<Rightarrow> (Inl e, d)
           | Inr r \<Rightarrow> io_bind (saveRoster ya (put_partner f r)) (\<lambda>_. io_return (trim_space (xfEmail f))) d))"

lemma last_index_char_append: "d \<notin> set b \<Longrightarrow> last_index_char d (a @ d # b) = Some (length a)"
  by (simp add: last_index_char_def index_char_append)

lemma split_one: "d \<notin> set a \<Longrightarrow> d \<notin> set b \<Longrightarrow> split_char d (a @ d # b) = [a, b]"
  unfolding split_char_def by (subst split_by_append) (auto intro: split_by_id)

lemma at_lower [simp]: "CHR ''@'' \<in> set (to_lower s) \<longleftrightarrow> CHR ''@'' \<in> set s"
proof (induction s)
  case (Cons c s)
  then show ?case using lower_char_at [of c] by (simp add: eq_commute [of "CHR ''@''"])
qed simp

text \<open>The coverage checks agree with the gate: for an ordinary address the configurator's check of an agent's whitelist and
  the warning of the agent itself say exactly whether access control would let mail of that address in.\<close>

theorem coverage_checks_agree_with_acl:
  assumes "p = l @ ''@'' @ dm" "CHR ''@'' \<notin> set l" "CHR ''@'' \<notin> set dm" "dm \<noteq> []" "trim_space p = p"
    "Whitelist cfg = trimAll ws" "Whitelist cfg \<noteq> []" "eSenders e = []" "pa (eFrom e) = Some p"
  shows "(matchesWhitelistEntry p ws \<longleftrightarrow> is_ok (AccessControl cfg pa get e)) \<and>
    (covers (Whitelist cfg) p \<longleftrightarrow> is_ok (AccessControl cfg pa get e))"
proof -
  have p: "to_lower (trim_space p) = to_lower l @ CHR ''@'' # to_lower dm"
    using assms(1,5) by (simp add: lower_char_literals)
  have dom: "(case last_index_char (CHR ''@'') (to_lower (trim_space p)) of Some at \<Rightarrow> drop (Suc at) (to_lower (trim_space p))
      | None \<Rightarrow> []) = to_lower dm"
    unfolding p using assms(3) by (simp add: last_index_char_append)
  have dom2: "extractDomain p = dm" using assms(1-3) by (simp add: extractDomain_def split_one)
  have ne: "to_lower dm \<noteq> []" using assms(4) by (simp add: to_lower_def)
  have entry: "matches_entry p (trim_space w) \<longleftrightarrow>
      (let v = to_lower (trim_space w) in if CHR ''@'' \<in> set v then v = to_lower (trim_space p) else v = to_lower dm)" for w
    using assms(4,5) by (simp add: matches_entry_def dom2 equal_fold_def)
  have "matchesWhitelistEntry p ws \<longleftrightarrow> list_ex (\<lambda>w. trim_space w \<noteq> [] \<and> matches_entry p (trim_space w)) ws"
    unfolding matchesWhitelistEntry_def Let_def dom entry using ne by (auto simp: list_ex_iff to_lower_def)
  moreover have "covers (Whitelist cfg) p \<longleftrightarrow> list_ex (\<lambda>w. matches_entry p (trim_space w)) (Whitelist cfg)"
    unfolding covers_def Let_def dom entry using ne p by (auto simp: list_ex_iff)
  moreover have "list_ex (\<lambda>w. matches_entry p (trim_space w)) (trimAll ws) \<longleftrightarrow> matchesList p (trimAll ws)"
    by (auto simp: matchesList_def list_ex_iff trimAll_def)
  moreover have "list_ex (\<lambda>w. trim_space w \<noteq> [] \<and> matches_entry p (trim_space w)) ws \<longleftrightarrow> matchesList p (trimAll ws)"
    by (auto simp: matchesList_def list_ex_iff trimAll_def)
  moreover have "is_ok (AccessControl cfg pa get e) \<longleftrightarrow> matchesList p (trimAll ws)"
    using assms(6-9) by (simp add: AccessControl_def immediate_senders_def AddToSenders_def find_case_ok)
  ultimately show ?thesis using assms(6) by simp
qed

lemma coverage_checks_agree_with_acl_witness:
  "matchesWhitelistEntry ''amy@acme.com'' ['' Acme.com '', '''']"
proof -
  let ?cfg = "startup_config\<lparr>Whitelist := [''Acme.com'']\<rparr>"
  let ?e = "empty_email\<lparr>eFrom := ''amy@acme.com''\<rparr>"
  have 1: "''amy@acme.com'' = ''amy'' @ ''@'' @ ''acme.com''" "CHR ''@'' \<notin> set ''amy''" "CHR ''@'' \<notin> set ''acme.com''"
    "''acme.com'' \<noteq> ''''" "trim_space ''amy@acme.com'' = ''amy@acme.com''"
    "Whitelist ?cfg = trimAll ['' Acme.com '', '''']" "Whitelist ?cfg \<noteq> []" by code_simp+
  have 2: "eSenders ?e = []" "plain_address (eFrom ?e) = Some ''amy@acme.com''"
    by (simp_all add: empty_email_def plain_address_def)
  have "is_ok (AccessControl ?cfg plain_address (\<lambda>ids. Inr []) ?e)" by code_simp
  then show ?thesis using coverage_checks_agree_with_acl [where p = "''amy@acme.com''" and l = "''amy''" and dm = "''acme.com''"
        and cfg = ?cfg and ws = "['' Acme.com '', '''']" and e = ?e and pa = plain_address, OF 1 2] by blast
qed

lemma partner_at_index:
  "partner_at (mail_key email) r = map_option (\<lambda>i. acExternal r ! i) (findExternalIndex r email)"
  by (simp add: partner_at_def findExternalIndex_def find_first_index)

lemma put_partner_inv: "roster_inv r \<Longrightarrow> roster_inv (put_partner f r)"
  by (simp add: put_partner_def Let_def partners.inv_put roster_inv_removeExternal)

lemma partner_at_put:
  assumes "roster_inv r"
  shows "partner_at k (put_partner f r) =
    (if k = partner_key (partner_of_form f) then Some (partner_of_form f)
     else if k = mail_key (xfOriginalEmail f) \<and> xfOriginalEmail f \<noteq> [] \<and> \<not> equal_fold (xfOriginalEmail f) (exEmail (partner_of_form f))
     then None else partner_at k r)"
  using assms
  by (auto simp: put_partner_def Let_def partners.lookup_put roster_inv_removeExternal partner_at_removeExternal)

text \<open>A saved partner is the one that is read again under its address, trimmed; the partner it replaced is gone, every other
  partner is as before, and no address is listed twice.\<close>

theorem saved_partner_is_read_again:
  assumes "loadRoster ya d = Inr r" "roster_inv r" "save_external ya f d = (Inr m, d')"
    "\<forall>b. yaShow ya (put_partner f r) = Inr b \<longrightarrow> yaRead ya b = Inr (put_partner f r)"
  shows "\<exists>r'. loadRoster ya d' = Inr r' \<and> roster_inv r' \<and> acAgents r' = acAgents r \<and> acCommon r' = acCommon r \<and>
    loadExternalForm ya d' m =
      Inr \<lparr>xfOriginalEmail = m, xfName = trim_space (xfName f), xfEmail = m, xfRole = trim_space (xfRole f),
           xfDescription = trim_space (xfDescription f)\<rparr> \<and>
    (\<forall>k. k \<noteq> mail_key m \<longrightarrow> k \<noteq> mail_key (xfOriginalEmail f) \<longrightarrow> partner_at k r' = partner_at k r)"
proof (intro exI conjI)
  let ?r = "put_partner f r"
  have s: "saveRoster ya ?r d = (Inr (), d')" "m = trim_space (xfEmail f)"
    using assms(1,3) by (auto simp: save_external_def result_iff split: sum.splits)
  from loadRoster_saved [OF s(1)] assms(4) show l: "loadRoster ya d' = Inr ?r" by blast
  show "roster_inv ?r" using assms(2) by (rule put_partner_inv)
  show "acAgents ?r = acAgents r" "acCommon ?r = acCommon r"
    by (simp_all add: put_partner_def Let_def upsertExternal_def removeExternal_def)
  have key: "partner_key (partner_of_form f) = mail_key m" by (simp add: partner_key_def partner_of_form_def s(2))
  have "partner_at (mail_key m) ?r = Some (partner_of_form f)" using partner_at_put [OF assms(2)] key by simp
  then obtain i where "findExternalIndex ?r m = Some i" "acExternal ?r ! i = partner_of_form f"
    by (auto simp: partner_at_index)
  then show "loadExternalForm ya d' m = Inr \<lparr>xfOriginalEmail = m, xfName = trim_space (xfName f), xfEmail = m,
      xfRole = trim_space (xfRole f), xfDescription = trim_space (xfDescription f)\<rparr>"
    by (simp add: loadExternalForm_def l partner_of_form_def s(2))
  show "\<forall>k. k \<noteq> mail_key m \<longrightarrow> k \<noteq> mail_key (xfOriginalEmail f) \<longrightarrow> partner_at k ?r = partner_at k r"
    using partner_at_put [OF assms(2)] key by simp
qed

definition demo_yaml :: yaml where
  "demo_yaml = \<lparr>yaShow = (\<lambda>r. Inr (join ''|'' (concat (map (\<lambda>x. [exName x, exEmail x, exRole x, exDescription x]) (acExternal r))))),
     yaRead = (\<lambda>s. Inr (empty_roster\<lparr>acExternal := (case split_char (CHR ''|'') s of
        [a, b, c, e] \<Rightarrow> [\<lparr>exName = a, exEmail = b, exRole = c, exDescription = e\<rparr>] | _ \<Rightarrow> [])\<rparr>)),
     yaShowServers = (\<lambda>ss. Inr []), yaReadServers = (\<lambda>s. Inr [])\<rparr>"

definition acme_form :: external_form where
  "acme_form = \<lparr>xfOriginalEmail = [], xfName = '' Acme '', xfEmail = ''Bot@acme.com '', xfRole = ''billing'', xfDescription = ''bills''\<rparr>"

lemma saved_partner_is_read_again_witness:
  "\<exists>r'. loadRoster demo_yaml (snd (save_external demo_yaml acme_form conf_sample)) = Inr r' \<and> roster_inv r'"
proof -
  let ?d = "snd (save_external demo_yaml acme_form conf_sample)"
  have l: "loadRoster demo_yaml conf_sample = Inr empty_roster" by code_simp
  have i: "roster_inv empty_roster" by code_simp
  have "fst (save_external demo_yaml acme_form conf_sample) = Inr ''Bot@acme.com''" by code_simp
  then have s: "save_external demo_yaml acme_form conf_sample = (Inr ''Bot@acme.com'', ?d)" by (metis prod.collapse)
  have "yaRead demo_yaml (case yaShow demo_yaml (put_partner acme_form empty_roster) of Inr b \<Rightarrow> b | Inl e \<Rightarrow> []) =
      Inr (put_partner acme_form empty_roster)" by code_simp
  then have y: "\<forall>b. yaShow demo_yaml (put_partner acme_form empty_roster) = Inr b \<longrightarrow>
      yaRead demo_yaml b = Inr (put_partner acme_form empty_roster)" by auto
  show ?thesis using saved_partner_is_read_again [OF l i s y] by blast
qed

end
