(* ===== verification/Mcp_Catalog.thy ===== *)
theory Mcp_Catalog
  imports Tables Toolset
begin

text \<open>
  The catalog of remote MCP servers as the configurator edits it (\<open>scripts/configurator/mcp.go\<close>): its file, the form of
  a server with its checks, saving with the rename of the key in the agents' tool lists, deletion, and the list with
  the credentials that are missing.
\<close>

section \<open>The file\<close>

definition mcpServersPath :: string where "mcpServersPath = ''configs/mcp_servers.yaml''"

definition mcpServersHeader :: string where
  "mcpServersHeader =
     ''# mcp_servers.yaml '' @ em_dash @ '' remote (Streamable HTTP) MCP servers, exposed to agents by key.'' @ [nl] @
     ''# Managed by the configurator (MCP Servers page). Field reference:'' @ [nl] @
     ''# configs/mcp_servers-example.yaml. Secrets are referenced by env-var NAME only;'' @ [nl] @
     ''# the values live in configs/secrets.env.'' @ [nl]"

definition loadCatalog :: "yaml \<Rightarrow> conf_disk \<Rightarrow> mcp_server list result" where
  "loadCatalog ya d = LoadMCPServers (yaReadServers ya) mcpServersPath False (cdCatalog d)"

definition saveCatalog :: "yaml \<Rightarrow> mcp_server list \<Rightarrow> (conf_disk, unit) io" where
  "saveCatalog ya ss d =
     (case write_to config_dir (\<lambda>d. d) d of
        (Inl e, d1) \<Rightarrow> (Inl e, d1)
      | (Inr u, d1) \<Rightarrow>
          (case yaShowServers ya ss of
             Inl e \<Rightarrow> (Inl e, d1)
           | Inr b \<Rightarrow> write_to mcpServersPath (\<lambda>d. d\<lparr>cdCatalog := Stored (mcpServersHeader @ b)\<rparr>) d1))"

definition ensureMCPServersFile :: "yaml \<Rightarrow> (conf_disk, unit) io" where
  "ensureMCPServersFile ya d = (if cdCatalog d = Absent then saveCatalog ya [] d else (ok, d))"

section \<open>Authentication\<close>

definition normalizeMCPAuth :: "string \<Rightarrow> string" where
  "normalizeMCPAuth a =
     (let v = to_lower (trim_space a)
      in if v \<in> set ['''', ''none''] then ''none''
         else if v \<in> set [''bearer'', ''static''] then ''bearer''
         else if v \<in> set [''apikey'', ''api_key'', ''api-key''] then ''apikey''
         else if v \<in> set [''oauth2'', ''oauth''] then ''oauth2''
         else v)"

definition mcpHeaderPreview :: "mcp_server \<Rightarrow> string" where
  "mcpHeaderPreview s =
     (let auth = normalizeMCPAuth (msAuth s)
      in if auth \<noteq> ''bearer'' \<and> auth \<noteq> ''apikey'' then []
         else let header = (if trim_space (msHeader s) = [] then ''Authorization'' else trim_space (msHeader s));
                  scheme = (if msScheme s = [] then
                              (if auth = ''apikey'' \<and> equal_fold header ''Authorization'' then ''ApiKey''
                               else if auth = ''bearer'' then ''Bearer'' else [])
                            else trim_space (msScheme s))
              in trim_space (header @ '': '' @ trim_space (scheme @ '' <token>'')))"

definition mcpEnvNames :: "mcp_server \<Rightarrow> string list" where
  "mcpEnvNames s =
     filter (\<lambda>n. n \<noteq> []) (map trim_space
       (let auth = normalizeMCPAuth (msAuth s)
        in if auth = ''bearer'' \<or> auth = ''apikey'' then [msTokenEnv s]
           else if auth = ''oauth2'' then [msClientIDEnv s, msClientSecretEnv s] else []))"

section \<open>The agents that use a server\<close>

record agent_ref =
  arName :: string
  arEmail :: string

definition uses_key :: "string \<Rightarrow> agent_def \<Rightarrow> bool" where
  "uses_key key a \<longleftrightarrow> list_ex (\<lambda>t. trim_space t = key) (adTools a)"

definition agentsUsingKey :: "agents_config \<Rightarrow> string \<Rightarrow> agent_ref list" where
  "agentsUsingKey r key =
     map (\<lambda>a. \<lparr>arName = display_name a, arEmail = adEmail a\<rparr>) (filter (uses_key key) (acAgents r))"

definition token_path :: "string \<Rightarrow> string \<Rightarrow> string" where
  "token_path key email = ''data/'' @ emailStem email @ ''/oauth/'' @ key @ ''.json''"

definition oauthTokenMissing :: "conf_disk \<Rightarrow> string \<Rightarrow> agent_ref list \<Rightarrow> string list" where
  "oauthTokenMissing d key users =
     map arName (filter (\<lambda>u. token_path key (arEmail u) \<notin> set (cdTokens d)) users)"

text \<open>An empty \<open>to\<close> removes the key.  The second component tells whether some agent changed.\<close>

definition rename_in :: "string \<Rightarrow> string \<Rightarrow> string list \<Rightarrow> string list" where
  "rename_in src to ts =
     concat (map (\<lambda>t. if trim_space t \<noteq> src then [t] else if to \<noteq> [] then [to] else []) ts)"

definition renameToolKey :: "string \<Rightarrow> string \<Rightarrow> agents_config \<Rightarrow> agents_config \<times> bool" where
  "renameToolKey src to r =
     (r\<lparr>acAgents := map (\<lambda>a. a\<lparr>adTools := rename_in src to (adTools a)\<rparr>) (acAgents r)\<rparr>,
      list_ex (uses_key src) (acAgents r))"

section \<open>Rows\<close>

definition findMCPIndex :: "mcp_server list \<Rightarrow> string \<Rightarrow> nat option" where
  "findMCPIndex ss key = first_index (\<lambda>s. row_key s = trim_space key) ss"

definition upsertMCP :: "string \<Rightarrow> mcp_server \<Rightarrow> mcp_server list \<Rightarrow> mcp_server list" where
  "upsertMCP originalKey def ss =
     (if originalKey \<noteq> [] \<and> findMCPIndex ss originalKey \<noteq> None
      then upsert (\<lambda>s. row_key s = trim_space originalKey) def ss
      else upsert (\<lambda>s. row_key s = row_key def) def ss)"

definition removeMCP :: "string \<Rightarrow> mcp_server list \<Rightarrow> mcp_server list" where
  "removeMCP key ss = drop_first (\<lambda>s. row_key s = trim_space key) ss"

section \<open>The form\<close>

record mcp_form =
  mfOriginalKey :: string
  mfKey :: string
  mfURL :: string
  mfAuth :: string
  mfDescription :: string
  mfHeader :: string
  mfScheme :: string
  mfTokenEnv :: string
  mfClientIDEnv :: string
  mfClientSecretEnv :: string
  mfMetadataURL :: string
  mfTokenValue :: string
  mfClientIDValue :: string
  mfClientSecretValue :: string

definition mcp_key_char :: "char \<Rightarrow> bool" where
  "mcp_key_char c \<longleftrightarrow> is_upper c \<or> is_lower c \<or> is_digit c \<or> c = CHR ''_'' \<or> c = CHR ''-''"

definition bad_env_name :: "string \<Rightarrow> bool" where
  "bad_env_name v \<longleftrightarrow> trim_space v \<noteq> [] \<and> \<not> isValidKey (trim_space v)"

definition env_name_error :: "string \<Rightarrow> string \<Rightarrow> string" where
  "env_name_error label v =
     label @ '' must be an environment variable name (letters, digits, '' @ [squote] @ ''_'' @ [squote] @ ''), got '' @
     go_quote (trim_space v)"

text \<open>
  \<open>http_url\<close> tells whether a text parses as an absolute http(s) URL; \<open>builtin\<close> are the keys of the parsed tool
  registry that are not rows of the catalog, if the source tree is there.  The trimmed form is returned.
\<close>

definition mcp_checks :: "(string \<Rightarrow> bool) \<Rightarrow> string list option \<Rightarrow> mcp_form \<Rightarrow> (bool \<times> string) list" where
  "mcp_checks http_url builtin f =
     (let header = trim_space (mfHeader f); metadata = trim_space (mfMetadataURL f)
      in [(mfKey f = [], ''key is required''),
          (\<not> list_all mcp_key_char (mfKey f), ''key may only contain letters, digits, '' @ [squote] @ ''_'' @ [squote] @
             '' and '' @ [squote] @ ''-'' @ [squote] @ '' (it prefixes the server'' @ [squote] @ ''s tool names)''),
          (mfURL f = [], ''URL is required''),
          (\<not> http_url (mfURL f), ''URL must be an absolute http(s) URL''),
          (mfAuth f \<notin> set [''none'', ''bearer'', ''apikey'', ''oauth2''],
             ''auth must be one of none, bearer, apikey, oauth2'')] @
         (if mfAuth f = ''bearer'' \<or> mfAuth f = ''apikey'' then
            [(trim_space (mfTokenEnv f) = [], ''auth '' @ mfAuth f @ '' requires a token env var name''),
             (bad_env_name (mfTokenEnv f), env_name_error ''token env var'' (mfTokenEnv f)),
             (list_ex (\<lambda>c. c \<in> set [CHR '' '', CHR '':'', CHR 0x0D, nl]) header,
                ''header must be a bare header name such as X-Api-Key'')]
          else if mfAuth f = ''oauth2'' then
            [(trim_space (mfClientIDEnv f) = [], ''auth oauth2 requires a client ID env var name''),
             (bad_env_name (mfClientIDEnv f), env_name_error ''client ID env var'' (mfClientIDEnv f)),
             (bad_env_name (mfClientSecretEnv f), env_name_error ''client secret env var'' (mfClientSecretEnv f)),
             (metadata \<noteq> [] \<and> \<not> http_url metadata, ''metadata URL must be an absolute http(s) URL'')]
          else []) @
         [(case builtin of Some ks \<Rightarrow> mfKey f \<in> set ks | None \<Rightarrow> False,
             ''key '' @ go_quote (mfKey f) @ '' is already a built-in tool key; choose another'')])"

definition validate_mcp :: "(string \<Rightarrow> bool) \<Rightarrow> string list option \<Rightarrow> mcp_form \<Rightarrow> mcp_form result" where
  "validate_mcp http_url builtin f0 =
     (let f = f0\<lparr>mfKey := trim_space (mfKey f0), mfURL := trim_space (mfURL f0), mfAuth := normalizeMCPAuth (mfAuth f0)\<rparr>
      in case first_error (mcp_checks http_url builtin f) of Inl e \<Rightarrow> Inl e | Inr u \<Rightarrow> Inr f)"

definition toServer :: "mcp_form \<Rightarrow> mcp_server" where
  "toServer f =
     (let auth = normalizeMCPAuth (mfAuth f); static = auth = ''bearer'' \<or> auth = ''apikey''; oauth = auth = ''oauth2''
      in \<lparr>msKey = trim_space (mfKey f), msURL = trim_space (mfURL f), msAuth = auth,
          msHeader = (if static then trim_space (mfHeader f) else []),
          msScheme = (if static then trim_space (mfScheme f) else []),
          msTokenEnv = (if static then trim_space (mfTokenEnv f) else []),
          msClientIDEnv = (if oauth then trim_space (mfClientIDEnv f) else []),
          msClientSecretEnv = (if oauth then trim_space (mfClientSecretEnv f) else []),
          msMetadataURL = (if oauth then trim_space (mfMetadataURL f) else []),
          msDescription = trim_space (mfDescription f)\<rparr>)"

definition loadMCPForm :: "yaml \<Rightarrow> conf_disk \<Rightarrow> string \<Rightarrow> mcp_form result" where
  "loadMCPForm ya d key =
     (case loadCatalog ya d of
        Inl e \<Rightarrow> Inl e
      | Inr ss \<Rightarrow>
          (case findMCPIndex ss key of
             None \<Rightarrow> Inl (Err (''MCP server '' @ go_quote key @ '' not found in configs/mcp_servers.yaml''))
           | Some i \<Rightarrow>
               let s = ss ! i; get = (\<lambda>n. secret (trim_space n) (loadSecrets d))
               in Inr \<lparr>mfOriginalKey = row_key s, mfKey = row_key s, mfURL = msURL s, mfAuth = normalizeMCPAuth (msAuth s),
                       mfDescription = msDescription s, mfHeader = msHeader s, mfScheme = msScheme s,
                       mfTokenEnv = msTokenEnv s, mfClientIDEnv = msClientIDEnv s,
                       mfClientSecretEnv = msClientSecretEnv s, mfMetadataURL = msMetadataURL s,
                       mfTokenValue = get (msTokenEnv s), mfClientIDValue = get (msClientIDEnv s),
                       mfClientSecretValue = get (msClientSecretEnv s)\<rparr>))"

section \<open>Saving and deleting\<close>

definition key_taken :: "string \<Rightarrow> string \<Rightarrow> mcp_server list \<Rightarrow> bool" where
  "key_taken originalKey key ss \<longleftrightarrow>
     list_ex (\<lambda>(i, s). row_key s = key \<and> (originalKey = [] \<or> findMCPIndex ss originalKey \<noteq> Some i)) (enumerate 0 ss)"

definition put_row :: "string \<Rightarrow> mcp_server \<Rightarrow> mcp_server list \<Rightarrow> mcp_server list" where
  "put_row originalKey def ss =
     upsertMCP originalKey def
       (if originalKey \<noteq> [] \<and> originalKey \<noteq> msKey def then removeMCP originalKey ss else ss)"

definition put_users :: "string \<Rightarrow> mcp_server \<Rightarrow> agents_config \<Rightarrow> agents_config \<times> bool" where
  "put_users originalKey def r =
     (if originalKey \<noteq> [] \<and> originalKey \<noteq> msKey def then renameToolKey originalKey (msKey def) r else (r, False))"

text \<open>Secret values of a form: blank ones and those that are stored already leave the file alone.\<close>

definition set_secret :: "string \<times> string \<Rightarrow> env_file \<times> bool \<Rightarrow> env_file \<times> bool" where
  "set_secret = (\<lambda>(name0, v) (f, changed).
     let name = trim_space name0
     in if name = [] \<or> trim_space v = [] \<or> secret name f = v then (f, changed) else (envSet name v f, True))"

definition form_secrets :: "mcp_form \<Rightarrow> mcp_server \<Rightarrow> (string \<times> string) list" where
  "form_secrets f def =
     (if msAuth def = ''bearer'' \<or> msAuth def = ''apikey'' then [(msTokenEnv def, mfTokenValue f)]
      else if msAuth def = ''oauth2'' then
        [(msClientIDEnv def, mfClientIDValue f), (msClientSecretEnv def, mfClientSecretValue f)]
      else [])"

definition save_secrets_of :: "mcp_form \<Rightarrow> mcp_server \<Rightarrow> (conf_disk, unit) io" where
  "save_secrets_of f def d =
     (case fold set_secret (form_secrets f def) (loadSecrets d, False) of
        (s, changed) \<Rightarrow>
          if changed then io_wrap ''catalog saved but writing secrets.env failed: '' (saveSecrets s) d else (ok, d))"

definition save_mcp ::
  "yaml \<Rightarrow> (string \<Rightarrow> bool) \<Rightarrow> string list option \<Rightarrow> mcp_form \<Rightarrow> (conf_disk, agent_ref list) io" where
  "save_mcp ya http_url builtin f0 d =
     (case validate_mcp http_url builtin f0 of
        Inl e \<Rightarrow> (Inl e, d)
      | Inr f \<Rightarrow>
          (case loadCatalog ya d of
             Inl e \<Rightarrow> (Inl e, d)
           | Inr ss \<Rightarrow>
               let def = toServer f; orig = mfOriginalKey f
               in if key_taken orig (msKey def) ss
                  then (Inl (Err (''an MCP server with key '' @ go_quote (msKey def) @ '' already exists'')), d)
                  else case loadRoster ya d of
                         Inl e \<Rightarrow> (Inl e, d)
                       | Inr r \<Rightarrow>
                           (case put_users orig def r of
                              (r1, renamed) \<Rightarrow>
                                io_bind (saveCatalog ya (put_row orig def ss)) (\<lambda>_.
                                io_bind (if renamed
                                         then io_wrap ''catalog saved but updating agents.yaml tool lists failed: ''
                                                (saveRoster ya r1)
                                         else io_return ()) (\<lambda>_.
                                io_bind (save_secrets_of f def) (\<lambda>_.
                                  io_return (agentsUsingKey r1 (msKey def))))) d)))"

definition deleteMCPServer :: "yaml \<Rightarrow> string \<Rightarrow> (conf_disk, agent_ref list) io" where
  "deleteMCPServer ya key0 d =
     (let key = trim_space key0
      in case loadCatalog ya d of
           Inl e \<Rightarrow> (Inl e, d)
         | Inr ss \<Rightarrow>
             if findMCPIndex ss key = None then (Inl (Err (''no MCP server with key '' @ go_quote key)), d)
             else case loadRoster ya d of
                    Inl e \<Rightarrow> (Inl e, d)
                  | Inr r \<Rightarrow>
                      let users = agentsUsingKey r key
                      in io_bind (saveCatalog ya (removeMCP key ss)) (\<lambda>_.
                         io_bind (if users \<noteq> []
                                  then io_wrap ''catalog saved but removing the key from agents.yaml failed: ''
                                         (saveRoster ya (fst (renameToolKey key [] r)))
                                  else io_return ()) (\<lambda>_. io_return users)) d)"

record mcp_summary =
  mmKey :: string
  mmURL :: string
  mmAuth :: string
  mmDescription :: string
  mmHeader :: string
  mmEnvNames :: "string list"
  mmMissingEnv :: "string list"
  mmUsedBy :: "agent_ref list"
  mmTokenMissing :: "string list"

definition summary_of :: "conf_disk \<Rightarrow> agents_config \<Rightarrow> mcp_server \<Rightarrow> mcp_summary" where
  "summary_of d r s =
     (let users = agentsUsingKey r (row_key s); auth = normalizeMCPAuth (msAuth s)
      in \<lparr>mmKey = row_key s, mmURL = trim_space (msURL s), mmAuth = auth, mmDescription = trim_space (msDescription s),
          mmHeader = mcpHeaderPreview s, mmEnvNames = mcpEnvNames s,
          mmMissingEnv = filter (\<lambda>n. trim_space (secret n (loadSecrets d)) = []) (mcpEnvNames s), mmUsedBy = users,
          mmTokenMissing = (if auth = ''oauth2'' then oauthTokenMissing d (row_key s) users else [])\<rparr>)"

definition listMCPServers :: "yaml \<Rightarrow> conf_disk \<Rightarrow> mcp_summary list result" where
  "listMCPServers ya d =
     and_then (loadCatalog ya d) (\<lambda>ss. and_then (loadRoster ya d) (\<lambda>r.
       Inr (sort_key mmKey (map (summary_of d r) (filter (\<lambda>s. row_key s \<noteq> []) ss)))))"

section \<open>The form and the agent agree\<close>

lemma first_error_ok: "first_error cs = Inr u \<longleftrightarrow> list_all (\<lambda>(bad, msg). \<not> bad) cs"
  by (induction cs rule: first_error.induct) auto

lemma auth_aliases:
  "normalizeMCPAuth a = ''none'' \<longleftrightarrow> to_lower (trim_space a) \<in> set ['''', ''none'']"
  "normalizeMCPAuth a = ''bearer'' \<longleftrightarrow> to_lower (trim_space a) \<in> set [''bearer'', ''static'']"
  "normalizeMCPAuth a = ''apikey'' \<longleftrightarrow> to_lower (trim_space a) \<in> set apikey_modes"
  "normalizeMCPAuth a = ''oauth2'' \<longleftrightarrow> to_lower (trim_space a) \<in> set [''oauth2'', ''oauth'']"
  by (auto simp: normalizeMCPAuth_def Let_def apikey_modes_def)

text \<open>The preview tells the truth: the header the configurator shows for a server is the one the agent sends, with the
  token left out; for a server without a static token it shows none.\<close>

theorem preview_is_the_header_sent:
  "(case mcpServerFactory s of
      Inr (Remote name url (StaticHeader env header scheme)) \<Rightarrow>
        mcpHeaderPreview s = trim_space (header @ '': '' @ trim_space (scheme @ '' '' @ ''<token>''))
    | Inr f \<Rightarrow> mcpHeaderPreview s = []
    | Inl e \<Rightarrow> True)"
proof -
  let ?m = "to_lower (trim_space (msAuth s))"
  consider "?m \<in> set ['''', ''none'']" | "?m \<in> set [''bearer'', ''static'']" | "?m \<in> set apikey_modes"
    | "?m \<in> set [''oauth2'', ''oauth'']" | "?m \<notin> set (['''', ''none'', ''bearer'', ''static'', ''oauth2'', ''oauth''] @ apikey_modes)"
    by auto
  then show ?thesis
  proof cases
    case 2
    then have "normalizeMCPAuth (msAuth s) = ''bearer''" "?m \<notin> set apikey_modes" "?m \<notin> set ['''', ''none'']"
      by (auto simp: auth_aliases apikey_modes_def)
    with 2 show ?thesis
      by (auto simp: mcpServerFactory_def mcpHeaderPreview_def staticHeaderDefaults_def Let_def)
  next
    case 3
    then have "normalizeMCPAuth (msAuth s) = ''apikey''" "?m \<notin> set ['''', ''none'']"
      by (auto simp: auth_aliases apikey_modes_def)
    with 3 show ?thesis
      by (auto simp: mcpServerFactory_def mcpHeaderPreview_def staticHeaderDefaults_def Let_def)
  next
    case 5
    then have "?m \<notin> set (''bearer'' # ''static'' # apikey_modes)" by auto
    with 5 show ?thesis by (simp add: mcpServerFactory_def Let_def)
  qed (auto simp: mcpServerFactory_def mcpHeaderPreview_def normalizeMCPAuth_def apikey_modes_def Let_def)
qed

text \<open>C21. A server the form accepts is one the agent registers: when the form knows the built-in keys, the saved row passes
  every check of the agent, and after loading a table with it the key has the factory of the row.\<close>

theorem accepted_server_is_registered:
  assumes "validate_mcp http_url (Some builtin) f0 = Inr f"
    "\<forall>k. HasTool rg k \<and> k \<notin> rgMcp rg \<longrightarrow> k \<in> set builtin"
    "distinct (map row_key servers)" "toServer f \<in> set servers"
  shows "row_ok rg (toServer f) \<and>
    (\<exists>fac. mcpServerFactory (toServer f) = Inr fac \<and>
           rgFactories (RegisterMCPServers servers rg) (msKey (toServer f)) = Some fac)"
proof -
  let ?s = "toServer f"
  from assms(1) have f: "f = f0\<lparr>mfKey := trim_space (mfKey f0), mfURL := trim_space (mfURL f0), mfAuth := normalizeMCPAuth (mfAuth f0)\<rparr>"
    and c: "list_all (\<lambda>(bad, msg). \<not> bad) (mcp_checks http_url (Some builtin) f)"
    by (auto simp: validate_mcp_def Let_def first_error_ok split: sum.splits)
  from c have v: "mfKey f \<noteq> []" "mfURL f \<noteq> []" "mfKey f \<notin> set builtin"
    "mfAuth f \<in> set [''none'', ''bearer'', ''apikey'', ''oauth2'']"
    "mfAuth f = ''bearer'' \<or> mfAuth f = ''apikey'' \<longrightarrow> trim_space (mfTokenEnv f) \<noteq> []"
    "mfAuth f = ''oauth2'' \<longrightarrow> trim_space (mfClientIDEnv f) \<noteq> []"
    unfolding mcp_checks_def Let_def by (auto split: if_splits)
  have trimmed: "trim_space (mfKey f) = mfKey f" "trim_space (mfURL f) = mfURL f" by (simp_all add: f)
  have "normalizeMCPAuth ''none'' = ''none''" "normalizeMCPAuth ''bearer'' = ''bearer''"
    "normalizeMCPAuth ''apikey'' = ''apikey''" "normalizeMCPAuth ''oauth2'' = ''oauth2''"
    "to_lower (trim_space ''none'') = ''none''" "to_lower (trim_space ''bearer'') = ''bearer''"
    "to_lower (trim_space ''apikey'') = ''apikey''" "to_lower (trim_space ''oauth2'') = ''oauth2''" by code_simp+
  with v(4) have auth: "normalizeMCPAuth (mfAuth f) = mfAuth f" "to_lower (trim_space (mfAuth f)) = mfAuth f" by auto
  have key: "row_key ?s = mfKey f" "msKey ?s = mfKey f" by (simp_all add: row_key_def toServer_def Let_def trimmed)
  have "is_ok (mcpServerFactory ?s)"
    using v(4-6) by (auto simp: mcpServerFactory_def toServer_def auth Let_def apikey_modes_def split: prod.split)
  then have ok: "row_ok rg ?s"
    using v(1-3) assms(2) by (auto simp: row_ok_def key) (auto simp: toServer_def Let_def trimmed)
  have found: "find (\<lambda>s. row_ok rg s \<and> row_key s = mfKey f) servers = Some ?s"
  proof -
    from ok assms(4) obtain s where s: "find (\<lambda>s. row_ok rg s \<and> row_key s = mfKey f) servers = Some s"
      using key(1) by (cases "find (\<lambda>s. row_ok rg s \<and> row_key s = mfKey f) servers") (auto simp: find_None_iff)
    then have "s \<in> set servers" "row_key s = row_key ?s" using key(1) by (auto simp: find_Some_iff)
    with assms(3,4) have "s = ?s" by (auto simp: distinct_map dest: inj_onD)
    with s show ?thesis by simp
  qed
  have "\<not> (HasTool rg (mfKey f) \<and> mfKey f \<notin> rgMcp rg)" using assms(2) v(3) by blast
  then have "rgFactories (RegisterMCPServers servers rg) (mfKey f) = row_factory ?s"
    using registry_after_load [OF assms(3), of rg "mfKey f"] found by auto
  with ok show ?thesis
    by (auto simp: key row_ok_def row_factory_def result_iff)
qed

definition weather_form :: mcp_form where
  "weather_form = \<lparr>mfOriginalKey = [], mfKey = '' sky '', mfURL = ''https://sky.org/mcp'', mfAuth = ''static'', mfDescription = [],
     mfHeader = [], mfScheme = [], mfTokenEnv = ''SKY_TOKEN'', mfClientIDEnv = [], mfClientSecretEnv = [],
     mfMetadataURL = [], mfTokenValue = ''t0k'', mfClientIDValue = [], mfClientSecretValue = []\<rparr>"

definition sky_form :: mcp_form where
  "sky_form = weather_form\<lparr>mfKey := ''sky'', mfAuth := ''bearer''\<rparr>"

lemma weather_form_valid: "validate_mcp (\<lambda>u. True) (Some [''report'']) weather_form = Inr sky_form"
  by code_simp

lemma accepted_server_is_registered_witness:
  "row_ok builtin_registry (toServer sky_form) \<and>
   rgFactories (RegisterMCPServers [crm_row, toServer sky_form] builtin_registry) ''sky'' =
     Some (Remote ''sky'' ''https://sky.org/mcp'' (StaticHeader ''SKY_TOKEN'' ''Authorization'' ''Bearer''))"
proof -
  have b: "\<forall>k. HasTool builtin_registry k \<and> k \<notin> rgMcp builtin_registry \<longrightarrow> k \<in> set [''report'']"
    by (simp add: HasTool_def builtin_registry_def)
  have d: "distinct (map row_key [crm_row, toServer sky_form])" by code_simp
  have m: "toServer sky_form \<in> set [crm_row, toServer sky_form]" by simp
  have "mcpServerFactory (toServer sky_form) =
      Inr (Remote ''sky'' ''https://sky.org/mcp'' (StaticHeader ''SKY_TOKEN'' ''Authorization'' ''Bearer''))"
    "msKey (toServer sky_form) = ''sky''" by code_simp+
  then show ?thesis
    using accepted_server_is_registered [OF weather_form_valid b d m] by auto
qed

section \<open>A saved server\<close>

lemma loadCatalog_saved:
  assumes "saveCatalog ya ss d = (Inr (), d')" "\<And>b. yaShowServers ya ss = Inr b \<Longrightarrow> yaReadServers ya (mcpServersHeader @ b) = Inr ss"
  shows "loadCatalog ya d' = Inr ss \<and> (\<exists>x. d' = d\<lparr>cdCatalog := x\<rparr>)"
  using assms by (auto simp: saveCatalog_def write_to_def loadCatalog_def LoadMCPServers_def split: option.splits sum.splits)

lemma save_secrets_disk: "save_secrets_of f def d = (Inr (), d') \<Longrightarrow> \<exists>x. d' = d\<lparr>cdSecrets := x\<rparr>"
  by (auto simp: save_secrets_of_def result_iff split: prod.splits if_splits) (metis conf_disk.surjective conf_disk.update_convs(1))

lemma other_files [simp]:
  "loadRoster ya (d\<lparr>cdCatalog := x\<rparr>) = loadRoster ya d" "loadRoster ya (d\<lparr>cdSecrets := x\<rparr>) = loadRoster ya d"
  "loadCatalog ya (d\<lparr>cdRoster := x\<rparr>) = loadCatalog ya d" "loadCatalog ya (d\<lparr>cdSecrets := x\<rparr>) = loadCatalog ya d"
  by (simp_all add: loadRoster_def loadCatalog_def)

lemma rename_in_id: "\<not> list_ex (\<lambda>t. trim_space t = src) ts \<Longrightarrow> rename_in src to ts = ts"
  by (induction ts) (auto simp: rename_in_def)

lemma uses_rename:
  "to \<noteq> [] \<Longrightarrow> trim_space to = to \<Longrightarrow>
   uses_key to (a\<lparr>adTools := rename_in src to (adTools a)\<rparr>) \<longleftrightarrow> uses_key src a \<or> uses_key to a"
  by (auto simp: uses_key_def rename_in_def list_ex_iff)

lemma put_users_keys:
  assumes "put_users orig def r = (r1, renamed)" "msKey def \<noteq> []" "trim_space (msKey def) = msKey def"
  shows "map adEmail (filter (uses_key (msKey def)) (acAgents r1)) =
      map adEmail (filter (\<lambda>a. uses_key (msKey def) a \<or> orig \<noteq> [] \<and> uses_key orig a) (acAgents r)) \<and>
    (\<not> renamed \<longrightarrow> r1 = r)"
proof (cases "orig \<noteq> [] \<and> orig \<noteq> msKey def")
  case True
  have id: "map (\<lambda>a. a\<lparr>adTools := rename_in orig (msKey def) (adTools a)\<rparr>) as = as" if "\<not> list_ex (uses_key orig) as" for as
    using that by (induction as) (auto simp: uses_key_def rename_in_id)
  have "map adEmail (filter (uses_key (msKey def)) (map (\<lambda>a. a\<lparr>adTools := rename_in orig (msKey def) (adTools a)\<rparr>) as)) =
      map adEmail (filter (\<lambda>a. uses_key (msKey def) a \<or> uses_key orig a) as)" for as
    using uses_rename [OF assms(2,3)] by (induction as) auto
  from True assms(1) this [of "acAgents r"] id [of "acAgents r"] show ?thesis
    by (auto simp: put_users_def renameToolKey_def)
next
  case False
  with assms(1) show ?thesis
    by (auto simp: put_users_def intro!: arg_cong [where f = "map adEmail"] filter_cong)
qed

lemma put_row_eq:
  assumes "distinct (map row_key ss)" "row_key def = msKey def"
  shows "put_row orig def ss =
    upsert (\<lambda>s. row_key s = row_key def) def (if orig \<noteq> [] \<and> orig \<noteq> msKey def then removeMCP orig ss else ss)"
proof (cases "orig \<noteq> [] \<and> orig \<noteq> msKey def")
  case True
  have "find (\<lambda>s. row_key s = trim_space orig) (removeMCP orig ss) = None"
    unfolding removeMCP_def by (simp add: find_drop_first [OF assms(1)])
  with True show ?thesis by (simp add: put_row_def upsertMCP_def findMCPIndex_def first_index_None)
next
  case False
  with assms(2) show ?thesis by (auto simp: put_row_def upsertMCP_def row_key_def)
qed

lemma first_index_key:
  "distinct (map key xs) \<Longrightarrow> (i, x) \<in> set (enumerate n xs) \<Longrightarrow> first_index (\<lambda>y. key y = key x) xs = Some (i - n)"
proof (induction xs arbitrary: n)
  case (Cons y ys)
  show ?case
  proof (cases "(i, x) = (n, y)")
    case False
    with Cons.prems have m: "(i, x) \<in> set (enumerate (Suc n) ys)" by auto
    then have "x \<in> set ys" "Suc n \<le> i" by (auto simp: in_set_enumerate_eq intro: nth_mem)
    with Cons m show ?thesis by (auto simp: Suc_diff_Suc)
  qed simp
qed simp

lemma first_index_Some: "first_index P xs = Some i \<Longrightarrow> i < length xs \<and> P (xs ! i)"
  by (induction xs arbitrary: i) (auto split: if_splits)

lemma not_taken:
  assumes "\<not> key_taken orig key ss" "s \<in> set ss" "row_key s = key"
  shows "orig \<noteq> [] \<and> key = trim_space orig"
proof -
  from assms(2) obtain i where i: "i < length ss" "ss ! i = s" by (auto simp: in_set_conv_nth)
  then have "(i, s) \<in> set (enumerate 0 ss)" by (auto simp: in_set_enumerate_eq)
  with assms(1,3) have "orig \<noteq> []" "findMCPIndex ss orig = Some i" by (auto simp: key_taken_def list_ex_iff)
  with first_index_Some [of "\<lambda>s. row_key s = trim_space orig" ss i] i assms(3) show ?thesis by (simp add: findMCPIndex_def)
qed

lemma set_put_row:
  assumes "distinct (map row_key ss)" "row_key def = msKey def" "\<not> key_taken orig (msKey def) ss"
  shows "set (put_row orig def ss) = insert def {s \<in> set ss. orig = [] \<or> row_key s \<noteq> trim_space orig} \<and>
    distinct (map row_key (put_row orig def ss))"
proof -
  let ?ss = "if orig \<noteq> [] \<and> orig \<noteq> msKey def then removeMCP orig ss else ss"
  have d: "distinct (map row_key ?ss)" using assms(1) by (auto simp: removeMCP_def intro: distinct_drop_first)
  have s: "set ?ss = {s \<in> set ss. orig \<noteq> [] \<and> orig \<noteq> msKey def \<longrightarrow> row_key s \<noteq> trim_space orig}"
    using set_drop_first [OF assms(1)] by (auto simp: removeMCP_def)
  have "set (put_row orig def ss) = insert def {s \<in> set ?ss. row_key s \<noteq> row_key def}"
    unfolding put_row_eq [OF assms(1,2)] by (rule set_upsert [OF d])
  also have "\<dots> = insert def {s \<in> set ss. orig = [] \<or> row_key s \<noteq> trim_space orig}"
    unfolding s using not_taken [OF assms(3)] assms(2) by (auto simp: row_key_def)
  finally show ?thesis using distinct_upsert [OF d, of def] by (simp add: put_row_eq [OF assms(1,2)])
qed

text \<open>What a save leaves: the row in the catalog, and the roster with the renamed keys.\<close>

lemma saved_catalog:
  assumes "validate_mcp http_url builtin f0 = Inr f" "loadCatalog ya d = Inr ss" "loadRoster ya d = Inr r"
    "save_mcp ya http_url builtin f0 d = (Inr users, d')" "put_users (mfOriginalKey f) (toServer f) r = (r1, renamed)"
    "\<forall>b. yaShowServers ya (put_row (mfOriginalKey f) (toServer f) ss) = Inr b \<longrightarrow>
       yaReadServers ya (mcpServersHeader @ b) = Inr (put_row (mfOriginalKey f) (toServer f) ss)"
  shows "\<not> key_taken (mfOriginalKey f) (msKey (toServer f)) ss"
    and "loadCatalog ya d' = Inr (put_row (mfOriginalKey f) (toServer f) ss)"
    and "users = agentsUsingKey r1 (msKey (toServer f))"
    and "\<forall>b. yaShow ya r1 = Inr b \<longrightarrow> yaRead ya b = Inr r1 \<Longrightarrow> \<not> renamed \<longrightarrow> r1 = r \<Longrightarrow> loadRoster ya d' = Inr r1"
proof -
  let ?def = "toServer f" and ?orig = "mfOriginalKey f"
  from assms(1-5) obtain d1 d2 where run:
    "\<not> key_taken ?orig (msKey ?def) ss" "saveCatalog ya (put_row ?orig ?def ss) d = (Inr (), d1)"
    "if renamed then saveRoster ya r1 d1 = (Inr (), d2) else d2 = d1"
    "save_secrets_of f ?def d2 = (Inr (), d')" "users = agentsUsingKey r1 (msKey ?def)"
    by (auto simp: save_mcp_def Let_def result_iff split: if_splits)
  obtain x where cat: "loadCatalog ya d1 = Inr (put_row ?orig ?def ss)" "d1 = d\<lparr>cdCatalog := x\<rparr>"
    using loadCatalog_saved [OF run(2)] assms(6) by blast
  obtain z where d': "d' = d2\<lparr>cdSecrets := z\<rparr>" using save_secrets_disk [OF run(4)] by blast
  have d2: "loadCatalog ya d2 = loadCatalog ya d1"
    using run(3) by (cases renamed) (auto simp: loadCatalog_def saveRoster_def write_to_def split: option.splits sum.splits)
  show "\<not> key_taken ?orig (msKey ?def) ss" "users = agentsUsingKey r1 (msKey ?def)" by (fact run)+
  show "loadCatalog ya d' = Inr (put_row ?orig ?def ss)" using cat(1) d2 d' by simp
  assume law: "\<forall>b. yaShow ya r1 = Inr b \<longrightarrow> yaRead ya b = Inr r1" and u: "\<not> renamed \<longrightarrow> r1 = r"
  have "loadRoster ya d2 = Inr r1"
  proof (cases renamed)
    case True
    with run(3) have s: "saveRoster ya r1 d1 = (Inr (), d2)" by simp
    from loadRoster_saved [OF s] law show ?thesis by auto
  next
    case False
    with run(3) u cat(2) assms(3) show ?thesis by simp
  qed
  then show "loadRoster ya d' = Inr r1" by (simp add: d')
qed

text \<open>C20. A saved server reaches exactly its users: the catalog then holds the saved row and every row of another server as it
  was, each key once; an agent lists the key exactly when it listed the new or the old one; these agents are returned.\<close>

theorem saved_server_reaches_its_users:
  assumes "validate_mcp http_url builtin f0 = Inr f" "loadCatalog ya d = Inr ss" "distinct (map row_key ss)"
    "loadRoster ya d = Inr r" "save_mcp ya http_url builtin f0 d = (Inr users, d')"
    "\<forall>b. yaShowServers ya (put_row (mfOriginalKey f) (toServer f) ss) = Inr b \<longrightarrow>
       yaReadServers ya (mcpServersHeader @ b) = Inr (put_row (mfOriginalKey f) (toServer f) ss)"
    "\<forall>b. yaShow ya (fst (put_users (mfOriginalKey f) (toServer f) r)) = Inr b \<longrightarrow>
       yaRead ya b = Inr (fst (put_users (mfOriginalKey f) (toServer f) r))"
  shows "\<exists>ss' r'. loadCatalog ya d' = Inr ss' \<and> loadRoster ya d' = Inr r' \<and>
    set ss' = insert (toServer f) {s \<in> set ss. mfOriginalKey f = [] \<or> row_key s \<noteq> trim_space (mfOriginalKey f)} \<and>
    distinct (map row_key ss') \<and>
    map arEmail users = map adEmail (filter (uses_key (mfKey f)) (acAgents r')) \<and>
    map arEmail users =
      map adEmail (filter (\<lambda>a. uses_key (mfKey f) a \<or> mfOriginalKey f \<noteq> [] \<and> uses_key (mfOriginalKey f) a) (acAgents r))"
proof -
  let ?def = "toServer f" and ?orig = "mfOriginalKey f"
  obtain r1 renamed where pu: "put_users ?orig ?def r = (r1, renamed)" by (metis prod.collapse)
  from assms(1) have key: "msKey ?def = mfKey f" "trim_space (mfKey f) = mfKey f" "mfKey f \<noteq> []"
    by (auto simp: validate_mcp_def Let_def first_error_ok mcp_checks_def toServer_def split: sum.splits)
  have row: "row_key ?def = msKey ?def" by (simp add: row_key_def key)
  note saved = saved_catalog [OF assms(1,2,4,5) pu assms(6)]
  have users: "map arEmail users = map adEmail (filter (uses_key (mfKey f)) (acAgents r1))"
    by (simp add: saved(3) agentsUsingKey_def key)
  from put_users_keys [OF pu] key have
    u: "map adEmail (filter (uses_key (mfKey f)) (acAgents r1)) =
          map adEmail (filter (\<lambda>a. uses_key (mfKey f) a \<or> ?orig \<noteq> [] \<and> uses_key ?orig a) (acAgents r))"
      "\<not> renamed \<longrightarrow> r1 = r" by simp_all
  have "loadRoster ya d' = Inr r1" using saved(4) assms(7) pu u(2) by simp
  then show ?thesis using saved(2) set_put_row [OF assms(3) row saved(1)] users u(1) by auto
qed

definition users_of :: "string list \<Rightarrow> agents_config" where
  "users_of tools = empty_roster\<lparr>acAgents := [blank_agent\<lparr>adEmail := ''kiku@x.org'', adTools := tools\<rparr>,
     blank_agent\<lparr>adEmail := ''ann@x.org''\<rparr>]\<rparr>"

definition rename_yaml :: yaml where
  "rename_yaml = \<lparr>yaShow = (\<lambda>r. Inr (join '','' (concat (map adTools (acAgents r))))),
     yaRead = (\<lambda>s. Inr (users_of (split_char (CHR '','') s))),
     yaShowServers = (\<lambda>ss. Inr (join '','' (map msKey ss))),
     yaReadServers = (\<lambda>s. Inr (if s = ''old'' then [crm_row] else [toServer sky_form]))\<rparr>"

definition rename_disk :: conf_disk where
  "rename_disk = conf_sample\<lparr>cdRoster := Stored ''report,crm'', cdCatalog := Stored ''old''\<rparr>"

definition rename_form :: mcp_form where
  "rename_form = sky_form\<lparr>mfOriginalKey := ''crm''\<rparr>"

lemma saved_server_reaches_its_users_witness:
  "\<exists>r'. loadRoster rename_yaml (snd (save_mcp rename_yaml (\<lambda>u. True) None rename_form rename_disk)) = Inr r' \<and>
     map adEmail (filter (uses_key ''sky'') (acAgents r')) = [''kiku@x.org'']"
proof -
  let ?d = "snd (save_mcp rename_yaml (\<lambda>u. True) None rename_form rename_disk)"
  let ?us = "[\<lparr>arName = ''kiku@x.org'', arEmail = ''kiku@x.org''\<rparr>]"
  let ?old = "users_of [''report'', ''crm'']"
  have v: "validate_mcp (\<lambda>u. True) None rename_form = Inr rename_form" by code_simp
  have c: "loadCatalog rename_yaml rename_disk = Inr [crm_row]" by code_simp
  have k: "distinct (map row_key [crm_row])" by simp
  have r: "loadRoster rename_yaml rename_disk = Inr ?old" by code_simp
  have "fst (save_mcp rename_yaml (\<lambda>u. True) None rename_form rename_disk) = Inr ?us" by code_simp
  then have s: "save_mcp rename_yaml (\<lambda>u. True) None rename_form rename_disk = (Inr ?us, ?d)" by (metis prod.collapse)
  have row: "put_row (mfOriginalKey rename_form) (toServer rename_form) [crm_row] = [toServer sky_form]" by code_simp
  have y1: "\<forall>b. yaShowServers rename_yaml (put_row (mfOriginalKey rename_form) (toServer rename_form) [crm_row]) = Inr b \<longrightarrow>
      yaReadServers rename_yaml (mcpServersHeader @ b) =
        Inr (put_row (mfOriginalKey rename_form) (toServer rename_form) [crm_row])"
    unfolding row by (simp add: rename_yaml_def mcpServersHeader_def)
  have us: "fst (put_users (mfOriginalKey rename_form) (toServer rename_form) ?old) = users_of [''report'', ''sky'']" by code_simp
  have "yaShow rename_yaml (users_of [''report'', ''sky'']) = Inr ''report,sky''"
    "yaRead rename_yaml ''report,sky'' = Inr (users_of [''report'', ''sky''])" by code_simp+
  then have y2: "\<forall>b. yaShow rename_yaml (fst (put_users (mfOriginalKey rename_form) (toServer rename_form) ?old)) = Inr b \<longrightarrow>
      yaRead rename_yaml b = Inr (fst (put_users (mfOriginalKey rename_form) (toServer rename_form) ?old))"
    unfolding us by simp
  have "map adEmail (filter (\<lambda>a. uses_key (mfKey rename_form) a \<or>
      mfOriginalKey rename_form \<noteq> [] \<and> uses_key (mfOriginalKey rename_form) a) (acAgents ?old)) = [''kiku@x.org'']" by code_simp
  moreover have "mfKey rename_form = ''sky''" by code_simp
  ultimately show ?thesis using saved_server_reaches_its_users [OF v c k r s y1 y2] by metis
qed

end
