(* ===== verification/Compose.thy ===== *)
theory Compose
  imports Mcp_Catalog "HOL-Library.Multiset"
begin

text \<open>
  The generated \<open>docker-compose.yml\<close> (\<open>scripts/configurator/compose.go\<close>): one service per agent of the roster, with a
  key made from its name, and the extra networks.
\<close>

section \<open>Agents and service names\<close>

record agent_summary =
  asStem :: string
  asName :: string
  asEmail :: string
  asRole :: string

definition listAgents :: "yaml \<Rightarrow> conf_disk \<Rightarrow> agent_summary list result" where
  "listAgents ya d =
     and_then (loadRoster ya d) (\<lambda>r.
       Inr (sort_key (\<lambda>s. to_lower (asName s))
              (map (\<lambda>a. \<lparr>asStem = emailStem (adEmail a), asName = trim_space (adName a), asEmail = adEmail a,
                          asRole = adRole a\<rparr>)
                (filter (\<lambda>a. trim_space (adEmail a) \<noteq> []) (acAgents r)))))"

definition emailServerHost :: "yaml \<Rightarrow> conf_disk \<Rightarrow> string" where
  "emailServerHost ya d =
     (let v = (case loadRoster ya d of Inl e \<Rightarrow> [] | Inr r \<Rightarrow> trim_space (ccEmailServer (acCommon r)))
      in if v = [] then ''mail.agents.example.com''
         else case last_index_char (CHR '':'') v of Some i \<Rightarrow> if i > 0 then take i v else v | None \<Rightarrow> v)"

fun dashed :: "bool \<Rightarrow> string \<Rightarrow> string" where
  "dashed prevDash [] = []"
| "dashed prevDash (c # cs) =
     (if is_lower c \<or> is_digit c then c # dashed False cs
      else if prevDash then dashed True cs else CHR ''-'' # dashed True cs)"

definition composeServiceName :: "string \<Rightarrow> string \<Rightarrow> string" where
  "composeServiceName name stem =
     (let out = trim_by (\<lambda>c. c = CHR ''-'') (dashed True (to_lower (trim_space name)))
      in if out = [] then stem else out)"

record compose_service =
  csKey :: string
  csStem :: string
  csEmail :: string

text \<open>\<open>used\<close> counts how often a name has been given out.\<close>

fun name_services :: "(string \<Rightarrow> nat) \<Rightarrow> agent_summary list \<Rightarrow> compose_service list" where
  "name_services used [] = []"
| "name_services used (a # as) =
     (let name = composeServiceName (asName a) (asStem a); n = used name
      in \<lparr>csKey = (if n > 0 then name @ ''-'' @ show_nat (n + 1) else name), csStem = asStem a, csEmail = asEmail a\<rparr> #
         name_services (used(name := n + 1)) as)"

definition composeServices :: "yaml \<Rightarrow> conf_disk \<Rightarrow> compose_service list result" where
  "composeServices ya d =
     and_then (wrap_err ''listing agents: '' (listAgents ya d)) (\<lambda>as.
       Inr (sort_key csKey (name_services (\<lambda>n. 0) as)))"

section \<open>Networks\<close>

definition network_char :: "char \<Rightarrow> bool" where
  "network_char c \<longleftrightarrow> is_upper c \<or> is_lower c \<or> is_digit c"

definition dockerNetworkName :: "string \<Rightarrow> bool" where
  "dockerNetworkName n =
     (case n of [] \<Rightarrow> False
      | c # cs \<Rightarrow> network_char c \<and> list_all (\<lambda>d. network_char d \<or> d \<in> set [CHR ''_'', CHR ''.'', CHR ''-'']) cs)"

fun add_networks :: "string list \<Rightarrow> string list \<Rightarrow> string list result" where
  "add_networks seen [] = Inr []"
| "add_networks seen (n0 # ns) =
     (let n = trim_space n0
      in if n = [] \<or> n \<in> set seen then add_networks seen ns
         else if \<not> dockerNetworkName n
         then Inl (Err (''common.docker_networks: invalid network name '' @ go_quote n))
         else and_then (add_networks (n # seen) ns) (\<lambda>out. Inr (n # out)))"

definition composeNetworks :: "yaml \<Rightarrow> conf_disk \<Rightarrow> string list result" where
  "composeNetworks ya d =
     and_then (loadRoster ya d) (\<lambda>r. add_networks [''default''] (ccDockerNetworks (acCommon r)))"

section \<open>The file\<close>

definition lines_text :: "string list \<Rightarrow> string" where
  "lines_text ls = concat (map (\<lambda>l. l @ [nl]) ls)"

definition service_text :: "string \<Rightarrow> string list \<Rightarrow> compose_service \<Rightarrow> string" where
  "service_text emailHost networks s =
     lines_text
       ([''  '' @ csKey s @ '':'', ''    build: .'', ''    env_file:'', ''      - configs/secrets.env'',
         ''    environment:'', ''      - RUNNING_IN_CONTAINER=true'', ''      - AGENT_EMAIL='' @ csEmail s,
         ''      - AGENTS_CONFIG=/app/configs/agents.yaml'',
         ''      - MCP_SERVERS_CONFIG=/app/configs/mcp_servers.yaml'', ''    restart: unless-stopped'',
         ''    extra_hosts:'', ''      - '' @ [dquote] @ ''host.docker.internal:host-gateway'' @ [dquote],
         ''#      - '' @ [dquote] @ emailHost @ '':host-gateway'' @ [dquote] @ '' # optional for localhost email server'',
         ''    volumes:'', ''      - ./data/'' @ csStem s @ '':/app/data'',
         ''      - ./configs/knowledge:/app/knowledge:ro'', ''      - ./configs:/app/configs:ro''] @
        (if networks \<noteq> [] then [''    networks:'', ''      - default''] @ map (\<lambda>n. ''      - '' @ n) networks else []))"

definition compose_text :: "string \<Rightarrow> string list \<Rightarrow> compose_service list \<Rightarrow> string" where
  "compose_text emailHost networks svcs =
     ''services:'' @ [nl] @ join [nl] (map (service_text emailHost networks) svcs) @
     (if networks \<noteq> []
      then [nl] @ lines_text (''networks:'' # concat (map (\<lambda>n. [''  '' @ n @ '':'', ''    external: true'']) networks))
      else [])"

definition composePath :: string where "composePath = ''docker-compose.yml''"

definition regenerateCompose :: "yaml \<Rightarrow> (conf_disk, unit) io" where
  "regenerateCompose ya d =
     (case composeServices ya d of
        Inl e \<Rightarrow> (Inl e, d)
      | Inr svcs \<Rightarrow>
          io_bind (ensureMCPServersFile ya) (\<lambda>_ d1.
            case composeNetworks ya d1 of
              Inl e \<Rightarrow> (Inl e, d1)
            | Inr networks \<Rightarrow>
                write_to composePath
                  (\<lambda>d. d\<lparr>cdCompose := Stored (compose_text (emailServerHost ya d1) networks svcs)\<rparr>) d1) d)"

section \<open>Every agent its own service\<close>

definition decimal :: "string \<Rightarrow> nat" where
  "decimal s = foldl (\<lambda>n c. 10 * n + (of_char c - 48)) 0 s"

lemma decimal_show_nat: "decimal (show_nat n) = n"
proof (induction n rule: less_induct)
  case (less n)
  show ?case
  proof (cases "n < 10")
    case True
    then show ?thesis by (simp add: show_nat.simps [of n] decimal_def)
  next
    case False
    then have "decimal (show_nat (n div 10)) = n div 10" by (intro less) simp
    with False show ?thesis by (subst show_nat.simps) (simp add: decimal_def)
  qed
qed

lemma show_nat_inj: "show_nat m = show_nat n \<longleftrightarrow> m = n"
  by (metis decimal_show_nat)

definition service_name :: "agent_summary \<Rightarrow> string" where
  "service_name a = composeServiceName (asName a) (asStem a)"

text \<open>No name is another one with a dash and a number.\<close>

definition plain_names :: "string set \<Rightarrow> bool" where
  "plain_names N \<longleftrightarrow> (\<forall>m\<in>N. \<forall>n\<in>N. \<forall>k. m \<noteq> n @ ''-'' @ show_nat k)"

definition keys_from :: "(string \<Rightarrow> nat) \<Rightarrow> string set \<Rightarrow> string set" where
  "keys_from used N = {n \<in> N. used n = 0} \<union> {n @ ''-'' @ show_nat k | n k. n \<in> N \<and> used n < k}"

lemma keys_from_next: "keys_from (used(n := used n + 1)) N \<subseteq> keys_from used (insert n N)"
proof
  fix x assume "x \<in> keys_from (used(n := used n + 1)) N"
  then consider "x \<in> N" "x \<noteq> n" "used x = 0"
    | m k where "x = m @ ''-'' @ show_nat k" "m \<in> N" "(used(n := used n + 1)) m < k"
    unfolding keys_from_def Un_iff mem_Collect_eq by (elim disjE exE conjE) (auto split: if_splits)
  then show "x \<in> keys_from used (insert n N)"
  proof cases
    case 2
    then have "used m < k" by (auto split: if_splits)
    with 2 show ?thesis by (auto simp: keys_from_def)
  qed (simp add: keys_from_def)
qed

lemma name_services_keys: "csKey ` set (name_services used as) \<subseteq> keys_from used (service_name ` set as)"
proof (induction as arbitrary: used)
  case (Cons a as)
  let ?n = "service_name a"
  have "(if used ?n > 0 then ?n @ ''-'' @ show_nat (used ?n + 1) else ?n) \<in> keys_from used (service_name ` set (a # as))"
    by (auto simp: keys_from_def)
  moreover have "csKey ` set (name_services (used(?n := used ?n + 1)) as) \<subseteq> keys_from used (service_name ` set (a # as))"
    by (rule order_trans [OF Cons.IH]) (use keys_from_next [of used ?n "service_name ` set as"] in \<open>simp add: fun_upd_def\<close>)
  ultimately show ?case by (simp add: Let_def service_name_def [symmetric])
qed simp

lemma show_nat_no_dash: "CHR ''-'' \<notin> set (show_nat n)"
proof (induction n rule: less_induct)
  case (less n)
  have "\<not> is_digit (CHR ''-'')" by code_simp
  then have d: "k < 10 \<Longrightarrow> CHR ''-'' \<noteq> char_of (48 + k)" for k :: nat
    using is_digit_char_of [of k] by metis
  show ?case
  proof (cases "n < 10")
    case False
    then have "CHR ''-'' \<notin> set (show_nat (n div 10))" by (intro less) simp
    with False d [of "n mod 10"] show ?thesis by (subst show_nat.simps) simp
  qed (use d in \<open>simp add: show_nat.simps\<close>)
qed

lemma dash_number_inj: "a @ ''-'' @ show_nat j = b @ ''-'' @ show_nat k \<longleftrightarrow> a = b \<and> j = k"
proof
  assume e: "a @ ''-'' @ show_nat j = b @ ''-'' @ show_nat k"
  then have "last_index_char (CHR ''-'') (a @ CHR ''-'' # show_nat j) = last_index_char (CHR ''-'') (b @ CHR ''-'' # show_nat k)"
    by simp
  then have "length a = length b" by (simp add: last_index_char_append show_nat_no_dash)
  with e show "a = b \<and> j = k" by (simp add: show_nat_inj)
qed simp

lemma name_services_distinct:
  assumes "plain_names (service_name ` set as)"
  shows "distinct (map csKey (name_services used as))"
  using assms
proof (induction as arbitrary: used)
  case (Cons a as)
  let ?n = "service_name a"
  let ?used = "used(?n := used ?n + 1)"
  let ?key = "if used ?n > 0 then ?n @ ''-'' @ show_nat (used ?n + 1) else ?n"
  have p: "plain_names (service_name ` set as)"
    using Cons.prems by (simp add: plain_names_def)
  have q: "m \<noteq> n @ ''-'' @ show_nat k" if "m \<in> service_name ` set (a # as)" "n \<in> service_name ` set (a # as)" for m n k
    using Cons.prems that unfolding plain_names_def by blast
  have new: "?key \<notin> csKey ` set (name_services ?used as)"
  proof
    assume "?key \<in> csKey ` set (name_services ?used as)"
    with name_services_keys [of ?used as] have "?key \<in> keys_from ?used (service_name ` set as)" by blast
    then consider "?key \<in> service_name ` set as" "?used ?key = 0"
      | n k where "?key = n @ ''-'' @ show_nat k" "n \<in> service_name ` set as" "?used n < k"
      by (auto simp: keys_from_def)
    then show False
    proof cases
      case 1
      then show ?thesis using q [of ?key ?n] by (auto split: if_splits)
    next
      case 2
      then have "used ?n > 0" using q [of ?n n k] by (auto split: if_splits)
      with 2 have "?n @ ''-'' @ show_nat (used ?n + 1) = n @ ''-'' @ show_nat k" by simp
      then have "?n = n \<and> used ?n + 1 = k" by (rule dash_number_inj [THEN iffD1])
      with 2(3) show ?thesis by auto
    qed
  qed
  with Cons.IH [OF p] show ?case by (simp add: Let_def service_name_def [symmetric])
qed simp

lemma csEmail_name_services: "map csEmail (name_services used as) = map asEmail as"
  by (induction as arbitrary: used) (simp_all add: Let_def)

text \<open>Every agent gets a service of its own: the services carry the addresses of the agents that have one, and their keys differ
  when no name of an agent is another one with a dash and a number.\<close>

theorem services_are_the_agents:
  assumes "loadRoster ya d = Inr r" "composeServices ya d = Inr svcs" "listAgents ya d = Inr as"
    "plain_names (service_name ` set as)"
  shows "mset (map csEmail svcs) = mset (filter (\<lambda>m. trim_space m \<noteq> []) (map adEmail (acAgents r))) \<and>
    distinct (map csKey svcs)"
proof -
  let ?svcs = "name_services (\<lambda>n. 0) as"
  have svcs: "svcs = sort_key csKey ?svcs" using assms(2,3) by (simp add: composeServices_def)
  have "mset (map asEmail as) = mset (filter (\<lambda>m. trim_space m \<noteq> []) (map adEmail (acAgents r)))"
    using assms(1,3) by (auto simp: listAgents_def filter_map o_def image_mset.compositionality)
  moreover have "mset (map csEmail svcs) = mset (map asEmail as)"
    unfolding svcs csEmail_name_services [of "\<lambda>n. 0", symmetric] by simp
  moreover have "distinct (map csKey svcs) = distinct (map csKey ?svcs)"
    unfolding svcs by (intro mset_eq_imp_distinct_iff) (simp add: mset_map)
  ultimately show ?thesis using name_services_distinct [OF assms(4)] by simp
qed

definition team_disk :: conf_disk where
  "team_disk = conf_sample\<lparr>cdRoster := Stored ''team''\<rparr>"

definition team_yaml :: "string list \<Rightarrow> yaml" where
  "team_yaml names = rename_yaml\<lparr>yaRead := (\<lambda>s. Inr (empty_roster\<lparr>acAgents :=
     map (\<lambda>(i, n). blank_agent\<lparr>adName := n, adEmail := show_nat i @ ''@x.org''\<rparr>) (enumerate 0 names)\<rparr>))\<rparr>"

definition team :: "string list \<Rightarrow> agent_summary list" where
  "team names = (case listAgents (team_yaml names) team_disk of Inr as \<Rightarrow> as | Inl e \<Rightarrow> [])"

lemma services_are_the_agents_witness:
  "map csKey (case composeServices (team_yaml [''Ann'', ''Bo C'', ''ann'']) team_disk of Inr ss \<Rightarrow> ss | Inl e \<Rightarrow> []) =
     [''ann'', ''ann-2'', ''bo-c''] \<and>
   distinct (map csKey (case composeServices (team_yaml [''Ann'', ''Bo C'', ''ann'']) team_disk of Inr ss \<Rightarrow> ss | Inl e \<Rightarrow> []))"
proof -
  let ?n = "[''Ann'', ''Bo C'', ''ann'']"
  have l: "loadRoster (team_yaml ?n) team_disk = yaRead (team_yaml ?n) ''team''" "is_ok (loadRoster (team_yaml ?n) team_disk)"
    "is_ok (composeServices (team_yaml ?n) team_disk)" "is_ok (listAgents (team_yaml ?n) team_disk)"
    by code_simp+
  then obtain r svcs as where r: "loadRoster (team_yaml ?n) team_disk = Inr r" "composeServices (team_yaml ?n) team_disk = Inr svcs"
    "listAgents (team_yaml ?n) team_disk = Inr as" by (auto simp: result_iff)
  have as: "map service_name (team ?n) = [''ann'', ''ann'', ''bo-c'']" by code_simp
  have "service_name ` set as = {''ann'', ''bo-c''}"
    using arg_cong [OF as, of set] r(3) by (simp add: team_def)
  then have p: "plain_names (service_name ` set as)"
    by (auto simp: plain_names_def Cons_eq_append_conv)
  have "map csKey (case composeServices (team_yaml ?n) team_disk of Inr ss \<Rightarrow> ss | Inl e \<Rightarrow> []) = [''ann'', ''ann-2'', ''bo-c'']"
    by code_simp
  then show ?thesis using services_are_the_agents [OF r p] r(2) by simp
qed

text \<open>The suffix of a repeated name can be the name of a third agent: two services then have one key.\<close>

theorem service_keys_can_clash:
  "map csKey (case composeServices (team_yaml [''Ann'', ''Ann'', ''Ann 2'']) team_disk of Inr ss \<Rightarrow> ss | Inl e \<Rightarrow> []) =
     [''ann'', ''ann-2'', ''ann-2'']"
  by code_simp

end
