(* ===== verification/Postfix.thy ===== *)
theory Postfix
  imports Compose
begin

text \<open>
  The settings of the bundled mail server (\<open>scripts/configurator/postfix.go\<close>): the three generated postfix files, the
  marker that switches the service off, and reading the settings back from them.
\<close>

section \<open>Settings\<close>

record email_service =
  esEnabled :: bool
  esAgentDomain :: string
  esLimitDelivery :: bool
  esDeliveryDomains :: "string list"
  esLimitAccept :: bool
  esAcceptDomains :: "string list"

definition no_service :: email_service where
  "no_service = \<lparr>esEnabled = False, esAgentDomain = [], esLimitDelivery = False, esDeliveryDomains = [],
     esLimitAccept = False, esAcceptDomains = []\<rparr>"

definition dms_dir :: string where "dms_dir = ''services/dms/config''"
definition disabled_path :: string where "disabled_path = ''services/dms/.email-service-disabled''"
definition transport_path :: string where "transport_path = ''services/dms/config/postfix-transport.cf''"
definition access_path :: string where "access_path = ''services/dms/config/postfix-sender-access.cf''"
definition main_path :: string where "main_path = ''services/dms/config/postfix-main.cf''"

text \<open>
  Creating or removing the marker; \<open>os.MkdirAll\<close> on the directory above is taken to succeed where the write does.
\<close>

definition setEmailServiceDisabled :: "bool \<Rightarrow> (conf_disk, unit) io" where
  "setEmailServiceDisabled disabled d =
     (if \<not> disabled \<and> \<not> cdDisabled d then (ok, d)
      else write_to disabled_path (\<lambda>d. d\<lparr>cdDisabled := disabled\<rparr>) d)"

text \<open>Small helpers of the settings page; \<open>splitCSV\<close> is the function of the same name in \<open>Config\<close>.\<close>

definition joinCSV :: "string list \<Rightarrow> string" where
  "joinCSV ss = join '', '' ss"

definition ensurePort :: "string \<Rightarrow> string \<Rightarrow> string" where
  "ensurePort addr defaultPort =
     (let a = trim_space addr in if a = [] \<or> CHR '':'' \<in> set a then a else a @ '':'' @ defaultPort)"

definition hostnameDomain :: "string \<Rightarrow> string" where
  "hostnameDomain hostname =
     (let h = trim_space hostname in
      case index_char (CHR ''.'') h of
        Some i \<Rightarrow> if 0 < i \<and> i < length h - 1 then drop (Suc i) h else []
      | None \<Rightarrow> [])"

section \<open>Reading the files\<close>

text \<open>The first two words of a line that is neither blank nor a comment.\<close>

definition entry_of :: "string \<Rightarrow> (string \<times> string) option" where
  "entry_of raw =
     (let line = trim_space raw
      in if line = [] \<or> has_prefix ''#'' line then None
         else case go_fields line of k # v # ws \<Rightarrow> Some (k, v) | _ \<Rightarrow> None)"

definition file_entries :: "string \<Rightarrow> (string \<times> string) list" where
  "file_entries s = List.map_filter entry_of (split_char nl s)"

definition setting_of :: "string \<Rightarrow> (string \<times> string) option" where
  "setting_of raw =
     (let line = trim_space raw
      in if line = [] \<or> has_prefix ''#'' line then None
         else case index_char (CHR ''='') line of
                None \<Rightarrow> None
              | Some eq \<Rightarrow> Some (trim_space (take eq line), trim_space (drop (Suc eq) line)))"

text \<open>What \<open>postfix-main.cf\<close> says about accepting mail; \<open>None\<close> when it has no such directive.  The last one counts.\<close>

definition parseMain :: "string \<Rightarrow> bool option" where
  "parseMain s =
     foldl (\<lambda>decided (k, v). if k = ''smtpd_sender_restrictions''
                             then Some (contains_sub ''check_sender_access'' v \<and> contains_sub ''reject'' v) else decided)
       None (List.map_filter setting_of (split_char nl s))"

definition transport_entry ::
  "email_service \<times> bool \<times> bool \<Rightarrow> string \<times> string \<Rightarrow> email_service \<times> bool \<times> bool" where
  "transport_entry = (\<lambda>(c, catchAll, star) (key, dest).
     if has_prefix ''lmtp:'' dest then (c\<lparr>esAgentDomain := key\<rparr>, catchAll, star)
     else if key = ''*'' \<and> has_prefix ''error:'' dest then (c, True, star)
     else if key = ''*'' \<and> has_prefix ''smtp:'' dest then (c, catchAll, True)
     else if has_prefix ''smtp:'' dest then (c\<lparr>esDeliveryDomains := esDeliveryDomains c @ [key]\<rparr>, catchAll, star)
     else (c, catchAll, star))"

definition parseTransport :: "string \<Rightarrow> email_service \<Rightarrow> email_service" where
  "parseTransport s c =
     (case foldl transport_entry (c\<lparr>esLimitDelivery := False, esDeliveryDomains := []\<rparr>, False, False) (file_entries s) of
        (c1, catchAll, star) \<Rightarrow>
          let limit = catchAll \<and> \<not> star
          in c1\<lparr>esLimitDelivery := limit, esDeliveryDomains := (if limit then esDeliveryDomains c1 else [])\<rparr>)"

definition access_entry :: "email_service \<times> bool \<Rightarrow> string \<times> string \<Rightarrow> email_service \<times> bool" where
  "access_entry = (\<lambda>(c, dot) (key, val).
     if val \<noteq> ''OK'' then (c, dot)
     else if key = ''.'' then (c, True)
     else if esAgentDomain c = [] then (c\<lparr>esAgentDomain := key\<rparr>, dot)
     else if key = esAgentDomain c then (c, dot)
     else (c\<lparr>esAcceptDomains := esAcceptDomains c @ [key]\<rparr>, dot))"

definition parseSenderAccess :: "string \<Rightarrow> bool \<Rightarrow> email_service \<Rightarrow> email_service" where
  "parseSenderAccess s mainDecided c =
     (case foldl access_entry (c\<lparr>esAcceptDomains := []\<rparr>, False) (file_entries s) of
        (c1, dot) \<Rightarrow>
          let c2 = (if mainDecided then c1 else c1\<lparr>esLimitAccept := \<not> dot\<rparr>)
          in if esLimitAccept c2 then c2 else c2\<lparr>esAcceptDomains := []\<rparr>)"

definition loadEmailServiceConfig :: "conf_disk \<Rightarrow> email_service" where
  "loadEmailServiceConfig d =
     (let c1 = (case cdTransport d of Stored s \<Rightarrow> parseTransport s (no_service\<lparr>esEnabled := True\<rparr>) | _ \<Rightarrow> no_service);
          main = (case cdMainCf d of Stored s \<Rightarrow> parseMain s | _ \<Rightarrow> None);
          c2 = (case main of Some b \<Rightarrow> c1\<lparr>esLimitAccept := b\<rparr> | None \<Rightarrow> c1);
          c3 = (case cdSenderAccess d of
                  Stored s \<Rightarrow> parseSenderAccess s (main \<noteq> None) (c2\<lparr>esEnabled := True\<rparr>)
                | _ \<Rightarrow> c2)
      in if cdDisabled d then c3\<lparr>esEnabled := False\<rparr> else c3)"

section \<open>Writing the files\<close>

definition other_domains :: "email_service \<Rightarrow> string list \<Rightarrow> string list" where
  "other_domains c ds = filter (\<lambda>d. d \<noteq> [] \<and> \<not> equal_fold d (esAgentDomain c)) (map trim_space ds)"

definition generated_by :: string where
  "generated_by = ''# Generated by Agent Configurator. Edit via the dashboard or by hand.''"

definition renderTransport :: "email_service \<Rightarrow> string" where
  "renderTransport c =
     lines_text
       ([''# RESTRICT SENDING TO EXTERNAL DOMAINS'', generated_by, [], ''# Own domain - deliver locally'',
         esAgentDomain c @ ''    lmtp:unix:/var/run/dovecot/lmtp'', [], ''# Allowed external domains''] @
        (if esLimitDelivery c
         then map (\<lambda>d. d @ ''     smtp:'') (other_domains c (esDeliveryDomains c)) @
              [[], ''# Reject everything else'', ''*              error:5.7.1 Sending to this domain is not permitted'']
         else [''*'' @ [CHR 0x09] @ ''smtp:'']))"

definition renderSenderAccess :: "email_service \<Rightarrow> string" where
  "renderSenderAccess c =
     lines_text
       ([''# RESTRICT RECEIVING'', generated_by, [], ''# Agent domain - always allowed'', esAgentDomain c @ ''    OK'', []] @
        (if esLimitAccept c
         then ''# Allowed external sender domains'' # map (\<lambda>d. d @ ''          OK'') (other_domains c (esAcceptDomains c))
         else [''# Unrestricted mode: smtpd_sender_restrictions is disabled in'',
               ''# postfix-main.cf, so this list is not consulted for accept/reject.'']))"

definition backtick :: char where "backtick = CHR 0x60"

definition renderMainCf :: "bool \<Rightarrow> string" where
  "renderMainCf limitAccept =
     lines_text
       ([''# Postfix main.cf overrides'', generated_by,
         ''# docker-mailserver applies each '' @ [backtick] @ ''key = value'' @ [backtick] @ '' line via '' @ [backtick] @
           ''postconf -e'' @ [backtick] @ '' at startup.'', [],
         ''# Route mail through the transport map for selective delivery control.'',
         ''transport_maps = texthash:/tmp/docker-mailserver/postfix-transport.cf'', []] @
        (if limitAccept
         then [''# Restrict RECEIVING to senders listed in postfix-sender-access.cf.'',
               ''smtpd_sender_restrictions = check_sender_access '' @
                 ''texthash:/tmp/docker-mailserver/postfix-sender-access.cf, reject'']
         else [''# Accept mail from any sender (no whitelist/blacklist configured).'',
               ''smtpd_sender_restrictions = permit'']))"

definition disk_error :: "disk_fault \<Rightarrow> goerror" where
  "disk_error f = (case f of Permission \<Rightarrow> Err ''permission denied'' | Fault e \<Rightarrow> e)"

definition save_service :: "email_service \<Rightarrow> (conf_disk, unit) io" where
  "save_service c d =
     (if esAgentDomain c = [] then (Inl (Err ''agent email domain is required''), d)
      else case cdFault d dms_dir of
             Some e \<Rightarrow> (Inl (Wrap (''creating '' @ dms_dir @ '': '') (disk_error e) []), d)
           | None \<Rightarrow>
               io_bind (write_to transport_path (\<lambda>d. d\<lparr>cdTransport := Stored (renderTransport c)\<rparr>)) (\<lambda>_.
               io_bind (write_to access_path (\<lambda>d. d\<lparr>cdSenderAccess := Stored (renderSenderAccess c)\<rparr>)) (\<lambda>_.
                 write_to main_path (\<lambda>d. d\<lparr>cdMainCf := Stored (renderMainCf (esLimitAccept c))\<rparr>)))
                 (d\<lparr>cdDmsDir := True\<rparr>))"

section \<open>The settings come back\<close>

text \<open>A word that a table line can start with.\<close>

definition token :: "string \<Rightarrow> bool" where
  "token w \<longleftrightarrow> w \<noteq> [] \<and> list_all (\<lambda>c. \<not> is_space c) w \<and> hd w \<noteq> CHR ''#''"

lemma split_lines_text:
  "(\<And>l. l \<in> set ls \<Longrightarrow> nl \<notin> set l) \<Longrightarrow> split_char nl (lines_text ls) = ls @ [[]]"
proof (induction ls)
  case (Cons l ls)
  have "split_by (\<lambda>c. c = nl) (l @ nl # lines_text ls) = l # split_by (\<lambda>c. c = nl) (lines_text ls)"
    using Cons.prems by (intro split_by_append) auto
  with Cons show ?case by (simp add: lines_text_def split_char_def)
qed (simp add: lines_text_def split_char_def)

lemma map_filter_append: "List.map_filter f (xs @ ys) = List.map_filter f xs @ List.map_filter f ys"
  by (simp add: List.map_filter_def)

lemma map_filter_Some: "(\<And>x. x \<in> set xs \<Longrightarrow> f (g x) = Some (h x)) \<Longrightarrow> List.map_filter f (map g xs) = map h xs"
  by (induction xs) (simp_all add: List.map_filter_simps)

lemma token_no_space: "token w \<Longrightarrow> c \<in> set w \<Longrightarrow> \<not> is_space c"
  by (auto simp: token_def list_all_iff)

lemma go_fields_space: "is_space s \<Longrightarrow> go_fields (s # r) = go_fields r"
  by (simp add: go_fields_def)

lemma go_fields_word: "token w \<Longrightarrow> go_fields w = [w]"
  using split_by_id [of w is_space] by (auto simp: go_fields_def token_no_space token_def)

lemma go_fields_next: "token d \<Longrightarrow> is_space s \<Longrightarrow> go_fields (d @ s # r) = d # go_fields r"
  using split_by_append [of d is_space s r] by (auto simp: go_fields_def token_no_space token_def)

lemma space_char [simp]: "is_space (CHR '' '')"
  by code_simp

lemma entry_of_pair:
  assumes "token d" "w \<noteq> []" "\<not> is_space (last w)" "go_fields (CHR '' '' # sp @ w) = [v]"
  shows "entry_of (d @ CHR '' '' # sp @ w) = Some (d, v)"
proof -
  have "trim_space (d @ CHR '' '' # sp @ w) = d @ CHR '' '' # sp @ w"
    using assms(1-3) by (intro trim_by_id) (auto simp: token_def list_all_iff hd_append)
  moreover have "\<not> has_prefix ''#'' (d @ CHR '' '' # sp @ w)"
    using assms(1) by (cases d) (auto simp: token_def)
  ultimately show ?thesis
    using go_fields_next [OF assms(1) space_char, of "sp @ w"] assms(1,4)
    by (simp add: entry_of_def Let_def go_fields_space token_def)
qed

lemma entry_of_lines:
  assumes "token d"
  shows "entry_of (d @ ''    lmtp:unix:/var/run/dovecot/lmtp'') = Some (d, ''lmtp:unix:/var/run/dovecot/lmtp'')"
    "entry_of (d @ ''     smtp:'') = Some (d, ''smtp:'')"
    "entry_of (d @ ''    OK'') = Some (d, ''OK'')"
    "entry_of (d @ ''          OK'') = Some (d, ''OK'')"
  using entry_of_pair [OF assms, of "''lmtp:unix:/var/run/dovecot/lmtp''" "''   ''" "''lmtp:unix:/var/run/dovecot/lmtp''"]
    entry_of_pair [OF assms, of "''smtp:''" "''    ''" "''smtp:''"]
    entry_of_pair [OF assms, of "''OK''" "''   ''" "''OK''"]
    entry_of_pair [OF assms, of "''OK''" "''         ''" "''OK''"]
  by (simp_all add: go_fields_def)

lemma comment_lines:
  "entry_of ''# RESTRICT SENDING TO EXTERNAL DOMAINS'' = None" "entry_of generated_by = None" "entry_of [] = None"
  "entry_of ''# Own domain - deliver locally'' = None" "entry_of ''# Allowed external domains'' = None"
  "entry_of ''# Reject everything else'' = None" "entry_of ''# RESTRICT RECEIVING'' = None"
  "entry_of ''# Agent domain - always allowed'' = None" "entry_of ''# Allowed external sender domains'' = None"
  "entry_of ''# Unrestricted mode: smtpd_sender_restrictions is disabled in'' = None"
  "entry_of ''# postfix-main.cf, so this list is not consulted for accept/reject.'' = None"
  "entry_of ''*              error:5.7.1 Sending to this domain is not permitted'' = Some (''*'', ''error:5.7.1'')"
  "entry_of (''*'' @ [CHR 0x09] @ ''smtp:'') = Some (''*'', ''smtp:'')"
  by code_simp+

lemma transport_entries:
  assumes "token (esAgentDomain c)" "\<forall>d\<in>set (other_domains c (esDeliveryDomains c)). token d"
  shows "file_entries (renderTransport c) =
    (esAgentDomain c, ''lmtp:unix:/var/run/dovecot/lmtp'') #
    (if esLimitDelivery c then map (\<lambda>d. (d, ''smtp:'')) (other_domains c (esDeliveryDomains c)) @ [(''*'', ''error:5.7.1'')]
     else [(''*'', ''smtp:'')])"
proof -
  have nl: "nl \<notin> set d" if "token d" for d using token_no_space [OF that, of nl] by (auto simp: is_space_def)
  have "split_char nl (renderTransport c) =
      ([''# RESTRICT SENDING TO EXTERNAL DOMAINS'', generated_by, [], ''# Own domain - deliver locally'',
         esAgentDomain c @ ''    lmtp:unix:/var/run/dovecot/lmtp'', [], ''# Allowed external domains''] @
        (if esLimitDelivery c
         then map (\<lambda>d. d @ ''     smtp:'') (other_domains c (esDeliveryDomains c)) @
              [[], ''# Reject everything else'', ''*              error:5.7.1 Sending to this domain is not permitted'']
         else [''*'' @ [CHR 0x09] @ ''smtp:''])) @ [[]]"
    unfolding renderTransport_def
    by (rule split_lines_text) (use assms nl in \<open>auto simp: generated_by_def split: if_splits\<close>)
  then show ?thesis
    using assms map_filter_Some [of "other_domains c (esDeliveryDomains c)" entry_of "\<lambda>d. d @ ''     smtp:''" "\<lambda>d. (d, ''smtp:'')"]
    by (simp add: file_entries_def map_filter_append List.map_filter_simps comment_lines [simplified] entry_of_lines [simplified])
qed

lemma access_entries:
  assumes "token (esAgentDomain c)" "\<forall>d\<in>set (other_domains c (esAcceptDomains c)). token d"
  shows "file_entries (renderSenderAccess c) =
    (esAgentDomain c, ''OK'') # (if esLimitAccept c then map (\<lambda>d. (d, ''OK'')) (other_domains c (esAcceptDomains c)) else [])"
proof -
  have nl: "nl \<notin> set d" if "token d" for d using token_no_space [OF that, of nl] by (auto simp: is_space_def)
  have "split_char nl (renderSenderAccess c) =
      ([''# RESTRICT RECEIVING'', generated_by, [], ''# Agent domain - always allowed'', esAgentDomain c @ ''    OK'', []] @
        (if esLimitAccept c
         then ''# Allowed external sender domains'' # map (\<lambda>d. d @ ''          OK'') (other_domains c (esAcceptDomains c))
         else [''# Unrestricted mode: smtpd_sender_restrictions is disabled in'',
               ''# postfix-main.cf, so this list is not consulted for accept/reject.''])) @ [[]]"
    unfolding renderSenderAccess_def
    by (rule split_lines_text) (use assms nl in \<open>auto simp: generated_by_def split: if_splits\<close>)
  then show ?thesis
    using assms map_filter_Some [of "other_domains c (esAcceptDomains c)" entry_of "\<lambda>d. d @ ''          OK''" "\<lambda>d. (d, ''OK'')"]
    by (simp add: file_entries_def map_filter_append List.map_filter_simps comment_lines [simplified] entry_of_lines [simplified])
qed

lemma setting_of_comment: "setting_of (CHR ''#'' # w) = None"
proof -
  obtain v where "trim_space (CHR ''#'' # w) = CHR ''#'' # v"
    by (rule that [of "trim_right is_space w"])
      (simp add: trim_by_def trim_left_def trim_right_Cons is_space_def)
  then show ?thesis by (simp add: setting_of_def has_prefix_def)
qed

lemma main_cf_lines:
  "setting_of [] = None"
  "setting_of ''transport_maps = texthash:/tmp/docker-mailserver/postfix-transport.cf'' =
     Some (''transport_maps'', ''texthash:/tmp/docker-mailserver/postfix-transport.cf'')"
  "setting_of ''smtpd_sender_restrictions = permit'' = Some (''smtpd_sender_restrictions'', ''permit'')"
  "setting_of ''smtpd_sender_restrictions = check_sender_access texthash:/tmp/docker-mailserver/postfix-sender-access.cf, reject'' =
     Some (''smtpd_sender_restrictions'', ''check_sender_access texthash:/tmp/docker-mailserver/postfix-sender-access.cf, reject'')"
  by code_simp+

lemma restriction_value:
  "contains_sub ''check_sender_access'' ''check_sender_access texthash:/tmp/docker-mailserver/postfix-sender-access.cf, reject''"
  "contains_sub ''reject'' ''check_sender_access texthash:/tmp/docker-mailserver/postfix-sender-access.cf, reject''"
  "\<not> contains_sub ''check_sender_access'' ''permit''"
  by code_simp+

lemma main_cf_read_back: "parseMain (renderMainCf b) = Some b"
proof -
  have "split_char nl (renderMainCf b) =
      ([''# Postfix main.cf overrides'', generated_by,
         ''# docker-mailserver applies each '' @ [backtick] @ ''key = value'' @ [backtick] @ '' line via '' @ [backtick] @
           ''postconf -e'' @ [backtick] @ '' at startup.'', [],
         ''# Route mail through the transport map for selective delivery control.'',
         ''transport_maps = texthash:/tmp/docker-mailserver/postfix-transport.cf'', []] @
        (if b
         then [''# Restrict RECEIVING to senders listed in postfix-sender-access.cf.'',
               ''smtpd_sender_restrictions = check_sender_access '' @
                 ''texthash:/tmp/docker-mailserver/postfix-sender-access.cf, reject'']
         else [''# Accept mail from any sender (no whitelist/blacklist configured).'',
               ''smtpd_sender_restrictions = permit''])) @ [[]]"
    unfolding renderMainCf_def
    by (rule split_lines_text) (auto simp: generated_by_def backtick_def split: if_splits)
  then show ?thesis
    by (simp add: parseMain_def List.map_filter_simps generated_by_def setting_of_comment main_cf_lines restriction_value)
qed

lemma transport_steps:
  "transport_entry (c, p, q) (k, ''lmtp:unix:/var/run/dovecot/lmtp'') = (c\<lparr>esAgentDomain := k\<rparr>, p, q)"
  "transport_entry (c, p, q) (''*'', ''error:5.7.1'') = (c, True, q)"
  "transport_entry (c, p, q) (''*'', ''smtp:'') = (c, p, True)"
  "k \<noteq> ''*'' \<Longrightarrow> transport_entry (c, p, q) (k, ''smtp:'') = (c\<lparr>esDeliveryDomains := esDeliveryDomains c @ [k]\<rparr>, p, q)"
  by (simp_all add: transport_entry_def has_prefix_def)

lemma foldl_transport:
  "\<forall>d\<in>set ds. d \<noteq> ''*'' \<Longrightarrow>
   foldl transport_entry (c, p, q) (map (\<lambda>d. (d, ''smtp:'')) ds) = (c\<lparr>esDeliveryDomains := esDeliveryDomains c @ ds\<rparr>, p, q)"
  by (induction ds arbitrary: c) (simp_all add: transport_steps)

lemma foldl_access:
  "esAgentDomain c \<noteq> [] \<Longrightarrow> \<forall>d\<in>set ds. d \<noteq> ''.'' \<and> d \<noteq> esAgentDomain c \<Longrightarrow>
   foldl access_entry (c, p) (map (\<lambda>d. (d, ''OK'')) ds) = (c\<lparr>esAcceptDomains := esAcceptDomains c @ ds\<rparr>, p)"
  by (induction ds arbitrary: c) (simp_all add: access_entry_def)

lemma other_domains_not_own: "d \<in> set (other_domains c ds) \<Longrightarrow> d \<noteq> esAgentDomain c"
  by (auto simp: other_domains_def equal_fold_refl)

lemma transport_read_back:
  assumes "token (esAgentDomain c)" "\<forall>d\<in>set (other_domains c (esDeliveryDomains c)). token d \<and> d \<noteq> ''*''"
  shows "parseTransport (renderTransport c) b =
    b\<lparr>esAgentDomain := esAgentDomain c, esLimitDelivery := esLimitDelivery c,
      esDeliveryDomains := (if esLimitDelivery c then other_domains c (esDeliveryDomains c) else [])\<rparr>"
  using assms by (simp add: parseTransport_def transport_entries foldl_transport transport_steps Let_def)

lemma access_read_back:
  assumes "token (esAgentDomain c)" "\<forall>d\<in>set (other_domains c (esAcceptDomains c)). token d \<and> d \<noteq> ''.''"
    "esAgentDomain b = esAgentDomain c" "esLimitAccept b = esLimitAccept c"
  shows "parseSenderAccess (renderSenderAccess c) True b =
    b\<lparr>esAcceptDomains := (if esLimitAccept c then other_domains c (esAcceptDomains c) else [])\<rparr>"
proof -
  have "esAgentDomain c \<noteq> []" using assms(1) by (simp add: token_def)
  with assms other_domains_not_own [of _ c "esAcceptDomains c"]
  have "foldl access_entry (b\<lparr>esAcceptDomains := []\<rparr>, p) (map (\<lambda>d. (d, ''OK'')) (other_domains c (esAcceptDomains c))) =
      (b\<lparr>esAcceptDomains := other_domains c (esAcceptDomains c)\<rparr>, p)" for p
    by (subst foldl_access) auto
  with assms \<open>esAgentDomain c \<noteq> []\<close> show ?thesis
    by (simp add: parseSenderAccess_def access_entries access_entry_def)
qed

lemma save_service_disk:
  assumes "save_service c d = (Inr (), d')"
  shows "cdTransport d' = Stored (renderTransport c) \<and> cdSenderAccess d' = Stored (renderSenderAccess c) \<and>
    cdMainCf d' = Stored (renderMainCf (esLimitAccept c)) \<and> cdDisabled d' = cdDisabled d \<and> cdDmsDir d'"
  using assms by (auto simp: save_service_def write_to_def io_bind_def split: if_splits option.splits)

text \<open>Saving the mail server's settings and opening the page again shows the same settings: the agent domain, the two
  limits and, where a limit is on, the list of domains without blanks and without the agent domain itself; the service
  shows as used unless the operator has switched it off.\<close>

theorem service_settings_survive:
  assumes "save_service c d = (Inr (), d')" "token (esAgentDomain c)"
    "\<forall>x\<in>set (other_domains c (esDeliveryDomains c)). token x \<and> x \<noteq> ''*''"
    "\<forall>x\<in>set (other_domains c (esAcceptDomains c)). token x \<and> x \<noteq> ''.''"
  shows "loadEmailServiceConfig d' =
    \<lparr>esEnabled = (\<not> cdDisabled d), esAgentDomain = esAgentDomain c, esLimitDelivery = esLimitDelivery c,
     esDeliveryDomains = (if esLimitDelivery c then other_domains c (esDeliveryDomains c) else []),
     esLimitAccept = esLimitAccept c,
     esAcceptDomains = (if esLimitAccept c then other_domains c (esAcceptDomains c) else [])\<rparr>"
  using save_service_disk [OF assms(1)] assms(2-4)
  by (simp add: loadEmailServiceConfig_def Let_def transport_read_back main_cf_read_back access_read_back no_service_def)

definition sample_service :: email_service where
  "sample_service = \<lparr>esEnabled = True, esAgentDomain = ''kiku.org'', esLimitDelivery = True,
     esDeliveryDomains = ['' acme.com'', ''KIKU.org'', ''''], esLimitAccept = True, esAcceptDomains = [''a@b.net'']\<rparr>"

lemma service_settings_survive_witness:
  "loadEmailServiceConfig (snd (save_service sample_service conf_sample)) =
     sample_service\<lparr>esDeliveryDomains := [''acme.com'']\<rparr>"
proof -
  let ?d = "snd (save_service sample_service conf_sample)"
  have "fst (save_service sample_service conf_sample) = Inr ()"
    by (simp add: save_service_def sample_service_def conf_sample_def write_to_def io_bind_def)
  then have s: "save_service sample_service conf_sample = (Inr (), ?d)" by (metis prod.collapse)
  have o: "other_domains sample_service (esDeliveryDomains sample_service) = [''acme.com'']"
    "other_domains sample_service (esAcceptDomains sample_service) = [''a@b.net'']" by code_simp+
  have t: "token (esAgentDomain sample_service)" by code_simp
  have w: "\<forall>x\<in>set (other_domains sample_service (esDeliveryDomains sample_service)). token x \<and> x \<noteq> ''*''"
    "\<forall>x\<in>set (other_domains sample_service (esAcceptDomains sample_service)). token x \<and> x \<noteq> ''.''"
    unfolding o by code_simp+
  show ?thesis
    using service_settings_survive [OF s t w] o by (simp add: sample_service_def conf_sample_def)
qed

end
