(* ===== verification/Dms_Accounts.thy ===== *)
theory Dms_Accounts
  imports Postfix "HOL-Library.Word" "HOL-Library.AList"
begin

text \<open>
  The mailbox file of the bundled mail server (\<open>scripts/configurator/dms_accounts.go\<close>): the crypt(3) hash of a password
  over SHA-512, checking a stored hash, and writing \<open>postfix-accounts.cf\<close> from the roster and the stored passwords.
  \<open>sha\<close> stands for \<open>crypto/sha512\<close>; what is proved holds for every digest function.  \<open>rnd n\<close> is the result of the
  \<open>n\<close>-th read of 16 bytes from \<open>crypto/rand\<close>.
\<close>

section \<open>The hash\<close>

definition cryptAlphabet :: string where
  "cryptAlphabet = ''./0123456789ABCDEFGHIJKLMNOPQRSTUVWXYZabcdefghijklmnopqrstuvwxyz''"

definition cryptScheme :: string where "cryptScheme = ''{SHA512-CRYPT}''"

definition crypt_char :: "64 word \<Rightarrow> char" where
  "crypt_char w = cryptAlphabet ! unat (and w 0x3f)"

definition newCryptSalt :: "char list result \<Rightarrow> string result" where
  "newCryptSalt r = (case r of Inl e \<Rightarrow> Inl e | Inr b \<Rightarrow> Inr (map (\<lambda>c. crypt_char (of_char c)) b))"

text \<open>Bytes of a digest repeated and cut to a length, and the digest or the password for each bit of the length.\<close>

function fill :: "string \<Rightarrow> nat \<Rightarrow> string" where
  "fill b n = (if n = 0 then [] else if n \<ge> 64 then b @ fill b (n - 64) else take n b)"
  by pat_completeness auto
termination by (relation "measure snd") auto

declare fill.simps [simp del]

function by_bits :: "string \<Rightarrow> string \<Rightarrow> nat \<Rightarrow> string" where
  "by_bits b pw i = (if i = 0 then [] else (if odd i then b else pw) @ by_bits b pw (i div 2))"
  by pat_completeness auto
termination by (relation "measure (\<lambda>(b, pw, i). i)") auto

declare by_bits.simps [simp del]

definition mix_round :: "(string \<Rightarrow> string) \<Rightarrow> string \<Rightarrow> string \<Rightarrow> string \<Rightarrow> nat \<Rightarrow> string" where
  "mix_round sha p s c i =
     sha ((if odd i then p else c) @ (if i mod 3 \<noteq> 0 then s else []) @ (if i mod 7 \<noteq> 0 then p else []) @
          (if odd i then c else p))"

definition sha512CryptPerm :: "(nat \<times> nat \<times> nat) list" where
  "sha512CryptPerm =
     [(0, 21, 42), (22, 43, 1), (44, 2, 23), (3, 24, 45), (25, 46, 4),
      (47, 5, 26), (6, 27, 48), (28, 49, 7), (50, 8, 29), (9, 30, 51),
      (31, 52, 10), (53, 11, 32), (12, 33, 54), (34, 55, 13), (56, 14, 35),
      (15, 36, 57), (37, 58, 16), (59, 17, 38), (18, 39, 60), (40, 61, 19),
      (62, 20, 41)]"

primrec emit :: "nat \<Rightarrow> 64 word \<Rightarrow> string" where
  "emit 0 w = []"
| "emit (Suc n) w = crypt_char w # emit n (drop_bit 6 w)"

definition pack :: "char \<Rightarrow> char \<Rightarrow> char \<Rightarrow> 64 word" where
  "pack b2 b1 b0 = or (or (push_bit 16 (of_char b2)) (push_bit 8 (of_char b1))) (of_char b0)"

definition encodeCrypt :: "string \<Rightarrow> string" where
  "encodeCrypt c =
     concat (map (\<lambda>(i, j, k). emit 4 (pack (c ! i) (c ! j) (c ! k))) sha512CryptPerm) @
     emit 2 (pack (CHR 0x00) (CHR 0x00) (c ! 63))"

definition sha512CryptRounds :: "(string \<Rightarrow> string) \<Rightarrow> string \<Rightarrow> string \<Rightarrow> int \<Rightarrow> bool \<Rightarrow> string" where
  "sha512CryptRounds sha pw salt0 rounds0 explicit =
     (let rounds = min 999999999 (max 1000 rounds0);
          st = take 16 salt0;
          b = sha (pw @ st @ pw);
          a = sha (pw @ st @ fill b (length pw) @ by_bits b pw (length pw));
          p = fill (sha (concat (replicate (length pw) pw))) (length pw);
          s = fill (sha (concat (replicate (16 + of_char (a ! 0)) st))) (length st);
          c = foldl (mix_round sha p s) a [0..<nat rounds]
      in cryptScheme @ ''$6$'' @ (if explicit then ''rounds='' @ show_int rounds @ ''$'' else []) @ st @ ''$'' @ encodeCrypt c)"

definition sha512Crypt :: "(string \<Rightarrow> string) \<Rightarrow> string \<Rightarrow> string \<Rightarrow> string" where
  "sha512Crypt sha password salt = sha512CryptRounds sha password salt 5000 False"

definition verifySha512Crypt :: "(string \<Rightarrow> string) \<Rightarrow> string \<Rightarrow> string \<Rightarrow> bool" where
  "verifySha512Crypt sha password hashLine =
     (let norm = trim_prefix cryptScheme hashLine;
          body = drop 3 norm;
          same = (\<lambda>rounds explicit body.
                    case index_char (CHR ''$'') body of
                      None \<Rightarrow> False
                    | Some sep \<Rightarrow> sha512CryptRounds sha password (take sep body) rounds explicit = cryptScheme @ norm)
      in if \<not> has_prefix ''$6$'' norm then False
         else if has_prefix ''rounds='' body then
           (case index_char (CHR ''$'') body of
              None \<Rightarrow> False
            | Some e \<Rightarrow>
                (case Atoi (take (e - 7) (drop 7 body)) of
                   None \<Rightarrow> False
                 | Some n \<Rightarrow> if n < 1 then False else same n True (drop (Suc e) body)))
         else same 5000 False body)"

section \<open>The mailbox file\<close>

definition accounts_path :: string where "accounts_path = ''services/dms/config/postfix-accounts.cf''"

definition account_line :: "string \<Rightarrow> (string \<times> string) option" where
  "account_line raw =
     (let line = trim_space raw
      in if line = [] \<or> has_prefix ''#'' line then None
         else case index_char (CHR ''|'') line of
                None \<Rightarrow> None
              | Some i \<Rightarrow>
                  let email = trim_space (take i line); hash = trim_space (drop (Suc i) line)
                  in if email \<noteq> [] \<and> hash \<noteq> [] then Some (to_lower email, hash) else None)"

text \<open>The map of the file, as the list of its entries with the last value of each address.\<close>

definition parseDmsAccounts :: "string fsfile \<Rightarrow> (string \<times> string) list" where
  "parseDmsAccounts f =
     (case f of
        Stored s \<Rightarrow> foldl (\<lambda>m (k, h). AList.update k h m) [] (List.map_filter account_line (split_char nl s))
      | _ \<Rightarrow> [])"

text \<open>The entries of the roster: a stored hash is kept while it fits the password, the \<open>n\<close>-th new salt comes from \<open>rnd n\<close>.\<close>

fun roster_accounts ::
  "(string \<Rightarrow> string) \<Rightarrow> (nat \<Rightarrow> char list result) \<Rightarrow> (string \<Rightarrow> string) \<Rightarrow> (string \<Rightarrow> string option) \<Rightarrow> nat \<Rightarrow>
   agent_def list \<Rightarrow> (string \<times> string) list result" where
  "roster_accounts sha rnd password existing n [] = Inr []"
| "roster_accounts sha rnd password existing n (a # as) =
     (let email = trim_space (adEmail a); pw = password email
      in if email = [] \<or> pw = [] then roster_accounts sha rnd password existing n as
         else
           let old = (case existing (to_lower email) of
                        Some h \<Rightarrow> if verifySha512Crypt sha pw h then Some h else None
                      | None \<Rightarrow> None)
           in case old of
                Some h \<Rightarrow> and_then (roster_accounts sha rnd password existing n as) (\<lambda>rs. Inr ((email, h) # rs))
              | None \<Rightarrow>
                  and_then (wrap_err ''generating salt: '' (newCryptSalt (rnd n))) (\<lambda>salt.
                  and_then (roster_accounts sha rnd password existing (Suc n) as) (\<lambda>rs.
                    Inr ((email, sha512Crypt sha pw salt) # rs))))"

definition account_order :: "string \<times> string \<Rightarrow> string" where
  "account_order a = to_lower (fst a)"

definition all_accounts :: "(string \<times> string) list \<Rightarrow> (string \<times> string) list \<Rightarrow> (string \<times> string) list" where
  "all_accounts accts existing =
     sort_key account_order (accts @ filter (\<lambda>(k, h). k \<notin> account_order ` set accts) existing)"

definition accounts_text :: "(string \<times> string) list \<Rightarrow> string" where
  "accounts_text accts = lines_text (map (\<lambda>(email, hash). email @ ''|'' @ hash) accts)"

definition regenerateDmsAccounts ::
  "yaml \<Rightarrow> (string \<Rightarrow> string) \<Rightarrow> (nat \<Rightarrow> char list result) \<Rightarrow> (conf_disk, unit) io" where
  "regenerateDmsAccounts ya sha rnd d =
     (if \<not> cdDmsDir d \<or> \<not> esEnabled (loadEmailServiceConfig d) then (ok, d)
      else case loadRoster ya d of
             Inl e \<Rightarrow> (Inl e, d)
           | Inr r \<Rightarrow>
               let existing = parseDmsAccounts (cdAccounts d)
               in case roster_accounts sha rnd (getAgentPassword d) (map_of existing) 0 (acAgents r) of
                    Inl e \<Rightarrow> (Inl e, d)
                  | Inr accts \<Rightarrow>
                      io_bind (write_to dms_dir (\<lambda>d. d))
                        (\<lambda>_. write_to accounts_path
                           (\<lambda>d. d\<lparr>cdAccounts := Stored (accounts_text (all_accounts accts existing))\<rparr>)) d)"

section \<open>A hash fits its password\<close>

lemma crypt_char_in: "crypt_char w \<in> set cryptAlphabet"
proof -
  have "and w (0x3f :: 64 word) \<le> 0x3f" by (rule word_and_le1)
  then have "unat (and w 0x3f) < length cryptAlphabet"
    by (simp add: word_le_nat_alt cryptAlphabet_def)
  then show ?thesis by (simp add: crypt_char_def)
qed

lemma set_emit: "set (emit n w) \<subseteq> set cryptAlphabet"
  by (induction n arbitrary: w) (simp_all add: crypt_char_in)

lemma length_emit [simp]: "length (emit n w) = n"
  by (induction n arbitrary: w) simp_all

lemma set_encodeCrypt: "set (encodeCrypt c) \<subseteq> set cryptAlphabet"
  using set_emit by (fastforce simp: encodeCrypt_def)

lemma length_encodeCrypt: "length (encodeCrypt c) = 86"
  by (simp add: encodeCrypt_def sha512CryptPerm_def)

lemma alphabet_no_mark: "CHR ''$'' \<notin> set cryptAlphabet" "CHR ''='' \<notin> set cryptAlphabet" "\<forall>c\<in>set cryptAlphabet. \<not> is_space c"
  by code_simp+

lemma sha512CryptRounds_text:
  "\<exists>c. sha512CryptRounds sha pw salt n x =
     cryptScheme @ ''$6$'' @ (if x then ''rounds='' @ show_int (min 999999999 (max 1000 n)) @ ''$'' else []) @
     take 16 salt @ ''$'' @ encodeCrypt c"
  unfolding sha512CryptRounds_def Let_def by (rule exI, rule refl)

lemma sha512CryptRounds_take: "sha512CryptRounds sha pw (take 16 salt) n x = sha512CryptRounds sha pw salt n x"
  by (simp add: sha512CryptRounds_def)

lemma has_prefix_set: "has_prefix p s \<Longrightarrow> set p \<subseteq> set s"
  unfolding has_prefix_def by (metis set_take_subset)

lemma verify_own_hash:
  assumes "CHR ''$'' \<notin> set salt" "CHR ''='' \<notin> set salt"
  shows "verifySha512Crypt sha pw (sha512Crypt sha pw salt)"
proof -
  let ?st = "take 16 salt"
  obtain c where t: "sha512CryptRounds sha pw salt 5000 False = cryptScheme @ ''$6$'' @ ?st @ CHR ''$'' # encodeCrypt c"
    using sha512CryptRounds_text [of sha pw salt 5000 False] by auto
  let ?body = "?st @ CHR ''$'' # encodeCrypt c"
  have "CHR ''='' \<notin> set ?body"
    using assms(2) set_encodeCrypt [of c] alphabet_no_mark(2) by (auto dest: in_set_takeD)
  then have r: "\<not> has_prefix ''rounds='' ?body" using has_prefix_set [of "''rounds=''" ?body] by auto
  have i: "index_char (CHR ''$'') ?body = Some (length ?st)"
    using assms(1) by (intro index_char_append) (auto dest: in_set_takeD)
  have m: "take (min (length salt) 16) salt = ?st" by (simp add: min_def)
  have n: "trim_prefix cryptScheme (sha512Crypt sha pw salt) = ''$6$'' @ ?body"
    by (simp add: sha512Crypt_def t)
  show ?thesis
    using r i m by (simp add: verifySha512Crypt_def n Let_def sha512CryptRounds_take t del: append_take_drop_id)
qed

lemma new_hash_checks:
  "case newCryptSalt r of
     Inr salt \<Rightarrow> verifySha512Crypt sha pw (sha512Crypt sha pw salt) \<and>
       list_all (\<lambda>c. \<not> is_space c) (sha512Crypt sha pw salt)
   | Inl e \<Rightarrow> r = Inl e"
proof (cases r)
  case (Inr b)
  let ?salt = "map (\<lambda>c. crypt_char (of_char c)) b"
  have salt: "set ?salt \<subseteq> set cryptAlphabet" using crypt_char_in by auto
  then have v: "verifySha512Crypt sha pw (sha512Crypt sha pw ?salt)"
    using alphabet_no_mark by (intro verify_own_hash) blast+
  obtain c where t: "sha512CryptRounds sha pw ?salt 5000 False = cryptScheme @ ''$6$'' @ take 16 ?salt @ CHR ''$'' # encodeCrypt c"
    using sha512CryptRounds_text [of sha pw ?salt 5000 False] by auto
  have "list_all (\<lambda>c. \<not> is_space c) (cryptScheme @ ''$6$'')" by code_simp
  moreover have "\<forall>c\<in>set (take 16 ?salt) \<union> set (encodeCrypt c). \<not> is_space c"
    using salt set_encodeCrypt [of c] alphabet_no_mark(3) by (auto simp del: set_map dest!: in_set_takeD)
  ultimately show ?thesis
    using v Inr by (auto simp: newCryptSalt_def sha512Crypt_def t list_all_iff is_space_def)
qed (simp add: newCryptSalt_def)

text \<open>A new mailbox hash fits its password: for every password and every result of the random source the hash written
  for a fresh salt is accepted by the check that later decides whether to keep it, and it is text of one line without
  blanks when the password's salt is new.\<close>

theorem new_hash_fits:
  "case newCryptSalt r of
     Inr salt \<Rightarrow> verifySha512Crypt sha pw (sha512Crypt sha pw salt) \<and>
       list_all (\<lambda>c. \<not> is_space c) (sha512Crypt sha pw salt)
   | Inl e \<Rightarrow> r = Inl e"
  by (rule new_hash_checks)

section \<open>The file is read as it is written\<close>

definition plain_account :: "string \<times> string \<Rightarrow> bool" where
  "plain_account = (\<lambda>(email, hash).
     email \<noteq> [] \<and> trim_space email = email \<and> hd email \<noteq> CHR ''#'' \<and> CHR ''|'' \<notin> set email \<and> nl \<notin> set email \<and>
     hash \<noteq> [] \<and> trim_space hash = hash \<and> nl \<notin> set hash)"

lemma account_line_plain:
  assumes "plain_account (e, h)"
  shows "account_line (e @ CHR ''|'' # h) = Some (to_lower e, h)"
proof -
  have e: "e \<noteq> []" "trim_space e = e" "hd e \<noteq> CHR ''#''" "CHR ''|'' \<notin> set e" and h: "h \<noteq> []" "trim_space h = h"
    using assms by (auto simp: plain_account_def)
  from e h have "\<not> is_space (hd e)" "\<not> is_space (last h)"
    using hd_trim_by [of is_space e] last_trim_by [of is_space h] by auto
  with e(1) h(1) have "trim_space (e @ CHR ''|'' # h) = e @ CHR ''|'' # h" by (intro trim_by_id) auto
  moreover have "\<not> has_prefix ''#'' (e @ CHR ''|'' # h)" using e(1,3) by (cases e) (auto simp: has_prefix_def)
  ultimately show ?thesis using e h by (simp add: account_line_def index_char_append)
qed

lemma trim_by_hd: "s \<noteq> [] \<Longrightarrow> \<not> P (hd s) \<Longrightarrow> trim_by P s \<noteq> [] \<and> hd (trim_by P s) = hd s"
  by (cases s) (auto simp: trim_by_def trim_left_def trim_right_Cons)

lemma lower_char_marks:
  "lower_char c = CHR ''#'' \<longleftrightarrow> c = CHR ''#''" "lower_char c = CHR ''|'' \<longleftrightarrow> c = CHR ''|''"
  "lower_char c = nl \<longleftrightarrow> c = nl" "lower_char c = CHR ''@'' \<longleftrightarrow> c = CHR ''@''"
  by (rule lower_char_fixed; simp add: is_upper_def is_lower_def)+

lemmas lower_char_marks_sym = lower_char_marks [unfolded eq_commute [of "lower_char c" for c]]

lemma plain_account_of_line:
  assumes "account_line raw = Some (k, h)" "nl \<notin> set raw"
  shows "plain_account (k, h) \<and> to_lower k = k"
proof -
  let ?line = "trim_space raw"
  obtain i where l: "?line \<noteq> []" "\<not> has_prefix ''#'' ?line" "index_char (CHR ''|'') ?line = Some i"
    and k: "k = to_lower (trim_space (take i ?line))" "trim_space (take i ?line) \<noteq> []"
    and h: "h = trim_space (drop (Suc i) ?line)" "h \<noteq> []"
    using assms(1) by (auto simp: account_line_def Let_def split: if_splits option.splits)
  have nl: "nl \<notin> set ?line" using assms(2) set_trim_by [of is_space raw] by auto
  let ?e = "take i ?line"
  have i: "i < length ?line" "CHR ''|'' \<notin> set ?e" using index_char_Some [OF l(3)] by auto
  have "?e \<noteq> []" using k(2) by (metis trim_by_Nil)
  moreover then have "hd ?e = hd ?line" by (cases i; cases ?line) auto
  moreover have "\<not> is_space (hd ?line)" using hd_trim_by [of is_space raw] l(1) by simp
  ultimately have "hd (trim_space ?e) = hd ?line" using trim_by_hd [of ?e is_space] by auto
  moreover have "hd ?line \<noteq> CHR ''#''" using l(1,2) by (cases ?line) (auto simp: has_prefix_def)
  ultimately have "hd k \<noteq> CHR ''#''"
    using k(2) by (auto simp: k(1) to_lower_def hd_map lower_char_marks)
  moreover have "CHR ''|'' \<notin> set k \<and> nl \<notin> set k"
    using i(2) nl set_trim_by [of is_space ?e] set_take_subset [of i ?line] by (auto simp: k(1) to_lower_def lower_char_marks_sym)
  moreover have "nl \<notin> set h"
    using nl set_trim_by [of is_space "drop (Suc i) ?line"] set_drop_subset [of "Suc i" ?line] by (auto simp: h(1))
  moreover have "trim_space k = k" by (simp add: k(1) flip: to_lower_trim_space)
  moreover have "trim_space h = h" "k \<noteq> []" using k(2) by (simp_all add: h(1) k(1) to_lower_def)
  ultimately show ?thesis using h(2) by (simp add: plain_account_def k(1))
qed

lemma map_of_updates: "map_of (foldl (\<lambda>m (k, h). AList.update k h m) m0 xs) = map_of m0 ++ map_of (rev xs)"
  by (induction xs arbitrary: m0) (auto simp: update_conv' map_add_def fun_eq_iff split: option.splits)

lemma distinct_updates: "distinct (map fst m0) \<Longrightarrow> distinct (map fst (foldl (\<lambda>m (k, h). AList.update k h m) m0 xs))"
  by (induction xs arbitrary: m0) (auto simp: distinct_update)

lemma accounts_read_back:
  assumes "\<forall>a\<in>set accts. plain_account a"
  shows "map_of (parseDmsAccounts (Stored (accounts_text accts))) = map_of (rev (map (\<lambda>(e, h). (to_lower e, h)) accts))"
proof -
  have "split_char nl (accounts_text accts) = map (\<lambda>(e, h). e @ CHR ''|'' # h) accts @ [[]]"
    unfolding accounts_text_def using assms by (subst split_lines_text) (auto simp: plain_account_def)
  moreover have "List.map_filter account_line (map (\<lambda>(e, h). e @ CHR ''|'' # h) accts) = map (\<lambda>(e, h). (to_lower e, h)) accts"
    using assms by (intro map_filter_Some) (auto simp: account_line_plain)
  moreover have "account_line [] = None" by (simp add: account_line_def)
  ultimately show ?thesis
    by (simp add: parseDmsAccounts_def map_of_updates map_filter_append List.map_filter_simps)
qed

lemma parsed_accounts_plain:
  assumes "map_of (parseDmsAccounts f) k = Some h"
  shows "plain_account (k, h) \<and> to_lower k = k"
proof (cases f)
  case (Stored s)
  with assms have "map_of (rev (List.map_filter account_line (split_char nl s))) k = Some h"
    by (simp add: parseDmsAccounts_def map_of_updates)
  then have "(k, h) \<in> set (List.map_filter account_line (split_char nl s))" using map_of_SomeD by fastforce
  then obtain raw where "raw \<in> set (split_char nl s)" "account_line raw = Some (k, h)"
    by (auto simp: List.map_filter_def)
  then show ?thesis by (intro plain_account_of_line) (auto dest: split_char_no_sep)
qed (use assms in \<open>simp_all add: parseDmsAccounts_def\<close>)

lemma distinct_parsed: "distinct (map fst (parseDmsAccounts f))"
  by (cases f) (simp_all add: parseDmsAccounts_def distinct_updates)

section \<open>Every agent can log in\<close>

lemma emailStem_lower: "emailStem (to_lower e) = emailStem e"
proof -
  have i: "index_char (CHR ''@'') (to_lower s) = index_char (CHR ''@'') s" for s
    by (induction s) (auto simp: lower_char_marks)
  have t: "to_lower (take n (to_lower s)) = to_lower (take n s)" for n s
    by (simp add: to_lower_def take_map comp_def)
  show ?thesis by (simp add: emailStem_def flip: to_lower_trim_space) (simp add: i t Let_def split: option.split)
qed

lemma getAgentPassword_lower: "to_lower e = to_lower e' \<Longrightarrow> getAgentPassword d e = getAgentPassword d e'"
proof -
  assume e: "to_lower e = to_lower e'"
  then have "emailStem e = emailStem e'" by (metis emailStem_lower)
  moreover have "trim_space e = [] \<longleftrightarrow> trim_space e' = []"
    using arg_cong [OF e, of trim_space] by (simp flip: to_lower_trim_space) (auto simp: to_lower_def)
  ultimately show ?thesis by (simp add: getAgentPassword_def emailPasswordKey_def)
qed

definition has_mailbox :: "conf_disk \<Rightarrow> agent_def \<Rightarrow> bool" where
  "has_mailbox d a \<longleftrightarrow> trim_space (adEmail a) \<noteq> [] \<and> getAgentPassword d (trim_space (adEmail a)) \<noteq> []"

definition plain_address :: "string \<Rightarrow> bool" where
  "plain_address e \<longleftrightarrow> hd (trim_space e) \<noteq> CHR ''#'' \<and> CHR ''|'' \<notin> set e \<and> nl \<notin> set e"

lemma no_space_trim: "list_all (\<lambda>c. \<not> is_space c) s \<Longrightarrow> trim_space s = s \<and> nl \<notin> set s"
proof (intro conjI)
  assume "list_all (\<lambda>c. \<not> is_space c) s"
  then show "trim_space s = s" by (intro trim_by_none) (simp add: list_all_iff)
  have "is_space nl" by code_simp
  with \<open>list_all (\<lambda>c. \<not> is_space c) s\<close> show "nl \<notin> set s" by (auto simp: list_all_iff)
qed

lemma roster_accounts_spec:
  assumes "roster_accounts sha rnd (getAgentPassword d) (map_of (parseDmsAccounts f)) n as = Inr accts"
    "\<forall>a\<in>set as. plain_address (adEmail a)"
  shows "fst ` set accts = (\<lambda>a. trim_space (adEmail a)) ` {a \<in> set as. has_mailbox d a} \<and>
    (\<forall>(e, h)\<in>set accts. plain_account (e, h) \<and> verifySha512Crypt sha (getAgentPassword d e) h)"
  using assms
proof (induction as arbitrary: n accts)
  case (Cons a as)
  let ?e = "trim_space (adEmail a)"
  let ?pw = "getAgentPassword d ?e"
  show ?case
  proof (cases "has_mailbox d a")
    case False
    with Cons.prems(1) have "roster_accounts sha rnd (getAgentPassword d) (map_of (parseDmsAccounts f)) n as = Inr accts"
      by (auto simp: has_mailbox_def)
    with Cons.IH Cons.prems(2) have "fst ` set accts = (\<lambda>a. trim_space (adEmail a)) ` {a \<in> set as. has_mailbox d a} \<and>
      (\<forall>(e, h)\<in>set accts. plain_account (e, h) \<and> verifySha512Crypt sha (getAgentPassword d e) h)" by simp
    moreover have "{x \<in> set (a # as). has_mailbox d x} = {x \<in> set as. has_mailbox d x}" using False by auto
    ultimately show ?thesis by simp
  next
    case True
    then obtain h m rs where rs: "accts = (?e, h) # rs"
        "roster_accounts sha rnd (getAgentPassword d) (map_of (parseDmsAccounts f)) m as = Inr rs"
      and h: "verifySha512Crypt sha ?pw h" "h \<noteq> [] \<and> trim_space h = h \<and> nl \<notin> set h"
    proof (cases "\<exists>h. map_of (parseDmsAccounts f) (to_lower ?e) = Some h \<and> verifySha512Crypt sha ?pw h")
      case True
      then obtain h where e: "map_of (parseDmsAccounts f) (to_lower ?e) = Some h" "verifySha512Crypt sha ?pw h" by blast
      with Cons.prems(1) \<open>has_mailbox d a\<close> obtain rs where "accts = (?e, h) # rs"
        "roster_accounts sha rnd (getAgentPassword d) (map_of (parseDmsAccounts f)) n as = Inr rs"
        by (auto simp: has_mailbox_def result_iff)
      moreover have "h \<noteq> [] \<and> trim_space h = h \<and> nl \<notin> set h"
        using parsed_accounts_plain [OF e(1)] by (auto simp: plain_account_def)
      ultimately show thesis using that e(2) by blast
    next
      case False
      with Cons.prems(1) \<open>has_mailbox d a\<close> obtain salt rs where r: "newCryptSalt (rnd n) = Inr salt"
        "accts = (?e, sha512Crypt sha ?pw salt) # rs"
        "roster_accounts sha rnd (getAgentPassword d) (map_of (parseDmsAccounts f)) (Suc n) as = Inr rs"
        by (auto simp: has_mailbox_def result_iff Let_def split: option.splits if_splits)
      moreover from r(1) have "verifySha512Crypt sha ?pw (sha512Crypt sha ?pw salt)"
        "list_all (\<lambda>c. \<not> is_space c) (sha512Crypt sha ?pw salt)"
        using new_hash_checks [of "rnd n" sha ?pw] by simp_all
      moreover have "sha512Crypt sha ?pw salt \<noteq> []" by (simp add: sha512Crypt_def sha512CryptRounds_def Let_def)
      ultimately show thesis using that no_space_trim by blast
    qed
    have "plain_account (?e, h)"
      using True h(2) Cons.prems(2) set_trim_by [of is_space "adEmail a"]
      by (auto simp: plain_account_def plain_address_def has_mailbox_def)
    moreover have "{x \<in> set (a # as). has_mailbox d x} = insert a {x \<in> set as. has_mailbox d x}" using True by auto
    ultimately show ?thesis using Cons.IH [OF rs(2)] Cons.prems(2) h(1) by (simp add: rs(1))
  qed
qed simp

lemma all_accounts_set: "set (all_accounts accts old) = set accts \<union> {a \<in> set old. fst a \<notin> account_order ` set accts}"
  by (auto simp: all_accounts_def)

lemma map_of_rev_SomeD: "map_of (rev xs) k = Some v \<Longrightarrow> (k, v) \<in> set xs"
  using map_of_SomeD by fastforce

lemma map_of_rev_mem: "(k, v) \<in> set xs \<Longrightarrow> \<exists>w. map_of (rev xs) k = Some w"
  by (metis map_of_eq_None_iff not_None_eq fst_conv imageI list.set_map set_rev)

text \<open>Looking up an address in the rewritten file.\<close>

lemma rewritten_accounts:
  fixes f :: "string fsfile"
  assumes "\<forall>x\<in>set accts. plain_account x"
  defines "new \<equiv> map_of (parseDmsAccounts (Stored (accounts_text (all_accounts accts (parseDmsAccounts f)))))"
  shows "(e, h) \<in> set accts \<Longrightarrow> \<exists>w. new (to_lower e) = Some w"
    and "new k = Some h \<Longrightarrow>
      (\<exists>e. to_lower e = k \<and> (e, h) \<in> set accts) \<or> k \<notin> account_order ` set accts \<and> map_of (parseDmsAccounts f) k = Some h"
    and "k \<notin> account_order ` set accts \<Longrightarrow> new k = map_of (parseDmsAccounts f) k"
proof -
  let ?old = "parseDmsAccounts f" let ?X = "all_accounts accts ?old"
  have old: "map_of ?old k = Some h" if "(k, h) \<in> set ?old" for k h using that distinct_parsed by (simp add: map_of_is_SomeI)
  have "\<forall>x\<in>set ?X. plain_account x" using assms(1) parsed_accounts_plain [OF old] by (auto simp: all_accounts_set)
  then have eq: "new = map_of (rev (map (\<lambda>(e, h). (to_lower e, h)) ?X))" unfolding new_def by (rule accounts_read_back)
  have put: "\<exists>w. new (to_lower e) = Some w" if "(e, h) \<in> set ?X" for e h
    unfolding eq using that by (intro map_of_rev_mem) (auto intro!: image_eqI [of _ _ "(e, h)"])
  have get: "(\<exists>e. to_lower e = k \<and> (e, h) \<in> set accts) \<or> k \<notin> account_order ` set accts \<and> map_of ?old k = Some h"
    if "new k = Some h" for k h
    using map_of_rev_SomeD [OF that [unfolded eq]] old parsed_accounts_plain [OF old]
    by (auto simp: all_accounts_set account_order_def image_iff)
  show "(e, h) \<in> set accts \<Longrightarrow> \<exists>w. new (to_lower e) = Some w" using put [of e h] by (simp add: all_accounts_set)
  show "new k = Some h \<Longrightarrow>
      (\<exists>e. to_lower e = k \<and> (e, h) \<in> set accts) \<or> k \<notin> account_order ` set accts \<and> map_of ?old k = Some h" by (rule get)
  show "new k = map_of ?old k" if k: "k \<notin> account_order ` set accts"
  proof (cases "map_of ?old k")
    case None
    with get [of k] k show ?thesis by (cases "new k") (auto simp: account_order_def image_iff)
  next
    case (Some h)
    then have "(k, h) \<in> set ?X" using k by (auto simp: all_accounts_set dest: map_of_SomeD)
    then obtain w where "new k = Some w" using put parsed_accounts_plain [OF Some] by metis
    with get [of k w] k Some show ?thesis by (auto simp: account_order_def image_iff)
  qed
qed

text \<open>C19. The bundled mail server knows every agent: after the mailbox file is rewritten each agent of the roster that has
  an address and a stored password has an entry whose hash fits that password, and the mailboxes of other addresses keep
  the hash they had.\<close>

theorem every_agent_can_log_in:
  assumes "regenerateDmsAccounts ya sha rnd d = (Inr (), d')" "cdDmsDir d" "esEnabled (loadEmailServiceConfig d)"
    "loadRoster ya d = Inr r" "\<forall>a\<in>set (acAgents r). plain_address (adEmail a)"
  shows "(\<forall>a\<in>set (acAgents r). has_mailbox d a \<longrightarrow>
      (\<exists>h. map_of (parseDmsAccounts (cdAccounts d')) (mail_key (adEmail a)) = Some h \<and>
           verifySha512Crypt sha (getAgentPassword d (adEmail a)) h)) \<and>
    (\<forall>k. (\<forall>a\<in>set (acAgents r). has_mailbox d a \<longrightarrow> mail_key (adEmail a) \<noteq> k) \<longrightarrow>
      map_of (parseDmsAccounts (cdAccounts d')) k = map_of (parseDmsAccounts (cdAccounts d)) k)"
proof -
  let ?old = "parseDmsAccounts (cdAccounts d)" let ?new = "map_of (parseDmsAccounts (cdAccounts d'))"
  obtain accts where a: "roster_accounts sha rnd (getAgentPassword d) (map_of ?old) 0 (acAgents r) = Inr accts"
    and w: "cdAccounts d' = Stored (accounts_text (all_accounts accts ?old))"
    using assms(1-4) by (auto simp: regenerateDmsAccounts_def Let_def io_bind_def write_to_def split: sum.splits option.splits)
  note spec = roster_accounts_spec [OF a assms(5)]
  have plain: "\<forall>x\<in>set accts. plain_account x" using spec by auto
  note new = rewritten_accounts [OF plain, where f = "cdAccounts d", folded w]
  have keys: "account_order ` set accts = (\<lambda>a. mail_key (adEmail a)) ` {a \<in> set (acAgents r). has_mailbox d a}"
    using arg_cong [OF spec [THEN conjunct1], of "image to_lower"] by (simp add: image_image account_order_def mail_key_def)
  have trim: "getAgentPassword d (trim_space e) = getAgentPassword d e" for e
    by (simp add: getAgentPassword_def emailPasswordKey_def emailStem_def)
  show ?thesis
  proof (intro conjI ballI allI impI)
    fix a assume m: "a \<in> set (acAgents r)" "has_mailbox d a"
    then obtain h0 where h0: "(trim_space (adEmail a), h0) \<in> set accts" using spec by force
    then obtain h where h: "?new (mail_key (adEmail a)) = Some h" using new(1) by (auto simp: mail_key_def)
    have "mail_key (adEmail a) \<in> account_order ` set accts" using m keys by auto
    with new(2) [OF h] obtain e where e: "to_lower e = mail_key (adEmail a)" "(e, h) \<in> set accts" by blast
    then have "verifySha512Crypt sha (getAgentPassword d e) h" using spec by auto
    moreover have "getAgentPassword d e = getAgentPassword d (adEmail a)"
      using getAgentPassword_lower [of e "trim_space (adEmail a)" d] e(1) by (simp add: mail_key_def trim)
    ultimately show "\<exists>h. ?new (mail_key (adEmail a)) = Some h \<and> verifySha512Crypt sha (getAgentPassword d (adEmail a)) h"
      using h by auto
  next
    fix k assume "\<forall>a\<in>set (acAgents r). has_mailbox d a \<longrightarrow> mail_key (adEmail a) \<noteq> k"
    then show "?new k = map_of ?old k" by (intro new(3)) (auto simp: keys)
  qed
qed

lemma roster_accounts_total:
  "\<forall>n. \<exists>b. rnd n = Inr b \<Longrightarrow> \<exists>accts. roster_accounts sha rnd pw old n as = Inr accts"
proof (induction as arbitrary: n)
  case (Cons a as)
  obtain b where "rnd n = Inr b" using Cons.prems by blast
  then have "newCryptSalt (rnd n) = Inr (map (\<lambda>c. crypt_char (of_char c)) b)" by (simp add: newCryptSalt_def)
  with Cons.IH [OF Cons.prems, of n] Cons.IH [OF Cons.prems, of "Suc n"] show ?case
    by (auto simp: Let_def split: option.split)
qed simp

definition mail_disk :: conf_disk where
  "mail_disk = team_disk\<lparr>cdSecrets := Stored (''0_EMAIL_PASSWORD=pw'' @ [nl]), cdDmsDir := True,
     cdTransport := Stored ''x.org lmtp:unix'', cdAccounts := Stored (''# old'' @ [nl] @ ''Ops@x.org | h1'' @ [nl])\<rparr>"

definition demo_sha :: "string \<Rightarrow> string" where
  "demo_sha s = replicate 64 (CHR ''d'')"

definition demo_rnd :: "nat \<Rightarrow> char list result" where
  "demo_rnd n = Inr ''0123456789abcdef''"

definition mail_accounts :: "string \<Rightarrow> string option" where
  "mail_accounts =
     map_of (parseDmsAccounts (cdAccounts (snd (regenerateDmsAccounts (team_yaml [''Ann'']) demo_sha demo_rnd mail_disk))))"

lemma every_agent_can_log_in_witness:
  "(\<exists>h. mail_accounts ''0@x.org'' = Some h \<and> verifySha512Crypt demo_sha ''pw'' h) \<and>
   mail_accounts ''ops@x.org'' = Some ''h1''"
proof -
  let ?r = "regenerateDmsAccounts (team_yaml [''Ann'']) demo_sha demo_rnd mail_disk"
  have c: "cdDmsDir mail_disk" "esEnabled (loadEmailServiceConfig mail_disk)" by code_simp+
  have "is_ok (loadRoster (team_yaml [''Ann'']) mail_disk)" by code_simp
  then obtain r where l: "loadRoster (team_yaml [''Ann'']) mail_disk = Inr r" by (auto simp: result_iff)
  have "show_nat 0 = ''0''" by code_simp
  then have r: "acAgents r = [blank_agent\<lparr>adName := ''Ann'', adEmail := ''0@x.org''\<rparr>]"
    using l by (auto simp: loadRoster_def mail_disk_def team_disk_def team_yaml_def)
  have f: "cdFault mail_disk = (\<lambda>p. None)" by (simp add: mail_disk_def team_disk_def conf_sample_def)
  have "\<forall>n. \<exists>b. demo_rnd n = Inr b" by (simp add: demo_rnd_def)
  then obtain accts where "roster_accounts demo_sha demo_rnd (getAgentPassword mail_disk)
      (map_of (parseDmsAccounts (cdAccounts mail_disk))) 0 (acAgents r) = Inr accts"
    using roster_accounts_total by metis
  then have "fst ?r = Inr ()" using c l f
    by (auto simp: regenerateDmsAccounts_def Let_def io_bind_def write_to_def split: sum.splits)
  then have g: "?r = (Inr (), snd ?r)" by (metis prod.collapse)
  have p: "\<forall>a\<in>set (acAgents r). plain_address (adEmail a)"
    by (simp add: r) code_simp
  have a: "has_mailbox mail_disk (blank_agent\<lparr>adName := ''Ann'', adEmail := ''0@x.org''\<rparr>)"
    "getAgentPassword mail_disk ''0@x.org'' = ''pw''" "mail_key ''0@x.org'' = ''0@x.org''"
    "map_of (parseDmsAccounts (cdAccounts mail_disk)) ''ops@x.org'' = Some ''h1''" by code_simp+
  show ?thesis
    using every_agent_can_log_in [OF g c l p] a by (simp add: r mail_accounts_def)
qed

end
