(* ===== verification/Agent_Form.thy ===== *)
theory Agent_Form
  imports Dms_Accounts
begin

text \<open>
  Editing one agent and the settings all agents share (\<open>scripts/configurator/agents.go\<close>): the form of an agent with its
  checks, filling it from the roster and the secrets, saving it (roster, password, compose file, mailbox file, in this
  order), and the form of the \<open>common:\<close> block.
\<close>

section \<open>The form of an agent\<close>

text \<open>The fields the page only shows (the tool registry, the default coordinator prompt, the key flags) are left out.\<close>

record agent_form =
  afOriginalEmail :: string
  afName :: string
  afEmail :: string
  afEmailPassword :: string
  afWhitelist :: string
  afBlacklist :: string
  afLLMProvider :: string
  afLLMModel :: string
  afLLMOpenrouterBackup :: string
  afSystemPrompt :: string
  afExcludeCollaborators :: bool
  afRole :: string
  afRoleDesc :: string
  afTools :: "string list"

definition coworkers_token :: string where "coworkers_token = ''{{coworkers}}''"

definition validate_agent :: "agent_form \<Rightarrow> unit result" where
  "validate_agent a = first_error
     [(trim_space (afName a) = [], ''agent name is required''),
      (trim_space (afEmail a) = [], ''agent email is required''),
      (\<not> contains_sub ''@'' (afEmail a), ''agent email must include @''),
      (trim_space (afLLMProvider a) = [], ''LLM provider is required''),
      (afLLMProvider a \<noteq> ''anthropic'' \<and> afLLMProvider a \<noteq> ''openrouter'', ''LLM provider must be anthropic or openrouter''),
      (trim_space (afLLMModel a) = [], ''LLM model is required''),
      (trim_space (afWhitelist a) \<noteq> [] \<and> trim_space (afBlacklist a) \<noteq> [], ''whitelist and blacklist are mutually exclusive''),
      (trim_space (afRole a) = [], ''roster role is required''),
      (trim_space (afRoleDesc a) = [], ''roster description is required'')]"

definition form_of_agent :: "common_config \<Rightarrow> string \<Rightarrow> agent_def \<Rightarrow> agent_form" where
  "form_of_agent common password a =
     (let prompt = (if adSystemPrompt a = [] then ccSystemPrompt common else adSystemPrompt a)
      in \<lparr>afOriginalEmail = adEmail a, afName = adName a, afEmail = adEmail a, afEmailPassword = password,
          afWhitelist = join '', '' (adWhitelist a), afBlacklist = join '', '' (adBlacklist a),
          afLLMProvider = (if adLLMProvider a = [] then ''anthropic'' else adLLMProvider a), afLLMModel = adLLMModel a,
          afLLMOpenrouterBackup = join '', '' (adLLMOpenRouterBackup a), afSystemPrompt = prompt,
          afExcludeCollaborators = (prompt \<noteq> [] \<and> \<not> contains_sub coworkers_token prompt),
          afRole = adRole a, afRoleDesc = adDescription a, afTools = adTools a\<rparr>)"

definition loadAgentForm :: "yaml \<Rightarrow> conf_disk \<Rightarrow> string \<Rightarrow> agent_form result" where
  "loadAgentForm ya d email =
     and_then (loadRoster ya d) (\<lambda>r.
       case findAgentIndex r email of
         None \<Rightarrow> Inl (Err (''agent '' @ go_quote email @ '' not found in roster''))
       | Some i \<Rightarrow>
           let a = acAgents r ! i in Inr (form_of_agent (acCommon r) (getAgentPassword d (adEmail a)) a))"

definition blank_form :: agent_form where
  "blank_form = \<lparr>afOriginalEmail = [], afName = [], afEmail = [], afEmailPassword = [], afWhitelist = [], afBlacklist = [],
     afLLMProvider = ''anthropic'', afLLMModel = [], afLLMOpenrouterBackup = [], afSystemPrompt = [],
     afExcludeCollaborators = False, afRole = [], afRoleDesc = [], afTools = []\<rparr>"

definition newAgentForm :: "yaml \<Rightarrow> conf_disk \<Rightarrow> agent_form" where
  "newAgentForm ya d =
     (case loadRoster ya d of
        Inr r \<Rightarrow> blank_form\<lparr>afSystemPrompt := ccSystemPrompt (acCommon r)\<rparr>
      | Inl e \<Rightarrow> blank_form)"

section \<open>Saving an agent\<close>

definition prompt_space :: "char \<Rightarrow> bool" where
  "prompt_space c \<longleftrightarrow> c = CHR '' '' \<or> c = CHR 0x09 \<or> c = nl"

definition stripCoworkers :: "string \<Rightarrow> string" where
  "stripCoworkers s =
     trim_right prompt_space
       (replace_all coworkers_token [] (replace_all (nl # coworkers_token) [] s))"

definition ensureCoworkers :: "string \<Rightarrow> string" where
  "ensureCoworkers s =
     (if s = [] \<or> contains_sub coworkers_token s then s
      else if has_suffix [nl] s then s @ coworkers_token
      else s @ nl # coworkers_token)"

definition form_prompt :: "agent_form \<Rightarrow> string" where
  "form_prompt a =
     (if afExcludeCollaborators a then stripCoworkers (afSystemPrompt a) else ensureCoworkers (afSystemPrompt a))"

definition old_entry :: "agent_form \<Rightarrow> agents_config \<Rightarrow> agent_def" where
  "old_entry a r =
     (case (if afOriginalEmail a \<noteq> [] then findAgentIndex r (afOriginalEmail a) else None) of
        Some i \<Rightarrow> acAgents r ! i
      | None \<Rightarrow> blank_agent)"

definition agent_of_form :: "agent_form \<Rightarrow> agents_config \<Rightarrow> agent_def" where
  "agent_of_form a r =
     (let prompt = form_prompt a; v = trim_space prompt; white = splitCSV (afWhitelist a)
      in (old_entry a r)
         \<lparr>adName := trim_space (afName a), adEmail := trim_space (afEmail a), adRole := trim_space (afRole a),
          adDescription := trim_space (afRoleDesc a), adTools := afTools a,
          adLLMProvider := trim_space (afLLMProvider a), adLLMModel := trim_space (afLLMModel a),
          adLLMOpenRouterBackup := (if afLLMProvider a = ''openrouter'' then splitCSV (afLLMOpenrouterBackup a) else []),
          adSystemPrompt := (if v \<noteq> [] \<and> v \<noteq> trim_space (ccSystemPrompt (acCommon r)) then prompt else []),
          adWhitelist := white, adBlacklist := (if white \<noteq> [] then [] else splitCSV (afBlacklist a))\<rparr>)"

definition renamed_agent :: "agent_form \<Rightarrow> bool" where
  "renamed_agent a \<longleftrightarrow> afOriginalEmail a \<noteq> [] \<and> \<not> equal_fold (afOriginalEmail a) (trim_space (afEmail a))"

definition put_agent :: "agent_form \<Rightarrow> agents_config \<Rightarrow> agents_config" where
  "put_agent a r = upsertAgent (agent_of_form a r) (if renamed_agent a then removeAgent (afOriginalEmail a) r else r)"

text \<open>\<open>save\<close> with the address it returns beside an error of the last two steps.\<close>

definition save_agent ::
  "yaml \<Rightarrow> (string \<Rightarrow> string) \<Rightarrow> (nat \<Rightarrow> char list result) \<Rightarrow> agent_form \<Rightarrow> conf_disk \<Rightarrow>
   (string \<times> unit result) \<times> conf_disk" where
  "save_agent ya sha rnd a d =
     (let email = trim_space (afEmail a)
      in case and_then (validate_agent a) (\<lambda>_. loadRoster ya d) of
           Inl e \<Rightarrow> (([], Inl e), d)
         | Inr r \<Rightarrow>
             (case io_bind
                     (io_wrap ''removing old password: ''
                       (if renamed_agent a then removeAgentPassword (afOriginalEmail a) else io_return ())) (\<lambda>_.
                   io_bind (saveRoster ya (put_agent a r)) (\<lambda>_.
                     io_wrap ''writing password: '' (setAgentPassword email (afEmailPassword a)))) d of
                (Inl e, d1) \<Rightarrow> (([], Inl e), d1)
              | (Inr u, d1) \<Rightarrow>
                  (case io_bind
                          (io_wrap ''roster saved but docker-compose.yml update failed: '' (regenerateCompose ya)) (\<lambda>_.
                        io_wrap ''roster saved but DMS accounts file update failed: ''
                          (regenerateDmsAccounts ya sha rnd)) d1 of
                     (res, d2) \<Rightarrow> ((email, res), d2))))"

section \<open>The shared settings\<close>

record common_form =
  cfEmailServer :: string
  cfSMTPServer :: string
  cfEmailInsecureTLS :: bool
  cfMaxHistoryChars :: string
  cfMaxTokens :: string
  cfAgentTimeout :: string
  cfSystemPrompt :: string
  cfAnthropicAPIKey :: string
  cfOpenRouterKey :: string

definition defaultSystemPrompt :: string where
  "defaultSystemPrompt =
     ''You are a helpful agent that serves two groups '' @ em_dash @ '' users and coworkers. '' @
     ''Your role is to resolve tasks submitted by users, drawing on your coworkers below as needed.'' @ [nl] @ coworkers_token"

definition shown_int :: "int \<Rightarrow> string \<Rightarrow> string" where
  "shown_int n dflt = (if n > 0 then show_int n else dflt)"

definition loadCommonDefaults :: "yaml \<Rightarrow> conf_disk \<Rightarrow> common_form result" where
  "loadCommonDefaults ya d =
     and_then (loadRoster ya d) (\<lambda>r.
       let c = acCommon r; s = loadSecrets d
       in Inr \<lparr>cfEmailServer = ccEmailServer c, cfSMTPServer = ccSmtpServer c, cfEmailInsecureTLS = ccEmailInsecureTLS c,
               cfMaxHistoryChars = shown_int (ccMaxHistoryChars c) ''200000'', cfMaxTokens = shown_int (ccMaxTokens c) ''6000'',
               cfAgentTimeout = shown_int (ccAgentTimeout c) ''300'',
               cfSystemPrompt = (if trim_space (ccSystemPrompt c) = [] then defaultSystemPrompt else ccSystemPrompt c),
               cfAnthropicAPIKey = secret ''ANTHROPIC_API_KEY'' s, cfOpenRouterKey = secret ''OPENROUTER_API_KEY'' s\<rparr>)"

definition entered_int :: "string \<Rightarrow> int \<Rightarrow> int" where
  "entered_int s old = (case Atoi (trim_space s) of Some n \<Rightarrow> if n > 0 then n else old | None \<Rightarrow> old)"

definition put_common :: "common_form \<Rightarrow> agents_config \<Rightarrow> agents_config" where
  "put_common f r =
     (let c = acCommon r
      in r\<lparr>acCommon := c
            \<lparr>ccEmailServer := ensurePort (trim_space (cfEmailServer f)) ''993'',
             ccSmtpServer := ensurePort (trim_space (cfSMTPServer f)) ''587'',
             ccEmailInsecureTLS := cfEmailInsecureTLS f,
             ccMaxHistoryChars := entered_int (cfMaxHistoryChars f) (ccMaxHistoryChars c),
             ccMaxTokens := entered_int (cfMaxTokens f) (ccMaxTokens c),
             ccAgentTimeout := entered_int (cfAgentTimeout f) (ccAgentTimeout c),
             ccSystemPrompt := (if trim_space (cfSystemPrompt f) \<noteq> [] then cfSystemPrompt f else ccSystemPrompt c)\<rparr>\<rparr>)"

definition put_key :: "string \<Rightarrow> string \<Rightarrow> env_file \<Rightarrow> env_file" where
  "put_key key v s = (if trim_space v \<noteq> [] then envSet key v s else s)"

definition saveCommonDefaults :: "yaml \<Rightarrow> common_form \<Rightarrow> (conf_disk, unit) io" where
  "saveCommonDefaults ya f d =
     (case and_then (first_error
              [(trim_space (cfEmailServer f) = [], ''EMAIL_SERVER is required''),
               (trim_space (cfSMTPServer f) = [], ''SMTP_SERVER is required'')]) (\<lambda>_. loadRoster ya d) of
        Inl e \<Rightarrow> (Inl e, d)
      | Inr r \<Rightarrow>
          io_bind (saveRoster ya (put_common f r)) (\<lambda>_ d1.
            saveSecrets (put_key ''OPENROUTER_API_KEY'' (cfOpenRouterKey f)
              (put_key ''ANTHROPIC_API_KEY'' (cfAnthropicAPIKey f) (loadSecrets d1))) d1) d)"

text \<open>\<open>example\<close> is \<open>configs/agents-example.yaml\<close>.\<close>

definition exampleCoordinatorPrompt :: "yaml \<Rightarrow> string fsfile \<Rightarrow> string" where
  "exampleCoordinatorPrompt ya example =
     (case example of
        Stored b \<Rightarrow> (case yaRead ya b of Inr r \<Rightarrow> ccCoordinatorSystemPrompt (acCommon r) | Inl e \<Rightarrow> [])
      | _ \<Rightarrow> [])"

definition commonPromptDefaults :: "yaml \<Rightarrow> string fsfile \<Rightarrow> conf_disk \<Rightarrow> string \<times> string" where
  "commonPromptDefaults ya example d =
     (let (system, coordinator) =
            (case loadRoster ya d of
               Inr r \<Rightarrow> (ccSystemPrompt (acCommon r), ccCoordinatorSystemPrompt (acCommon r))
             | Inl e \<Rightarrow> ([], []))
      in (if system = [] then defaultSystemPrompt else system,
          if coordinator = [] then exampleCoordinatorPrompt ya example else coordinator))"

section \<open>What saving an agent does\<close>

lemma saveRoster_disk: "saveRoster ya r d = (res, d') \<Longrightarrow> d' = d\<lparr>cdRoster := cdRoster d'\<rparr>"
  by (auto simp: saveRoster_def write_to_def split: option.splits sum.splits prod.splits)

lemma ensureMCPServersFile_disk: "ensureMCPServersFile ya d = (res, d') \<Longrightarrow> \<exists>c. d' = d\<lparr>cdCatalog := c\<rparr>"
  unfolding ensureMCPServersFile_def saveCatalog_def write_to_def io_bind_def
  by (auto split: option.splits sum.splits prod.splits if_splits intro: exI [of _ "cdCatalog d"])

lemma regenerateCompose_disk:
  assumes "regenerateCompose ya d = (res, d')"
  shows "\<exists>c t. d' = d\<lparr>cdCatalog := c, cdCompose := t\<rparr>"
proof -
  obtain res1 d1 where e: "ensureMCPServersFile ya d = (res1, d1)" by fastforce
  then obtain c where d1: "d1 = d\<lparr>cdCatalog := c\<rparr>" using ensureMCPServersFile_disk by blast
  have "d' = d \<or> d' = d1 \<or> (\<exists>t. d' = d1\<lparr>cdCompose := t\<rparr>)"
    using assms e by (auto simp: regenerateCompose_def io_bind_def write_to_def split: sum.splits option.splits)
  moreover have "d = d\<lparr>cdCatalog := cdCatalog d, cdCompose := cdCompose d\<rparr>"
    "d1 = d\<lparr>cdCatalog := c, cdCompose := cdCompose d\<rparr>" by (simp_all add: d1)
  ultimately show ?thesis using d1 by metis
qed

lemma regenerateDms_disk: "regenerateDmsAccounts ya sha rnd d = (res, d') \<Longrightarrow> d' = d\<lparr>cdAccounts := cdAccounts d'\<rparr>"
  by (auto simp: regenerateDmsAccounts_def write_to_def io_bind_def Let_def split: option.splits sum.splits prod.splits if_splits)

lemma put_agent_inv: "roster_inv r \<Longrightarrow> roster_inv (put_agent a r)"
  by (simp add: put_agent_def agents.inv_put roster_inv_removeAgent)

lemma agent_at_put:
  assumes "roster_inv r"
  shows "agent_at k (put_agent a r) =
    (if k = agent_key (agent_of_form a r) then Some (agent_of_form a r)
     else if k = mail_key (afOriginalEmail a) \<and> renamed_agent a then None else agent_at k r)"
  using assms by (auto simp: put_agent_def agents.lookup_put roster_inv_removeAgent agent_at_removeAgent)

lemma agent_at_index: "agent_at (mail_key email) r = map_option (\<lambda>i. acAgents r ! i) (findAgentIndex r email)"
  by (simp add: agent_at_def findAgentIndex_def find_first_index)

lemma adEmail_of_form: "adEmail (agent_of_form a r) = trim_space (afEmail a)"
  by (simp add: agent_of_form_def Let_def)

lemma put_agent_frame: "acCommon (put_agent a r) = acCommon r \<and> acExternal (put_agent a r) = acExternal r"
  by (simp add: put_agent_def upsertAgent_def removeAgent_def)

lemma loadRoster_cong: "cdRoster d' = cdRoster d \<Longrightarrow> loadRoster ya d' = loadRoster ya d"
  by (simp add: loadRoster_def)

lemma loadSecrets_cong:
  "cdSecrets d' = cdSecrets d \<Longrightarrow> cdSecretsExample d' = cdSecretsExample d \<Longrightarrow> loadSecrets d' = loadSecrets d"
  by (simp add: loadSecrets_def cong: fsfile.case_cong)

text \<open>C18. A saved agent is the one the form shows again: after a successful save the page of its address shows the new entry
  with the new password, the shared settings and the partners are as before, no address is listed twice, and of the other
  agents only the one the form was opened for is gone, when it was given another address.\<close>

theorem saved_agent_is_shown_again:
  assumes "save_agent ya sha rnd a d = ((m, Inr ()), d')" "loadRoster ya d = Inr r" "roster_inv r"
    "\<forall>b. yaShow ya (put_agent a r) = Inr b \<longrightarrow> yaRead ya b = Inr (put_agent a r)"
    "list_all terminated (loadSecrets d)" "plain_key (emailPasswordKey m)" "storable (afEmailPassword a)"
    "trim_space (afEmailPassword a) \<noteq> []"
  shows "m = trim_space (afEmail a) \<and>
    loadAgentForm ya d' m = Inr (form_of_agent (acCommon r) (afEmailPassword a) (agent_of_form a r)) \<and>
    (\<exists>r'. loadRoster ya d' = Inr r' \<and> roster_inv r' \<and> acCommon r' = acCommon r \<and> acExternal r' = acExternal r \<and>
      (\<forall>k. k \<noteq> mail_key m \<longrightarrow>
        agent_at k r' = (if k = mail_key (afOriginalEmail a) \<and> renamed_agent a then None else agent_at k r)))"
proof -
  let ?email = "trim_space (afEmail a)"
  let ?r = "put_agent a r"
  obtain d1 d2 d3 d4 where m: "m = ?email"
    and d1: "(if renamed_agent a then removeAgentPassword (afOriginalEmail a) d else (Inr (), d)) = (Inr (), d1)"
    and d2: "saveRoster ya ?r d1 = (Inr (), d2)"
    and d3: "setAgentPassword ?email (afEmailPassword a) d2 = (Inr (), d3)"
    and d4: "regenerateCompose ya d3 = (Inr (), d4)" "regenerateDmsAccounts ya sha rnd d4 = (Inr (), d')"
    and v: "validate_agent a = Inr ()"
    using assms(1,2)
    by (auto simp: save_agent_def Let_def result_iff io_return_def split: sum.splits prod.splits if_splits)
  have e: "?email \<noteq> []" using v unfolding validate_agent_def first_error_ok by simp
  have s1: "list_all terminated (loadSecrets d1)"
    using d1 assms(5) removeAgentPassword_get [OF assms(5)] by (auto split: if_splits)
  have r2: "loadRoster ya d2 = Inr ?r" "cdSecrets d2 = cdSecrets d1" "cdSecretsExample d2 = cdSecretsExample d1"
    using loadRoster_saved [OF d2] assms(4) saveRoster_disk [OF d2] by (auto dest: arg_cong [of _ _ cdSecrets] arg_cong [of _ _ cdSecretsExample])
  then have s2: "list_all terminated (loadSecrets d2)" using s1 loadSecrets_cong by metis
  note p = setAgentPassword_get [OF s2 assms(6) [unfolded m] assms(7) _ assms(8) d3]
  have f: "cdRoster d' = cdRoster d3" "cdSecrets d' = cdSecrets d3" "cdSecretsExample d' = cdSecretsExample d3"
    using regenerateCompose_disk [OF d4(1)] regenerateDms_disk [OF d4(2)]
    by (auto dest: arg_cong [of d' _ cdRoster] arg_cong [of d' _ cdSecrets] arg_cong [of d' _ cdSecretsExample])
  have p3: "d3 = d2\<lparr>cdSecrets := cdSecrets d3\<rparr>" "getAgentPassword d3 ?email = afEmailPassword a"
    using p e by (simp_all add: getAgentPassword_def secret_def emailPasswordKey_def)
  have "cdRoster d3 = cdRoster d2" by (subst p3(1)) simp
  then have l: "loadRoster ya d' = Inr ?r" using r2(1) f(1) loadRoster_cong by metis
  have pw: "getAgentPassword d' ?email = afEmailPassword a"
    using p3(2) e loadSecrets_cong [OF f(2,3)] by (simp add: getAgentPassword_def)
  have "agent_at (mail_key m) ?r = Some (agent_of_form a r)"
    using agent_at_put [OF assms(3)] by (simp add: agent_key_def adEmail_of_form m)
  then obtain i where "findAgentIndex ?r m = Some i" "acAgents ?r ! i = agent_of_form a r"
    by (auto simp: agent_at_index)
  then have "loadAgentForm ya d' m = Inr (form_of_agent (acCommon r) (afEmailPassword a) (agent_of_form a r))"
    using pw by (simp add: loadAgentForm_def l adEmail_of_form put_agent_frame)
  then show ?thesis
    using m l put_agent_inv [OF assms(3)] agent_at_put [OF assms(3)]
    by (simp add: put_agent_frame agent_key_def adEmail_of_form)
qed

section \<open>Saving without a change\<close>

definition csv_word :: "string \<Rightarrow> bool" where
  "csv_word w \<longleftrightarrow> w \<noteq> [] \<and> trim_space w = w \<and> CHR '','' \<notin> set w"

lemma split_csv:
  "\<forall>w\<in>set (x # xs). CHR '','' \<notin> set w \<Longrightarrow>
   split_char (CHR '','') (join '', '' (x # xs)) = x # map (\<lambda>w. CHR '' '' # w) xs"
proof (induction xs arbitrary: x)
  case Nil
  then show ?case by (simp add: split_char_id)
next
  case (Cons y ys)
  have "split_char (CHR '','') (x @ CHR '','' # (CHR '' '' # join '', '' (y # ys))) =
      x # split_char (CHR '','') (CHR '' '' # join '', '' (y # ys))"
    using Cons.prems unfolding split_char_def by (intro split_by_append) auto
  moreover have "split_char (CHR '','') (CHR '' '' # join '', '' (y # ys)) = (CHR '' '' # y) # map (\<lambda>w. CHR '' '' # w) ys"
    using Cons.IH [of y] Cons.prems by (simp add: split_char_def)
  ultimately show ?case by simp
qed

lemma trim_space_blank: "trim_space (CHR '' '' # w) = trim_space w"
  by (simp add: trim_by_def trim_left_def is_space_def)

lemma trimAll_id: "\<forall>w\<in>set ws. csv_word w \<Longrightarrow> trimAll ws = ws"
  by (induction ws) (simp_all add: trimAll_def csv_word_def)

lemma list_survives_csv:
  assumes "\<forall>w\<in>set ws. csv_word w"
  shows "splitCSV (join '', '' ws) = ws"
proof (cases ws)
  case (Cons x xs)
  then have "trim_space (join '', '' ws) \<noteq> []"
    using assms hd_trim_by [of is_space x] by (cases xs) (auto simp: trim_by_eq_Nil csv_word_def)
  moreover have "trimAll (map (\<lambda>w. CHR '' '' # w) xs) = trimAll xs"
    by (simp add: trimAll_def comp_def trim_space_blank)
  moreover have "trimAll xs = xs" using assms Cons by (intro trimAll_id) auto
  ultimately show ?thesis
    using assms Cons split_csv [of x xs] by (simp add: splitCSV_def csv_word_def) (simp add: trimAll_def)
qed (simp add: splitCSV_def)

lemma replace_all_absent: "old \<noteq> [] \<Longrightarrow> \<not> contains_sub old s \<Longrightarrow> replace_all old new s = s"
proof (induction s)
  case Nil
  then show ?case by (simp add: replace_all.simps)
next
  case (Cons c s)
  then have "\<not> contains_sub old s" "\<not> has_prefix old (c # s)"
    using contains_sub_iff [of old] has_prefix_iff [of old] by (metis append_Cons) (metis Cons.prems(2) append_Nil contains_sub_iff has_prefix_iff)
  with Cons show ?case by (subst replace_all.simps) simp
qed

lemma strip_without_token: "\<not> contains_sub coworkers_token s \<Longrightarrow> stripCoworkers s = trim_right prompt_space s"
proof -
  assume s: "\<not> contains_sub coworkers_token s"
  then have "\<not> contains_sub (nl # coworkers_token) s"
    using contains_sub_iff by (metis append.assoc append_Cons append_Nil)
  with s show ?thesis by (simp add: stripCoworkers_def replace_all_absent coworkers_token_def)
qed

lemma trim_by_snoc: "P x \<Longrightarrow> trim_by P (s @ [x]) = trim_by P s"
  by (cases "\<forall>c\<in>set s. P c")
    (auto simp: trim_by_def trim_left_def trim_right_def dropWhile_append dropWhile_append3 dropWhile_eq_Nil_conv
      dest: set_dropWhileD)

lemma trim_by_sub: "(\<And>c. Q c \<Longrightarrow> P c) \<Longrightarrow> trim_by P (trim_right Q s) = trim_by P s"
proof (induction s rule: rev_induct)
  case (snoc x s)
  then show ?case by (cases "Q x") (simp_all add: trim_by_snoc trim_right_def)
qed simp

lemma trim_space_right: "trim_space (trim_right prompt_space s) = trim_space s"
  by (rule trim_by_sub) (auto simp: is_space_def prompt_space_def)

text \<open>An entry the way the form writes it, under the shared system prompt \<open>c\<close>.\<close>

definition settled :: "string \<Rightarrow> agent_def \<Rightarrow> bool" where
  "settled c a \<longleftrightarrow>
     trim_space (adName a) = adName a \<and> trim_space (adEmail a) = adEmail a \<and> adEmail a \<noteq> [] \<and>
     trim_space (adRole a) = adRole a \<and> trim_space (adDescription a) = adDescription a \<and>
     trim_space (adLLMModel a) = adLLMModel a \<and> adLLMProvider a \<in> {''anthropic'', ''openrouter''} \<and>
     (adLLMProvider a = ''openrouter'' \<or> adLLMOpenRouterBackup a = []) \<and>
     list_all csv_word (adLLMOpenRouterBackup a) \<and> list_all csv_word (adWhitelist a) \<and> list_all csv_word (adBlacklist a) \<and>
     (adWhitelist a = [] \<or> adBlacklist a = []) \<and>
     (adSystemPrompt a \<noteq> [] \<longrightarrow>
        trim_space (adSystemPrompt a) \<notin> {[], trim_space c} \<and>
        (contains_sub coworkers_token (adSystemPrompt a) \<or>
         trim_right prompt_space (adSystemPrompt a) = adSystemPrompt a))"

lemma form_prompt_kept:
  assumes "afExcludeCollaborators f = (afSystemPrompt f \<noteq> [] \<and> \<not> contains_sub coworkers_token (afSystemPrompt f))"
  shows "form_prompt f = (if contains_sub coworkers_token (afSystemPrompt f) then afSystemPrompt f
     else trim_right prompt_space (afSystemPrompt f))"
  using assms by (auto simp: form_prompt_def ensureCoworkers_def strip_without_token)

lemma form_of_settled:
  assumes "settled (ccSystemPrompt (acCommon r)) a" "f = form_of_agent (acCommon r) pw a" "old_entry f r = a"
  shows "agent_of_form f r = a"
proof -
  let ?c = "ccSystemPrompt (acCommon r)"
  have p: "form_prompt f = (if contains_sub coworkers_token (afSystemPrompt f) then afSystemPrompt f
     else trim_right prompt_space (afSystemPrompt f))"
    by (rule form_prompt_kept) (simp add: assms(2) form_of_agent_def Let_def)
  then have t: "trim_space (form_prompt f) = trim_space (afSystemPrompt f)" by (simp add: trim_space_right)
  have s: "afSystemPrompt f = (if adSystemPrompt a = [] then ?c else adSystemPrompt a)"
    by (simp add: assms(2) form_of_agent_def Let_def)
  have prompt: "(if trim_space (form_prompt f) \<noteq> [] \<and> trim_space (form_prompt f) \<noteq> trim_space ?c then form_prompt f else []) =
      adSystemPrompt a"
    using assms(1) unfolding t by (auto simp: s p settled_def)
  have csv: "splitCSV (join '', '' (adWhitelist a)) = adWhitelist a" "splitCSV (join '', '' (adBlacklist a)) = adBlacklist a"
    "splitCSV (join '', '' (adLLMOpenRouterBackup a)) = adLLMOpenRouterBackup a"
    using assms(1) by (simp_all add: settled_def list_all_iff list_survives_csv)
  have f: "afName f = adName a" "afEmail f = adEmail a" "afRole f = adRole a" "afRoleDesc f = adDescription a"
    "afTools f = adTools a" "afLLMModel f = adLLMModel a" "afWhitelist f = join '', '' (adWhitelist a)"
    "afBlacklist f = join '', '' (adBlacklist a)" "afLLMOpenrouterBackup f = join '', '' (adLLMOpenRouterBackup a)"
    "afLLMProvider f = adLLMProvider a"
    using assms(1) by (auto simp: assms(2) form_of_agent_def Let_def settled_def)
  have prov: "trim_space (adLLMProvider a) = adLLMProvider a"
  proof -
    have "trim_space ''anthropic'' = ''anthropic''" "trim_space ''openrouter'' = ''openrouter''" by code_simp+
    with assms(1) show ?thesis by (auto simp: settled_def)
  qed
  have "(if adWhitelist a \<noteq> [] then [] else adBlacklist a) = adBlacklist a"
    "(if adLLMProvider a = ''openrouter'' then adLLMOpenRouterBackup a else []) = adLLMOpenRouterBackup a"
    "trim_space (adName a) = adName a" "trim_space (adEmail a) = adEmail a" "trim_space (adRole a) = adRole a"
    "trim_space (adDescription a) = adDescription a" "trim_space (adLLMModel a) = adLLMModel a"
    using assms(1) by (auto simp: settled_def)
  then show ?thesis
    by (simp add: agent_of_form_def Let_def assms(3) prompt f csv prov)
      (auto intro!: agent_def.equality split: if_splits)
qed

text \<open>Opening an agent's page and saving it unchanged changes nothing in the roster: for an entry the form could have
  written, every list survives the comma-separated fields, an inherited system prompt stays inherited, the settings the
  form does not show are kept, and no other entry moves.\<close>

theorem unedited_agent_is_unchanged:
  assumes "loadRoster ya d = Inr r" "loadAgentForm ya d email = Inr f"
    "\<forall>a\<in>set (acAgents r). settled (ccSystemPrompt (acCommon r)) a"
  shows "put_agent f r = r"
proof -
  obtain i where i: "findAgentIndex r email = Some i"
    and f: "f = form_of_agent (acCommon r) (getAgentPassword d (adEmail (acAgents r ! i))) (acAgents r ! i)"
    using assms(1,2) by (auto simp: loadAgentForm_def Let_def split: option.splits)
  let ?a = "acAgents r ! i"
  have a: "i < length (acAgents r)" "mail_key email = agent_key ?a"
    using first_index_Some [OF i [unfolded findAgentIndex_def]] by auto
  then have s: "settled (ccSystemPrompt (acCommon r)) ?a" using assms(3) by simp
  have k: "first_index (\<lambda>b. agent_key b = agent_key ?a) (acAgents r) = Some i"
    using i a(2) by (simp add: findAgentIndex_def)
  have o: "afOriginalEmail f = adEmail ?a" "afEmail f = adEmail ?a" by (simp_all add: f form_of_agent_def Let_def)
  with s k have "old_entry f r = ?a" by (simp add: old_entry_def settled_def findAgentIndex_def agent_key_def)
  then have "agent_of_form f r = ?a" using form_of_settled [OF s f] by simp
  moreover have "\<not> renamed_agent f" using s by (simp add: renamed_agent_def o settled_def)
  ultimately show ?thesis using k by (simp add: put_agent_def upsertAgent_def upsert_def)
qed

definition ann :: agent_def where
  "ann = blank_agent\<lparr>adName := ''Ann'', adEmail := ''ann@x.org'', adRole := ''ops'', adDescription := ''keeps it running'',
     adLLMProvider := ''openrouter'', adLLMModel := ''m1'', adLLMOpenRouterBackup := [''m2'', ''m3''],
     adWhitelist := [''acme.com'', ''b@c.d''], adSystemPrompt := ''Be brief.'', adMaxTurns := Some 9\<rparr>"

definition bob :: agent_def where
  "bob = ann\<lparr>adName := ''Bob'', adEmail := ''bob@x.org'', adSystemPrompt := []\<rparr>"

definition office :: agents_config where
  "office = empty_roster\<lparr>acCommon := empty_common\<lparr>ccSystemPrompt := defaultSystemPrompt\<rparr>, acAgents := [ann, bob]\<rparr>"

definition office_yaml :: yaml where
  "office_yaml = rename_yaml\<lparr>yaRead := (\<lambda>s. Inr (office\<lparr>acAgents := filter (\<lambda>a. adName a \<in> set (split_char (CHR '','') s)) [ann, bob]\<rparr>)),
     yaShow := (\<lambda>r. Inr (join '','' (map adName (acAgents r))))\<rparr>"

definition office_disk :: conf_disk where
  "office_disk = conf_sample\<lparr>cdRoster := Stored ''Ann,Bob''\<rparr>"

lemma unedited_agent_is_unchanged_witness:
  "map_sum id (\<lambda>f. put_agent f office) (loadAgentForm office_yaml office_disk ''Bob@x.org'') = Inr office"
proof -
  have l: "loadRoster office_yaml office_disk = Inr office" by code_simp
  have s: "\<forall>a\<in>set (acAgents office). settled (ccSystemPrompt (acCommon office)) a" by code_simp
  have "is_ok (loadAgentForm office_yaml office_disk ''Bob@x.org'')" by code_simp
  then obtain f where f: "loadAgentForm office_yaml office_disk ''Bob@x.org'' = Inr f" by (auto simp: result_iff)
  show ?thesis using unedited_agent_is_unchanged [OF l f s] f by simp
qed

definition ann_form :: agent_form where
  "ann_form = (form_of_agent (acCommon office) ''pw'' ann)\<lparr>afEmailPassword := ''n,ew''\<rparr>"

lemma saved_agent_is_shown_again_witness:
  "loadAgentForm office_yaml (snd (save_agent office_yaml demo_sha demo_rnd ann_form office_disk)) ''ann@x.org'' = Inr ann_form"
proof -
  let ?s = "save_agent office_yaml demo_sha demo_rnd ann_form office_disk"
  have "fst ?s = (''ann@x.org'', Inr ())" by code_simp
  then have s: "?s = ((''ann@x.org'', Inr ()), snd ?s)" by (metis prod.collapse)
  have l: "loadRoster office_yaml office_disk = Inr office" "roster_inv office" by code_simp+
  have "(case yaShow office_yaml (put_agent ann_form office) of Inr b \<Rightarrow> yaRead office_yaml b | Inl e \<Rightarrow> Inl e) =
      Inr (put_agent ann_form office)" by code_simp
  then have y: "\<forall>b. yaShow office_yaml (put_agent ann_form office) = Inr b \<longrightarrow>
      yaRead office_yaml b = Inr (put_agent ann_form office)" by auto
  have p: "list_all terminated (loadSecrets office_disk)" "plain_key (emailPasswordKey ''ann@x.org'')"
    "storable (afEmailPassword ann_form)" "trim_space (afEmailPassword ann_form) \<noteq> []" by code_simp+
  have c: "form_of_agent (acCommon office) (afEmailPassword ann_form) (agent_of_form ann_form office) = ann_form" by code_simp
  show ?thesis by (rule saved_agent_is_shown_again [OF s l y p, THEN conjunct2, THEN conjunct1, unfolded c])
qed

section \<open>What renaming can lose\<close>

text \<open>
  Giving an agent the address of another one replaces the other entry; the old password is removed before the roster is
  written, so a failing write of the roster leaves the agent without its password; and a new agent with a known
  address takes that entry's place, with the settings the form does not show reset.
\<close>

theorem rename_can_replace_another:
  "map adName (acAgents (put_agent ((form_of_agent (acCommon office) ''pw'' bob)\<lparr>afEmail := ''ann@x.org''\<rparr>) office)) = [''Bob'']"
  by code_simp

definition bob_moves :: agent_form where
  "bob_moves = (form_of_agent (acCommon office) ''pw'' bob)\<lparr>afEmail := ''robert@x.org''\<rparr>"

definition locked_disk :: conf_disk where
  "locked_disk = office_disk\<lparr>cdSecrets := Stored (''BOB_EMAIL_PASSWORD=pw'' @ [nl]),
     cdFault := (\<lambda>p. if p = rosterPath then Some Permission else None)\<rparr>"

theorem failed_rename_loses_password:
  "getAgentPassword locked_disk ''bob@x.org'' = ''pw'' \<and>
   (case save_agent office_yaml demo_sha demo_rnd bob_moves locked_disk of
      ((m, res), d') \<Rightarrow> \<not> is_ok res \<and> loadRoster office_yaml d' = loadRoster office_yaml locked_disk \<and>
                       getAgentPassword d' ''bob@x.org'' = [])"
  by code_simp

theorem new_agent_can_reset_another:
  "adMaxTurns ann = Some 9 \<and>
   map adMaxTurns (acAgents (put_agent (ann_form\<lparr>afOriginalEmail := []\<rparr>) office)) = [None, Some 9]"
  by code_simp

end
