(* ===== verification/Snooze_Tools.thy ===== *)
theory Snooze_Tools
  imports Snooze Json
begin

text \<open>
  The scheduling tools of the model (\<open>internal/tools/snooze.go\<close>): scheduling a task, cancelling it, reading the schedule
  back, and what the prompt says about it.  The input of a tool is its decoded parameters, or the decoding error; \<open>get\<close>
  is \<open>services.GetEmails\<close>, \<open>cron\<close> the parser of crontab expressions and \<open>db\<close> the time-zone database.
\<close>

section \<open>Scheduling and cancelling\<close>

record snooze_params =
  spMessageId :: string
  spDescription :: string
  spOnce :: bool
  spCrontab :: string

definition snooze_entry :: "tzdb \<Rightarrow> email \<Rightarrow> (gotime \<Rightarrow> gotime) \<Rightarrow> snooze_params \<Rightarrow> snooze" where
  "snooze_entry db e next p =
     empty_snooze\<lparr>snMessageId := EnsureAngleBrackets (spMessageId p), snSubject := eSubject e,
       snDescription := spDescription p, snOnce := spOnce p, snCrontab := trim_space (spCrontab p),
       snUnSnooze := next (eDate e), snTimezone := TimezoneFromTime db (eDate e)\<rparr>"

text \<open>The entry for the message of a task, and all that comes before it is saved.\<close>

definition entry_for :: "cron \<Rightarrow> tzdb \<Rightarrow> snooze_params \<Rightarrow> email list \<Rightarrow> snooze result" where
  "entry_for cron db p emails =
     (case emails of
        [] \<Rightarrow> Inl (Err ''no email found'')
      | e # es \<Rightarrow>
          let crontab = trim_space (spCrontab p)
          in and_then (wrap_err (''couldn'' @ [squote] @ ''t parse crontab expression ('' @ crontab @ ''): '') (cron crontab))
               (\<lambda>next. Inr (snooze_entry db e next p)))"

definition prepare_snooze :: "cron \<Rightarrow> tzdb \<Rightarrow> fetch \<Rightarrow> snooze_params result \<Rightarrow> snooze result" where
  "prepare_snooze cron db get input =
     and_then (wrap_err ''invalid input: '' input) (\<lambda>p.
       if spMessageId p = [] then Inl (Err ''Message-Id is required'')
       else and_then (wrap_err ''error getting emails: '' (get [EnsureAngleBrackets (spMessageId p)])) (entry_for cron db p))"

definition snoozeEmail ::
  "cron \<Rightarrow> tzdb \<Rightarrow> fetch \<Rightarrow> (string \<Rightarrow> string result) \<Rightarrow> snooze_params result \<Rightarrow> (snooze_disk, string) io" where
  "snoozeEmail cron db get rootOf input = (\<lambda>d.
     case prepare_snooze cron db get input of
       Inl e \<Rightarrow> (Inl e, d)
     | Inr s \<Rightarrow>
         io_bind (io_wrap ''error saving snooze: '' (SaveSnooze rootOf s)) (\<lambda>_. io_return ''Message snoozed'') d)"

definition unsnoozeEmail :: "string result \<Rightarrow> (snooze_disk, string) io" where
  "unsnoozeEmail input = (\<lambda>d.
     case and_then (wrap_err ''invalid input: '' input)
            (\<lambda>i. if i = [] then Inl (Err ''Message-Id is required'') else Inr (EnsureAngleBrackets i)) of
       Inl e \<Rightarrow> (Inl e, d)
     | Inr messageId \<Rightarrow>
         io_bind (io_wrap ''error cancelling snooze: '' (DeleteSnooze (empty_snooze\<lparr>snMessageId := messageId\<rparr>)))
           (\<lambda>_. io_return ''Scheduled task cancelled'') d)"

section \<open>Reading the schedule back\<close>

text \<open>\<open>time.RFC3339\<close> shows whole seconds.\<close>

definition fmt_seconds :: "gotime \<Rightarrow> string" where
  "fmt_seconds t = fmt_rfc3339 (t\<lparr>tmNanos := tmNanos t - tmNanos t mod 10 ^ 9\<rparr>)"

definition nextRunString :: "tzdb \<Rightarrow> snooze \<Rightarrow> string" where
  "nextRunString db s =
     (let t = snUnSnooze s
      in if tmNanos t = tmNanos zero_time then []
         else fmt_seconds
                (if snTimezone s = [] then t
                 else case LoadTimezone db (snTimezone s) of Inr loc \<Rightarrow> tm_in loc t | Inl e \<Rightarrow> t))"

record scheduled_task =
  stDescription :: string
  stSubject :: string
  stCrontab :: string
  stOnce :: bool
  stNextRun :: string
  stTimezone :: string
  stMsgId :: string
  stThreadId :: string

definition task_of :: "tzdb \<Rightarrow> snooze \<Rightarrow> scheduled_task" where
  "task_of db s =
     \<lparr>stDescription = snDescription s, stSubject = snSubject s, stCrontab = snCrontab s, stOnce = snOnce s,
      stNextRun = nextRunString db s, stTimezone = snTimezone s, stMsgId = snMessageId s, stThreadId = snThreadId s\<rparr>"

text \<open>The encoder without the escapes for HTML, and the fields with \<open>omitempty\<close>.\<close>

definition plain_byte :: "char \<Rightarrow> string" where
  "plain_byte c = (if c = CHR ''<'' \<or> c = CHR ''>'' \<or> c = CHR ''&'' then [c] else escape_byte c)"

fun plain_str :: "string \<Rightarrow> string" where
  "plain_str [] = []"
| "plain_str (c # cs) =
     (if has_prefix [CHR 0xE2, CHR 0x80, CHR 0xA8] (c # cs) then [backslash] @ ''u2028'' @ plain_str (drop 2 cs)
      else if has_prefix [CHR 0xE2, CHR 0x80, CHR 0xA9] (c # cs) then [backslash] @ ''u2029'' @ plain_str (drop 2 cs)
      else plain_byte c @ plain_str cs)"

definition quoted :: "string \<Rightarrow> string" where
  "quoted s = dquote # plain_str s @ [dquote]"

definition member_line :: "string \<Rightarrow> string \<Rightarrow> string list" where
  "member_line name v = (if v = [] then [] else [''    '' @ quoted name @ '': '' @ quoted v])"

definition task_text :: "scheduled_task \<Rightarrow> string" where
  "task_text t =
     ''  {'' @ [nl] @
     join ('','' @ [nl])
       (member_line ''description'' (stDescription t) @ member_line ''subject'' (stSubject t) @
        member_line ''crontab'' (stCrontab t) @
        [''    '' @ quoted ''once'' @ '': '' @ (if stOnce t then ''true'' else ''false'')] @
        member_line ''next_run'' (stNextRun t) @ member_line ''timezone'' (stTimezone t) @
        member_line ''message-id'' (stMsgId t) @ member_line ''thread-id'' (stThreadId t)) @
     [nl] @ ''  }''"

definition watchdog_count_note :: "nat \<Rightarrow> string" where
  "watchdog_count_note n =
     (if n = 0 then []
      else [nl, nl] @ ''('' @ show_nat n @ '' internal watchdog timer(s) are also pending. They are not scheduled tasks '' @
           em_dash @ '' they fire only if a delegated task goes unanswered, and clear themselves once the thread moves on.)'')"

text \<open>Tasks due at one instant are kept in the order of the file; the sort of the code leaves their order open.\<close>

definition scheduled_tasks :: "snooze list \<Rightarrow> snooze list" where
  "scheduled_tasks xs = sort_key (\<lambda>s. tmNanos (snUnSnooze s)) (filter (\<lambda>s. \<not> snWatchdog s) xs)"

definition renderScheduledTasks :: "tzdb \<Rightarrow> snooze list \<Rightarrow> string" where
  "renderScheduledTasks db xs =
     (let note' = watchdog_count_note (length (filter snWatchdog xs))
      in if filter (\<lambda>s. \<not> snWatchdog s) xs = [] then ''No scheduled tasks.'' @ note'
         else ''['' @ [nl] @ join ('','' @ [nl]) (map (task_text \<circ> task_of db) (scheduled_tasks xs)) @ [nl] @ '']'' @ note')"

definition listSnoozed :: "tzdb \<Rightarrow> snooze_disk \<Rightarrow> string result" where
  "listSnoozed db d =
     and_then (wrap_err ''reading scheduled tasks: '' (ReadSnoozeFile d)) (\<lambda>xs. Inr (renderScheduledTasks db xs))"

section \<open>The prompt\<close>

definition snooze_intro :: "email \<Rightarrow> string" where
  "snooze_intro e =
     ''If the user'' @ [squote] @ ''s request indicates this is a task that is to be scheduled, call the '' @ [squote] @
     ''snooze_tool'' @ [squote] @ '' to set the next execution time. The message time is: '' @ fmt_seconds (eDate e) @
     ''. Crontab times should be set exactly as the user states them (e.g. '' @ [squote] @ ''7am'' @ [squote] @ '' '' @
     [CHR 0xE2, CHR 0x86, CHR 0x92] @ '' hour 7). The system will automatically adjust for the user'' @ [squote] @
     ''s timezone. To read back your own schedule '' @ em_dash @ '' every task'' @ [squote] @
     ''s crontab expression, next run time and Message-Id '' @ em_dash @ '' call '' @ [squote] @ ''list_snoozed_tool'' @
     [squote] @ ''.''"

definition own_task_clause :: "tzdb \<Rightarrow> snooze \<Rightarrow> string" where
  "own_task_clause db s =
     [nl, nl] @ ''This thread has an active scheduled task:'' @ [nl, nl] @ go_quote (snDescription s) @ [nl, nl] @
     ''Message-Id: '' @ snMessageId s @ '', schedule: '' @ snCrontab s @ '', next run: '' @ nextRunString db s @ [nl, nl] @
     ''If the user wants to cancel or stop it, call the '' @ [squote] @ ''unsnooze_tool'' @ [squote] @
     '' with the Message-Id. For the tasks scheduled on other threads, call '' @ [squote] @ ''list_snoozed_tool'' @
     [squote] @ ''.''"

definition other_task_line :: "snooze \<Rightarrow> string" where
  "other_task_line s =
     nl # ''- '' @ go_quote (snDescription s) @ '' (Message-Id: '' @ snMessageId s @ '', subject: '' @ go_quote (snSubject s) @ '')''"

definition other_tasks_clause :: "snooze list \<Rightarrow> string" where
  "other_tasks_clause listed =
     [nl, nl] @ ''There are active scheduled tasks (but none belong to this thread).'' @ [nl] @
     ''If the user is asking to cancel or stop a task, identify the best match from the list below '' @
     ''using the following guidelines:'' @ [nl] @
     ''- If the match is clear, call '' @ [squote] @ ''unsnooze_tool'' @ [squote] @ '' with its Message-Id.'' @ [nl] @
     ''- If ambiguous, reply to the user listing the possible matches and ask them to confirm which one to cancel.'' @ [nl] @
     ''- For each task'' @ [squote] @ ''s schedule and next run time, call '' @ [squote] @ ''list_snoozed_tool'' @ [squote] @ ''.'' @
     [nl] @ ''ACTIVE SNOOZED TASKS:'' @ concat (map other_task_line listed)"

definition snoozeSystem :: "tzdb \<Rightarrow> snooze_disk \<Rightarrow> email \<Rightarrow> string" where
  "snoozeSystem db d e =
     (let root = GetThreadRoot e;
          own = (if root = [] then None
                 else case FindSnoozeByThread root d of Inr m \<Rightarrow> m | Inl err \<Rightarrow> None)
      in snooze_intro e @
         (case own of
            Some s \<Rightarrow> own_task_clause db s
          | None \<Rightarrow>
              (case ReadSnoozeFile d of
                 Inl err \<Rightarrow> []
               | Inr xs \<Rightarrow>
                   let listed = filter (\<lambda>s. \<not> snWatchdog s) xs
                   in if listed = [] then [] else other_tasks_clause listed)) @
         [nl, nl])"

section \<open>Scheduling and cancelling are inverse\<close>

lemma EnsureAngleBrackets_ne: "i \<noteq> [] \<Longrightarrow> EnsureAngleBrackets i \<noteq> []"
  by (auto simp: EnsureAngleBrackets_def Let_def)

lemma prepare_snooze_Inr:
  "prepare_snooze cron db get (Inr p) = Inr s \<Longrightarrow>
   \<exists>e es next. spMessageId p \<noteq> [] \<and> get [EnsureAngleBrackets (spMessageId p)] = Inr (e # es) \<and>
     cron (trim_space (spCrontab p)) = Inr next \<and> s = snooze_entry db e next p"
proof -
  assume "prepare_snooze cron db get (Inr p) = Inr s"
  then obtain emails where "spMessageId p \<noteq> []" "get [EnsureAngleBrackets (spMessageId p)] = Inr emails"
    "entry_for cron db p emails = Inr s"
    by (auto simp: prepare_snooze_def result_iff split: if_splits)
  then show ?thesis by (cases emails) (auto simp: entry_for_def result_iff Let_def)
qed

lemma unsnooze_read:
  assumes "unsnoozeEmail (Inr i) d = (Inr r, d')" "ReadSnoozeFile d = Inr xs" "i \<noteq> []"
  shows "ReadSnoozeFile d' = Inr (filter (\<lambda>e. snWatchdog e \<or> snMessageId e \<noteq> EnsureAngleBrackets i) xs)"
proof -
  let ?s = "empty_snooze\<lparr>snMessageId := EnsureAngleBrackets i\<rparr>"
  have del: "DeleteSnooze ?s d = (Inr (), d')"
    using assms(1,3) by (auto simp: unsnoozeEmail_def result_iff io_return_def)
  have w: "without ?s xs = filter (\<lambda>e. snWatchdog e \<or> snMessageId e \<noteq> EnsureAngleBrackets i) xs"
    using EnsureAngleBrackets_ne [OF assms(3)]
    by (auto simp: without_def Let_def same_message_def empty_snooze_def intro!: filter_cong)
  show ?thesis
    by (cases rule: DeleteSnooze_cases [of ?s d]) (use del assms(2) w in auto)
qed

lemma find_filter_mem: "(\<And>x. x \<in> set xs \<Longrightarrow> P x \<Longrightarrow> Q x) \<Longrightarrow> find P (filter Q xs) = find P xs"
  by (induction xs) auto

lemma cancelled_by_thread:
  assumes "entries_inv root xs" "s \<in> set xs" "entry_key s = (root m, False)" "snMessageId s = m" "m \<noteq> []"
  shows "find_by_thread t wd (filter (\<lambda>e. snWatchdog e \<or> snMessageId e \<noteq> m) xs) =
    (if (t, wd) = (root m, False) then None else find_by_thread t wd xs)"
proof (cases "(t, wd) = (root m, False)")
  case True
  have "snMessageId x = m" if "x \<in> set xs" "snThreadId x = root m" "\<not> snWatchdog x" for x
  proof -
    have "entry_key x = entry_key s" using that assms(3) by (simp add: entry_key_def)
    then have "x = s" using assms(1,2) that(1) distinct_map_unique [of entry_key xs x s] by (simp add: entries_inv_def)
    then show ?thesis using assms(4) by simp
  qed
  with True show ?thesis by (auto simp: find_by_thread_def find_None_iff)
next
  case False
  have "snWatchdog x \<or> snMessageId x \<noteq> m" if "x \<in> set xs" "snThreadId x = t \<and> snWatchdog x = wd" for x
    using that False assms(1,5) by (auto simp: entries_inv_def list_all_iff rooted_def)
  then have "find_by_thread t wd (filter (\<lambda>e. snWatchdog e \<or> snMessageId e \<noteq> m) xs) = find_by_thread t wd xs"
    unfolding find_by_thread_def by (intro find_filter_mem) blast
  with False show ?thesis by auto
qed

text \<open>C22. Scheduling and cancelling: after \<open>snooze_tool\<close> the thread of the message has exactly the task asked for, with the
  trimmed crontab, the subject of the message and its next run after the date of the message, and an earlier task of
  the thread is replaced; cancelling by the same Message-Id leaves the thread without a task.  The tasks of all other
  threads and all watchdogs are as before.\<close>

theorem schedule_then_cancel:
  assumes "snoozeEmail cron db get rootOf (Inr p) d = (Inr r, d1)" "disk_inv root d" "roots_by root rootOf"
    "unsnoozeEmail (Inr (spMessageId p)) d1 = (Inr r', d2)" "m = EnsureAngleBrackets (spMessageId p)"
  shows "(\<exists>e es next. get [m] = Inr (e # es) \<and> cron (trim_space (spCrontab p)) = Inr next \<and>
      FindSnoozeByThread (root m) d1 = Inr (Some ((snooze_entry db e next p)\<lparr>snThreadId := root m\<rparr>))) \<and>
    FindSnoozeByThread (root m) d2 = Inr None \<and>
    (\<forall>t. t \<noteq> root m \<longrightarrow> FindSnoozeByThread t d2 = FindSnoozeByThread t d) \<and>
    (\<forall>t. FindWatchdogByThread t d2 = FindWatchdogByThread t d)"
proof -
  obtain s s1 where s: "prepare_snooze cron db get (Inr p) = Inr s" and sv: "SaveSnooze rootOf s d = (Inr s1, d1)"
    using assms(1) by (auto simp: snoozeEmail_def result_iff split: sum.splits)
  obtain e es "next" where e: "spMessageId p \<noteq> []" "get [m] = Inr (e # es)" "cron (trim_space (spCrontab p)) = Inr next"
    "s = snooze_entry db e next p" using prepare_snooze_Inr [OF s] assms(5) by blast
  then have f: "snThreadId s = []" "snMessageId s = m" "\<not> snWatchdog s"
    by (simp_all add: snooze_entry_def empty_snooze_def assms(5))
  obtain xs where xs: "resolve_thread rootOf s = Inr s1" "ReadSnoozeFile d = Inr xs" "ReadSnoozeFile d1 = Inr (put_entry s1 xs)"
    using SaveSnooze_Inr [OF sv] by blast
  have s1: "s1 = s\<lparr>snThreadId := root m\<rparr>"
    using xs(1) assms(3) f(1,2) by (auto simp: resolve_thread_def roots_by_def split: sum.splits)
  have k: "entry_key s1 = (root m, False)" using f(3) by (simp add: entry_key_def s1)
  note look = SaveSnooze_lookup [OF sv assms(2,3), unfolded k]
  let ?xs = "put_entry s1 xs"
  have inv: "entries_inv root ?xs"
    using entries_inv_put [OF disk_inv_read [OF assms(2) xs(2)]] resolve_thread_admissible [OF assms(3) _ xs(1)] f(1) by auto
  have r2: "ReadSnoozeFile d2 = Inr (filter (\<lambda>e. snWatchdog e \<or> snMessageId e \<noteq> m) ?xs)"
    using unsnooze_read [OF assms(4) xs(3) e(1)] assms(5) by simp
  have "s1 \<in> set ?xs" "snMessageId s1 = m" "m \<noteq> []"
    using EnsureAngleBrackets_ne [OF e(1)] assms(5) f(2) by (simp_all add: put_entry_def s1)
  note by_thread = cancelled_by_thread [OF inv this(1) k this(2,3)]
  have look2: "findSnoozeByThread t wd d2 = (if (t, wd) = (root m, False) then Inr None else findSnoozeByThread t wd d1)" for t wd
    by (simp add: findSnoozeByThread_def r2 xs(3) by_thread)
  have "FindSnoozeByThread (root m) d1 = Inr (Some ((snooze_entry db e next p)\<lparr>snThreadId := root m\<rparr>))"
    using look [of "root m" False] f(1) by (simp add: FindSnoozeByThread_def s1 e(4))
  moreover have "FindSnoozeByThread (root m) d2 = Inr None" using look2 by (simp add: FindSnoozeByThread_def)
  moreover have "FindSnoozeByThread t d2 = FindSnoozeByThread t d" if "t \<noteq> root m" for t
    using look2 look [of t False] f(1) that by (simp add: FindSnoozeByThread_def)
  moreover have "FindWatchdogByThread t d2 = FindWatchdogByThread t d" for t
    using look2 look [of t True] f(1) by (simp add: FindWatchdogByThread_def)
  ultimately show ?thesis using e(2,3) by blast
qed

definition nightly :: snooze_params where
  "nightly = \<lparr>spMessageId = ''m'', spDescription = ''backup'', spOnce = False, spCrontab = '' 0 0 * * * ''\<rparr>"

definition a_day_later :: cron where
  "a_day_later c = (if c = ''0 0 * * *'' then Inr (tm_add (minutes 1440)) else Inl (Err ''bad''))"

definition nightly_mail :: fetch where
  "nightly_mail ids = Inr [empty_email\<lparr>eMessageId := ''<m>'', eSubject := ''Backup'', eDate := utc 0\<rparr>]"

definition empty_disk :: snooze_disk where
  "empty_disk = \<lparr>skFile = Absent, skFaults = []\<rparr>"

definition nightly_disk :: snooze_disk where
  "nightly_disk = snd (snoozeEmail a_day_later (\<lambda>z. None) nightly_mail (\<lambda>i. Inr ''<m>'') (Inr nightly) empty_disk)"

lemma schedule_then_cancel_witness:
  "FindSnoozeByThread ''<m>'' nightly_disk \<noteq> Inr None \<and>
   FindSnoozeByThread ''<m>'' (snd (unsnoozeEmail (Inr ''m'') nightly_disk)) = Inr None"
proof -
  let ?s = "snoozeEmail a_day_later (\<lambda>z. None) nightly_mail (\<lambda>i. Inr ''<m>'') (Inr nightly) empty_disk"
  have "fst ?s = Inr ''Message snoozed''" by code_simp
  then have s: "?s = (Inr ''Message snoozed'', nightly_disk)" by (metis prod.collapse nightly_disk_def)
  have "fst (unsnoozeEmail (Inr (spMessageId nightly)) nightly_disk) = Inr ''Scheduled task cancelled''" by code_simp
  then have u: "unsnoozeEmail (Inr (spMessageId nightly)) nightly_disk =
      (Inr ''Scheduled task cancelled'', snd (unsnoozeEmail (Inr (spMessageId nightly)) nightly_disk))" by (metis prod.collapse)
  have i: "disk_inv (\<lambda>m. ''<m>'') empty_disk" "roots_by (\<lambda>m. ''<m>'') (\<lambda>m. Inr ''<m>'')"
    by (simp_all add: disk_inv_def empty_disk_def ReadSnoozeFile_def entries_inv_def roots_by_def)
  have n: "spMessageId nightly = ''m''" by (simp add: nightly_def)
  show ?thesis
    using schedule_then_cancel [OF s i u refl] by (auto simp: n)
qed

text \<open>
  The first run is computed from the date of the message, so a task set from an old message is due at once; and
  cancelling says it worked when no task has the given Message-Id, as when another message of the thread is named.
\<close>

theorem task_from_old_message_is_due:
  "NextSnoozed (utc (2 * 86400 * 10 ^ 9)) nightly_disk \<noteq> Inr None"
  by code_simp

theorem cancelling_reports_success_without_a_match:
  "unsnoozeEmail (Inr ''<other@x>'') nightly_disk = (Inr ''Scheduled task cancelled'', nightly_disk)"
  by code_simp

section \<open>The listing\<close>

lemma contains_sub_refl: "contains_sub s s"
  unfolding contains_sub_iff by (rule exI [of _ "[]"], rule exI [of _ "[]"]) simp

lemma contains_sub_trans: "contains_sub a b \<Longrightarrow> contains_sub b c \<Longrightarrow> contains_sub a c"
  unfolding contains_sub_iff by (metis append.assoc)

lemma contains_sub_append: "contains_sub p s \<Longrightarrow> contains_sub p (a @ s @ b)"
  unfolding contains_sub_iff by (metis append.assoc)

lemma contains_sub_join: "x \<in> set xs \<Longrightarrow> contains_sub x (join sep xs)"
proof (induction sep xs rule: join.induct)
  case (3 sep y z zs)
  have "contains_sub y (y @ sep @ join sep (z # zs))" unfolding contains_sub_iff by (metis append_Nil)
  moreover have "contains_sub x (join sep (z # zs)) \<Longrightarrow> contains_sub x (y @ sep @ join sep (z # zs))"
    unfolding contains_sub_iff by (metis append.assoc)
  ultimately show ?case using 3 by auto
qed (auto simp: contains_sub_refl)

text \<open>The bytes of an ordinary Message-Id.\<close>

definition id_byte :: "char \<Rightarrow> bool" where
  "id_byte c \<longleftrightarrow> 32 \<le> (of_char c :: nat) \<and> (of_char c :: nat) < 127 \<and> c \<noteq> dquote \<and> c \<noteq> backslash"

lemma id_byte_plain:
  assumes "id_byte c"
  shows "plain_byte c = [c]" "CHR 0xE2 \<noteq> c"
proof -
  have "32 \<le> (of_char c :: nat)" "(of_char c :: nat) < 127" "c \<noteq> dquote" "c \<noteq> backslash"
    using assms by (simp_all add: id_byte_def)
  then have "c \<noteq> CHR 0x08" "c \<noteq> CHR 0x0C" "c \<noteq> CHR 0x0A" "c \<noteq> CHR 0x0D" "c \<noteq> CHR 0x09" "CHR 0xE2 \<noteq> c" by auto
  with \<open>32 \<le> (of_char c :: nat)\<close> \<open>c \<noteq> dquote\<close> \<open>c \<noteq> backslash\<close>
  show "plain_byte c = [c]" "CHR 0xE2 \<noteq> c" by (simp_all add: plain_byte_def escape_byte_def)
qed

lemma plain_str_id: "\<forall>c\<in>set s. id_byte c \<Longrightarrow> plain_str s = s"
  by (induction s) (simp_all add: id_byte_plain)

text \<open>The listing shows every task: for every scheduled task of the file the result contains its Message-Id as it is
  written in the mail, with the angle brackets, so that it can be handed to \<open>unsnooze_tool\<close>; the tasks come in the order in
  which they are due, and watchdogs are only counted.\<close>

theorem listing_shows_every_task:
  assumes "listSnoozed db d = Inr out" "ReadSnoozeFile d = Inr xs" "s \<in> set xs" "\<not> snWatchdog s"
    "snMessageId s \<noteq> []" "\<forall>c\<in>set (snMessageId s). id_byte c"
  shows "contains_sub (dquote # snMessageId s @ [dquote]) out \<and>
    s \<in> set (scheduled_tasks xs) \<and> sorted (map (\<lambda>s. tmNanos (snUnSnooze s)) (scheduled_tasks xs)) \<and>
    (\<exists>body. out = body @ watchdog_count_note (length xs - length (scheduled_tasks xs)))"
proof -
  let ?note = "watchdog_count_note (length (filter snWatchdog xs))"
  let ?ts = "map (task_text \<circ> task_of db) (scheduled_tasks xs)"
  have mem: "s \<in> set (scheduled_tasks xs)" using assms(3,4) by (simp add: scheduled_tasks_def)
  have ne: "filter (\<lambda>s. \<not> snWatchdog s) xs \<noteq> []" using assms(3,4) by (auto simp: filter_empty_conv)
  then have out: "out = (''['' @ [nl]) @ join ('','' @ [nl]) ?ts @ ([nl] @ '']'' @ ?note)"
    using assms(1,2) by (simp add: listSnoozed_def renderScheduledTasks_def Let_def)
  have "contains_sub (quoted (snMessageId s)) (task_text (task_of db s))"
  proof -
    let ?l = "''    '' @ quoted ''message-id'' @ '': '' @ quoted (snMessageId s)"
    let ?t = "task_of db s"
    let ?ls = "member_line ''description'' (stDescription ?t) @ member_line ''subject'' (stSubject ?t) @
        member_line ''crontab'' (stCrontab ?t) @
        [''    '' @ quoted ''once'' @ '': '' @ (if stOnce ?t then ''true'' else ''false'')] @
        member_line ''next_run'' (stNextRun ?t) @ member_line ''timezone'' (stTimezone ?t) @
        member_line ''message-id'' (stMsgId ?t) @ member_line ''thread-id'' (stThreadId ?t)"
    have "?l \<in> set ?ls" using assms(5) by (simp add: member_line_def task_of_def)
    then have "contains_sub ?l (join ('','' @ [nl]) ?ls)" by (rule contains_sub_join)
    then have "contains_sub ?l (task_text ?t)"
      unfolding task_text_def using contains_sub_append [of ?l _ "''  {'' @ [nl]" "[nl] @ ''  }''"] by simp
    moreover have "contains_sub (quoted (snMessageId s)) ?l"
      unfolding contains_sub_iff by (metis append.assoc append_Nil2)
    ultimately show ?thesis by (rule contains_sub_trans [rotated])
  qed
  moreover have "contains_sub (task_text (task_of db s)) (join ('','' @ [nl]) ?ts)"
    using mem by (intro contains_sub_join) auto
  ultimately have "contains_sub (quoted (snMessageId s)) out"
    unfolding out using contains_sub_append contains_sub_trans by blast
  then have "contains_sub (dquote # snMessageId s @ [dquote]) out"
    using assms(6) by (simp add: quoted_def plain_str_id)
  moreover have "length (filter snWatchdog xs) = length xs - length (scheduled_tasks xs)"
    using sum_length_filter_compl [of snWatchdog xs] by (simp add: scheduled_tasks_def)
  ultimately show ?thesis
    using mem out by (auto simp: scheduled_tasks_def intro: exI [of _ "(''['' @ [nl]) @ join ('','' @ [nl]) ?ts @ ([nl] @ '']'')"])
qed

lemma listing_shows_every_task_witness:
  "contains_sub (dquote # ''<m>'' @ [dquote]) (case listSnoozed (\<lambda>z. None) nightly_disk of Inr out \<Rightarrow> out | Inl e \<Rightarrow> [])"
proof -
  have "is_ok (listSnoozed (\<lambda>z. None) nightly_disk)" by code_simp
  then obtain out where o: "listSnoozed (\<lambda>z. None) nightly_disk = Inr out" by (auto simp: result_iff)
  have "(case ReadSnoozeFile nightly_disk of Inr xs \<Rightarrow> map (\<lambda>s. (snMessageId s, snWatchdog s)) xs | Inl e \<Rightarrow> []) = [(''<m>'', False)]"
    by code_simp
  then obtain s where s: "ReadSnoozeFile nightly_disk = Inr [s]" "snMessageId s = ''<m>''" "\<not> snWatchdog s"
    by (auto split: sum.splits)
  have "\<forall>c\<in>set ''<m>''. id_byte c" by code_simp
  then show ?thesis using listing_shows_every_task [OF o s(1), of s] s o by simp
qed

end
