(* ===== verification/Filepath.thy ===== *)
theory Filepath
  imports Prelude
begin

text \<open>
  The lexical path functions of Go's \<open>path/filepath\<close> that the program builds file names with: cleaning, joining, the last
  element.  A path is made of the components between its slashes.
\<close>

section \<open>Cleaning and joining\<close>

text \<open>\<open>acc\<close> holds the components kept so far, the last one first; a \<open>..\<close> removes one, at the root it removes nothing.\<close>

fun clean_parts :: "bool \<Rightarrow> string list \<Rightarrow> string list \<Rightarrow> string list" where
  "clean_parts rooted acc [] = rev acc"
| "clean_parts rooted acc (p # ps) =
     (if p = [] \<or> p = ''.'' then clean_parts rooted acc ps
      else if p = ''..'' then
        (case acc of
           [] \<Rightarrow> clean_parts rooted (if rooted then [] else [p]) ps
         | a # as \<Rightarrow> if a = ''..'' then clean_parts rooted (p # acc) ps else clean_parts rooted as ps)
      else clean_parts rooted (p # acc) ps)"

definition filepath_Clean :: "string \<Rightarrow> string" where
  "filepath_Clean p =
     (let rooted = has_prefix ''/'' p; s = join ''/'' (clean_parts rooted [] (split_char (CHR ''/'') p))
      in if rooted then ''/'' @ s else if s = [] then ''.'' else s)"

definition filepath_Join :: "string list \<Rightarrow> string" where
  "filepath_Join ps =
     (let qs = dropWhile (\<lambda>p. p = []) ps in if qs = [] then [] else filepath_Clean (join ''/'' qs))"

definition filepath_Base :: "string \<Rightarrow> string" where
  "filepath_Base p =
     (if p = [] then ''.''
      else let q = trim_right (\<lambda>c. c = CHR ''/'') p
           in if q = [] then ''/'' else rev (takeWhile (\<lambda>c. c \<noteq> CHR ''/'') (rev q)))"

section \<open>Plain names\<close>

text \<open>A plain name is one component that cleaning keeps.\<close>

definition plain_name :: "string \<Rightarrow> bool" where
  "plain_name n \<longleftrightarrow> n \<noteq> [] \<and> CHR ''/'' \<notin> set n \<and> n \<noteq> ''.'' \<and> n \<noteq> ''..''"

lemma clean_parts_plain: "list_all plain_name ps \<Longrightarrow> clean_parts rooted acc ps = rev acc @ ps"
  by (induction ps arbitrary: acc) (auto simp: plain_name_def)

lemma join_eq_Nil: "join ''/'' ps = [] \<longleftrightarrow> ps = [] \<or> ps = [[]]"
  by (cases "(''/'', ps)" rule: join.cases) auto

lemma split_join_plain: "ps \<noteq> [] \<Longrightarrow> list_all plain_name ps \<Longrightarrow> split_char (CHR ''/'') (join ''/'' ps) = ps"
  by (rule split_char_join) (auto simp: list_all_iff plain_name_def)

lemma not_rooted_plain: "list_all plain_name ps \<Longrightarrow> \<not> has_prefix ''/'' (join ''/'' ps)"
  by (cases "(''/'', ps)" rule: join.cases) (auto simp: plain_name_def has_prefix_def take_Suc hd_append neq_Nil_conv)

lemma filepath_Join_plain:
  assumes "ps \<noteq> []" "list_all plain_name ps"
  shows "filepath_Join ps = join ''/'' ps"
proof -
  have "dropWhile (\<lambda>p. p = []) ps = ps" using assms by (cases ps) (auto simp: plain_name_def)
  moreover have "join ''/'' ps \<noteq> []" using assms by (auto simp: join_eq_Nil plain_name_def)
  ultimately show ?thesis
    using assms not_rooted_plain [OF assms(2)]
    by (simp add: filepath_Join_def filepath_Clean_def split_join_plain clean_parts_plain)
qed

lemma join_plain_inj:
  assumes "list_all plain_name ps" "list_all plain_name qs" "ps \<noteq> []" "qs \<noteq> []" "join ''/'' ps = join ''/'' qs"
  shows "ps = qs"
  using split_join_plain [OF assms(3,1)] split_join_plain [OF assms(4,2)] unfolding assms(5) by (rule trans [OF sym])

lemma base_no_slash: "CHR ''/'' \<notin> set n \<Longrightarrow> n \<noteq> [] \<Longrightarrow> filepath_Base n = n"
proof -
  assume n: "CHR ''/'' \<notin> set n" "n \<noteq> []"
  then have "trim_right (\<lambda>c. c = CHR ''/'') n = n" by (intro trim_right_id) (metis last_in_set)+
  moreover have "takeWhile (\<lambda>c. c \<noteq> CHR ''/'') (rev n) = rev n" using n by (auto simp: takeWhile_eq_all_conv)
  ultimately show ?thesis using n(2) by (simp only: filepath_Base_def Let_def rev_rev_ident if_False)
qed

text \<open>The last element of a path is the root, or has no slash in it.\<close>

lemma base_cases: "filepath_Base p = ''/'' \<or> CHR ''/'' \<notin> set (filepath_Base p) \<and> filepath_Base p \<noteq> []"
proof (cases "trim_right (\<lambda>c. c = CHR ''/'') p = []")
  case True
  then show ?thesis by (simp add: filepath_Base_def)
next
  case False
  let ?q = "trim_right (\<lambda>c. c = CHR ''/'') p"
  have "last ?q \<noteq> CHR ''/''" using False hd_dropWhile [of "\<lambda>c. c = CHR ''/''" "rev p"] by (simp add: trim_right_def last_rev del: dropWhile_eq_Nil_conv)
  then have "takeWhile (\<lambda>c. c \<noteq> CHR ''/'') (rev ?q) \<noteq> []"
    using False by (cases "?q" rule: rev_cases) auto
  then show ?thesis using False by (auto simp: filepath_Base_def Let_def dest: set_takeWhileD)
qed

end
