(* ===== verification/Knowledge.thy ===== *)
theory Knowledge
  imports Filepath Compose Snooze_Tools
begin

text \<open>
  The knowledge files an operator writes for the agents (\<open>scripts/configurator/knowledge.go\<close>), the page that edits them
  (\<open>handlers.go\<close>) and the signal that makes the agents read them again (\<open>reload.go\<close>).  What the configurator saves is
  compared with what the agents put into their prompts (\<open>loadKnowledge\<close>).
\<close>

section \<open>The directories\<close>

text \<open>
  The entries of a directory by its path (\<open>None\<close> when there is none), the directories that cannot be read, and the paths
  that cannot be created, written or removed.  Paths are relative to the root of the deployment.
\<close>

datatype knowledge_node = Folder | Readable string | Broken goerror

record knowledge_disk =
  kwDir :: "string \<Rightarrow> (string \<times> knowledge_node) list option"
  kwReadFault :: "string \<Rightarrow> goerror option"
  kwWriteFault :: "string \<Rightarrow> disk_fault option"
  kwRemoveFault :: "string \<Rightarrow> disk_fault option"

record knowledge_file =
  kfName :: string
  kfContent :: string

definition knowledgeDirName :: "string \<Rightarrow> string" where
  "knowledgeDirName scope =
     (let s = trim_space scope in if s = [] \<or> equal_fold s ''common'' then ''common'' else emailStem s)"

definition knowledge_path :: "string \<Rightarrow> string" where
  "knowledge_path name = filepath_Join [''configs'', ''knowledge'', name]"

definition knowledgeDir :: "string \<Rightarrow> string" where
  "knowledgeDir scope = knowledge_path (knowledgeDirName scope)"

definition knowledgeDirDisplay :: "string \<Rightarrow> string" where
  "knowledgeDirDisplay scope = ''configs/knowledge/'' @ knowledgeDirName scope"

definition with_md :: "string \<Rightarrow> string" where
  "with_md n = (if has_suffix ''.md'' (to_lower n) then n else n @ ''.md'')"

definition validKnowledgeName :: "string \<Rightarrow> string result" where
  "validKnowledgeName s =
     (if trim_space s = [] then Inl (Err ''filename is required'')
      else let n = with_md (trim_space s)
           in if n \<noteq> filepath_Base n \<or> CHR ''/'' \<in> set n \<or> backslash \<in> set n
              then Inl (Err ''filename must not contain path separators'')
              else if has_prefix ''.'' n then Inl (Err ''filename must not start with a dot'')
              else Inr n)"

section \<open>Listing\<close>

definition md_entry :: "string \<times> knowledge_node \<Rightarrow> bool" where
  "md_entry e \<longleftrightarrow> snd e \<noteq> Folder \<and> has_suffix ''.md'' (to_lower (fst e))"

fun read_entries :: "(string \<times> knowledge_node) list \<Rightarrow> knowledge_file list result" where
  "read_entries [] = Inr []"
| "read_entries ((n, node) # es) =
     (if md_entry (n, node)
      then case node of
             Broken e \<Rightarrow> Inl e
           | Readable s \<Rightarrow> and_then (read_entries es) (\<lambda>fs. Inr (\<lparr>kfName = n, kfContent = s\<rparr> # fs))
           | Folder \<Rightarrow> read_entries es
      else read_entries es)"

definition listKnowledge :: "knowledge_disk \<Rightarrow> string \<Rightarrow> knowledge_file list result" where
  "listKnowledge w scope =
     (case kwDir w (knowledgeDir scope) of
        None \<Rightarrow> Inr []
      | Some es \<Rightarrow>
          (case kwReadFault w (knowledgeDir scope) of
             Some e \<Rightarrow> Inl e
           | None \<Rightarrow> and_then (read_entries es) (\<lambda>fs. Inr (sort_key kfName fs))))"

section \<open>Saving and deleting\<close>

definition normal_content :: "string \<Rightarrow> string" where
  "normal_content c = trim_right (\<lambda>x. x = nl) (replace_all [CHR 0x0D, nl] [nl] c) @ [nl]"

definition entries_at :: "knowledge_disk \<Rightarrow> string \<Rightarrow> (string \<times> knowledge_node) list" where
  "entries_at w dir = (case kwDir w dir of None \<Rightarrow> [] | Some es \<Rightarrow> es)"

text \<open>The entry of a name; the calls \<open>os.MkdirAll\<close>, \<open>os.WriteFile\<close> and \<open>os.Remove\<close> on it.\<close>

definition node_at :: "knowledge_disk \<Rightarrow> string \<Rightarrow> string \<Rightarrow> knowledge_node option" where
  "node_at w dir n = map_of (entries_at w dir) n"

definition set_entries :: "string \<Rightarrow> (string \<times> knowledge_node) list \<Rightarrow> knowledge_disk \<Rightarrow> knowledge_disk" where
  "set_entries dir es w = w\<lparr>kwDir := (kwDir w)(dir := Some es)\<rparr>"

definition make_dir :: "string \<Rightarrow> (knowledge_disk, unit) io" where
  "make_dir dir w =
     (case kwWriteFault w dir of
        Some f \<Rightarrow> (Inl (fsWriteError dir f), w)
      | None \<Rightarrow> (ok, set_entries dir (entries_at w dir) w))"

definition write_entry :: "string \<Rightarrow> string \<Rightarrow> string \<Rightarrow> (knowledge_disk, unit) io" where
  "write_entry dir n content w =
     (let target = filepath_Join [dir, n] in
      case kwWriteFault w target of
        Some f \<Rightarrow> (Inl (fsWriteError target f), w)
      | None \<Rightarrow>
          if node_at w dir n = Some Folder then (Inl (fsWriteError target (Fault (Err ''is a directory''))), w)
          else (ok, set_entries dir (AList.update n (Readable content) (entries_at w dir)) w))"

definition remove_entry :: "string \<Rightarrow> string \<Rightarrow> (knowledge_disk, unit) io" where
  "remove_entry dir n w =
     (if node_at w dir n = None then (ok, w)
      else case kwRemoveFault w (filepath_Join [dir, n]) of
             Some f \<Rightarrow> (Inl (fsWriteError (filepath_Join [dir, n]) f), w)
           | None \<Rightarrow> (ok, set_entries dir (AList.delete n (entries_at w dir)) w))"

definition replace_entry :: "string \<Rightarrow> string \<Rightarrow> string \<Rightarrow> string \<Rightarrow> (knowledge_disk, unit) io" where
  "replace_entry dir old n content w =
     (if (old = [] \<or> old \<noteq> n) \<and> node_at w dir n \<noteq> None
      then (Inl (Err (''a file named '' @ go_quote n @ '' already exists'')), w)
      else io_bind (write_entry dir n content) (\<lambda>_ w1.
             if old \<noteq> [] \<and> old \<noteq> n \<and> is_ok (validKnowledgeName old)
             then (ok, snd (remove_entry dir old w1)) else (ok, w1)) w)"

definition saveKnowledgeFile :: "string \<Rightarrow> string \<Rightarrow> string \<Rightarrow> string \<Rightarrow> (knowledge_disk, unit) io" where
  "saveKnowledgeFile scope oldName name content w =
     (case validKnowledgeName name of
        Inl e \<Rightarrow> (Inl e, w)
      | Inr n \<Rightarrow>
          io_bind (make_dir (knowledgeDir scope)) (\<lambda>_.
            replace_entry (knowledgeDir scope) (trim_space oldName) n (normal_content content)) w)"

definition deleteKnowledgeFile :: "string \<Rightarrow> string \<Rightarrow> (knowledge_disk, unit) io" where
  "deleteKnowledgeFile scope name w =
     (case validKnowledgeName name of Inl e \<Rightarrow> (Inl e, w) | Inr n \<Rightarrow> remove_entry (knowledgeDir scope) n w)"

section \<open>Signals to the agents\<close>

definition service_keys :: "(compose_service \<Rightarrow> bool) \<Rightarrow> compose_service list \<Rightarrow> string list" where
  "service_keys P svcs = map csKey (filter P svcs)"

definition knowledgeReloadTargets :: "yaml \<Rightarrow> conf_disk \<Rightarrow> string \<Rightarrow> string list result" where
  "knowledgeReloadTargets ya d scope =
     and_then (composeServices ya d) (\<lambda>svcs.
       if knowledgeDirName scope = ''common'' then Inr (map csKey svcs)
       else case find (\<lambda>s. csStem s = emailStem scope) svcs of
              Some s \<Rightarrow> Inr [csKey s]
            | None \<Rightarrow> Inr [])"

text \<open>
  The docker command line: whether it is on the path, and the error of \<open>docker compose kill\<close>.  The second component of the
  outcome is the services docker was asked to signal.
\<close>

record docker =
  dkOnPath :: bool
  dkKill :: "string list \<Rightarrow> goerror option"

definition signalServices :: "docker \<Rightarrow> conf_disk \<Rightarrow> string list \<Rightarrow> nat result \<times> string list" where
  "signalServices dk d targets =
     (if targets = [] \<or> \<not> dkOnPath dk \<or> cdCompose d = Absent then (Inr 0, [])
      else case dkKill dk targets of Some e \<Rightarrow> (Inl e, targets) | None \<Rightarrow> (Inr (length targets), targets))"

definition signalKnowledgeReload :: "yaml \<Rightarrow> docker \<Rightarrow> conf_disk \<Rightarrow> string \<Rightarrow> nat result \<times> string list" where
  "signalKnowledgeReload ya dk d scope =
     (case knowledgeReloadTargets ya d scope of Inl e \<Rightarrow> (Inl e, []) | Inr ts \<Rightarrow> signalServices dk d ts)"

definition signalAgentsReload :: "yaml \<Rightarrow> docker \<Rightarrow> conf_disk \<Rightarrow> string list \<Rightarrow> nat result \<times> string list" where
  "signalAgentsReload ya dk d emails =
     (case composeServices ya d of
        Inl e \<Rightarrow> (Inl e, [])
      | Inr svcs \<Rightarrow> signalServices dk d (service_keys (\<lambda>s. csStem s \<in> set (map emailStem emails)) svcs))"

definition spaced_dash :: string where "spaced_dash = '' '' @ em_dash @ '' ''"

definition reloadNote :: "yaml \<Rightarrow> docker \<Rightarrow> conf_disk \<Rightarrow> string list \<Rightarrow> string \<Rightarrow> string" where
  "reloadNote ya dk d emails what =
     (case fst (signalAgentsReload ya dk d emails) of
        Inl e \<Rightarrow> spaced_dash @ ''agents reload '' @ what @ '' within ~30s (live-reload signal failed: '' @ err_text e @ '')''
      | Inr n \<Rightarrow>
          if n > 0 then spaced_dash @ ''signaled '' @ show_nat n @ '' agent(s) to reload '' @ what @ '' now''
          else spaced_dash @ ''agents reload '' @ what @ '' within ~30s'')"

definition knowledgeReloadNote :: "yaml \<Rightarrow> docker \<Rightarrow> conf_disk \<Rightarrow> string \<Rightarrow> string" where
  "knowledgeReloadNote ya dk d scope =
     (case fst (signalKnowledgeReload ya dk d scope) of
        Inl e \<Rightarrow> spaced_dash @ ''agents reload within ~30s (live-reload signal failed: '' @ err_text e @ '')''
      | Inr n \<Rightarrow>
          if n > 0 then spaced_dash @ ''signaled '' @ show_nat n @ '' agent(s) to reload now''
          else spaced_dash @ ''agents reload within ~30s'')"

section \<open>The page\<close>

record knowledge_view =
  kvScope :: string
  kvTitle :: string
  kvDir :: string
  kvFiles :: "knowledge_file list"
  kvDraft :: knowledge_file
  kvFlash :: string
  kvFlashKind :: string

definition no_file :: knowledge_file where "no_file = \<lparr>kfName = [], kfContent = []\<rparr>"

definition buildKnowledgeView :: "knowledge_disk \<Rightarrow> string \<Rightarrow> knowledge_view" where
  "buildKnowledgeView w scope =
     (let v = \<lparr>kvScope = scope,
               kvTitle = (if knowledgeDirName scope = ''common'' then ''Common knowledge'' else ''Agent knowledge''),
               kvDir = knowledgeDirDisplay scope, kvFiles = [], kvDraft = no_file, kvFlash = [], kvFlashKind = []\<rparr>
      in case listKnowledge w scope of
           Inl e \<Rightarrow> v\<lparr>kvFlash := ''Could not read knowledge files: '' @ err_text e, kvFlashKind := ''error''\<rparr>
         | Inr fs \<Rightarrow> v\<lparr>kvFiles := fs\<rparr>)"

text \<open>The first file of the given name is shown with the text that could not be saved.\<close>

fun put_back :: "string \<Rightarrow> knowledge_file \<Rightarrow> knowledge_file list \<Rightarrow> knowledge_file list" where
  "put_back old f [] = []"
| "put_back old f (g # gs) = (if kfName g = old then f # gs else g # put_back old f gs)"

definition handleKnowledgeSave ::
  "yaml \<Rightarrow> docker \<Rightarrow> conf_disk \<Rightarrow> string \<Rightarrow> string \<Rightarrow> string \<Rightarrow> string \<Rightarrow> knowledge_disk \<Rightarrow> knowledge_view \<times> knowledge_disk" where
  "handleKnowledgeSave ya dk d scope oldName name content w =
     (let (r, w1) = saveKnowledgeFile scope oldName name content w;
          v = buildKnowledgeView w1 scope;
          f = \<lparr>kfName = name, kfContent = content\<rparr>
      in (case r of
            Inl e \<Rightarrow>
              (if trim_space oldName = [] then v\<lparr>kvDraft := f\<rparr> else v\<lparr>kvFiles := put_back oldName f (kvFiles v)\<rparr>)
                \<lparr>kvFlash := ''Save failed: '' @ err_text e, kvFlashKind := ''error''\<rparr>
          | Inr _ \<Rightarrow>
              v\<lparr>kvFlash := ''Saved '' @ kvDir v @ ''/'' @
                    (case validKnowledgeName name of Inr n \<Rightarrow> n | Inl _ \<Rightarrow> name) @ knowledgeReloadNote ya dk d scope,
                kvFlashKind := ''success''\<rparr>,
          w1))"

definition handleKnowledgeDelete ::
  "yaml \<Rightarrow> docker \<Rightarrow> conf_disk \<Rightarrow> string \<Rightarrow> string \<Rightarrow> knowledge_disk \<Rightarrow> knowledge_view \<times> knowledge_disk" where
  "handleKnowledgeDelete ya dk d scope name w =
     (let (r, w1) = deleteKnowledgeFile scope name w; v = buildKnowledgeView w1 scope
      in (case r of
            Inl e \<Rightarrow> v\<lparr>kvFlash := ''Delete failed: '' @ err_text e, kvFlashKind := ''error''\<rparr>
          | Inr _ \<Rightarrow>
              v\<lparr>kvFlash := ''Deleted '' @ name @ knowledgeReloadNote ya dk d scope, kvFlashKind := ''success''\<rparr>,
          w1))"

section \<open>Names\<close>

lemma md_suffix [simp]: "has_suffix ''.md'' (to_lower (with_md n))"
proof -
  have "has_suffix ''.md'' (to_lower n @ ''.md'')" by (auto simp: has_suffix_iff)
  then show ?thesis by (simp add: with_md_def lower_char_def is_upper_def)
qed

lemma with_md_nonempty [simp]: "with_md n \<noteq> []"
  using md_suffix [of n] by (auto simp: has_suffix_iff)

lemma with_md_idem [simp]: "with_md (with_md n) = with_md n"
  using md_suffix [of n] by (simp add: with_md_def [of "with_md n"])

lemma validKnowledgeName_iff:
  "validKnowledgeName s = Inr n \<longleftrightarrow>
     trim_space s \<noteq> [] \<and> n = with_md (trim_space s) \<and> CHR ''/'' \<notin> set n \<and> backslash \<notin> set n \<and> \<not> has_prefix ''.'' n"
proof (cases "CHR ''/'' \<in> set (with_md (trim_space s))")
  case True
  then show ?thesis by (auto simp: validKnowledgeName_def Let_def)
next
  case False
  then have "filepath_Base (with_md (trim_space s)) = with_md (trim_space s)" by (intro base_no_slash) auto
  with False show ?thesis by (auto simp: validKnowledgeName_def Let_def)
qed

lemma valid_name_plain: "validKnowledgeName s = Inr n \<Longrightarrow> plain_name n"
  by (auto simp: validKnowledgeName_iff plain_name_def)

lemma with_md_trim: "trim_space (with_md (trim_space s)) = with_md (trim_space s)" if "trim_space s \<noteq> []"
proof (rule trim_by_id)
  have d: "\<not> is_space (CHR ''d'')" by code_simp
  show "\<not> is_space (hd (with_md (trim_space s)))" "\<not> is_space (last (with_md (trim_space s)))"
    using that hd_trim_by [of is_space s] last_trim_by [of is_space s] d by (auto simp: with_md_def)
qed simp

text \<open>An accepted name is accepted as it is from then on.\<close>

lemma valid_name_stable: "validKnowledgeName s = Inr n \<Longrightarrow> validKnowledgeName n = Inr n"
  by (auto simp: validKnowledgeName_iff with_md_trim)

lemma knowledge_path_plain: "plain_name d \<Longrightarrow> knowledge_path d = ''configs/knowledge/'' @ d"
  using filepath_Join_plain [of "[''configs'', ''knowledge'', d]"]
  by (simp add: knowledge_path_def) (simp add: plain_name_def)

lemma knowledge_path_inj:
  "plain_name a \<Longrightarrow> plain_name b \<Longrightarrow> knowledge_path a = knowledge_path b \<longleftrightarrow> a = b"
  by (simp add: knowledge_path_plain)

lemma common_plain [simp]: "plain_name ''common''"
  by (simp add: plain_name_def)

section \<open>What a save changes\<close>

lemma node_at_set_entries:
  "node_at (set_entries d es w) dir n = (if dir = d then map_of es n else node_at w dir n)"
  by (simp add: node_at_def entries_at_def set_entries_def)

lemma node_at_entries: "node_at w dir = map_of (entries_at w dir)"
  by (simp add: node_at_def fun_eq_iff)

lemma make_dir_nodes: "make_dir d w = (r, w') \<Longrightarrow> node_at w' dir n = node_at w dir n"
  by (auto simp: make_dir_def node_at_set_entries simp flip: node_at_entries split: option.splits)

lemma remove_entry_nodes:
  "remove_entry d m w = (r, w') \<Longrightarrow>
     node_at w' dir n = (if r = ok \<and> dir = d \<and> n = m then None else node_at w dir n)"
  by (auto simp: remove_entry_def node_at_set_entries delete_conv' Let_def simp flip: node_at_entries split: option.splits if_splits)

lemma write_entry_nodes:
  "write_entry d m c w = (r, w') \<Longrightarrow>
     node_at w' dir n = (if r = ok \<and> dir = d \<and> n = m then Some (Readable c) else node_at w dir n)"
  by (auto simp: write_entry_def node_at_set_entries update_conv' Let_def simp flip: node_at_entries split: option.splits if_splits)

lemma replace_entry_nodes:
  assumes "replace_entry d old m c w = (r, w')"
  shows "node_at w' dir n =
    (if r = ok \<and> dir = d \<and> n = m then Some (Readable c)
     else if r = ok \<and> dir = d \<and> n = old \<and> old \<noteq> [] \<and> is_ok (validKnowledgeName old) \<and>
             fst (remove_entry d old (snd (write_entry d m c w))) = ok then None
     else node_at w dir n)"
proof (cases "(old = [] \<or> old \<noteq> m) \<and> node_at w d m \<noteq> None")
  case True
  then show ?thesis using assms by (auto simp: replace_entry_def)
next
  case False
  obtain r1 w1 where 1: "write_entry d m c w = (r1, w1)" by fastforce
  obtain r2 w2 where 2: "remove_entry d old w1 = (r2, w2)" by fastforce
  have *: "(case r1 of Inl e \<Rightarrow> (Inl e, w1)
      | Inr _ \<Rightarrow> if old \<noteq> [] \<and> old \<noteq> m \<and> is_ok (validKnowledgeName old) then (ok, w2) else (ok, w1)) = (r, w')"
    using assms 1 2 unfolding replace_entry_def if_not_P [OF False]
    by (cases r1) (auto simp: io_bind_def split: if_splits)
  show ?thesis
    using * write_entry_nodes [OF 1, of dir n] remove_entry_nodes [OF 2, of dir n] 1 2
    by (cases r1) (auto split: if_splits)
qed

text \<open>A file that is not the one being saved keeps its content, on every outcome; only a rename takes the old name away.\<close>

lemma save_changes_only:
  assumes "saveKnowledgeFile scope old name content w = (r, w')"
    and "node_at w dir n = Some node"
    and "dir \<noteq> knowledgeDir scope \<or> n \<noteq> trim_space old"
  shows "node_at w' dir n = Some node"
proof (cases "validKnowledgeName name")
  case (Inl e)
  then show ?thesis using assms by (simp add: saveKnowledgeFile_def)
next
  case (Inr m)
  let ?d = "knowledgeDir scope" and ?c = "normal_content content"
  obtain r1 w1 where 1: "make_dir ?d w = (r1, w1)" by fastforce
  have n1: "node_at w1 dir n = Some node" using make_dir_nodes [OF 1] assms(2) by simp
  show ?thesis
  proof (cases r1)
    case (Inl e)
    then show ?thesis using assms(1) Inr 1 n1 by (simp add: saveKnowledgeFile_def io_bind_def)
  next
    case (Inr u)
    then have 2: "replace_entry ?d (trim_space old) m ?c w1 = (r, w')"
      using assms(1) \<open>validKnowledgeName name = Inr m\<close> 1 by (simp add: saveKnowledgeFile_def io_bind_def)
    have "\<not> (r = ok \<and> dir = ?d \<and> n = m)"
    proof
      assume a: "r = ok \<and> dir = ?d \<and> n = m"
      then have "node_at w1 ?d m \<noteq> None" using n1 by simp
      then have "m = trim_space old" using 2 a by (auto simp: replace_entry_def split: if_splits)
      then show False using assms(3) a by simp
    qed
    then show ?thesis using replace_entry_nodes [OF 2, of dir n] assms(3) n1 by auto
  qed
qed

lemma save_success:
  assumes "saveKnowledgeFile scope old name content w = (Inr u, w')"
  obtains m where "validKnowledgeName name = Inr m"
    and "node_at w' (knowledgeDir scope) m = Some (Readable (normal_content content))"
    and "node_at w (knowledgeDir scope) m \<noteq> None \<Longrightarrow> trim_space old = m"
proof -
  let ?d = "knowledgeDir scope" and ?c = "normal_content content"
  obtain m where m: "validKnowledgeName name = Inr m"
    using assms by (cases "validKnowledgeName name") (auto simp: saveKnowledgeFile_def)
  obtain u1 w1 where 1: "make_dir ?d w = (Inr u1, w1)"
    and 2: "replace_entry ?d (trim_space old) m ?c w1 = (Inr u, w')"
    using assms m by (auto simp: saveKnowledgeFile_def io_bind_def split: prod.splits sum.splits)
  have "node_at w' ?d m = Some (Readable ?c)" using replace_entry_nodes [OF 2, of ?d m] by simp
  moreover have "trim_space old = m" if "node_at w ?d m \<noteq> None"
    using that 2 make_dir_nodes [OF 1, of ?d m] by (auto simp: replace_entry_def split: if_splits)
  ultimately show ?thesis using that m by blast
qed

section \<open>What the agents read\<close>

text \<open>The same files as the agent sees them; \<open>dt\<close> and \<open>ft\<close> are the times of directories and files.\<close>

definition agent_view ::
  "(string \<Rightarrow> gotime option) \<Rightarrow> (string \<Rightarrow> string \<Rightarrow> gotime option) \<Rightarrow> knowledge_disk \<Rightarrow> knowledge_dir" where
  "agent_view dt ft w =
     \<lparr>kdEntries = (\<lambda>d. if kwReadFault w (knowledge_path d) \<noteq> None then None
                        else map_option (map (\<lambda>(n, node). (n, node = Folder))) (kwDir w (knowledge_path d))),
      kdRead = (\<lambda>d n. case node_at w (knowledge_path d) n of Some (Readable s) \<Rightarrow> Some s | _ \<Rightarrow> None),
      kdDirTime = dt, kdFileTime = ft\<rparr>"

lemma save_changes_one_dir:
  assumes "saveKnowledgeFile scope old name content w = (r, w')"
  obtains x where "w' = w\<lparr>kwDir := (kwDir w)(knowledgeDir scope := x)\<rparr>"
proof -
  define same where "same w1 \<longleftrightarrow> (\<exists>x. w1 = w\<lparr>kwDir := (kwDir w)(knowledgeDir scope := x)\<rparr>)" for w1
  have s0: "same w" unfolding same_def by (rule exI [of _ "kwDir w (knowledgeDir scope)"]) simp
  have s1: "same w1 \<Longrightarrow> same (set_entries (knowledgeDir scope) es w1)" for w1 es
    by (auto simp: same_def set_entries_def)
  have "same w'"
    using assms s0 s1
    by (auto simp: saveKnowledgeFile_def make_dir_def replace_entry_def write_entry_def remove_entry_def io_bind_def Let_def
             split: sum.splits option.splits if_splits)
  then show ?thesis using that by (auto simp: same_def)
qed

lemma sections_other_dir:
  assumes "saveKnowledgeFile scope old name content w = (r, w')" "knowledge_path d \<noteq> knowledgeDir scope"
  shows "knowledge_sections (agent_view dt ft w') d = knowledge_sections (agent_view dt ft w) d"
proof -
  obtain x where x: "w' = w\<lparr>kwDir := (kwDir w)(knowledgeDir scope := x)\<rparr>" by (rule save_changes_one_dir [OF assms(1)])
  have "node_at w' (knowledge_path d) n = node_at w (knowledge_path d) n" for n
    using assms(2) by (simp add: x node_at_def entries_at_def)
  then show ?thesis using assms(2) by (simp add: knowledge_sections_def md_files_def agent_view_def x)
qed

lemma other_agents_knowledge:
  assumes "saveKnowledgeFile scope old name content w = (r, w')"
    and "list_all (\<lambda>d. knowledge_path d \<noteq> knowledgeDir scope) (knowledge_dirs key)"
  shows "loadKnowledge (agent_view dt ft w') key = loadKnowledge (agent_view dt ft w) key"
proof -
  have "map (knowledge_sections (agent_view dt ft w')) (knowledge_dirs key) =
    map (knowledge_sections (agent_view dt ft w)) (knowledge_dirs key)"
    using assms(2) by (auto simp: list_all_iff intro!: sections_other_dir [OF assms(1)])
  then show ?thesis by (simp only: loadKnowledge_def)
qed

lemma section_of_file:
  assumes "node_at w (knowledge_path d) n = Some (Readable c)" "kwReadFault w (knowledge_path d) = None"
    "has_suffix ''.md'' n" "trim_space c \<noteq> []"
  shows "trim_space c \<in> set (knowledge_sections (agent_view dt ft w) d)"
proof -
  obtain es where es: "kwDir w (knowledge_path d) = Some es" "map_of es n = Some (Readable c)"
    using assms(1) by (auto simp: node_at_def entries_at_def split: option.splits)
  have "n \<in> set (md_files (agent_view dt ft w) d)"
    using assms(2,3) es map_of_SomeD [OF es(2)]
    by (force simp: md_files_def agent_view_def)
  moreover have "kdRead (agent_view dt ft w) d n = Some c" using assms(1) by (simp add: agent_view_def)
  ultimately show ?thesis
    using assms(4) by (force simp: knowledge_sections_def map_filter_def image_iff)
qed

lemma section_in_knowledge:
  assumes "s \<in> set (knowledge_sections kd d)" "d \<in> set (knowledge_dirs key)"
  shows "contains_sub s (loadKnowledge kd key)"
  unfolding loadKnowledge_def using assms by (intro contains_sub_join) auto

lemma read_entries_member:
  "read_entries es = Inr fs \<Longrightarrow> (n, Readable c) \<in> set es \<Longrightarrow> has_suffix ''.md'' (to_lower n) \<Longrightarrow>
     \<lparr>kfName = n, kfContent = c\<rparr> \<in> set fs"
proof (induction es arbitrary: fs rule: read_entries.induct)
  case (2 m node es)
  then show ?case by (auto simp: md_entry_def and_then_def split: if_splits knowledge_node.splits sum.splits)
qed simp

lemma listed_file:
  assumes "listKnowledge w scope = Inr fs" "node_at w (knowledgeDir scope) n = Some (Readable c)"
    "has_suffix ''.md'' (to_lower n)"
  shows "\<lparr>kfName = n, kfContent = c\<rparr> \<in> set fs"
proof -
  obtain es where es: "kwDir w (knowledgeDir scope) = Some es" "map_of es n = Some (Readable c)"
    using assms(2) by (auto simp: node_at_def entries_at_def split: option.splits)
  obtain gs where "read_entries es = Inr gs" "fs = sort_key kfName gs"
    using assms(1) es(1) by (auto simp: listKnowledge_def and_then_def split: option.splits sum.splits)
  then show ?thesis using read_entries_member [of es gs n c] map_of_SomeD [OF es(2)] assms(3) by simp
qed

text \<open>A directory can be listed when none of its markdown files is broken; a save leaves it so.\<close>

definition listable :: "knowledge_disk \<Rightarrow> string \<Rightarrow> bool" where
  "listable w dir \<longleftrightarrow> (\<forall>n e. (n, Broken e) \<in> set (entries_at w dir) \<longrightarrow> \<not> md_entry (n, Broken e))"

lemma read_entries_ok:
  "is_ok (read_entries es) \<longleftrightarrow> (\<forall>n e. (n, Broken e) \<in> set es \<longrightarrow> \<not> md_entry (n, Broken e))"
proof (induction es rule: read_entries.induct)
  case (2 n node es)
  then show ?case by (cases node) (auto simp: and_then_def is_ok_iff split: sum.splits)
qed (simp add: is_ok_iff)

lemma list_ok:
  "kwReadFault w (knowledgeDir scope) = None \<Longrightarrow> is_ok (listKnowledge w scope) \<longleftrightarrow> listable w (knowledgeDir scope)"
  using read_entries_ok [of "entries_at w (knowledgeDir scope)"]
  by (auto simp: listKnowledge_def listable_def entries_at_def is_ok_iff and_then_def split: option.splits sum.splits)

lemma set_update_entries: "set (AList.update n v es) \<subseteq> insert (n, v) (set es)"
  by (induction es) auto

lemma entry_calls_listable:
  assumes "listable w d"
  shows "listable (snd (make_dir d w)) d" "listable (snd (write_entry d n c w)) d" "listable (snd (remove_entry d n w)) d"
    "listable (snd (replace_entry d old n c w)) d"
proof -
  have e: "entries_at (set_entries d es v) d = es" for es v by (simp add: entries_at_def set_entries_def)
  have w: "listable (snd (write_entry d n c v)) d" if "listable v d" for v
    using that set_update_entries [of n "Readable c" "entries_at v d"]
    by (fastforce simp: write_entry_def Let_def listable_def e split: option.split)
  have r: "listable (snd (remove_entry d m v)) d" if "listable v d" for v m
    using that by (auto simp: remove_entry_def listable_def e AList.delete_eq split: option.split)
  show "listable (snd (make_dir d w)) d" using assms by (simp add: make_dir_def listable_def e split: option.split)
  show "listable (snd (write_entry d n c w)) d" "listable (snd (remove_entry d n w)) d" using assms w r by simp_all
  obtain x v where "write_entry d n c w = (x, v)" by fastforce
  with w [OF assms] r [of v old] show "listable (snd (replace_entry d old n c w)) d"
    using assms by (simp add: replace_entry_def io_bind_def split: sum.split)
qed

lemma save_listable:
  assumes "saveKnowledgeFile scope old name content w = (r, w')" "listable w (knowledgeDir scope)"
  shows "listable w' (knowledgeDir scope)"
proof (cases "validKnowledgeName name")
  case (Inr n)
  obtain x v where m: "make_dir (knowledgeDir scope) w = (x, v)" by fastforce
  then have "listable v (knowledgeDir scope)" using entry_calls_listable(1) [OF assms(2)] by simp
  from entry_calls_listable(4) [OF this] m Inr assms(1) this show ?thesis
    by (auto simp: saveKnowledgeFile_def io_bind_def split: sum.splits) (metis snd_conv)
qed (use assms in \<open>simp add: saveKnowledgeFile_def\<close>)

text \<open>C24. A knowledge file is saved under a name that ends in \<open>.md\<close> as the agents spell it, with a text that is not blank, into a
  directory that can be read.  Then it is part of the prompt of every agent that reads the directory; it is listed again
  when the directory could be listed before; and the knowledge of agents that do not read the directory stays what it was.\<close>

theorem saved_knowledge_reaches_the_agent:
  assumes "saveKnowledgeFile scope old name content w = (Inr u, w')" "kwReadFault w (knowledgeDir scope) = None"
    and "validKnowledgeName name = Inr n" "has_suffix ''.md'' n" "trim_space (normal_content content) \<noteq> []"
  shows "(is_ok (listKnowledge w scope) \<longrightarrow>
      (\<exists>fs. listKnowledge w' scope = Inr fs \<and> \<lparr>kfName = n, kfContent = normal_content content\<rparr> \<in> set fs)) \<and>
    (\<forall>key. knowledgeDirName scope \<in> set (knowledge_dirs key) \<longrightarrow>
       contains_sub (trim_space (normal_content content)) (loadKnowledge (agent_view dt ft w') key)) \<and>
    (\<forall>key. list_all (\<lambda>d. knowledge_path d \<noteq> knowledgeDir scope) (knowledge_dirs key) \<longrightarrow>
       loadKnowledge (agent_view dt ft w') key = loadKnowledge (agent_view dt ft w) key)"
proof -
  obtain m where m: "validKnowledgeName name = Inr m"
    "node_at w' (knowledgeDir scope) m = Some (Readable (normal_content content))"
    by (rule save_success [OF assms(1)])
  then have n: "node_at w' (knowledge_path (knowledgeDirName scope)) n = Some (Readable (normal_content content))"
    using assms(3) by (simp add: knowledgeDir_def)
  obtain x where "w' = w\<lparr>kwDir := (kwDir w)(knowledgeDir scope := x)\<rparr>" by (rule save_changes_one_dir [OF assms(1)])
  then have fault: "kwReadFault w' (knowledgeDir scope) = None" using assms(2) by simp
  then have s: "trim_space (normal_content content) \<in> set (knowledge_sections (agent_view dt ft w') (knowledgeDirName scope))"
    using section_of_file [OF n _ assms(4,5)] by (simp add: knowledgeDir_def)
  have md: "has_suffix ''.md'' (to_lower n)" using assms(3) by (auto simp: validKnowledgeName_iff)
  have "\<exists>fs. listKnowledge w' scope = Inr fs \<and> \<lparr>kfName = n, kfContent = normal_content content\<rparr> \<in> set fs"
    if "is_ok (listKnowledge w scope)"
  proof -
    have "listable w' (knowledgeDir scope)" using that save_listable [OF assms(1)] list_ok [OF assms(2)] by simp
    then obtain fs where fs: "listKnowledge w' scope = Inr fs" using list_ok [OF fault] by (auto simp: is_ok_iff)
    from listed_file [OF fs _ md] n fs show ?thesis by (auto simp: knowledgeDir_def)
  qed
  then show ?thesis
    using section_in_knowledge [OF s] other_agents_knowledge [OF assms(1)] by blast
qed

definition knowledge_sample :: knowledge_disk where
  "knowledge_sample =
     \<lparr>kwDir = [''configs/knowledge/common'' \<mapsto> [(''01_team.md'', Readable (''We are three.'' @ [nl]))]],
      kwReadFault = (\<lambda>d. None), kwWriteFault = (\<lambda>p. None), kwRemoveFault = (\<lambda>p. None)\<rparr>"

definition after_save :: "string \<Rightarrow> string \<Rightarrow> string \<Rightarrow> string \<Rightarrow> knowledge_disk" where
  "after_save scope old name content = snd (saveKnowledgeFile scope old name content knowledge_sample)"

lemma saved_knowledge_reaches_the_agent_witness:
  "(\<exists>fs. listKnowledge (after_save ''Ann@x.org'' [] ''02_ask'' (''Ask Bo.'' @ [CHR 0x0D, nl, nl])) ''Ann@x.org'' = Inr fs \<and>
     \<lparr>kfName = ''02_ask.md'', kfContent = ''Ask Bo.'' @ [nl]\<rparr> \<in> set fs) \<and>
   contains_sub ''Ask Bo.'' (loadKnowledge (agent_view (\<lambda>d. None) (\<lambda>d n. None)
     (after_save ''Ann@x.org'' [] ''02_ask'' (''Ask Bo.'' @ [CHR 0x0D, nl, nl]))) ''ann'') \<and>
   loadKnowledge (agent_view (\<lambda>d. None) (\<lambda>d n. None)
     (after_save ''Ann@x.org'' [] ''02_ask'' (''Ask Bo.'' @ [CHR 0x0D, nl, nl]))) ''bo'' = ''We are three.''"
proof -
  let ?c = "''Ask Bo.'' @ [CHR 0x0D, nl, nl]" and ?av = "agent_view (\<lambda>d. None) (\<lambda>d n. None)"
  have f: "fst (saveKnowledgeFile ''Ann@x.org'' [] ''02_ask'' ?c knowledge_sample) = ok"
    "kwReadFault knowledge_sample (knowledgeDir ''Ann@x.org'') = None" "validKnowledgeName ''02_ask'' = Inr ''02_ask.md''"
    "has_suffix ''.md'' ''02_ask.md''" "trim_space (normal_content ?c) = ''Ask Bo.''" "trim_space (normal_content ?c) \<noteq> []"
    "knowledgeDirName ''Ann@x.org'' \<in> set (knowledge_dirs ''ann'')"
    "list_all (\<lambda>d. knowledge_path d \<noteq> knowledgeDir ''Ann@x.org'') (knowledge_dirs ''bo'')"
    "loadKnowledge (?av knowledge_sample) ''bo'' = ''We are three.''"
    "is_ok (listKnowledge knowledge_sample ''Ann@x.org'')" "normal_content ?c = ''Ask Bo.'' @ [nl]"
    by code_simp+
  have s: "saveKnowledgeFile ''Ann@x.org'' [] ''02_ask'' ?c knowledge_sample = (ok, after_save ''Ann@x.org'' [] ''02_ask'' ?c)"
    using f(1) unfolding after_save_def by (metis prod.collapse)
  show ?thesis
    using saved_knowledge_reaches_the_agent [OF s f(2,3,4,6), of "\<lambda>d. None" "\<lambda>d n. None"] f(5,7,8,9,10,11) by simp
qed

text \<open>C25. Saving a knowledge file never destroys another one: whatever the outcome, every file that is not the one named as edited keeps its
  content, and a save over an existing file only succeeds when that file is the edited one.\<close>

theorem save_never_clobbers:
  assumes "saveKnowledgeFile scope old name content w = (r, w')"
    and "node_at w dir n = Some node" "dir \<noteq> knowledgeDir scope \<or> n \<noteq> trim_space old"
  shows "node_at w' dir n = Some node \<and>
    (dir = knowledgeDir scope \<and> n = with_md (trim_space name) \<longrightarrow> r \<noteq> ok)"
proof
  show "node_at w' dir n = Some node" by (rule save_changes_only [OF assms])
  show "dir = knowledgeDir scope \<and> n = with_md (trim_space name) \<longrightarrow> r \<noteq> ok"
  proof (intro impI notI)
    assume a: "dir = knowledgeDir scope \<and> n = with_md (trim_space name)" "r = ok"
    then obtain m where "validKnowledgeName name = Inr m" "node_at w (knowledgeDir scope) m \<noteq> None \<Longrightarrow> trim_space old = m"
      using save_success [of scope old name content w "()" w'] assms(1) by metis
    then show False using a assms(2,3) by (auto simp: validKnowledgeName_iff)
  qed
qed

lemma save_never_clobbers_witness:
  "node_at (after_save [] [] ''01_team.md'' ''New'') ''configs/knowledge/common'' ''01_team.md'' =
     Some (Readable (''We are three.'' @ [nl])) \<and>
   fst (saveKnowledgeFile [] [] ''01_team.md'' ''New'' knowledge_sample) \<noteq> ok"
proof -
  let ?r = "fst (saveKnowledgeFile [] [] ''01_team.md'' ''New'' knowledge_sample)"
  have s: "saveKnowledgeFile [] [] ''01_team.md'' ''New'' knowledge_sample = (?r, after_save [] [] ''01_team.md'' ''New'')"
    unfolding after_save_def by simp
  have f: "node_at knowledge_sample ''configs/knowledge/common'' ''01_team.md'' = Some (Readable (''We are three.'' @ [nl]))"
    "''configs/knowledge/common'' \<noteq> knowledgeDir [] \<or> ''01_team.md'' \<noteq> trim_space []"
    "''configs/knowledge/common'' = knowledgeDir [] \<and> ''01_team.md'' = with_md (trim_space ''01_team.md'')"
    by code_simp+
  show ?thesis using save_never_clobbers [OF s f(1,2)] f(3) by blast
qed

text \<open>The list accepts an ending in capitals, the agents do not: such a file is listed as saved but read by nobody.\<close>

theorem capital_ending_is_not_read:
  "map kfName (case listKnowledge (after_save [] [] ''02_ASK.MD'' ''Ask Bo.'') [] of Inr fs \<Rightarrow> fs | Inl e \<Rightarrow> []) =
     [''01_team.md'', ''02_ASK.MD''] \<and>
   loadKnowledge (agent_view (\<lambda>d. None) (\<lambda>d n. None) (after_save [] [] ''02_ASK.MD'' ''Ask Bo.'')) ''ann'' = ''We are three.''"
  by code_simp

text \<open>The name of a file is checked, the scope is not: it can lead out of the knowledge directory.\<close>

theorem scope_leaves_the_directory: "knowledgeDir ''../../services@x.org'' = ''services''"
  by code_simp

section \<open>Who is told to read again\<close>

lemma name_services_stems:
  "map (\<lambda>s. (csStem s, csEmail s)) (name_services used as) = map (\<lambda>a. (asStem a, asEmail a)) as"
  by (induction as arbitrary: used) (simp_all add: Let_def)

lemma service_stem:
  assumes "composeServices ya d = Inr svcs" "s \<in> set svcs"
  shows "csStem s = emailStem (csEmail s) \<and> csEmail s \<noteq> []"
proof -
  obtain as where as: "listAgents ya d = Inr as" "svcs = sort_key csKey (name_services (\<lambda>n. 0) as)"
    using assms(1) by (auto simp: composeServices_def and_then_def wrap_err_def split: sum.splits)
  have "(csStem s, csEmail s) \<in> set (map (\<lambda>s. (csStem s, csEmail s)) (name_services (\<lambda>n. 0) as))"
    using assms(2) as(2) by auto
  then have "(csStem s, csEmail s) \<in> (\<lambda>a. (asStem a, asEmail a)) ` set as" by (simp add: name_services_stems)
  moreover have "\<forall>a \<in> set as. asStem a = emailStem (asEmail a) \<and> asEmail a \<noteq> []"
    using as(1) by (auto simp: listAgents_def and_then_def split: sum.splits)
  ultimately show ?thesis by auto
qed

lemma index_char_lower: "index_char (CHR ''@'') (to_lower e) = index_char (CHR ''@'') e"
proof (induction e)
  case (Cons c e)
  have "lower_char c = CHR ''@'' \<longleftrightarrow> c = CHR ''@''" by (rule lower_char_fixed) (simp_all add: is_upper_def is_lower_def)
  with Cons show ?case by simp
qed simp

lemma take_to_lower: "take i (to_lower e) = to_lower (take i e)"
  by (simp add: to_lower_def take_map)

text \<open>The key an agent looks its knowledge up under is the stem the configurator names the directory with.\<close>

lemma knowledge_key_stem: "trim_space e = e \<Longrightarrow> knowledge_key e = emailStem e"
  by (simp add: knowledge_key_def emailStem_def index_char_lower Let_def take_to_lower split: option.split)

lemma emailStem_trim [simp]: "emailStem (trim_space e) = emailStem e"
  by (simp add: emailStem_def)

lemma emailStem_nonempty: "trim_space e \<noteq> [] \<Longrightarrow> emailStem e \<noteq> []"
  by (auto simp: emailStem_def Let_def to_lower_def split: option.split)

lemma reads_dir_iff:
  "knowledgeDirName scope \<in> set (knowledge_dirs key) \<longleftrightarrow>
     knowledgeDirName scope = ''common'' \<or> key = emailStem scope"
proof (cases "trim_space scope = [] \<or> equal_fold (trim_space scope) ''common''")
  case True
  then show ?thesis by (simp add: knowledgeDirName_def knowledge_dirs_def)
next
  case False
  then show ?thesis using emailStem_nonempty [of scope] by (auto simp: knowledgeDirName_def knowledge_dirs_def)
qed

lemma reload_targets:
  assumes "composeServices ya d = Inr svcs"
    and "distinct (map csStem svcs)" "list_all (\<lambda>s. trim_space (csEmail s) = csEmail s) svcs"
  shows "\<exists>ts. knowledgeReloadTargets ya d scope = Inr ts \<and>
    set ts = csKey ` {s \<in> set svcs. knowledgeDirName scope \<in> set (knowledge_dirs (knowledge_key (csEmail s)))}"
proof -
  have readers: "{s \<in> set svcs. knowledgeDirName scope \<in> set (knowledge_dirs (knowledge_key (csEmail s)))} =
    {s \<in> set svcs. knowledgeDirName scope = ''common'' \<or> csStem s = emailStem scope}"
    using service_stem [OF assms(1)] assms(3) by (auto simp: reads_dir_iff knowledge_key_stem list_all_iff)
  show ?thesis
  proof (cases "find (\<lambda>s. csStem s = emailStem scope) svcs")
    case None
    then have "{t \<in> set svcs. csStem t = emailStem scope} = {}" by (auto simp: find_None_iff)
    then show ?thesis unfolding readers
      using assms(1) None by (auto simp: knowledgeReloadTargets_def and_then_def split: if_splits)
  next
    case (Some s)
    then have s: "s \<in> set svcs" "csStem s = emailStem scope" by (auto simp: find_Some_iff)
    have "{t \<in> set svcs. csStem t = emailStem scope} = {s}"
      using s assms(2) by (auto simp: distinct_map inj_on_def)
    then show ?thesis unfolding readers
      using assms(1) Some by (auto simp: knowledgeReloadTargets_def and_then_def split: if_splits)
  qed
qed

text \<open>C26. After an edit exactly the agents whose prompt contains the edited directory are signalled: when the services of the roster
  are known, no two share the local part of their addresses, docker is on the path and there is a compose file, the services
  that docker is asked to signal are those of the readers, and their number is reported unless docker fails.  Without docker or
  without a compose file nobody is signalled and nothing fails.\<close>

theorem edit_signals_its_readers:
  assumes "composeServices ya d = Inr svcs"
    and "distinct (map csStem svcs)" "list_all (\<lambda>s. trim_space (csEmail s) = csEmail s) svcs"
    and "signalKnowledgeReload ya dk d scope = (r, signalled)"
  shows "if dkOnPath dk \<and> cdCompose d \<noteq> Absent
    then set signalled = csKey ` {s \<in> set svcs. knowledgeDirName scope \<in> set (knowledge_dirs (knowledge_key (csEmail s)))} \<and>
      (r = Inr (length signalled) \<or> signalled \<noteq> [] \<and> (\<exists>e. dkKill dk signalled = Some e \<and> r = Inl e))
    else signalled = [] \<and> r = Inr 0"
proof -
  obtain ts where "knowledgeReloadTargets ya d scope = Inr ts"
    "set ts = csKey ` {s \<in> set svcs. knowledgeDirName scope \<in> set (knowledge_dirs (knowledge_key (csEmail s)))}"
    using reload_targets [OF assms(1-3)] by blast
  with assms(4) show ?thesis
    by (auto simp: signalKnowledgeReload_def signalServices_def split: if_splits option.splits)
qed

definition crew :: "string \<times> string \<Rightarrow> string \<times> string \<Rightarrow> yaml" where
  "crew a b = rename_yaml\<lparr>yaRead := (\<lambda>s. Inr (empty_roster\<lparr>acAgents :=
     map (\<lambda>(n, e). blank_agent\<lparr>adName := n, adEmail := e\<rparr>) [a, b]\<rparr>))\<rparr>"

definition crew_services :: "yaml \<Rightarrow> compose_service list" where
  "crew_services ya = (case composeServices ya team_disk of Inr ss \<Rightarrow> ss | Inl e \<Rightarrow> [])"

definition crew_docker :: docker where
  "crew_docker = \<lparr>dkOnPath = True, dkKill = (\<lambda>ts. None)\<rparr>"

definition crew_disk :: conf_disk where
  "crew_disk = team_disk\<lparr>cdCompose := Stored ''services:''\<rparr>"

lemma edit_signals_its_readers_witness:
  "signalKnowledgeReload (crew (''Ann'', ''ann@x.org'') (''Bo'', ''bo@x.org'')) crew_docker crew_disk ''ANN@x.org'' = (Inr 1, [''ann'']) \<and>
   {''ann''} = csKey ` {s \<in> set (crew_services (crew (''Ann'', ''ann@x.org'') (''Bo'', ''bo@x.org''))).
     knowledgeDirName ''ANN@x.org'' \<in> set (knowledge_dirs (knowledge_key (csEmail s)))}"
proof -
  let ?ya = "crew (''Ann'', ''ann@x.org'') (''Bo'', ''bo@x.org'')"
  have f: "signalKnowledgeReload ?ya crew_docker crew_disk ''ANN@x.org'' = (Inr 1, [''ann''])" "is_ok (composeServices ?ya crew_disk)"
    "distinct (map csStem (crew_services ?ya))" "list_all (\<lambda>s. trim_space (csEmail s) = csEmail s) (crew_services ?ya)"
    "dkOnPath crew_docker" "cdCompose crew_disk \<noteq> Absent"
    by code_simp+
  have "composeServices ?ya crew_disk = composeServices ?ya team_disk"
    by (simp add: composeServices_def listAgents_def loadRoster_def crew_disk_def)
  then have "composeServices ?ya crew_disk = Inr (crew_services ?ya)"
    using f(2) by (auto simp: crew_services_def split: sum.split)
  from edit_signals_its_readers [OF this f(3,4,1)] f(1,5,6) show ?thesis by simp
qed

text \<open>Two agents with one local part read the same directory; only one of them is signalled.\<close>

theorem shared_directory_signals_one:
  "knowledgeReloadTargets (crew (''Ann'', ''ann@x.org'') (''Ann B'', ''ann@y.org'')) team_disk ''ann@y.org'' = Inr [''ann''] \<and>
   map (\<lambda>s. (csKey s, knowledge_key (csEmail s))) (crew_services (crew (''Ann'', ''ann@x.org'') (''Ann B'', ''ann@y.org''))) =
     [(''ann'', ''ann''), (''ann-b'', ''ann'')]"
  by code_simp

end
