(* ===== verification/Line_Settings.thy ===== *)
theory Line_Settings
  imports Toolset
begin

text \<open>
  Settings on the lines of a text file, as the configurator edits them with regular expressions
  (\<open>scripts/configurator/dms.go\<close>, \<open>dms_dkim.go\<close>): scanners with the same matches, the replacement template, and a
  description of both line by line.
\<close>

section \<open>Settings on lines of a text\<close>

text \<open>
  A setting starts a line: white space, the key, the separator (with white space before it when the pattern allows that), white
  space, and then the rest of the line.  White space includes line ends, as \<open>\s\<close> does.
\<close>

datatype line_key = Line_Key bool string string

definition key_at :: "line_key \<Rightarrow> string \<Rightarrow> string option" where
  "key_at k s =
     (case k of Line_Key gap key sep \<Rightarrow>
        let r = dropWhile re_space s
        in if key \<noteq> [] \<and> has_prefix key r
           then let q = (if gap then dropWhile re_space (drop (length key) r) else drop (length key) r)
                in if has_prefix sep q then Some (dropWhile re_space (drop (length sep) q)) else None
           else None)"

lemma length_dropWhile_less: "length s < n \<Longrightarrow> length (dropWhile P s) < n"
  by (rule le_less_trans [OF length_dropWhile_le])

lemma key_at_shorter: "key_at k s = Some r \<Longrightarrow> length r < length s"
proof (cases k)
  case (Line_Key gap key sep)
  assume a: "key_at k s = Some r"
  let ?r = "dropWhile re_space s"
  let ?q = "if gap then dropWhile re_space (drop (length key) ?r) else drop (length key) ?r"
  have k: "key \<noteq> []" "has_prefix key ?r" "r = dropWhile re_space (drop (length sep) ?q)"
    using a Line_Key by (auto simp: key_at_def Let_def split: if_splits)
  then have "length (drop (length key) ?r) < length s"
    using has_prefix_length [OF k(2)] length_dropWhile_le [of re_space s] by (cases key) auto
  then have "length ?q < length s" by (auto intro: length_dropWhile_less)
  then have "length (drop (length sep) ?q) < length s" by (simp add: less_imp_diff_less)
  then show ?thesis unfolding k(3) by (rule length_dropWhile_less)
qed

text \<open>
  The first setting of a text, whether a setting has a property, and the replacement of every setting: \<open>f\<close> gets the matched
  text up to the value and the rest of the line.  The flag says whether a line starts here.
\<close>

fun find_setting :: "line_key \<Rightarrow> bool \<Rightarrow> string \<Rightarrow> string option" where
  "find_setting k b s =
     (case (if b then key_at k s else None) of
        Some r \<Rightarrow> Some r
      | None \<Rightarrow> (case s of [] \<Rightarrow> None | c # cs \<Rightarrow> find_setting k (c = nl) cs))"

fun any_setting :: "line_key \<Rightarrow> (string \<Rightarrow> bool) \<Rightarrow> bool \<Rightarrow> string \<Rightarrow> bool" where
  "any_setting k P b s =
     ((b \<and> (case key_at k s of Some r \<Rightarrow> P r | None \<Rightarrow> False)) \<or>
      (case s of [] \<Rightarrow> False | c # cs \<Rightarrow> any_setting k P (c = nl) cs))"

function rewrite_settings :: "line_key \<Rightarrow> (string \<Rightarrow> string \<Rightarrow> string) \<Rightarrow> bool \<Rightarrow> string \<Rightarrow> string" where
  "rewrite_settings k f b s =
     (case (if b then key_at k s else None) of
        Some r \<Rightarrow>
          f (take (length s - length r) s) (takeWhile (\<lambda>c. c \<noteq> nl) r) @
          rewrite_settings k f False (dropWhile (\<lambda>c. c \<noteq> nl) r)
      | None \<Rightarrow> (case s of [] \<Rightarrow> [] | c # cs \<Rightarrow> c # rewrite_settings k f (c = nl) cs))"
  by pat_completeness auto
termination
  by (relation "measure (\<lambda>(k, f, b, s). length s)")
    (auto split: if_splits intro!: length_dropWhile_less dest: key_at_shorter)

declare find_setting.simps [simp del] any_setting.simps [simp del] rewrite_settings.simps [simp del]

text \<open>A replacement template with the groups of a match: \<open>$$\<close> is a dollar sign, \<open>$name\<close> and \<open>${name}\<close> a group.\<close>

function expand_groups :: "(string \<Rightarrow> string) \<Rightarrow> string \<Rightarrow> string" where
  "expand_groups g s =
     (case s of
        [] \<Rightarrow> []
      | c # cs \<Rightarrow>
          if c \<noteq> CHR ''$'' then c # expand_groups g cs
          else case cs of
                 [] \<Rightarrow> [c]
               | d # ds \<Rightarrow>
                   if d = CHR ''$'' then d # expand_groups g ds
                   else if d = CHR ''{'' then
                     (let name = takeWhile word_char ds; rest = dropWhile word_char ds
                      in if name \<noteq> [] \<and> has_prefix ''}'' rest
                         then g name @ expand_groups g (drop 1 rest)
                         else c # expand_groups g cs)
                   else if word_char d then
                     g (takeWhile word_char cs) @ expand_groups g (dropWhile word_char ds)
                   else c # expand_groups g cs)"
  by pat_completeness auto
termination
  by (relation "measure (\<lambda>(g, s). length s)")
    (auto simp: less_Suc_eq_le intro: le_SucI length_dropWhile_le order_trans [OF diff_le_self])

declare expand_groups.simps [simp del]

section \<open>The scanners line by line\<close>

text \<open>A key and a separator that start with a printable character and stay on one line.\<close>

definition proper_key :: "line_key \<Rightarrow> bool" where
  "proper_key k =
     (case k of Line_Key gap key sep \<Rightarrow>
        key \<noteq> [] \<and> sep \<noteq> [] \<and> \<not> re_space (hd key) \<and> \<not> re_space (hd sep) \<and> nl \<notin> set key \<and> nl \<notin> set sep)"

lemma re_space_nl [simp]: "re_space nl"
  by code_simp

lemma dropWhile_spaces:
  "list_all re_space w \<Longrightarrow> x = [] \<or> \<not> re_space (hd x) \<Longrightarrow> dropWhile re_space (w @ x) = x"
  by (induction w) (cases x; simp)+

lemma key_at_parts:
  assumes "key_at (Line_Key gap key sep) s = Some r"
  obtains w g v where "s = w @ key @ g @ sep @ v @ r" "list_all re_space w" "list_all re_space g" "list_all re_space v"
    "\<not> gap \<longrightarrow> g = []" "r = [] \<or> \<not> re_space (hd r)"
proof -
  let ?r = "dropWhile re_space s"
  obtain t where t: "?r = key @ t" "key \<noteq> []"
    using assms by (auto simp: key_at_def Let_def has_prefix_iff split: if_splits)
  define q where "q = (if gap then dropWhile re_space t else t)"
  obtain u where u: "q = sep @ u" "r = dropWhile re_space u"
    using assms t by (auto simp: key_at_def Let_def has_prefix_iff q_def split: if_splits)
  define g where "g = (if gap then takeWhile re_space t else [])"
  have "t = g @ q" by (simp add: g_def q_def)
  moreover have "s = takeWhile re_space s @ ?r" "u = takeWhile re_space u @ r" by (simp_all add: u(2))
  ultimately have "s = takeWhile re_space s @ key @ g @ sep @ takeWhile re_space u @ r"
    using t(1) u(1) by (metis append_assoc)
  moreover have "list_all re_space (takeWhile re_space x)" for x by (auto simp: list_all_iff dest: set_takeWhileD)
  moreover have "r = [] \<or> \<not> re_space (hd r)" using hd_dropWhile [of re_space u] u(2) by auto
  ultimately show ?thesis using that [of "takeWhile re_space s" g "takeWhile re_space u"] by (auto simp: g_def)
qed

lemma key_at_intro:
  assumes "proper_key (Line_Key gap key sep)" "list_all re_space w" "list_all re_space g" "list_all re_space v"
    "\<not> gap \<longrightarrow> g = []" "r = [] \<or> \<not> re_space (hd r)"
  shows "key_at (Line_Key gap key sep) (w @ key @ g @ sep @ v @ r) = Some r"
proof -
  have "hd (key @ g @ sep @ v @ r) = hd key" "hd (sep @ v @ r) = hd sep" using assms(1) by (auto simp: proper_key_def)
  then have "dropWhile re_space (w @ key @ g @ sep @ v @ r) = key @ g @ sep @ v @ r"
    "dropWhile re_space (g @ sep @ v @ r) = sep @ v @ r" "dropWhile re_space (v @ r) = r"
    using assms by (auto intro!: dropWhile_spaces simp: proper_key_def)
  then show ?thesis using assms(1,5) by (auto simp: key_at_def Let_def proper_key_def)
qed

lemma key_at_head:
  assumes "proper_key k" "key_at k s = Some r" "x = [] \<or> \<not> re_space (hd x)"
  shows "s = take (length s - length r) s @ r \<and> key_at k (take (length s - length r) s @ x) = Some x"
proof -
  obtain gap key sep where k: "k = Line_Key gap key sep" by (cases k)
  obtain w g v where p: "s = w @ key @ g @ sep @ v @ r" "list_all re_space w" "list_all re_space g" "list_all re_space v"
    "\<not> gap \<longrightarrow> g = []" by (rule key_at_parts [OF assms(2) [unfolded k]])
  have "take (length s - length r) s = w @ key @ g @ sep @ v" by (simp add: p(1))
  then show ?thesis using key_at_intro [OF assms(1) [unfolded k] p(2-5) assms(3)] by (simp add: p(1) k)
qed

lemma key_at_spaces:
  "list_all re_space w \<Longrightarrow> key_at k (w @ s) = key_at k s"
proof -
  assume w: "list_all re_space w"
  then have "dropWhile re_space (w @ s) = dropWhile re_space s" by (induction w) auto
  then show ?thesis by (cases k) (simp add: key_at_def)
qed

lemma rewrite_Nil [simp]: "rewrite_settings k f b [] = []"
  using key_at_shorter [of k "[]"] by (auto simp: rewrite_settings.simps [of _ _ _ "[]"] split: option.split)

lemma rewrite_step:
  "\<not> b \<or> key_at k (c # cs) = None \<Longrightarrow> rewrite_settings k f b (c # cs) = c # rewrite_settings k f (c = nl) cs"
  by (subst rewrite_settings.simps) auto

lemma rewrite_found:
  "key_at k s = Some r \<Longrightarrow>
     rewrite_settings k f True s =
       f (take (length s - length r) s) (takeWhile (\<lambda>c. c \<noteq> nl) r) @ rewrite_settings k f False (dropWhile (\<lambda>c. c \<noteq> nl) r)"
  by (subst rewrite_settings.simps) simp

lemma rewrite_midline: "nl \<notin> set u \<Longrightarrow> rewrite_settings k f False (u @ t) = u @ rewrite_settings k f False t"
  by (induction u) (auto simp: rewrite_step)

lemma any_step: "any_setting k P b (c # cs) = ((b \<and> (case key_at k (c # cs) of Some r \<Rightarrow> P r | None \<Rightarrow> False)) \<or> any_setting k P (c = nl) cs)"
  by (subst any_setting.simps) simp

lemma any_Nil [simp]: "\<not> any_setting k P b []"
  using key_at_shorter [of k "[]"] by (auto simp: any_setting.simps [of _ _ _ "[]"] split: option.splits)

lemma any_midline: "nl \<notin> set u \<Longrightarrow> any_setting k P False (u @ t) = any_setting k P False t"
  by (induction u) (auto simp: any_step)

lemma any_later: "any_setting k P True t \<Longrightarrow> any_setting k P b (s @ nl # t)"
proof (induction s arbitrary: b)
  case (Cons c s)
  have "any_setting k P False (s @ nl # t)" "any_setting k P True (s @ nl # t)" using Cons by blast+
  then have "any_setting k P (c = nl) (s @ nl # t)" by (cases "c = nl") simp_all
  then show ?case by (simp add: any_step)
qed (simp add: any_step)

lemma find_step:
  "\<not> b \<or> key_at k (c # cs) = None \<Longrightarrow> find_setting k b (c # cs) = find_setting k (c = nl) cs"
  by (subst find_setting.simps) auto

lemma find_Nil [simp]: "find_setting k b [] = None"
  using key_at_shorter [of k "[]"] by (auto simp: find_setting.simps [of _ _ "[]"] split: option.split)

lemma find_found: "key_at k s = Some r \<Longrightarrow> find_setting k True s = Some r"
  by (subst find_setting.simps) simp

lemma find_midline: "nl \<notin> set u \<Longrightarrow> find_setting k False (u @ t) = find_setting k False t"
  by (induction u) (auto simp: find_step)

section \<open>A description by lines\<close>

text \<open>
  The replacement of a scalar described line by line, with which the scanner agrees on texts whose settings of the key have
  their value on the same line.
\<close>

definition tidy :: "line_key \<Rightarrow> string list \<Rightarrow> bool" where
  "tidy k ls \<longleftrightarrow> list_all (\<lambda>l. nl \<notin> set l \<and> key_at k l \<noteq> Some []) ls"

definition rewrite_line :: "line_key \<Rightarrow> (string \<Rightarrow> string \<Rightarrow> string) \<Rightarrow> string \<Rightarrow> string" where
  "rewrite_line k f l = (case key_at k l of Some r \<Rightarrow> f (take (length l - length r) l) r | None \<Rightarrow> l)"

definition keeps_indent :: "(string \<Rightarrow> string \<Rightarrow> string) \<Rightarrow> bool" where
  "keeps_indent f \<longleftrightarrow> (\<forall>w head line. list_all re_space w \<longrightarrow> f (w @ head) line = w @ f head line)"

text \<open>Whether a key stands at the start of a line is decided by the first line that is not blank.\<close>

lemma dropWhile_printable: "list_ex (\<lambda>c. \<not> P c) l \<Longrightarrow> dropWhile P (l @ t) = dropWhile P l @ t"
  by (induction l) auto

lemma has_prefix_take_line: "nl \<notin> set p \<Longrightarrow> has_prefix p (l @ nl # t) = has_prefix p l"
proof (induction p arbitrary: l)
  case (Cons a p)
  then show ?case by (cases l) auto
qed simp

lemma key_at_line:
  assumes "proper_key (Line_Key False key sep)" "list_ex (\<lambda>c. \<not> re_space c) l" "nl \<notin> set l"
  shows "key_at (Line_Key False key sep) (l @ nl # t) =
    (case key_at (Line_Key False key sep) l of
       None \<Rightarrow> None | Some r \<Rightarrow> Some (if r = [] then dropWhile re_space t else r @ nl # t))"
proof -
  let ?r = "dropWhile re_space l"
  have d: "dropWhile re_space (l @ nl # t) = ?r @ nl # t" by (rule dropWhile_printable [OF assms(2)])
  have n: "nl \<notin> set key" "nl \<notin> set sep" "key \<noteq> []" using assms(1) by (auto simp: proper_key_def)
  show ?thesis
  proof (cases "has_prefix key ?r")
    case True
    then obtain u where u: "?r = key @ u" by (auto simp: has_prefix_iff)
    show ?thesis
    proof (cases "has_prefix sep u")
      case True
      then obtain v where v: "u = sep @ v" by (auto simp: has_prefix_iff)
      have "dropWhile re_space (v @ nl # t) =
        (if dropWhile re_space v = [] then dropWhile re_space t else dropWhile re_space v @ nl # t)"
        by (induction v) auto
      then show ?thesis using d u v n(3) by (simp add: key_at_def)
    next
      case False
      then show ?thesis using d u n has_prefix_take_line [of sep u t] by (simp add: key_at_def)
    qed
  next
    case False
    then show ?thesis using d n has_prefix_take_line [of key ?r t] by (simp add: key_at_def)
  qed
qed

lemma rewrite_blank:
  assumes "list_all re_space w" "keeps_indent f"
  shows "rewrite_settings k f True (w @ nl # t) = w @ nl # rewrite_settings k f True t"
proof (cases "key_at k t")
  case (Some r)
  have w: "list_all re_space (w @ [nl])" using assms(1) by simp
  have "key_at k ((w @ [nl]) @ t) = Some r" using Some key_at_spaces [OF w, of k t] by simp
  moreover have "length r \<le> length t" using key_at_shorter [OF Some] by simp
  moreover have "f (nl # h) x = nl # f h x" "f (w @ h) x = w @ f h x" for h x
    using assms(2) [unfolded keeps_indent_def, rule_format, of "[nl]"] assms(2) [unfolded keeps_indent_def, rule_format, of w]
      assms(1) by simp_all
  ultimately show ?thesis
    using rewrite_found [of k "(w @ [nl]) @ t" r f] rewrite_found [OF Some, of f]
    by (simp add: Suc_diff_le)
next
  case None
  have *: "list_all re_space w \<Longrightarrow> rewrite_settings k f b (w @ nl # t) = w @ nl # rewrite_settings k f True t" for b
  proof (induction w arbitrary: b)
    case Nil
    then show ?case using None key_at_spaces [of "[nl]" k t] by (simp add: rewrite_step)
  next
    case (Cons c w)
    then have "key_at k (c # w @ nl # t) = None" using None key_at_spaces [of "c # w @ [nl]" k t] by simp
    with Cons show ?case by (simp add: rewrite_step)
  qed
  show ?thesis by (rule * [OF assms(1)])
qed

lemma rewrite_last_line:
  assumes "nl \<notin> set l"
  shows "rewrite_settings k f True l = rewrite_line k f l"
proof (cases "key_at k l")
  case None
  then show ?thesis
    using rewrite_midline [of "tl l" k f "[]"] assms by (cases l) (auto simp: rewrite_step rewrite_line_def)
next
  case (Some r)
  have "l = [] \<or> set r \<subseteq> set l"
  proof -
    obtain gap key sep where k: "k = Line_Key gap key sep" by (cases k)
    obtain w g v where "l = w @ key @ g @ sep @ v @ r" by (rule key_at_parts [OF Some [unfolded k]])
    then show ?thesis by auto
  qed
  then have "takeWhile (\<lambda>c. c \<noteq> nl) r = r" "dropWhile (\<lambda>c. c \<noteq> nl) r = []"
    using assms Some key_at_shorter [OF Some] by (auto simp: takeWhile_eq_all_conv dropWhile_eq_Nil_conv)
  then show ?thesis
    using rewrite_found [OF Some, of f] Some by (simp only: rewrite_line_def option.case rewrite_Nil append_Nil2)
qed

lemma rewrite_by_lines:
  assumes "proper_key (Line_Key False key sep)" "keeps_indent f" "ls \<noteq> []" "tidy (Line_Key False key sep) ls"
  shows "rewrite_settings (Line_Key False key sep) f True (join [nl] ls) = join [nl] (map (rewrite_line (Line_Key False key sep) f) ls)"
  using assms(3,4)
proof (induction ls rule: list_nonempty_induct)
  case (single l)
  then show ?case by (simp add: tidy_def rewrite_last_line)
next
  case (cons l ls)
  let ?k = "Line_Key False key sep" and ?t = "join [nl] ls"
  have l: "nl \<notin> set l" "key_at ?k l \<noteq> Some []" and IH: "rewrite_settings ?k f True ?t = join [nl] (map (rewrite_line ?k f) ls)"
    using cons by (simp_all add: tidy_def)
  have j: "join [nl] (l # ls) = l @ nl # ?t"
    "join [nl] (map (rewrite_line ?k f) (l # ls)) = rewrite_line ?k f l @ nl # join [nl] (map (rewrite_line ?k f) ls)"
    using cons(1) by (cases ls; simp)+
  have "rewrite_settings ?k f True (l @ nl # ?t) = rewrite_line ?k f l @ nl # rewrite_settings ?k f True ?t"
  proof (cases "list_all re_space l")
    case True
    have "key_at ?k l = None" using key_at_spaces [OF True, of ?k "[]"] key_at_shorter [of ?k "[]"] by (cases "key_at ?k []") auto
    then show ?thesis using rewrite_blank [OF True assms(2)] by (simp add: rewrite_line_def)
  next
    case False
    then have p: "list_ex (\<lambda>c. \<not> re_space c) l" by (simp add: list_ex_iff list_all_iff)
    show ?thesis
    proof (cases "key_at ?k l")
      case None
      then have n: "key_at ?k (l @ nl # ?t) = None" using key_at_line [OF assms(1) p l(1), of ?t] by simp
      obtain c cs where c: "l = c # cs" using p by (cases l) auto
      then have cn: "(c = nl) = False" "nl \<notin> set cs" using l(1) by auto
      have "rewrite_settings ?k f True (l @ nl # ?t) = c # rewrite_settings ?k f False (cs @ nl # ?t)"
        using n c cn(1) by (simp add: rewrite_step)
      also have "\<dots> = l @ nl # rewrite_settings ?k f True ?t" using c cn by (simp add: rewrite_midline rewrite_step)
      finally show ?thesis using None by (simp add: rewrite_line_def)
    next
      case (Some r)
      then have r: "key_at ?k (l @ nl # ?t) = Some (r @ nl # ?t)" using key_at_line [OF assms(1) p l(1), of ?t] l(2) by simp
      have "l = take (length l - length r) l @ r" using key_at_head [OF assms(1) Some, of "[]"] by simp
      then have "nl \<notin> set r" using l(1) by (metis Un_iff set_append)
      then have "takeWhile (\<lambda>c. c \<noteq> nl) (r @ nl # ?t) = r" "dropWhile (\<lambda>c. c \<noteq> nl) (r @ nl # ?t) = nl # ?t"
        by (auto simp: takeWhile_append dropWhile_append)
      then show ?thesis using rewrite_found [OF r, of f] Some key_at_shorter [OF Some] by (simp add: rewrite_line_def rewrite_step)
    qed
  qed
  then show ?case using IH j by simp
qed

text \<open>The first setting, likewise.\<close>

fun first_value :: "line_key \<Rightarrow> string list \<Rightarrow> string option" where
  "first_value k [] = None"
| "first_value k (l # ls) = (case key_at k l of Some r \<Rightarrow> Some r | None \<Rightarrow> first_value k ls)"

definition line_value :: "line_key \<Rightarrow> string \<Rightarrow> string option" where
  "line_value k s = map_option (takeWhile (\<lambda>c. c \<noteq> nl)) (find_setting k True s)"

lemma find_blank:
  assumes "list_all re_space w"
  shows "find_setting k True (w @ nl # t) = find_setting k True t"
proof (cases "key_at k t")
  case (Some r)
  then have "key_at k ((w @ [nl]) @ t) = Some r" using key_at_spaces [of "w @ [nl]" k t] assms by simp
  then show ?thesis using find_found [OF Some] find_found [of k "(w @ [nl]) @ t"] by simp
next
  case None
  have "list_all re_space w \<Longrightarrow> find_setting k b (w @ nl # t) = find_setting k True t" for b
  proof (induction w arbitrary: b)
    case Nil
    then show ?case using None key_at_spaces [of "[nl]" k t] by (simp add: find_step)
  next
    case (Cons c w)
    then have "key_at k (c # w @ nl # t) = None" using None key_at_spaces [of "c # w @ [nl]" k t] by simp
    with Cons show ?case by (simp add: find_step)
  qed
  then show ?thesis using assms by blast
qed

lemma find_by_lines:
  assumes "proper_key (Line_Key False key sep)" "ls \<noteq> []" "tidy (Line_Key False key sep) ls"
  shows "line_value (Line_Key False key sep) (join [nl] ls) = first_value (Line_Key False key sep) ls"
  using assms(2,3)
proof (induction ls rule: list_nonempty_induct)
  case (single l)
  let ?k = "Line_Key False key sep"
  have l: "nl \<notin> set l" using single by (simp add: tidy_def)
  show ?case
  proof (cases "key_at ?k l")
    case None
    then show ?thesis using find_midline [of "tl l" ?k "[]"] l by (cases l) (auto simp: find_step line_value_def)
  next
    case (Some r)
    have "l = take (length l - length r) l @ r" using key_at_head [OF assms(1) Some, of "[]"] by simp
    then have "nl \<notin> set r" using l by (metis Un_iff set_append)
    then have "takeWhile (\<lambda>c. c \<noteq> nl) r = r" by (auto simp: takeWhile_eq_all_conv)
    then show ?thesis using Some find_found [OF Some] by (simp add: line_value_def)
  qed
next
  case (cons l ls)
  let ?k = "Line_Key False key sep" and ?t = "join [nl] ls"
  have l: "nl \<notin> set l" "key_at ?k l \<noteq> Some []" and IH: "line_value ?k ?t = first_value ?k ls"
    using cons by (simp_all add: tidy_def)
  have j: "join [nl] (l # ls) = l @ nl # ?t" using cons(1) by (cases ls; simp)
  show ?case
  proof (cases "list_all re_space l")
    case True
    have "key_at ?k l = None" using key_at_spaces [OF True, of ?k "[]"] key_at_shorter [of ?k "[]"] by (cases "key_at ?k []") auto
    then show ?thesis using find_blank [OF True, of ?k ?t] IH j by (simp add: line_value_def)
  next
    case False
    then have p: "list_ex (\<lambda>c. \<not> re_space c) l" by (simp add: list_ex_iff list_all_iff)
    show ?thesis
    proof (cases "key_at ?k l")
      case None
      then have n: "key_at ?k (l @ nl # ?t) = None" using key_at_line [OF assms(1) p l(1), of ?t] by simp
      obtain c cs where c: "l = c # cs" using p by (cases l) auto
      then have cn: "(c = nl) = False" "nl \<notin> set cs" using l(1) by auto
      have "find_setting ?k True (l @ nl # ?t) = find_setting ?k True ?t"
        using n c cn by (simp add: find_step find_midline)
      then show ?thesis using None IH j by (simp add: line_value_def)
    next
      case (Some r)
      then have r: "key_at ?k (l @ nl # ?t) = Some (r @ nl # ?t)" using key_at_line [OF assms(1) p l(1), of ?t] l(2) by simp
      have "l = take (length l - length r) l @ r" using key_at_head [OF assms(1) Some, of "[]"] by simp
      then have "nl \<notin> set r" using l(1) by (metis Un_iff set_append)
      then have "takeWhile (\<lambda>c. c \<noteq> nl) (r @ nl # ?t) = r" by (auto simp: takeWhile_append)
      then show ?thesis using find_found [OF r] Some j by (simp add: line_value_def)
    qed
  qed
qed

end
