(* ===== verification/Dms_Service.thy ===== *)
theory Dms_Service
  imports Dms_Accounts Line_Settings
begin

text \<open>
  The bundled mail server as the configurator sets it up (\<open>scripts/configurator/dms.go\<close>, \<open>dms_dkim.go\<close> and the mail page of
  \<open>handlers.go\<close>): the host name in its compose file, the DKIM signing file, the certificate, and what saving the page does.
\<close>

section \<open>The files of the mail server\<close>

text \<open>
  The files of a deployment with those of the mail server: its compose file and the example of it, the DKIM signing file,
  the entries of the key directory (with whether they are directories), and the sizes of the two certificate files.
\<close>

record dms_disk =
  ddConf :: conf_disk
  ddCompose :: "string fsfile"
  ddComposeExample :: "string fsfile"
  ddDkimConf :: "string fsfile"
  ddDkimKeys :: "(string \<times> bool) list option"
  ddFullchain :: "nat option"
  ddPrivkey :: "nat option"

definition dmsComposePath :: string where "dmsComposePath = ''services/dms/docker-compose.yml''"
definition dmsComposeExamplePath :: string where "dmsComposeExamplePath = ''services/dms/docker-compose-example.yml''"
definition dmsDKIMSigningConfPath :: string where
  "dmsDKIMSigningConfPath = ''services/dms/config/rspamd/override.d/dkim_signing.conf''"

definition on_conf :: "(conf_disk, 'a) io \<Rightarrow> (dms_disk, 'a) io" where
  "on_conf m d = (case m (ddConf d) of (r, c) \<Rightarrow> (r, d\<lparr>ddConf := c\<rparr>))"

definition raw_write :: "string \<Rightarrow> (dms_disk \<Rightarrow> dms_disk) \<Rightarrow> (dms_disk, unit) io" where
  "raw_write path upd d =
     (case cdFault (ddConf d) path of Some f \<Rightarrow> (Inl (disk_error f), d) | None \<Rightarrow> (ok, upd d))"

definition write_dms :: "string \<Rightarrow> (dms_disk \<Rightarrow> dms_disk) \<Rightarrow> (dms_disk, unit) io" where
  "write_dms path upd d =
     (case cdFault (ddConf d) path of Some f \<Rightarrow> (Inl (fsWriteError path f), d) | None \<Rightarrow> (ok, upd d))"

section \<open>The host name\<close>

definition scalar_key :: "string \<Rightarrow> line_key" where "scalar_key key = Line_Key False key '':''"

definition quote_mark :: "char \<Rightarrow> bool" where
  "quote_mark c \<longleftrightarrow> c = dquote \<or> c = squote"

definition extractYAMLScalar :: "string \<Rightarrow> string \<Rightarrow> string" where
  "extractYAMLScalar s key =
     (case find_setting (scalar_key key) True s of
        None \<Rightarrow> []
      | Some r \<Rightarrow> trim_by quote_mark (trim_space (takeWhile (\<lambda>c. c \<noteq> nl) r)))"

definition file_scalar :: "string \<Rightarrow> string fsfile \<Rightarrow> string" where
  "file_scalar key f = (case f of Stored s \<Rightarrow> extractYAMLScalar s key | _ \<Rightarrow> [])"

definition dmsHostname :: "dms_disk \<Rightarrow> string" where
  "dmsHostname d =
     (let v = file_scalar ''hostname'' (ddCompose d)
      in if v \<noteq> [] then v else file_scalar ''hostname'' (ddComposeExample d))"

text \<open>The groups of \<open>(\s*)hostname:\s*(.*)\<close>: the indentation and the rest of the line.\<close>

definition scalar_groups :: "string \<Rightarrow> string \<Rightarrow> string \<Rightarrow> string" where
  "scalar_groups head line name =
     (if name = ''0'' then head @ line else if name = ''1'' then takeWhile re_space head
      else if name = ''2'' then line else [])"

definition set_scalar :: "string \<Rightarrow> string \<Rightarrow> string \<Rightarrow> string" where
  "set_scalar key v s =
     rewrite_settings (scalar_key key)
       (\<lambda>head line. expand_groups (scalar_groups head line) (''${1}'' @ key @ '': '' @ v)) True s"

definition seed_compose :: "(dms_disk, unit) io" where
  "seed_compose d =
     (case ddCompose d of
        Absent \<Rightarrow>
          (case ddComposeExample d of
             Stored s \<Rightarrow>
               io_wrap (''seeding '' @ dmsComposePath @ '' from example: '')
                 (raw_write dmsComposePath (\<lambda>d. d\<lparr>ddCompose := Stored s\<rparr>)) d
           | Absent \<Rightarrow> (Inl (Err (''neither '' @ dmsComposePath @ '' nor '' @ dmsComposeExamplePath @ '' exists'')), d)
           | Unreadable e \<Rightarrow> (Inl (Wrap (''neither '' @ dmsComposePath @ '' nor '' @ dmsComposeExamplePath @ '' exists: '') e []), d))
      | _ \<Rightarrow> (ok, d))"

definition rename_host :: "string \<Rightarrow> string \<Rightarrow> string \<Rightarrow> string" where
  "rename_host hostname domainname src =
     (let s1 = (if hostname \<noteq> [] then set_scalar ''hostname'' hostname src else src)
      in if domainname \<noteq> [] then set_scalar ''domainname'' domainname s1 else s1)"

definition updateDmsCompose :: "string \<Rightarrow> string \<Rightarrow> (dms_disk, unit) io" where
  "updateDmsCompose hostname domainname =
     io_bind seed_compose (\<lambda>_ d.
       case ddCompose d of
         Absent \<Rightarrow> (Inl (Err ''file does not exist''), d)
       | Unreadable e \<Rightarrow> (Inl e, d)
       | Stored src \<Rightarrow> write_dms dmsComposePath (\<lambda>d. d\<lparr>ddCompose := Stored (rename_host hostname domainname src)\<rparr>) d)"

section \<open>Common settings that follow the mail server\<close>

definition seed_common :: "string \<Rightarrow> agents_config \<Rightarrow> agents_config" where
  "seed_common host r =
     r\<lparr>acCommon := (acCommon r)
        \<lparr>ccEmailServer := (if trim_space (ccEmailServer (acCommon r)) = [] then host @ '':993'' else ccEmailServer (acCommon r)),
         ccSmtpServer := (if trim_space (ccSmtpServer (acCommon r)) = [] then host @ '':587'' else ccSmtpServer (acCommon r))\<rparr>\<rparr>"

definition seedCommonMailServersFromDMS :: "yaml \<Rightarrow> string \<Rightarrow> (conf_disk, unit) io" where
  "seedCommonMailServersFromDMS ya hostname d =
     (if trim_space hostname = [] then (ok, d)
      else case loadRoster ya d of
             Inl e \<Rightarrow> (Inl e, d)
           | Inr r \<Rightarrow>
               if trim_space (ccEmailServer (acCommon r)) \<noteq> [] \<and> trim_space (ccSmtpServer (acCommon r)) \<noteq> [] then (ok, d)
               else saveRoster ya (seed_common (trim_space hostname) r) d)"

definition setCommonInsecureTLS :: "yaml \<Rightarrow> bool \<Rightarrow> (conf_disk, unit) io" where
  "setCommonInsecureTLS ya v d =
     (case loadRoster ya d of
        Inl e \<Rightarrow> (Inl e, d)
      | Inr r \<Rightarrow>
          if ccEmailInsecureTLS (acCommon r) = v then (ok, d)
          else saveRoster ya (r\<lparr>acCommon := (acCommon r)\<lparr>ccEmailInsecureTLS := v\<rparr>\<rparr>) d)"

section \<open>The certificate\<close>

definition fileNonEmpty :: "nat option \<Rightarrow> bool" where
  "fileNonEmpty sz = (case sz of None \<Rightarrow> False | Some n \<Rightarrow> n > 0)"

record ssl_status =
  slFullchainExists :: bool
  slPrivkeyExists :: bool

definition BothPresent :: "ssl_status \<Rightarrow> bool" where
  "BothPresent s \<longleftrightarrow> slFullchainExists s \<and> slPrivkeyExists s"

definition loadSSLCertStatus :: "dms_disk \<Rightarrow> ssl_status" where
  "loadSSLCertStatus d =
     \<lparr>slFullchainExists = fileNonEmpty (ddFullchain d), slPrivkeyExists = fileNonEmpty (ddPrivkey d)\<rparr>"

record certificate =
  crCommonName :: string
  crDNSNames :: "string list"
  crIPAddresses :: "string list"

text \<open>\<open>is_ip\<close> is \<open>net.ParseIP\<close>; a name that is there already is not added again.\<close>

definition addSAN :: "(string \<Rightarrow> bool) \<Rightarrow> string \<Rightarrow> certificate \<Rightarrow> certificate" where
  "addSAN is_ip s c =
     (if s = [] then c
      else if is_ip s then c\<lparr>crIPAddresses := crIPAddresses c @ [s]\<rparr>
      else if s \<in> set (crDNSNames c) then c
      else c\<lparr>crDNSNames := crDNSNames c @ [s]\<rparr>)"

definition cert_template :: "(string \<Rightarrow> bool) \<Rightarrow> string \<Rightarrow> string \<Rightarrow> certificate" where
  "cert_template is_ip hostname domain =
     addSAN is_ip domain (addSAN is_ip hostname \<lparr>crCommonName = hostname, crDNSNames = [], crIPAddresses = []\<rparr>)"

text \<open>\<open>sign\<close> makes the key and signs the certificate; it gives the sizes of the two PEM texts.\<close>

definition cert_dir :: string where "cert_dir = ''services/dms/certs''"
definition fullchain_path :: string where "fullchain_path = ''services/dms/certs/fullchain.pem''"
definition privkey_path :: string where "privkey_path = ''services/dms/certs/privkey.pem''"

definition generateSelfSignedCert ::
  "(string \<Rightarrow> bool) \<Rightarrow> (certificate \<Rightarrow> (nat \<times> nat) result) \<Rightarrow> string \<Rightarrow> string \<Rightarrow> (dms_disk, unit) io" where
  "generateSelfSignedCert is_ip sign hostname domain d =
     (if trim_space hostname = [] then (Inl (Err ''hostname is required to generate a certificate''), d)
      else case sign (cert_template is_ip (trim_space hostname) (trim_space domain)) of
             Inl e \<Rightarrow> (Inl e, d)
           | Inr (certSize, keySize) \<Rightarrow>
               io_bind (io_wrap (''creating '' @ cert_dir @ '': '') (raw_write cert_dir (\<lambda>d. d))) (\<lambda>_.
               io_bind (io_wrap (''opening '' @ fullchain_path @ '': '')
                         (raw_write fullchain_path (\<lambda>d. d\<lparr>ddFullchain := Some certSize\<rparr>))) (\<lambda>_.
                 io_wrap (''opening '' @ privkey_path @ '': '')
                   (raw_write privkey_path (\<lambda>d. d\<lparr>ddPrivkey := Some keySize\<rparr>)))) d)"

section \<open>DKIM\<close>

definition esld_key :: line_key where "esld_key = Line_Key True ''use_esld'' ''=''"

definition reads_false :: "string \<Rightarrow> bool" where
  "reads_false r \<longleftrightarrow> has_prefix ''false'' r \<and> has_prefix '';'' (dropWhile re_space (drop 5 r))"

definition useESLDFalse :: "string \<Rightarrow> bool" where
  "useESLDFalse s = any_setting esld_key reads_false True s"

text \<open>What follows the value on its line, after the semicolon if there is one.\<close>

definition after_value :: "string \<Rightarrow> string" where
  "after_value line =
     (let t = dropWhile (\<lambda>c. c \<noteq> CHR '';'' \<and> c \<noteq> CHR ''#'') line in if has_prefix '';'' t then drop 1 t else t)"

definition esld_false :: "string \<Rightarrow> string" where
  "esld_false s = rewrite_settings esld_key (\<lambda>head line. head @ ''false;'' @ after_value line) True s"

definition esld_note :: string where
  "esld_note = ''# Added by the kikubot configurator: sign for subdomains (do not reduce From: to the eSLD).''"

definition fix_text :: "string \<Rightarrow> string" where
  "fix_text src =
     (if find_setting esld_key True src \<noteq> None then esld_false src
      else (if has_suffix [nl] src then src else src @ [nl]) @ [nl] @ lines_text [esld_note, ''use_esld = false;''])"

definition fixDKIMUseESLD :: "(dms_disk, bool) io" where
  "fixDKIMUseESLD d =
     (case ddDkimConf d of
        Absent \<Rightarrow> (Inr False, d)
      | Unreadable e \<Rightarrow> (Inl e, d)
      | Stored src \<Rightarrow>
          if useESLDFalse src then (Inr False, d)
          else io_bind (write_dms dmsDKIMSigningConfPath (\<lambda>d. d\<lparr>ddDkimConf := Stored (fix_text src)\<rparr>))
                 (\<lambda>_. io_return True) d)"

record dkim_status =
  dsDomain :: string
  dsKeyExists :: bool
  dsKeyFiles :: "string list"
  dsConfExists :: bool
  dsDomainInConf :: bool
  dsUseESLDFalse :: bool

definition Ready :: "dkim_status \<Rightarrow> bool" where
  "Ready s \<longleftrightarrow> dsKeyExists s \<and> dsConfExists s \<and> dsDomainInConf s \<and> dsUseESLDFalse s"

definition Started :: "dkim_status \<Rightarrow> bool" where
  "Started s \<longleftrightarrow> dsKeyExists s \<or> dsConfExists s"

definition domain_block :: "string \<Rightarrow> string \<Rightarrow> bool" where
  "domain_block domain s = any_setting (Line_Key True (to_lower domain) ''{'') (\<lambda>r. True) True (to_lower s)"

definition dkim_keys :: "string \<Rightarrow> dms_disk \<Rightarrow> string list" where
  "dkim_keys domain d =
     (case ddDkimKeys d of
        None \<Rightarrow> []
      | Some es \<Rightarrow>
          map fst (filter (\<lambda>(n, isDir). \<not> isDir \<and> has_suffix (''-'' @ domain @ ''.private.txt'') (to_lower n)) es))"

definition loadDKIMStatus :: "dms_disk \<Rightarrow> string \<Rightarrow> dkim_status" where
  "loadDKIMStatus d domain =
     (let dm = to_lower (trim_space domain);
          ks = (if dm = [] then [] else dkim_keys dm d);
          st = \<lparr>dsDomain = dm, dsKeyExists = (ks \<noteq> []), dsKeyFiles = ks, dsConfExists = False,
                dsDomainInConf = False, dsUseESLDFalse = False\<rparr>
      in if dm = [] then st
         else case ddDkimConf d of
                Stored src \<Rightarrow>
                  st\<lparr>dsConfExists := True, dsDomainInConf := domain_block dm src, dsUseESLDFalse := useESLDFalse src\<rparr>
              | _ \<Rightarrow> st)"

section \<open>The mail page\<close>

record email_page =
  epHostname :: string
  epService :: email_service

text \<open>The outcome of a request: the page rendered with the submitted values, or a redirect with a message.\<close>

datatype page_outcome =
    Rerender email_page ssl_status dkim_status bool string string
  | Redirect string string

definition page_of_form :: "(string \<Rightarrow> string) \<Rightarrow> email_page" where
  "page_of_form v =
     \<lparr>epHostname = trim_space (v ''hostname''),
      epService = \<lparr>esEnabled = (v ''enabled'' = ''1''), esAgentDomain = trim_space (v ''agent_domain''),
        esLimitDelivery = (v ''limit_delivery'' = ''1''), esDeliveryDomains = splitCSV (v ''delivery_domains''),
        esLimitAccept = (v ''limit_accept'' = ''1''), esAcceptDomains = splitCSV (v ''accept_domains'')\<rparr>\<rparr>"

definition email_page_equal :: "email_page \<Rightarrow> email_page \<Rightarrow> bool" where
  "email_page_equal a b \<longleftrightarrow>
     esEnabled (epService a) = esEnabled (epService b) \<and> epHostname a = epHostname b \<and>
     esAgentDomain (epService a) = esAgentDomain (epService b) \<and>
     esLimitDelivery (epService a) = esLimitDelivery (epService b) \<and>
     esLimitAccept (epService a) = esLimitAccept (epService b) \<and>
     esDeliveryDomains (epService a) = esDeliveryDomains (epService b) \<and>
     esAcceptDomains (epService a) = esAcceptDomains (epService b)"

text \<open>\<open>loadEmailServiceConfig\<close> leaves the host name blank.\<close>

definition stored_page :: "dms_disk \<Rightarrow> email_page" where
  "stored_page d = \<lparr>epHostname = [], epService = loadEmailServiceConfig (ddConf d)\<rparr>"

definition renderEmailService :: "dms_disk \<Rightarrow> email_page \<Rightarrow> string \<Rightarrow> string \<Rightarrow> page_outcome" where
  "renderEmailService d p kind msg =
     Rerender p (loadSSLCertStatus d) (loadDKIMStatus d (esAgentDomain (epService p)))
       (\<not> email_page_equal p (stored_page d)) kind msg"

record mail_env =
  meYaml :: yaml
  meSha :: "string \<Rightarrow> string"
  meRnd :: "nat \<Rightarrow> char list result"
  meIsIP :: "string \<Rightarrow> bool"
  meSign :: "certificate \<Rightarrow> (nat \<times> nat) result"

text \<open>Each step of a save with what is said when it fails.\<close>

definition save_steps :: "mail_env \<Rightarrow> email_page \<Rightarrow> ((dms_disk, unit) io \<times> string) list" where
  "save_steps env p =
     [(on_conf (setEmailServiceDisabled False), ''Postfix saved, but clearing the disabled marker failed: ''),
      (updateDmsCompose (epHostname p) (esAgentDomain (epService p)), ''Postfix saved, but docker-compose update failed: ''),
      (on_conf (regenerateDmsAccounts (meYaml env) (meSha env) (meRnd env)),
         ''Postfix saved, but mailbox accounts file update failed: ''),
      (on_conf (seedCommonMailServersFromDMS (meYaml env) (epHostname p)),
         ''Postfix saved, but updating common defaults failed: '')]"

fun run_steps :: "((dms_disk, unit) io \<times> string) list \<Rightarrow> (dms_disk, unit) io" where
  "run_steps [] = io_return ()"
| "run_steps ((m, pre) # ms) = io_bind (io_wrap pre m) (\<lambda>_. run_steps ms)"

definition saved_message :: string where
  "saved_message = ''Saved postfix-transport.cf, postfix-sender-access.cf, postfix-main.cf, '' @
     ''docker-compose.yml, and postfix-accounts.cf''"

definition fix_message :: "string \<Rightarrow> string" where
  "fix_message domain =
     [nl] @ ''Also set use_esld = false in services/dms/config/rspamd/override.d/dkim_signing.conf so rspamd signs mail from '' @
     domain @ ''. Restart the mail container (docker restart dms) for it to take effect.''"

definition finish_save :: "string \<Rightarrow> dms_disk \<Rightarrow> page_outcome \<times> dms_disk" where
  "finish_save domain d =
     (case fixDKIMUseESLD d of
        (Inl e, d1) \<Rightarrow>
          (Redirect ''error'' (saved_message @ [nl] @
             ''But fixing use_esld in rspamd/override.d/dkim_signing.conf failed: '' @ err_text e), d1)
      | (Inr patched, d1) \<Rightarrow>
          (Redirect ''success'' (saved_message @ (if patched then fix_message domain else [])), d1))"

definition with_domain :: "email_page \<Rightarrow> email_page" where
  "with_domain p =
     (if esAgentDomain (epService p) = []
      then p\<lparr>epService := (epService p)\<lparr>esAgentDomain := hostnameDomain (epHostname p)\<rparr>\<rparr> else p)"

definition post_email_page :: "mail_env \<Rightarrow> email_page \<Rightarrow> dms_disk \<Rightarrow> page_outcome \<times> dms_disk" where
  "post_email_page env p0 d =
     (if esEnabled (epService p0) then
        (let p = with_domain p0
         in case on_conf (save_service (epService p)) d of
              (Inl e, d1) \<Rightarrow> (renderEmailService d1 p ''error'' (''Save failed: '' @ err_text e), d1)
            | (Inr _, d1) \<Rightarrow>
                (case run_steps (save_steps env p) d1 of
                   (Inl e, d2) \<Rightarrow> (Redirect ''error'' (err_text e), d2)
                 | (Inr _, d2) \<Rightarrow> finish_save (esAgentDomain (epService p)) d2))
      else
        case on_conf (setEmailServiceDisabled True) d of
          (Inl e, d1) \<Rightarrow> (Redirect ''error'' (''Save failed: '' @ err_text e), d1)
        | (Inr _, d1) \<Rightarrow>
            (Redirect ''success'' (''Email service disabled. The generated files under services/dms/config/ were left untouched '' @
               em_dash @ '' re-enable this page to use them again.''), d1))"

text \<open>The page as it is shown, and the request for a certificate.\<close>

definition show_email_page :: "dms_disk \<Rightarrow> email_page \<times> ssl_status \<times> dkim_status" where
  "show_email_page d =
     (let c = loadEmailServiceConfig (ddConf d)
      in (\<lparr>epHostname = dmsHostname d, epService = c\<rparr>, loadSSLCertStatus d, loadDKIMStatus d (esAgentDomain c)))"

definition handleEmailService :: "mail_env \<Rightarrow> (string \<Rightarrow> string) \<Rightarrow> dms_disk \<Rightarrow> page_outcome \<times> dms_disk" where
  "handleEmailService env v = post_email_page env (page_of_form v)"

definition handleEmailServiceCert :: "mail_env \<Rightarrow> (string \<Rightarrow> string) \<Rightarrow> dms_disk \<Rightarrow> page_outcome \<times> dms_disk" where
  "handleEmailServiceCert env v d =
     (let p = with_domain (page_of_form v);
          (r, d1) = generateSelfSignedCert (meIsIP env) (meSign env) (epHostname p) (esAgentDomain (epService p)) d
      in case r of
           Inl e \<Rightarrow> (renderEmailService d1 p ''error'' (''Certificate generation failed: '' @ err_text e), d1)
         | Inr _ \<Rightarrow>
             (case on_conf (setCommonInsecureTLS (meYaml env) True) d1 of
                (Inl e, d2) \<Rightarrow>
                  (renderEmailService d2 p ''error''
                     (''Certificate generated, but enabling email_insecure_tls in agents.yaml failed: '' @ err_text e), d2)
              | (Inr _, d2) \<Rightarrow>
                  (renderEmailService d2 p ''success''
                     (''Generated self-signed certificate in services/dms/certs/ and set '' @
                      ''common.email_insecure_tls=true in agents.yaml.''), d2)))"

section \<open>DKIM signing is switched on for good\<close>

lemma esld_proper: "proper_key esld_key"
  by code_simp

lemma no_space_f: "\<not> re_space (CHR ''f'')"
  by code_simp

lemma esld_false_reads:
  "find_setting esld_key b s \<noteq> None \<Longrightarrow>
     any_setting esld_key reads_false b (rewrite_settings esld_key (\<lambda>head line. head @ ''false;'' @ after_value line) b s)"
proof (induction s arbitrary: b)
  case (Cons c s)
  let ?f = "\<lambda>head line. head @ ''false;'' @ after_value line"
  show ?case
  proof (cases "if b then key_at esld_key (c # s) else None")
    case None
    then have "\<not> b \<or> key_at esld_key (c # s) = None" by (simp split: if_splits)
    then show ?thesis using Cons.IH [of "c = nl"] Cons.prems by (simp add: rewrite_step find_step any_step [of _ _ b])
  next
    case (Some r)
    then have r: "b" "key_at esld_key (c # s) = Some r" by (simp_all split: if_splits)
    let ?h = "take (length (c # s) - length r) (c # s)"
    define x where "x = ''false;'' @ after_value (takeWhile (\<lambda>c. c \<noteq> nl) r) @
      rewrite_settings esld_key ?f False (dropWhile (\<lambda>c. c \<noteq> nl) r)"
    have "key_at esld_key (?h @ x) = Some x"
      using key_at_head [OF esld_proper r(2), of x] no_space_f by (simp add: x_def)
    moreover have "reads_false x" by (simp add: x_def reads_false_def re_space_def)
    moreover have "rewrite_settings esld_key ?f b (c # s) = ?h @ x" using r by (simp add: rewrite_found x_def)
    ultimately show ?thesis using r(1) by (subst any_setting.simps) simp
  qed
qed simp

lemma appended_setting: "any_setting esld_key reads_false True (''use_esld = false;'' @ [nl])"
  by code_simp

lemma fix_text_reads_false: "useESLDFalse (fix_text src)"
proof (cases "find_setting esld_key True src = None")
  case True
  let ?s = "(if has_suffix [nl] src then src else src @ [nl]) @ [nl] @ esld_note"
  have "fix_text src = ?s @ nl # ''use_esld = false;'' @ [nl]" using True by (simp add: fix_text_def lines_text_def)
  then show ?thesis unfolding useESLDFalse_def using any_later [OF appended_setting] by metis
next
  case False
  then show ?thesis using esld_false_reads [of True src] by (simp add: fix_text_def useESLDFalse_def esld_false_def)
qed

text \<open>After the DKIM fix the signing file reads \<open>use_esld = false\<close>, which is also what the page shows, and the fix finds nothing to do from
  then on.\<close>

theorem dkim_fix_settles:
  assumes "fixDKIMUseESLD d = (Inr changed, d')" "ddDkimConf d \<noteq> Absent" "trim_space domain \<noteq> []"
  shows "dsUseESLDFalse (loadDKIMStatus d' domain) \<and> fixDKIMUseESLD d' = (Inr False, d')"
proof -
  obtain src where src: "ddDkimConf d' = Stored src" "useESLDFalse src"
    using assms(1,2) fix_text_reads_false
    by (auto simp: fixDKIMUseESLD_def write_dms_def io_bind_def io_return_def split: fsfile.splits if_splits option.splits)
  have "to_lower (trim_space domain) \<noteq> []" using assms(3) by (metis length_to_lower length_0_conv)
  with src show ?thesis by (simp add: loadDKIMStatus_def fixDKIMUseESLD_def Let_def)
qed

definition dkim_text :: string where
  "dkim_text = lines_text [''enabled = true;'', ''  use_esld = true; # default'', ''domain {'', ''  Agents.acme.com {'']"

definition dms_sample :: dms_disk where
  "dms_sample =
     \<lparr>ddConf = conf_sample, ddCompose = Absent,
      ddComposeExample = Stored (lines_text [''services:'', ''    hostname: mail.example.com'', ''    domainname: example.com'', ''    ports:'']),
      ddDkimConf = Stored dkim_text, ddDkimKeys = Some [(''rsa-2048-mail-agents.acme.com.private.txt'', False)],
      ddFullchain = None, ddPrivkey = None\<rparr>"

lemma dkim_fix_settles_witness:
  "Ready (loadDKIMStatus (snd (fixDKIMUseESLD dms_sample)) ''agents.acme.com'') \<and>
   ddDkimConf (snd (fixDKIMUseESLD dms_sample)) =
     Stored (lines_text [''enabled = true;'', ''  use_esld = false; # default'', ''domain {'', ''  Agents.acme.com {''])"
proof -
  let ?d = "snd (fixDKIMUseESLD dms_sample)" and ?dm = "''agents.acme.com''"
  have f: "fst (fixDKIMUseESLD dms_sample) = Inr True" "ddDkimConf dms_sample \<noteq> Absent" "trim_space ?dm \<noteq> []"
    "dsKeyExists (loadDKIMStatus ?d ?dm) \<and> dsConfExists (loadDKIMStatus ?d ?dm) \<and> dsDomainInConf (loadDKIMStatus ?d ?dm)"
    "ddDkimConf ?d = Stored (lines_text [''enabled = true;'', ''  use_esld = false; # default'', ''domain {'', ''  Agents.acme.com {''])"
    by code_simp+
  have "fixDKIMUseESLD dms_sample = (Inr True, ?d)" using f(1) by (metis prod.collapse)
  from dkim_fix_settles [OF this f(2,3)] f(4,5) show ?thesis by (simp add: Ready_def)
qed

text \<open>One line that says false hides another one that says true, which the signer reads as well.\<close>

theorem one_false_line_hides_another:
  "fixDKIMUseESLD (dms_sample\<lparr>ddDkimConf := Stored (lines_text [''use_esld = true;'', ''use_esld = false;''])\<rparr>) =
     (Inr False, dms_sample\<lparr>ddDkimConf := Stored (lines_text [''use_esld = true;'', ''use_esld = false;''])\<rparr>)"
proof -
  have "useESLDFalse (lines_text [''use_esld = true;'', ''use_esld = false;''])" by code_simp
  then show ?thesis by (simp add: fixDKIMUseESLD_def)
qed

section \<open>The host name is read back\<close>

text \<open>A value that YAML and the replacement template take literally.\<close>

definition plain_scalar :: "string \<Rightarrow> bool" where
  "plain_scalar v \<longleftrightarrow> v \<noteq> [] \<and> list_all (\<lambda>c. \<not> re_space c \<and> \<not> is_space c \<and> \<not> quote_mark c \<and> c \<noteq> CHR ''$'') v"

definition scalar_edit :: "string \<Rightarrow> string \<Rightarrow> string \<Rightarrow> string \<Rightarrow> string" where
  "scalar_edit key v head line = takeWhile re_space head @ key @ '': '' @ v"

lemma expand_plain: "CHR ''$'' \<notin> set s \<Longrightarrow> expand_groups g s = s"
  by (induction s) (auto simp: expand_groups.simps [of _ "[]"] expand_groups.simps [of _ "_ # _"])

lemma expand_indent: "expand_groups g (''${1}'' @ s) = g ''1'' @ expand_groups g s"
  by (subst expand_groups.simps) (simp add: word_char_def is_upper_def is_lower_def is_digit_def)

lemma set_scalar_edit:
  assumes "CHR ''$'' \<notin> set key" "plain_scalar v"
  shows "set_scalar key v s = rewrite_settings (scalar_key key) (scalar_edit key v) True s"
proof -
  have "CHR ''$'' \<notin> set (key @ '': '' @ v)" using assms by (auto simp: plain_scalar_def list_all_iff)
  then have "expand_groups (scalar_groups head line) (''${1}'' @ key @ '': '' @ v) = scalar_edit key v head line" for head line
    unfolding expand_indent by (simp add: expand_plain scalar_groups_def scalar_edit_def)
  then show ?thesis by (simp add: set_scalar_def)
qed

lemma edit_keeps_indent: "keeps_indent (scalar_edit key v)"
  by (simp add: keeps_indent_def scalar_edit_def takeWhile_append list_all_iff)

definition scalar_name :: "string \<Rightarrow> bool" where
  "scalar_name key \<longleftrightarrow> key \<noteq> [] \<and> list_all (\<lambda>c. \<not> re_space c \<and> c \<noteq> CHR '':'' \<and> c \<noteq> CHR ''$'') key"

lemma scalar_key_proper: "scalar_name key \<Longrightarrow> proper_key (scalar_key key)"
  by (auto simp: scalar_name_def scalar_key_def proper_key_def list_all_iff re_space_def)

lemma key_of_edited:
  assumes "scalar_name key" "plain_scalar v" "list_all re_space w"
  shows "key_at (scalar_key key) (w @ key @ '': '' @ v) = Some v"
proof -
  have "hd v \<in> set v" using assms(2) by (simp add: plain_scalar_def)
  then have h: "\<not> re_space (hd v)" using assms(2) by (auto simp: plain_scalar_def list_all_iff)
  have s: "list_all re_space '' ''" by code_simp
  show ?thesis
    using key_at_intro [of False key "'':''" w "[]" "'' ''" v] scalar_key_proper [OF assms(1)] assms(3) h s
    by (simp add: scalar_key_def)
qed

lemma colon_unique:
  "key @ CHR '':'' # t = key' @ CHR '':'' # u \<Longrightarrow> CHR '':'' \<notin> set key \<Longrightarrow> CHR '':'' \<notin> set key' \<Longrightarrow> key = key'"
proof -
  assume e: "key @ CHR '':'' # t = key' @ CHR '':'' # u" and k: "CHR '':'' \<notin> set key" "CHR '':'' \<notin> set key'"
  have "takeWhile (\<lambda>c. c \<noteq> CHR '':'') (key @ CHR '':'' # t) = key" "takeWhile (\<lambda>c. c \<noteq> CHR '':'') (key' @ CHR '':'' # u) = key'"
    using k by (auto simp: takeWhile_append)
  then show ?thesis using e by simp
qed

lemma other_key_of_edited:
  assumes "scalar_name key" "scalar_name key'" "key \<noteq> key'" "list_all re_space w"
  shows "key_at (scalar_key key') (w @ key @ '':'' @ t) = None"
proof (rule ccontr)
  have k: "key \<noteq> []" "\<not> re_space (hd key)" "CHR '':'' \<notin> set key" "CHR '':'' \<notin> set key'" "key' \<noteq> []" "\<not> re_space (hd key')"
    using assms(1,2) by (auto simp: scalar_name_def list_all_iff)
  assume "key_at (scalar_key key') (w @ key @ '':'' @ t) \<noteq> None"
  then obtain r where r: "key_at (Line_Key False key' '':'') (w @ key @ '':'' @ t) = Some r" by (auto simp: scalar_key_def)
  obtain w' g v where p: "w @ key @ '':'' @ t = w' @ key' @ g @ '':'' @ v @ r" "list_all re_space w'" "\<not> False \<longrightarrow> g = []"
    by (rule key_at_parts [OF r])
  have "dropWhile re_space (w @ key @ '':'' @ t) = key @ '':'' @ t"
    "dropWhile re_space (w' @ key' @ g @ '':'' @ v @ r) = key' @ g @ '':'' @ v @ r"
    using k assms(4) p(2) by (intro dropWhile_spaces; simp)+
  then show False using p(1,3) colon_unique [of key t key' "v @ r"] k(3,4) assms(3) by simp
qed

lemma first_value_edited:
  assumes "scalar_name key" "plain_scalar v" "first_value (scalar_key key) ls \<noteq> None"
  shows "first_value (scalar_key key) (map (rewrite_line (scalar_key key) (scalar_edit key v)) ls) = Some v"
  using assms(3)
proof (induction ls)
  case (Cons l ls)
  have "key_at (scalar_key key) (scalar_edit key v head r) = Some v" for head r
    unfolding scalar_edit_def by (rule key_of_edited [OF assms(1,2)]) (auto simp: list_all_iff dest: set_takeWhileD)
  with Cons show ?case by (simp add: rewrite_line_def split: option.splits)
qed simp

lemma key_of_other_edit:
  assumes "scalar_name key" "scalar_name key'" "key \<noteq> key'"
  shows "key_at (scalar_key key') (rewrite_line (scalar_key key) (scalar_edit key v) l) = key_at (scalar_key key') l"
proof (cases "key_at (scalar_key key) l")
  case (Some r)
  obtain w g u where p: "l = w @ key @ g @ '':'' @ u @ r" "list_all re_space w" "\<not> False \<longrightarrow> g = []"
    by (rule key_at_parts [OF Some [unfolded scalar_key_def]])
  then have "key_at (scalar_key key') l = None" using other_key_of_edited [OF assms p(2), of "u @ r"] by simp
  moreover have "key_at (scalar_key key') (scalar_edit key v head r) = None" for head
    using other_key_of_edited [OF assms, of "takeWhile re_space head" "'' '' @ v"]
    by (auto simp: scalar_edit_def list_all_iff dest: set_takeWhileD)
  ultimately show ?thesis using Some by (simp add: rewrite_line_def)
qed (simp add: rewrite_line_def)

lemma first_value_other:
  assumes "scalar_name key" "scalar_name key'" "key \<noteq> key'"
  shows "first_value (scalar_key key') (map (rewrite_line (scalar_key key) (scalar_edit key v)) ls) = first_value (scalar_key key') ls"
  by (induction ls) (simp_all add: key_of_other_edit [OF assms] split: option.split)

lemma rewrite_tidy:
  assumes "scalar_name key" "plain_scalar v" "scalar_name key'" "tidy (scalar_key key') ls"
  shows "tidy (scalar_key key') (map (rewrite_line (scalar_key key) (scalar_edit key v)) ls)"
proof -
  have "nl \<notin> set (rewrite_line (scalar_key key) (scalar_edit key v) l) \<and>
    key_at (scalar_key key') (rewrite_line (scalar_key key) (scalar_edit key v) l) \<noteq> Some []" if l: "l \<in> set ls" for l
  proof -
    have n: "nl \<notin> set l" "key_at (scalar_key key') l \<noteq> Some []" using assms(4) l by (auto simp: tidy_def list_all_iff)
    have nv: "nl \<notin> set v" "nl \<notin> set key" "v \<noteq> []"
      using assms(1,2) re_space_nl unfolding plain_scalar_def scalar_name_def list_all_iff by blast+
    show ?thesis
    proof (cases "key_at (scalar_key key) l")
      case (Some r)
      let ?h = "take (length l - length r) l"
      have h: "nl \<notin> set (takeWhile re_space ?h)" using n(1) by (auto dest: set_takeWhileD in_set_takeD)
      have w: "list_all re_space (takeWhile re_space ?h)" by (auto simp: list_all_iff dest: set_takeWhileD)
      have "key_at (scalar_key key') (rewrite_line (scalar_key key) (scalar_edit key v) l) \<noteq> Some []"
      proof (cases "key' = key")
        case True
        then show ?thesis using Some key_of_edited [OF assms(1,2) w] nv by (simp add: rewrite_line_def scalar_edit_def)
      next
        case False
        then show ?thesis using key_of_other_edit [OF assms(1,3)] n by simp
      qed
      then show ?thesis using h nv Some by (simp add: rewrite_line_def scalar_edit_def)
    qed (use n in \<open>simp add: rewrite_line_def\<close>)
  qed
  then show ?thesis by (simp add: tidy_def list_all_iff)
qed

text \<open>Both names of the host on a text by lines: what is read from the result.\<close>

definition host_lines :: "string \<Rightarrow> string \<Rightarrow> string list \<Rightarrow> string list" where
  "host_lines h dm ls =
     map (rewrite_line (scalar_key ''domainname'') (scalar_edit ''domainname'' dm))
       (map (rewrite_line (scalar_key ''hostname'') (scalar_edit ''hostname'' h)) ls)"

lemma host_names: "scalar_name ''hostname''" "scalar_name ''domainname''"
  by code_simp+

lemma extract_by_lines:
  assumes "scalar_name key" "ls \<noteq> []" "tidy (scalar_key key) ls" "first_value (scalar_key key) ls = Some v" "plain_scalar v"
  shows "extractYAMLScalar (join [nl] ls) key = v"
proof -
  have "line_value (scalar_key key) (join [nl] ls) = Some v"
    using find_by_lines [of key "'':''" ls] scalar_key_proper [OF assms(1)] assms(2-4) by (simp add: scalar_key_def)
  then have "extractYAMLScalar (join [nl] ls) key = trim_by quote_mark (trim_space v)"
    by (auto simp: extractYAMLScalar_def line_value_def split: option.splits)
  moreover have "\<And>c. c \<in> set v \<Longrightarrow> \<not> is_space c" "\<And>c. c \<in> set v \<Longrightarrow> \<not> quote_mark c"
    using assms(5) by (auto simp: plain_scalar_def list_all_iff)
  ultimately show ?thesis by (simp add: trim_by_none)
qed

lemma rename_host_lines:
  assumes "ls \<noteq> []" "tidy (scalar_key ''hostname'') ls" "tidy (scalar_key ''domainname'') ls" "plain_scalar h" "plain_scalar dm"
  shows "rename_host h dm (join [nl] ls) = join [nl] (host_lines h dm ls)"
proof -
  let ?l1 = "map (rewrite_line (scalar_key ''hostname'') (scalar_edit ''hostname'' h)) ls"
  have d: "CHR ''$'' \<notin> set ''hostname''" "CHR ''$'' \<notin> set ''domainname''" by code_simp+
  have p: "proper_key (scalar_key ''hostname'')" "proper_key (scalar_key ''domainname'')" by (rule scalar_key_proper, rule host_names)+
  have "set_scalar ''hostname'' h (join [nl] ls) = join [nl] ?l1"
    using rewrite_by_lines [of "''hostname''" "'':''" "scalar_edit ''hostname'' h" ls] p(1) edit_keeps_indent assms(1,2)
    by (simp add: set_scalar_edit [OF d(1) assms(4)] scalar_key_def)
  moreover have "set_scalar ''domainname'' dm (join [nl] ?l1) = join [nl] (host_lines h dm ls)"
    using rewrite_by_lines [of "''domainname''" "'':''" "scalar_edit ''domainname'' dm" ?l1] p(2) edit_keeps_indent assms(1)
      rewrite_tidy [OF host_names(1) assms(4) host_names(2) assms(3)]
    by (simp add: set_scalar_edit [OF d(2) assms(5)] scalar_key_def host_lines_def)
  ultimately show ?thesis using assms(4,5) by (simp add: rename_host_def plain_scalar_def)
qed

lemma host_read_back:
  assumes "ls \<noteq> []" "tidy (scalar_key ''hostname'') ls" "tidy (scalar_key ''domainname'') ls" "plain_scalar h" "plain_scalar dm"
    "first_value (scalar_key ''hostname'') ls \<noteq> None"
  shows "extractYAMLScalar (rename_host h dm (join [nl] ls)) ''hostname'' = h"
proof -
  let ?l1 = "map (rewrite_line (scalar_key ''hostname'') (scalar_edit ''hostname'' h)) ls"
  have n: "''domainname'' \<noteq> ''hostname''" by simp
  have "first_value (scalar_key ''hostname'') (host_lines h dm ls) = Some h"
    unfolding host_lines_def first_value_other [OF host_names(2,1) n]
    by (rule first_value_edited [OF host_names(1) assms(4,6)])
  moreover have "tidy (scalar_key ''hostname'') (host_lines h dm ls)"
    unfolding host_lines_def
    by (intro rewrite_tidy host_names assms)
  moreover have "host_lines h dm ls \<noteq> []" using assms(1) by (simp add: host_lines_def)
  ultimately show ?thesis
    using rename_host_lines [OF assms(1-5)] extract_by_lines [OF host_names(1) _ _ _ assms(4)] by simp
qed

text \<open>The compose file a save starts from: the live one, or the example when there is none yet.\<close>

definition compose_source :: "dms_disk \<Rightarrow> string fsfile" where
  "compose_source d = (case ddCompose d of Absent \<Rightarrow> ddComposeExample d | f \<Rightarrow> f)"

lemma updateDmsCompose_result:
  assumes "updateDmsCompose h dm d = (Inr (), d')"
  obtains src where "compose_source d = Stored src" "d' = d\<lparr>ddCompose := Stored (rename_host h dm src)\<rparr>"
  using assms
  by (auto simp: updateDmsCompose_def seed_compose_def compose_source_def io_bind_def io_wrap_def raw_write_def write_dms_def
           split: fsfile.splits option.splits sum.splits prod.splits if_splits)

text \<open>A compose file in which both names have their value on the line of their key, and which has a host name.\<close>

definition usable_compose :: "string \<Rightarrow> bool" where
  "usable_compose src \<longleftrightarrow>
     tidy (scalar_key ''hostname'') (split_char nl src) \<and> tidy (scalar_key ''domainname'') (split_char nl src) \<and>
     first_value (scalar_key ''hostname'') (split_char nl src) \<noteq> None"

lemma host_name_saved:
  assumes "updateDmsCompose h dm d = (Inr (), d')" "plain_scalar h" "plain_scalar dm"
    "\<And>src. compose_source d = Stored src \<Longrightarrow> usable_compose src"
  shows "dmsHostname d' = h"
proof -
  obtain src where src: "compose_source d = Stored src" "d' = d\<lparr>ddCompose := Stored (rename_host h dm src)\<rparr>"
    by (rule updateDmsCompose_result [OF assms(1)])
  then have "extractYAMLScalar (rename_host h dm src) ''hostname'' = h"
    using host_read_back [of "split_char nl src" h dm] assms by (auto simp: usable_compose_def join_split_char)
  then show ?thesis using assms(2) by (simp add: dmsHostname_def file_scalar_def src(2) plain_scalar_def)
qed

section \<open>A saved mail page\<close>

text \<open>The files the settings are read from.\<close>

definition mail_files :: "conf_disk \<Rightarrow> string fsfile \<times> string fsfile \<times> string fsfile \<times> bool" where
  "mail_files c = (cdTransport c, cdSenderAccess c, cdMainCf c, cdDisabled c)"

lemma settings_of_files: "mail_files c = mail_files c' \<Longrightarrow> loadEmailServiceConfig c = loadEmailServiceConfig c'"
  by (simp add: mail_files_def loadEmailServiceConfig_def)

lemma write_to_files:
  "write_to path upd c = (r, c') \<Longrightarrow> (\<And>x. mail_files (upd x) = mail_files x) \<Longrightarrow> mail_files c' = mail_files c"
  by (auto simp: write_to_def split: option.splits)

lemma accounts_keep_files: "regenerateDmsAccounts ya sha rnd c = (r, c') \<Longrightarrow> mail_files c' = mail_files c"
  by (auto simp: regenerateDmsAccounts_def write_to_def io_bind_def Let_def mail_files_def split: if_splits sum.splits option.splits)

lemma roster_keeps_files: "saveRoster ya r c = (x, c') \<Longrightarrow> mail_files c' = mail_files c"
  by (auto simp: saveRoster_def write_to_def mail_files_def split: prod.splits sum.splits option.splits)

lemma seed_keeps_files: "seedCommonMailServersFromDMS ya h c = (r, c') \<Longrightarrow> mail_files c' = mail_files c"
  by (auto simp: seedCommonMailServersFromDMS_def dest: roster_keeps_files split: if_splits sum.splits)

lemma enable_files:
  "setEmailServiceDisabled False c = (Inr (), c') \<Longrightarrow>
     mail_files c' = (cdTransport c, cdSenderAccess c, cdMainCf c, False)"
  by (auto simp: setEmailServiceDisabled_def write_to_def mail_files_def split: if_splits option.splits)

lemma on_conf_Inr:
  "on_conf m d = (Inr x, d') \<longleftrightarrow> (\<exists>c. m (ddConf d) = (Inr x, c) \<and> d' = d\<lparr>ddConf := c\<rparr>)"
  by (auto simp: on_conf_def split: prod.splits)

lemma fix_keeps:
  "fixDKIMUseESLD d = (r, d') \<Longrightarrow>
     ddConf d' = ddConf d \<and> ddCompose d' = ddCompose d \<and> ddComposeExample d' = ddComposeExample d"
  by (auto simp: fixDKIMUseESLD_def write_dms_def io_bind_def io_return_def split: fsfile.splits if_splits option.splits)

lemma fix_success:
  "fixDKIMUseESLD d = (Inr b, d') \<Longrightarrow> ddDkimConf d' = Stored src \<Longrightarrow> useESLDFalse src"
  using fix_text_reads_false
  by (auto simp: fixDKIMUseESLD_def write_dms_def io_bind_def io_return_def split: fsfile.splits if_splits option.splits)

lemma dmsHostname_cong:
  "ddCompose d = ddCompose d' \<Longrightarrow> ddComposeExample d = ddComposeExample d' \<Longrightarrow> dmsHostname d = dmsHostname d'"
  by (simp add: dmsHostname_def Let_def)

text \<open>The steps of a save, taken apart.\<close>

lemma save_steps_result:
  assumes "run_steps (save_steps env p) d = (Inr (), d')"
  obtains c1 d2 where "setEmailServiceDisabled False (ddConf d) = (Inr (), c1)"
    and "updateDmsCompose (epHostname p) (esAgentDomain (epService p)) (d\<lparr>ddConf := c1\<rparr>) = (Inr (), d2)"
    and "mail_files (ddConf d') = mail_files (ddConf d2)" and "ddCompose d' = ddCompose d2"
    and "ddComposeExample d' = ddComposeExample d2"
proof -
  obtain c1 d2 c3 c4 where 1: "setEmailServiceDisabled False (ddConf d) = (Inr (), c1)"
    and 2: "updateDmsCompose (epHostname p) (esAgentDomain (epService p)) (d\<lparr>ddConf := c1\<rparr>) = (Inr (), d2)"
    and 3: "regenerateDmsAccounts (meYaml env) (meSha env) (meRnd env) (ddConf d2) = (Inr (), c3)"
    and 4: "seedCommonMailServersFromDMS (meYaml env) (epHostname p) c3 = (Inr (), c4)"
    and d': "d' = d2\<lparr>ddConf := c4\<rparr>"
    using assms by (auto simp: save_steps_def io_return_def result_iff on_conf_Inr)
  show ?thesis
    by (rule that [OF 1 2]) (simp_all add: d' accounts_keep_files [OF 3] seed_keeps_files [OF 4])
qed

definition shown_domains :: "email_service \<Rightarrow> email_service" where
  "shown_domains c =
     c\<lparr>esEnabled := True,
       esDeliveryDomains := (if esLimitDelivery c then other_domains c (esDeliveryDomains c) else []),
       esAcceptDomains := (if esLimitAccept c then other_domains c (esAcceptDomains c) else [])\<rparr>"

text \<open>C27. A mail page that was saved with success is what the page shows from then on: the host name from the compose file, and the
  settings from the generated postfix files with the service in use; a list of domains is kept (trimmed, without blank entries
  and the agents' domain) when its limit is ticked, and dropped when it is not.  The domains are tokens that postfix reads as one
  word, the host name and the agents' domain need no quoting in YAML, and the compose file has its host name where the line
  editor finds it.  A DKIM signing file, where there is one, then has a line \<open>use_esld = false\<close>.\<close>

theorem saved_mail_page_is_shown_again:
  assumes "post_email_page env p0 d = (Redirect ''success'' msg, d')" "esEnabled (epService p0)" "with_domain p0 = p"
    and "token (esAgentDomain (epService p))"
    and "\<forall>x\<in>set (other_domains (epService p) (esDeliveryDomains (epService p))). token x \<and> x \<noteq> ''*''"
    and "\<forall>x\<in>set (other_domains (epService p) (esAcceptDomains (epService p))). token x \<and> x \<noteq> ''.''"
    and "plain_scalar (epHostname p)" "plain_scalar (esAgentDomain (epService p))"
    and "\<And>src. compose_source d = Stored src \<Longrightarrow> usable_compose src"
  shows "fst (show_email_page d') = \<lparr>epHostname = epHostname p, epService = shown_domains (epService p)\<rparr> \<and>
    (\<forall>src. ddDkimConf d' = Stored src \<longrightarrow> useESLDFalse src)"
proof -
  let ?c = "epService p"
  obtain d1 d2 where s: "on_conf (save_service ?c) d = (Inr (), d1)" and r: "run_steps (save_steps env p) d1 = (Inr (), d2)"
    and f: "finish_save (esAgentDomain ?c) d2 = (Redirect ''success'' msg, d')"
    using assms(1-3) by (auto simp: post_email_page_def renderEmailService_def Let_def split: prod.splits sum.splits)
  obtain b where fx: "fixDKIMUseESLD d2 = (Inr b, d')"
    using f by (auto simp: finish_save_def split: prod.splits sum.splits)
  obtain c0 where c0: "save_service ?c (ddConf d) = (Inr (), c0)" "d1 = d\<lparr>ddConf := c0\<rparr>" using s by (auto simp: on_conf_Inr)
  obtain c1 d3 where c1: "setEmailServiceDisabled False (ddConf d1) = (Inr (), c1)"
    and up: "updateDmsCompose (epHostname p) (esAgentDomain ?c) (d1\<lparr>ddConf := c1\<rparr>) = (Inr (), d3)"
    and keep: "mail_files (ddConf d2) = mail_files (ddConf d3)" "ddCompose d2 = ddCompose d3" "ddComposeExample d2 = ddComposeExample d3"
    by (rule save_steps_result [OF r])
  obtain src0 where "d3 = (d1\<lparr>ddConf := c1\<rparr>)\<lparr>ddCompose := Stored (rename_host (epHostname p) (esAgentDomain ?c) src0)\<rparr>"
    by (rule updateDmsCompose_result [OF up])
  then have files: "mail_files (ddConf d') = mail_files (c0\<lparr>cdDisabled := False\<rparr>)"
    using fix_keeps [OF fx] keep(1) enable_files [OF c1] c0(2) by (simp add: mail_files_def)
  have "compose_source (d1\<lparr>ddConf := c1\<rparr>) = compose_source d" using c0(2) by (simp add: compose_source_def split: fsfile.split)
  then have "dmsHostname d3 = epHostname p" using host_name_saved [OF up assms(7,8)] assms(9) by simp
  then have host: "dmsHostname d' = epHostname p"
    using dmsHostname_cong [of d' d3] fix_keeps [OF fx] keep(2,3) by simp
  have "loadEmailServiceConfig (c0\<lparr>cdDisabled := False\<rparr>) = shown_domains ?c"
    using save_service_disk [OF c0(1)] assms(4-6)
    by (simp add: loadEmailServiceConfig_def Let_def transport_read_back main_cf_read_back access_read_back no_service_def shown_domains_def)
  then have "loadEmailServiceConfig (ddConf d') = shown_domains ?c" using settings_of_files [OF files] by simp
  then show ?thesis using host fix_success [OF fx] by (simp add: show_email_page_def Let_def)
qed

definition mail_page_env :: mail_env where
  "mail_page_env = \<lparr>meYaml = team_yaml [''Ann''], meSha = (\<lambda>s. s), meRnd = (\<lambda>n. Inl (Err ''no salt'')),
     meIsIP = (\<lambda>s. False), meSign = (\<lambda>c. Inr (1, 1))\<rparr>"

definition mail_form :: "string \<Rightarrow> string" where
  "mail_form f =
     (if f = ''hostname'' then '' mail.kiku.org'' else if f = ''enabled'' then ''1''
      else if f = ''limit_delivery'' then ''1'' else if f = ''delivery_domains'' then ''acme.com, kiku.org'' else [])"

definition mail_page_run :: "page_outcome \<times> dms_disk" where
  "mail_page_run = post_email_page mail_page_env (page_of_form mail_form) dms_sample"

definition saved_page :: email_page where
  "saved_page = with_domain (page_of_form mail_form)"

lemma saved_mail_page_is_shown_again_witness:
  "epHostname (fst (show_email_page (snd mail_page_run))) = ''mail.kiku.org'' \<and>
   epService (fst (show_email_page (snd mail_page_run))) =
     \<lparr>esEnabled = True, esAgentDomain = ''kiku.org'', esLimitDelivery = True, esDeliveryDomains = [''acme.com''],
      esLimitAccept = False, esAcceptDomains = []\<rparr>"
proof -
  have "(case fst mail_page_run of Redirect k m \<Rightarrow> k | _ \<Rightarrow> []) = ''success''" by code_simp
  then obtain m where "fst mail_page_run = Redirect ''success'' m" by (auto split: page_outcome.splits)
  then have r: "post_email_page mail_page_env (page_of_form mail_form) dms_sample = (Redirect ''success'' m, snd mail_page_run)"
    unfolding mail_page_run_def by (metis prod.collapse)
  have e: "esEnabled (epService (page_of_form mail_form))" by code_simp
  have t: "token (esAgentDomain (epService saved_page))" by code_simp
  have o: "other_domains (epService saved_page) (esDeliveryDomains (epService saved_page)) = [''acme.com'']"
    "other_domains (epService saved_page) (esAcceptDomains (epService saved_page)) = []" by code_simp+
  have w: "\<forall>x\<in>set (other_domains (epService saved_page) (esDeliveryDomains (epService saved_page))). token x \<and> x \<noteq> ''*''"
    "\<forall>x\<in>set (other_domains (epService saved_page) (esAcceptDomains (epService saved_page))). token x \<and> x \<noteq> ''.''"
    unfolding o by code_simp+
  have s: "plain_scalar (epHostname saved_page)" "plain_scalar (esAgentDomain (epService saved_page))" by code_simp+
  have c: "(case compose_source dms_sample of Stored src \<Rightarrow> usable_compose src | _ \<Rightarrow> False)" by code_simp
  have v: "epHostname saved_page = ''mail.kiku.org''"
    "shown_domains (epService saved_page) = \<lparr>esEnabled = True, esAgentDomain = ''kiku.org'', esLimitDelivery = True,
       esDeliveryDomains = [''acme.com''], esLimitAccept = False, esAcceptDomains = []\<rparr>" by code_simp+
  have u: "\<And>src. compose_source dms_sample = Stored src \<Longrightarrow> usable_compose src" using c by auto
  show ?thesis
    using saved_mail_page_is_shown_again [OF r e saved_page_def [symmetric] t w s u] v by simp
qed

text \<open>A key whose value is blank takes the next line with it.\<close>

theorem blank_value_swallows_next_line:
  "set_scalar ''hostname'' ''mail.kiku.org'' (lines_text [''    hostname:'', ''    domainname: example.com'', ''    ports:'']) =
     lines_text [''    hostname: mail.kiku.org'', ''    ports:'']"
  by code_simp

text \<open>The page that shows a rejected save counts as edited whenever a host name was entered, for it is compared with a blank one.\<close>

theorem entered_host_is_always_an_edit:
  "epHostname p \<noteq> [] \<Longrightarrow> renderEmailService d p kind msg =
     Rerender p (loadSSLCertStatus d) (loadDKIMStatus d (esAgentDomain (epService p))) True kind msg"
  by (simp add: renderEmailService_def email_page_equal_def stored_page_def)

lemma entered_host_is_always_an_edit_witness:
  "renderEmailService dms_sample saved_page ''error'' [] =
     Rerender saved_page (loadSSLCertStatus dms_sample) (loadDKIMStatus dms_sample (esAgentDomain (epService saved_page)))
       True ''error'' []"
proof -
  have "epHostname saved_page \<noteq> []" by code_simp
  then show ?thesis by (rule entered_host_is_always_an_edit)
qed

end
