(* ===== verification/Token_Files.thy ===== *)
theory Token_Files
  imports Prelude
begin

text \<open>
  Files of rotating tokens.  The token stores of the program (\<open>tools/oauth_store.go\<close>, \<open>services/xero_oauth.go\<close>) write
  a token beside its file and rename it, so that a failing write never leaves half a token.  What they promise is the
  interface \<open>file_store\<close>.
\<close>

section \<open>Files\<close>

text \<open>
  The token files, and the outcome of the three calls of a write.  A write that fails leaves its target with any content:
  \<open>okTorn\<close>.
\<close>

record oauth_disk =
  okFiles :: "string \<Rightarrow> string fsfile"
  okMkdir :: "goerror option"
  okWrite :: "string \<Rightarrow> goerror option"
  okTorn :: "string \<Rightarrow> string fsfile"
  okRename :: "goerror option"

text \<open>The encoding of a token by the library and its access token.\<close>

record 't token_lib =
  tlShow :: "'t \<Rightarrow> string result"
  tlRead :: "string \<Rightarrow> 't result"
  tlAccess :: "'t \<Rightarrow> string"

definition put_at :: "string \<Rightarrow> string fsfile \<Rightarrow> oauth_disk \<Rightarrow> oauth_disk" where
  "put_at p f d = d\<lparr>okFiles := (okFiles d)(p := f)\<rparr>"

definition write_file :: "string \<Rightarrow> string \<Rightarrow> (oauth_disk, unit) io" where
  "write_file p b d =
     (case okWrite d p of Some e \<Rightarrow> (Inl e, put_at p (okTorn d p) d) | None \<Rightarrow> (ok, put_at p (Stored b) d))"

definition rename_file :: "string \<Rightarrow> string \<Rightarrow> (oauth_disk, unit) io" where
  "rename_file a b d =
     (case okRename d of Some e \<Rightarrow> (Inl e, d) | None \<Rightarrow> (ok, put_at a Absent (put_at b (okFiles d a) d)))"

text \<open>The directory is made, the token encoded, written beside its file and renamed.\<close>

definition save_file :: "string \<Rightarrow> string result \<Rightarrow> (oauth_disk, unit) io" where
  "save_file path encoded d =
     (case okMkdir d of
        Some e \<Rightarrow> (Inl e, d)
      | None \<Rightarrow>
          (case encoded of
             Inl e \<Rightarrow> (Inl e, d)
           | Inr b \<Rightarrow> io_bind (write_file (path @ ''.tmp'') b) (\<lambda>_. rename_file (path @ ''.tmp'') path) d))"

lemma save_file_result:
  assumes "save_file path encoded d = (r, d')"
  shows "(is_ok r \<longrightarrow> (\<exists>b. encoded = Inr b \<and> okFiles d' path = Stored b)) \<and>
    (\<not> is_ok r \<longrightarrow> okFiles d' path = okFiles d path) \<and>
    (\<forall>p. p \<noteq> path \<and> p \<noteq> path @ ''.tmp'' \<longrightarrow> okFiles d' p = okFiles d p)"
  using assms
  by (auto simp: save_file_def write_file_def rename_file_def put_at_def io_bind_def split: option.splits sum.splits)

lemma save_file_faults:
  assumes "save_file path encoded d = (r, d')"
  shows "okMkdir d' = okMkdir d \<and> okWrite d' = okWrite d \<and> okRename d' = okRename d"
  using assms
  by (auto simp: save_file_def write_file_def rename_file_def put_at_def io_bind_def split: option.splits sum.splits)

text \<open>Without faults of the disk the encoded token is stored.\<close>

lemma save_file_stores:
  assumes "okMkdir d = None" "okWrite d (path @ ''.tmp'') = None" "okRename d = None" "encoded = Inr b"
  shows "\<exists>d'. save_file path encoded d = (ok, d') \<and> okFiles d' path = Stored b"
  using assms by (simp add: save_file_def write_file_def rename_file_def put_at_def io_bind_def)

text \<open>A token is stored as it is when the library reads back what it writes.\<close>

definition coded :: "'t token_lib \<Rightarrow> 't \<Rightarrow> bool" where
  "coded lib t \<longleftrightarrow> (case tlShow lib t of Inl e \<Rightarrow> True | Inr b \<Rightarrow> tlRead lib b = Inr t)"

section \<open>What a store promises\<close>

text \<open>
  \<open>load\<close> reads the stored token, \<open>fine\<close> holds of the tokens a store can hold.  A successful save is read back, a failed one
  changes nothing that is read.
\<close>

fun saves :: "('t \<Rightarrow> (oauth_disk, unit) io) \<Rightarrow> 't list \<Rightarrow> oauth_disk \<Rightarrow> 't list \<times> oauth_disk" where
  "saves save [] d = ([], d)"
| "saves save (t # ts) d =
     (case save t d of (r, d1) \<Rightarrow>
        (case saves save ts d1 of (kept, d2) \<Rightarrow> (if is_ok r then t # kept else kept, d2)))"

locale file_store =
  fixes save :: "'t \<Rightarrow> (oauth_disk, unit) io"
    and load :: "oauth_disk \<Rightarrow> 't option"
    and fine :: "'t \<Rightarrow> bool"
  assumes saved: "save t d = (r, d') \<Longrightarrow> is_ok r \<Longrightarrow> fine t \<Longrightarrow> load d' = Some t"
    and unsaved: "save t d = (r, d') \<Longrightarrow> \<not> is_ok r \<Longrightarrow> load d' = load d"
begin

lemma last_save_is_read:
  assumes "saves save ts d = (kept, d')" "list_all fine ts"
  shows "load d' = (if kept = [] then load d else Some (last kept))"
  using assms
proof (induction ts arbitrary: d kept d')
  case (Cons t ts)
  obtain r d1 where r: "save t d = (r, d1)" by fastforce
  obtain kept1 d2 where rest: "saves save ts d1 = (kept1, d2)" by fastforce
  have ih: "load d2 = (if kept1 = [] then load d1 else Some (last kept1))" using Cons.IH [OF rest] Cons.prems(2) by simp
  have "load d1 = (if is_ok r then Some t else load d)" using saved [OF r] unsaved [OF r] Cons.prems(2) by simp
  then show ?case using ih Cons.prems(1) r rest by (auto split: if_splits)
qed simp

end

end
