(* ===== verification/Mcp_Client.thy ===== *)
theory Mcp_Client
  imports Json Filepath Token_Files
begin

text \<open>
  The client of remote and local MCP servers (\<open>internal/tools/mcp_helper.go\<close>) and the store of OAuth tokens
  (\<open>oauth_store.go\<close>).  The client library is a record of its calls; the number of sessions that are open is part of the
  state, and so are the files of the tokens.
\<close>

section \<open>The client library\<close>

datatype mcp_content = TextContent string | OtherContent

record mcp_tool =
  mtName :: string
  mtDescription :: string
  mtSchema :: string

text \<open>
  Creating a client, its initialisation, the list of tools and a call, over the world \<open>'w\<close>, with options of type \<open>'o\<close>;
  last the text of a JSON error.
\<close>

record ('w, 'o) mcp_lib =
  mlNew :: "string \<Rightarrow> 'o \<Rightarrow> ('w, unit) io"
  mlInitialize :: "('w, unit) io"
  mlList :: "('w, mcp_tool list) io"
  mlCall :: "string \<Rightarrow> (string \<times> json) list \<Rightarrow> ('w, mcp_content list) io"
  mlWhy :: "string \<Rightarrow> string"

record 'w mcp_state =
  mcWorld :: 'w
  mcOpen :: nat

definition in_world :: "('w, 'a) io \<Rightarrow> ('w mcp_state, 'a) io" where
  "in_world m s = (case m (mcWorld s) of (r, w) \<Rightarrow> (r, s\<lparr>mcWorld := w\<rparr>))"

definition opened :: "'w mcp_state \<Rightarrow> 'w mcp_state" where "opened s = s\<lparr>mcOpen := mcOpen s + 1\<rparr>"
definition closed :: "'w mcp_state \<Rightarrow> 'w mcp_state" where "closed s = s\<lparr>mcOpen := mcOpen s - 1\<rparr>"

text \<open>\<open>c.Close()\<close> when a call on the client fails.\<close>

definition close_on_error :: "('w mcp_state, 'a) io \<Rightarrow> ('w mcp_state, 'a) io" where
  "close_on_error m s = (case m s of (Inl e, s') \<Rightarrow> (Inl e, closed s') | (Inr x, s') \<Rightarrow> (Inr x, s'))"

section \<open>Arguments\<close>

text \<open>\<open>json.Unmarshal\<close> into a map: an object, or \<open>null\<close>, of equal keys the last; \<open>why\<close> is the text of its error.\<close>

definition parseMCPInput :: "(string \<Rightarrow> string) \<Rightarrow> string \<Rightarrow> string \<Rightarrow> (string \<times> json) list result" where
  "parseMCPInput why input toolName =
     (let trimmed = trim_space input
      in if trimmed = [] then Inr []
         else case Option.bind (json_parse trimmed) members of
                Some ms \<Rightarrow> Inr (dedup_members ms)
              | None \<Rightarrow>
                  Inl (Err (''tool '' @ go_quote toolName @ '' received malformed JSON arguments ('' @ why trimmed @
                    ''). The model likely emitted an '' @
                    ''incomplete tool call '' @ em_dash @ '' retry with all required arguments as a complete JSON object'')))"

fun text_parts :: "mcp_content list \<Rightarrow> string list" where
  "text_parts [] = []"
| "text_parts (TextContent t # cs) = t # text_parts cs"
| "text_parts (OtherContent # cs) = text_parts cs"

record 'w mcp_def =
  mdName :: string
  mdDescription :: string
  mdSchema :: string
  mdExecute :: "string \<Rightarrow> ('w mcp_state, string) io"

section \<open>Servers over HTTP\<close>

definition mcpDial :: "('w, 'o) mcp_lib \<Rightarrow> string \<Rightarrow> 'o \<Rightarrow> ('w mcp_state, unit) io" where
  "mcpDial lib url opts =
     io_bind (io_wrap ''connect: '' (in_world (mlNew lib url opts))) (\<lambda>_ s.
       io_wrap ''init: '' (close_on_error (in_world (mlInitialize lib))) (opened s))"

definition http_execute :: "('w, 'o) mcp_lib \<Rightarrow> string \<Rightarrow> 'o \<Rightarrow> string \<Rightarrow> string \<Rightarrow> ('w mcp_state, string) io" where
  "http_execute lib url opts name input s =
     (case parseMCPInput (mlWhy lib) input name of
        Inl e \<Rightarrow> (Inl e, s)
      | Inr args \<Rightarrow>
          io_bind (mcpDial lib url opts) (\<lambda>_.
            io_finally (io_bind (in_world (mlCall lib name args)) (\<lambda>cs. io_return (join [nl] (text_parts cs)))) closed) s)"

definition http_def :: "('w, 'o) mcp_lib \<Rightarrow> string \<Rightarrow> string \<Rightarrow> 'o \<Rightarrow> mcp_tool \<Rightarrow> 'w mcp_def" where
  "http_def lib serverName url opts t =
     \<lparr>mdName = serverName @ ''__'' @ mtName t, mdDescription = mtDescription t, mdSchema = mtSchema t,
      mdExecute = http_execute lib url opts (mtName t)\<rparr>"

definition mcpBridgeWithOpts :: "('w, 'o) mcp_lib \<Rightarrow> string \<Rightarrow> string \<Rightarrow> 'o \<Rightarrow> ('w mcp_state, 'w mcp_def list) io" where
  "mcpBridgeWithOpts lib serverName url opts =
     io_bind (io_wrap (''mcp connect '' @ serverName @ '': '') (mcpDial lib url opts)) (\<lambda>_.
       io_bind (io_wrap (''mcp list scripts '' @ serverName @ '': '') (io_finally (in_world (mlList lib)) closed)) (\<lambda>ts.
         io_return (map (http_def lib serverName url opts) ts)))"

text \<open>The three kinds of options: static headers (none when there are none), one of them the authorization, and OAuth.\<close>

datatype 'c dial_option = Headers "(string \<times> string) list" | OAuth 'c | NoOption

definition MCPBridgeHeaders ::
  "('w, 'c dial_option) mcp_lib \<Rightarrow> string \<Rightarrow> string \<Rightarrow> (string \<times> string) list \<Rightarrow> ('w mcp_state, 'w mcp_def list) io" where
  "MCPBridgeHeaders lib serverName url headers =
     mcpBridgeWithOpts lib serverName url (if headers = [] then NoOption else Headers headers)"

definition MCPBridge ::
  "('w, 'c dial_option) mcp_lib \<Rightarrow> string \<Rightarrow> string \<Rightarrow> string \<Rightarrow> ('w mcp_state, 'w mcp_def list) io" where
  "MCPBridge lib serverName url auth =
     MCPBridgeHeaders lib serverName url (if auth \<noteq> [] then [(''Authorization'', auth)] else [])"

definition MCPBridgeOAuth ::
  "('w, 'c dial_option) mcp_lib \<Rightarrow> string \<Rightarrow> string \<Rightarrow> 'c \<Rightarrow> ('w mcp_state, 'w mcp_def list) io" where
  "MCPBridgeOAuth lib serverName url cfg = mcpBridgeWithOpts lib serverName url (OAuth cfg)"

section \<open>Servers as subprocesses\<close>

record local_mcp =
  lmServerName :: string
  lmCommand :: string
  lmArgs :: "string list"
  lmEnv :: "(string \<times> string) list"

definition local_execute :: "('w, local_mcp) mcp_lib \<Rightarrow> string \<Rightarrow> string \<Rightarrow> ('w mcp_state, string) io" where
  "local_execute lib name input s =
     (case parseMCPInput (mlWhy lib) input name of
        Inl e \<Rightarrow> (Inl e, s)
      | Inr args \<Rightarrow>
          io_bind (io_wrap (''call tool '' @ name @ '': '') (in_world (mlCall lib name args)))
            (\<lambda>cs. io_return (join [nl] (text_parts cs))) s)"

definition LocalMCPBridge :: "('w, local_mcp) mcp_lib \<Rightarrow> local_mcp \<Rightarrow> ('w mcp_state, 'w mcp_def list) io" where
  "LocalMCPBridge lib cfg =
     io_bind (io_wrap (''stdio mcp start '' @ lmServerName cfg @ '': '') (in_world (mlNew lib (lmCommand cfg) cfg))) (\<lambda>_ s.
       io_bind (io_wrap (''stdio mcp init '' @ lmServerName cfg @ '': '') (close_on_error (in_world (mlInitialize lib)))) (\<lambda>_.
         io_bind (io_wrap (''stdio mcp list scripts '' @ lmServerName cfg @ '': '') (close_on_error (in_world (mlList lib)))) (\<lambda>ts.
           io_return (map (\<lambda>t. \<lparr>mdName = lmServerName cfg @ ''__'' @ mtName t, mdDescription = mtDescription t,
             mdSchema = mtSchema t, mdExecute = local_execute lib (mtName t)\<rparr>) ts))) (opened s))"

section \<open>Sessions are closed\<close>

lemma in_world_open: "in_world m s = (r, s') \<Longrightarrow> mcOpen s' = mcOpen s"
  by (auto simp: in_world_def split: prod.splits)

lemma wrap_open: "io_wrap pre m s = (r, s') \<Longrightarrow> (\<And>r0 s0. m s = (r0, s0) \<Longrightarrow> P (is_ok r0) s0) \<Longrightarrow> P (is_ok r) s'"
  by (auto simp: io_wrap_def split: prod.splits sum.splits)

lemma close_on_error_open:
  "close_on_error m s = (r, s') \<Longrightarrow> (\<And>r0 s0. m s = (r0, s0) \<Longrightarrow> mcOpen s0 = mcOpen s) \<Longrightarrow>
     mcOpen s' = (if is_ok r then mcOpen s else mcOpen s - 1)"
  by (auto simp: close_on_error_def closed_def split: prod.splits sum.splits)

lemma bind_cases:
  assumes "io_bind m f s = (r, s')"
  obtains (fails) e where "m s = (Inl e, s')" "r = Inl e" | (runs) x s1 where "m s = (Inr x, s1)" "f x s1 = (r, s')"
  using assms by (auto simp: io_bind_def split: prod.splits sum.splits)

lemma wrap_world_open: "io_wrap pre (in_world m) s = (r, s') \<Longrightarrow> mcOpen s' = mcOpen s"
  by (auto simp: io_wrap_def split: prod.splits sum.splits dest: in_world_open)

lemma wrap_close_open:
  "io_wrap pre (close_on_error (in_world m)) s = (r, s') \<Longrightarrow> mcOpen s' = (if is_ok r then mcOpen s else mcOpen s - 1)"
  by (auto simp: io_wrap_def split: prod.splits sum.splits dest!: close_on_error_open intro: in_world_open)

lemma mcpDial_open:
  assumes "mcpDial lib url opts s = (r, s')"
  shows "mcOpen s' = (if is_ok r then mcOpen s + 1 else mcOpen s)"
  using assms unfolding mcpDial_def
proof (cases rule: bind_cases)
  case (fails e)
  then show ?thesis using wrap_world_open [OF fails(1)] by simp
next
  case (runs x s1)
  then show ?thesis using wrap_world_open [OF runs(1)] wrap_close_open [OF runs(2)] by (simp add: opened_def)
qed

lemma finally_open:
  "io_finally m closed s = (r, s') \<Longrightarrow> (\<And>r0 s0. m s = (r0, s0) \<Longrightarrow> mcOpen s0 = mcOpen s) \<Longrightarrow> mcOpen s' = mcOpen s - 1"
  by (auto simp: io_finally_def closed_def split: prod.splits)

lemma call_open:
  "io_bind (in_world m) (\<lambda>cs. io_return (f cs)) s = (r, s') \<Longrightarrow> mcOpen s' = mcOpen s"
  by (erule bind_cases) (auto dest: in_world_open)

lemma http_execute_open:
  assumes "http_execute lib url opts name input s = (r, s')"
  shows "mcOpen s' = mcOpen s"
proof (cases "parseMCPInput (mlWhy lib) input name")
  case (Inl e)
  then show ?thesis using assms by (simp add: http_execute_def)
next
  case (Inr args)
  let ?call = "io_finally (io_bind (in_world (mlCall lib name args)) (\<lambda>cs. io_return (join [nl] (text_parts cs)))) closed"
  have "io_bind (mcpDial lib url opts) (\<lambda>_. ?call) s = (r, s')" using assms Inr by (simp add: http_execute_def)
  then show ?thesis
  proof (cases rule: bind_cases)
    case (fails e)
    then show ?thesis using mcpDial_open [OF fails(1)] by simp
  next
    case (runs x s1)
    then show ?thesis using mcpDial_open [OF runs(1)] finally_open [OF runs(2)] call_open by fastforce
  qed
qed

lemma bridge_open:
  assumes "mcpBridgeWithOpts lib serverName url opts s = (r, s')"
  shows "mcOpen s' = mcOpen s"
  using assms unfolding mcpBridgeWithOpts_def
proof (cases rule: bind_cases)
  case (fails e)
  then have "mcpDial lib url opts s = (Inl e', s') \<Longrightarrow> mcOpen s' = mcOpen s" for e' using mcpDial_open by fastforce
  then show ?thesis using fails(1) by (auto simp: io_wrap_def split: prod.splits sum.splits)
next
  case (runs x s1)
  then have 1: "mcOpen s1 = mcOpen s + 1" by (auto simp: result_iff dest!: mcpDial_open)
  from runs(2) show ?thesis
  proof (cases rule: bind_cases)
    case (fails e)
    then show ?thesis using 1 finally_open [of "in_world (mlList lib)" s1] in_world_open
      by (fastforce simp: io_wrap_def split: prod.splits sum.splits)
  next
    case (runs ts s2)
    then have "io_finally (in_world (mlList lib)) closed s1 = (Inr ts, s2)" by (simp add: result_iff)
    then have "mcOpen s2 = mcOpen s1 - 1" by (rule finally_open) (rule in_world_open)
    then show ?thesis using runs(2) 1 by simp
  qed
qed

text \<open>C28. Connecting to a remote MCP server and every later call of one of its tools leave no session open, whether they succeed or fail,
  and the tools carry the name of the server.\<close>

theorem mcp_sessions_are_closed:
  assumes "mcpBridgeWithOpts lib serverName url opts s = (r, s')"
  shows "mcOpen s' = mcOpen s \<and>
    (\<forall>defs d input t. r = Inr defs \<and> d \<in> set defs \<longrightarrow>
       mcOpen (snd (mdExecute d input t)) = mcOpen t \<and> has_prefix (serverName @ ''__'') (mdName d))"
proof -
  have "mcOpen (snd (http_execute lib url opts n input t)) = mcOpen t" for n input t
    using http_execute_open [of lib url opts n input t] by (metis prod.collapse)
  moreover have "r = Inr defs \<Longrightarrow> \<exists>ts. defs = map (http_def lib serverName url opts) ts" for defs
    using assms by (auto simp: mcpBridgeWithOpts_def result_iff)
  ultimately show ?thesis using bridge_open [OF assms] by (auto simp: http_def_def has_prefix_iff)
qed

definition demo_lib :: "(string list, string) mcp_lib" where
  "demo_lib =
     \<lparr>mlNew = (\<lambda>url opts w. (ok, w @ [url])), mlInitialize = (\<lambda>w. (ok, w)),
      mlList = (\<lambda>w. (Inr [\<lparr>mtName = ''add'', mtDescription = [], mtSchema = ''{}''\<rparr>], w)),
      mlCall = (\<lambda>n args w. if args = [] then (Inl (Err ''no argument''), w) else (Inr [TextContent ''3'', OtherContent], w)),
      mlWhy = (\<lambda>s. ''unexpected end'')\<rparr>"

definition demo_state :: "string list mcp_state" where "demo_state = \<lparr>mcWorld = [], mcOpen = 1\<rparr>"

definition demo_defs :: "string list mcp_def list" where
  "demo_defs = (case fst (mcpBridgeWithOpts demo_lib ''crm'' ''https://x'' [] demo_state) of Inr ds \<Rightarrow> ds | Inl e \<Rightarrow> [])"

lemma mcp_sessions_are_closed_witness:
  "map mdName demo_defs = [''crm__add''] \<and> mcOpen (snd (mdExecute (hd demo_defs) ''{}'' demo_state)) = 1 \<and>
   fst (mdExecute (hd demo_defs) ''{}'' demo_state) = Inl (Err ''no argument'')"
proof -
  let ?r = "mcpBridgeWithOpts demo_lib ''crm'' ''https://x'' [] demo_state"
  have f: "map mdName demo_defs = [''crm__add'']" "fst (mdExecute (hd demo_defs) ''{}'' demo_state) = Inl (Err ''no argument'')"
    "is_ok (fst ?r)" "mcOpen demo_state = 1" by code_simp+
  then have r: "?r = (Inr demo_defs, snd ?r)" by (cases ?r) (auto simp: demo_defs_def result_iff)
  have "hd demo_defs \<in> set demo_defs" using f(1) by (intro hd_in_set) auto
  then show ?thesis using mcp_sessions_are_closed [OF r] f by simp
qed

text \<open>A local server is a process of its own: it stays when it could be set up, and only then.\<close>

lemma local_bridge_open:
  assumes "LocalMCPBridge lib cfg s = (r, s')"
  shows "mcOpen s' = (if is_ok r then mcOpen s + 1 else mcOpen s)"
  using assms unfolding LocalMCPBridge_def
proof (cases rule: bind_cases)
  case (fails e)
  then show ?thesis using wrap_world_open [OF fails(1)] by simp
next
  case (runs x s1)
  note s1 = wrap_world_open [OF runs(1)]
  from runs(2) show ?thesis
  proof (cases rule: bind_cases)
    case (fails e)
    then show ?thesis using wrap_close_open [OF fails(1)] s1 by (simp add: opened_def)
  next
    case (runs y s2)
    note s2 = wrap_close_open [OF runs(1)]
    from runs(2) show ?thesis
    proof (cases rule: bind_cases)
      case (fails e)
      then show ?thesis using wrap_close_open [OF fails(1)] s1 s2 by (simp add: opened_def)
    next
      case (runs ts s3)
      then show ?thesis using wrap_close_open [OF runs(1)] s1 s2 by (auto simp: opened_def)
    qed
  qed
qed

section \<open>OAuth tokens\<close>

definition oauthDir :: "bool \<Rightarrow> string" where
  "oauthDir inContainer = (if inContainer then ''data/oauth'' else ''oauth'')"

definition store_path :: "string \<Rightarrow> string \<Rightarrow> string" where
  "store_path dir serverKey = filepath_Join [dir, serverKey @ ''.json'']"

datatype token_error = NoToken | TokenError goerror

definition GetToken :: "'t token_lib \<Rightarrow> goerror option \<Rightarrow> string \<Rightarrow> oauth_disk \<Rightarrow> token_error + 't" where
  "GetToken lib ctxErr path d =
     (case ctxErr of
        Some e \<Rightarrow> Inl (TokenError e)
      | None \<Rightarrow>
          (case okFiles d path of
             Absent \<Rightarrow> Inl NoToken
           | Unreadable e \<Rightarrow> Inl (TokenError (Wrap (''reading oauth token file '' @ path @ '': '') e []))
           | Stored b \<Rightarrow>
               (case tlRead lib b of
                  Inl e \<Rightarrow> Inl (TokenError (Wrap (''parsing oauth token file '' @ path @ '': '') e []))
                | Inr tok \<Rightarrow> if tlAccess lib tok = [] then Inl NoToken else Inr tok)))"

definition SaveToken :: "'t token_lib \<Rightarrow> goerror option \<Rightarrow> string \<Rightarrow> 't \<Rightarrow> (oauth_disk, unit) io" where
  "SaveToken lib ctxErr path tok d =
     (case ctxErr of Some e \<Rightarrow> (Inl e, d) | None \<Rightarrow> save_file path (tlShow lib tok) d)"

lemma SaveToken_file:
  assumes "SaveToken lib ctxErr path tok d = (r, d')"
  shows "(is_ok r \<longrightarrow> (\<exists>b. tlShow lib tok = Inr b \<and> okFiles d' path = Stored b)) \<and>
    (\<not> is_ok r \<longrightarrow> okFiles d' path = okFiles d path) \<and>
    (\<forall>p. p \<noteq> path \<and> p \<noteq> path @ ''.tmp'' \<longrightarrow> okFiles d' p = okFiles d p)"
  using assms save_file_result [of path "tlShow lib tok" d r d'] by (auto simp: SaveToken_def split: option.splits)

text \<open>C29. A token file is never torn: whatever fails while a rotated token is saved, the file holds the old token or the new one, the new one
  exactly when saving succeeded, in which case it is the token that is used next.\<close>

theorem token_file_is_never_torn:
  assumes "SaveToken lib ctxErr path tok d = (r, d')"
    and "\<And>b. tlShow lib tok = Inr b \<Longrightarrow> tlRead lib b = Inr tok" "tlAccess lib tok \<noteq> []"
  shows "GetToken lib None path d' = (if is_ok r then Inr tok else GetToken lib None path d) \<and>
    (\<forall>key dir. store_path dir key \<noteq> path \<and> store_path dir key \<noteq> path @ ''.tmp'' \<longrightarrow>
       GetToken lib None (store_path dir key) d' = GetToken lib None (store_path dir key) d)"
proof -
  note f = SaveToken_file [OF assms(1)]
  have "GetToken lib None path d' = Inr tok" if ok: "is_ok r"
  proof -
    obtain b where b: "tlShow lib tok = Inr b" "okFiles d' path = Stored b" using conjunct1 [OF f] ok by blast
    then show ?thesis using assms(2) [OF b(1)] assms(3) by (simp add: GetToken_def)
  qed
  moreover have "GetToken lib None path d' = GetToken lib None path d" if "\<not> is_ok r"
    using conjunct1 [OF conjunct2 [OF f]] that by (simp add: GetToken_def)
  moreover have "GetToken lib None p d' = GetToken lib None p d" if "p \<noteq> path \<and> p \<noteq> path @ ''.tmp''" for p
    using conjunct2 [OF conjunct2 [OF f]] that by (simp add: GetToken_def)
  ultimately show ?thesis by simp
qed

interpretation oauth: file_store "SaveToken lib None path"
  "\<lambda>d. case GetToken lib None path d of Inr t \<Rightarrow> Some t | Inl e \<Rightarrow> None"
  "\<lambda>t. coded lib t \<and> tlAccess lib t \<noteq> []" for lib path
proof
  fix t d r d' assume a: "SaveToken lib None path t d = (r, d')"
  note f = SaveToken_file [OF a]
  show "(case GetToken lib None path d' of Inr t \<Rightarrow> Some t | Inl e \<Rightarrow> None) = Some t"
    if ok: "is_ok r" "coded lib t \<and> tlAccess lib t \<noteq> []"
  proof -
    obtain b where "tlShow lib t = Inr b" "okFiles d' path = Stored b" using conjunct1 [OF f] ok(1) by blast
    then show ?thesis using ok(2) by (simp add: coded_def GetToken_def)
  qed
  show "(case GetToken lib None path d' of Inr t \<Rightarrow> Some t | Inl e \<Rightarrow> None) =
      (case GetToken lib None path d of Inr t \<Rightarrow> Some t | Inl e \<Rightarrow> None)" if "\<not> is_ok r"
    using conjunct1 [OF conjunct2 [OF f]] that by (simp add: GetToken_def)
qed

definition demo_tokens :: "string token_lib" where
  "demo_tokens = \<lparr>tlShow = Inr, tlRead = Inr, tlAccess = (\<lambda>t. t)\<rparr>"

definition torn_disk :: oauth_disk where
  "torn_disk =
     \<lparr>okFiles = (\<lambda>p. if p = ''oauth/crm.json'' then Stored ''old'' else Absent), okMkdir = None,
      okWrite = (\<lambda>p. Some (Err ''no space'')), okTorn = (\<lambda>p. Stored ''ne''), okRename = None\<rparr>"

lemma token_file_is_never_torn_witness:
  "GetToken demo_tokens None ''oauth/crm.json'' (snd (SaveToken demo_tokens None ''oauth/crm.json'' ''new'' torn_disk)) = Inr ''old'' \<and>
   GetToken demo_tokens None ''oauth/crm.json''
     (snd (SaveToken demo_tokens None ''oauth/crm.json'' ''new'' (torn_disk\<lparr>okWrite := (\<lambda>p. None)\<rparr>))) = Inr ''new''"
proof -
  let ?s = "SaveToken demo_tokens None ''oauth/crm.json'' ''new''" and ?g = "torn_disk\<lparr>okWrite := (\<lambda>p. None)\<rparr>"
  have l: "\<And>b. tlShow demo_tokens ''new'' = Inr b \<Longrightarrow> tlRead demo_tokens b = Inr ''new''" "tlAccess demo_tokens ''new'' \<noteq> []"
    by (simp_all add: demo_tokens_def)
  have f: "\<not> is_ok (fst (?s torn_disk))" "is_ok (fst (?s ?g))" "GetToken demo_tokens None ''oauth/crm.json'' torn_disk = Inr ''old''"
    by code_simp+
  have t: "GetToken demo_tokens None ''oauth/crm.json'' (snd (?s d)) =
      (if is_ok (fst (?s d)) then Inr ''new'' else GetToken demo_tokens None ''oauth/crm.json'' d)" for d
  proof -
    have r: "?s d = (fst (?s d), snd (?s d))" by (rule prod.collapse [symmetric])
    show ?thesis by (rule conjunct1 [OF token_file_is_never_torn [OF r l]])
  qed
  show ?thesis using f(1,2,3) unfolding t by (simp only: if_True if_False)
qed

end
