(* ===== verification/Local_Tools.thy ===== *)
theory Local_Tools
  imports Mail_Transport Json Filepath
begin

text \<open>
  Tools that work on the machine of the agent: commands (\<open>internal/tools/cli_helper.go\<close>, \<open>bash.go\<close>), files
  (\<open>save_attachment.go\<close>, \<open>download.go\<close>, \<open>file_text.go\<close> with \<open>services/tika.go\<close>) and the search of the mailbox
  (\<open>mbox_search.go\<close>).  Running a command, an HTTP request and the conversion service are parameters; the input of a
  tool is its decoded parameters, or the decoding error.
\<close>

section \<open>Commands\<close>

record cli_config =
  clPrefix :: string
  clCommand :: string
  clBaseArgs :: "string list"
  clEnv :: "(string \<times> string) list"
  clTimeout :: int
  clJSONFlag :: string
  clRoots :: "string list list"

text \<open>
  The combined output of a process and the error it ended with; the arguments are the command, its arguments, the extra
  environment and the time limit in seconds.
\<close>

type_synonym 'w runner = "string \<Rightarrow> string list \<Rightarrow> (string \<times> string) list \<Rightarrow> int \<Rightarrow> 'w \<Rightarrow> (string \<times> goerror option) \<times> 'w"

definition CLIExec :: "'w runner \<Rightarrow> cli_config \<Rightarrow> string list \<Rightarrow> ('w, string) io" where
  "CLIExec run cfg subcommand w =
     (case run (clCommand cfg) (clBaseArgs cfg @ subcommand) (clEnv cfg) (if clTimeout cfg \<le> 0 then 30 else clTimeout cfg) w of
        ((out, err), w') \<Rightarrow>
          (case err of
             Some e \<Rightarrow> (Inl (Wrap (''cli exec '' @ clPrefix cfg @ '': '') e ([nl] @ ''output: '' @ trim_space out)), w')
           | None \<Rightarrow> (Inr (trim_space out), w')))"

definition hasPrefix :: "string list \<Rightarrow> string list \<Rightarrow> bool" where
  "hasPrefix tokens prefix \<longleftrightarrow> length prefix \<le> length tokens \<and> take (length prefix) tokens = prefix"

text \<open>\<open>None\<close> is a panic: slicing with a start behind the end.\<close>

definition resolveRoot :: "string list list \<Rightarrow> string \<Rightarrow> string list option" where
  "resolveRoot roots command =
     (let fields = go_fields command
      in if roots = [] then Some fields
         else if list_ex (\<lambda>root. root \<noteq> [] \<and> hasPrefix fields root) roots then Some fields
         else case find (\<lambda>root. root \<noteq> [] \<and> fields \<noteq> [] \<and> hd fields = hd root) roots of
                Some root \<Rightarrow> if length root \<le> length fields then Some (root @ drop (length root) fields) else None
              | None \<Rightarrow>
                  (case roots of
                     [root] \<Rightarrow> if root \<noteq> [] then Some (root @ fields) else Some fields
                   | _ \<Rightarrow> Some fields))"

definition rootsScope :: "string \<Rightarrow> string list list \<Rightarrow> string" where
  "rootsScope prefix roots =
     (if roots = [] then prefix else join '', '' (map (\<lambda>r. prefix @ '' '' @ join '' '' r) roots))"

definition panic :: goerror where "panic = Err ''runtime error: slice bounds out of range''"

definition cli_help :: "'w runner \<Rightarrow> cli_config \<Rightarrow> string \<Rightarrow> string result \<Rightarrow> ('w, string) io" where
  "cli_help run cfg topLevelHelp input w =
     (case wrap_err ''parsing input: '' input of
        Inl e \<Rightarrow> (Inl e, w)
      | Inr sub \<Rightarrow>
          if sub = [] then (Inr topLevelHelp, w)
          else case resolveRoot (clRoots cfg) sub of
                 None \<Rightarrow> (Inl panic, w)
               | Some args \<Rightarrow> CLIExec run cfg (args @ [''--help'']) w)"

definition cli_run :: "'w runner \<Rightarrow> cli_config \<Rightarrow> string \<Rightarrow> string result \<Rightarrow> ('w, string) io" where
  "cli_run run cfg jsonFlag input w =
     (case wrap_err ''parsing input: '' input of
        Inl e \<Rightarrow> (Inl e, w)
      | Inr argline \<Rightarrow>
          (case resolveRoot (clRoots cfg) argline of
             None \<Rightarrow> (Inl panic, w)
           | Some args \<Rightarrow> CLIExec run cfg (if jsonFlag \<noteq> [] then args @ [jsonFlag] else args) w))"

text \<open>The help of every root at the start; a root whose help fails is left out.\<close>

fun help_sections :: "'w runner \<Rightarrow> cli_config \<Rightarrow> string list list \<Rightarrow> 'w \<Rightarrow> string list \<times> 'w" where
  "help_sections run cfg [] w = ([], w)"
| "help_sections run cfg (root # roots) w =
     (case CLIExec run cfg (root @ [''--help'']) w of
        (Inl e, w') \<Rightarrow> help_sections run cfg roots w'
      | (Inr h, w') \<Rightarrow>
          (let bar = [CHR 0xE2, CHR 0x94, CHR 0x80, CHR 0xE2, CHR 0x94, CHR 0x80];
               (hs, w'') = help_sections run cfg roots w'
           in ((if root \<noteq> [] then bar @ '' '' @ join '' '' root @ '' '' @ bar @ [nl] @ h else h) # hs, w'')))"

text \<open>The two tools of a navigator with the help text and the JSON flag, or none.\<close>

definition json_flag :: "cli_config \<Rightarrow> string" where
  "json_flag cfg = (if clJSONFlag cfg = [] then ''--json'' else if clJSONFlag cfg = ''-'' then [] else clJSONFlag cfg)"

definition CLINavigator :: "'w runner \<Rightarrow> cli_config \<Rightarrow> 'w \<Rightarrow> (string result \<Rightarrow> ('w, string) io) list \<times> 'w" where
  "CLINavigator run cfg w =
     (case help_sections run cfg (if clRoots cfg = [] then [[]] else clRoots cfg) w of
        (hs, w') \<Rightarrow>
          if hs = [] then ([], w')
          else ([cli_help run cfg (join [nl, nl] hs), cli_run run cfg (json_flag cfg)], w'))"

record bash_params =
  bpCommand :: string
  bpTimeoutSeconds :: int

definition bash_unavailable :: string where
  "bash_unavailable =
     ''bash_exec: bash is not installed in this container. '' @
     ''This is an environment / image problem, not a usage error: ask an '' @
     ''operator to add `bash` (and any utilities your workflow needs, '' @
     ''e.g. curl, jq) to the runtime image. Do NOT retry this tool, do '' @
     ''NOT attempt to install bash yourself, and do NOT silently fall '' @
     ''back to alternative shells. Report the missing dependency to the '' @
     ''requester via report_tool / message_tool and stop.''"

text \<open>A failing command is a result like any other: the model reads its error.\<close>

definition executeBash :: "'w runner \<Rightarrow> bool \<Rightarrow> bash_params result \<Rightarrow> ('w, string) io" where
  "executeBash run available input w =
     (if \<not> available then (Inr bash_unavailable, w)
      else case wrap_err ''invalid input: '' input of
             Inl e \<Rightarrow> (Inl e, w)
           | Inr p \<Rightarrow>
               (case run ''bash'' [''-c'', bpCommand p] [] (if bpTimeoutSeconds p > 0 then bpTimeoutSeconds p else 30) w of
                  ((out, err), w') \<Rightarrow>
                    (case err of
                       Some e \<Rightarrow> (Inr (''exit error: '' @ err_text e @ [nl] @ ''output:'' @ [nl] @ trim_space out), w')
                     | None \<Rightarrow> (Inr (trim_space out), w'))))"

section \<open>Attachments and downloads on disk\<close>

text \<open>The files of the machine by path, and the paths that cannot be written (directories among them).\<close>

record tool_disk =
  tfFiles :: "string \<Rightarrow> string option"
  tfFault :: "string \<Rightarrow> goerror option"

definition store_file :: "string \<Rightarrow> string \<Rightarrow> (tool_disk, unit) io" where
  "store_file path data d =
     (case tfFault d path of Some e \<Rightarrow> (Inl e, d) | None \<Rightarrow> (ok, d\<lparr>tfFiles := (tfFiles d)(path \<mapsto> data)\<rparr>))"

definition safe_name :: "string \<Rightarrow> string" where
  "safe_name name = (let b = filepath_Base name in if b = [] \<or> b = ''.'' \<or> b = ''/'' then ''attachment.bin'' else b)"

text \<open>\<open>src\<close> is the email the agent is working on, \<open>tmp\<close> the directory of temporary files.\<close>

definition find_attachment :: "string \<Rightarrow> email option \<Rightarrow> attachment result" where
  "find_attachment requested src =
     (case src of
        None \<Rightarrow>
          Inl (Err (''no inbound email on context '' @ em_dash @ '' save_attachment is only callable while processing an email''))
      | Some e \<Rightarrow>
          if eAttachments e = [] then Inl (Err ''the current inbound email has no attachments'')
          else case find (\<lambda>a. to_lower (attName a) = to_lower requested) (eAttachments e) of
                 None \<Rightarrow>
                   Inl (Err (''no attachment named '' @ go_quote requested @ '' on the inbound email; available: '' @
                     join '', '' (map attName (eAttachments e))))
               | Some a \<Rightarrow>
                   if attData a = [] then Inl (Err (''attachment '' @ go_quote (attName a) @ '' has zero bytes'')) else Inr a)"

definition executeSaveAttachment :: "string \<Rightarrow> email option \<Rightarrow> string result \<Rightarrow> (tool_disk, string) io" where
  "executeSaveAttachment tmp src input d =
     (case and_then (wrap_err ''invalid input: '' input) (\<lambda>name.
             if trim_space name = [] then Inl (Err ''name is required'') else find_attachment (trim_space name) src) of
        Inl e \<Rightarrow> (Inl e, d)
      | Inr a \<Rightarrow>
          (let destPath = filepath_Join [tmp, safe_name (attName a)]
           in io_bind (io_wrap ''write attachment: '' (store_file destPath (attData a)))
                (\<lambda>_. io_return (''Saved '' @ show_nat (length (attData a)) @ '' bytes to '' @ destPath)) d))"

text \<open>
  The conversion service: \<open>put\<close> sends the bytes under a name and answers with a status and a body.  The decoder reads the
  first value of the body.
\<close>

type_synonym tika = "string \<Rightarrow> string \<Rightarrow> (nat \<times> string) result"

definition first_json :: "string \<Rightarrow> json option" where
  "first_json s = map_option fst (parse_val (2 * length s + 2) s)"

definition ExtractTextFromBytes :: "tika \<Rightarrow> string \<Rightarrow> string \<Rightarrow> string result" where
  "ExtractTextFromBytes put data filename =
     and_then (wrap_err ''tika: request failed: '' (put data filename)) (\<lambda>(status, body).
       if status \<noteq> 200 then Inl (Err (''tika: status '' @ show_nat status @ '': '' @ body))
       else case Option.bind (first_json body) members of
              None \<Rightarrow> Inl (Err ''tika: decode response'')
            | Some ms \<Rightarrow>
                (case map_of (dedup_members ms) ''X-TIKA:content'' of
                   Some (JStr s) \<Rightarrow> Inr s
                 | _ \<Rightarrow> Inl (Err ''tika: X-TIKA:content not found in response'')))"

definition ExtractTextFromFile :: "tika \<Rightarrow> tool_disk \<Rightarrow> string \<Rightarrow> string result" where
  "ExtractTextFromFile put d path =
     (case tfFiles d path of
        None \<Rightarrow> Inl (Err ''tika: read file: file does not exist'')
      | Some data \<Rightarrow> ExtractTextFromBytes put data (filepath_Base path))"

record file_text_params =
  ftFilename :: string
  ftPath :: string
  ftData :: string

definition textFromFile :: "tika \<Rightarrow> tool_disk \<Rightarrow> file_text_params result \<Rightarrow> string result" where
  "textFromFile put d input =
     and_then (wrap_err ''invalid input: '' input) (\<lambda>p.
       case (if ftData p = [] then Some [] else b64_decode (ftData p)) of
         None \<Rightarrow> Inl (Err ''failed to decode base64 data'')
       | Some data \<Rightarrow>
           if data \<noteq> [] then ExtractTextFromBytes put data (ftFilename p)
           else if ftPath p \<noteq> [] then ExtractTextFromFile put d (ftPath p)
           else Inl (Err ''no data provided''))"

record download_params =
  dpURL :: string
  dpFilename :: string
  dpExtractText :: "bool option"

definition download_name :: "download_params \<Rightarrow> string" where
  "download_name p =
     (if dpFilename p \<noteq> [] then dpFilename p
      else let b = filepath_Base (dpURL p) in if b = [] \<or> b = ''.'' \<or> b = ''/'' then ''downloaded_file'' else b)"

text \<open>\<open>get\<close> is the HTTP request: a status and a body.\<close>

definition executeDownload ::
  "(string \<Rightarrow> (nat \<times> string) result) \<Rightarrow> tika \<Rightarrow> string \<Rightarrow> download_params result \<Rightarrow> (tool_disk, string) io" where
  "executeDownload get put tmp input d =
     (case and_then (wrap_err ''invalid input: '' input) (\<lambda>p.
             if dpURL p = [] then Inl (Err ''url is required'')
             else and_then (wrap_err ''download failed: '' (get (dpURL p))) (\<lambda>(status, body).
               if status \<noteq> 200 then Inl (Err (''download failed: HTTP '' @ show_nat status)) else Inr (p, body))) of
        Inl e \<Rightarrow> (Inl e, d)
      | Inr (p, body) \<Rightarrow>
          (let destPath = filepath_Join [tmp, download_name p];
               done = ''Downloaded '' @ show_nat (length body) @ '' bytes to '' @ destPath
           in io_bind (io_wrap ''failed to create file: '' (store_file destPath body)) (\<lambda>_ d'.
                if dpExtractText p = Some False then (Inr done, d')
                else case ExtractTextFromFile put d' destPath of
                       Inl e \<Rightarrow> (Inr (done @ '' (text extraction failed: '' @ err_text e @ '')''), d')
                     | Inr t \<Rightarrow> (Inr t, d')) d))"

section \<open>Searching the mailbox\<close>

record mbox_params =
  mpFolder :: string
  mpFrom :: string
  mpTo :: string
  mpSubject :: string
  mpDateFrom :: string
  mpDateTo :: string
  mpUnread :: bool
  mpStarred :: bool
  mpHasAttachments :: bool

definition opt_date :: "(string \<Rightarrow> gotime result) \<Rightarrow> string \<Rightarrow> string \<Rightarrow> gotime option result" where
  "opt_date parseTime what s =
     (if s = [] then Inr None
      else and_then (wrap_err (''parsing '' @ what @ '': '') (parseTime s)) (\<lambda>t. Inr (Some t)))"

definition mbox_query :: "(string \<Rightarrow> gotime result) \<Rightarrow> mbox_params \<Rightarrow> mail_search result" where
  "mbox_query parseTime p =
     and_then (opt_date parseTime ''date_from'' (mpDateFrom p)) (\<lambda>from.
     and_then (opt_date parseTime ''date_to'' (mpDateTo p)) (\<lambda>to.
       Inr \<lparr>qFrom = mpFrom p, qTo = mpTo p, qSubject = mpSubject p, qDateFrom = from, qDateTo = to, qUnread = mpUnread p,
            qStarred = mpStarred p, qHasAttachments = mpHasAttachments p, qFolder = mpFolder p\<rparr>))"

definition opt_str :: "string \<Rightarrow> string \<Rightarrow> (string \<times> json) list" where
  "opt_str key v = (if v = [] then [] else [(key, JStr v)])"

definition opt_strs :: "string \<Rightarrow> string list \<Rightarrow> (string \<times> json) list" where
  "opt_strs key vs = (if vs = [] then [] else [(key, JArr (map JStr vs))])"

definition attachment_summary :: "attachment \<Rightarrow> json" where
  "attachment_summary a = JObj [(''name'', JStr (attName a)), (''size_bytes'', JNum (show_nat (length (attData a))))]"

definition mail_summary :: "email \<Rightarrow> json" where
  "mail_summary e =
     JObj (opt_str ''message-id'' (eMessageId e) @ opt_str ''from'' (eFrom e) @ opt_strs ''to'' (eTo e) @ opt_strs ''cc'' (eCc e) @
       [(''date'', JStr (fmt_rfc3339 (eDate e)))] @ opt_str ''subject'' (eSubject e) @ opt_str ''inReplyTo'' (eInReplyTo e) @
       opt_strs ''references'' (eReferences e) @ opt_str ''content'' (eContent e) @
       (if eAttachments e = [] then [] else [(''attachments'', JArr (map attachment_summary (eAttachments e)))]))"

definition search_answer :: "string \<Rightarrow> email list \<Rightarrow> string" where
  "search_answer folder emails =
     (if emails = [] then
        ''No emails found in '' @ (if folder = [] then ''inbox'' else folder) @ '' matching the given criteria.''
      else json_show (JArr (map mail_summary emails)))"

definition searchMbox ::
  "'s mail_ops \<Rightarrow> config \<Rightarrow> (string \<Rightarrow> gotime result) \<Rightarrow> mbox_params result \<Rightarrow> ('s, string) io" where
  "searchMbox mo cfg parseTime input s =
     (case and_then (wrap_err ''parsing input: '' input) (\<lambda>p. and_then (mbox_query parseTime p) (\<lambda>q. Inr (p, q))) of
        Inl e \<Rightarrow> (Inl e, s)
      | Inr (p, q) \<Rightarrow>
          io_bind (io_wrap ''mailbox search: '' (MailBoxSearch mo cfg q)) (\<lambda>emails. io_return (search_answer (mpFolder p) emails)) s)"

section \<open>A saved attachment stays where it belongs\<close>

lemma safe_name_cases: "plain_name (safe_name name) \<or> safe_name name = ''..''"
  using base_cases [of name] by (auto simp: safe_name_def plain_name_def Let_def)

lemma join_append_sep: "ps \<noteq> [] \<Longrightarrow> join sep (ps @ [n]) = join sep ps @ sep @ n"
  by (induction sep ps rule: join.induct) auto

lemma Join_rooted:
  assumes "ps \<noteq> []" "list_all plain_name ps" "plain_name n"
  shows "filepath_Join [''/'' @ join ''/'' ps, n] = ''/'' @ join ''/'' ps @ ''/'' @ n"
proof -
  have j: "join ''/'' [''/'' @ join ''/'' ps, n] = ''/'' @ join ''/'' (ps @ [n])" using assms(1) by (simp add: join_append_sep)
  have "split_char (CHR ''/'') (''/'' @ join ''/'' (ps @ [n])) = [] # (ps @ [n])"
    using split_join_plain [of "ps @ [n]"] assms by (simp add: split_char_def)
  moreover have "clean_parts True [] ([] # (ps @ [n])) = ps @ [n]"
    using clean_parts_plain [of "ps @ [n]" True "[]"] assms(2,3) by simp
  ultimately have c: "filepath_Clean (''/'' @ join ''/'' (ps @ [n])) = ''/'' @ join ''/'' (ps @ [n])"
    by (simp add: filepath_Clean_def)
  have "filepath_Join [''/'' @ join ''/'' ps, n] = filepath_Clean (join ''/'' [''/'' @ join ''/'' ps, n])"
    by (simp add: filepath_Join_def)
  also have "\<dots> = ''/'' @ join ''/'' (ps @ [n])" by (simp only: j c)
  finally show ?thesis by (simp only: join_append_sep [OF assms(1)])
qed

text \<open>C30. Saving an attachment writes the bytes of an attachment of the current email to one file directly in the directory of temporary
  files, whatever name the email gives it, and nothing else.\<close>

theorem saved_attachment_stays_in_tmp:
  assumes "executeSaveAttachment (''/'' @ join ''/'' ps) src input d = (Inr msg, d')" "ps \<noteq> []" "list_all plain_name ps"
    and "tfFault d (filepath_Join [''/'' @ join ''/'' ps, ''..'']) \<noteq> None"
  shows "\<exists>e a n. src = Some e \<and> a \<in> set (eAttachments e) \<and> attData a \<noteq> [] \<and> plain_name n \<and>
    d' = d\<lparr>tfFiles := (tfFiles d)(''/'' @ join ''/'' ps @ ''/'' @ n \<mapsto> attData a)\<rparr>"
proof -
  let ?tmp = "''/'' @ join ''/'' ps"
  let ?x = "and_then (wrap_err ''invalid input: '' input) (\<lambda>name.
    if trim_space name = [] then Inl (Err ''name is required'') else find_attachment (trim_space name) src)"
  obtain a where x: "?x = Inr a" using assms(1) by (cases ?x) (simp_all add: executeSaveAttachment_def)
  then obtain name where a: "find_attachment (trim_space name) src = Inr a"
    by (auto simp: and_then_def wrap_err_def split: sum.splits if_splits)
  have w: "store_file (filepath_Join [?tmp, safe_name (attName a)]) (attData a) d = (ok, d')"
    using assms(1) unfolding executeSaveAttachment_def x by (simp add: Let_def io_bind_Inr io_wrap_Inr io_return_def)
  obtain e where e: "src = Some e" "a \<in> set (eAttachments e)" "attData a \<noteq> []"
    using a by (auto simp: find_attachment_def find_Some_iff split: option.splits if_splits)
  have d': "tfFault d (filepath_Join [?tmp, safe_name (attName a)]) = None"
    "d' = d\<lparr>tfFiles := (tfFiles d)(filepath_Join [?tmp, safe_name (attName a)] \<mapsto> attData a)\<rparr>"
    using w by (auto simp: store_file_def split: option.splits)
  then have "plain_name (safe_name (attName a))" using safe_name_cases [of "attName a"] assms(4) by auto
  then show ?thesis using e d' Join_rooted [OF assms(2,3)] by auto
qed

definition tmp_disk :: tool_disk where
  "tmp_disk = \<lparr>tfFiles = (\<lambda>p. None), tfFault = (\<lambda>p. if p = ''/'' then Some (Err ''is a directory'') else None)\<rparr>"

definition sly_email :: email where
  "sly_email = empty_email\<lparr>eAttachments := [\<lparr>attName = ''../../etc/Cron.txt'', attData = ''abc''\<rparr>]\<rparr>"

lemma saved_attachment_stays_in_tmp_witness:
  "(\<exists>e a n. Some sly_email = Some e \<and> a \<in> set (eAttachments e) \<and> attData a \<noteq> [] \<and> plain_name n \<and>
     snd (executeSaveAttachment ''/tmp'' (Some sly_email) (Inr ''../../ETC/cron.txt'') tmp_disk) =
       tmp_disk\<lparr>tfFiles := (tfFiles tmp_disk)(''/tmp/'' @ n \<mapsto> attData a)\<rparr>) \<and>
   tfFiles (snd (executeSaveAttachment ''/tmp'' (Some sly_email) (Inr ''../../ETC/cron.txt'') tmp_disk)) ''/tmp/Cron.txt'' =
     Some ''abc''"
proof -
  let ?r = "executeSaveAttachment ''/tmp'' (Some sly_email) (Inr ''../../ETC/cron.txt'') tmp_disk"
  have f: "fst ?r = Inr ''Saved 3 bytes to /tmp/Cron.txt''" "list_all plain_name [''tmp'']"
    "tfFault tmp_disk (filepath_Join [''/tmp'', ''..'']) \<noteq> None" "tfFiles (snd ?r) ''/tmp/Cron.txt'' = Some ''abc''"
    by code_simp+
  have r: "executeSaveAttachment (''/'' @ join ''/'' [''tmp'']) (Some sly_email) (Inr ''../../ETC/cron.txt'') tmp_disk =
    (Inr ''Saved 3 bytes to /tmp/Cron.txt'', snd ?r)" using f(1) by (simp add: prod_eq_iff)
  show ?thesis using saved_attachment_stays_in_tmp [OF r _ f(2)] f(3,4) by simp
qed

text \<open>The name of a download is not cut down in this way: it can lead anywhere.\<close>

theorem download_leaves_tmp:
  "tfFiles (snd (executeDownload (\<lambda>u. Inr (200, ''x'')) (\<lambda>b n. Inl (Err ''off'')) ''/tmp''
     (Inr \<lparr>dpURL = ''https://x.org/f'', dpFilename = ''../etc/cron.d/job'', dpExtractText = Some False\<rparr>) tmp_disk))
     ''/etc/cron.d/job'' = Some ''x''"
  by code_simp

section \<open>A search does not show the bytes of attachments\<close>

definition same_but_bytes :: "email \<Rightarrow> email \<Rightarrow> bool" where
  "same_but_bytes e e' \<longleftrightarrow>
     e\<lparr>eAttachments := []\<rparr> = e'\<lparr>eAttachments := []\<rparr> \<and>
     map (\<lambda>a. (attName a, length (attData a))) (eAttachments e) = map (\<lambda>a. (attName a, length (attData a))) (eAttachments e')"

lemma same_summary: "same_but_bytes e e' \<Longrightarrow> mail_summary e = mail_summary e'"
proof -
  assume a: "same_but_bytes e e'"
  let ?g = "\<lambda>(n, l). JObj [(''name'', JStr n), (''size_bytes'', JNum (show_nat l))]"
  have "map ?g (map (\<lambda>a. (attName a, length (attData a))) (eAttachments e)) =
    map ?g (map (\<lambda>a. (attName a, length (attData a))) (eAttachments e'))"
    using a by (simp only: same_but_bytes_def)
  then have "map attachment_summary (eAttachments e) = map attachment_summary (eAttachments e')"
    by (simp add: comp_def attachment_summary_def [abs_def])
  moreover have "eAttachments e = [] \<longleftrightarrow> eAttachments e' = []" using a by (auto simp: same_but_bytes_def dest: arg_cong [of _ _ length])
  moreover have "eMessageId e = eMessageId e'" "eFrom e = eFrom e'" "eTo e = eTo e'" "eCc e = eCc e'" "eDate e = eDate e'"
    "eSubject e = eSubject e'" "eInReplyTo e = eInReplyTo e'" "eReferences e = eReferences e'" "eContent e = eContent e'"
    using a by (cases e, cases e', simp add: same_but_bytes_def)+
  ultimately show ?thesis by (simp add: mail_summary_def)
qed

text \<open>The answer of a mailbox search does not depend on the bytes of the attachments that were found, only on their names and sizes.\<close>

lemma search_hides_attachment_bytes:
  assumes "MailBoxSearch mo cfg q s = (Inr es, s1)" "MailBoxSearch mo' cfg q s = (Inr es', s2)" "list_all2 same_but_bytes es es'"
    and "mbox_query parseTime p = Inr q"
  shows "fst (searchMbox mo cfg parseTime (Inr p) s) = fst (searchMbox mo' cfg parseTime (Inr p) s)"
proof -
  have "map mail_summary es = map mail_summary es'"
    using assms(3) by (induction rule: list_all2_induct) (simp_all add: same_summary)
  moreover have "es = [] \<longleftrightarrow> es' = []" using assms(3) by (auto dest: list_all2_lengthD)
  ultimately have "search_answer (mpFolder p) es = search_answer (mpFolder p) es'" by (simp add: search_answer_def)
  then show ?thesis using assms(1,2,4) by (simp add: searchMbox_def wrap_err_def and_then_def)
qed

section \<open>The scope of a command line tool\<close>

lemma hasPrefix_iff: "hasPrefix ts p \<longleftrightarrow> (\<exists>u. ts = p @ u)"
  by (auto simp: hasPrefix_def) (metis append_take_drop_id)

text \<open>A command line tool that is limited to one subtree of its commands never runs a command outside of it: whatever the model asks for,
  what is run starts with the words of the root, or nothing is run.\<close>

theorem scoped_tool_stays_in_its_root:
  assumes "clRoots cfg = [root]" "root \<noteq> []"
  shows "(\<exists>u. cli_run run cfg jsonFlag (Inr cmd) w = CLIExec run cfg (root @ u) w) \<or>
    cli_run run cfg jsonFlag (Inr cmd) w = (Inl panic, w)"
proof (cases "resolveRoot (clRoots cfg) cmd")
  case None
  then show ?thesis by (simp add: cli_run_def wrap_err_def)
next
  case (Some args)
  then have "\<exists>u. args = root @ u"
    using assms by (auto simp: resolveRoot_def Let_def hasPrefix_iff split: if_splits) metis
  then show ?thesis using Some by (auto simp: cli_run_def wrap_err_def)
qed

definition box_scope :: "string list list \<Rightarrow> cli_config" where
  "box_scope roots = \<lparr>clPrefix = ''box'', clCommand = ''npx'', clBaseArgs = [''-y'', ''@box/cli''], clEnv = [], clTimeout = 0,
     clJSONFlag = [], clRoots = roots\<rparr>"

definition echo_runner :: "string list runner" where
  "echo_runner cmd args env t w = ((join '' '' args, None), args)"

lemma scoped_tool_stays_in_its_root_witness:
  "(\<exists>u. cli_run echo_runner (box_scope [[''files'']]) ''--json'' (Inr ''users delete 7'') [] =
     CLIExec echo_runner (box_scope [[''files'']]) ([''files''] @ u) []) \<and>
   cli_run echo_runner (box_scope [[''files'']]) ''--json'' (Inr ''users delete 7'') [] =
     (Inr ''-y @box/cli files users delete 7 --json'', [''-y'', ''@box/cli'', ''files'', ''users'', ''delete'', ''7'', ''--json''])"
proof -
  have r: "clRoots (box_scope [[''files'']]) = [[''files'']]" "[''files''] \<noteq> []" by (simp_all add: box_scope_def)
  have f: "cli_run echo_runner (box_scope [[''files'']]) ''--json'' (Inr ''users delete 7'') [] =
     (Inr ''-y @box/cli files users delete 7 --json'', [''-y'', ''@box/cli'', ''files'', ''users'', ''delete'', ''7'', ''--json''])"
    by code_simp
  show ?thesis using scoped_tool_stays_in_its_root [OF r, of echo_runner "''--json''" "''users delete 7''" "[]"] f by simp
qed

text \<open>
  With several roots a command that matches none is run as it is; a command that shares only its first word with a root loses
  its own words, or slices behind its end.
\<close>

theorem roots_are_not_enforced:
  "resolveRoot [[''files''], [''folders'', ''items'']] ''users delete 7'' = Some [''users'', ''delete'', ''7''] \<and>
   resolveRoot [[''folders'', ''items'']] ''folders get 7'' = Some [''folders'', ''items'', ''7''] \<and>
   resolveRoot [[''folders'', ''items'']] ''folders'' = None"
  by code_simp

end
