(* ===== verification/Http.thy ===== *)
theory Http
  imports Encoding "HOL-Library.List_Lexorder" "HOL-Library.Char_ord"
begin

text \<open>
  Requests and responses of \<open>net/http\<close> as far as the code looks at them, and the escaping of \<open>net/url\<close>: \<open>QueryEscape\<close>,
  \<open>QueryUnescape\<close> with their round trip, and the encoding of form values.
\<close>

section \<open>Requests\<close>

datatype http_body = NoContent | Multipart string string string | Payload string

record http_request =
  hrMethod :: string
  hrURL :: string
  hrHeaders :: "(string \<times> string) list"
  hrBody :: http_body

record http_response =
  hpStatus :: nat
  hpDisposition :: string
  hpBody :: string

section \<open>Escaping\<close>

text \<open>\<open>url.QueryEscape\<close> keeps letters, digits and \<open>-_.~\<close>, writes a space as a plus sign and escapes every other byte.\<close>

definition query_plain :: "char \<Rightarrow> bool" where
  "query_plain c \<longleftrightarrow> is_lower c \<or> is_upper c \<or> is_digit c \<or> c \<in> set ''-_.~''"

definition query_escape_char :: "char \<Rightarrow> string" where
  "query_escape_char c =
     (if query_plain c then [c] else if c = CHR '' '' then ''+''
      else [CHR ''%'', upper_hex_digit (of_char c div 16), upper_hex_digit (of_char c mod 16)])"

definition QueryEscape :: "string \<Rightarrow> string" where
  "QueryEscape s = concat (map query_escape_char s)"

fun QueryUnescape :: "string \<Rightarrow> string option" where
  "QueryUnescape [] = Some []"
| "QueryUnescape (c # cs) =
     (if c = CHR ''%'' then
        (case cs of
           a # b # rest \<Rightarrow>
             (case (hex_value a, hex_value b) of
                (Some x, Some y) \<Rightarrow> map_option ((#) (char_of (16 * x + y))) (QueryUnescape rest)
              | _ \<Rightarrow> None)
         | _ \<Rightarrow> None)
      else map_option ((#) (if c = CHR ''+'' then CHR '' '' else c)) (QueryUnescape cs))"

lemma query_plain_not_special: "query_plain c \<Longrightarrow> c \<noteq> CHR ''%'' \<and> c \<noteq> CHR ''+''"
  by (auto simp: query_plain_def is_lower_def is_upper_def is_digit_def)

lemma QueryUnescape_escape_char:
  "QueryUnescape (query_escape_char c @ s) = map_option ((#) c) (QueryUnescape s)"
  using query_plain_not_special [of c]
  by (auto simp: query_escape_char_def hex_value_upper of_char_div16)

lemma QueryUnescape_QueryEscape [go_string]: "QueryUnescape (QueryEscape s) = Some s"
  by (induction s) (auto simp: QueryEscape_def QueryUnescape_escape_char)

lemma inj_QueryEscape: "QueryEscape a = QueryEscape b \<longleftrightarrow> a = b"
  by (metis QueryUnescape_QueryEscape option.inject)

text \<open>\<open>url.Values.Encode\<close> writes the values in the order of their keys.\<close>

definition encode_values :: "(string \<times> string) list \<Rightarrow> string" where
  "encode_values kvs = join ''&'' (map (\<lambda>(k, v). QueryEscape k @ ''='' @ QueryEscape v) (sort_key fst kvs))"

text \<open>
  The bytes \<open>net/http\<close> accepts in the value of a cookie: visible ASCII but quotes, commas, semicolons and backslashes.  An
  escaped text consists of them.
\<close>

definition cookie_char :: "char \<Rightarrow> bool" where
  "cookie_char c \<longleftrightarrow> (of_char c :: nat) \<in> {33..126} - {34, 44, 59, 92}"

lemma upper_hex_cookie: "n < 16 \<Longrightarrow> cookie_char (upper_hex_digit n)"
  by (auto simp: cookie_char_def upper_hex_digit_def)

lemma query_plain_cookie: "query_plain c \<Longrightarrow> cookie_char c"
  by (auto simp: query_plain_def cookie_char_def is_lower_def is_upper_def is_digit_def)

lemma query_escape_cookie: "list_all cookie_char (query_escape_char c)"
  using of_char_div16 [of c]
  by (auto simp: query_escape_char_def upper_hex_cookie query_plain_cookie) (auto simp: cookie_char_def)

lemma QueryEscape_cookie: "list_all cookie_char (QueryEscape s)"
  using query_escape_cookie by (simp add: QueryEscape_def list_all_iff)

section \<open>The requests a computation sends\<close>

text \<open>
  The requests a computation adds to a trace of the world: at most \<open>n\<close>, all of them with the property \<open>P\<close>, on every outcome.
\<close>

definition sends :: "('w \<Rightarrow> http_request list) \<Rightarrow> (http_request \<Rightarrow> bool) \<Rightarrow> nat \<Rightarrow> ('w, 'a) io \<Rightarrow> bool" where
  "sends tr P n m \<longleftrightarrow>
     (\<forall>w r w'. m w = (r, w') \<longrightarrow> (\<exists>rs. tr w' = tr w @ rs \<and> length rs \<le> n \<and> list_all P rs))"

lemma sends_more: "sends tr P n m \<Longrightarrow> n \<le> k \<Longrightarrow> sends tr P k m"
  by (fastforce simp: sends_def)

lemma sends_return [simp]: "sends tr P n (io_return x)" and sends_fail [simp]: "sends tr P n (io_fail e)"
  by (auto simp: sends_def)

lemma sends_bind:
  assumes "sends tr P n m" "\<And>x. sends tr P k (f x)"
  shows "sends tr P (n + k) (io_bind m f)"
  unfolding sends_def
proof (intro allI impI)
  fix w r w' assume b: "io_bind m f w = (r, w')"
  obtain r1 w1 where m: "m w = (r1, w1)" by fastforce
  obtain rs where rs: "tr w1 = tr w @ rs" "length rs \<le> n" "list_all P rs" using assms(1) m unfolding sends_def by blast
  show "\<exists>rs. tr w' = tr w @ rs \<and> length rs \<le> n + k \<and> list_all P rs"
  proof (cases r1)
    case (Inl e)
    then have "w' = w1" using b m by (simp add: io_bind_def)
    then show ?thesis using rs by (intro exI [of _ rs]) simp
  next
    case (Inr x)
    then have "f x w1 = (r, w')" using b m by (simp add: io_bind_def)
    then obtain rs' where "tr w' = tr w1 @ rs'" "length rs' \<le> k" "list_all P rs'"
      using assms(2) [of x] unfolding sends_def by blast
    then show ?thesis using rs by (intro exI [of _ "rs @ rs'"]) simp
  qed
qed

lemma sends_bind_last: "sends tr P n m \<Longrightarrow> (\<And>x. sends tr P 0 (f x)) \<Longrightarrow> sends tr P n (io_bind m f)"
  using sends_bind [of tr P n m 0 f] by simp

lemma sends_wrap: "sends tr P n m \<Longrightarrow> sends tr P n (io_wrap pre m)"
  unfolding sends_def io_wrap_def by (auto split: prod.splits sum.splits)

section \<open>What a computation keeps\<close>

definition keeps :: "('w \<Rightarrow> bool) \<Rightarrow> ('w, 'a) io \<Rightarrow> bool" where
  "keeps I m \<longleftrightarrow> (\<forall>w r w'. I w \<longrightarrow> m w = (r, w') \<longrightarrow> I w')"

lemma keepsD: "keeps I m \<Longrightarrow> I w \<Longrightarrow> m w = (r, w') \<Longrightarrow> I w'"
  by (simp add: keeps_def)

lemma keeps_return [simp]: "keeps I (io_return x)" and keeps_fail [simp]: "keeps I (io_fail e)"
  by (simp_all add: keeps_def)

lemma keeps_bind:
  assumes "keeps I m" "\<And>x. keeps I (f x)"
  shows "keeps I (io_bind m f)"
  unfolding keeps_def
proof (intro allI impI)
  fix w r w' assume b: "I w" "io_bind m f w = (r, w')"
  obtain r1 w1 where m: "m w = (r1, w1)" by fastforce
  have "I w1" by (rule keepsD [OF assms(1) b(1) m])
  then show "I w'" using b(2) m keepsD [OF assms(2)] by (cases r1) (auto simp: io_bind_def)
qed

lemma keeps_wrap: "keeps I m \<Longrightarrow> keeps I (io_wrap pre m)"
  unfolding keeps_def io_wrap_def by (auto split: prod.splits sum.splits)

end
