(* ===== verification/Box.thy ===== *)
theory Box
  imports Local_Tools Http
begin

text \<open>
  The tools for Box (\<open>internal/tools/box_cli.go\<close>): requests through the Box command line, and requests over HTTP where the
  item is reached through a shared link or on behalf of its owner.  The command line, the HTTP client, the file system and
  the clock are operations over a world; the answers of Box are what these operations return.
\<close>

section \<open>The outside\<close>

text \<open>
  \<open>boURL\<close> is the error of building a request for a URL, \<open>boWait\<close> the wait between two polls (or the end of the time limit),
  \<open>boFilename\<close> the file name in a \<open>Content-Disposition\<close> header (blank when there is none).
\<close>

record 'w box_ops =
  boRun :: "'w runner"
  boURL :: "string \<Rightarrow> goerror option"
  boHttp :: "http_request \<Rightarrow> ('w, http_response) io"
  boMkdir :: "string \<Rightarrow> ('w, unit) io"
  boReadDir :: "string \<Rightarrow> ('w, string list) io"
  boCreate :: "string \<Rightarrow> string \<Rightarrow> ('w, unit) io"
  boStat :: "string \<Rightarrow> ('w, nat) io"
  boOpen :: "string \<Rightarrow> ('w, string) io"
  boWait :: "('w, unit) io"
  boFilename :: "string \<Rightarrow> string"
  boTmp :: string

definition boxConfig :: cli_config where
  "boxConfig = \<lparr>clPrefix = ''box'', clCommand = ''npx'', clBaseArgs = [''-y'', ''@box/cli''], clEnv = [], clTimeout = 30,
     clJSONFlag = [], clRoots = []\<rparr>"

definition box_exec :: "'w box_ops \<Rightarrow> string list \<Rightarrow> ('w, string) io" where
  "box_exec bo args = CLIExec (boRun bo) boxConfig args"

definition boxFields :: string where
  "boxFields = ''--fields=type,id,name,description,created_by,shared_link''"

text \<open>Who the request is made for: the shared link with its password, and the user to act as.\<close>

record box_auth =
  baSharedLink :: string
  baPassword :: string
  baAsUser :: string

definition boxSetAuth :: "string \<Rightarrow> box_auth \<Rightarrow> (string \<times> string) list" where
  "boxSetAuth token a =
     (''Authorization'', ''Bearer '' @ token) #
     (if baSharedLink a \<noteq> []
      then [(''BoxApi'', ''shared_link='' @ baSharedLink a @
               (if baPassword a \<noteq> [] then ''&shared_link_password='' @ baPassword a else []))] else []) @
     (if baAsUser a \<noteq> [] then [(''As-User'', baAsUser a)] else [])"

definition boxAccessToken :: "'w box_ops \<Rightarrow> ('w, string) io" where
  "boxAccessToken bo =
     io_bind (box_exec bo [''tokens:get'']) (\<lambda>out.
       let fields = go_fields out
       in if fields = [] then io_fail (Err ''empty token from box tokens:get'') else io_return (last fields))"

definition get_token :: "'w box_ops \<Rightarrow> ('w, string) io" where
  "get_token bo = io_wrap ''getting box access token: '' (boxAccessToken bo)"

text \<open>Building and sending a request; \<open>building\<close> and \<open>sending\<close> say what failed.\<close>

definition do_request :: "'w box_ops \<Rightarrow> string \<Rightarrow> string \<Rightarrow> http_request \<Rightarrow> ('w, http_response) io" where
  "do_request bo building sending r =
     (case boURL bo (hrURL r) of
        Some e \<Rightarrow> io_fail (Wrap building e [])
      | None \<Rightarrow> io_wrap sending (boHttp bo r))"

definition get_request :: "string \<Rightarrow> box_auth \<Rightarrow> string \<Rightarrow> (string \<times> string) list \<Rightarrow> http_request" where
  "get_request token a url extra =
     \<lparr>hrMethod = ''GET'', hrURL = url, hrHeaders = boxSetAuth token a @ extra, hrBody = NoContent\<rparr>"

section \<open>Command lines\<close>

record box_search =
  bsQuery :: string
  bsExtensions :: string
  bsType :: string
  bsAncestor :: string
  bsLimit :: int

definition flag :: "string \<Rightarrow> string \<Rightarrow> string list" where
  "flag name v = (if v \<noteq> [] then [name, v] else [])"

definition limit_flag :: "string \<Rightarrow> int \<Rightarrow> string list" where
  "limit_flag name n = (if n > 0 then [name, show_int n] else [])"

definition search_args :: "box_search \<Rightarrow> string list" where
  "search_args p =
     [''search'', bsQuery p, ''--json'', boxFields] @ flag ''--file-extensions'' (bsExtensions p) @ flag ''--type'' (bsType p) @
     flag ''--ancestor-folder-ids'' (bsAncestor p) @ limit_flag ''--limit'' (bsLimit p)"

text \<open>The input of every tool is its decoded parameters, or the decoding error.\<close>

definition with_input :: "'p result \<Rightarrow> ('p \<Rightarrow> ('w, 'a) io) \<Rightarrow> ('w, 'a) io" where
  "with_input input f = (case input of Inl e \<Rightarrow> io_fail (Wrap ''parsing input: '' e []) | Inr p \<Rightarrow> f p)"

definition box_search_tool :: "'w box_ops \<Rightarrow> box_search result \<Rightarrow> ('w, string) io" where
  "box_search_tool bo input = with_input input (\<lambda>p. box_exec bo (search_args p))"

definition box_file_get :: "'w box_ops \<Rightarrow> string result \<Rightarrow> ('w, string) io" where
  "box_file_get bo input = with_input input (\<lambda>fileID. box_exec bo [''files:get'', fileID, ''--json'', boxFields])"

definition shared_fields :: string where
  "shared_fields = ''--fields=type,id,name,extension,size,description,created_by,shared_link,permissions''"

definition box_shared_item_get :: "'w box_ops \<Rightarrow> (string \<times> string) result \<Rightarrow> ('w, string) io" where
  "box_shared_item_get bo input = with_input input (\<lambda>(url, password).
     if url = [] then io_fail (Err ''url is required'')
     else box_exec bo ([''shared-links:get'', url, ''--json'', shared_fields] @ flag ''--password'' password))"

section \<open>Listing a folder\<close>

definition mebi :: nat where "mebi = 1048576"

definition status_text :: "string \<Rightarrow> http_response \<Rightarrow> nat \<Rightarrow> string" where
  "status_text what resp limit = what @ trim_space (take limit (hpBody resp))"

definition boxFolderItemsViaHTTP :: "'w box_ops \<Rightarrow> string \<Rightarrow> box_auth \<Rightarrow> int \<Rightarrow> ('w, string) io" where
  "boxFolderItemsViaHTTP bo folderID a limit =
     io_bind (get_token bo) (\<lambda>token.
       let url = ''https://api.box.com/2.0/folders/'' @ folderID @
                 ''/items?fields=type,id,name,description,created_by,shared_link&limit='' @ show_int (if limit \<le> 0 then 20 else limit)
       in io_bind (do_request bo ''building request: '' ''listing folder items: '' (get_request token a url [])) (\<lambda>resp.
            if hpStatus resp \<noteq> 200
            then io_fail (Err (status_text (''box items endpoint returned HTTP '' @ show_nat (hpStatus resp) @ '' for folder '' @
                   folderID @ '': '') resp mebi))
            else io_return (take mebi (hpBody resp))))"

record folder_params =
  fpFolderID :: string
  fpLimit :: int
  fpAuth :: box_auth

definition box_folder_list :: "'w box_ops \<Rightarrow> folder_params result \<Rightarrow> ('w, string) io" where
  "box_folder_list bo input = with_input input (\<lambda>p.
     if baSharedLink (fpAuth p) \<noteq> [] \<or> baAsUser (fpAuth p) \<noteq> []
     then boxFolderItemsViaHTTP bo (fpFolderID p) (fpAuth p) (fpLimit p)
     else box_exec bo ([''folders:items'', fpFolderID p, ''--json'', boxFields] @ limit_flag ''--max-items'' (fpLimit p)))"

section \<open>Downloading\<close>

definition boxDownloadByID :: "'w box_ops \<Rightarrow> string \<Rightarrow> string \<Rightarrow> ('w, string) io" where
  "boxDownloadByID bo fileID destDir =
     io_bind (io_wrap ''downloading file: '' (box_exec bo [''files:download'', fileID, ''--destination'', destDir, ''--overwrite'']))
       (\<lambda>_. io_try (boReadDir bo destDir) (\<lambda>r.
          case r of
            Inr (n # ns) \<Rightarrow> io_return (filepath_Join [destDir, n])
          | _ \<Rightarrow> io_fail (Err ''no file found after download'')))"

definition boxFilenameFromResponse :: "'w box_ops \<Rightarrow> http_response \<Rightarrow> string \<Rightarrow> string" where
  "boxFilenameFromResponse bo resp fileID =
     (let name = (if hpDisposition resp \<noteq> [] then boFilename bo (hpDisposition resp) else [])
      in if name \<noteq> [] then filepath_Base name else ''box-file-'' @ fileID)"

definition denied_message :: "string \<Rightarrow> http_response \<Rightarrow> string" where
  "denied_message fileID resp =
     ''box denied download of file '' @ fileID @ '' (HTTP 403, can_download=false). The shared '' @
     ''link is preview-only, or this Box service account isn'' @ [squote] @ ''t permitted to download (commonly because '' @
     ''it'' @ [squote] @ ''s external to the file'' @ [squote] @ ''s enterprise). A Box admin must enable download on the link or grant '' @
     ''this account download permission. Do not retry or fall back to download_file. If you only need to '' @
     ''read the file'' @ [squote] @ ''s contents (not send the binary), use box__read_text instead '' @ em_dash @ '' it works under '' @
     ''preview rights even when download is blocked. (Box response: '' @ trim_space (take 2048 (hpBody resp)) @ '')''"

definition boxDownloadViaHTTP :: "'w box_ops \<Rightarrow> string \<Rightarrow> box_auth \<Rightarrow> string \<Rightarrow> ('w, string) io" where
  "boxDownloadViaHTTP bo fileID a destDir =
     io_bind (get_token bo) (\<lambda>token.
     io_bind (do_request bo ''building request: '' ''requesting file content: ''
                (get_request token a (''https://api.box.com/2.0/files/'' @ fileID @ ''/content'') [])) (\<lambda>resp.
       if hpStatus resp = 403 then io_fail (Err (denied_message fileID resp))
       else if hpStatus resp \<noteq> 200
       then io_fail (Err (status_text (''box content endpoint returned HTTP '' @ show_nat (hpStatus resp) @ '' for file '' @ fileID @
              '' via shared link: '') resp 2048))
       else let destPath = filepath_Join [destDir, boxFilenameFromResponse bo resp fileID]
            in io_bind (io_wrap ''creating file: '' (boCreate bo destPath (hpBody resp))) (\<lambda>_. io_return destPath)))"

record download_file =
  dfFileID :: string
  dfAuth :: box_auth

definition download_result :: "string \<Rightarrow> nat \<Rightarrow> string" where
  "download_result path sz =
     json_show (JObj [(''filename'', JStr (filepath_Base path)), (''path'', JStr path), (''size'', JNum (show_nat sz))])"

definition box_file_download :: "'w box_ops \<Rightarrow> download_file result \<Rightarrow> ('w, string) io" where
  "box_file_download bo input = with_input input (\<lambda>p.
     if dfFileID p = [] then io_fail (Err ''file_id is required'')
     else let destDir = filepath_Join [boTmp bo, ''box-download-'' @ dfFileID p]
          in io_bind (io_wrap ''creating download dir: '' (boMkdir bo destDir)) (\<lambda>_.
             io_bind (if baSharedLink (dfAuth p) \<noteq> [] \<or> baAsUser (dfAuth p) \<noteq> []
                      then boxDownloadViaHTTP bo (dfFileID p) (dfAuth p) destDir
                      else boxDownloadByID bo (dfFileID p) destDir) (\<lambda>path.
             io_bind (io_wrap ''stat downloaded file: '' (boStat bo path)) (\<lambda>sz. io_return (download_result path sz)))))"

section \<open>Uploading\<close>

text \<open>\<open>json.Marshal\<close> of the attributes: a map is printed with its keys in order.\<close>

definition new_file_attrs :: "string \<Rightarrow> string \<Rightarrow> json" where
  "new_file_attrs name parent = JObj [(''name'', JStr name), (''parent'', JObj [(''id'', JStr parent)])]"

definition new_version_attrs :: "string \<Rightarrow> json" where
  "new_version_attrs name = JObj [(''name'', JStr name)]"

definition boxUploadRequest ::
  "'w box_ops \<Rightarrow> string \<Rightarrow> string \<Rightarrow> string \<Rightarrow> string \<Rightarrow> string \<Rightarrow> json \<Rightarrow> ('w, nat \<times> string) io" where
  "boxUploadRequest bo token url path name asUser attributes =
     io_bind (io_wrap ''opening file to upload: '' (boOpen bo path)) (\<lambda>data.
     io_bind (do_request bo ''building upload request: '' ''uploading file: ''
                \<lparr>hrMethod = ''POST'', hrURL = url,
                 hrHeaders = boxSetAuth token \<lparr>baSharedLink = [], baPassword = [], baAsUser = asUser\<rparr>,
                 hrBody = Multipart (json_show attributes) name data\<rparr>) (\<lambda>resp.
       io_return (hpStatus resp, take mebi (hpBody resp))))"

text \<open>Nested struct fields: a value that is not an object is an error, a missing one leaves the field blank.\<close>

definition sub_members :: "string \<Rightarrow> (string \<times> json) list \<Rightarrow> (string \<times> json) list option" where
  "sub_members key ms = (case field_raw key ms of None \<Rightarrow> Some [] | Some v \<Rightarrow> members v)"

definition boxConflictFileID :: "string \<Rightarrow> string" where
  "boxConflictFileID body =
     (case Option.bind (Option.bind (Option.bind (Option.bind (json_parse body) members) (sub_members ''context_info''))
             (sub_members ''conflicts'')) (field_str ''id'') of
        Some i \<Rightarrow> i
      | None \<Rightarrow> [])"

definition shared_link_json :: "(string \<times> json) list \<Rightarrow> json option" where
  "shared_link_json ms =
     (case field_raw ''shared_link'' ms of
        None \<Rightarrow> Some JNull
      | Some JNull \<Rightarrow> Some JNull
      | Some v \<Rightarrow>
          Option.bind (members v) (\<lambda>ls.
          Option.bind (field_str ''url'' ls) (\<lambda>u.
          Option.bind (field_str ''download_url'' ls) (\<lambda>d.
            Some (JObj [(''url'', JStr u), (''download_url'', JStr d)])))))"

definition upload_entry :: "json \<Rightarrow> json option" where
  "upload_entry v =
     Option.bind (members v) (\<lambda>ms.
     Option.bind (field_str ''type'' ms) (\<lambda>t.
     Option.bind (field_str ''id'' ms) (\<lambda>i.
     Option.bind (field_str ''name'' ms) (\<lambda>n.
     Option.bind (shared_link_json ms) (\<lambda>l.
       Some (JObj [(''type'', JStr t), (''id'', JStr i), (''name'', JStr n), (''shared_link'', l)]))))))"

definition boxUploadSummary :: "string \<Rightarrow> string" where
  "boxUploadSummary body =
     (case Option.bind (Option.bind (json_parse body) members) (field_arr ''entries'') of
        None \<Rightarrow> body
      | Some [] \<Rightarrow> body
      | Some (v # vs) \<Rightarrow> (case upload_entry v of Some j \<Rightarrow> json_show j | None \<Rightarrow> json_show v))"

definition new_file_url :: string where "new_file_url = ''https://upload.box.com/api/2.0/files/content''"

definition version_url :: "string \<Rightarrow> string" where
  "version_url fileID = ''https://upload.box.com/api/2.0/files/'' @ fileID @ ''/content''"

definition boxUploadViaHTTP :: "'w box_ops \<Rightarrow> string \<Rightarrow> string \<Rightarrow> string \<Rightarrow> string \<Rightarrow> ('w, string) io" where
  "boxUploadViaHTTP bo path parent name asUser =
     io_bind (get_token bo) (\<lambda>token.
     io_bind (boxUploadRequest bo token new_file_url path name asUser (new_file_attrs name parent)) (\<lambda>(status, body).
     io_bind
       (if status = 409
        then let existing = boxConflictFileID body
             in if existing = []
                then io_fail (Err (''box upload conflict for '' @ go_quote name @ '' in folder '' @ parent @
                       '' but no existing file id was returned: '' @ trim_space body))
                else boxUploadRequest bo token (version_url existing) path name asUser (new_version_attrs name)
        else io_return (status, body)) (\<lambda>(status, body).
       if status \<noteq> 201 \<and> status \<noteq> 200
       then io_fail (Err (''box upload of '' @ go_quote name @ '' to folder '' @ parent @ '' returned HTTP '' @ show_nat status @
              '': '' @ trim_space body))
       else io_return (boxUploadSummary body))))"

record upload_params =
  upPath :: string
  upParent :: string
  upName :: string
  upAsUser :: string

definition box_file_upload :: "'w box_ops \<Rightarrow> upload_params result \<Rightarrow> ('w, string) io" where
  "box_file_upload bo input = with_input input (\<lambda>p.
     if upPath p = [] then io_fail (Err ''path is required'')
     else if upParent p = [] then io_fail (Err (''parent_folder_id is required (use '' @ [squote] @ ''0'' @ [squote] @ '' for the root folder)''))
     else boxUploadViaHTTP bo (upPath p) (upParent p) (if upName p = [] then filepath_Base (upPath p) else upName p) (upAsUser p))"

section \<open>Reading the text of a file\<close>

record rep_entry =
  reRepresentation :: string
  reState :: string
  reInfoURL :: string
  reTemplate :: string

definition rep_of_json :: "json \<Rightarrow> rep_entry option" where
  "rep_of_json v =
     Option.bind (members v) (\<lambda>ms.
     Option.bind (field_str ''representation'' ms) (\<lambda>r.
     Option.bind (Option.bind (sub_members ''status'' ms) (field_str ''state'')) (\<lambda>s.
     Option.bind (Option.bind (sub_members ''info'' ms) (field_str ''url'')) (\<lambda>u.
     Option.bind (Option.bind (sub_members ''content'' ms) (field_str ''url_template'')) (\<lambda>t.
       Some \<lparr>reRepresentation = r, reState = s, reInfoURL = u, reTemplate = t\<rparr>)))))"

fun all_some :: "'a option list \<Rightarrow> 'a list option" where
  "all_some [] = Some []"
| "all_some (x # xs) = Option.bind x (\<lambda>v. map_option ((#) v) (all_some xs))"

definition reps_of_json :: "json \<Rightarrow> rep_entry list option" where
  "reps_of_json v =
     Option.bind (Option.bind (members v) (sub_members ''representations'')) (\<lambda>ms.
       Option.bind (field_arr ''entries'' ms) (\<lambda>es. all_some (map rep_of_json es)))"

text \<open>At most \<open>n\<close> polls of the information URL.\<close>

fun poll_entry :: "'w box_ops \<Rightarrow> string \<Rightarrow> box_auth \<Rightarrow> string \<Rightarrow> nat \<Rightarrow> rep_entry \<Rightarrow> ('w, rep_entry) io" where
  "poll_entry bo token a fileID 0 entry = io_return entry"
| "poll_entry bo token a fileID (Suc n) entry =
     (if reState entry = ''success'' then io_return entry
      else if reState entry = ''none'' then io_fail (Err (''box has no extracted text for file '' @ fileID))
      else if reInfoURL entry = [] then io_return entry
      else io_bind (boWait bo) (\<lambda>_.
           io_bind (do_request bo ''building representation poll request: '' ''polling representation: ''
                      (get_request token a (reInfoURL entry) [])) (\<lambda>resp.
             case Option.bind (first_json (hpBody resp)) rep_of_json of
               None \<Rightarrow> io_fail (Err ''decoding representation poll'')
             | Some polled \<Rightarrow> poll_entry bo token a fileID n polled)))"

definition boxResolveExtractedText :: "'w box_ops \<Rightarrow> string \<Rightarrow> string \<Rightarrow> box_auth \<Rightarrow> string \<Rightarrow> ('w, rep_entry) io" where
  "boxResolveExtractedText bo token metaURL a fileID =
     io_bind (do_request bo ''building representations request: '' ''requesting representations: ''
                (get_request token a metaURL [(''x-rep-hints'', ''[extracted_text]'')])) (\<lambda>resp.
       if hpStatus resp \<noteq> 200
       then io_fail (Err (status_text (''box representations endpoint returned HTTP '' @ show_nat (hpStatus resp) @ '' for file '' @
              fileID @ '': '') resp 2048))
       else case Option.bind (first_json (hpBody resp)) reps_of_json of
              None \<Rightarrow> io_fail (Err ''decoding representations'')
            | Some reps \<Rightarrow>
                (case find (\<lambda>e. reRepresentation e = ''extracted_text'') reps of
                   None \<Rightarrow> io_fail (Err (''no extracted_text representation is available for file '' @ fileID @
                             '' (the file type may not support text extraction)''))
                 | Some entry \<Rightarrow>
                     io_bind (poll_entry bo token a fileID 5 entry) (\<lambda>e.
                       if reState e \<noteq> ''success''
                       then io_fail (Err (''box extracted text for file '' @ fileID @ '' was not ready (state: '' @
                              go_quote (reState e) @ '')''))
                       else io_return e)))"

text \<open>\<open>strings.Replace\<close> with a count of one.\<close>

definition replace_first :: "string \<Rightarrow> string \<Rightarrow> string \<Rightarrow> string" where
  "replace_first old new s =
     (case index_sub old s of None \<Rightarrow> s | Some i \<Rightarrow> take i s @ new @ drop (i + length old) s)"

definition boxReadText :: "'w box_ops \<Rightarrow> string \<Rightarrow> box_auth \<Rightarrow> ('w, string) io" where
  "boxReadText bo fileID a =
     io_bind (get_token bo) (\<lambda>token.
     io_bind (boxResolveExtractedText bo token
                (''https://api.box.com/2.0/files/'' @ fileID @ ''?fields=representations'') a fileID) (\<lambda>entry.
       let contentURL = replace_first ''{+asset_path}'' [] (reTemplate entry)
       in if contentURL = []
          then io_fail (Err (''box returned no content URL for the extracted text of file '' @ fileID))
          else io_bind (do_request bo ''building content request: '' ''fetching extracted text: ''
                          (get_request token a contentURL [])) (\<lambda>resp.
                 if hpStatus resp \<noteq> 200
                 then io_fail (Err (status_text (''box extracted-text endpoint returned HTTP '' @ show_nat (hpStatus resp) @
                        '' for file '' @ fileID @ '': '') resp 2048))
                 else if hpBody resp = [] then io_fail (Err (''box extracted text for file '' @ fileID @ '' was empty''))
                 else io_return (hpBody resp))))"

definition box_read_text :: "'w box_ops \<Rightarrow> download_file result \<Rightarrow> ('w, string) io" where
  "box_read_text bo input = with_input input (\<lambda>p.
     if dfFileID p = [] then io_fail (Err ''file_id is required'') else boxReadText bo (dfFileID p) (dfAuth p))"

section \<open>The tools\<close>

text \<open>No tools when the command line does not answer at the start.\<close>

definition BoxCLI :: "'w box_ops \<Rightarrow> 'w \<Rightarrow> string list \<times> 'w" where
  "BoxCLI bo w =
     (case box_exec bo [''--version''] w of
        (Inl e, w') \<Rightarrow> ([], w')
      | (Inr v, w') \<Rightarrow>
          ([''box__search'', ''box__file_get'', ''box__folder_list'', ''box__file_download'', ''box__file_upload'',
            ''box__read_text'', ''box__shared_item_get''], w'))"

section \<open>What is sent to Box\<close>

text \<open>The trace records the requests, and nothing else changes it.\<close>

definition traced :: "'w box_ops \<Rightarrow> ('w \<Rightarrow> http_request list) \<Rightarrow> bool" where
  "traced bo tr \<longleftrightarrow>
     (\<forall>q w r w'. boHttp bo q w = (r, w') \<longrightarrow> tr w' = tr w @ [q]) \<and>
     (\<forall>c as e t w r w'. boRun bo c as e t w = (r, w') \<longrightarrow> tr w' = tr w) \<and>
     (\<forall>w r w'. boWait bo w = (r, w') \<longrightarrow> tr w' = tr w) \<and>
     (\<forall>p w r w'. boOpen bo p w = (r, w') \<longrightarrow> tr w' = tr w)"

lemma sends_exec: "traced bo tr \<Longrightarrow> sends tr P 0 (box_exec bo args)"
  unfolding sends_def traced_def box_exec_def CLIExec_def by (fastforce split: prod.splits option.splits)

lemma sends_token: "traced bo tr \<Longrightarrow> sends tr P 0 (get_token bo)"
  unfolding get_token_def boxAccessToken_def
  by (intro sends_wrap) (rule sends_bind_last; simp add: sends_exec Let_def)

lemma sends_wait: "traced bo tr \<Longrightarrow> sends tr P 0 (boWait bo)"
  unfolding sends_def traced_def by fastforce

lemma sends_http: "traced bo tr \<Longrightarrow> P q \<Longrightarrow> sends tr P 1 (boHttp bo q)"
  unfolding sends_def
proof (intro allI impI)
  fix w r w' assume "traced bo tr" "P q" "boHttp bo q w = (r, w')"
  then have "tr w' = tr w @ [q] \<and> length [q] \<le> 1 \<and> list_all P [q]" by (simp add: traced_def)
  then show "\<exists>rs. tr w' = tr w @ rs \<and> length rs \<le> 1 \<and> list_all P rs" by blast
qed

lemma sends_request: "traced bo tr \<Longrightarrow> P q \<Longrightarrow> sends tr P 1 (do_request bo b s q)"
  unfolding do_request_def by (cases "boURL bo (hrURL q)") (auto intro!: sends_wrap sends_http simp del: One_nat_def)

lemma sends_poll:
  assumes "traced bo tr" "\<And>url extra. P (get_request token a url extra)"
  shows "sends tr P n (poll_entry bo token a fileID n entry)"
proof (induction n arbitrary: entry)
  case (Suc n)
  have k: "sends tr P n (case Option.bind (first_json (hpBody resp)) rep_of_json of
      None \<Rightarrow> io_fail (Err ''decoding representation poll'')
    | Some polled \<Rightarrow> poll_entry bo token a fileID n polled)" for resp
    by (simp add: Suc.IH split: option.split)
  have "sends tr P (0 + (1 + n)) (io_bind (boWait bo) (\<lambda>_. io_bind (do_request bo ''building representation poll request: ''
      ''polling representation: '' (get_request token a (reInfoURL entry) [])) (\<lambda>resp.
    case Option.bind (first_json (hpBody resp)) rep_of_json of
      None \<Rightarrow> io_fail (Err ''decoding representation poll'')
    | Some polled \<Rightarrow> poll_entry bo token a fileID n polled)))"
    by (intro sends_bind sends_wait sends_request k assms)
  then show ?case by simp
qed simp

lemma sends_resolve:
  assumes "traced bo tr" "\<And>url extra. P (get_request token a url extra)"
  shows "sends tr P 6 (boxResolveExtractedText bo token url a fileID)"
proof -
  have "sends tr P (1 + 5) (boxResolveExtractedText bo token url a fileID)"
    unfolding boxResolveExtractedText_def
  proof (rule sends_bind [OF sends_request])
    fix resp
    have k: "sends tr P 5 (io_bind (poll_entry bo token a fileID 5 entry) f)" if "\<And>e. sends tr P 0 (f e)" for entry f
      by (rule sends_bind_last) (use assms that in \<open>auto intro: sends_poll\<close>)
    show "sends tr P 5
      (if hpStatus resp \<noteq> 200
       then io_fail (Err (status_text (''box representations endpoint returned HTTP '' @ show_nat (hpStatus resp) @ '' for file '' @
              fileID @ '': '') resp 2048))
       else case Option.bind (first_json (hpBody resp)) reps_of_json of
              None \<Rightarrow> io_fail (Err ''decoding representations'')
            | Some reps \<Rightarrow>
                (case find (\<lambda>e. reRepresentation e = ''extracted_text'') reps of
                   None \<Rightarrow> io_fail (Err (''no extracted_text representation is available for file '' @ fileID @
                             '' (the file type may not support text extraction)''))
                 | Some entry \<Rightarrow>
                     io_bind (poll_entry bo token a fileID 5 entry) (\<lambda>e.
                       if reState e \<noteq> ''success''
                       then io_fail (Err (''box extracted text for file '' @ fileID @ '' was not ready (state: '' @
                              go_quote (reState e) @ '')''))
                       else io_return e)))"
      by (auto split: option.split intro!: k)
  qed (use assms in auto)
  then show ?thesis by simp
qed

definition authorised :: "box_auth \<Rightarrow> http_request \<Rightarrow> bool" where
  "authorised a q \<longleftrightarrow> (\<exists>token extra. hrHeaders q = boxSetAuth token a @ extra)"

lemma get_authorised: "authorised a (get_request token a url extra)"
  by (auto simp: authorised_def get_request_def)

lemma sends_read:
  assumes "traced bo tr"
  shows "sends tr (authorised a) 7 (boxReadText bo fileID a)"
proof -
  have "sends tr (authorised a) (0 + (6 + (1 + 0))) (boxReadText bo fileID a)"
    unfolding boxReadText_def Let_def
    by (intro sends_bind sends_token sends_resolve assms get_authorised)
      (auto intro!: sends_bind_last sends_request assms get_authorised simp del: One_nat_def)
  then show ?thesis by simp
qed

text \<open>C31. Reading the text of a Box file ends after at most seven requests, however long Box keeps preparing it, and every one of them is made
  for the shared link and the user of the call.\<close>

theorem reading_is_bounded_and_authorised:
  assumes "traced bo tr" "boxReadText bo fileID a w = (r, w')"
  shows "\<exists>rs. tr w' = tr w @ rs \<and> length rs \<le> 7 \<and> list_all (authorised a) rs"
  using sends_read [OF assms(1)] assms(2) unfolding sends_def by blast

text \<open>A file whose text stays \<open>pending\<close>.\<close>

definition pending_entry :: json where
  "pending_entry = JObj [(''representation'', JStr ''extracted_text''), (''status'', JObj [(''state'', JStr ''pending'')]),
     (''info'', JObj [(''url'', JStr ''https://i'')])]"

definition slow_box :: "(http_request list) box_ops" where
  "slow_box =
     \<lparr>boRun = (\<lambda>c as e t w. ((''Token: T'', None), w)), boURL = (\<lambda>u. None),
      boHttp = (\<lambda>q w. (Inr \<lparr>hpStatus = 200, hpDisposition = [], hpBody =
        (if hrURL q = ''https://i'' then json_show pending_entry
         else json_show (JObj [(''representations'', JObj [(''entries'', JArr [pending_entry])])]))\<rparr>, w @ [q])),
      boMkdir = (\<lambda>p w. (ok, w)), boReadDir = (\<lambda>p w. (Inr [], w)), boCreate = (\<lambda>p b w. (ok, w)), boStat = (\<lambda>p w. (Inr 0, w)),
      boOpen = (\<lambda>p w. (Inr [], w)), boWait = (\<lambda>w. (ok, w)), boFilename = (\<lambda>h. []), boTmp = ''/tmp''\<rparr>"

definition as_owner :: box_auth where "as_owner = \<lparr>baSharedLink = [], baPassword = [], baAsUser = ''42''\<rparr>"

lemma reading_is_bounded_and_authorised_witness:
  "length (snd (boxReadText slow_box ''9'' as_owner [])) = 6 \<and>
   list_all (authorised as_owner) (snd (boxReadText slow_box ''9'' as_owner [])) \<and>
   fst (boxReadText slow_box ''9'' as_owner []) =
     Inl (Err (''box extracted text for file 9 was not ready (state: '' @ go_quote ''pending'' @ '')''))"
proof -
  have t: "traced slow_box (\<lambda>w. w)" by (auto simp: traced_def slow_box_def)
  have f: "length (snd (boxReadText slow_box ''9'' as_owner [])) = 6"
    "fst (boxReadText slow_box ''9'' as_owner []) =
     Inl (Err (''box extracted text for file 9 was not ready (state: '' @ go_quote ''pending'' @ '')''))" by code_simp+
  have r: "boxReadText slow_box ''9'' as_owner [] =
    (fst (boxReadText slow_box ''9'' as_owner []), snd (boxReadText slow_box ''9'' as_owner []))" by simp
  show ?thesis using reading_is_bounded_and_authorised [OF t r] f by auto
qed

section \<open>An upload never fails on a name that is taken\<close>

lemma sends_upload_request:
  assumes "traced bo tr"
  shows "sends tr (\<lambda>q. hrURL q = url) 1 (boxUploadRequest bo token url path name asUser attrs)"
proof -
  have "sends tr P 0 (boOpen bo path)" for P using assms unfolding sends_def traced_def by fastforce
  then have "sends tr (\<lambda>q. hrURL q = url) (0 + (1 + 0)) (boxUploadRequest bo token url path name asUser attrs)"
    unfolding boxUploadRequest_def by (intro sends_bind sends_wrap sends_request assms) simp_all
  then show ?thesis by simp
qed

text \<open>The file a first answer with status 409 names is the one that gets the new version, in a second and last request.\<close>

lemma conflict_uploads_version:
  assumes "get_token bo w = (Inr token, w1)"
    and "boxUploadRequest bo token new_file_url path name asUser (new_file_attrs name parent) w1 = (Inr (409, body), w2)"
    and "boxConflictFileID body = fileID" "fileID \<noteq> []"
    and "boxUploadRequest bo token (version_url fileID) path name asUser (new_version_attrs name) w2 = (Inr (status, answer), w3)"
  shows "boxUploadViaHTTP bo path parent name asUser w =
    (if status = 201 \<or> status = 200 then Inr (boxUploadSummary answer)
     else Inl (Err (''box upload of '' @ go_quote name @ '' to folder '' @ parent @ '' returned HTTP '' @ show_nat status @ '': '' @ trim_space answer)),
     w3)"
  using assms by (simp add: boxUploadViaHTTP_def io_bind_def io_return_def io_fail_def)

text \<open>An earlier download of a file that has a new name since is still in its directory, and the first name in it is taken.\<close>

definition renamed_box :: "(http_request list) box_ops" where
  "renamed_box = slow_box\<lparr>boReadDir := (\<lambda>p w. (Inr [''draft.txt'', ''final.txt''], w))\<rparr>"

theorem stale_download_is_returned:
  "fst (boxDownloadByID renamed_box ''9'' ''/tmp/box-download-9'' []) = Inr ''/tmp/box-download-9/draft.txt''"
  by code_simp

end
