(* ===== verification/Xero.thy ===== *)
theory Xero
  imports Token_Files Http Json Config Snooze
begin

text \<open>
  The Xero client (\<open>internal/services/xero_oauth.go\<close>) and its tools (\<open>internal/tools/xero_api.go\<close>): the pair of access and
  refresh token that is held in memory and in a file, its refresh, and the requests made with it.  The HTTP client is a
  parameter; a grant replaces both tokens, so losing one may end the access.
\<close>

section \<open>Tokens\<close>

record xero_tokens =
  xtAccess :: string
  xtRefresh :: string
  xtExpires :: gotime
  xtTenantID :: string
  xtTenantName :: string

text \<open>The file system, the tokens in memory, the clock and the world of the HTTP client.\<close>

record 'w xero_state =
  xsDisk :: oauth_disk
  xsCached :: "xero_tokens option"
  xsNow :: gotime
  xsWorld :: 'w

record 'w xero_env =
  xeClientId :: string
  xeClientSecret :: string
  xeInContainer :: bool
  xeLib :: "xero_tokens token_lib"
  xeHttp :: "http_request \<Rightarrow> ('w, http_response) io"
  xeURL :: "string \<Rightarrow> goerror option"

definition xeroTokenURL :: string where "xeroTokenURL = ''https://identity.xero.com/connect/token''"
definition xeroAPIBase :: string where "xeroAPIBase = ''https://api.xero.com''"
definition xeroRefreshSkew :: int where "xeroRefreshSkew = minutes 2"

definition xeroTokenFilePath :: "bool \<Rightarrow> string" where
  "xeroTokenFilePath inContainer = (if inContainer then ''data/xero'' else ''xero'') @ ''/tokens.json''"

definition LoadXeroTokens :: "'w xero_env \<Rightarrow> oauth_disk \<Rightarrow> xero_tokens result" where
  "LoadXeroTokens env d =
     (case okFiles d (xeroTokenFilePath (xeInContainer env)) of
        Absent \<Rightarrow> Inl (Err ''file does not exist'')
      | Unreadable e \<Rightarrow> Inl e
      | Stored b \<Rightarrow> wrap_err ''parsing xero token file: '' (tlRead (xeLib env) b))"

definition SaveXeroTokens :: "'w xero_env \<Rightarrow> xero_tokens \<Rightarrow> (oauth_disk, unit) io" where
  "SaveXeroTokens env t = save_file (xeroTokenFilePath (xeInContainer env)) (tlShow (xeLib env) t)"

section \<open>Refreshing\<close>

text \<open>\<open>expires_in\<close> is an integer of 64 bits, 0 when it is missing or \<open>null\<close>.\<close>

fun fold_int :: "int \<Rightarrow> json list \<Rightarrow> int option" where
  "fold_int acc [] = Some acc"
| "fold_int acc (JNum s # vs) = (case Atoi s of Some n \<Rightarrow> fold_int n vs | None \<Rightarrow> None)"
| "fold_int acc (JNull # vs) = fold_int acc vs"
| "fold_int acc (v # vs) = None"

record token_grant =
  tgAccess :: string
  tgRefresh :: string
  tgExpiresIn :: int

definition token_response :: "string \<Rightarrow> token_grant option" where
  "token_response body =
     Option.bind (Option.bind (json_parse body) members) (\<lambda>ms.
     Option.bind (field_str ''access_token'' ms) (\<lambda>a.
     Option.bind (field_str ''refresh_token'' ms) (\<lambda>r.
     Option.bind (fold_int 0 (keys_of ''expires_in'' ms)) (\<lambda>n.
     Option.bind (field_str ''token_type'' ms) (\<lambda>_.
     Option.bind (field_str ''scope'' ms) (\<lambda>_.
       Some \<lparr>tgAccess = a, tgRefresh = r, tgExpiresIn = n\<rparr>))))))"

definition refresh_request :: "'w xero_env \<Rightarrow> string \<Rightarrow> http_request" where
  "refresh_request env refresh =
     \<lparr>hrMethod = ''POST'', hrURL = xeroTokenURL,
      hrHeaders = [(''Authorization'', ''Basic '' @ b64_encode (xeClientId env @ '':'' @ xeClientSecret env)),
                   (''Content-Type'', ''application/x-www-form-urlencoded'')],
      hrBody = Payload (encode_values [(''grant_type'', ''refresh_token''), (''refresh_token'', refresh)])\<rparr>"

text \<open>The answer of Xero to a refresh: the grant, or why there is none.\<close>

definition granted :: "http_response \<Rightarrow> token_grant result" where
  "granted resp =
     (if hpStatus resp \<noteq> 200
      then Inl (Err (''xero token refresh failed (HTTP '' @ show_nat (hpStatus resp) @ ''): '' @ trim_space (hpBody resp)))
      else case token_response (hpBody resp) of
             None \<Rightarrow> Inl (Err ''parsing xero token response'')
           | Some g \<Rightarrow>
               if tgAccess g = [] \<or> tgRefresh g = []
               then Inl (Err ''xero token response missing access_token or refresh_token'') else Inr g)"

definition with_grant :: "gotime \<Rightarrow> token_grant \<Rightarrow> xero_tokens \<Rightarrow> xero_tokens" where
  "with_grant now g t =
     t\<lparr>xtAccess := tgAccess g, xtRefresh := tgRefresh g, xtExpires := tm_add (wrap64 (tgExpiresIn g * 10 ^ 9)) now\<rparr>"

text \<open>The call on the world of the client.\<close>

definition send_xero :: "'w xero_env \<Rightarrow> http_request \<Rightarrow> ('w xero_state, http_response) io" where
  "send_xero env q s = (case xeHttp env q (xsWorld s) of (r, w) \<Rightarrow> (r, s\<lparr>xsWorld := w\<rparr>))"

text \<open>A failing write is only logged: the tokens in memory are used on.\<close>

definition keep_grant :: "'w xero_env \<Rightarrow> xero_tokens \<Rightarrow> token_grant \<Rightarrow> ('w xero_state, unit) io" where
  "keep_grant env t g s =
     (let t' = with_grant (xsNow s) g t
      in (ok, s\<lparr>xsCached := Some t', xsDisk := snd (SaveXeroTokens env t' (xsDisk s))\<rparr>))"

definition refreshXeroLocked :: "'w xero_env \<Rightarrow> ('w xero_state, unit) io" where
  "refreshXeroLocked env s =
     (if trim_space (xeClientId env) = [] \<or> trim_space (xeClientSecret env) = []
      then (Inl (Err ''XERO_CLIENT_ID or XERO_CLIENT_SECRET not set''), s)
      else case xsCached s of
             None \<Rightarrow> (Inl (Err (''no xero refresh token '' @ em_dash @ '' run cmd/xero-bootstrap'')), s)
           | Some t \<Rightarrow>
               if xtRefresh t = [] then (Inl (Err (''no xero refresh token '' @ em_dash @ '' run cmd/xero-bootstrap'')), s)
               else io_bind (io_wrap ''xero refresh request failed: '' (send_xero env (refresh_request env (xtRefresh t))))
                      (\<lambda>resp. case granted resp of Inl e \<Rightarrow> io_fail e | Inr g \<Rightarrow> keep_grant env t g) s)"

definition load_cached :: "'w xero_env \<Rightarrow> ('w xero_state, unit) io" where
  "load_cached env s =
     (case xsCached s of
        Some t \<Rightarrow> (ok, s)
      | None \<Rightarrow> (case LoadXeroTokens env (xsDisk s) of Inl e \<Rightarrow> (Inl e, s) | Inr t \<Rightarrow> (ok, s\<lparr>xsCached := Some t\<rparr>)))"

definition fresh :: "gotime \<Rightarrow> xero_tokens \<Rightarrow> bool" where
  "fresh now t \<longleftrightarrow> tmNanos (xtExpires t) - tmNanos now > xeroRefreshSkew"

text \<open>The token and the tenant of the cache, which is filled.\<close>

definition cached_pair :: "('w xero_state, string \<times> string) io" where
  "cached_pair s = (case xsCached s of Some t \<Rightarrow> (Inr (xtAccess t, xtTenantID t), s) | None \<Rightarrow> (Inl (Err ''nil pointer''), s))"

definition XeroAccessToken :: "'w xero_env \<Rightarrow> ('w xero_state, string \<times> string) io" where
  "XeroAccessToken env =
     io_bind (io_wrap ''xero not bootstrapped (run cmd/xero-bootstrap): '' (load_cached env)) (\<lambda>_ s.
       case xsCached s of
         Some t \<Rightarrow> if fresh (xsNow s) t then cached_pair s else io_bind (refreshXeroLocked env) (\<lambda>_. cached_pair) s
       | None \<Rightarrow> cached_pair s)"

definition ForceXeroRefresh :: "'w xero_env \<Rightarrow> ('w xero_state, unit) io" where
  "ForceXeroRefresh env = io_bind (load_cached env) (\<lambda>_. refreshXeroLocked env)"

section \<open>Requests\<close>

definition api_request :: "string \<times> string \<Rightarrow> string \<Rightarrow> string \<Rightarrow> (string \<times> string) list \<Rightarrow> json option \<Rightarrow> http_request" where
  "api_request auth method path query body =
     \<lparr>hrMethod = method,
      hrURL = xeroAPIBase @ path @ (if query \<noteq> [] then ''?'' @ encode_values query else []),
      hrHeaders = [(''Authorization'', ''Bearer '' @ fst auth), (''Xero-tenant-id'', snd auth), (''Accept'', ''application/json'')] @
        (if body \<noteq> None then [(''Content-Type'', ''application/json'')] else []),
      hrBody = (case body of None \<Rightarrow> NoContent | Some j \<Rightarrow> Payload (json_show j))\<rparr>"

definition doRequest ::
  "'w xero_env \<Rightarrow> string \<Rightarrow> string \<Rightarrow> (string \<times> string) list \<Rightarrow> json option \<Rightarrow> ('w xero_state, nat \<times> string) io" where
  "doRequest env method path query body =
     io_bind (XeroAccessToken env) (\<lambda>auth.
       let q = api_request auth method path query body
       in case xeURL env (hrURL q) of
            Some e \<Rightarrow> io_fail (Wrap ''building xero request: '' e [])
          | None \<Rightarrow>
              io_bind (io_wrap ''xero request failed: '' (send_xero env q)) (\<lambda>resp. io_return (hpStatus resp, hpBody resp)))"

definition api_answer :: "string \<Rightarrow> string \<Rightarrow> nat \<times> string \<Rightarrow> ('w xero_state, string) io" where
  "api_answer method path sb =
     (if fst sb < 200 \<or> fst sb \<ge> 300
      then io_fail (Err (''xero API error (HTTP '' @ show_nat (fst sb) @ '') on '' @ method @ '' '' @ path @ '': '' @ trim_space (snd sb)))
      else io_return (snd sb))"

definition XeroRequest ::
  "'w xero_env \<Rightarrow> string \<Rightarrow> string \<Rightarrow> (string \<times> string) list \<Rightarrow> json option \<Rightarrow> ('w xero_state, string) io" where
  "XeroRequest env method path query body =
     io_bind (doRequest env method path query body) (\<lambda>sb.
       io_bind (if fst sb = 401
                then io_bind (io_wrap ''xero 401 + refresh failed: '' (ForceXeroRefresh env)) (\<lambda>_. doRequest env method path query body)
                else io_return sb)
         (api_answer method path))"

section \<open>The tools\<close>

text \<open>No tools without credentials or token file.\<close>

definition XeroAPI :: "'w xero_env \<Rightarrow> oauth_disk \<Rightarrow> string list" where
  "XeroAPI env d =
     (if trim_space (xeClientId env) = [] \<or> trim_space (xeClientSecret env) = [] then []
      else case LoadXeroTokens env d of
             Inl e \<Rightarrow> []
           | Inr t \<Rightarrow> [''xero_list_invoices'', ''xero_get_invoice'', ''xero_list_contacts'', ''xero_get_contact''])"

definition given :: "string \<Rightarrow> string \<Rightarrow> (string \<times> string) list" where
  "given key v = (if v \<noteq> [] then [(key, v)] else [])"

definition page_value :: "int \<Rightarrow> (string \<times> string) list" where
  "page_value n = (if n > 0 then [(''page'', show_int n)] else [])"

record invoice_query =
  iqStatuses :: string
  iqContactIDs :: string
  iqInvoiceNumbers :: string
  iqWhere :: string
  iqPage :: int

definition xero_list_invoices :: "'w xero_env \<Rightarrow> invoice_query result \<Rightarrow> ('w xero_state, string) io" where
  "xero_list_invoices env input =
     (case wrap_err ''parsing input: '' input of
        Inl e \<Rightarrow> io_fail e
      | Inr p \<Rightarrow> XeroRequest env ''GET'' ''/api.xro/2.0/Invoices''
          (given ''Statuses'' (iqStatuses p) @ given ''ContactIDs'' (iqContactIDs p) @ given ''InvoiceNumbers'' (iqInvoiceNumbers p) @
           given ''where'' (iqWhere p) @ page_value (iqPage p)) None)"

record contact_query =
  cqWhere :: string
  cqIDs :: string
  cqIncludeArchived :: bool
  cqPage :: int

definition xero_list_contacts :: "'w xero_env \<Rightarrow> contact_query result \<Rightarrow> ('w xero_state, string) io" where
  "xero_list_contacts env input =
     (case wrap_err ''parsing input: '' input of
        Inl e \<Rightarrow> io_fail e
      | Inr p \<Rightarrow> XeroRequest env ''GET'' ''/api.xro/2.0/Contacts''
          (given ''where'' (cqWhere p) @ given ''IDs'' (cqIDs p) @
           (if cqIncludeArchived p then [(''includeArchived'', ''true'')] else []) @ page_value (cqPage p)) None)"

definition get_item :: "string \<Rightarrow> 'w xero_env \<Rightarrow> string result \<Rightarrow> ('w xero_state, string) io" where
  "get_item path env input =
     (case wrap_err ''parsing input: '' input of
        Inl e \<Rightarrow> io_fail e
      | Inr i \<Rightarrow>
          if trim_space i = [] then io_fail (Err ''identifier is required'')
          else XeroRequest env ''GET'' (path @ PathEscape i) [] None)"

definition xero_get_invoice :: "'w xero_env \<Rightarrow> string result \<Rightarrow> ('w xero_state, string) io" where
  "xero_get_invoice = get_item ''/api.xro/2.0/Invoices/''"

definition xero_get_contact :: "'w xero_env \<Rightarrow> string result \<Rightarrow> ('w xero_state, string) io" where
  "xero_get_contact = get_item ''/api.xro/2.0/Contacts/''"

section \<open>Access outlives the process\<close>

text \<open>
  The world of the client keeps a log of its requests with their answers.  A grant is an answer to a refresh that the
  program could read; \<open>in_force t log\<close> is the pair of access and refresh token of the last grant in the log, or that of \<open>t\<close>
  when there is none, and a log is \<open>chained\<close> when each refresh was asked for with the refresh token in force.  The token
  library reads back what it writes, and the disk is healthy.
\<close>

type_synonym xero_log = "(http_request \<times> http_response result) list"

definition records :: "'w xero_env \<Rightarrow> ('w \<Rightarrow> xero_log) \<Rightarrow> bool" where
  "records env tr \<longleftrightarrow> (\<forall>q w r w'. xeHttp env q w = (r, w') \<longrightarrow> tr w' = tr w @ [(q, r)])"

fun take_grant :: "string \<times> string \<Rightarrow> http_request \<times> http_response result \<Rightarrow> string \<times> string" where
  "take_grant p (q, Inl e) = p"
| "take_grant p (q, Inr resp) =
     (if hrURL q = xeroTokenURL then (case granted resp of Inr g \<Rightarrow> (tgAccess g, tgRefresh g) | Inl e \<Rightarrow> p) else p)"

definition in_force :: "xero_tokens \<Rightarrow> xero_log \<Rightarrow> string \<times> string" where
  "in_force t log = foldl take_grant (xtAccess t, xtRefresh t) log"

definition chained :: "'w xero_env \<Rightarrow> xero_tokens \<Rightarrow> xero_log \<Rightarrow> bool" where
  "chained env t log \<longleftrightarrow>
     (\<forall>pre q r post. log = pre @ (q, r) # post \<longrightarrow> hrURL q = xeroTokenURL \<longrightarrow> q = refresh_request env (snd (in_force t pre)))"

lemma in_force_Nil [simp]: "in_force t [] = (xtAccess t, xtRefresh t)"
  and in_force_snoc [simp]: "in_force t (log @ [e]) = take_grant (in_force t log) e"
  by (simp_all add: in_force_def)

lemma chained_Nil [simp]: "chained env t []"
  by (simp add: chained_def)

lemma chained_snoc:
  "chained env t log \<Longrightarrow> (hrURL q = xeroTokenURL \<Longrightarrow> q = refresh_request env (snd (in_force t log))) \<Longrightarrow>
   chained env t (log @ [(q, r)])"
  unfolding chained_def by (auto simp: append_eq_append_conv2 append_eq_Cons_conv Cons_eq_append_conv)

definition codec :: "xero_tokens token_lib \<Rightarrow> bool" where
  "codec lib \<longleftrightarrow> (\<forall>t. \<exists>b. tlShow lib t = Inr b \<and> tlRead lib b = Inr t)"

definition healthy :: "'w xero_env \<Rightarrow> oauth_disk \<Rightarrow> bool" where
  "healthy env d \<longleftrightarrow>
     okMkdir d = None \<and> okWrite d (xeroTokenFilePath (xeInContainer env) @ ''.tmp'') = None \<and> okRename d = None"

inductive xero_step :: "'w xero_env \<Rightarrow> 'w xero_state \<Rightarrow> 'w xero_state \<Rightarrow> bool" for env where
  request: "XeroRequest env m p q b s = (r, s') \<Longrightarrow> xero_step env s s'"
| refresh: "ForceXeroRefresh env s = (r, s') \<Longrightarrow> xero_step env s s'"
| restart: "xero_step env s (s\<lparr>xsCached := None\<rparr>)"
| later: "xero_step env s (s\<lparr>xsNow := t\<rparr>)"

definition in_step :: "'w xero_env \<Rightarrow> ('w \<Rightarrow> xero_log) \<Rightarrow> xero_tokens \<Rightarrow> 'w xero_state \<Rightarrow> bool" where
  "in_step env tr t0 s \<longleftrightarrow>
     healthy env (xsDisk s) \<and> chained env t0 (tr (xsWorld s)) \<and>
     (\<exists>t. LoadXeroTokens env (xsDisk s) = Inr t \<and> (xtAccess t, xtRefresh t) = in_force t0 (tr (xsWorld s)) \<and>
        xtTenantID t = xtTenantID t0 \<and> (xsCached s = None \<or> xsCached s = Some t))"

interpretation xero: file_store "SaveXeroTokens env" "\<lambda>d. case LoadXeroTokens env d of Inr t \<Rightarrow> Some t | Inl e \<Rightarrow> None"
  "coded (xeLib env)" for env
proof
  fix t d r d' assume "SaveXeroTokens env t d = (r, d')"
  then have a: "save_file (xeroTokenFilePath (xeInContainer env)) (tlShow (xeLib env) t) d = (r, d')"
    by (simp add: SaveXeroTokens_def)
  note f = save_file_result [OF a]
  show "(case LoadXeroTokens env d' of Inr t \<Rightarrow> Some t | Inl e \<Rightarrow> None) = Some t" if ok: "is_ok r" "coded (xeLib env) t"
  proof -
    obtain b where "tlShow (xeLib env) t = Inr b" "okFiles d' (xeroTokenFilePath (xeInContainer env)) = Stored b"
      using conjunct1 [OF f] ok(1) by blast
    then show ?thesis using ok(2) by (simp add: coded_def LoadXeroTokens_def)
  qed
  show "(case LoadXeroTokens env d' of Inr t \<Rightarrow> Some t | Inl e \<Rightarrow> None) =
      (case LoadXeroTokens env d of Inr t \<Rightarrow> Some t | Inl e \<Rightarrow> None)" if "\<not> is_ok r"
    using conjunct1 [OF conjunct2 [OF f]] that by (simp add: LoadXeroTokens_def)
qed

lemma SaveXeroTokens_loads:
  assumes "codec (xeLib env)" "healthy env d"
  shows "healthy env (snd (SaveXeroTokens env t d)) \<and> LoadXeroTokens env (snd (SaveXeroTokens env t d)) = Inr t"
proof -
  obtain b where b: "tlShow (xeLib env) t = Inr b" "tlRead (xeLib env) b = Inr t" using assms(1) unfolding codec_def by blast
  obtain d' where d': "SaveXeroTokens env t d = (ok, d')"
    using assms(2) save_file_stores [of d "xeroTokenFilePath (xeInContainer env)"] b(1)
    by (auto simp: healthy_def SaveXeroTokens_def)
  have "(case LoadXeroTokens env d' of Inr t \<Rightarrow> Some t | Inl e \<Rightarrow> None) = Some t"
    using xero.saved [OF d'] b by (simp add: coded_def)
  moreover have "healthy env d'"
    using save_file_faults [OF d' [unfolded SaveXeroTokens_def]] assms(2) by (simp add: healthy_def)
  ultimately show ?thesis using d' by (auto split: sum.splits)
qed

lemma in_step_load: "keeps (in_step env tr t0) (load_cached env)"
  by (auto simp: keeps_def load_cached_def in_step_def split: option.splits)

lemma in_step_send:
  assumes "records env tr" "hrURL q \<noteq> xeroTokenURL"
  shows "keeps (in_step env tr t0) (send_xero env q)"
  unfolding keeps_def
proof (intro allI impI)
  fix s r s' assume a: "in_step env tr t0 s" "send_xero env q s = (r, s')"
  obtain r1 w where w: "xeHttp env q (xsWorld s) = (r1, w)" by fastforce
  have l: "tr w = tr (xsWorld s) @ [(q, r1)]" using assms(1) w unfolding records_def by blast
  have "take_grant p (q, r1) = p" for p using assms(2) by (cases p; cases r1) simp_all
  then have "in_force t0 (tr w) = in_force t0 (tr (xsWorld s))" by (simp add: l)
  moreover have "chained env t0 (tr w)" unfolding l using a(1) assms(2) by (intro chained_snoc) (simp_all add: in_step_def)
  ultimately show "in_step env tr t0 s'" using a w by (auto simp: send_xero_def in_step_def)
qed

lemma in_step_refresh:
  assumes "records env tr" "codec (xeLib env)"
  shows "keeps (in_step env tr t0) (refreshXeroLocked env)"
  unfolding keeps_def
proof (intro allI impI)
  fix s r s' assume a: "in_step env tr t0 s" "refreshXeroLocked env s = (r, s')"
  show "in_step env tr t0 s'"
  proof (cases "s' = s")
    case False
    then obtain t where t: "xsCached s = Some t" "xtRefresh t \<noteq> []"
      "io_bind (io_wrap ''xero refresh request failed: '' (send_xero env (refresh_request env (xtRefresh t))))
         (\<lambda>resp. case granted resp of Inl e \<Rightarrow> io_fail e | Inr g \<Rightarrow> keep_grant env t g) s = (r, s')"
      using a(2) by (auto simp: refreshXeroLocked_def split: option.splits if_splits)
    let ?q = "refresh_request env (xtRefresh t)"
    obtain r1 w where w: "xeHttp env ?q (xsWorld s) = (r1, w)" by fastforce
    have u: "hrURL ?q = xeroTokenURL" by (simp add: refresh_request_def)
    have l: "tr w = tr (xsWorld s) @ [(?q, r1)]" using assms(1) w unfolding records_def by blast
    have old: "(xtAccess t, xtRefresh t) = in_force t0 (tr (xsWorld s))" "xtTenantID t = xtTenantID t0"
      "healthy env (xsDisk s)" "chained env t0 (tr (xsWorld s))"
      using a(1) t(1) by (auto simp: in_step_def)
    have "snd (in_force t0 (tr (xsWorld s))) = xtRefresh t" by (simp flip: old(1))
    then have chain: "chained env t0 (tr w)" unfolding l by (intro chained_snoc old(4)) simp
    show ?thesis
    proof (cases "\<exists>resp g. r1 = Inr resp \<and> granted resp = Inr g")
      case True
      then obtain resp g where g: "r1 = Inr resp" "granted resp = Inr g" by blast
      let ?t = "with_grant (xsNow s) g t"
      have s': "s' = s\<lparr>xsWorld := w, xsCached := Some ?t, xsDisk := snd (SaveXeroTokens env ?t (xsDisk s))\<rparr>"
        using t(3) w g by (simp add: send_xero_def io_bind_def io_wrap_def keep_grant_def Let_def)
      have "xtTenantID ?t = xtTenantID t0" "(xtAccess ?t, xtRefresh ?t) = in_force t0 (tr w)"
        using old(2) l g u by (simp_all add: with_grant_def)
      then show ?thesis using SaveXeroTokens_loads [OF assms(2) old(3), of ?t] s' chain by (simp add: in_step_def)
    next
      case False
      then have "s' = s\<lparr>xsWorld := w\<rparr>" "in_force t0 (tr w) = in_force t0 (tr (xsWorld s))"
        using t(3) w l by (auto simp: send_xero_def io_bind_def io_wrap_def split: sum.splits)
      then show ?thesis using a(1) chain by (simp add: in_step_def)
    qed
  qed (use a in simp)
qed

lemma api_url: "hrURL (api_request auth m p q b) \<noteq> xeroTokenURL"
  by (simp add: api_request_def xeroAPIBase_def xeroTokenURL_def)

lemma in_step_access:
  assumes "records env tr" "codec (xeLib env)"
  shows "keeps (in_step env tr t0) (XeroAccessToken env)"
proof -
  have p: "keeps (in_step env tr t0) cached_pair"
    by (auto simp: keeps_def cached_pair_def split: option.splits)
  have k: "keeps (in_step env tr t0) (io_bind (refreshXeroLocked env) (\<lambda>_. cached_pair))"
    by (intro keeps_bind in_step_refresh assms p)
  have "keeps (in_step env tr t0) (\<lambda>s. case xsCached s of
      Some t \<Rightarrow> if fresh (xsNow s) t then cached_pair s else io_bind (refreshXeroLocked env) (\<lambda>_. cached_pair) s
    | None \<Rightarrow> cached_pair s)"
    unfolding keeps_def
  proof (intro allI impI)
    fix s r s' assume a: "in_step env tr t0 s" "(case xsCached s of
        Some t \<Rightarrow> if fresh (xsNow s) t then cached_pair s else io_bind (refreshXeroLocked env) (\<lambda>_. cached_pair) s
      | None \<Rightarrow> cached_pair s) = (r, s')"
    then have "cached_pair s = (r, s') \<or> io_bind (refreshXeroLocked env) (\<lambda>_. cached_pair) s = (r, s')"
      by (simp split: option.splits if_splits)
    then show "in_step env tr t0 s'" using keepsD [OF p a(1)] keepsD [OF k a(1)] by blast
  qed
  then show ?thesis unfolding XeroAccessToken_def by (intro keeps_bind keeps_wrap in_step_load)
qed

lemma in_step_do:
  assumes "records env tr" "codec (xeLib env)"
  shows "keeps (in_step env tr t0) (doRequest env m p q b)"
  unfolding doRequest_def Let_def
proof (rule keeps_bind [OF in_step_access [OF assms]])
  fix auth
  show "keeps (in_step env tr t0)
    (case xeURL env (hrURL (api_request auth m p q b)) of
       Some e \<Rightarrow> io_fail (Wrap ''building xero request: '' e [])
     | None \<Rightarrow> io_bind (io_wrap ''xero request failed: '' (send_xero env (api_request auth m p q b)))
         (\<lambda>resp. io_return (hpStatus resp, hpBody resp)))"
    using in_step_send [OF assms(1) api_url [of auth m p q b]] by (cases "xeURL env (hrURL (api_request auth m p q b))")
      (auto intro!: keeps_bind keeps_wrap)
qed

lemma in_step_force:
  assumes "records env tr" "codec (xeLib env)"
  shows "keeps (in_step env tr t0) (ForceXeroRefresh env)"
  unfolding ForceXeroRefresh_def by (intro keeps_bind in_step_load in_step_refresh assms)

lemma in_step_request:
  assumes "records env tr" "codec (xeLib env)"
  shows "keeps (in_step env tr t0) (XeroRequest env m p q b)"
  unfolding XeroRequest_def
  by (auto intro!: keeps_bind keeps_wrap in_step_do in_step_force assms simp: api_answer_def)

lemma in_step_step:
  assumes "records env tr" "codec (xeLib env)" "xero_step env s s'" "in_step env tr t0 s"
  shows "in_step env tr t0 s'"
  using assms(3)
proof cases
  case (request m p q b r)
  then show ?thesis using keepsD [OF in_step_request [OF assms(1,2)] assms(4)] by blast
next
  case (refresh r)
  then show ?thesis using keepsD [OF in_step_force [OF assms(1,2)] assms(4)] by blast
qed (use assms(4) in \<open>auto simp: in_step_def\<close>)

text \<open>C32. No grant is lost.  The token library reads back what it writes and the disk is healthy.  Then after any number of requests,
  refreshes, restarts of the program and pauses, whatever the answers were, the file holds the access and refresh token of the
  last grant that the program received and could read (those of the start when there was none), for the same tenant; the
  tokens in memory are those of the file; and every refresh that was asked for used the refresh token in force at that
  moment.\<close>

theorem last_grant_survives_restarts:
  assumes "records env tr" "codec (xeLib env)" "healthy env (xsDisk s)"
    and "LoadXeroTokens env (xsDisk s) = Inr t" "tr (xsWorld s) = []" "xsCached s = None"
    and "(xero_step env)\<^sup>*\<^sup>* s s'"
  shows "(\<exists>t'. LoadXeroTokens env (xsDisk s') = Inr t' \<and> (xtAccess t', xtRefresh t') = in_force t (tr (xsWorld s')) \<and>
      xtTenantID t' = xtTenantID t \<and> (xsCached s' = None \<or> xsCached s' = Some t')) \<and>
    chained env t (tr (xsWorld s'))"
proof -
  have "in_step env tr t s" using assms(3-6) by (simp add: in_step_def)
  with assms(7) have "in_step env tr t s'"
    by (induction rule: rtranclp_induct) (auto intro: in_step_step [OF assms(1,2)])
  then show ?thesis by (simp add: in_step_def)
qed

section \<open>How often Xero is asked\<close>

text \<open>The trace of the client records its requests.\<close>

definition xero_traced :: "'w xero_env \<Rightarrow> ('w \<Rightarrow> http_request list) \<Rightarrow> bool" where
  "xero_traced env tr \<longleftrightarrow> (\<forall>q w r w'. xeHttp env q w = (r, w') \<longrightarrow> tr w' = tr w @ [q])"

definition is_api :: "http_request \<Rightarrow> bool" where "is_api q \<longleftrightarrow> hrURL q \<noteq> xeroTokenURL"

text \<open>
  The trace of all requests, and of those among them that are sent to the API: \<open>sends\<close> bounds both.
\<close>

definition asks :: "('w \<Rightarrow> http_request list) \<Rightarrow> nat \<Rightarrow> nat \<Rightarrow> ('w xero_state, 'a) io \<Rightarrow> bool" where
  "asks tr n k m \<longleftrightarrow>
     sends (\<lambda>s. tr (xsWorld s)) (\<lambda>q. True) n m \<and> sends (\<lambda>s. filter is_api (tr (xsWorld s))) is_api k m"

lemma asks_return [simp]: "asks tr n k (io_return x)" and asks_fail [simp]: "asks tr n k (io_fail e)"
  by (simp_all add: asks_def)

lemma asks_bind: "asks tr n k m \<Longrightarrow> (\<And>x. asks tr n' k' (f x)) \<Longrightarrow> asks tr (n + n') (k + k') (io_bind m f)"
  unfolding asks_def by (blast intro: sends_bind)

lemma asks_wrap: "asks tr n k m \<Longrightarrow> asks tr n k (io_wrap pre m)"
  unfolding asks_def by (blast intro: sends_wrap)

lemma asks_more: "asks tr n k m \<Longrightarrow> n \<le> n' \<Longrightarrow> k \<le> k' \<Longrightarrow> asks tr n' k' m"
  unfolding asks_def by (blast intro: sends_more)

lemma asks_quiet: "(\<And>s r s'. m s = (r, s') \<Longrightarrow> xsWorld s' = xsWorld s) \<Longrightarrow> asks tr 0 0 m"
  unfolding asks_def sends_def by fastforce

lemma asks_send: "xero_traced env tr \<Longrightarrow> asks tr 1 (if is_api q then 1 else 0) (send_xero env q)"
  by (auto simp: asks_def sends_def send_xero_def xero_traced_def split: prod.splits)

lemma asks_pair: "asks tr 0 0 cached_pair"
  by (rule asks_quiet) (auto simp: cached_pair_def split: option.splits)

lemma asks_load: "asks tr 0 0 (load_cached env)"
  by (rule asks_quiet) (auto simp: load_cached_def split: option.splits sum.splits)

lemma asks_cases: "(\<And>s. m s = m1 s \<or> m s = m2 s) \<Longrightarrow> asks tr n k m1 \<Longrightarrow> asks tr n k m2 \<Longrightarrow> asks tr n k m"
  unfolding asks_def sends_def by metis

lemma asks_refresh:
  assumes "xero_traced env tr"
  shows "asks tr 1 0 (refreshXeroLocked env)"
proof -
  have k: "asks tr 0 0 (case granted resp of Inl e \<Rightarrow> io_fail e | Inr g \<Rightarrow> keep_grant env t g)" for t resp
    by (cases "granted resp") (auto intro!: asks_quiet simp: keep_grant_def Let_def)
  have b: "asks tr (1 + 0) (0 + 0) (io_bind (io_wrap ''xero refresh request failed: '' (send_xero env (refresh_request env (xtRefresh t))))
      (\<lambda>resp. case granted resp of Inl e \<Rightarrow> io_fail e | Inr g \<Rightarrow> keep_grant env t g))" for t
    using asks_send [OF assms, of "refresh_request env (xtRefresh t)"]
    by (intro asks_bind asks_wrap k) (simp add: is_api_def refresh_request_def)
  have q: "asks tr 1 0 (\<lambda>s. (Inl e, s) :: unit result \<times> 'a xero_state)" for e
    by (rule asks_more [OF asks_quiet]) auto
  show ?thesis
    unfolding asks_def sends_def
  proof (intro conjI allI impI)
    fix s r s' assume a: "refreshXeroLocked env s = (r, s')"
    have "(\<exists>e. (r, s') = (Inl e, s)) \<or> (\<exists>t. io_bind (io_wrap ''xero refresh request failed: ''
        (send_xero env (refresh_request env (xtRefresh t))))
        (\<lambda>resp. case granted resp of Inl e \<Rightarrow> io_fail e | Inr g \<Rightarrow> keep_grant env t g) s = (r, s'))"
      using a by (auto simp: refreshXeroLocked_def split: option.splits if_splits)
    then obtain m :: "('a xero_state, unit) io" where "m s = (r, s')" "asks tr 1 0 m" using q b by fastforce
    then show "\<exists>rs. tr (xsWorld s') = tr (xsWorld s) @ rs \<and> length rs \<le> 1 \<and> list_all (\<lambda>q. True) rs"
      and "\<exists>rs. filter is_api (tr (xsWorld s')) = filter is_api (tr (xsWorld s)) @ rs \<and> length rs \<le> 0 \<and> list_all is_api rs"
      unfolding asks_def sends_def by blast+
  qed
qed

lemma asks_access:
  assumes "xero_traced env tr"
  shows "asks tr 1 0 (XeroAccessToken env)"
proof -
  have p: "asks tr 1 0 cached_pair" by (rule asks_more [OF asks_pair]) auto
  have k: "asks tr (1 + 0) (0 + 0) (io_bind (refreshXeroLocked env) (\<lambda>_. cached_pair))"
    by (intro asks_bind asks_refresh assms asks_pair)
  have "asks tr 1 0 (\<lambda>s. case xsCached s of
      Some t \<Rightarrow> if fresh (xsNow s) t then cached_pair s else io_bind (refreshXeroLocked env) (\<lambda>_. cached_pair) s
    | None \<Rightarrow> cached_pair s)"
    by (rule asks_cases [OF _ p]) (use k in \<open>auto split: option.split\<close>)
  then have "asks tr (0 + 1) (0 + 0) (XeroAccessToken env)"
    unfolding XeroAccessToken_def by (intro asks_bind asks_wrap asks_load)
  then show ?thesis by simp
qed

lemma asks_do:
  assumes "xero_traced env tr"
  shows "asks tr 2 1 (doRequest env m p q b)"
proof -
  have "asks tr 1 1 (case xeURL env (hrURL (api_request auth m p q b)) of
       Some e \<Rightarrow> io_fail (Wrap ''building xero request: '' e [])
     | None \<Rightarrow> io_bind (io_wrap ''xero request failed: '' (send_xero env (api_request auth m p q b)))
         (\<lambda>resp. io_return (hpStatus resp, hpBody resp)))" for auth
  proof (cases "xeURL env (hrURL (api_request auth m p q b))")
    case None
    have "asks tr (1 + 0) (1 + 0) (io_bind (io_wrap ''xero request failed: '' (send_xero env (api_request auth m p q b)))
         (\<lambda>resp. io_return (hpStatus resp, hpBody resp)))"
      using asks_send [OF assms, of "api_request auth m p q b"] api_url [of auth m p q b]
      by (intro asks_bind asks_wrap asks_return) (simp add: is_api_def)
    with None show ?thesis by simp
  qed simp
  then have "asks tr (1 + 1) (0 + 1) (doRequest env m p q b)"
    unfolding doRequest_def Let_def by (intro asks_bind asks_access assms)
  then show ?thesis by (simp add: numeral_2_eq_2)
qed

lemma asks_request:
  assumes "xero_traced env tr"
  shows "asks tr 5 2 (XeroRequest env m p q b)"
proof -
  have f: "asks tr (0 + 1) (0 + 0) (ForceXeroRefresh env)"
    unfolding ForceXeroRefresh_def by (intro asks_bind asks_load asks_refresh assms)
  have "asks tr (1 + 2) (0 + 1) (io_bind (io_wrap ''xero 401 + refresh failed: '' (ForceXeroRefresh env)) (\<lambda>_. doRequest env m p q b))"
    using f by (intro asks_bind asks_wrap asks_do assms) simp
  then have "asks tr (2 + (3 + 0)) (1 + (1 + 0)) (XeroRequest env m p q b)"
    unfolding XeroRequest_def
    by (intro asks_bind asks_do assms) (auto simp: api_answer_def intro: asks_more)
  then show ?thesis by (simp add: numeral_2_eq_2)
qed

text \<open>A request is made at most twice, the second time after one refresh, and never costs more than five requests in all; each of them is
  a refresh or is made to the API.\<close>

theorem xero_request_is_retried_once:
  assumes "xero_traced env tr" "XeroRequest env m p q b s = (r, s')"
  shows "\<exists>rs. tr (xsWorld s') = tr (xsWorld s) @ rs \<and> length rs \<le> 5 \<and> length (filter is_api rs) \<le> 2"
proof -
  obtain rs where rs: "tr (xsWorld s') = tr (xsWorld s) @ rs" "length rs \<le> 5"
    using asks_request [OF assms(1)] assms(2) unfolding asks_def sends_def by blast
  obtain api where "filter is_api (tr (xsWorld s')) = filter is_api (tr (xsWorld s)) @ api" "length api \<le> 2"
    using asks_request [OF assms(1)] assms(2) unfolding asks_def sends_def by blast
  with rs show ?thesis by simp
qed

section \<open>A run\<close>

text \<open>
  A token library: the fields in hexadecimal, numbers in binary, separated by bars.
\<close>

function binary :: "int \<Rightarrow> string" where
  "binary n = (if n \<le> 0 then [] else (if n mod 2 = 1 then CHR ''1'' else CHR ''0'') # binary (n div 2))"
  by auto
termination by (relation "measure nat") auto

fun binary_value :: "string \<Rightarrow> int" where
  "binary_value [] = 0"
| "binary_value (c # cs) = (if c = CHR ''1'' then 1 else 0) + 2 * binary_value cs"

declare binary.simps [simp del]

definition signed :: "int \<Rightarrow> string" where
  "signed n = (if n < 0 then CHR ''-'' else CHR ''+'') # binary \<bar>n\<bar>"

definition signed_value :: "string \<Rightarrow> int" where
  "signed_value s = (if has_prefix ''-'' s then - binary_value (tl s) else binary_value (tl s))"

definition code_tokens :: "xero_tokens \<Rightarrow> string" where
  "code_tokens t =
     join ''|'' [hex_encode (xtAccess t), hex_encode (xtRefresh t), signed (tmNanos (xtExpires t)), hex_encode (tmZone (xtExpires t)),
       signed (tmOffset (xtExpires t)), hex_encode (xtTenantID t), hex_encode (xtTenantName t)]"

definition decode_tokens :: "string \<Rightarrow> xero_tokens result" where
  "decode_tokens b =
     (case split_char (CHR ''|'') b of
        [a, r, n, z, k, i, m] \<Rightarrow>
          (case (hex_decode a, hex_decode r, hex_decode z, hex_decode i, hex_decode m) of
             (Some a, Some r, Some z, Some i, Some m) \<Rightarrow>
               Inr \<lparr>xtAccess = a, xtRefresh = r, xtExpires = \<lparr>tmNanos = signed_value n, tmZone = z, tmOffset = signed_value k\<rparr>,
                 xtTenantID = i, xtTenantName = m\<rparr>
           | _ \<Rightarrow> Inl (Err ''bad file''))
      | _ \<Rightarrow> Inl (Err ''bad file''))"

lemma binary_value_binary: "0 \<le> n \<Longrightarrow> binary_value (binary n) = n"
proof (induction n rule: binary.induct)
  case (1 n)
  then show ?case by (subst binary.simps) (auto, presburger+)
qed

lemma signed_value_signed: "signed_value (signed n) = n"
  by (simp add: signed_value_def signed_def binary_value_binary)

lemma binary_no_bar: "CHR ''|'' \<notin> set (binary n)"
proof (induction n rule: binary.induct)
  case (1 n)
  then show ?case by (subst binary.simps) auto
qed

lemma hex_digit_no_bar: "n < 16 \<Longrightarrow> hex_digit n \<noteq> CHR ''|''"
proof -
  assume "n < 16"
  then have "(of_char (hex_digit n) :: nat) \<noteq> of_char (CHR ''|'')" by (auto simp: hex_digit_def)
  then show ?thesis by metis
qed

lemma no_bar: "CHR ''|'' \<notin> set (hex_encode s)" "CHR ''|'' \<notin> set (signed k)"
  using of_char_div16 binary_no_bar by (auto simp: hex_encode_def hex_digit_no_bar eq_commute [of "CHR ''|''"] signed_def)

definition plain_lib :: "xero_tokens token_lib" where
  "plain_lib = \<lparr>tlShow = \<lambda>t. Inr (code_tokens t), tlRead = decode_tokens, tlAccess = xtAccess\<rparr>"

lemma plain_codec: "codec plain_lib"
proof -
  have "split_char (CHR ''|'') (code_tokens t) =
      [hex_encode (xtAccess t), hex_encode (xtRefresh t), signed (tmNanos (xtExpires t)), hex_encode (tmZone (xtExpires t)),
       signed (tmOffset (xtExpires t)), hex_encode (xtTenantID t), hex_encode (xtTenantName t)]" for t
    unfolding code_tokens_def by (rule split_char_join) (use no_bar in auto)
  then have "decode_tokens (code_tokens t) = Inr t" for t
    by (simp add: decode_tokens_def hex_decode_encode signed_value_signed)
  then show ?thesis by (simp add: codec_def plain_lib_def)
qed

text \<open>
  A server that swaps two refresh tokens at every grant and rejects every other access token; its world keeps the log and
  the requests alone.
\<close>

definition asked :: "bool \<times> xero_log \<Rightarrow> http_request list" where
  "asked w = map fst (snd w)"

definition grant_answer :: "string \<Rightarrow> http_response" where
  "grant_answer r =
     \<lparr>hpStatus = 200, hpDisposition = [],
      hpBody = json_show (JObj [(''access_token'', JStr ''a''), (''refresh_token'', JStr r), (''expires_in'', JNum ''1800'')])\<rparr>"

definition xero_answer :: "http_request \<Rightarrow> bool \<Rightarrow> http_response" where
  "xero_answer q second =
     (if hrURL q = xeroTokenURL then grant_answer (if second then ''r1'' else ''r2'')
      else \<lparr>hpStatus = (if second then 200 else 401), hpDisposition = [], hpBody = ''[]''\<rparr>)"

definition xero_http :: "http_request \<Rightarrow> (bool \<times> xero_log, http_response) io" where
  "xero_http q w =
     (Inr (xero_answer q (fst w)), (if hrURL q = xeroTokenURL then \<not> fst w else fst w, snd w @ [(q, Inr (xero_answer q (fst w)))]))"

definition xero_demo :: "(bool \<times> xero_log) xero_env" where
  "xero_demo = \<lparr>xeClientId = ''id'', xeClientSecret = ''secret'', xeInContainer = True, xeLib = plain_lib, xeHttp = xero_http,
     xeURL = \<lambda>u. None\<rparr>"

definition first_tokens :: xero_tokens where
  "first_tokens = \<lparr>xtAccess = ''old'', xtRefresh = ''r1'', xtExpires = utc (minutes 10), xtTenantID = ''acme'', xtTenantName = []\<rparr>"

definition xero_start :: "(bool \<times> xero_log) xero_state" where
  "xero_start =
     \<lparr>xsDisk = \<lparr>okFiles = (\<lambda>_. Absent)(''data/xero/tokens.json'' := Stored (code_tokens first_tokens)), okMkdir = None,
        okWrite = (\<lambda>_. None), okTorn = (\<lambda>_. Absent), okRename = None\<rparr>,
      xsCached = None, xsNow = utc 0, xsWorld = (False, [])\<rparr>"

definition xero_call :: "string result \<times> (bool \<times> xero_log) xero_state" where
  "xero_call = xero_list_contacts xero_demo (Inr \<lparr>cqWhere = [], cqIDs = ''7'', cqIncludeArchived = False, cqPage = 2\<rparr>) xero_start"

lemma xero_demo_records: "records xero_demo snd" "xero_traced xero_demo asked"
  by (auto simp: records_def xero_traced_def asked_def xero_demo_def xero_http_def)

text \<open>The page of contacts is fetched after the rejected token was refreshed, and the new pair is in the file.\<close>

lemma xero_call_runs:
  "fst xero_call = Inr ''[]'' \<and>
   map hrURL (asked (xsWorld (snd xero_call))) =
     [''https://api.xero.com/api.xro/2.0/Contacts?IDs=7&page=2'', xeroTokenURL,
      ''https://api.xero.com/api.xro/2.0/Contacts?IDs=7&page=2''] \<and>
   (case LoadXeroTokens xero_demo (xsDisk (snd xero_call)) of Inr t \<Rightarrow> xtRefresh t = ''r2'' | Inl e \<Rightarrow> False)"
  by code_simp

lemma xero_call_request:
  "XeroRequest xero_demo ''GET'' ''/api.xro/2.0/Contacts'' [(''IDs'', ''7''), (''page'', ''2'')] None xero_start = xero_call"
proof -
  have "page_value 2 = [(''page'', ''2'')]" by code_simp
  then show ?thesis by (simp add: xero_call_def xero_list_contacts_def given_def)
qed

lemma xero_start_facts:
  "healthy xero_demo (xsDisk xero_start)" "LoadXeroTokens xero_demo (xsDisk xero_start) = Inr first_tokens"
  "snd (xsWorld xero_start) = []" "xsCached xero_start = None" "codec (xeLib xero_demo)"
proof -
  obtain b where b: "decode_tokens (code_tokens t) = Inr t" for t
    using plain_codec by (auto simp: codec_def plain_lib_def)
  show "LoadXeroTokens xero_demo (xsDisk xero_start) = Inr first_tokens"
    using b [of first_tokens] by (simp add: LoadXeroTokens_def xero_start_def xero_demo_def plain_lib_def xeroTokenFilePath_def)
  show "codec (xeLib xero_demo)" using plain_codec by (simp add: xero_demo_def)
qed (auto simp: healthy_def xero_start_def xero_demo_def)

lemma last_grant_survives_restarts_witness:
  "\<exists>t'. LoadXeroTokens xero_demo (xsDisk ((snd xero_call)\<lparr>xsCached := None\<rparr>)) = Inr t' \<and> xtRefresh t' = ''r2''"
proof -
  have "xero_step xero_demo xero_start (snd xero_call)"
    by (rule xero_step.request [where r = "fst xero_call" and m = "''GET''" and p = "''/api.xro/2.0/Contacts''"
          and q = "[(''IDs'', ''7''), (''page'', ''2'')]" and b = None])
      (simp add: xero_call_request)
  then have "(xero_step xero_demo)\<^sup>*\<^sup>* xero_start ((snd xero_call)\<lparr>xsCached := None\<rparr>)"
    by (rule rtranclp.rtrancl_into_rtrancl [OF r_into_rtranclp]) (rule xero_step.restart)
  from last_grant_survives_restarts [OF xero_demo_records(1) xero_start_facts(5,1,2,3,4) this]
  obtain t' where t': "LoadXeroTokens xero_demo (xsDisk ((snd xero_call)\<lparr>xsCached := None\<rparr>)) = Inr t'"
    "(xtAccess t', xtRefresh t') = in_force first_tokens (snd (xsWorld (snd xero_call)))" by auto
  have "snd (in_force first_tokens (snd (xsWorld (snd xero_call)))) = ''r2''" by code_simp
  with t' show ?thesis by (metis snd_conv)
qed

lemma xero_request_is_retried_once_witness:
  "\<exists>rs. asked (xsWorld (snd xero_call)) = rs \<and> length (filter is_api rs) = 2 \<and> length rs \<le> 5"
proof -
  have r: "XeroRequest xero_demo ''GET'' ''/api.xro/2.0/Contacts'' [(''IDs'', ''7''), (''page'', ''2'')] None xero_start =
      (fst xero_call, snd xero_call)"
    by (simp add: xero_call_request)
  obtain rs where "asked (xsWorld (snd xero_call)) = asked (xsWorld xero_start) @ rs" "length rs \<le> 5"
    using xero_request_is_retried_once [OF xero_demo_records(2) r] by blast
  moreover have "length (filter is_api (asked (xsWorld (snd xero_call)))) = 2" by code_simp
  ultimately show ?thesis by (simp add: xero_start_def asked_def)
qed

end
