(* ===== verification/Source_Scan.thy ===== *)
theory Source_Scan
  imports Config "HOL-Library.List_Lexorder" "HOL-Library.Char_ord"
begin

text \<open>
  Programs that read the Go sources of the tools instead of running them: the tool picker of the configurator
  (\<open>scripts/configurator/registry.go\<close>) and the listing of all tools (\<open>scripts/tools_list/main.go\<close>).  A parsed file is
  the part of \<open>go/ast\<close> they look at; parsing and reading directories are parameters.  The functions a tool is built from
  are those its factory calls, directly or through others.
\<close>

section \<open>Syntax trees\<close>

text \<open>
  A string literal carries its unquoted value, if it can be unquoted; \<open>Plus\<close> is a binary expression with \<open>+\<close>, \<open>Node\<close> every
  other expression or statement with what it consists of.
\<close>

datatype go_node =
    Ident string
  | StringLit "string option"
  | OtherLit
  | Composite "go_node option" "go_node list"
  | KeyValue go_node go_node
  | Call go_node "go_node list"
  | Selector go_node string
  | Plus go_node go_node
  | Node "go_node list"

record go_func =
  gfName :: string
  gfMethod :: bool
  gfDoc :: "string option"
  gfBody :: "go_node option"

text \<open>The variable specifications of a file, names and values, and its functions, both in the order of the file.\<close>

record go_file =
  gfVars :: "(string list \<times> go_node list) list"
  gfFuncs :: "go_func list"

text \<open>The order of \<open>ast.Inspect\<close>.\<close>

fun inspect :: "go_node \<Rightarrow> go_node list" where
  "inspect (Composite t es) =
     Composite t es # (case t of Some x \<Rightarrow> inspect x | None \<Rightarrow> []) @ concat (map inspect es)"
| "inspect (KeyValue k v) = KeyValue k v # inspect k @ inspect v"
| "inspect (Call f xs) = Call f xs # inspect f @ concat (map inspect xs)"
| "inspect (Selector x s) = Selector x s # inspect x @ [Ident s]"
| "inspect (Plus x y) = Plus x y # inspect x @ inspect y"
| "inspect (Node xs) = Node xs # concat (map inspect xs)"
| "inspect x = [x]"

section \<open>What is read from a file\<close>

fun factoryName :: "go_node \<Rightarrow> string" where
  "factoryName (Ident n) = n"
| "factoryName (Call (Ident f) (Ident n # xs)) = (if f = ''wrap'' then n else [])"
| "factoryName x = []"

fun stringExpr :: "go_node \<Rightarrow> string" where
  "stringExpr (StringLit (Some s)) = s"
| "stringExpr (Plus x y) = stringExpr x @ stringExpr y"
| "stringExpr x = []"

fun stringExprOK :: "go_node \<Rightarrow> string option" where
  "stringExprOK (StringLit v) = v"
| "stringExprOK (Plus x y) =
     (case (stringExprOK x, stringExprOK y) of (Some a, Some b) \<Rightarrow> Some (a @ b) | _ \<Rightarrow> None)"
| "stringExprOK x = None"

definition literal_text :: "go_node \<Rightarrow> string" where
  "literal_text x = (case stringExprOK x of Some s \<Rightarrow> s | None \<Rightarrow> [])"

text \<open>The elements of the composite literals that a variable of the given name is initialised with.\<close>

fun elements :: "go_node \<Rightarrow> go_node list" where
  "elements (Composite t es) = es"
| "elements x = []"

definition var_elements :: "string \<Rightarrow> go_file \<Rightarrow> go_node list" where
  "var_elements name file =
     concat (map (\<lambda>(names, vals). concat (map (\<lambda>(n, v). if n = name then elements v else []) (zip names vals))) (gfVars file))"

fun registry_entry :: "go_node \<Rightarrow> (string \<times> string) list" where
  "registry_entry (KeyValue (StringLit (Some key)) v) = (if factoryName v = [] then [] else [(key, factoryName v)])"
| "registry_entry x = []"

definition collectRegistry :: "go_file \<Rightarrow> (string \<times> string) list" where
  "collectRegistry file = concat (map registry_entry (var_elements ''registry'' file))"

fun string_entry :: "(go_node \<Rightarrow> string) \<Rightarrow> go_node \<Rightarrow> (string \<times> string) list" where
  "string_entry str (KeyValue (StringLit (Some key)) v) = (if str v = [] then [] else [(key, str v)])"
| "string_entry str x = []"

definition collectStringMap :: "(go_node \<Rightarrow> string) \<Rightarrow> string \<Rightarrow> go_file \<Rightarrow> (string \<times> string) list" where
  "collectStringMap str name file = concat (map (string_entry str) (var_elements name file))"

text \<open>The value stored last under a key, blank when there is none.\<close>

definition last_value :: "(string \<times> string) list \<Rightarrow> string \<Rightarrow> string" where
  "last_value kvs k = (case map_of (rev kvs) k of Some v \<Rightarrow> v | None \<Rightarrow> [])"

fun isToolDefinitionLit :: "go_node \<Rightarrow> bool" where
  "isToolDefinitionLit (Composite (Some (Ident n)) es) \<longleftrightarrow> n = ''ToolDefinition''"
| "isToolDefinitionLit (Composite (Some (Selector x n)) es) \<longleftrightarrow> n = ''ToolDefinition''"
| "isToolDefinitionLit x \<longleftrightarrow> False"

fun field_text :: "(go_node \<Rightarrow> string) \<Rightarrow> string \<Rightarrow> go_node \<Rightarrow> string list" where
  "field_text str field (KeyValue (Ident k) v) = (if k = field \<and> str v \<noteq> [] then [str v] else [])"
| "field_text str field x = []"

text \<open>All the descriptions of the tool definitions of a body, or the last name and the last description of each.\<close>

definition descriptions :: "go_node \<Rightarrow> string list" where
  "descriptions body =
     concat (map (\<lambda>x. concat (map (field_text stringExpr ''Description'') (elements x))) (filter isToolDefinitionLit (inspect body)))"

definition last_text :: "string list \<Rightarrow> string" where
  "last_text xs = (if xs = [] then [] else last xs)"

definition tool_pair :: "go_node \<Rightarrow> (string \<times> string) list" where
  "tool_pair x =
     (let n = last_text (concat (map (field_text literal_text ''Name'') (elements x)));
          d = last_text (concat (map (field_text literal_text ''Description'') (elements x)))
      in if n \<noteq> [] \<or> d \<noteq> [] then [(n, d)] else [])"

definition tool_pairs :: "go_node \<Rightarrow> (string \<times> string) list" where
  "tool_pairs body = concat (map tool_pair (filter isToolDefinitionLit (inspect body)))"

fun called :: "go_node \<Rightarrow> string list" where
  "called (Call (Ident f) xs) = [f]"
| "called x = []"

definition calls_in :: "go_node \<Rightarrow> string list" where
  "calls_in body = concat (map called (inspect body))"

text \<open>What the bodies of the functions of one name hold, of all files together.\<close>

definition all_funcs :: "go_file list \<Rightarrow> go_func list" where
  "all_funcs files = concat (map gfFuncs files)"

definition bodies :: "go_func list \<Rightarrow> string \<Rightarrow> go_node list" where
  "bodies fs name = map (\<lambda>f. the (gfBody f)) (filter (\<lambda>f. gfName f = name \<and> gfBody f \<noteq> None) fs)"

definition of_function :: "(go_node \<Rightarrow> 'a list) \<Rightarrow> go_func list \<Rightarrow> string \<Rightarrow> 'a list" where
  "of_function what fs name = concat (map what (bodies fs name))"

definition fnDoc :: "go_func list \<Rightarrow> string \<Rightarrow> string" where
  "fnDoc fs name =
     last_text (concat (map (\<lambda>f. case gfDoc f of Some d \<Rightarrow> [trim_space d] | None \<Rightarrow> [])
       (filter (\<lambda>f. gfName f = name \<and> gfBody f \<noteq> None) fs)))"

section \<open>What a function calls, directly or not\<close>

text \<open>
  The recursion of \<open>resolvePairs\<close> and \<open>resolveDescriptions\<close> with its pending calls as a list: a function is visited when it is
  met first, then the functions it calls, then what is left.
\<close>

definition named :: "go_func list \<Rightarrow> string set" where
  "named fs = set (map gfName fs)"

lemma finite_named [simp]: "finite (named fs)"
  by (simp add: named_def)

lemma unnamed_has_no_body: "name \<notin> named fs \<Longrightarrow> of_function what fs name = []"
  by (auto simp: of_function_def bodies_def named_def filter_empty_conv)

function visit :: "go_func list \<Rightarrow> string list \<Rightarrow> string list \<Rightarrow> string list" where
  "visit fs seen [] = []"
| "visit fs seen (f # pending) =
     (if f = [] \<or> f \<in> set seen then visit fs seen pending
      else f # visit fs (f # seen) (of_function calls_in fs f @ pending))"
  by pat_completeness auto
termination
proof (relation "measures [\<lambda>(fs, seen, pending). card (named fs - set seen), \<lambda>(fs, seen, pending). length pending]")
  fix fs :: "go_func list" and seen pending :: "string list" and f assume "\<not> (f = [] \<or> f \<in> set seen)"
  show "((fs, f # seen, of_function calls_in fs f @ pending), fs, seen, f # pending)
    \<in> measures [\<lambda>(fs, seen, pending). card (named fs - set seen), \<lambda>(fs, seen, pending). length pending]"
  proof (cases "f \<in> named fs")
    case True
    then have "named fs - set (f # seen) \<subset> named fs - set seen" using \<open>\<not> _\<close> by auto
    then show ?thesis by (simp add: psubset_card_mono)
  next
    case False
    then have "named fs - set (f # seen) = named fs - set seen" by auto
    then show ?thesis using unnamed_has_no_body [OF False] by simp
  qed
qed auto

definition resolveDescriptions :: "go_func list \<Rightarrow> string \<Rightarrow> string list" where
  "resolveDescriptions fs fn = concat (map (of_function descriptions fs) (visit fs [] [fn]))"

definition resolvePairs :: "go_func list \<Rightarrow> string \<Rightarrow> (string \<times> string) list" where
  "resolvePairs fs fn = concat (map (of_function tool_pairs fs) (visit fs [] [fn]))"

section \<open>The tool picker\<close>

record tool_info =
  tiKey :: string
  tiDescription :: string
  tiPrivate :: bool
  tiMCP :: bool

definition registry_pairs :: "go_file list \<Rightarrow> (string \<times> string) list" where
  "registry_pairs files = concat (map collectRegistry files)"

definition overrides :: "(go_node \<Rightarrow> string) \<Rightarrow> go_file list \<Rightarrow> string \<Rightarrow> string" where
  "overrides str files = last_value (concat (map (collectStringMap str ''registryDescriptions'') files))"

definition static_info :: "go_file list \<Rightarrow> string \<Rightarrow> tool_info" where
  "static_info files k =
     (let fn = last_value (registry_pairs files) k;
          descs = resolveDescriptions (all_funcs files) fn
      in \<lparr>tiKey = k,
          tiDescription =
            (if overrides stringExpr files k \<noteq> [] then overrides stringExpr files k
             else if descs \<noteq> [] then join '' | '' descs else fnDoc (all_funcs files) fn),
          tiPrivate = False, tiMCP = False\<rparr>)"

text \<open>
  The directory of private tools, its entries with whether they are directories and their syntax trees, if they parse; a call
  \<open>tools.Register("key", factory, "description")\<close> in one of them.
\<close>

fun register_call :: "go_node \<Rightarrow> (string \<times> string) list" where
  "register_call (Call (Selector (Ident x) s) (StringLit (Some key) # args)) =
     (if s = ''Register'' \<and> x = ''tools'' \<and> key \<noteq> []
      then [(key, case args of f # d # ds \<Rightarrow> stringExpr d | _ \<Rightarrow> [])] else [])"
| "register_call x = []"

definition private_source :: "string \<times> bool \<times> go_node result \<Rightarrow> bool" where
  "private_source e \<longleftrightarrow>
     (case e of (name, isDir, parsed) \<Rightarrow>
        \<not> isDir \<and> has_suffix ''.go'' name \<and> \<not> has_suffix ''_test.go'' name \<and> is_ok parsed)"

definition collectPrivateRegistrations :: "(string \<times> bool \<times> go_node result) list result \<Rightarrow> string list \<times> (string \<Rightarrow> string)" where
  "collectPrivateRegistrations dir =
     (let entries = (case dir of Inl e \<Rightarrow> [] | Inr es \<Rightarrow> filter private_source es);
          regs = concat (map (\<lambda>(name, isDir, parsed). case parsed of Inr t \<Rightarrow> concat (map register_call (inspect t)) | Inl e \<Rightarrow> []) entries)
      in (sort (remdups (map fst regs)), last_value (filter (\<lambda>r. snd r \<noteq> []) regs)))"

fun mcp_infos :: "string set \<Rightarrow> mcp_server list \<Rightarrow> tool_info list" where
  "mcp_infos seen [] = []"
| "mcp_infos seen (s # ss) =
     (let k = trim_space (msKey s)
      in if k = [] \<or> k \<in> seen then mcp_infos seen ss
         else \<lparr>tiKey = k, tiDescription = msDescription s, tiPrivate = False, tiMCP = True\<rparr> # mcp_infos (insert k seen) ss)"

definition loadToolRegistry ::
  "go_file list result \<Rightarrow> (string \<times> bool \<times> go_node result) list result \<Rightarrow> mcp_server list result \<Rightarrow> tool_info list result" where
  "loadToolRegistry parsed privDir servers =
     and_then (wrap_err ''parsing internal/tools: '' parsed) (\<lambda>files.
       let static = map (static_info files) (map fst (registry_pairs files));
           (keys, desc) = collectPrivateRegistrations privDir;
           private = map (\<lambda>k. \<lparr>tiKey = k, tiDescription = desc k, tiPrivate = True, tiMCP = False\<rparr>)
             (filter (\<lambda>k. k \<notin> set (map tiKey static)) keys);
           seen = set (map tiKey static) \<union> set (map tiKey private)
       in Inr (static @ private @ mcp_infos seen (case servers of Inr ss \<Rightarrow> ss | Inl e \<Rightarrow> [])))"

section \<open>The listing of all tools\<close>

record tool_entry =
  teKey :: string
  teName :: string
  teDescription :: string
  teCore :: bool

definition core_entries :: "go_file list \<Rightarrow> tool_entry list" where
  "core_entries files =
     map (\<lambda>(n, d). \<lparr>teKey = [], teName = n, teDescription = d, teCore = True\<rparr>) (resolvePairs (all_funcs files) ''CoreTools'')"

definition key_entries :: "go_file list \<Rightarrow> string \<Rightarrow> tool_entry list" where
  "key_entries files k =
     (let pairs = resolvePairs (all_funcs files) (last_value (registry_pairs files) k);
          override = overrides literal_text files k
      in if pairs = [] then [\<lparr>teKey = k, teName = [], teDescription = override, teCore = False\<rparr>]
         else map (\<lambda>(n, d). \<lparr>teKey = k, teName = n, teDescription = (if d = [] then override else d), teCore = False\<rparr>) pairs)"

definition buildEntries :: "go_file list result \<Rightarrow> tool_entry list result" where
  "buildEntries parsed =
     and_then (wrap_err ''parsing internal/tools: '' parsed) (\<lambda>files.
       Inr (core_entries files @ concat (map (key_entries files) (map fst (registry_pairs files)))))"

section \<open>A tool is described by the functions its factory reaches\<close>

definition calls_to :: "go_func list \<Rightarrow> string \<Rightarrow> string \<Rightarrow> bool" where
  "calls_to fs f g \<longleftrightarrow> g \<in> set (of_function calls_in fs f) \<and> g \<noteq> []"

lemma visit_sound:
  "g \<in> set (visit fs seen pending) \<Longrightarrow> g \<noteq> [] \<and> g \<notin> set seen \<and> (\<exists>f\<in>set pending. f \<noteq> [] \<and> (calls_to fs)\<^sup>*\<^sup>* f g)"
proof (induction fs seen pending rule: visit.induct)
  case (2 fs seen f pending)
  show ?case
  proof (cases "f = [] \<or> f \<in> set seen")
    case True
    then show ?thesis using 2 by auto
  next
    case False
    consider "g = f" | "g \<in> set (visit fs (f # seen) (of_function calls_in fs f @ pending))"
      using 2(3) False by auto
    then show ?thesis
    proof cases
      case 1
      then show ?thesis using False by auto
    next
      case 2
      then obtain h where h: "g \<noteq> []" "g \<notin> set (f # seen)" "h \<noteq> []" "(calls_to fs)\<^sup>*\<^sup>* h g"
        "h \<in> set (of_function calls_in fs f) \<or> h \<in> set pending"
        using "2.IH"(2) [OF False] by auto
      then have "(calls_to fs)\<^sup>*\<^sup>* f g \<or> h \<in> set pending"
        by (metis calls_to_def converse_rtranclp_into_rtranclp)
      with h False show ?thesis by auto
    qed
  qed
qed simp

lemma visit_closed:
  "(\<forall>f\<in>set pending. f \<noteq> [] \<longrightarrow> f \<in> set (visit fs seen pending) \<union> set seen) \<and>
   (\<forall>f g. f \<in> set (visit fs seen pending) \<longrightarrow> calls_to fs f g \<longrightarrow> g \<in> set (visit fs seen pending) \<union> set seen)"
proof (induction fs seen pending rule: visit.induct)
  case (2 fs seen f pending)
  show ?case
  proof (cases "f = [] \<or> f \<in> set seen")
    case True
    then show ?thesis using "2.IH"(1) by auto
  next
    case False
    then show ?thesis using "2.IH"(2) by (auto simp: calls_to_def)
  qed
qed simp

lemma visit_distinct: "distinct (visit fs seen pending)"
proof (induction fs seen pending rule: visit.induct)
  case (2 fs seen f pending)
  then show ?case using visit_sound [of f fs "f # seen"] by auto
qed simp

lemma visit_reaches:
  assumes "f \<noteq> []"
  shows "set (visit fs [] [f]) = {g. (calls_to fs)\<^sup>*\<^sup>* f g}"
proof
  show "set (visit fs [] [f]) \<subseteq> {g. (calls_to fs)\<^sup>*\<^sup>* f g}" using visit_sound by fastforce
  have "g \<in> set (visit fs [] [f])" if "(calls_to fs)\<^sup>*\<^sup>* f g" for g
    using that
  proof (induction rule: rtranclp_induct)
    case base
    then show ?case using visit_closed [of "[f]" fs "[]"] assms by auto
  next
    case (step g h)
    then show ?case using visit_closed [of "[f]" fs "[]"] by auto
  qed
  then show "{g. (calls_to fs)\<^sup>*\<^sup>* f g} \<subseteq> set (visit fs [] [f])" by blast
qed

text \<open>The functions a factory reaches by calls, the factory itself first and each once.\<close>

definition reach_order :: "go_func list \<Rightarrow> string \<Rightarrow> string list \<Rightarrow> bool" where
  "reach_order fs fn order \<longleftrightarrow> distinct order \<and> take 1 order = (if fn = [] then [] else [fn]) \<and>
     set order = (if fn = [] then {} else {g. (calls_to fs)\<^sup>*\<^sup>* fn g})"

lemma visit_order: "reach_order fs fn (visit fs [] [fn])"
proof (cases "fn = []")
  case False
  then show ?thesis using visit_distinct [of fs "[]" "[fn]"] visit_reaches [OF False, of fs] by (simp only: reach_order_def) simp
qed (simp add: reach_order_def)

lemma key_entries_key: "e \<in> set (key_entries files k) \<Longrightarrow> teKey e = k \<and> \<not> teCore e"
  by (auto simp: key_entries_def Let_def split: if_splits)

lemma key_entries_shown:
  "(\<lambda>e. (teName e, teDescription e)) ` set (key_entries files k) =
     (if resolvePairs (all_funcs files) (last_value (registry_pairs files) k) = [] then {([], overrides literal_text files k)}
      else (\<lambda>(n, d). (n, if d = [] then overrides literal_text files k else d)) `
        set (resolvePairs (all_funcs files) (last_value (registry_pairs files) k)))"
  by (simp add: key_entries_def Let_def image_image split_beta)


text \<open>Two helpers that call each other.\<close>

definition tool_literal :: "string \<Rightarrow> string \<Rightarrow> go_node" where
  "tool_literal n d = Composite (Some (Ident ''ToolDefinition''))
     [KeyValue (Ident ''Name'') (StringLit (Some n)), KeyValue (Ident ''Description'') (StringLit (Some d))]"

definition sample_funcs :: "go_func list" where
  "sample_funcs =
     [\<lparr>gfName = ''Crm'', gfMethod = False, gfDoc = Some ''Crm tools.'', gfBody = Some (Node [Call (Ident ''read'') []])\<rparr>,
      \<lparr>gfName = ''read'', gfMethod = False, gfDoc = None, gfBody = Some (Node [tool_literal ''crm_read'' ''Reads.'', Call (Ident ''write'') []])\<rparr>,
      \<lparr>gfName = ''write'', gfMethod = False, gfDoc = None, gfBody = Some (Node [Call (Ident ''read'') [], tool_literal ''crm_write'' ''Writes.''])\<rparr>]"

section \<open>Both listings name the same tools\<close>

lemma key_entries_not_Nil: "key_entries files k \<noteq> []"
  by (simp add: key_entries_def Let_def)

lemma mcp_infos_keys:
  "distinct (map tiKey (mcp_infos seen ss)) \<and>
   (\<forall>i\<in>set (mcp_infos seen ss). tiKey i \<notin> seen \<and> tiMCP i \<and> \<not> tiPrivate i)"
proof (induction seen ss rule: mcp_infos.induct)
  case (2 seen s ss)
  show ?case
  proof (cases "trim_space (msKey s) = [] \<or> trim_space (msKey s) \<in> seen")
    case True
    with 2(1) show ?thesis by simp
  next
    case False
    with 2(2) show ?thesis by (auto simp: Let_def)
  qed
qed simp

lemma private_keys_distinct: "distinct (fst (collectPrivateRegistrations dir))"
  by (simp add: collectPrivateRegistrations_def Let_def)

lemma picker_parts:
  assumes "loadToolRegistry parsed privDir servers = Inr infos"
  obtains files static priv mcp where "parsed = Inr files" "infos = static @ priv @ mcp"
    "map tiKey static = map fst (registry_pairs files)" "\<forall>i\<in>set static. \<not> tiPrivate i \<and> \<not> tiMCP i"
    "\<forall>i\<in>set priv. tiPrivate i \<and> \<not> tiMCP i \<and> tiKey i \<notin> set (map tiKey static)" "distinct (map tiKey priv)"
    "\<forall>i\<in>set mcp. \<not> tiPrivate i \<and> tiMCP i \<and> tiKey i \<notin> set (map tiKey static) \<union> set (map tiKey priv)" "distinct (map tiKey mcp)"
proof -
  obtain files where files: "parsed = Inr files" using assms by (cases parsed) (auto simp: loadToolRegistry_def)
  obtain keys desc where k: "collectPrivateRegistrations privDir = (keys, desc)" by fastforce
  let ?static = "map (static_info files) (map fst (registry_pairs files))"
  let ?priv = "map (\<lambda>k. \<lparr>tiKey = k, tiDescription = desc k, tiPrivate = True, tiMCP = False\<rparr>)
    (filter (\<lambda>k. k \<notin> set (map tiKey ?static)) keys)"
  let ?mcp = "mcp_infos (set (map tiKey ?static) \<union> set (map tiKey ?priv)) (case servers of Inr ss \<Rightarrow> ss | Inl e \<Rightarrow> [])"
  show ?thesis
  proof (rule that [of files ?static ?priv ?mcp])
    show "infos = ?static @ ?priv @ ?mcp"
      using assms unfolding loadToolRegistry_def files result_simps Let_def k prod.case by (simp only: sum.inject)
    show "distinct (map tiKey ?priv)"
      using private_keys_distinct [of privDir] k by (simp add: comp_def)
    show "map tiKey ?static = map fst (registry_pairs files)" by (simp add: static_info_def Let_def comp_def)
    show "\<forall>i\<in>set ?static. \<not> tiPrivate i \<and> \<not> tiMCP i" by (auto simp: static_info_def Let_def)
    show "\<forall>i\<in>set ?mcp. \<not> tiPrivate i \<and> tiMCP i \<and> tiKey i \<notin> set (map tiKey ?static) \<union> set (map tiKey ?priv)"
      using mcp_infos_keys by blast
  qed (use files mcp_infos_keys in auto)
qed

text \<open>The tool picker and the listing of all tools read the same keys from the sources: what the picker offers without a mark is what the
  listing has besides the core tools.  A private or remote tool is offered once, and never in the place of another.\<close>

theorem picker_and_listing_agree:
  assumes "loadToolRegistry parsed privDir servers = Inr infos" "buildEntries parsed = Inr entries"
  shows "tiKey ` {i \<in> set infos. \<not> tiPrivate i \<and> \<not> tiMCP i} = teKey ` {e \<in> set entries. \<not> teCore e} \<and>
    distinct (map tiKey (filter (\<lambda>i. tiPrivate i \<or> tiMCP i) infos)) \<and>
    (\<forall>i j. i \<in> set infos \<and> j \<in> set infos \<and> tiKey i = tiKey j \<longrightarrow> tiPrivate i = tiPrivate j \<and> tiMCP i = tiMCP j)"
proof -
  obtain files static priv mcp where p: "parsed = Inr files" "infos = static @ priv @ mcp"
    "map tiKey static = map fst (registry_pairs files)" "\<forall>i\<in>set static. \<not> tiPrivate i \<and> \<not> tiMCP i"
    "\<forall>i\<in>set priv. tiPrivate i \<and> \<not> tiMCP i \<and> tiKey i \<notin> set (map tiKey static)" "distinct (map tiKey priv)"
    "\<forall>i\<in>set mcp. \<not> tiPrivate i \<and> tiMCP i \<and> tiKey i \<notin> set (map tiKey static) \<union> set (map tiKey priv)" "distinct (map tiKey mcp)"
    using picker_parts [OF assms(1)] by blast
  have "{i \<in> set infos. \<not> tiPrivate i \<and> \<not> tiMCP i} = set static" using p by auto
  moreover have "tiKey ` set static = fst ` set (registry_pairs files)" using p(3) by (metis list.set_map)
  moreover have "teKey ` {e \<in> set entries. \<not> teCore e} = fst ` set (registry_pairs files)"
  proof
    have e: "entries = core_entries files @ concat (map (key_entries files) (map fst (registry_pairs files)))"
      using assms(2) p(1) by (simp add: buildEntries_def)
    then show "teKey ` {e \<in> set entries. \<not> teCore e} \<subseteq> fst ` set (registry_pairs files)"
      using key_entries_key by (fastforce simp: core_entries_def)
    show "fst ` set (registry_pairs files) \<subseteq> teKey ` {e \<in> set entries. \<not> teCore e}"
    proof
      fix k assume k: "k \<in> fst ` set (registry_pairs files)"
      obtain e1 where "e1 \<in> set (key_entries files k)" using key_entries_not_Nil [of files k] by (meson list.set_sel(1))
      then show "k \<in> teKey ` {e \<in> set entries. \<not> teCore e}" using e k key_entries_key [of e1 files k] by (force simp: image_iff)
    qed
  qed
  moreover have "filter (\<lambda>i. tiPrivate i \<or> tiMCP i) infos = priv @ mcp"
    using p(4,5,7) by (simp add: p(2) filter_id_conv)
  moreover have "distinct (map tiKey (priv @ mcp))" using p(6,7,8) by (fastforce simp: image_iff)
  moreover have "tiPrivate i = tiPrivate j \<and> tiMCP i = tiMCP j"
    if ij: "i \<in> set infos" "j \<in> set infos" "tiKey i = tiKey j" for i j
  proof -
    have "tiKey a \<noteq> tiKey b" if "a \<in> set static" "b \<in> set priv \<union> set mcp" for a b
      using p(5,7) that by (metis UnE UnI1 image_eqI list.set_map)
    moreover have "tiKey a \<noteq> tiKey b" if "a \<in> set priv" "b \<in> set mcp" for a b
      using p(7) that by (metis UnI2 image_eqI list.set_map)
    moreover have "set infos = set static \<union> set priv \<union> set mcp" using p(2) by auto
    ultimately show ?thesis using ij p(4,5,7) by (metis Un_iff)
  qed
  ultimately show ?thesis by (intro conjI allI impI) (simp_all only: conj_assoc)
qed

text \<open>A registry with one wrapped factory, a private tool and a remote server.\<close>

definition scanned_file :: go_file where
  "scanned_file =
     \<lparr>gfVars = [([''registry''], [Composite None [KeyValue (StringLit (Some ''crm'')) (Call (Ident ''wrap'') [Ident ''Crm''])]])],
      gfFuncs = sample_funcs\<rparr>"


definition private_tool :: go_node where
  "private_tool = Node [Call (Selector (Ident ''tools'') ''Register'') [StringLit (Some ''pay''), Ident ''Pay'', StringLit (Some ''Pays.'')]]"

definition remote_server :: mcp_server where
  "remote_server = \<lparr>msKey = '' docs '', msURL = ''https://d'', msAuth = [], msHeader = [], msScheme = [], msTokenEnv = [],
     msClientIDEnv = [], msClientSecretEnv = [], msMetadataURL = [], msDescription = ''Docs.''\<rparr>"

definition picked :: "tool_info list" where
  "picked = (case loadToolRegistry (Inr [scanned_file]) (Inr [(''pay.go'', False, Inr private_tool)]) (Inr [remote_server, remote_server])
     of Inr is \<Rightarrow> is | Inl e \<Rightarrow> [])"

lemma picker_and_listing_agree_witness:
  "map (\<lambda>i. (tiKey i, tiDescription i)) picked = [(''crm'', ''Reads. | Writes.''), (''pay'', ''Pays.''), (''docs'', ''Docs.'')] \<and>
   tiKey ` {i \<in> set picked. \<not> tiPrivate i \<and> \<not> tiMCP i} = {''crm''}"
proof
  let ?r = "loadToolRegistry (Inr [scanned_file]) (Inr [(''pay.go'', False, Inr private_tool)]) (Inr [remote_server, remote_server])"
  let ?b = "buildEntries (Inr [scanned_file])"
  have ok: "is_ok ?r" "is_ok ?b" by code_simp+
  then have r: "?r = Inr picked" by (auto simp: picked_def result_iff split: sum.split)
  obtain entries where b: "?b = Inr entries" using ok(2) by (cases ?b) simp_all
  have "map teKey (filter (\<lambda>e. \<not> teCore e) (case ?b of Inr es \<Rightarrow> es | Inl e \<Rightarrow> [])) = [''crm'', ''crm'']" by code_simp
  then have "set (map teKey (filter (\<lambda>e. \<not> teCore e) entries)) = set [''crm'', ''crm'']" by (simp only: b sum.case)
  then have "teKey ` {e \<in> set entries. \<not> teCore e} = {''crm''}" by simp
  then show "tiKey ` {i \<in> set picked. \<not> tiPrivate i \<and> \<not> tiMCP i} = {''crm''}"
    using picker_and_listing_agree [OF r b] by simp
  show "map (\<lambda>i. (tiKey i, tiDescription i)) picked = [(''crm'', ''Reads. | Writes.''), (''pay'', ''Pays.''), (''docs'', ''Docs.'')]"
    by code_simp
qed

end
