(* ===== verification/Doctor.thy ===== *)
theory Doctor
  imports Source_Scan Filepath
begin

text \<open>
  The checks of a deployment (\<open>scripts/kikudoctor\<close>): the roster, the secrets, the tools of the agents, the packages their
  commands need and the compose file.  Reading a file, its decoding from YAML and the parsing of Go sources are parameters.
  A report is the list of its findings in the order they are printed.
\<close>

section \<open>The report\<close>

datatype level = Passed | Warned | Failed

record finding =
  fgSection :: string
  fgLevel :: level
  fgText :: string

definition Pass :: "string \<Rightarrow> string \<Rightarrow> finding" where "Pass sec t = \<lparr>fgSection = sec, fgLevel = Passed, fgText = t\<rparr>"
definition Fail :: "string \<Rightarrow> string \<Rightarrow> finding" where "Fail sec t = \<lparr>fgSection = sec, fgLevel = Failed, fgText = t\<rparr>"
definition Warn :: "string \<Rightarrow> string \<Rightarrow> finding" where "Warn sec t = \<lparr>fgSection = sec, fgLevel = Warned, fgText = t\<rparr>"

definition level_count :: "level \<Rightarrow> finding list \<Rightarrow> nat" where
  "level_count l fs = length (filter (\<lambda>f. fgLevel f = l) fs)"

definition HasFailures :: "finding list \<Rightarrow> bool" where "HasFailures fs \<longleftrightarrow> level_count Failed fs > 0"

definition paint :: "bool \<Rightarrow> string \<Rightarrow> string \<Rightarrow> string" where
  "paint color code s = (if color then code @ s @ [CHR 0x1B] @ ''[0m'' else s)"

definition red :: string where "red = [CHR 0x1B] @ ''[31m''"
definition green :: string where "green = [CHR 0x1B] @ ''[32m''"
definition yellow :: string where "yellow = [CHR 0x1B] @ ''[33m''"
definition bold :: string where "bold = [CHR 0x1B] @ ''[1m''"
definition dim :: string where "dim = [CHR 0x1B] @ ''[2m''"

definition Header :: "bool \<Rightarrow> string \<Rightarrow> string" where
  "Header color root = paint color bold ''kikudoctor'' @ [nl] @ ''  root: '' @ paint color dim root @ [nl, nl]"

definition finding_line :: "bool \<Rightarrow> finding \<Rightarrow> string" where
  "finding_line color f =
     ''    '' @ (case fgLevel f of
                 Passed \<Rightarrow> paint color green [CHR 0xE2, CHR 0x9C, CHR 0x93]
               | Failed \<Rightarrow> paint color red [CHR 0xE2, CHR 0x9C, CHR 0x97]
               | Warned \<Rightarrow> paint color yellow ''!'') @ '' '' @ fgText f @ [nl]"

text \<open>The title of a section is printed before its first finding.\<close>

fun print_findings :: "bool \<Rightarrow> string option \<Rightarrow> finding list \<Rightarrow> string" where
  "print_findings color shown [] = []"
| "print_findings color shown (f # fs) =
     (if shown = Some (fgSection f) then []
      else paint color bold [CHR 0xE2, CHR 0x96, CHR 0xB8] @ '' '' @ fgSection f @ [nl]) @
     finding_line color f @ print_findings color (Some (fgSection f)) fs"

definition Summary :: "bool \<Rightarrow> finding list \<Rightarrow> string" where
  "Summary color fs =
     (let p = show_nat (level_count Passed fs); w = show_nat (level_count Warned fs); n = show_nat (level_count Failed fs)
      in if level_count Failed fs > 0
         then paint color red ''FAIL'' @ ''  '' @ p @ '' passed, '' @ w @ '' warning(s), '' @ n @ '' failure(s)''
         else if level_count Warned fs > 0 then paint color yellow ''OK  '' @ ''  '' @ p @ '' passed, '' @ w @ '' warning(s)''
         else paint color green ''OK  '' @ ''  '' @ p @ '' checks passed'')"

section \<open>The deployment\<close>

datatype yaml_node = Scalar string | Sequence "yaml_node list" | Block "(yaml_node \<times> yaml_node) list" | NoYaml

record doc_agent =
  dgName :: string
  dgEmail :: string
  dgRole :: string
  dgDescription :: string
  dgTools :: "string list option"

record agents_file =
  afEmailServer :: string
  afSmtpServer :: string
  afAgents :: "doc_agent list"

record compose_entry =
  ceEnvFile :: yaml_node
  ceEnvironment :: yaml_node
  ceVolumes :: yaml_node

datatype stat_result = Exists | Missing | StatError goerror

text \<open>
  \<open>dpRead\<close> and \<open>dpStat\<close> are \<open>os.ReadFile\<close> and \<open>os.Stat\<close> on paths below the root, \<open>dpEnv\<close> the environment; the decoders of
  \<open>agents.yaml\<close> and of the services of a compose file, in any order; the parsed registry and the functions of the tools.
\<close>

record deployment =
  dpRoot :: string
  dpRead :: "string \<Rightarrow> string fsfile"
  dpStat :: "string \<Rightarrow> stat_result"
  dpEnv :: "string \<Rightarrow> string"
  dpDecodeAgents :: "string \<Rightarrow> agents_file result"
  dpDecodeCompose :: "string \<Rightarrow> (string \<times> compose_entry) list result"
  dpRegistry :: "go_file result"
  dpTools :: "go_func list result"

definition emailAccount :: "string \<Rightarrow> string" where
  "emailAccount email =
     (case index_char (CHR ''@'') email of
        None \<Rightarrow> to_lower (trim_space email)
      | Some i \<Rightarrow> to_lower (trim_space (take i email)))"

section \<open>agents.yaml\<close>

definition missing_fields :: "doc_agent \<Rightarrow> string list" where
  "missing_fields a =
     (if trim_space (dgName a) = [] then [''name''] else []) @
     (if trim_space (dgEmail a) = [] then [''email''] else []) @
     (if trim_space (dgRole a) = [] then [''role''] else []) @
     (if trim_space (dgDescription a) = [] then [''description''] else []) @
     (if dgTools a = None then [''tools''] else [])"

text \<open>The failures of the agents from the one at \<open>i\<close> on; \<open>seen\<close> holds the addresses met with the position of their first agent.\<close>

fun agent_failures :: "nat \<Rightarrow> (string \<times> nat) list \<Rightarrow> doc_agent list \<Rightarrow> string list" where
  "agent_failures i seen [] = []"
| "agent_failures i seen (a # as) =
     (let label = (if dgName a = [] then ''#'' @ show_nat (i + 1) else dgName a)
      in if missing_fields a \<noteq> []
         then (''agent '' @ go_quote label @ '' missing required field(s): '' @ join '', '' (missing_fields a)) #
                agent_failures (Suc i) seen as
         else (if CHR ''@'' \<in> set (dgEmail a) then []
               else [''agent '' @ go_quote label @ '' has invalid email '' @ go_quote (dgEmail a)]) @
              (case map_of seen (to_lower (dgEmail a)) of
                 Some prev \<Rightarrow>
                   (''agent '' @ go_quote label @ '' has duplicate email '' @ go_quote (dgEmail a) @
                     '' (also used by agent #'' @ show_nat (prev + 1) @ '')'') # agent_failures (Suc i) seen as
               | None \<Rightarrow> agent_failures (Suc i) ((to_lower (dgEmail a), i) # seen) as))"

definition agents_section :: string where "agents_section = ''agents.yaml (configs/agents.yaml)''"

definition loadAgents :: "deployment \<Rightarrow> agents_file option \<times> finding list" where
  "loadAgents d =
     (case dpRead d ''configs/agents.yaml'' of
        Absent \<Rightarrow> (None, [Fail agents_section ''file is missing''])
      | Unreadable e \<Rightarrow> (None, [Fail agents_section (''cannot read file: '' @ err_text e)])
      | Stored b \<Rightarrow>
          (case dpDecodeAgents d b of
             Inl e \<Rightarrow> (None, [Pass agents_section ''file exists'', Fail agents_section (''file is not well-formed YAML: '' @ err_text e)])
           | Inr af \<Rightarrow>
               (Some af,
                [Pass agents_section ''file exists'', Pass agents_section ''file is well-formed YAML''] @
                (if trim_space (afEmailServer af) = [] then [Warn agents_section ''common.email_server is not set''] else []) @
                (if trim_space (afSmtpServer af) = [] then [Warn agents_section ''common.smtp_server is not set''] else []) @
                (if afAgents af = [] then [Fail agents_section ''no agents defined'']
                 else let failures = agent_failures 0 [] (afAgents af)
                      in [Pass agents_section (''declares '' @ show_nat (length (afAgents af)) @ '' agent(s)'')] @
                         map (Fail agents_section) failures @
                         (if failures = [] then [Pass agents_section ''all agents have name, email, role, description, tools''] else [])))))"

section \<open>The compose file\<close>

fun stringsFromScalarOrSeq :: "yaml_node \<Rightarrow> string list" where
  "stringsFromScalarOrSeq (Scalar v) = (if v = [] then [] else [v])"
| "stringsFromScalarOrSeq (Sequence ns) = concat (map (\<lambda>n. case n of Scalar v \<Rightarrow> [v] | _ \<Rightarrow> []) ns)"
| "stringsFromScalarOrSeq n = []"

text \<open>An entry of the form \<open>KEY\<close> takes its value from the environment.\<close>

definition compose_pair :: "(string \<Rightarrow> string) \<Rightarrow> string \<Rightarrow> string \<times> string" where
  "compose_pair getenv s =
     (case index_char (CHR ''='') s of Some i \<Rightarrow> (take i s, drop (i + 1) s) | None \<Rightarrow> (s, getenv s))"

fun environment_pairs :: "(string \<Rightarrow> string) \<Rightarrow> yaml_node \<Rightarrow> (string \<times> string) list" where
  "environment_pairs getenv (Block kvs) =
     concat (map (\<lambda>kv. case kv of (Scalar k, Scalar v) \<Rightarrow> [(k, v)] | _ \<Rightarrow> []) kvs)"
| "environment_pairs getenv (Sequence ns) = concat (map (\<lambda>n. case n of Scalar s \<Rightarrow> [compose_pair getenv s] | _ \<Rightarrow> []) ns)"
| "environment_pairs getenv n = []"

definition environmentMap :: "(string \<Rightarrow> string) \<Rightarrow> yaml_node \<Rightarrow> string \<Rightarrow> string option" where
  "environmentMap getenv n = map_of (rev (environment_pairs getenv n))"

definition data_target :: "string \<Rightarrow> bool" where "data_target p \<longleftrightarrow> has_prefix ''/app/data'' p"

fun data_mount :: "yaml_node \<Rightarrow> bool" where
  "data_mount (Scalar v) \<longleftrightarrow> (case split_char (CHR '':'') v of s # t # ps \<Rightarrow> data_target t | _ \<Rightarrow> False)"
| "data_mount (Block kvs) \<longleftrightarrow>
     list_ex (\<lambda>kv. case kv of (Scalar k, Scalar v) \<Rightarrow> k = ''target'' \<and> data_target v | _ \<Rightarrow> False) kvs"
| "data_mount n \<longleftrightarrow> False"

fun hasDataVolume :: "yaml_node \<Rightarrow> bool" where
  "hasDataVolume (Sequence ns) \<longleftrightarrow> list_ex data_mount ns"
| "hasDataVolume n \<longleftrightarrow> False"

definition parseCompose :: "deployment \<Rightarrow> (string \<times> compose_entry) list" where
  "parseCompose d =
     (case dpRead d ''docker-compose.yml'' of
        Stored b \<Rightarrow> (case dpDecodeCompose d b of Inr svcs \<Rightarrow> svcs | Inl e \<Rightarrow> [])
      | _ \<Rightarrow> [])"

definition agent_address :: "deployment \<Rightarrow> compose_entry \<Rightarrow> string" where
  "agent_address d svc =
     (case environmentMap (dpEnv d) (ceEnvironment svc) ''AGENT_EMAIL'' of Some v \<Rightarrow> trim_space v | None \<Rightarrow> [])"

definition localAgentAccounts :: "deployment \<Rightarrow> (string \<times> compose_entry) list \<Rightarrow> string list" where
  "localAgentAccounts d svcs =
     filter (\<lambda>a. a \<noteq> []) (map emailAccount (filter (\<lambda>e. e \<noteq> []) (map (\<lambda>(n, svc). agent_address d svc) svcs)))"

definition env_file_failure :: "deployment \<Rightarrow> string \<Rightarrow> string list" where
  "env_file_failure d ef =
     (case dpStat d (if has_prefix ''/'' ef then ef else filepath_Join [dpRoot d, ef]) of
        Exists \<Rightarrow> []
      | Missing \<Rightarrow> [''env_file '' @ go_quote ef @ '' does not exist'']
      | StatError e \<Rightarrow> [''env_file '' @ go_quote ef @ '' cannot be stat'' @ [squote] @ ''d: '' @ err_text e])"

definition service_findings :: "deployment \<Rightarrow> string \<times> compose_entry \<Rightarrow> finding list" where
  "service_findings d ns =
     (case ns of (name, svc) \<Rightarrow>
        let sec = ''  service: '' @ name;
            files = stringsFromScalarOrSeq (ceEnvFile svc);
            gone = concat (map (env_file_failure d) files);
            addr = agent_address d svc
        in (if files = [] then [Warn sec ''no env_file declared'']
            else map (Fail sec) gone @
                 (if gone = [] then [Pass sec (''all '' @ show_nat (length files) @ '' env_file(s) exist'')] else [])) @
           (case environmentMap (dpEnv d) (ceEnvironment svc) ''RUNNING_IN_CONTAINER'' of
              None \<Rightarrow> [Fail sec ''RUNNING_IN_CONTAINER is not set'']
            | Some v \<Rightarrow>
                if \<not> equal_fold (trim_space v) ''true''
                then [Fail sec (''RUNNING_IN_CONTAINER is '' @ go_quote v @ '', expected '' @ [dquote] @ ''true'' @ [dquote])]
                else [Pass sec ''RUNNING_IN_CONTAINER=true'']) @
           (if addr = [] then [Fail sec (''AGENT_EMAIL is not set '' @ em_dash @ '' agent identity cannot be resolved'')]
            else if CHR ''@'' \<notin> set addr then [Fail sec (''AGENT_EMAIL '' @ go_quote addr @ '' is not a valid email address'')]
            else [Pass sec (''AGENT_EMAIL='' @ addr)]) @
           (if hasDataVolume (ceVolumes svc) then [Pass sec ''volume mount preserves /app/data'']
            else [Fail sec ''no volume mount targets /app/data (agent data not preserved)'']))"

definition compose_section :: string where "compose_section = ''docker-compose.yml (docker-compose.yml)''"

definition validateCompose :: "deployment \<Rightarrow> (string \<times> compose_entry) list \<Rightarrow> finding list" where
  "validateCompose d svcs =
     (case dpStat d ''docker-compose.yml'' of
        Missing \<Rightarrow> [Fail compose_section ''file is missing'']
      | StatError e \<Rightarrow> [Fail compose_section (''cannot read file: '' @ err_text e)]
      | Exists \<Rightarrow>
          Pass compose_section ''file exists'' #
          (if svcs = [] then
             (case dpRead d ''docker-compose.yml'' of
                Stored b \<Rightarrow>
                  (case dpDecodeCompose d b of
                     Inl e \<Rightarrow> [Fail compose_section (''file is not well-formed YAML: '' @ err_text e)]
                   | Inr cf \<Rightarrow> [Fail compose_section ''no services defined''])
              | Absent \<Rightarrow> [Fail compose_section ''cannot read file: file does not exist'']
              | Unreadable e \<Rightarrow> [Fail compose_section (''cannot read file: '' @ err_text e)])
           else Pass compose_section (''declares '' @ show_nat (length svcs) @ '' service(s)'') #
                concat (map (service_findings d) (sort_key fst svcs))))"

section \<open>secrets.env\<close>

text \<open>A line of 64 KiB or more ends the scan with an error.\<close>

definition env_line :: "string \<Rightarrow> (string \<times> string) list" where
  "env_line raw =
     (let line = trim_space raw
      in if line = [] \<or> has_prefix ''#'' line then []
         else case index_char (CHR ''='') line of
                None \<Rightarrow> []
              | Some eq \<Rightarrow>
                  if eq = 0 then []
                  else [(trim_space (take eq line), trim_by (\<lambda>c. c = dquote \<or> c = squote) (trim_space (drop (eq + 1) line)))])"

definition readEnvFile :: "string fsfile \<Rightarrow> (string \<Rightarrow> string option) result" where
  "readEnvFile f =
     (case f of
        Absent \<Rightarrow> Inl (Err ''file does not exist'')
      | Unreadable e \<Rightarrow> Inl e
      | Stored s \<Rightarrow>
          (let ls = split_char nl s
           in if list_ex (\<lambda>l. int (length l) \<ge> 65536) ls then Inl (Err ''bufio.Scanner: token too long'')
              else Inr (map_of (rev (concat (map env_line ls))))))"

definition set_in :: "(string \<Rightarrow> string option) \<Rightarrow> string \<Rightarrow> bool" where
  "set_in vals key \<longleftrightarrow> (case vals key of Some v \<Rightarrow> trim_space v \<noteq> [] | None \<Rightarrow> False)"

definition secrets_section :: string where "secrets_section = ''secrets.env (configs/secrets.env)''"

definition key_finding :: "(string \<Rightarrow> string option) \<Rightarrow> finding" where
  "key_finding vals =
     (let hasA = set_in vals ''ANTHROPIC_API_KEY''; hasO = set_in vals ''OPENROUTER_API_KEY''
      in if hasA \<and> hasO then Pass secrets_section ''ANTHROPIC_API_KEY and OPENROUTER_API_KEY are set''
         else if hasA then Pass secrets_section ''ANTHROPIC_API_KEY is set''
         else if hasO then Pass secrets_section ''OPENROUTER_API_KEY is set''
         else Fail secrets_section (''neither ANTHROPIC_API_KEY nor OPENROUTER_API_KEY is set '' @ em_dash @
                '' at least one is required''))"

definition password_key :: "string \<Rightarrow> string" where
  "password_key acct = map upper_char acct @ ''_EMAIL_PASSWORD''"

definition checked_agents :: "string list \<Rightarrow> doc_agent list \<Rightarrow> doc_agent list" where
  "checked_agents accts as =
     filter (\<lambda>a. emailAccount (dgEmail a) \<noteq> [] \<and> (accts = [] \<or> emailAccount (dgEmail a) \<in> set accts)) as"

definition password_findings :: "(string \<Rightarrow> string option) \<Rightarrow> string list \<Rightarrow> doc_agent list \<Rightarrow> finding list" where
  "password_findings vals accts as =
     (let checked = checked_agents accts as;
          bad = filter (\<lambda>a. \<not> set_in vals (password_key (emailAccount (dgEmail a)))) checked
      in map (\<lambda>a. Fail secrets_section (password_key (emailAccount (dgEmail a)) @ '' is empty (required for agent '' @ dgEmail a @ '')'')) bad @
         (if checked \<noteq> [] \<and> bad = []
          then [Pass secrets_section (''mailbox password set for all '' @ show_nat (length checked) @ '' locally-deployed agent(s)'')]
          else []))"

definition validateSecrets :: "deployment \<Rightarrow> agents_file option \<Rightarrow> string list \<Rightarrow> finding list" where
  "validateSecrets d af accts =
     (case readEnvFile (dpRead d ''configs/secrets.env'') of
        Inl e \<Rightarrow>
          [Fail secrets_section
            (if dpRead d ''configs/secrets.env'' = Absent
             then ''file is missing '' @ em_dash @ '' copy configs/secrets-example.env and fill in''
             else ''cannot read file: '' @ err_text e)]
      | Inr vals \<Rightarrow>
          Pass secrets_section ''file exists'' # key_finding vals #
          (case af of None \<Rightarrow> [] | Some f \<Rightarrow> password_findings vals accts (afAgents f)))"

section \<open>The tool registry\<close>

text \<open>Unlike the picker, every composite value counts when one of the names is \<open>registry\<close>, and wrapping may be nested.\<close>

fun doctor_factory :: "go_node \<Rightarrow> string" where
  "doctor_factory (Ident n) = n"
| "doctor_factory (Call (Ident f) [x]) = (if f = ''wrap'' then doctor_factory x else [])"
| "doctor_factory x = []"

fun literal_entry :: "go_node \<Rightarrow> (string \<times> string) list" where
  "literal_entry (KeyValue (StringLit (Some key)) v) = [(key, doctor_factory v)]"
| "literal_entry x = []"

definition registry_literals :: "go_file \<Rightarrow> (string \<times> string) list" where
  "registry_literals file =
     concat (map literal_entry (concat (map (\<lambda>(names, vals). if ''registry'' \<in> set names then concat (map elements vals) else [])
       (gfVars file))))"

definition formatSortedSet :: "string list \<Rightarrow> string" where
  "formatSortedSet ks = join '', '' (sort (remdups ks))"

definition registry_section :: string where "registry_section = ''tool registry (internal/tools/registry.go)''"

text \<open>The keys, none when the file cannot be parsed, and their factories.\<close>

definition loadRegistry :: "deployment \<Rightarrow> (string list \<times> (string \<Rightarrow> string option)) option \<times> finding list" where
  "loadRegistry d =
     (case dpRegistry d of
        Inl e \<Rightarrow> (None, [Fail registry_section (''cannot parse: '' @ err_text e)])
      | Inr file \<Rightarrow>
          (let entries = registry_literals file; keys = remdups (map fst entries)
           in (Some (keys, map_of (rev (filter (\<lambda>e. snd e \<noteq> []) entries))),
               [if keys = [] then Fail registry_section ''no keys found in registry map''
                else Pass registry_section (''found '' @ show_nat (length keys) @ '' registered tool key(s): '' @ formatSortedSet keys)])))"

definition tools_of :: "doc_agent \<Rightarrow> string list" where
  "tools_of a = (case dgTools a of Some ts \<Rightarrow> ts | None \<Rightarrow> [])"

definition tools_section :: string where "tools_section = ''agent tools resolve to registered tools (locally-deployed agents)''"

definition deployed :: "string list \<Rightarrow> doc_agent \<Rightarrow> bool" where
  "deployed accts a \<longleftrightarrow> emailAccount (dgEmail a) \<in> set accts"

definition unknown_tools :: "string list \<Rightarrow> doc_agent \<Rightarrow> string list" where
  "unknown_tools keys a =
     map (\<lambda>t. ''agent '' @ go_quote (dgName a) @ '' references unknown tool '' @ go_quote t) (filter (\<lambda>t. t \<notin> set keys) (tools_of a))"

definition validateAgentTools :: "agents_file \<Rightarrow> string list \<Rightarrow> string list \<Rightarrow> finding list" where
  "validateAgentTools af keys accts =
     (if afAgents af = [] then [Fail tools_section ''no agents to validate'']
      else if keys = [] then [Fail tools_section ''no registered tools available to validate against'']
      else let checked = filter (deployed accts) (afAgents af);
               skipped = length (afAgents af) - length checked;
               bad = concat (map (unknown_tools keys) checked)
           in map (Fail tools_section) bad @
              (if checked = [] then [Warn tools_section (''no agents from agents.yaml are deployed locally '' @ em_dash @ '' nothing to validate'')]
               else if bad \<noteq> [] then []
               else [Pass tools_section (''all tools resolve for '' @ show_nat (length checked) @ '' locally-deployed agent(s)'' @
                       (if skipped > 0 then ''; skipped '' @ show_nat skipped @ '' remote agent(s)'' else []))]))"

section \<open>Packages of npx\<close>

definition strip_version :: "string \<Rightarrow> string" where
  "strip_version s = (case last_index_char (CHR ''@'') s of Some i \<Rightarrow> if i > 0 then take i s else s | None \<Rightarrow> s)"

fun is_npx :: "go_node \<Rightarrow> bool" where
  "is_npx (KeyValue (Ident k) (StringLit (Some v))) \<longleftrightarrow> k = ''Command'' \<and> v = ''npx''"
| "is_npx x \<longleftrightarrow> False"

fun args_literal :: "go_node \<Rightarrow> go_node list list" where
  "args_literal (KeyValue (Ident k) (Composite t es)) = (if k = ''BaseArgs'' \<or> k = ''Args'' then [es] else [])"
| "args_literal x = []"

fun string_arg :: "go_node \<Rightarrow> string list" where
  "string_arg (StringLit (Some s)) = [s]"
| "string_arg x = []"

definition npxPackageFromCompositeLit :: "go_node list \<Rightarrow> string option" where
  "npxPackageFromCompositeLit elts =
     (let argLists = concat (map args_literal elts)
      in if \<not> list_ex is_npx elts \<or> argLists = [] then None
         else map_option strip_version
                (find (\<lambda>s. \<not> has_prefix ''-'' s) (concat (map string_arg (last argLists)))))"

definition npx_packages :: "go_node \<Rightarrow> string list" where
  "npx_packages body =
     concat (map (\<lambda>x. case x of
         Composite t es \<Rightarrow> (case npxPackageFromCompositeLit es of Some p \<Rightarrow> [p] | None \<Rightarrow> [])
       | _ \<Rightarrow> []) (inspect body))"

text \<open>A set of packages, in the order in which the caller sorts it; methods are not looked at.\<close>

definition reachableNpxPackages :: "go_func list \<Rightarrow> string \<Rightarrow> string list" where
  "reachableNpxPackages fs start =
     (let fs' = filter (\<lambda>f. \<not> gfMethod f) fs
      in sort (remdups (concat (map (of_function npx_packages fs') (visit fs' [] [start])))))"

text \<open>What follows \<open>npm install\<close> or \<open>npm i\<close> on a line, up to the end of the command.\<close>

fun after_npm :: "string list \<Rightarrow> string list option" where
  "after_npm (f # g # fs) = (if f = ''npm'' \<and> (g = ''install'' \<or> g = ''i'') then Some fs else after_npm (g # fs))"
| "after_npm fs = None"

definition npm_line :: "string \<Rightarrow> string list" where
  "npm_line raw =
     (let line = trim_space raw
      in if line = [] \<or> has_prefix ''#'' line then []
         else case after_npm (go_fields line) of
                None \<Rightarrow> []
              | Some toks \<Rightarrow>
                  (let part = takeWhile (\<lambda>t. t \<noteq> ''&&'' \<and> t \<noteq> [backslash]) toks
                   in if ''--global'' \<in> set part \<or> ''-g'' \<in> set part
                      then map strip_version (filter (\<lambda>t. \<not> has_prefix ''-'' t) part) else []))"

definition dockerfileGlobalNpmPackages :: "string fsfile \<Rightarrow> string list result" where
  "dockerfileGlobalNpmPackages f =
     (case f of
        Absent \<Rightarrow> Inl (Err ''file does not exist'')
      | Unreadable e \<Rightarrow> Inl e
      | Stored s \<Rightarrow> Inr (concat (map npm_line (split_char nl s))))"

definition npx_section :: string where "npx_section = ''npx-backed tools are pre-installed in Dockerfile''"

definition package_finding :: "string list \<Rightarrow> string \<Rightarrow> string \<Rightarrow> finding" where
  "package_finding installed key pkg =
     (if pkg \<in> set installed
      then Pass npx_section (''tool '' @ go_quote key @ '' npx package '' @ pkg @ '' is pre-installed'')
      else Warn npx_section (''tool '' @ go_quote key @ '' uses npx package '' @ pkg @ '' which is not pre-installed in Dockerfile '' @
             em_dash @ '' add: RUN npm install --global '' @ pkg))"

definition validateNpxPackages :: "deployment \<Rightarrow> agents_file \<Rightarrow> string list \<Rightarrow> (string \<Rightarrow> string option) \<Rightarrow> bool \<Rightarrow> finding list" where
  "validateNpxPackages d af accts factories anyFactory =
     (if \<not> anyFactory then [Warn npx_section ''nothing to check (no agents or no parsed registry)'']
      else let used = sort (remdups (filter (\<lambda>t. factories t \<noteq> None) (concat (map tools_of (filter (deployed accts) (afAgents af))))))
           in if used = [] then [Pass npx_section ''no locally-used tools resolve through the registry'']
              else case dpTools d of
                     Inl e \<Rightarrow> [Fail npx_section (''cannot parse internal/tools package: '' @ err_text e)]
                   | Inr fs \<Rightarrow>
                       (let toolPkgs = filter (\<lambda>kp. snd kp \<noteq> [])
                              (map (\<lambda>k. (k, reachableNpxPackages fs (the (factories k)))) used)
                        in if toolPkgs = [] then [Pass npx_section ''no npx-backed tools used by locally-deployed agents'']
                           else case dockerfileGlobalNpmPackages (dpRead d ''Dockerfile'') of
                                  Inl e \<Rightarrow> [Fail npx_section (''cannot read Dockerfile: '' @ err_text e)]
                                | Inr installed \<Rightarrow>
                                    concat (map (\<lambda>(k, ps). map (package_finding installed k) ps) toolPkgs)))"

section \<open>The whole examination\<close>

definition doctor :: "deployment \<Rightarrow> finding list" where
  "doctor d =
     (let svcs = parseCompose d;
          accts = localAgentAccounts d svcs;
          (af, agentFindings) = loadAgents d;
          (reg, registryFindings) = loadRegistry d
      in agentFindings @ registryFindings @
         (case (af, reg) of
            (Some f, Some (keys, factories)) \<Rightarrow>
              validateAgentTools f keys accts @ validateNpxPackages d f accts factories (\<exists>k\<in>set keys. factories k \<noteq> None)
          | _ \<Rightarrow> []) @
         validateSecrets d af accts @ validateCompose d svcs)"

text \<open>What is printed, and the exit status.\<close>

definition report :: "bool \<Rightarrow> deployment \<Rightarrow> string \<times> nat" where
  "report color d =
     (Header color (dpRoot d) @ print_findings color None (doctor d) @ [nl] @ Summary color (doctor d) @ [nl],
      if HasFailures (doctor d) then 1 else 0)"

section \<open>A clean bill\<close>

lemma HasFailures_iff: "HasFailures fs \<longleftrightarrow> (\<exists>f\<in>set fs. fgLevel f = Failed)"
  by (auto simp: HasFailures_def level_count_def filter_empty_conv)

lemma levels [simp]: "fgLevel (Pass s t) = Passed" "fgLevel (Fail s t) = Failed" "fgLevel (Warn s t) = Warned"
  by (simp_all add: Pass_def Fail_def Warn_def)

lemma HasFailures_simps [simp]:
  "\<not> HasFailures []"
  "HasFailures (f # fs) \<longleftrightarrow> fgLevel f = Failed \<or> HasFailures fs"
  "HasFailures (fs @ gs) \<longleftrightarrow> HasFailures fs \<or> HasFailures gs"
  "HasFailures (concat fss) \<longleftrightarrow> (\<exists>fs\<in>set fss. HasFailures fs)"
  by (auto simp: HasFailures_iff)

lemma HasFailures_map [simp]: "HasFailures (map (\<lambda>x. Fail s (t x)) xs) \<longleftrightarrow> xs \<noteq> []"
  by (cases xs) (auto simp: HasFailures_iff)

definition sound_agent :: "doc_agent \<Rightarrow> bool" where
  "sound_agent a \<longleftrightarrow> missing_fields a = [] \<and> CHR ''@'' \<in> set (dgEmail a)"

lemma agent_failures_Nil:
  "agent_failures i seen as = [] \<longleftrightarrow>
     list_all sound_agent as \<and> distinct (map (\<lambda>a. to_lower (dgEmail a)) as) \<and>
     (\<forall>a\<in>set as. to_lower (dgEmail a) \<notin> fst ` set seen)"
proof (induction i seen "as" rule: agent_failures.induct)
  case (2 i seen a "as")
  show ?case
  proof (cases "missing_fields a = [] \<and> CHR ''@'' \<in> set (dgEmail a)")
    case True
    show ?thesis
    proof (cases "map_of seen (to_lower (dgEmail a))")
      case None
      let ?seen = "(to_lower (dgEmail a), i) # seen"
      have e: "agent_failures i seen (a # as) = agent_failures (Suc i) ?seen as" using True None by (simp add: Let_def)
      have ih: "agent_failures (Suc i) ?seen as = [] \<longleftrightarrow>
          list_all sound_agent as \<and> distinct (map (\<lambda>a. to_lower (dgEmail a)) as) \<and>
          (\<forall>a\<in>set as. to_lower (dgEmail a) \<notin> fst ` set ?seen)"
        using "2.IH" True None by blast
      have "sound_agent a" "to_lower (dgEmail a) \<notin> fst ` set seen"
        using True None by (simp_all add: sound_agent_def map_of_eq_None_iff)
      then show ?thesis unfolding e ih by (force simp: image_iff)
    next
      case (Some prev)
      then have "to_lower (dgEmail a) \<in> fst ` set seen" by (metis map_of_eq_None_iff option.distinct(1))
      then show ?thesis using True Some by (simp add: Let_def)
    qed
  qed (auto simp: Let_def sound_agent_def split: option.split)
qed simp

lemma loadAgents_clean:
  assumes "\<not> HasFailures (snd (loadAgents d))"
  shows "\<exists>af. fst (loadAgents d) = Some af \<and> afAgents af \<noteq> [] \<and> list_all sound_agent (afAgents af) \<and>
    distinct (map (\<lambda>a. to_lower (dgEmail a)) (afAgents af))"
  using assms agent_failures_Nil [of 0 "[]"]
  by (auto simp: loadAgents_def Let_def split: fsfile.splits sum.splits if_splits)

lemma loadRegistry_clean:
  assumes "\<not> HasFailures (snd (loadRegistry d))"
  shows "\<exists>keys factories. fst (loadRegistry d) = Some (keys, factories)"
  using assms by (auto simp: loadRegistry_def Let_def split: sum.splits)

lemma validateAgentTools_clean:
  assumes "\<not> HasFailures (validateAgentTools af keys accts)" "a \<in> set (afAgents af)" "deployed accts a"
  shows "set (tools_of a) \<subseteq> set keys"
  using assms
  by (auto simp: validateAgentTools_def Let_def unknown_tools_def filter_empty_conv split: if_splits)

lemma validateSecrets_clean:
  assumes "\<not> HasFailures (validateSecrets d (Some af) accts)"
  shows "\<exists>vals. readEnvFile (dpRead d ''configs/secrets.env'') = Inr vals \<and>
    (set_in vals ''ANTHROPIC_API_KEY'' \<or> set_in vals ''OPENROUTER_API_KEY'') \<and>
    (\<forall>a\<in>set (afAgents af). deployed accts a \<longrightarrow> emailAccount (dgEmail a) \<noteq> [] \<longrightarrow>
       set_in vals (password_key (emailAccount (dgEmail a))))"
proof -
  obtain vals where v: "readEnvFile (dpRead d ''configs/secrets.env'') = Inr vals"
    "fgLevel (key_finding vals) \<noteq> Failed" "\<not> HasFailures (password_findings vals accts (afAgents af))"
    using assms by (auto simp: validateSecrets_def split: sum.splits)
  moreover have "filter (\<lambda>a. \<not> set_in vals (password_key (emailAccount (dgEmail a)))) (checked_agents accts (afAgents af)) = []"
    using v(3) by (simp add: password_findings_def Let_def)
  then have "set_in vals (password_key (emailAccount (dgEmail a)))"
    if "a \<in> set (afAgents af)" "deployed accts a" "emailAccount (dgEmail a) \<noteq> []" for a
    using that by (auto simp: checked_agents_def deployed_def filter_empty_conv)
  ultimately show ?thesis by (auto simp: key_finding_def Let_def split: if_splits)
qed

definition sound_service :: "deployment \<Rightarrow> compose_entry \<Rightarrow> bool" where
  "sound_service d svc \<longleftrightarrow>
     CHR ''@'' \<in> set (agent_address d svc) \<and> hasDataVolume (ceVolumes svc) \<and>
     (\<exists>v. environmentMap (dpEnv d) (ceEnvironment svc) ''RUNNING_IN_CONTAINER'' = Some v \<and> equal_fold (trim_space v) ''true'') \<and>
     (\<forall>ef\<in>set (stringsFromScalarOrSeq (ceEnvFile svc)). env_file_failure d ef = [])"

lemma service_clean:
  assumes "\<not> HasFailures (service_findings d (name, svc))"
  shows "sound_service d svc"
  using assms by (auto simp: service_findings_def sound_service_def Let_def split: option.splits if_splits)

lemma validateCompose_clean:
  assumes "\<not> HasFailures (validateCompose d svcs)"
  shows "svcs \<noteq> [] \<and> (\<forall>(name, svc)\<in>set svcs. sound_service d svc)"
proof -
  have "svcs \<noteq> []" "\<forall>ns\<in>set (sort_key fst svcs). \<not> HasFailures (service_findings d ns)"
    using assms by (auto simp: validateCompose_def split: stat_result.splits if_splits fsfile.splits sum.splits)
  then show ?thesis using service_clean by fastforce
qed

text \<open>
  What the agent looks up for its address is what the report checked, when the local part does not end in white space.
\<close>

lemma account_password:
  assumes "set_in vals (password_key (emailAccount email))" "emailAccount email = emailStem email" "emailAccount email \<noteq> []"
  shows "resolveEmailPassword (\<lambda>k. case vals k of Some v \<Rightarrow> v | None \<Rightarrow> []) email \<noteq> []"
  using assms by (auto simp: resolveEmailPassword_def set_in_def password_key_def Let_def split: option.splits)

text \<open>C34. A deployment without failures in its report can start: the roster has agents with distinct addresses and all their fields, there is
  a key for a language model, every agent deployed here has its mailbox password and only tools of the registry, and every
  service names its agent, keeps its data and has its environment files.\<close>

theorem clean_bill_can_start:
  assumes "\<not> HasFailures (doctor d)"
  shows "\<exists>af vals keys factories. fst (loadAgents d) = Some af \<and> fst (loadRegistry d) = Some (keys, factories) \<and>
    readEnvFile (dpRead d ''configs/secrets.env'') = Inr vals \<and>
    afAgents af \<noteq> [] \<and> list_all sound_agent (afAgents af) \<and> distinct (map (\<lambda>a. to_lower (dgEmail a)) (afAgents af)) \<and>
    (set_in vals ''ANTHROPIC_API_KEY'' \<or> set_in vals ''OPENROUTER_API_KEY'') \<and>
    (\<forall>a\<in>set (afAgents af). deployed (localAgentAccounts d (parseCompose d)) a \<longrightarrow>
       set (tools_of a) \<subseteq> set keys \<and>
       (emailAccount (dgEmail a) = emailStem (dgEmail a) \<longrightarrow>
          resolveEmailPassword (\<lambda>k. case vals k of Some v \<Rightarrow> v | None \<Rightarrow> []) (dgEmail a) \<noteq> [])) \<and>
    parseCompose d \<noteq> [] \<and> (\<forall>(name, svc)\<in>set (parseCompose d). sound_service d svc)"
proof -
  let ?svcs = "parseCompose d" let ?accts = "localAgentAccounts d ?svcs"
  have agents: "\<not> HasFailures (snd (loadAgents d))" and registry: "\<not> HasFailures (snd (loadRegistry d))"
    and compose: "\<not> HasFailures (validateCompose d ?svcs)"
    and secrets: "\<not> HasFailures (validateSecrets d (fst (loadAgents d)) ?accts)"
    using assms by (auto simp: doctor_def Let_def split: prod.splits)
  obtain af where af: "fst (loadAgents d) = Some af" "afAgents af \<noteq> []" "list_all sound_agent (afAgents af)"
    "distinct (map (\<lambda>a. to_lower (dgEmail a)) (afAgents af))"
    using loadAgents_clean [OF agents] by blast
  obtain keys factories where reg: "fst (loadRegistry d) = Some (keys, factories)" using loadRegistry_clean [OF registry] by blast
  have tools: "\<not> HasFailures (validateAgentTools af keys ?accts)"
    using assms af(1) reg by (auto simp: doctor_def Let_def split: prod.splits)
  obtain vals where vals: "readEnvFile (dpRead d ''configs/secrets.env'') = Inr vals"
    "set_in vals ''ANTHROPIC_API_KEY'' \<or> set_in vals ''OPENROUTER_API_KEY''"
    "\<forall>a\<in>set (afAgents af). deployed ?accts a \<longrightarrow> emailAccount (dgEmail a) \<noteq> [] \<longrightarrow>
       set_in vals (password_key (emailAccount (dgEmail a)))"
    using validateSecrets_clean secrets af(1) by metis
  have "set (tools_of a) \<subseteq> set keys \<and>
      (emailAccount (dgEmail a) = emailStem (dgEmail a) \<longrightarrow>
         resolveEmailPassword (\<lambda>k. case vals k of Some v \<Rightarrow> v | None \<Rightarrow> []) (dgEmail a) \<noteq> [])"
    if a: "a \<in> set (afAgents af)" "deployed ?accts a" for a
  proof -
    have "emailAccount (dgEmail a) \<noteq> []" using a(2) by (auto simp: deployed_def localAgentAccounts_def)
    then show ?thesis using validateAgentTools_clean [OF tools a] vals(3) a account_password by blast
  qed
  then show ?thesis using af reg vals(1,2) validateCompose_clean [OF compose] by blast
qed

text \<open>A deployment with one agent and one service.\<close>

definition sample_deployment :: "string list \<Rightarrow> deployment" where
  "sample_deployment tools =
     \<lparr>dpRoot = ''/srv/kiku'',
      dpRead = (\<lambda>_. Absent)(''configs/agents.yaml'' := Stored ''agents'', ''docker-compose.yml'' := Stored ''compose'',
        ''configs/secrets.env'' := Stored (''# keys'' @ [nl] @ ''ANTHROPIC_API_KEY=k'' @ [nl] @ ''ANN_EMAIL_PASSWORD='' @ [dquote] @ ''p'' @ [dquote] @ [nl]),
        ''Dockerfile'' := Stored ''RUN npm install -g @box/cli@2''),
      dpStat = (\<lambda>p. if p = ''docker-compose.yml'' \<or> p = ''/srv/kiku/ann.env'' then Exists else Missing),
      dpEnv = (\<lambda>_. []),
      dpDecodeAgents = (\<lambda>_. Inr \<lparr>afEmailServer = ''m:993'', afSmtpServer = ''m:587'',
        afAgents = [\<lparr>dgName = ''Ann'', dgEmail = ''ann@x.org'', dgRole = ''clerk'', dgDescription = ''Files.'', dgTools = Some tools\<rparr>]\<rparr>),
      dpDecodeCompose = (\<lambda>_. Inr [(''ann'', \<lparr>ceEnvFile = Scalar ''ann.env'',
        ceEnvironment = Sequence [Scalar ''AGENT_EMAIL=ann@x.org'', Scalar ''RUNNING_IN_CONTAINER=True''],
        ceVolumes = Sequence [Scalar ''./data/ann:/app/data'']\<rparr>)]),
      dpRegistry = Inr \<lparr>gfVars = [([''registry''], [Composite None [KeyValue (StringLit (Some ''box'')) (Ident ''BoxCLI'')]])], gfFuncs = []\<rparr>,
      dpTools = Inr [\<lparr>gfName = ''BoxCLI'', gfMethod = False, gfDoc = None,
        gfBody = Some (Node [Composite (Some (Ident ''CLIToolConfig'')) [KeyValue (Ident ''Command'') (StringLit (Some ''npx'')),
          KeyValue (Ident ''BaseArgs'') (Composite None [StringLit (Some ''-y''), StringLit (Some ''@box/cli'')])]])\<rparr>]\<rparr>"

lemma clean_bill_can_start_witness:
  "\<exists>af vals keys factories. fst (loadAgents (sample_deployment [''box''])) = Some af \<and>
     fst (loadRegistry (sample_deployment [''box''])) = Some (keys, factories) \<and>
     readEnvFile (dpRead (sample_deployment [''box'']) ''configs/secrets.env'') = Inr vals \<and>
     list_all sound_agent (afAgents af) \<and> (set_in vals ''ANTHROPIC_API_KEY'' \<or> set_in vals ''OPENROUTER_API_KEY'')"
proof -
  have "\<not> HasFailures (doctor (sample_deployment [''box'']))" by code_simp
  from clean_bill_can_start [OF this] show ?thesis by blast
qed

text \<open>
  A tool that the picker offers, remote or private, is no key of the registry literal: the report fails for an agent that has
  one.
\<close>

theorem remote_tools_fail_the_examination:
  "report False (sample_deployment [''box'', ''docs'']) =
     (''kikudoctor'' @ [nl] @ ''  root: /srv/kiku'' @ [nl, nl] @
        print_findings False None (doctor (sample_deployment [''box'', ''docs''])) @ [nl] @
        ''FAIL  15 passed, 0 warning(s), 1 failure(s)'' @ [nl], 1) \<and>
   map fgText (filter (\<lambda>f. fgLevel f = Failed) (doctor (sample_deployment [''box'', ''docs'']))) =
     [''agent '' @ go_quote ''Ann'' @ '' references unknown tool '' @ go_quote ''docs'']"
  by code_simp

end
