(* ===== verification/Pages.thy ===== *)
theory Pages
  imports Agent_Form Knowledge Source_Scan Http
begin

text \<open>
  The pages of the configurator (\<open>scripts/configurator/handlers.go\<close>): the message that survives a redirect in a cookie, and the
  handlers of agents, shared settings, partners and remote servers.  A handler gets the request and the files and gives an
  answer, a page with its data or a redirect; the HTML of a page is left out.
\<close>

section \<open>Messages in a cookie\<close>

text \<open>
  \<open>net/http\<close> writes a cookie without the bytes it does not accept, in quotes when there is a space or a comma, and reads no
  cookie with such bytes.
\<close>

definition cookie_byte :: "char \<Rightarrow> bool" where
  "cookie_byte c \<longleftrightarrow> (of_char c :: nat) \<in> {32..126} - {34, 59, 92}"

definition written_cookie :: "string \<Rightarrow> string" where
  "written_cookie v =
     (let w = filter cookie_byte v
      in if CHR '' '' \<in> set w \<or> CHR '','' \<in> set w then dquote # w @ [dquote] else w)"

definition read_cookie :: "string \<Rightarrow> string option" where
  "read_cookie raw =
     (let v = (if length raw > 1 \<and> hd raw = dquote \<and> last raw = dquote then butlast (tl raw) else raw)
      in if list_all cookie_byte v then Some v else None)"

definition unit_sep :: char where "unit_sep = CHR 0x1F"

definition setFlash :: "string \<Rightarrow> string \<Rightarrow> string" where
  "setFlash kind msg = written_cookie (QueryEscape (kind @ unit_sep # msg))"

text \<open>The message, its kind, and whether the cookie is deleted.\<close>

definition readFlash :: "string option \<Rightarrow> (string \<times> string) \<times> bool" where
  "readFlash cookie =
     (case Option.bind cookie read_cookie of
        None \<Rightarrow> (([], []), False)
      | Some v \<Rightarrow>
          (case QueryUnescape v of
             None \<Rightarrow> (([], []), True)
           | Some t \<Rightarrow>
               (case index_char unit_sep t of
                  None \<Rightarrow> (([], []), True)
                | Some i \<Rightarrow> ((drop (i + 1) t, take i t), True))))"

section \<open>Requests and answers\<close>

record web_request =
  wqPost :: bool
  wqPath :: string
  wqForm :: "string \<Rightarrow> string"
  wqQuery :: "string \<Rightarrow> string"

record agent_extras =
  aeRegistry :: "tool_info list"
  aeCoordinatorPrompt :: string
  aeKeys :: "bool \<times> bool"
  aeKnowledge :: "knowledge_view option"

datatype page =
    HomePage
  | DefaultsPage common_form knowledge_view
  | AgentPage agent_form agent_extras
  | AgentsPage "agent_summary list"
  | ServersPage "mcp_summary list"
  | ServerPage mcp_form "agent_ref list" "string list"
  | PartnersPage "external_summary list"
  | PartnerPage external_form

text \<open>
  A page has the entry of the menu it belongs to and its own message, which may be blank; the cookie, when one is set, comes
  with the kind and the text it carries.
\<close>

datatype web_body = Show string page string string | SeeOther string | Broken string | NoPage

record answer =
  anCookie :: "(string \<times> string) option"
  anBody :: web_body

definition show_page :: "string \<Rightarrow> page \<Rightarrow> answer" where
  "show_page active p = \<lparr>anCookie = None, anBody = Show active p [] []\<rparr>"

definition error_page :: "string \<Rightarrow> page \<Rightarrow> string \<Rightarrow> answer" where
  "error_page active p msg = \<lparr>anCookie = None, anBody = Show active p msg ''error''\<rparr>"

definition redirects :: "string \<Rightarrow> answer" where
  "redirects target = \<lparr>anCookie = None, anBody = SeeOther target\<rparr>"

definition redirects_with :: "string \<Rightarrow> string \<Rightarrow> string \<Rightarrow> answer" where
  "redirects_with kind msg target = \<lparr>anCookie = Some (kind, msg), anBody = SeeOther target\<rparr>"

definition list_page :: "string \<Rightarrow> ('a \<Rightarrow> page) \<Rightarrow> 'a result \<Rightarrow> answer" where
  "list_page active p r = (case r of Inl e \<Rightarrow> \<lparr>anCookie = None, anBody = Broken (err_text e)\<rparr> | Inr x \<Rightarrow> show_page active (p x))"

text \<open>The message a page show_page, given the cookie of the request: its own one, or else the one of the cookie.\<close>

definition shown_message :: "string option \<Rightarrow> answer \<Rightarrow> string \<times> string" where
  "shown_message cookie a =
     (case anBody a of
        Show active p msg kind \<Rightarrow> if msg = [] then fst (readFlash cookie) else (msg, kind)
      | _ \<Rightarrow> ([], []))"

text \<open>The cookie the browser has after the answer.\<close>

definition cookie_after :: "string option \<Rightarrow> answer \<Rightarrow> string option" where
  "cookie_after cookie a =
     (let kept = (case anCookie a of Some (kind, msg) \<Rightarrow> Some (setFlash kind msg) | None \<Rightarrow> cookie)
      in case anBody a of
           Show active p msg kind \<Rightarrow> if msg = [] \<and> snd (readFlash cookie) then None else kept
         | _ \<Rightarrow> kept)"

section \<open>The site\<close>

record site =
  stConf :: conf_disk
  stKnowledge :: knowledge_disk

record site_env =
  seYaml :: yaml
  seSha :: "string \<Rightarrow> string"
  seRnd :: "nat \<Rightarrow> char list result"
  seHttpURL :: "string \<Rightarrow> bool"
  seDocker :: docker
  seTools :: "go_file list result"
  sePrivateTools :: "(string \<times> bool \<times> go_node result) list result"
  seExample :: "string fsfile"

definition on_files :: "(conf_disk, 'a) io \<Rightarrow> (site, 'a) io" where
  "on_files m s = (case m (stConf s) of (r, d) \<Rightarrow> (r, s\<lparr>stConf := d\<rparr>))"

definition picker_infos :: "site_env \<Rightarrow> conf_disk \<Rightarrow> tool_info list result" where
  "picker_infos env d = loadToolRegistry (seTools env) (sePrivateTools env) (loadCatalog (seYaml env) d)"

text \<open>The keys a remote server may not take, when the sources can be read.\<close>

definition builtin_keys :: "site_env \<Rightarrow> conf_disk \<Rightarrow> string list option" where
  "builtin_keys env d =
     (case picker_infos env d of Inl e \<Rightarrow> None | Inr infos \<Rightarrow> Some (map tiKey (filter (\<lambda>i. \<not> tiMCP i) infos)))"

section \<open>Agents\<close>

definition resolveAgentEmail :: "site_env \<Rightarrow> conf_disk \<Rightarrow> string \<Rightarrow> string" where
  "resolveAgentEmail env d s0 =
     (let s = trim_space s0
      in if s = [] \<or> CHR ''@'' \<in> set s then s
         else case loadRoster (seYaml env) d of
                Inl e \<Rightarrow> []
              | Inr r \<Rightarrow>
                  (case find (\<lambda>a. emailStem (adEmail a) = to_lower s) (acAgents r) of
                     Some a \<Rightarrow> adEmail a | None \<Rightarrow> []))"

definition agent_page :: "site_env \<Rightarrow> conf_disk \<Rightarrow> knowledge_view option \<Rightarrow> agent_form \<Rightarrow> page" where
  "agent_page env d kv a =
     AgentPage a
       \<lparr>aeRegistry = (case picker_infos env d of Inr infos \<Rightarrow> infos | Inl e \<Rightarrow> []),
        aeCoordinatorPrompt = snd (commonPromptDefaults (seYaml env) (seExample env) d), aeKeys = hasLLMKeys d, aeKnowledge = kv\<rparr>"

definition handleHome :: "web_request \<Rightarrow> answer" where
  "handleHome q = (if wqPath q \<noteq> ''/'' then \<lparr>anCookie = None, anBody = NoPage\<rparr> else show_page ''home'' HomePage)"

definition handleAgentNew :: "site_env \<Rightarrow> site \<Rightarrow> answer" where
  "handleAgentNew env s = show_page ''new'' (agent_page env (stConf s) None (newAgentForm (seYaml env) (stConf s)))"

definition handleAgentEdit :: "site_env \<Rightarrow> web_request \<Rightarrow> site \<Rightarrow> answer" where
  "handleAgentEdit env q s =
     (let d = stConf s;
          email1 = resolveAgentEmail env d (wqQuery q ''email'');
          email = (if email1 = [] then resolveAgentEmail env d (wqQuery q ''stem'') else email1)
      in if email = [] then redirects ''/agents/list''
         else case loadAgentForm (seYaml env) d email of
                Inl e \<Rightarrow> redirects_with ''error'' (''Load failed: '' @ err_text e) ''/agents/list''
              | Inr a \<Rightarrow> show_page ''list'' (agent_page env d (Some (buildKnowledgeView (stKnowledge s) email)) a))"

definition submitted_agent :: "site_env \<Rightarrow> conf_disk \<Rightarrow> (string \<Rightarrow> string) \<Rightarrow> agent_form" where
  "submitted_agent env d v =
     \<lparr>afOriginalEmail = (if v ''original_email'' = [] then resolveAgentEmail env d (v ''original_stem'') else v ''original_email''),
      afName = v ''name'', afEmail = v ''email'', afEmailPassword = v ''email_password'', afWhitelist = v ''whitelist'',
      afBlacklist = v ''blacklist'', afLLMProvider = v ''llm_provider'', afLLMModel = v ''llm_model'',
      afLLMOpenrouterBackup = (if v ''llm_provider'' \<noteq> ''openrouter'' then [] else v ''llm_openrouter_backup''),
      afSystemPrompt = v ''system_prompt'', afExcludeCollaborators = (v ''exclude_collaborators'' = ''1''), afRole = v ''role'',
      afRoleDesc = v ''role_description'', afTools = splitCSV (v ''tools'')\<rparr>"

text \<open>A failing save answers with the form, and sets the cookie beside it.\<close>

definition handleAgentSave :: "site_env \<Rightarrow> web_request \<Rightarrow> site \<Rightarrow> answer \<times> site" where
  "handleAgentSave env q s =
     (if \<not> wqPost q then (redirects ''/agents/list'', s)
      else let a = submitted_agent env (stConf s) (wqForm q)
           in case save_agent (seYaml env) (seSha env) (seRnd env) a (stConf s) of
                ((_, Inl e), d) \<Rightarrow>
                  (\<lparr>anCookie = Some (''error'', ''Save failed: '' @ err_text e),
                    anBody = Show ''new'' (agent_page env d None a) (err_text e) ''error''\<rparr>, s\<lparr>stConf := d\<rparr>)
              | ((_, Inr _), d) \<Rightarrow>
                  (redirects_with ''success''
                     (''Saved agent '' @ afName a @
                      (if afOriginalEmail a \<noteq> [] \<and> equal_fold (afOriginalEmail a) (afEmail a)
                       then reloadNote (seYaml env) (seDocker env) d [afEmail a] ''tools'' @ ''; other settings apply on restart''
                       else [])) ''/agents/list'', s\<lparr>stConf := d\<rparr>))"

definition handleAgentsList :: "site_env \<Rightarrow> site \<Rightarrow> answer" where
  "handleAgentsList env s = list_page ''list'' AgentsPage (listAgents (seYaml env) (stConf s))"

section \<open>Shared settings\<close>

definition submitted_defaults :: "(string \<Rightarrow> string) \<Rightarrow> common_form" where
  "submitted_defaults v =
     \<lparr>cfEmailServer = v ''EMAIL_SERVER'', cfSMTPServer = v ''SMTP_SERVER'', cfEmailInsecureTLS = (v ''EMAIL_INSECURE_TLS'' = ''1''),
      cfMaxHistoryChars = v ''MAX_HISTORY_CHARS'', cfMaxTokens = v ''MAX_TOKENS'', cfAgentTimeout = v ''AGENT_TIMEOUT'',
      cfSystemPrompt = v ''SYSTEM_PROMPT'', cfAnthropicAPIKey = v ''ANTHROPIC_API_KEY'', cfOpenRouterKey = v ''OPENROUTER_API_KEY''\<rparr>"

definition handleDefaults :: "site_env \<Rightarrow> web_request \<Rightarrow> site \<Rightarrow> answer \<times> site" where
  "handleDefaults env q s =
     (if wqPost q then
        (case on_files (saveCommonDefaults (seYaml env) (submitted_defaults (wqForm q))) s of
           (Inl e, s1) \<Rightarrow> (redirects_with ''error'' (''Save failed: '' @ err_text e) ''/agents/defaults'', s1)
         | (Inr _, s1) \<Rightarrow>
             (redirects_with ''success'' ''Saved configs/agents.yaml (common) and configs/secrets.env'' ''/agents/defaults'', s1))
      else (list_page ''defaults'' (\<lambda>d. DefaultsPage d (buildKnowledgeView (stKnowledge s) ''common''))
              (loadCommonDefaults (seYaml env) (stConf s)), s))"
section \<open>Remote servers\<close>

definition handleMCPList :: "site_env \<Rightarrow> site \<Rightarrow> answer" where
  "handleMCPList env s = list_page ''mcp'' ServersPage (listMCPServers (seYaml env) (stConf s))"

definition newMCPForm :: mcp_form where
  "newMCPForm =
     \<lparr>mfOriginalKey = [], mfKey = [], mfURL = [], mfAuth = ''bearer'', mfDescription = [], mfHeader = [], mfScheme = [],
      mfTokenEnv = [], mfClientIDEnv = [], mfClientSecretEnv = [], mfMetadataURL = [], mfTokenValue = [], mfClientIDValue = [],
      mfClientSecretValue = []\<rparr>"

definition handleMCPNew :: answer where "handleMCPNew = show_page ''mcp-new'' (ServerPage newMCPForm [] [])"

text \<open>The users of a server and those without a token file, as \<open>loadMCPForm\<close> adds them to the form.\<close>

definition server_page :: "site_env \<Rightarrow> conf_disk \<Rightarrow> mcp_form \<Rightarrow> page" where
  "server_page env d f =
     (case loadRoster (seYaml env) d of
        Inl e \<Rightarrow> ServerPage f [] []
      | Inr r \<Rightarrow>
          (let users = agentsUsingKey r (mfKey f)
           in ServerPage f users (if mfAuth f = ''oauth2'' then oauthTokenMissing d (mfKey f) users else [])))"

definition handleMCPEdit :: "site_env \<Rightarrow> web_request \<Rightarrow> site \<Rightarrow> answer" where
  "handleMCPEdit env q s =
     (let key = trim_space (wqQuery q ''key'')
      in if key = [] then redirects ''/mcp''
         else case loadMCPForm (seYaml env) (stConf s) key of
                Inl e \<Rightarrow> redirects_with ''error'' (''Load failed: '' @ err_text e) ''/mcp''
              | Inr f \<Rightarrow> show_page ''mcp'' (server_page env (stConf s) f))"

definition submitted_server :: "(string \<Rightarrow> string) \<Rightarrow> mcp_form" where
  "submitted_server v =
     \<lparr>mfOriginalKey = trim_space (v ''original_key''), mfKey = v ''key'', mfURL = v ''url'', mfAuth = v ''auth'',
      mfDescription = v ''description'', mfHeader = v ''header'', mfScheme = v ''scheme'', mfTokenEnv = v ''token_env'',
      mfClientIDEnv = v ''client_id_env'', mfClientSecretEnv = v ''client_secret_env'', mfMetadataURL = v ''metadata_url'',
      mfTokenValue = v ''token_value'', mfClientIDValue = v ''client_id_value'', mfClientSecretValue = v ''client_secret_value''\<rparr>"

text \<open>The checks of a save leave the form with its key, URL and authentication trimmed.\<close>

definition checked_server :: "mcp_form \<Rightarrow> mcp_form" where
  "checked_server f = f\<lparr>mfKey := trim_space (mfKey f), mfURL := trim_space (mfURL f), mfAuth := normalizeMCPAuth (mfAuth f)\<rparr>"

definition renamed_note :: "mcp_form \<Rightarrow> string" where
  "renamed_note f =
     (if mfOriginalKey f \<noteq> [] \<and> mfOriginalKey f \<noteq> mfKey f
      then '' (renamed from '' @ mfOriginalKey f @ ''; agents'' @ [squote] @ '' tool lists updated'' @
        (if normalizeMCPAuth (mfAuth f) = ''oauth2''
         then spaced_dash @ ''rename any seeded data/<agent>/oauth/'' @ mfOriginalKey f @ ''.json token files too'' else []) @ '')''
      else [])"

definition users_note :: "site_env \<Rightarrow> conf_disk \<Rightarrow> string \<Rightarrow> agent_ref list \<Rightarrow> string" where
  "users_note env d before users =
     (if users \<noteq> [] then before @ reloadNote (seYaml env) (seDocker env) d (map arEmail users) ''MCP catalog'' else [])"

definition handleMCPSave :: "site_env \<Rightarrow> web_request \<Rightarrow> site \<Rightarrow> answer \<times> site" where
  "handleMCPSave env q s =
     (if \<not> wqPost q then (redirects ''/mcp'', s)
      else let f0 = submitted_server (wqForm q); f = checked_server f0
           in case on_files (save_mcp (seYaml env) (seHttpURL env) (builtin_keys env (stConf s)) f0) s of
                (Inl e, s1) \<Rightarrow>
                  (error_page ''mcp''
                     (ServerPage f
                       (case loadRoster (seYaml env) (stConf s1) of
                          Inr r \<Rightarrow> if mfOriginalKey f \<noteq> [] then agentsUsingKey r (mfOriginalKey f) else []
                        | Inl _ \<Rightarrow> []) [])
                     (''Save failed: '' @ err_text e), s1)
              | (Inr users, s1) \<Rightarrow>
                  (redirects_with ''success''
                     (''Saved MCP server '' @ mfKey f @ renamed_note f @ users_note env (stConf s1) [] users) ''/mcp'', s1))"

definition handleMCPDelete :: "site_env \<Rightarrow> web_request \<Rightarrow> site \<Rightarrow> answer \<times> site" where
  "handleMCPDelete env q s =
     (if \<not> wqPost q then (redirects ''/mcp'', s)
      else let key = trim_space (wqForm q ''key'')
           in case on_files (deleteMCPServer (seYaml env) key) s of
                (Inl e, s1) \<Rightarrow> (redirects_with ''error'' (''Delete failed: '' @ err_text e) ''/mcp'', s1)
              | (Inr users, s1) \<Rightarrow>
                  (redirects_with ''success''
                     (''Deleted MCP server '' @ key @
                      users_note env (stConf s1) ('' and removed it from the tools of '' @ join '', '' (map arName users)) users)
                     ''/mcp'', s1))"

section \<open>Partners\<close>

definition handleExternalList :: "site_env \<Rightarrow> site \<Rightarrow> answer" where
  "handleExternalList env s = list_page ''external'' PartnersPage (listExternalAgents (seYaml env) (stConf s))"

definition handleExternalNew :: answer where
  "handleExternalNew = show_page ''external-new''
     (PartnerPage \<lparr>xfOriginalEmail = [], xfName = [], xfEmail = [], xfRole = [], xfDescription = []\<rparr>)"

definition resolveExternalEmail :: "site_env \<Rightarrow> conf_disk \<Rightarrow> string \<Rightarrow> string" where
  "resolveExternalEmail env d email0 =
     (let email = trim_space email0
      in case loadRoster (seYaml env) d of
           Inl e \<Rightarrow> []
         | Inr r \<Rightarrow> if email \<noteq> [] \<and> findExternalIndex r email \<noteq> None then email else [])"

definition handleExternalEdit :: "site_env \<Rightarrow> web_request \<Rightarrow> site \<Rightarrow> answer" where
  "handleExternalEdit env q s =
     (let email = resolveExternalEmail env (stConf s) (wqQuery q ''email'')
      in if email = [] then redirects ''/agents/external''
         else case loadExternalForm (seYaml env) (stConf s) email of
                Inl e \<Rightarrow> redirects_with ''error'' (''Load failed: '' @ err_text e) ''/agents/external''
              | Inr f \<Rightarrow> show_page ''external'' (PartnerPage f))"

definition submitted_partner :: "(string \<Rightarrow> string) \<Rightarrow> external_form" where
  "submitted_partner v =
     \<lparr>xfOriginalEmail = v ''original_email'', xfName = v ''name'', xfEmail = v ''email'', xfRole = v ''role'',
      xfDescription = v ''description''\<rparr>"

definition handleExternalSave :: "site_env \<Rightarrow> web_request \<Rightarrow> site \<Rightarrow> answer \<times> site" where
  "handleExternalSave env q s =
     (if \<not> wqPost q then (redirects ''/agents/external'', s)
      else let f = submitted_partner (wqForm q)
           in case on_files (save_external (seYaml env) f) s of
                (Inl e, s1) \<Rightarrow> (error_page ''external'' (PartnerPage f) (err_text e), s1)
              | (Inr _, s1) \<Rightarrow> (redirects_with ''success'' (''Saved external partner '' @ xfName f) ''/agents/external'', s1))"

definition handleExternalDelete :: "site_env \<Rightarrow> web_request \<Rightarrow> site \<Rightarrow> answer \<times> site" where
  "handleExternalDelete env q s =
     (if \<not> wqPost q then (redirects ''/agents/external'', s)
      else let email = trim_space (wqForm q ''email'');
               fails = (\<lambda>e. redirects_with ''error'' (''Delete failed: '' @ err_text e) ''/agents/external'')
           in case loadRoster (seYaml env) (stConf s) of
                Inl e \<Rightarrow> (fails e, s)
              | Inr r \<Rightarrow>
                  if findExternalIndex r email = None
                  then (redirects_with ''error'' (''No external partner with email '' @ email) ''/agents/external'', s)
                  else case on_files (saveRoster (seYaml env) (removeExternal email r)) s of
                         (Inl e, s1) \<Rightarrow> (fails e, s1)
                       | (Inr _, s1) \<Rightarrow>
                           (redirects_with ''success'' (''Deleted external partner '' @ email) ''/agents/external'', s1))"

section \<open>What the pages are built with\<close>

definition privateToolsAttr :: "tool_info list \<Rightarrow> string" where
  "privateToolsAttr infos = join '','' (map tiKey (filter tiPrivate infos))"

definition mcpToolsAttr :: "tool_info list \<Rightarrow> string" where
  "mcpToolsAttr infos = join '','' (map tiKey (filter tiMCP infos))"

text \<open>The description of a key is that of its last entry; \<open>encoding/json\<close> writes the keys of a map in their order.\<close>

definition toolsDataAttr :: "tool_info list \<Rightarrow> (string \<times> string) list" where
  "toolsDataAttr infos =
     map (\<lambda>k. (k, the (map_of (rev (map (\<lambda>i. (tiKey i, tiDescription i)) infos)) k))) (sort (remdups (map tiKey infos)))"

section \<open>Every message is shown once\<close>

lemma cookie_char_byte: "cookie_char c \<Longrightarrow> cookie_byte c \<and> c \<noteq> CHR '' '' \<and> c \<noteq> CHR '','' \<and> c \<noteq> dquote"
  by (auto simp: cookie_char_def cookie_byte_def)

lemma cookie_round_trip:
  assumes "list_all cookie_char v"
  shows "read_cookie (written_cookie v) = Some v"
proof -
  have b: "list_all cookie_byte v" "CHR '' '' \<notin> set v" "CHR '','' \<notin> set v" "dquote \<notin> set v"
    using assms cookie_char_byte by (auto simp: list_all_iff)
  then have w: "written_cookie v = v" by (simp add: written_cookie_def list_all_iff)
  have "\<not> (length v > 1 \<and> hd v = dquote)" using b(4) by (cases v) auto
  then show ?thesis using b(1) by (auto simp: read_cookie_def w)
qed

lemma readFlash_setFlash:
  assumes "unit_sep \<notin> set kind"
  shows "readFlash (Some (setFlash kind msg)) = ((msg, kind), True)"
  using assms cookie_round_trip [OF QueryEscape_cookie, of "kind @ unit_sep # msg"]
  by (simp add: readFlash_def setFlash_def QueryUnescape_QueryEscape index_char_append)

definition handlers :: "(site_env \<Rightarrow> web_request \<Rightarrow> site \<Rightarrow> answer \<times> site) list" where
  "handlers = [handleAgentSave, handleDefaults, handleMCPSave, handleMCPDelete, handleExternalSave, handleExternalDelete,
     (\<lambda>env q s. (handleAgentEdit env q s, s)), (\<lambda>env q s. (handleMCPEdit env q s, s)),
     (\<lambda>env q s. (handleExternalEdit env q s, s))]"

lemmas handler_defs = handlers_def handleAgentSave_def handleDefaults_def handleMCPSave_def handleMCPDelete_def
  handleExternalSave_def handleExternalDelete_def handleAgentEdit_def handleMCPEdit_def handleExternalEdit_def

lemmas answer_defs = show_page_def error_page_def list_page_def redirects_def redirects_with_def

lemma message_kinds:
  assumes "h \<in> set handlers" "anCookie (fst (h env q s)) = Some (kind, msg)"
  shows "unit_sep \<notin> set kind \<and> (kind = ''success'' \<or> kind = ''error'')"
proof -
  have "kind = ''success'' \<or> kind = ''error''"
    using assms
    by (auto simp: handler_defs answer_defs Let_def split: if_splits sum.splits prod.splits)
  then show ?thesis by (auto simp: unit_sep_def)
qed

text \<open>C36. The outcome of every save and deletion is told, exactly once: the page the browser asks for after the redirect of a handler
  shows its message, byte for byte and with its kind, whatever the message contains and whatever cookie was there before, and
  the page after that shows it no more.\<close>

theorem message_is_shown_once:
  assumes "h \<in> set handlers" "fst (h env q s) = a" "anBody a = SeeOther target" "anCookie a = Some (kind, msg)"
  shows "shown_message (cookie_after old a) (show_page active p) = (msg, kind) \<and>
    cookie_after (cookie_after old a) (show_page active p) = None \<and>
    shown_message None (show_page active' p') = ([], [])"
proof -
  have "unit_sep \<notin> set kind" using message_kinds [OF assms(1), of env q s] assms(2,4) by simp
  then have r: "readFlash (cookie_after old a) = ((msg, kind), True)"
    using assms(3,4) by (simp add: cookie_after_def readFlash_setFlash)
  then have "cookie_after (cookie_after old a) (show_page active p) = None"
    unfolding cookie_after_def [of "cookie_after old a"] by (simp add: show_page_def)
  with r show ?thesis by (simp add: shown_message_def show_page_def) (simp add: readFlash_def)
qed

text \<open>A form that is posted, and a site with the remote server \<open>crm\<close> and a private tool.\<close>

definition posted :: "(string \<times> string) list \<Rightarrow> web_request" where
  "posted kvs = \<lparr>wqPost = True, wqPath = ''/'', wqForm = (\<lambda>k. case map_of kvs k of Some v \<Rightarrow> v | None \<Rightarrow> []), wqQuery = (\<lambda>k. [])\<rparr>"

definition page_env :: site_env where
  "page_env = \<lparr>seYaml = rename_yaml, seSha = (\<lambda>s. []), seRnd = (\<lambda>n. Inr []), seHttpURL = (\<lambda>u. True),
     seDocker = \<lparr>dkOnPath = False, dkKill = (\<lambda>ts. None)\<rparr>, seTools = Inr [],
     sePrivateTools = Inr [(''pay.go'', False, Inr private_tool)], seExample = Absent\<rparr>"

definition page_site :: site where
  "page_site = \<lparr>stConf = rename_disk, stKnowledge = knowledge_sample\<rparr>"

definition unknown_partner :: answer where
  "unknown_partner = fst (handleExternalDelete page_env (posted [(''email'', '' zed@x.org '')]) page_site)"

lemma message_is_shown_once_witness:
  "shown_message (cookie_after (Some ''old'') unknown_partner) (handleExternalList page_env page_site) =
     (''No external partner with email zed@x.org'', ''error'')"
proof -
  have h: "handleExternalDelete \<in> set handlers" by (simp add: handlers_def)
  have a: "anBody unknown_partner = SeeOther ''/agents/external''"
    "anCookie unknown_partner = Some (''error'', ''No external partner with email zed@x.org'')" by code_simp+
  have p: "handleExternalList page_env page_site = show_page ''external'' (PartnersPage [])" by code_simp
  show ?thesis
    unfolding p using message_is_shown_once [OF h unknown_partner_def [symmetric] a] by blast
qed

text \<open>A failing save of an agent tells its error on the form, and once more on the next page.\<close>

lemma failed_agent_save_is_told_twice:
  assumes "handleAgentSave env q s = (a, s')" "anCookie a = Some (''error'', msg)" "anBody a = Show active p text kind" "text \<noteq> []"
  shows "shown_message old a = (text, ''error'') \<and> msg = ''Save failed: '' @ text \<and>
    shown_message (cookie_after old a) (show_page active' p') = (msg, ''error'')"
proof -
  have "kind = ''error''" "msg = ''Save failed: '' @ text"
    using assms(1-3) by (auto simp: handleAgentSave_def answer_defs Let_def split: if_splits sum.splits prod.splits)
  moreover have "unit_sep \<notin> set ''error''" by (simp add: unit_sep_def)
  ultimately show ?thesis
    using assms(2-4) readFlash_setFlash [of "''error''" msg]
    by (simp add: shown_message_def cookie_after_def show_page_def)
qed

section \<open>A saved server is offered\<close>

lemma registry_layers:
  "\<exists>L. (\<forall>i\<in>set L. \<not> tiMCP i) \<and>
    (\<forall>servers. loadToolRegistry (Inr files) privDir servers =
       Inr (L @ mcp_infos (tiKey ` set L) (case servers of Inr ss \<Rightarrow> ss | Inl e \<Rightarrow> [])))"
proof -
  obtain keys desc where k: "collectPrivateRegistrations privDir = (keys, desc)" by fastforce
  let ?static = "map (static_info files) (map fst (registry_pairs files))"
  let ?priv = "map (\<lambda>k. \<lparr>tiKey = k, tiDescription = desc k, tiPrivate = True, tiMCP = False\<rparr>)
    (filter (\<lambda>k. k \<notin> set (map tiKey ?static)) keys)"
  have "\<forall>i\<in>set (?static @ ?priv). \<not> tiMCP i" by (auto simp: static_info_def Let_def)
  moreover have "loadToolRegistry (Inr files) privDir servers =
      Inr ((?static @ ?priv) @ mcp_infos (tiKey ` set (?static @ ?priv)) (case servers of Inr ss \<Rightarrow> ss | Inl e \<Rightarrow> []))" for servers
    unfolding loadToolRegistry_def result_simps Let_def k prod.case
    by (simp only: append_assoc set_append image_Un set_map)
  ultimately show ?thesis by blast
qed

lemma mcp_infos_member:
  assumes "s \<in> set ss" "distinct (map row_key ss)" "row_key s \<notin> seen" "row_key s \<noteq> []"
  shows "\<lparr>tiKey = row_key s, tiDescription = msDescription s, tiPrivate = False, tiMCP = True\<rparr> \<in> set (mcp_infos seen ss)"
  using assms
proof (induction seen ss rule: mcp_infos.induct)
  case (2 seen x xs)
  show ?case
  proof (cases "s = x")
    case True
    with 2(5,6) show ?thesis by (simp add: Let_def row_key_def)
  next
    case False
    then have m: "s \<in> set xs" using 2(3) by simp
    moreover have "row_key x \<notin> row_key ` set xs" using 2(4) by simp
    ultimately have k: "row_key s \<noteq> row_key x" by (metis imageI)
    show ?thesis
    proof (cases "row_key x = [] \<or> row_key x \<in> seen")
      case True
      with 2(1,4-6) m k show ?thesis by (simp add: Let_def row_key_def)
    next
      case False
      with 2(2,4-6) m k show ?thesis by (simp add: Let_def row_key_def)
    qed
  qed
qed simp

lemma saved_with_success:
  assumes "handleMCPSave env q s = (a, s')" "anCookie a = Some (''success'', msg)"
  obtains users where "save_mcp (seYaml env) (seHttpURL env) (builtin_keys env (stConf s)) (submitted_server (wqForm q)) (stConf s) =
      (Inr users, stConf s')"
  using assms
  by (auto simp: handleMCPSave_def on_files_def answer_defs Let_def split: if_splits sum.splits prod.splits)

lemma valid_server:
  assumes "validate_mcp http_url builtin f0 = Inr f"
  shows "f = checked_server f0" "msKey (toServer f) = mfKey f" "row_key (toServer f) = mfKey f" "mfKey f \<noteq> []"
    "builtin = Some ks \<Longrightarrow> mfKey f \<notin> set ks"
proof -
  obtain u where u: "first_error (mcp_checks http_url builtin f) = Inr u" and f: "f = checked_server f0"
    using assms unfolding validate_mcp_def Let_def checked_server_def [symmetric] by (cases "first_error (mcp_checks http_url builtin (checked_server f0))") auto
  from u have c: "list_all (\<lambda>(bad, msg). \<not> bad) (mcp_checks http_url builtin f)" by (simp only: first_error_ok)
  have "trim_space (mfKey f) = mfKey f" by (simp add: f checked_server_def)
  then show "f = checked_server f0" "msKey (toServer f) = mfKey f" "row_key (toServer f) = mfKey f"
    using f by (simp_all add: toServer_def Let_def row_key_def)
  show "mfKey f \<noteq> []" using c by (simp add: mcp_checks_def Let_def)
  show "builtin = Some ks \<Longrightarrow> mfKey f \<notin> set ks" using c by (simp add: mcp_checks_def Let_def)
qed

text \<open>C35. A remote server saved with success is offered by the tool picker from then on, under its key and with its description,
  marked as remote; the built-in and private tools are offered as before, in their order, and none of them is hidden by it.\<close>

theorem saved_server_is_offered:
  assumes "handleMCPSave env q s = (a, s')" "anCookie a = Some (''success'', msg)" "seTools env = Inr files"
    "loadCatalog (seYaml env) (stConf s) = Inr ss" "distinct (map row_key ss)" "f = checked_server (submitted_server (wqForm q))"
    "\<forall>b. yaShowServers (seYaml env) (put_row (mfOriginalKey f) (toServer f) ss) = Inr b \<longrightarrow>
       yaReadServers (seYaml env) (mcpServersHeader @ b) = Inr (put_row (mfOriginalKey f) (toServer f) ss)"
  shows "\<exists>infos infos'. picker_infos env (stConf s) = Inr infos \<and> picker_infos env (stConf s') = Inr infos' \<and>
    filter (\<lambda>i. \<not> tiMCP i) infos' = filter (\<lambda>i. \<not> tiMCP i) infos \<and>
    \<lparr>tiKey = trim_space (wqForm q ''key''), tiDescription = trim_space (wqForm q ''description''), tiPrivate = False, tiMCP = True\<rparr>
      \<in> set infos' \<and>
    trim_space (wqForm q ''key'') \<notin> tiKey ` {i \<in> set infos. \<not> tiMCP i}"
proof -
  let ?ya = "seYaml env" and ?f0 = "submitted_server (wqForm q)" and ?builtin = "builtin_keys env (stConf s)"
  obtain users where save: "save_mcp ?ya (seHttpURL env) ?builtin ?f0 (stConf s) = (Inr users, stConf s')"
    using saved_with_success [OF assms(1,2)] by blast
  then obtain f1 r where v: "validate_mcp (seHttpURL env) ?builtin ?f0 = Inr f1" and r: "loadRoster ?ya (stConf s) = Inr r"
    using assms(4) by (auto simp: save_mcp_def Let_def split: sum.splits if_splits prod.splits)
  then have f: "f1 = f" using valid_server(1) assms(6) by simp
  note valid = valid_server [OF v, unfolded f]
  obtain r1 renamed where pu: "put_users (mfOriginalKey f) (toServer f) r = (r1, renamed)" by (metis prod.collapse)
  note saved = saved_catalog [OF v [unfolded f] assms(4) r save pu assms(7)]
  note rows = set_put_row [OF assms(5) _ saved(1)]
  obtain L where L: "\<forall>i\<in>set L. \<not> tiMCP i" "\<And>servers. loadToolRegistry (seTools env) (sePrivateTools env) servers =
      Inr (L @ mcp_infos (tiKey ` set L) (case servers of Inr ss \<Rightarrow> ss | Inl e \<Rightarrow> []))"
    using registry_layers [of files "sePrivateTools env"] assms(3) by auto
  let ?infos = "\<lambda>ss. L @ mcp_infos (tiKey ` set L) ss"
  have reg: "picker_infos env (stConf s) = Inr (?infos ss)"
    "picker_infos env (stConf s') = Inr (?infos (put_row (mfOriginalKey f) (toServer f) ss))"
    using assms(4) saved(2) L(2) by (simp_all add: picker_infos_def)
  have local: "filter (\<lambda>i. \<not> tiMCP i) (?infos xs) = L" for xs
    using L(1) mcp_infos_keys [of "tiKey ` set L" xs] by (auto simp: filter_empty_conv)
  then have nonremote: "{i \<in> set (?infos ss). \<not> tiMCP i} = set L" by (metis set_filter)
  have "?builtin = Some (map tiKey L)" using arg_cong [OF local [of ss], of "map tiKey"] by (simp add: builtin_keys_def reg(1))
  then have new: "mfKey f \<notin> tiKey ` set L" using valid(5) by auto
  have "\<lparr>tiKey = row_key (toServer f), tiDescription = msDescription (toServer f), tiPrivate = False, tiMCP = True\<rparr>
      \<in> set (mcp_infos (tiKey ` set L) (put_row (mfOriginalKey f) (toServer f) ss))"
    using rows valid new by (intro mcp_infos_member) auto
  moreover have "mfKey f = trim_space (wqForm q ''key'')" "msDescription (toServer f) = trim_space (wqForm q ''description'')"
    unfolding assms(6) by (simp_all add: checked_server_def submitted_server_def toServer_def Let_def)
  ultimately show ?thesis using reg local new valid(3) nonremote
    by (intro exI [of _ "?infos ss"] exI [of _ "?infos (put_row (mfOriginalKey f) (toServer f) ss)"]) (simp only:, simp)
qed

text \<open>The server \<open>crm\<close> becomes \<open>sky\<close>.\<close>

definition rename_request :: web_request where
  "rename_request = posted [(''original_key'', ''crm''), (''key'', '' sky ''), (''url'', ''https://sky.org/mcp''), (''auth'', ''bearer''),
     (''token_env'', ''SKY_TOKEN''), (''token_value'', ''t0k'')]"

lemma saved_server_is_offered_witness:
  "\<exists>infos. picker_infos page_env (stConf (snd (handleMCPSave page_env rename_request page_site))) = Inr infos \<and>
     \<lparr>tiKey = ''sky'', tiDescription = [], tiPrivate = False, tiMCP = True\<rparr> \<in> set infos"
proof -
  let ?r = "handleMCPSave page_env rename_request page_site"
  let ?f = "checked_server (submitted_server (wqForm rename_request))"
  have "map_option fst (anCookie (fst ?r)) = Some ''success''" by code_simp
  then obtain msg where a: "anCookie (fst ?r) = Some (''success'', msg)" by auto
  have c: "loadCatalog (seYaml page_env) (stConf page_site) = Inr [crm_row]" by code_simp
  have row: "put_row (mfOriginalKey ?f) (toServer ?f) [crm_row] = [toServer sky_form]" by code_simp
  have law: "\<forall>b. yaShowServers (seYaml page_env) (put_row (mfOriginalKey ?f) (toServer ?f) [crm_row]) = Inr b \<longrightarrow>
      yaReadServers (seYaml page_env) (mcpServersHeader @ b) = Inr (put_row (mfOriginalKey ?f) (toServer ?f) [crm_row])"
    unfolding row by (simp add: page_env_def rename_yaml_def mcpServersHeader_def)
  have t: "seTools page_env = Inr []" by (simp add: page_env_def)
  have k: "trim_space (wqForm rename_request ''key'') = ''sky''" "trim_space (wqForm rename_request ''description'') = []" by code_simp+
  show ?thesis
    using saved_server_is_offered [OF prod.collapse [symmetric] a t c _ refl law] k by auto
qed

end
