(* ===== verification/Spec2Isabelle.thy ===== *)
theory Spec2Isabelle
  imports Status Poller Toolset Agent_Form Snooze_Tools Knowledge Dms_Service Mcp_Client Box Xero Doctor Pages
begin

text \<open>
  A verification library of kikubot, a team of LLM agents that work by e-mail.  Every agent is one process
  (\<open>cmd/kikubot/main.go\<close>) with a mailbox of its own: it polls the mailbox, decides which messages it may read, runs the
  conversation with a language model on each of them, lets the model call tools (among them the ones that send mail), keeps
  the history of every thread in a file, and repeats scheduled tasks.  A separate program, the configurator
  (\<open>scripts/configurator\<close>), edits the files a deployment is made of: the roster \<open>agents.yaml\<close>, the secrets, the catalog of
  remote tool servers, the compose file, the settings and accounts of the bundled mail server, the knowledge files.  Small
  programs beside it examine a deployment (\<open>scripts/kikudoctor\<close>) and list the tools (\<open>scripts/tools_list\<close>).

  \<^bold>\<open>How the parts work together.\<close>  A poll (\<open>Poller\<close>) first reloads the knowledge and the tools, then looks after new mail, and
  only then runs what is due (\<open>Scheduler\<close>): scheduled tasks, which replay the message they were set on, and watchdogs, which
  look after tasks given to a co-worker that does not answer.  For new mail it takes
  the unseen messages from the mailbox (\<open>Mail_Transport\<close>), drops automatic ones, asks access control (\<open>Acl\<close>), loads the
  memory of the thread (\<open>Threads\<close>, cleaned by \<open>Memory_Json\<close>), and hands the message to the agent (\<open>Agent_Loop\<close>), which trims
  its history (\<open>History\<close>), talks to a provider (\<open>Provider\<close>) and executes the tools of its tool set (\<open>Toolset\<close>): the send tools
  (\<open>Sending\<close>), the task status (\<open>Status\<close>), the schedule (\<open>Snooze_Tools\<close> over \<open>Snooze\<close>), commands and files
  (\<open>Local_Tools\<close>), remote servers (\<open>Mcp_Client\<close>), Box and Xero (\<open>Box\<close>, \<open>Xero\<close>).  What the configurator writes is what the
  agent reads: \<open>Config\<close> reads the roster that \<open>Tables\<close>, \<open>Agent_Form\<close> and \<open>Mcp_Catalog\<close> edit, \<open>Envfile\<close> keeps the secrets
  that both look up, and \<open>Knowledge\<close> the files that \<open>Toolset\<close> puts into the prompt.

  \<^bold>\<open>Theories and code.\<close>
  \<^item> \<open>Prelude\<close>: the functions of Go's \<open>strings\<close> and \<open>strconv\<close> that the code calls, on strings that are the
    bytes of the Go string; the results \<open>Inl error\<close> and \<open>Inr value\<close>; the state monad \<open>io\<close> of operations that return
    such a result and a new state, whatever the result.  \<open>Encoding\<close>: base64, hexadecimal, UTF-8 and header encodings with
    their round trips.  \<open>Json\<close>: the values and the parser and printer of \<open>encoding/json\<close>.  \<open>Gotime\<close>: instants, zones and
    the format of dates.  \<open>Messages\<close>: content blocks and messages of a conversation.  \<open>Filepath\<close>: paths of
    \<open>path/filepath\<close>.  \<open>Http\<close>: requests, responses, the encoding of queries, and the notion of an operation that sends
    requests of a kind, at most so many of them (\<open>sends\<close>) or keeps a property (\<open>keeps\<close>).
  \<^item> \<open>Keyed_Store\<close>: the interface \<open>keyed_store\<close> of a store with one value per key (a look-up after a store, other keys
    untouched, the invariant kept).  It is interpreted on the entries of the snooze file (\<open>Snooze\<close>), the memory files and
    the thread index (\<open>Threads\<close>), the agents and the partners of the roster (\<open>Tables\<close>).
  \<^item> \<open>Config\<close>: \<open>internal/config/config.go\<close> and \<open>env_vars.go\<close>, the decoded roster and the settings merged from environment,
    agent and common section.
  \<^item> \<open>Email\<close>, \<open>Mail_Transport\<close>: \<open>internal/services/emailing.go\<close>, the values of a message and the IMAP and SMTP operations
    on a record of the servers and caches.
  \<^item> \<open>Snooze\<close>: \<open>internal/services/snooze.go\<close>; \<open>Snooze_Tools\<close>: \<open>internal/tools/snooze.go\<close>.
  \<^item> \<open>Memory_Json\<close>, \<open>Threads\<close>: \<open>internal/services/memory.go\<close> and \<open>thread_index.go\<close>.  The stages of the clean-up satisfy
    the interface \<open>message_stage\<close>, and so do their compositions (\<open>two_stages\<close>).
  \<^item> \<open>Acl\<close>: \<open>internal/agents/acl.go\<close>.  \<open>History\<close>, \<open>Agent_Loop\<close>: \<open>internal/agents/agent.go\<close>.
  \<^item> \<open>Provider\<close>: \<open>internal/provider\<close>; the three providers satisfy the interface \<open>llm_provider\<close>.
  \<^item> \<open>Sending\<close>: \<open>internal/tools/send_helper.go\<close>, \<open>report_strict.go\<close>, \<open>hooks.go\<close> and \<open>internal/services/send_tracker.go\<close>;
    \<open>Status\<close>: \<open>internal/tools/status.go\<close>; \<open>Toolset\<close>: \<open>internal/tools/registry.go\<close>, \<open>mcp_servers.go\<close> and the assembly of
    tools and prompt in \<open>cmd/kikubot/main.go\<close>.
  \<^item> \<open>Scheduler\<close>, \<open>Poller\<close>: the loops of \<open>cmd/kikubot/main.go\<close> over the due entries and over new mail.
  \<^item> \<open>Envfile\<close> (\<open>envfile.go\<close>, \<open>secrets.go\<close>), \<open>Tables\<close> (\<open>roster.go\<close>, \<open>external.go\<close>), \<open>Mcp_Catalog\<close> (\<open>mcp.go\<close>), \<open>Compose\<close>
    (\<open>compose.go\<close>), \<open>Postfix\<close> (\<open>postfix.go\<close>), \<open>Dms_Accounts\<close> (\<open>dms_accounts.go\<close>) and \<open>Agent_Form\<close> (\<open>agents.go\<close>) of the
    configurator.
  \<^item> \<open>Line_Settings\<close>: settings of a file in the form \<open>key: value\<close>, read and replaced line by line.  \<open>Knowledge\<close>:
    \<open>knowledge.go\<close>, \<open>reload.go\<close> and the pages of knowledge files in \<open>handlers.go\<close>.  \<open>Dms_Service\<close>: \<open>dms.go\<close>,
    \<open>dms_dkim.go\<close> and the mail page of \<open>handlers.go\<close>.  \<open>Source_Scan\<close>: \<open>registry.go\<close> of the configurator and
    \<open>scripts/tools_list/main.go\<close>, which read the Go sources of the tools as syntax trees.
  \<^item> \<open>Token_Files\<close>: the writing of a token file through a temporary file, with the interface \<open>file_store\<close> (what was saved last
    is what is read).  It is interpreted in \<open>Mcp_Client\<close> (\<open>internal/tools/mcp_helper.go\<close>, \<open>oauth_store.go\<close>) and in \<open>Xero\<close>
    (\<open>internal/services/xero_oauth.go\<close>, \<open>internal/tools/xero_api.go\<close>).
  \<^item> \<open>Local_Tools\<close>: \<open>bash.go\<close>, \<open>cli_helper.go\<close>, \<open>download.go\<close>, \<open>file_text.go\<close>, \<open>save_attachment.go\<close>, \<open>mbox_search.go\<close> of
    \<open>internal/tools\<close> and \<open>internal/services/tika.go\<close>.  \<open>Box\<close>: \<open>internal/tools/box_cli.go\<close>.
  \<^item> \<open>Pages\<close>: the handlers of \<open>handlers.go\<close> for agents, shared settings, partners and remote servers, over the forms and
    saves of the other configurator theories, and the message that a redirect carries in a cookie.
  \<^item> \<open>Doctor\<close>: \<open>scripts/kikudoctor\<close>, whose report is the list of its findings.

  Definitions carry the names of the Go functions.  Structures are records, enumerations datatypes, files and servers fields
  of records that the operations return updated; a failing call of the operating system is a field of the state that says
  which call fails, so that error paths are values.  A string is the list of its bytes; machine integers are \<open>int\<close> or
  \<open>nat\<close> with the wrap-around written out where the code can reach it, and words where it works on bits.

  \<^bold>\<open>What the lemmas show.\<close>  Every component has its invariant with the lemmas that its operations keep it, the behaviour of
  each operation on its branches, and the round trips of what it writes and reads.  The properties, marked with C and a
  number, join them: which messages reach the model and where a send tool may deliver; that the loop over a message and the
  loop over due entries end; that every tool call is answered, once, on input that parses; that one task and one
  watchdog per thread survive every order of operations and failing writes; that a status follows a delivery; that what the
  configurator saves is what its pages show again and what the agent, the mail server and access control then read.

  \<^bold>\<open>Bounds.\<close>  The agent's loop has the code's own bound \<open>maxTurns\<close> and recurses on it.  The loop over due entries has none
  in the code: it is given fuel, and \<open>due_loop_ends\<close> shows, with a clock that moves and runs that may schedule for later, that
  one more than the number of entries that can become due while it runs suffices when the stored crontabs parse and the file
  can be written; \<open>unparsable_task_blocks_the_loop\<close> shows that it need not end when one does not parse.  Retries recurse on
  the number of attempts left.  Scanners over texts recurse on the text or on a measure of what is left of it.

  \<^bold>\<open>Parameters.\<close>  Code that is not in the repository is an argument of the definitions: the language model and the
  SDK clients, the mailbox and the mail servers, the YAML library (a record of a decoder and an encoder with the law that
  decoding undoes encoding), the cron parser, the time-zone database, the SHA-512 digest, random numbers, the URL parser,
  the MCP library, the HTTP clients, the text extraction services, the runner of commands, Docker, the signing of
  certificates, the parser of Go sources.  A property that needs a law of such a parameter names it as a
  hypothesis, and its witness instantiates the parameter by a concrete function.

  \<^bold>\<open>Not modelled.\<close>  Goroutines, locks and signals (the model runs one poll after another, as the loop of the program does
  between two reloads); logging; flags and the look-up of paths at the start; the clients of the other third-party services
  (\<open>helpjuice.go\<close>, \<open>nuki.go\<close>, \<open>vimeo.go\<close>, \<open>weather.go\<close>, \<open>supabase.go\<close>, \<open>wordpress.go\<close>, \<open>docgen.go\<close>), whose substance is the
  behaviour of those services; the HTML of the pages, their routing and the static files;
  \<open>scripts/xero-bootstrap\<close>, an interactive log-in; descriptions and schemas of tools, which are data.
\<close>

end
